(* ===== verification/Prelude.thy ===== *)
theory Prelude
  imports Main "HOL-Library.Word" "HOL-Library.Signed_Division" "HOL-Library.Multiset"
begin

unbundle bit_operations_syntax

text \<open>
  What every component of the model shares: the C integer types, the constants of
  \<^verbatim>\<open>stdint.h\<close>, byte memories, searching and updating of arrays, selection of a best
  candidate by a loop, and the collections of rewrite rules the component theories extend.

  \<^item> \<open>uint8_t\<close>, \<open>uint16_t\<close>, \<open>uint32_t\<close> and \<open>uint64_t\<close> are words of that width, so addition,
    subtraction and multiplication wrap as in C.  A signed \<open>int32_t\<close> object is the word with the
    same bits, read by \<open>sint\<close>; the code widens to \<open>int64_t\<close> before it computes with such values,
    and the model computes in \<open>int\<close> there.
  \<^item> \<open>size_t\<close> is \<open>nat\<close> with the bound \<open>SIZE_MAX\<close> written out where the code tests it.
  \<^item> An array owned by a structure is a list; a C index or pointer into it is a \<open>nat\<close>.
  \<^item> Allocation is a parameter \<open>alloc\<close> of the operations that allocate: \<open>alloc n\<close> says that a
    request for \<open>n\<close> bytes succeeds.
\<close>

section \<open>Integer types and constants\<close>

type_synonym u8 = "8 word"
type_synonym u16 = "16 word"
type_synonym u32 = "32 word"
type_synonym u64 = "64 word"
type_synonym i32 = "32 word"
type_synonym mem = "nat \<Rightarrow> u8"
type_synonym allocator = "nat \<Rightarrow> bool"

definition SIZE_MAX :: nat where
  "SIZE_MAX = 2 ^ 64 - 1"

definition UINT32_MAX :: nat where
  "UINT32_MAX = 2 ^ 32 - 1"

definition INT32_MAX :: int where
  "INT32_MAX = 2 ^ 31 - 1"

definition INT32_MIN :: int where
  "INT32_MIN = - (2 ^ 31)"

named_theorems roster_simps \<open>what an operation leaves of the roster's identities\<close>
named_theorems frame_simps \<open>fields an operation does not write\<close>
named_theorems codec_simps \<open>sizes and results of the byte codecs\<close>

section \<open>Bytes of a memory\<close>

text \<open>Little-endian reads of 16 and 32 bits.\<close>

definition rd16 :: "mem \<Rightarrow> nat \<Rightarrow> nat" where
  "rd16 r a = unat (r a) + 256 * unat (r (a + 1))"

lemma rd16_less: "rd16 r a < 65536"
proof -
  have "unat (r a) < 256" "unat (r (a + 1)) < 256"
    using unsigned_less [of "r a", where 'a = nat] unsigned_less [of "r (a + 1)", where 'a = nat] by simp_all
  then show ?thesis by (simp add: rd16_def)
qed

lemma rd16_cong: "r a = r' a \<Longrightarrow> r (Suc a) = r' (Suc a) \<Longrightarrow> rd16 r a = rd16 r' a"
  by (simp add: rd16_def)

section \<open>Searching and updating arrays\<close>

fun find_index :: "('a \<Rightarrow> bool) \<Rightarrow> 'a list \<Rightarrow> nat option" where
  "find_index P [] = None"
| "find_index P (x # xs) = (if P x then Some 0 else map_option Suc (find_index P xs))"

definition upd_at :: "nat \<Rightarrow> ('a \<Rightarrow> 'a) \<Rightarrow> 'a list \<Rightarrow> 'a list" where
  "upd_at i f xs = xs[i := f (xs ! i)]"

lemma find_index_None: "find_index P xs = None \<longleftrightarrow> (\<forall>x \<in> set xs. \<not> P x)"
  by (induction xs) auto

lemma find_index_Some:
  "find_index P xs = Some i \<Longrightarrow> i < length xs \<and> P (xs ! i) \<and> (\<forall>j < i. \<not> P (xs ! j))"
proof (induction xs arbitrary: i)
  case Nil
  then show ?case by simp
next
  case (Cons x xs)
  show ?case
  proof (cases "P x")
    case True
    with Cons.prems show ?thesis by simp
  next
    case False
    with Cons.prems obtain k where k: "find_index P xs = Some k" "i = Suc k" by auto
    have IH: "k < length xs \<and> P (xs ! k) \<and> (\<forall>j < k. \<not> P (xs ! j))"
      by (rule Cons.IH [OF k(1)])
    have "\<not> P ((x # xs) ! j)" if "j < Suc k" for j
      using that IH False by (cases j) auto
    with IH k(2) show ?thesis by simp
  qed
qed

lemma find_index_less [dest]: "find_index P xs = Some i \<Longrightarrow> i < length xs"
  by (drule find_index_Some) simp

lemma find_index_map: "find_index P (map f xs) = find_index (P \<circ> f) xs"
  by (induction xs) (auto simp: comp_def)

lemma length_upd_at [simp]: "length (upd_at i f xs) = length xs"
  by (simp add: upd_at_def)

lemma nth_upd_at: "i < length xs \<Longrightarrow> upd_at i f xs ! j = (if j = i then f (xs ! i) else xs ! j)"
  by (simp add: upd_at_def)

lemma nth_upd_at_other [simp]: "j \<noteq> i \<Longrightarrow> upd_at i f xs ! j = xs ! j"
  by (simp add: upd_at_def)

lemma nth_upd_at_same [simp]: "i < length xs \<Longrightarrow> upd_at i f xs ! i = f (xs ! i)"
  by (simp add: upd_at_def)

lemma upd_at_outside [simp]: "length xs \<le> i \<Longrightarrow> upd_at i f xs = xs"
  by (simp add: upd_at_def list_update_beyond)

lemma map_upd_at_same:
  assumes "\<And>x. g (f x) = g x"
  shows "map g (upd_at i f xs) = map g xs"
proof (cases "i < length xs")
  case True
  then show ?thesis
    by (intro nth_equalityI) (auto simp: nth_upd_at assms)
qed simp

lemma upd_at_field:
  assumes "\<And>x. g (f x) = g x"
  shows "g (upd_at i f xs ! j) = g (xs ! j)"
  using assms by (cases "i < length xs"; cases "j = i") simp_all

lemma set_upd_at: "i < length xs \<Longrightarrow> set (upd_at i f xs) \<subseteq> insert (f (xs ! i)) (set xs)"
  by (auto simp: upd_at_def dest: set_update_subset_insert [THEN subsetD])

lemma upd_at_upd_at [simp]: "upd_at i f (upd_at i g xs) = upd_at i (f \<circ> g) xs"
  by (cases "i < length xs") (simp_all add: upd_at_def list_update_beyond)

lemma sorted_map_dropWhile:
  "sorted (map f xs) \<Longrightarrow> sorted (map f (dropWhile P xs))"
  using sorted_wrt_append [of "\<lambda>x y. f x \<le> f y" "takeWhile P xs" "dropWhile P xs"]
  by (simp add: sorted_map)

section \<open>Selecting the best candidate\<close>

text \<open>
  The code chooses nearest players, collision winners, exits, anchors and the camera leader by
  the same loop: keep the first candidate, replace it when a later one is better.  \<open>pick\<close> is that
  loop; the locale states when its result is a best one.
\<close>

fun pick :: "('a \<Rightarrow> 'a \<Rightarrow> bool) \<Rightarrow> 'a option \<Rightarrow> 'a list \<Rightarrow> 'a option" where
  "pick better acc [] = acc"
| "pick better acc (x # xs) =
     pick better (case acc of None \<Rightarrow> Some x | Some y \<Rightarrow> if better x y then Some x else Some y) xs"

locale selection =
  fixes better :: "'a \<Rightarrow> 'a \<Rightarrow> bool"
  assumes irrefl: "\<not> better x x"
    and neg_trans: "\<not> better x y \<Longrightarrow> \<not> better y z \<Longrightarrow> \<not> better x z"
    and asym: "better x y \<Longrightarrow> \<not> better y x"
begin

lemma pick_Some_best:
  "pick better (Some y) xs = Some w \<Longrightarrow>
     w \<in> insert y (set xs) \<and> (\<forall>x \<in> insert y (set xs). \<not> better x w)"
proof (induction xs arbitrary: y)
  case Nil
  then show ?case by (simp add: irrefl)
next
  case (Cons x xs)
  show ?case
  proof (cases "better x y")
    case True
    with Cons.prems have "pick better (Some x) xs = Some w" by simp
    from Cons.IH [OF this]
    have w: "w \<in> insert x (set xs)" "\<forall>z \<in> insert x (set xs). \<not> better z w" by auto
    then have "\<not> better y w" using neg_trans [OF asym [OF True]] by blast
    with w show ?thesis by auto
  next
    case False
    with Cons.prems have "pick better (Some y) xs = Some w" by simp
    from Cons.IH [OF this]
    have w: "w \<in> insert y (set xs)" "\<forall>z \<in> insert y (set xs). \<not> better z w" by auto
    then have "\<not> better x w" using neg_trans [OF False] by blast
    with w show ?thesis by auto
  qed
qed

lemma pick_Some: "\<exists>w. pick better (Some y) xs = Some w"
  by (induction xs arbitrary: y) auto

lemma pick_None: "pick better None xs = None \<longleftrightarrow> xs = []"
  using pick_Some by (cases xs) force+

lemma pick_best:
  assumes "pick better None xs = Some w"
  shows "w \<in> set xs \<and> (\<forall>x \<in> set xs. \<not> better x w)"
proof (cases xs)
  case Nil
  with assms show ?thesis by simp
next
  case (Cons y ys)
  with assms have "pick better (Some y) ys = Some w" by simp
  from pick_Some_best [OF this] Cons show ?thesis by simp
qed

end

text \<open>
  Where the code keeps the best candidate in variables with a sentinel instead of a pointer,
  \<open>enc\<close> says what the variables hold for a chosen candidate or for none.
\<close>

lemma pick_encoded:
  assumes "\<And>acc x. x \<in> set xs \<Longrightarrow> acc \<in> insert None (Some ` set ys) \<Longrightarrow> step (enc acc) x =
      enc (case acc of None \<Rightarrow> Some x | Some y \<Rightarrow> if better x y then Some x else Some y)"
    and "set xs \<subseteq> set ys" "acc \<in> insert None (Some ` set ys)"
  shows "foldl step (enc acc) xs = enc (pick better acc xs)"
  using assms
proof (induction xs arbitrary: acc)
  case Nil
  then show ?case by simp
next
  case (Cons x xs)
  let ?acc = "case acc of None \<Rightarrow> Some x | Some y \<Rightarrow> if better x y then Some x else Some y"
  have "step (enc acc) x = enc ?acc" using Cons.prems by simp
  moreover have "?acc \<in> insert None (Some ` set ys)"
    using Cons.prems(2,3) by (auto split: option.split)
  ultimately show ?case using Cons.IH [of ?acc] Cons.prems by simp
qed

lemma foldl_filter_step:
  assumes "\<And>a x. x \<in> set xs \<Longrightarrow> \<not> P x \<Longrightarrow> step a x = a"
  shows "foldl step a xs = foldl step a (filter P xs)"
  using assms
proof (induction xs arbitrary: a)
  case Nil
  then show ?case by simp
next
  case (Cons x xs)
  have "foldl step b xs = foldl step b (filter P xs)" for b
    by (rule Cons.IH) (simp add: Cons.prems)
  then show ?case using Cons.prems [of x a] by simp
qed

text \<open>
  The usual instance: a key in a linear order, smaller is better.  Two comparisons that agree
  with such keys satisfy the laws.
\<close>

lemma selection_key:
  fixes key :: "'a \<Rightarrow> 'k :: linorder"
  assumes "\<And>x y. better x y \<longleftrightarrow> key x < key y"
  shows "selection better"
  by unfold_locales (auto simp: assms)

section \<open>Loops over the indices of an array\<close>

text \<open>
  A loop that visits the indices in order and changes only the element it visits: what each visit
  does to its element holds of the final array, as the element was untouched until then.
\<close>

lemma index_loop:
  assumes J0: "J s0"
    and visit: "\<And>s i. J s \<Longrightarrow> i < n \<Longrightarrow> (\<And>j. i \<le> j \<Longrightarrow> get s ! j = get s0 ! j) \<Longrightarrow>
      J (f s i) \<and> (\<forall>j. j \<noteq> i \<longrightarrow> get (f s i) ! j = get s ! j) \<and> Q i (get s0 ! i) (get (f s i) ! i)"
  shows "J (foldl f s0 [0..<n]) \<and> (\<forall>i < n. Q i (get s0 ! i) (get (foldl f s0 [0..<n]) ! i))"
proof -
  have "k \<le> n \<Longrightarrow> J (foldl f s0 [0..<k]) \<and> (\<forall>j \<ge> k. get (foldl f s0 [0..<k]) ! j = get s0 ! j) \<and>
      (\<forall>i < k. Q i (get s0 ! i) (get (foldl f s0 [0..<k]) ! i))" for k
  proof (induction k)
    case 0
    with J0 show ?case by simp
  next
    case (Suc k)
    let ?s = "foldl f s0 [0..<k]"
    from Suc have IH: "J ?s" "\<forall>j \<ge> k. get ?s ! j = get s0 ! j"
      "\<forall>i < k. Q i (get s0 ! i) (get ?s ! i)" by auto
    with visit [of ?s k] Suc.prems
    have v: "J (f ?s k)" "\<forall>j. j \<noteq> k \<longrightarrow> get (f ?s k) ! j = get ?s ! j"
      "Q k (get s0 ! k) (get (f ?s k) ! k)" by auto
    have "Q i (get s0 ! i) (get (f ?s k) ! i)" if "i < Suc k" for i
      using that v IH by (cases "i = k") auto
    with v IH show ?case by auto
  qed
  from this [of n] show ?thesis by blast
qed

lemma index_loop_prefix:
  assumes J0: "J s0"
    and visit: "\<And>s i. J s \<Longrightarrow> i < n \<Longrightarrow> J (f s i) \<and> (\<forall>j. j \<noteq> i \<longrightarrow> get (f s i) ! j = get s ! j)"
    and "k \<le> n"
  shows "J (foldl f s0 [0..<k]) \<and> (\<forall>j \<ge> k. get (foldl f s0 [0..<k]) ! j = get s0 ! j)"
  using \<open>k \<le> n\<close>
proof (induction k)
  case 0
  with J0 show ?case by simp
next
  case (Suc k)
  with visit [of "foldl f s0 [0..<k]" k] show ?case by auto
qed

lemma index_loop_suffix:
  assumes J0: "J s0"
    and visit: "\<And>s i. J s \<Longrightarrow> i < n \<Longrightarrow> J (f s i) \<and> (\<forall>j. j \<noteq> i \<longrightarrow> get (f s i) ! j = get s ! j)"
    and "k \<le> m" "m \<le> n" "j < k"
  shows "get (foldl f s0 [0..<m]) ! j = get (foldl f s0 [0..<k]) ! j"
  using \<open>k \<le> m\<close> \<open>m \<le> n\<close>
proof (induction m rule: dec_induct)
  case base
  show ?case by simp
next
  case (step m)
  have "J (foldl f s0 [0..<m])"
    using index_loop_prefix [where J = J and f = f and get = get and n = n and k = m, OF J0 visit] step.prems
    by auto
  with visit [of _ m] step \<open>j < k\<close> show ?case by auto
qed

section \<open>Growing arrays\<close>

text \<open>
  \<open>grow\<close> of \<^verbatim>\<open>coop_session.c\<close>: the capacity after a request for \<open>want\<close> elements of
  \<open>stride\<close> bytes, None where the C function returns false.  The doubling loop starts from a
  positive capacity (\<open>grow\<close> substitutes 16 for 0), which its termination needs.
\<close>

function grow_next :: "nat \<Rightarrow> nat \<Rightarrow> nat" where
  "grow_next next want =
     (if next < want \<and> 0 < next then
        (if next > SIZE_MAX div 2 then want else grow_next (next * 2) want)
      else next)"
  by pat_completeness auto
termination
  by (relation "measure (\<lambda>(next, want). want - next)") auto

declare grow_next.simps [simp del]

definition grow :: "allocator \<Rightarrow> nat \<Rightarrow> nat \<Rightarrow> nat \<Rightarrow> nat option" where
  "grow alloc capacity want stride =
     (if want \<le> capacity then Some capacity
      else if want > SIZE_MAX div stride then None
      else let next = grow_next (if capacity \<noteq> 0 then capacity else 16) want;
               next' = (if next > SIZE_MAX div stride then want else next)
           in if alloc (next' * stride) then Some next' else None)"

lemma grow_next_ge: "0 < next \<Longrightarrow> want \<le> grow_next next want"
proof (induction "next" want rule: grow_next.induct)
  case (1 "next" want)
  then show ?case by (subst grow_next.simps) auto
qed

lemma grow_ge: "grow alloc capacity want stride = Some n \<Longrightarrow> want \<le> n"
  using grow_next_ge [of "if capacity \<noteq> 0 then capacity else 16" want]
  by (auto simp: grow_def Let_def split: if_splits)

lemma grow_bytes:
  assumes "grow alloc capacity want stride = Some n" "capacity * stride \<le> SIZE_MAX" "0 < stride"
  shows "n * stride \<le> SIZE_MAX"
proof -
  have *: "m * stride \<le> SIZE_MAX" if "m \<le> SIZE_MAX div stride" for m
    using that assms(3) by (simp add: less_eq_div_iff_mult_less_eq)
  from assms(1) consider "n = capacity" | "n = want" "want \<le> SIZE_MAX div stride"
    | "n \<le> SIZE_MAX div stride"
    by (auto simp: grow_def Let_def split: if_splits)
  then show ?thesis using * assms(2) by cases auto
qed

lemma grow_fits [simp]: "want \<le> capacity \<Longrightarrow> grow alloc capacity want stride = Some capacity"
  by (simp add: grow_def)

lemma grow_alloc_ok:
  "(\<And>n. alloc n) \<Longrightarrow> want \<le> SIZE_MAX div stride \<Longrightarrow> \<exists>n. grow alloc capacity want stride = Some n"
  by (auto simp: grow_def Let_def)

end
