(* ===== verification/Coop_Session.thy ===== *)
theory Coop_Session
  imports Prelude
begin

text \<open>
  The co-op policy of \<^verbatim>\<open>src/mods/coop/coop_session.h\<close> and the first half of
  \<^verbatim>\<open>coop_session.c\<close>: the roster and session records, creation, the frame and event entry
  points, controller input, distances, precedence and the nearest-player query.

  A C enumeration is the datatype of its constructors, in the source's order; \<open>kind_code\<close> and its
  companions give the numbers the code compares and stores.  Every pointer argument is a value,
  so the tests for NULL have no counterpart, but for \<open>!s->players\<close>: a session without storage is
  one with an empty player list.
\<close>

section \<open>The roster, the camera, events and actions\<close>

datatype CoopLifeState = COOP_PLAYING | COOP_DYING | COOP_DEATH_BUBBLE | COOP_CATCHUP_BUBBLE

datatype CoopPower = COOP_SMALL | COOP_BIG | COOP_CAPE | COOP_FIRE

datatype CoopOutcome = COOP_CONTINUE | COOP_RETRY | COOP_GAME_OVER | COOP_CLEAR

datatype CoopEventKind =
    COOP_EVENT_PICKUP
  | COOP_EVENT_ENEMY_CONTACT
  | COOP_EVENT_ON_OFF
  | COOP_EVENT_CHECKPOINT
  | COOP_EVENT_DAMAGE
  | COOP_EVENT_DEATH
  | COOP_EVENT_DEATH_FINISHED
  | COOP_EVENT_TIMEOUT
  | COOP_EVENT_EXIT

datatype CoopActionKind =
    COOP_ACTION_PICKUP
  | COOP_ACTION_ENEMY_DAMAGE
  | COOP_ACTION_STOMP_BOUNCE
  | COOP_ACTION_ON_OFF
  | COOP_ACTION_CHECKPOINT
  | COOP_ACTION_DAMAGE
  | COOP_ACTION_DROP_RESERVE
  | COOP_ACTION_DROP_OBJECT
  | COOP_ACTION_DETACH_MOUNT
  | COOP_ACTION_DEATH
  | COOP_ACTION_RECOVER
  | COOP_ACTION_EXIT
  | COOP_ACTION_RETRY
  | COOP_ACTION_GAME_OVER

definition COOP_NO_PLAYER :: u32 where
  "COOP_NO_PLAYER = 0xFFFFFFFF"

definition COOP_NO_ENTITY :: u32 where
  "COOP_NO_ENTITY = 0xFFFFFFFF"

definition COOP_EVENT_SECRET :: u32 where
  "COOP_EVENT_SECRET = 1"

definition COOP_EVENT_STOMP :: u32 where
  "COOP_EVENT_STOMP = 2"

definition COOP_EVENT_LETHAL :: u32 where
  "COOP_EVENT_LETHAL = 4"

record CoopPlayer =
  p_id :: u32
  p_character :: u32
  p_life :: CoopLifeState
  p_power :: CoopPower
  p_reserve :: u32
  p_x :: i32
  p_y :: i32
  p_half_width :: i32
  p_height :: i32
  p_star_ticks :: u32
  p_protection_ticks :: u32
  p_recovery_ticks :: u32
  p_separation_ticks :: u32
  p_mount :: u32
  p_held_object :: u32
  p_held_input :: u32
  p_pressed_input :: u32
  p_action_latch :: u32
  p_connected :: bool
  p_grounded :: bool
  p_swimming :: bool
  p_supported_flight :: bool
  p_behind_fence :: bool
  p_checkpoint_upgrade :: bool

record CoopCamera =
  c_x :: i32
  c_y :: i32
  c_width :: i32
  c_height :: i32
  c_room_width :: i32
  c_room_height :: i32
  c_previous_center_x :: i32
  c_previous_center_y :: i32
  c_travel_x :: i32
  c_travel_y :: i32
  c_leader :: u32
  c_initialized :: bool
  c_autoscroll :: bool

record CoopEvent =
  e_kind :: CoopEventKind
  e_player :: u32
  e_entity :: u32
  e_value :: u32
  e_flags :: u32
  e_distance_squared :: u64

record CoopAction =
  a_kind :: CoopActionKind
  a_player :: u32
  a_entity :: u32
  a_value :: u32

record CoopSession =
  players :: "CoopPlayer list"
  primary :: u32
  camera :: CoopCamera
  frame_no :: u64
  ticks_per_second :: u32
  lives :: u32
  coins :: u32
  score :: u32
  dragon_coins :: u32
  bonus_stars :: u32
  checkpoint :: u32
  level_ticks :: u32
  outcome :: CoopOutcome
  advancing :: bool
  input_blocked :: bool
  failed :: bool
  resolved :: bool
  events :: "CoopEvent list"
  event_capacity :: nat
  actions :: "CoopAction list"
  action_capacity :: nat

fun kind_code :: "CoopEventKind \<Rightarrow> u32" where
  "kind_code COOP_EVENT_PICKUP = 0"
| "kind_code COOP_EVENT_ENEMY_CONTACT = 1"
| "kind_code COOP_EVENT_ON_OFF = 2"
| "kind_code COOP_EVENT_CHECKPOINT = 3"
| "kind_code COOP_EVENT_DAMAGE = 4"
| "kind_code COOP_EVENT_DEATH = 5"
| "kind_code COOP_EVENT_DEATH_FINISHED = 6"
| "kind_code COOP_EVENT_TIMEOUT = 7"
| "kind_code COOP_EVENT_EXIT = 8"

lemma kind_code_inj [simp]: "kind_code a = kind_code b \<longleftrightarrow> a = b"
  by (cases a; cases b) simp_all

section \<open>Creation\<close>

text \<open>
  \<^verbatim>\<open>sizeof(CoopPlayer)\<close>, \<^verbatim>\<open>sizeof(CoopEvent)\<close> and \<^verbatim>\<open>sizeof(CoopAction)\<close> are those of
  the 64-bit targets the program is built for.
\<close>

definition SIZEOF_PLAYER :: nat where
  "SIZEOF_PLAYER = 80"

definition SIZEOF_EVENT :: nat where
  "SIZEOF_EVENT = 32"

definition SIZEOF_ACTION :: nat where
  "SIZEOF_ACTION = 16"

definition zero_player :: CoopPlayer where
  "zero_player = \<lparr>p_id = 0, p_character = 0, p_life = COOP_PLAYING, p_power = COOP_SMALL,
     p_reserve = 0, p_x = 0, p_y = 0, p_half_width = 0, p_height = 0, p_star_ticks = 0,
     p_protection_ticks = 0, p_recovery_ticks = 0, p_separation_ticks = 0, p_mount = 0,
     p_held_object = 0, p_held_input = 0, p_pressed_input = 0, p_action_latch = 0,
     p_connected = False, p_grounded = False, p_swimming = False, p_supported_flight = False,
     p_behind_fence = False, p_checkpoint_upgrade = False\<rparr>"

definition zero_camera :: CoopCamera where
  "zero_camera = \<lparr>c_x = 0, c_y = 0, c_width = 0, c_height = 0, c_room_width = 0,
     c_room_height = 0, c_previous_center_x = 0, c_previous_center_y = 0, c_travel_x = 0,
     c_travel_y = 0, c_leader = 0, c_initialized = False, c_autoscroll = False\<rparr>"

definition zero_session :: CoopSession where
  "zero_session = \<lparr>players = [], primary = 0, camera = zero_camera, frame_no = 0,
     ticks_per_second = 0, lives = 0, coins = 0, score = 0, dragon_coins = 0, bonus_stars = 0,
     checkpoint = 0, level_ticks = 0, outcome = COOP_CONTINUE, advancing = False,
     input_blocked = False, failed = False, resolved = False, events = [], event_capacity = 0,
     actions = [], action_capacity = 0\<rparr>"

definition new_player :: "nat \<Rightarrow> CoopPlayer" where
  "new_player i = zero_player\<lparr>p_id := of_nat i, p_character := of_nat i,
     p_mount := COOP_NO_ENTITY, p_held_object := COOP_NO_ENTITY,
     p_half_width := 8, p_height := 16, p_connected := True\<rparr>"

definition coop_session_init :: "allocator \<Rightarrow> nat \<Rightarrow> u32 \<Rightarrow> CoopSession option" where
  "coop_session_init alloc n hz =
     (if n < 2 \<or> n \<ge> unat COOP_NO_PLAYER \<or> n > SIZE_MAX div SIZEOF_PLAYER \<or> hz = 0 \<or> hz > 1000
      then None
      else if \<not> alloc (n * SIZEOF_PLAYER) then None
      else Some (zero_session\<lparr>players := map new_player [0..<n], ticks_per_second := hz,
             lives := 5, camera := zero_camera\<lparr>c_leader := COOP_NO_PLAYER\<rparr>\<rparr>))"

definition coop_session_destroy :: "CoopSession \<Rightarrow> CoopSession" where
  "coop_session_destroy s = zero_session"

section \<open>Lookup and the output queue\<close>

text \<open>\<open>coop_player\<close> and \<open>coop_player_const\<close>: the index of the first player with the identity.\<close>

definition coop_player :: "CoopSession \<Rightarrow> u32 \<Rightarrow> nat option" where
  "coop_player s i = find_index (\<lambda>p. p_id p = i) (players s)"

definition coop_active_count :: "CoopSession \<Rightarrow> nat" where
  "coop_active_count s = length (filter (\<lambda>p. p_life p = COOP_PLAYING) (players s))"

definition upd_player :: "nat \<Rightarrow> (CoopPlayer \<Rightarrow> CoopPlayer) \<Rightarrow> CoopSession \<Rightarrow> CoopSession" where
  "upd_player i f s = s\<lparr>players := upd_at i f (players s)\<rparr>"

definition emit ::
  "allocator \<Rightarrow> CoopActionKind \<Rightarrow> u32 \<Rightarrow> u32 \<Rightarrow> u32 \<Rightarrow> CoopSession \<Rightarrow> CoopSession" where
  "emit alloc k p ent v s =
     (case (if length (actions s) = SIZE_MAX then None
            else grow alloc (action_capacity s) (length (actions s) + 1) SIZEOF_ACTION) of
        None \<Rightarrow> s\<lparr>failed := True\<rparr>
      | Some cap \<Rightarrow>
          s\<lparr>action_capacity := cap,
            actions := actions s @ [\<lparr>a_kind = k, a_player = p, a_entity = ent, a_value = v\<rparr>]\<rparr>)"

section \<open>The frame and event entry points\<close>

definition tick_player :: "CoopPlayer \<Rightarrow> CoopPlayer" where
  "tick_player p =
     p\<lparr>p_star_ticks := (if p_star_ticks p \<noteq> 0 then p_star_ticks p - 1 else 0),
       p_protection_ticks := (if p_protection_ticks p \<noteq> 0 then p_protection_ticks p - 1 else 0),
       p_recovery_ticks := (if p_recovery_ticks p \<noteq> 0 then p_recovery_ticks p - 1 else 0)\<rparr>"

definition coop_session_begin_frame :: "bool \<Rightarrow> CoopSession \<Rightarrow> bool \<times> CoopSession" where
  "coop_session_begin_frame advances s =
     (if players s = [] \<or> failed s then (False, s)
      else
        let blocked = (\<exists>p \<in> set (players s). \<not> p_connected p);
            s1 = s\<lparr>events := [], actions := [], resolved := False, input_blocked := blocked,
                   advancing := advances \<and> \<not> blocked \<and> outcome s = COOP_CONTINUE\<rparr>
        in if \<not> advancing s1 then (True, s1)
           else (True, s1\<lparr>frame_no := frame_no s + 1, players := map tick_player (players s)\<rparr>))"

definition coop_session_event :: "allocator \<Rightarrow> CoopEvent \<Rightarrow> CoopSession \<Rightarrow> bool \<times> CoopSession" where
  "coop_session_event alloc e s =
     (if input_blocked s \<or> failed s \<or> resolved s \<or> outcome s \<noteq> COOP_CONTINUE \<or>
         (\<not> advancing s \<and> e_kind e \<noteq> COOP_EVENT_EXIT) \<or>
         (e_player e \<noteq> COOP_NO_PLAYER \<and> coop_player s (e_player e) = None)
      then (False, s)
      else
        case (if length (events s) = SIZE_MAX then None
              else grow alloc (event_capacity s) (length (events s) + 1) SIZEOF_EVENT) of
          None \<Rightarrow> (False, s\<lparr>failed := True\<rparr>)
        | Some cap \<Rightarrow> (True, s\<lparr>event_capacity := cap, events := events s @ [e]\<rparr>))"

section \<open>Distance, precedence and the nearest player\<close>

text \<open>
  \<open>distance2\<close> works in \<open>uint64_t\<close> and saturates; the differences fit \<open>int64_t\<close> exactly, so
  they are integers here.
\<close>

definition distance2 :: "i32 \<Rightarrow> i32 \<Rightarrow> i32 \<Rightarrow> i32 \<Rightarrow> u64" where
  "distance2 ax ay bx by' =
     (let dx = sint ax - sint bx; dy = sint ay - sint by';
          ux = (if dx < 0 then word_of_int (- dx) else word_of_int dx) :: u64;
          uy = (if dy < 0 then word_of_int (- dy) else word_of_int dy) :: u64;
          x = ux * ux; y = uy * uy
      in if 0xFFFFFFFFFFFFFFFF - x < y then 0xFFFFFFFFFFFFFFFF else x + y)"

definition coop_player_precedes :: "CoopSession \<Rightarrow> u32 \<Rightarrow> u32 \<Rightarrow> bool" where
  "coop_player_precedes s a b =
     (if a = b then False
      else if a = primary s then True
      else if b = primary s then False
      else a < b)"

text \<open>One round of the loop of \<open>coop_nearest_player\<close>, over the variables \<open>winner\<close> and \<open>best\<close>.\<close>

definition nearest_step ::
  "CoopSession \<Rightarrow> i32 \<Rightarrow> i32 \<Rightarrow> bool \<Rightarrow> bool \<Rightarrow> u32 \<times> u64 \<Rightarrow> CoopPlayer \<Rightarrow> u32 \<times> u64" where
  "nearest_step s x y match_fence behind_fence = (\<lambda>(winner, best) p.
     if p_life p \<noteq> COOP_PLAYING \<or> (match_fence \<and> p_behind_fence p \<noteq> behind_fence)
     then (winner, best)
     else let d = distance2 x y (p_x p) (p_y p)
          in if winner = COOP_NO_PLAYER \<or> d < best \<or>
                (d = best \<and> coop_player_precedes s (p_id p) winner)
             then (p_id p, d) else (winner, best))"

definition coop_nearest_player :: "CoopSession \<Rightarrow> i32 \<Rightarrow> i32 \<Rightarrow> bool \<Rightarrow> bool \<Rightarrow> u32" where
  "coop_nearest_player s x y match_fence behind_fence =
     fst (foldl (nearest_step s x y match_fence behind_fence)
            (COOP_NO_PLAYER, 0xFFFFFFFFFFFFFFFF) (players s))"

section \<open>Controller input\<close>

definition coop_player_input :: "u32 \<Rightarrow> u32 \<Rightarrow> CoopPlayer \<Rightarrow> CoopPlayer" where
  "coop_player_input held action_mask p =
     (let latch = p_action_latch p AND held;
          effective = held AND NOT (latch AND action_mask);
          p1 = p\<lparr>p_action_latch := latch,
                 p_pressed_input := effective AND NOT (p_held_input p),
                 p_held_input := effective\<rparr>
      in if p_life p \<noteq> COOP_PLAYING
         then p1\<lparr>p_action_latch := latch OR (held AND action_mask),
                 p_pressed_input := p_pressed_input p1 AND NOT action_mask\<rparr>
         else p1)"

section \<open>Lemmas: the output queue\<close>

lemma emit_cases:
  "emit alloc k p ent v s = s\<lparr>failed := True\<rparr> \<or>
   (\<exists>cap. emit alloc k p ent v s =
      s\<lparr>action_capacity := cap,
        actions := actions s @ [\<lparr>a_kind = k, a_player = p, a_entity = ent, a_value = v\<rparr>]\<rparr>)"
  by (auto simp: emit_def split: option.splits)

lemma emit_frame [frame_simps, simp]:
  "players (emit alloc k p ent v s) = players s"
  "primary (emit alloc k p ent v s) = primary s"
  "camera (emit alloc k p ent v s) = camera s"
  "frame_no (emit alloc k p ent v s) = frame_no s"
  "ticks_per_second (emit alloc k p ent v s) = ticks_per_second s"
  "lives (emit alloc k p ent v s) = lives s"
  "checkpoint (emit alloc k p ent v s) = checkpoint s"
  "outcome (emit alloc k p ent v s) = outcome s"
  "advancing (emit alloc k p ent v s) = advancing s"
  "input_blocked (emit alloc k p ent v s) = input_blocked s"
  "resolved (emit alloc k p ent v s) = resolved s"
  "events (emit alloc k p ent v s) = events s"
  "event_capacity (emit alloc k p ent v s) = event_capacity s"
  by (auto simp: emit_def split: option.splits)

lemma emit_failed_mono: "failed s \<Longrightarrow> failed (emit alloc k p ent v s)"
  using emit_cases [of alloc k p ent v s] by auto

lemma emit_ok:
  "\<not> failed (emit alloc k p ent v s) \<Longrightarrow>
     \<not> failed s \<and>
     actions (emit alloc k p ent v s) =
       actions s @ [\<lparr>a_kind = k, a_player = p, a_entity = ent, a_value = v\<rparr>]"
  using emit_cases [of alloc k p ent v s] by auto

lemma emit_actions:
  "actions (emit alloc k p ent v s) = actions s \<or>
   actions (emit alloc k p ent v s) =
     actions s @ [\<lparr>a_kind = k, a_player = p, a_entity = ent, a_value = v\<rparr>]"
  using emit_cases [of alloc k p ent v s] by auto

text \<open>
  With an allocator that never fails and the bounds of \<open>size_t\<close> in hand, every action is queued.
\<close>

lemma emit_alloc:
  assumes "\<And>n. alloc n" "length (actions s) < SIZE_MAX div SIZEOF_ACTION"
  shows "failed (emit alloc k p ent v s) = failed s"
proof -
  have "length (actions s) \<noteq> SIZE_MAX"
    using assms(2) by (simp add: SIZE_MAX_def SIZEOF_ACTION_def)
  moreover obtain cap where
    "grow alloc (action_capacity s) (length (actions s) + 1) SIZEOF_ACTION = Some cap"
    using grow_alloc_ok [of alloc "length (actions s) + 1" SIZEOF_ACTION "action_capacity s"] assms
    by auto
  ultimately show ?thesis by (simp add: emit_def)
qed

lemma upd_player_frame [frame_simps, simp]:
  "players (upd_player i f s) = upd_at i f (players s)"
  "primary (upd_player i f s) = primary s"
  "camera (upd_player i f s) = camera s"
  "frame_no (upd_player i f s) = frame_no s"
  "ticks_per_second (upd_player i f s) = ticks_per_second s"
  "lives (upd_player i f s) = lives s"
  "checkpoint (upd_player i f s) = checkpoint s"
  "outcome (upd_player i f s) = outcome s"
  "advancing (upd_player i f s) = advancing s"
  "input_blocked (upd_player i f s) = input_blocked s"
  "resolved (upd_player i f s) = resolved s"
  "events (upd_player i f s) = events s"
  "event_capacity (upd_player i f s) = event_capacity s"
  "failed (upd_player i f s) = failed s"
  "actions (upd_player i f s) = actions s"
  "action_capacity (upd_player i f s) = action_capacity s"
  by (simp_all add: upd_player_def)

section \<open>Lemmas: lookup\<close>

definition ids :: "CoopSession \<Rightarrow> u32 list" where
  "ids s = map p_id (players s)"

lemma coop_player_ids: "coop_player s i = find_index (\<lambda>j. j = i) (ids s)"
  by (simp add: coop_player_def ids_def find_index_map comp_def)

lemma coop_player_cong: "ids s = ids s' \<Longrightarrow> coop_player s i = coop_player s' i"
  by (simp add: coop_player_ids)

lemma coop_player_SomeD:
  "coop_player s i = Some k \<Longrightarrow> k < length (players s) \<and> p_id (players s ! k) = i"
  by (auto simp: coop_player_def dest: find_index_Some)

lemma coop_player_None: "coop_player s i = None \<longleftrightarrow> i \<notin> set (ids s)"
  by (auto simp: coop_player_def find_index_None ids_def)

lemma coop_player_distinct:
  assumes "distinct (ids s)" "k < length (players s)"
  shows "coop_player s (p_id (players s ! k)) = Some k"
proof (cases "coop_player s (p_id (players s ! k))")
  case None
  then show ?thesis using assms(2) by (simp add: coop_player_None ids_def)
next
  case (Some j)
  then have "j < length (players s)" "p_id (players s ! j) = p_id (players s ! k)"
    by (auto dest: coop_player_SomeD)
  then have "j = k" using assms nth_eq_iff_index_eq [of "ids s" j k] by (simp add: ids_def)
  with Some show ?thesis by simp
qed

lemma active_count_0: "coop_active_count s = 0 \<longleftrightarrow> (\<forall>p \<in> set (players s). p_life p \<noteq> COOP_PLAYING)"
  by (auto simp: coop_active_count_def filter_empty_conv)

section \<open>Lemmas: distance and precedence\<close>

lemma sint_diff_bounds:
  fixes a b :: i32
  shows "\<bar>sint a - sint b\<bar> \<le> 2 ^ 32 - 1"
proof -
  have "- (2 ^ 31) \<le> sint a" "sint a < 2 ^ 31" "- (2 ^ 31) \<le> sint b" "sint b < 2 ^ 31"
    using sint_ge [of a] sint_lt [of a] sint_ge [of b] sint_lt [of b] by simp_all
  then show ?thesis by (simp add: abs_le_iff)
qed

lemma unat_square_word:
  fixes d :: int
  assumes "\<bar>d\<bar> \<le> 2 ^ 32 - 1"
  shows "unat ((if d < 0 then word_of_int (- d) else word_of_int d) *
               (if d < 0 then word_of_int (- d) else word_of_int d) :: u64) = nat \<bar>d\<bar> * nat \<bar>d\<bar>"
proof -
  let ?w = "(if d < 0 then word_of_int (- d) else word_of_int d) :: u64"
  have w: "?w = word_of_int \<bar>d\<bar>" by simp
  have "uint ?w = \<bar>d\<bar>" using assms unfolding w by (simp add: uint_word_of_int)
  then have u: "unat ?w = nat \<bar>d\<bar>" by (simp add: unat_eq_nat_uint)
  have n: "nat \<bar>d\<bar> \<le> 2 ^ 32 - 1" using nat_mono [OF assms] by simp
  have "nat \<bar>d\<bar> * nat \<bar>d\<bar> \<le> (2 ^ 32 - 1) * (2 ^ 32 - 1)" by (rule mult_le_mono [OF n n])
  then have "nat \<bar>d\<bar> * nat \<bar>d\<bar> < 2 ^ 64" by simp
  moreover have "unat (?w * ?w) = (unat ?w * unat ?w) mod 2 ^ 64"
    by (simp add: unat_word_ariths)
  ultimately show ?thesis by (simp only: u mod_less)
qed

text \<open>\<open>distance2\<close> is the squared distance, saturated at \<open>UINT64_MAX\<close>; nothing wraps.\<close>

lemma unat_distance2:
  "unat (distance2 ax ay bx by') =
     min (2 ^ 64 - 1) (nat \<bar>sint ax - sint bx\<bar> * nat \<bar>sint ax - sint bx\<bar> +
                       nat \<bar>sint ay - sint by'\<bar> * nat \<bar>sint ay - sint by'\<bar>)"
proof -
  define dx dy where "dx = sint ax - sint bx" and "dy = sint ay - sint by'"
  define x y :: u64 where "x = (if dx < 0 then word_of_int (- dx) else word_of_int dx) *
      (if dx < 0 then word_of_int (- dx) else word_of_int dx)"
    and "y = (if dy < 0 then word_of_int (- dy) else word_of_int dy) *
      (if dy < 0 then word_of_int (- dy) else word_of_int dy)"
  have x: "unat x = nat \<bar>dx\<bar> * nat \<bar>dx\<bar>" and y: "unat y = nat \<bar>dy\<bar> * nat \<bar>dy\<bar>"
    unfolding x_def y_def dx_def dy_def
    by (rule unat_square_word [OF sint_diff_bounds])+
  have d: "distance2 ax ay bx by' =
      (if 0xFFFFFFFFFFFFFFFF - x < y then 0xFFFFFFFFFFFFFFFF else x + y)"
    unfolding distance2_def Let_def dx_def [symmetric] dy_def [symmetric] x_def y_def ..
  have le: "unat x \<le> 2 ^ 64 - 1" "unat y \<le> 2 ^ 64 - 1"
    using unsigned_less [of x, where 'a = nat] unsigned_less [of y, where 'a = nat] by simp_all
  have s: "unat (0xFFFFFFFFFFFFFFFF - x) = 2 ^ 64 - 1 - unat x"
    using le(1) by (subst unat_sub) (simp_all add: word_le_nat_alt)
  show ?thesis
  proof (cases "0xFFFFFFFFFFFFFFFF - x < y")
    case True
    then have "2 ^ 64 - 1 - unat x < unat y" by (simp add: word_less_nat_alt s)
    then have "min (2 ^ 64 - 1) (unat x + unat y) = 2 ^ 64 - 1" by simp
    with True show ?thesis unfolding d dx_def [symmetric] dy_def [symmetric] x [symmetric] y [symmetric]
      by simp
  next
    case False
    then have "unat y \<le> 2 ^ 64 - 1 - unat x" by (simp add: word_less_nat_alt s)
    then have b: "unat x + unat y \<le> 2 ^ 64 - 1" using le by linarith
    then have "unat (x + y) = unat x + unat y" by (simp add: unat_word_ariths)
    with False b show ?thesis unfolding d dx_def [symmetric] dy_def [symmetric] x [symmetric] y [symmetric]
      by simp
  qed
qed

text \<open>Precedence is the strict order of this key: the primary player first, then by identity.\<close>

definition rank :: "CoopSession \<Rightarrow> u32 \<Rightarrow> nat" where
  "rank s a = (if a = primary s then 0 else Suc (unat a))"

lemma precedes_rank: "coop_player_precedes s a b \<longleftrightarrow> rank s a < rank s b"
  by (auto simp: coop_player_precedes_def rank_def word_less_nat_alt)

lemma rank_inj: "rank s a = rank s b \<longleftrightarrow> a = b"
  by (auto simp: rank_def word_unat_eq_iff)

lemma precedes_cong: "primary s = primary s' \<Longrightarrow> coop_player_precedes s a b = coop_player_precedes s' a b"
  by (simp add: coop_player_precedes_def)

end
