(* ===== verification/Coop_Roster.thy ===== *)
theory Coop_Roster
  imports Coop_Session
begin

text \<open>
  The abstract view of a session that its operations share: the identities in roster order, and
  for each player the position in the life cycle.  \<open>roster_le steps s t\<close> says that \<open>t\<close> has the
  same players as \<open>s\<close> and that every player moved along \<open>steps\<close> only.  An operation that
  refines its own part of the life cycle is a \<open>roster_op\<close>.
\<close>

section \<open>The life cycle\<close>

inductive death_life :: "CoopLifeState \<Rightarrow> CoopLifeState \<Rightarrow> bool" where
  die: "death_life COOP_PLAYING COOP_DYING"
| finish: "death_life COOP_DYING COOP_DEATH_BUBBLE"

inductive strand_life :: "CoopLifeState \<Rightarrow> CoopLifeState \<Rightarrow> bool" where
  strand: "strand_life COOP_PLAYING COOP_CATCHUP_BUBBLE"

inductive revive_life :: "CoopLifeState \<Rightarrow> CoopLifeState \<Rightarrow> bool" where
  from_death: "revive_life COOP_DEATH_BUBBLE COOP_PLAYING"
| from_catchup: "revive_life COOP_CATCHUP_BUBBLE COOP_PLAYING"

inductive still_life :: "CoopLifeState \<Rightarrow> CoopLifeState \<Rightarrow> bool" where
  still: "still_life l l"

inductive life_step :: "CoopLifeState \<Rightarrow> CoopLifeState \<Rightarrow> bool" where
  death: "death_life a b \<Longrightarrow> life_step a b"
| strand: "strand_life a b \<Longrightarrow> life_step a b"
| revive: "revive_life a b \<Longrightarrow> life_step a b"

inductive_simps death_life_simps [simp]: "death_life a b"
inductive_simps strand_life_simps [simp]: "strand_life a b"
inductive_simps revive_life_simps [simp]: "revive_life a b"
inductive_simps still_life_simps [simp]: "still_life a b"
inductive_cases death_life_from: "death_life COOP_DEATH_BUBBLE b"

text \<open>Reachability inside the three parts of the cycle.\<close>

lemma still_life_star: "still_life\<^sup>*\<^sup>* a b \<longleftrightarrow> a = b"
proof
  assume "still_life\<^sup>*\<^sup>* a b"
  then show "a = b" by (induction rule: rtranclp_induct) auto
qed simp

lemma death_life_star:
  "death_life\<^sup>*\<^sup>* a b \<longleftrightarrow> a = b \<or> death_life a b \<or> (a = COOP_PLAYING \<and> b = COOP_DEATH_BUBBLE)"
proof
  assume "death_life\<^sup>*\<^sup>* a b"
  then show "a = b \<or> death_life a b \<or> (a = COOP_PLAYING \<and> b = COOP_DEATH_BUBBLE)"
    by (induction rule: rtranclp_induct) auto
next
  assume "a = b \<or> death_life a b \<or> (a = COOP_PLAYING \<and> b = COOP_DEATH_BUBBLE)"
  moreover have "death_life\<^sup>*\<^sup>* COOP_PLAYING COOP_DEATH_BUBBLE"
    by (rule rtranclp.rtrancl_into_rtrancl [of _ _ COOP_DYING])
      (auto intro: r_into_rtranclp)
  ultimately show "death_life\<^sup>*\<^sup>* a b" by auto
qed

lemma strand_life_star: "strand_life\<^sup>*\<^sup>* a b \<longleftrightarrow> a = b \<or> strand_life a b"
proof
  assume "strand_life\<^sup>*\<^sup>* a b"
  then show "a = b \<or> strand_life a b" by (induction rule: rtranclp_induct) auto
qed auto

lemma revive_life_star: "revive_life\<^sup>*\<^sup>* a b \<longleftrightarrow> a = b \<or> revive_life a b"
proof
  assume "revive_life\<^sup>*\<^sup>* a b"
  then show "a = b \<or> revive_life a b" by (induction rule: rtranclp_induct) auto
qed auto

section \<open>Same players, legal lives\<close>

definition life_at :: "CoopSession \<Rightarrow> nat \<Rightarrow> CoopLifeState" where
  "life_at s i = p_life (players s ! i)"

definition roster_le ::
  "(CoopLifeState \<Rightarrow> CoopLifeState \<Rightarrow> bool) \<Rightarrow> CoopSession \<Rightarrow> CoopSession \<Rightarrow> bool" where
  "roster_le steps s t \<longleftrightarrow>
     ids t = ids s \<and> primary t = primary s \<and> ticks_per_second t = ticks_per_second s \<and>
     (\<forall>i < length (players s). steps\<^sup>*\<^sup>* (life_at s i) (life_at t i))"

lemma ids_length: "ids t = ids s \<Longrightarrow> length (players t) = length (players s)"
  by (metis ids_def length_map)

lemma roster_le_refl [simp]: "roster_le steps s s"
  by (simp add: roster_le_def)

lemma roster_le_trans: "roster_le steps s t \<Longrightarrow> roster_le steps t u \<Longrightarrow> roster_le steps s u"
  unfolding roster_le_def by (metis ids_length rtranclp_trans)

lemma roster_le_mono:
  "roster_le steps s t \<Longrightarrow> (\<And>a b. steps a b \<Longrightarrow> steps' a b) \<Longrightarrow> roster_le steps' s t"
  unfolding roster_le_def by (metis mono_rtranclp)

lemma roster_le_same_players:
  "players t = players s \<Longrightarrow> primary t = primary s \<Longrightarrow> ticks_per_second t = ticks_per_second s \<Longrightarrow>
     roster_le steps s t"
  by (simp add: roster_le_def ids_def life_at_def)

lemma roster_le_upd:
  assumes "\<And>p. p_id (f p) = p_id p"
    and "i < length (players s) \<Longrightarrow> steps\<^sup>*\<^sup>* (life_at s i) (p_life (f (players s ! i)))"
  shows "roster_le steps s (upd_player i f s)"
  using assms
  by (cases "i < length (players s)")
    (auto simp: roster_le_def ids_def life_at_def nth_upd_at map_upd_at_same [of p_id])

lemma roster_le_map:
  assumes "players t = map f (players s)" "primary t = primary s"
    "ticks_per_second t = ticks_per_second s"
    and "\<And>p. p_id (f p) = p_id p" "\<And>p. steps\<^sup>*\<^sup>* (p_life p) (p_life (f p))"
  shows "roster_le steps s t"
  using assms by (simp add: roster_le_def ids_def life_at_def comp_def)

section \<open>Operations on a roster\<close>

locale roster_op =
  fixes op :: "CoopSession \<Rightarrow> CoopSession"
    and steps :: "CoopLifeState \<Rightarrow> CoopLifeState \<Rightarrow> bool"
  assumes op_le: "roster_le steps s (op s)"
    and op_life: "steps a b \<Longrightarrow> a = b \<or> life_step a b"
begin

lemma op_ids: "ids (op s) = ids s"
  using op_le [of s] by (simp add: roster_le_def)

lemma op_length: "length (players (op s)) = length (players s)"
  by (rule ids_length [OF op_ids])

lemma op_primary: "primary (op s) = primary s"
  using op_le [of s] by (simp add: roster_le_def)

lemma op_hz: "ticks_per_second (op s) = ticks_per_second s"
  using op_le [of s] by (simp add: roster_le_def)

lemma op_player: "coop_player (op s) i = coop_player s i"
  by (rule coop_player_cong [OF op_ids])

lemma steps_star: "steps\<^sup>*\<^sup>* a b \<Longrightarrow> life_step\<^sup>*\<^sup>* a b"
proof (induction rule: rtranclp_induct)
  case base
  show ?case by simp
next
  case (step b c)
  then show ?case using op_life [of b c] by (auto intro: rtranclp.rtrancl_into_rtrancl)
qed

lemma op_cycle: "roster_le life_step s (op s)"
  using op_le [of s] by (auto simp: roster_le_def intro: steps_star)

lemma op_life_cycle: "i < length (players s) \<Longrightarrow> life_step\<^sup>*\<^sup>* (life_at s i) (life_at (op s) i)"
  using op_cycle [of s] by (simp add: roster_le_def)

end

text \<open>The entry points of \<^verbatim>\<open>Coop_Session\<close> move nobody along the life cycle.\<close>

lemma tick_player_id [simp]: "p_id (tick_player p) = p_id p"
  and tick_player_life [simp]: "p_life (tick_player p) = p_life p"
  by (simp_all add: tick_player_def)

interpretation frame_op: roster_op "\<lambda>s. snd (coop_session_begin_frame adv s)" still_life for adv
proof unfold_locales
  fix s
  show "roster_le still_life s (snd (coop_session_begin_frame adv s))"
    by (auto simp: coop_session_begin_frame_def Let_def
        intro: roster_le_map [where f = tick_player] roster_le_same_players)
qed auto

interpretation event_op: roster_op "\<lambda>s. snd (coop_session_event alloc e s)" still_life for alloc e
  by unfold_locales
    (auto simp: coop_session_event_def split: option.split intro!: roster_le_same_players)

end
