(* ===== verification/Coop_Guest.thy ===== *)
theory Coop_Guest
  imports Coop_Session
begin

text \<open>
  The native player image of \<^verbatim>\<open>src/mods/coop/coop_guest.c\<close>: which bytes of the console's work RAM
  belong to an actor (\<^verbatim>\<open>coop_player_fields.def\<close>), how they are captured and bound, and the
  translation between the native player variables and the policy's \<open>CoopPlayer\<close>.

  Work RAM is a function from addresses to bytes.  \<open>memcpy\<close> into it is \<open>poke\<close>.
\<close>

section \<open>Byte writes\<close>

definition poke :: "nat \<Rightarrow> u8 list \<Rightarrow> mem \<Rightarrow> mem" where
  "poke a bs r = (\<lambda>x. if a \<le> x \<and> x < a + length bs then bs ! (x - a) else r x)"

definition set8 :: "nat \<Rightarrow> u8 \<Rightarrow> mem \<Rightarrow> mem" where
  "set8 a v r = r(a := v)"

text \<open>The C function takes an \<open>unsigned\<close>, of which it stores the low 16 bits.\<close>

definition put16 :: "nat \<Rightarrow> int \<Rightarrow> mem \<Rightarrow> mem" where
  "put16 a v r = r(a := word_of_int v, a + 1 := word_of_int (v div 256))"

lemma rd16_put16: "rd16 (put16 a v r) a = nat (v mod 65536)"
proof -
  have e: "nat (v mod 256) + 256 * nat (v div 256 mod 256) = nat (v mod 256 + 256 * (v div 256 mod 256))"
    by (simp add: nat_add_distrib nat_mult_distrib)
  have "v mod 65536 = v mod 256 + 256 * (v div 256 mod 256)"
    using zmod_zmult2_eq [of 256 v 256] by simp
  with e show ?thesis by (simp add: rd16_def put16_def unsigned_of_int take_bit_eq_mod)
qed

section \<open>The actor's bytes\<close>

definition fields :: "(nat \<times> nat) list" where
  "fields = [
     (0x0015, 5), (0x0071, 17), (0x0088, 16), (0x00d1, 4), (0x0d82, 25), (0x0dc2, 1),
     (0x13da, 23), (0x13f3, 1), (0x13f9, 3), (0x1402, 1), (0x1405, 5), (0x140d, 2),
     (0x1410, 1), (0x1419, 1), (0x141e, 1), (0x1470, 2), (0x148f, 2), (0x1492, 1),
     (0x1496, 13), (0x14a4, 3), (0x14a9, 2), (0x1697, 1), (0x185c, 1), (0x1878, 1),
     (0x187a, 1), (0x188a, 2), (0x1891, 1), (0x18b5, 1), (0x18bd, 2), (0x18c2, 1),
     (0x18d2, 2), (0x18dc, 1), (0x18e3, 1)]"

definition COOP_GUEST_BYTES :: nat where
  "COOP_GUEST_BYTES = sum_list (map snd fields)"

definition LEGACY_CLOUD_COINS :: nat where
  "LEGACY_CLOUD_COINS = 0x18e3"

definition coop_guest_capture :: "mem \<Rightarrow> u8 list" where
  "coop_guest_capture ram = foldl (\<lambda>bytes (a, n). bytes @ map ram [a..<a + n]) [] fields"

definition bind_step :: "u8 list \<Rightarrow> nat \<times> mem \<Rightarrow> nat \<times> nat \<Rightarrow> nat \<times> mem" where
  "bind_step bytes = (\<lambda>(at, ram) (a, n).
     (at + n, if a \<noteq> LEGACY_CLOUD_COINS then poke a (take n (drop at bytes)) ram else ram))"

definition coop_guest_bind :: "u8 list \<Rightarrow> mem \<Rightarrow> mem" where
  "coop_guest_bind bytes ram = snd (foldl (bind_step bytes) (0, ram) fields)"

fun peek_from :: "nat \<Rightarrow> (nat \<times> nat) list \<Rightarrow> u8 list \<Rightarrow> nat \<Rightarrow> u8 option" where
  "peek_from at [] bytes address = None"
| "peek_from at ((a, n) # fs) bytes address =
     (if address \<ge> a \<and> address - a < n then Some (bytes ! (at + address - a))
      else peek_from (at + n) fs bytes address)"

definition coop_guest_peek :: "u8 list \<Rightarrow> nat \<Rightarrow> u8 option" where
  "coop_guest_peek bytes address = peek_from 0 fields bytes address"

section \<open>The player variables\<close>

definition clip_y :: "nat list" where
  "clip_y = [6, 20, 16, 24]"

definition clip_height :: "nat list" where
  "clip_height = [26, 12, 32, 24]"

definition clip_shape :: "mem \<Rightarrow> nat" where
  "clip_shape r = (if r 0x73 \<noteq> 0 \<or> r 0x19 = 0 then 1 else 0) + (if r 0x187a \<noteq> 0 then 2 else 0)"

fun power_code :: "CoopPower \<Rightarrow> u32" where
  "power_code COOP_SMALL = 0"
| "power_code COOP_BIG = 1"
| "power_code COOP_CAPE = 2"
| "power_code COOP_FIRE = 3"

definition power_of :: "u32 \<Rightarrow> CoopPower option" where
  "power_of v = (if v = 0 then Some COOP_SMALL else if v = 1 then Some COOP_BIG
     else if v = 2 then Some COOP_CAPE else if v = 3 then Some COOP_FIRE else None)"

text \<open>
  \<open>coop_guest_read_player\<close>.  The power byte of the guest is an enumerator of \<open>CoopPower\<close> whenever
  the game runs; None stands for a byte that is none, which C would store unchecked.
\<close>

definition coop_guest_read_player :: "CoopPlayer \<Rightarrow> mem \<Rightarrow> CoopPlayer option" where
  "coop_guest_read_player p r =
     (case power_of (ucast (r 0x19)) of None \<Rightarrow> None
      | Some pw \<Rightarrow>
          let shape = clip_shape r; height = clip_height ! shape
          in Some (p\<lparr>p_power := pw, p_reserve := ucast (r 0xdc2),
               p_protection_ticks := ucast (r 0x1497), p_star_ticks := ucast (r 0x1490) * 4,
               p_half_width := 6, p_height := of_nat height,
               p_x := of_nat (rd16 r 0x94 + 8),
               p_y := of_nat (rd16 r 0x96 + clip_y ! shape + height div 2),
               p_grounded := (r 0x77 AND 4 \<noteq> 0 \<or> r 0x1471 \<noteq> 0), p_swimming := (r 0x75 \<noteq> 0),
               p_supported_flight := (r 0x1407 \<noteq> 0 \<or> r 0x1891 \<noteq> 0),
               p_behind_fence := (r 0x13f9 \<noteq> 0)\<rparr>))"

definition coop_guest_place_player :: "CoopPlayer \<Rightarrow> mem \<Rightarrow> mem" where
  "coop_guest_place_player p r0 =
     (let r1 = put16 0x94 (sint (p_x p) - 8) r0;
          r2 = set8 0x73 0 (set8 0xdc2 (ucast (p_reserve p)) (set8 0x19 (ucast (power_code (p_power p))) r1));
          shape = clip_shape r2;
          r3 = put16 0x96 (sint (p_y p) - int (clip_y ! shape) - int (clip_height ! shape div 2)) r2;
          r4 = poke 0xd1 (map r3 [0x94..<0x98]) r3;
          r5 = set8 0x7a 0 (set8 0x7b 0 (set8 0x7c 0 (set8 0x7d 0 r4)));
          r6 = set8 0x13da 0 (set8 0x13dc 0 r5);
          r7 = set8 0x71 0 (set8 0x1496 0 r6);
          r8 = set8 0x1497 (ucast (if p_protection_ticks p > 255 then 255 else p_protection_ticks p)) r7;
          r9 = set8 0x1407 0 (set8 0x1408 0 (set8 0x140d 0 r8))
      in set8 0x72 (if p_grounded p then 0 else 0x24) r9)"

definition coop_guest_set_input :: "u16 \<Rightarrow> u16 \<Rightarrow> mem \<Rightarrow> mem" where
  "coop_guest_set_input held pressed r =
     (let r1 = set8 0x16 (ucast (drop_bit 8 pressed)) (set8 0x15 (ucast (drop_bit 8 held)) r);
          r2 = set8 0x18 (ucast pressed AND 0xc0) (set8 0x17 (ucast held AND 0xc0) r1);
          r3 = set8 0x15 (r2 0x15 OR r2 0x17) r2
      in set8 0x16 (r3 0x16 OR r3 0x18) r3)"

section \<open>The layout\<close>

text \<open>Fields are disjoint: each address is in at most one of them.\<close>

definition owned :: "nat \<Rightarrow> bool" where
  "owned x \<longleftrightarrow> (\<exists>(a, n) \<in> set fields. a \<le> x \<and> x < a + n)"

definition ordered_fields :: "(nat \<times> nat) list \<Rightarrow> bool" where
  "ordered_fields fs \<longleftrightarrow> sorted_wrt (\<lambda>(a, n) (b, m). a + n \<le> b \<or> b + m \<le> a) fs"

lemma fields_disjoint: "ordered_fields fields"
  by (simp add: ordered_fields_def fields_def)

lemma guest_bytes: "COOP_GUEST_BYTES = 144"
  by (simp add: COOP_GUEST_BYTES_def fields_def)


lemma foldl_append: "foldl (\<lambda>bytes x. bytes @ f x) acc xs = acc @ concat (map f xs)"
  by (induction xs arbitrary: acc) simp_all

lemma capture_concat: "coop_guest_capture ram = concat (map (\<lambda>(a, n). map ram [a..<a + n]) fields)"
  using foldl_append [of "\<lambda>(a, n). map ram [a..<a + n]" "[]" fields]
  by (simp add: coop_guest_capture_def case_prod_unfold)

lemma length_capture [simp]: "length (coop_guest_capture ram) = COOP_GUEST_BYTES"
  by (simp add: capture_concat COOP_GUEST_BYTES_def fields_def)

text \<open>Reading a captured image gives the captured memory, on the owned addresses.\<close>

lemma peek_from_capture:
  assumes "take (sum_list (map snd fs)) (drop at bytes) = concat (map (\<lambda>(a, n). map ram [a..<a + n]) fs)"
    and "at + sum_list (map snd fs) \<le> length bytes"
  shows "peek_from at fs bytes x =
     (if \<exists>(a, n) \<in> set fs. a \<le> x \<and> x < a + n then Some (ram x) else None)"
  using assms
proof (induction at fs bytes x rule: peek_from.induct)
  case (1 at bytes x)
  then show ?case by simp
next
  case (2 at a n fs bytes x)
  let ?m = "sum_list (map snd fs)"
  have all: "take (n + ?m) (drop at bytes) = map ram [a..<a + n] @
      concat (map (\<lambda>(a, n). map ram [a..<a + n]) fs)"
    using 2(2) by simp
  have hd: "take n (drop at bytes) = map ram [a..<a + n]"
    using arg_cong [OF all, of "take n"] by (simp add: min_def)
  have "take ?m (drop (at + n) bytes) = concat (map (\<lambda>(a, n). map ram [a..<a + n]) fs)"
    using arg_cong [OF all, of "drop n"] by (simp add: drop_take add.commute)
  moreover have "at + n + ?m \<le> length bytes" using 2(3) by simp
  ultimately have IH: "\<not> (a \<le> x \<and> x - a < n) \<Longrightarrow> peek_from (at + n) fs bytes x =
      (if \<exists>(a, n) \<in> set fs. a \<le> x \<and> x < a + n then Some (ram x) else None)"
    using 2(1) by blast
  show ?case
  proof (cases "a \<le> x \<and> x - a < n")
    case True
    then have "bytes ! (at + (x - a)) = take n (drop at bytes) ! (x - a)"
      using 2(3) by simp
    also have "\<dots> = ram x" unfolding hd using True by (subst nth_map) auto
    finally show ?thesis using True by auto
  next
    case False
    then have "\<not> (a \<le> x \<and> x < a + n)" by auto
    then show ?thesis using IH [OF False] False by auto
  qed
qed

lemma peek_capture: "coop_guest_peek (coop_guest_capture ram) x = (if owned x then Some (ram x) else None)"
proof -
  have "take (sum_list (map snd fields)) (drop 0 (coop_guest_capture ram)) =
      concat (map (\<lambda>(a, n). map ram [a..<a + n]) fields)"
    using length_capture [of ram] by (simp add: capture_concat COOP_GUEST_BYTES_def)
  from peek_from_capture [OF this, of x] show ?thesis
    by (simp add: coop_guest_peek_def owned_def flip: COOP_GUEST_BYTES_def)
qed

text \<open>Binding writes at each owned address, but for the retired one, the byte a peek returns.\<close>

definition in_field :: "nat \<times> nat \<Rightarrow> nat \<Rightarrow> bool" where
  "in_field f x \<longleftrightarrow> fst f \<le> x \<and> x < fst f + snd f"

definition legacy_in :: "(nat \<times> nat) list \<Rightarrow> nat \<Rightarrow> bool" where
  "legacy_in fs x \<longleftrightarrow> (\<exists>n. (LEGACY_CLOUD_COINS, n) \<in> set fs \<and> in_field (LEGACY_CLOUD_COINS, n) x)"

lemma bind_step_Pair: "bind_step bytes (at, ram) (a, n) =
    (at + n, if a \<noteq> LEGACY_CLOUD_COINS then poke a (take n (drop at bytes)) ram else ram)"
  by (simp add: bind_step_def)

lemma bind_step_outside:
  "\<not> in_field f x \<Longrightarrow> snd (bind_step bytes st f) x = snd st x"
  by (cases f; cases st) (auto simp: bind_step_Pair poke_def in_field_def)

lemma bind_outside:
  "\<forall>f \<in> set fs. \<not> in_field f x \<Longrightarrow> snd (foldl (bind_step bytes) st fs) x = snd st x"
proof (induction fs arbitrary: st)
  case Nil
  then show ?case by simp
next
  case (Cons f fs)
  then show ?case using bind_step_outside [of f x bytes st] by simp
qed

lemma bind_fields:
  assumes "ordered_fields fs" "at + sum_list (map snd fs) \<le> length bytes"
  shows "snd (foldl (bind_step bytes) (at, ram) fs) x =
     (case peek_from at fs bytes x of None \<Rightarrow> ram x
      | Some v \<Rightarrow> if legacy_in fs x
                 then ram x else v)"
  using assms
proof (induction fs arbitrary: at ram)
  case Nil
  then show ?case by simp
next
  case (Cons f fs)
  obtain a n where f: "f = (a, n)" by (cases f)
  have rest: "\<forall>g \<in> set fs. \<not> in_field g x" if "in_field (a, n) x"
    using Cons.prems(1) that by (fastforce simp: ordered_fields_def in_field_def f)
  have fs: "ordered_fields fs" "at + n + sum_list (map snd fs) \<le> length bytes"
    using Cons.prems by (simp_all add: ordered_fields_def f)
  show ?case
  proof (cases "in_field (a, n) x")
    case True
    then have p: "peek_from at (f # fs) bytes x = Some (bytes ! (at + x - a))"
      by (auto simp: f in_field_def)
    have "snd (foldl (bind_step bytes) (at, ram) (f # fs)) x = snd (bind_step bytes (at, ram) f) x"
      using bind_outside [OF rest [OF True], of bytes] by simp
    also have "\<dots> = (if a = LEGACY_CLOUD_COINS then ram x else bytes ! (at + x - a))"
      using True Cons.prems(2) by (auto simp: f bind_step_Pair poke_def in_field_def)
    finally have "snd (foldl (bind_step bytes) (at, ram) (f # fs)) x =
        (if a = LEGACY_CLOUD_COINS then ram x else bytes ! (at + x - a))" .
    moreover have "legacy_in (f # fs) x \<longleftrightarrow> a = LEGACY_CLOUD_COINS"
      using True rest [OF True] by (auto simp: f legacy_in_def)
    ultimately show ?thesis by (simp add: p)
  next
    case False
    then have p: "peek_from at (f # fs) bytes x = peek_from (at + n) fs bytes x"
      by (auto simp: f in_field_def)
    have m: "snd (bind_step bytes (at, ram) f) x = ram x"
      using bind_step_outside [of f x bytes "(at, ram)"] False by (simp add: f)
    have "legacy_in (f # fs) x \<longleftrightarrow> legacy_in fs x"
      using False by (auto simp: f legacy_in_def)
    moreover have "bind_step bytes (at, ram) f = (at + n, snd (bind_step bytes (at, ram) f))"
      by (simp add: f bind_step_Pair)
    ultimately show ?thesis
      using Cons.IH [OF fs, of "snd (bind_step bytes (at, ram) f)"] m p
      by (simp del: peek_from.simps split: option.split)
  qed
qed

lemma bind_peek:
  assumes "length bytes = COOP_GUEST_BYTES"
  shows "coop_guest_bind bytes ram x =
     (case coop_guest_peek bytes x of None \<Rightarrow> ram x
      | Some v \<Rightarrow> if x = LEGACY_CLOUD_COINS then ram x else v)"
proof -
  have "legacy_in fields x \<longleftrightarrow> x = LEGACY_CLOUD_COINS"
    by (auto simp: legacy_in_def fields_def LEGACY_CLOUD_COINS_def in_field_def)
  then show ?thesis
    using bind_fields [OF fields_disjoint, of 0 bytes ram x] assms
    by (simp add: coop_guest_bind_def coop_guest_peek_def COOP_GUEST_BYTES_def split: option.split)
qed


section \<open>Ownership and the player variables\<close>

text \<open>
  C17. Binding a captured image restores exactly the actor's own bytes: every other byte of work
  RAM, and the retired byte at 18E3, keeps the value the memory already has.
\<close>

theorem bind_of_capture:
  "coop_guest_bind (coop_guest_capture ram) other x =
     (if owned x \<and> x \<noteq> LEGACY_CLOUD_COINS then ram x else other x)"
  by (simp add: bind_peek peek_capture)

definition placed_shape :: "CoopPlayer \<Rightarrow> mem \<Rightarrow> nat" where
  "placed_shape p r = (if p_power p = COOP_SMALL then 1 else 0) + (if r 0x187a \<noteq> 0 then 2 else 0)"

lemma poke_outside: "\<not> (a \<le> x \<and> x < a + length bs) \<Longrightarrow> poke a bs r x = r x"
  by (auto simp: poke_def)

lemma power_code_byte: "power_of (ucast (ucast (power_code pw) :: u8)) = Some pw"
  by (cases pw) (simp_all add: power_of_def)

lemma byte_round: "unat (v :: u32) < 256 \<Longrightarrow> (ucast (ucast v :: u8) :: u32) = v"
  by (rule word_unat_eq_iff [THEN iffD2]) (simp add: unsigned_ucast_eq unsigned_take_bit_eq take_bit_nat_eq_self)

lemma power_code_0: "(ucast (power_code pw) :: u8) = 0 \<longleftrightarrow> pw = COOP_SMALL"
  by (cases pw) simp_all

lemma rd16_fun_upd: "b \<noteq> a \<Longrightarrow> b \<noteq> a + 1 \<Longrightarrow> rd16 (r(b := v)) a = rd16 r a"
  by (simp add: rd16_def)

lemma rd16_put16_other: "b \<noteq> a \<Longrightarrow> b \<noteq> a + 1 \<Longrightarrow> b + 1 \<noteq> a \<Longrightarrow> rd16 (put16 b v r) a = rd16 r a"
  by (simp add: rd16_def put16_def)

lemma rd16_poke: "a + 1 < b \<Longrightarrow> rd16 (poke b bs r) a = rd16 r a"
  by (simp add: rd16_def poke_outside)

lemma place_player_reads:
  fixes r :: mem and p :: CoopPlayer
  defines "r' \<equiv> coop_guest_place_player p r"
  shows "r' 0x19 = ucast (power_code (p_power p))" "r' 0x73 = 0" "r' 0x187a = r 0x187a"
    "rd16 r' 0x94 = nat ((sint (p_x p) - 8) mod 65536)"
    "rd16 r' 0x96 = nat ((sint (p_y p) - int (clip_y ! placed_shape p r) -
        int (clip_height ! placed_shape p r div 2)) mod 65536)"
    "r' 0xdc2 = ucast (p_reserve p)"
    "r' 0x1497 = ucast (if p_protection_ticks p > 255 then 255 else p_protection_ticks p)"
proof -
  define r1 where "r1 = put16 0x94 (sint (p_x p) - 8) r"
  define r2 where "r2 = set8 0x73 0 (set8 0xdc2 (ucast (p_reserve p))
      (set8 0x19 (ucast (power_code (p_power p))) r1))"
  define v where "v = sint (p_y p) - int (clip_y ! placed_shape p r) - int (clip_height ! placed_shape p r div 2)"
  have shape: "clip_shape r2 = placed_shape p r"
    by (simp add: clip_shape_def placed_shape_def r2_def r1_def set8_def put16_def power_code_0)
  define r3 where "r3 = put16 0x96 v r2"
  define r4 where "r4 = poke 0xd1 (map r3 [0x94..<0x98]) r3"
  have r': "r' = set8 0x72 (if p_grounded p then 0 else 0x24)
      (set8 0x1407 0 (set8 0x1408 0 (set8 0x140d 0
      (set8 0x1497 (ucast (if p_protection_ticks p > 255 then 255 else p_protection_ticks p))
      (set8 0x71 0 (set8 0x1496 0 (set8 0x13da 0 (set8 0x13dc 0
      (set8 0x7a 0 (set8 0x7b 0 (set8 0x7c 0 (set8 0x7d 0 r4))))))))))))"
    by (simp add: r'_def coop_guest_place_player_def Let_def shape r4_def r3_def v_def r2_def r1_def
        flip: shape del: upt_conv_Cons upt_rec_numeral)
  have r4: "r4 x = r3 x" if "x < 0xd1 \<or> x \<ge> 0xd5" for x
    using that by (auto simp: r4_def poke_def)
  show "r' 0x19 = ucast (power_code (p_power p))" "r' 0x73 = 0" "r' 0x187a = r 0x187a"
    "r' 0xdc2 = ucast (p_reserve p)"
    "r' 0x1497 = ucast (if p_protection_ticks p > 255 then 255 else p_protection_ticks p)"
    by (simp_all add: r' set8_def r4 r3_def put16_def r2_def r1_def)
  have x: "rd16 r2 0x94 = nat ((sint (p_x p) - 8) mod 65536)"
    by (simp add: r2_def r1_def set8_def rd16_fun_upd rd16_put16)
  have "rd16 r' a = rd16 r3 a" if "a = 0x94 \<or> a = 0x96" for a
    using that by (auto simp: r' set8_def rd16_fun_upd rd16_def r4)
  then show "rd16 r' 0x94 = nat ((sint (p_x p) - 8) mod 65536)" "rd16 r' 0x96 = nat (v mod 65536)"
    using x by (simp_all add: r3_def rd16_put16 rd16_put16_other)
qed

text \<open>
  Placing a player and reading the native variables back gives the same position, power-up,
  reserve and protection (capped at 255), for every position the 16-bit native coordinates can
  hold, with and without a mount.
\<close>

lemma read_of_place:
  assumes "0 \<le> sint (p_x p) - 8" "sint (p_x p) - 8 < 65536"
    and "0 \<le> sint (p_y p) - int (clip_y ! placed_shape p r) - int (clip_height ! placed_shape p r div 2)"
    and "sint (p_y p) - int (clip_y ! placed_shape p r) - int (clip_height ! placed_shape p r div 2) < 65536"
    and "p_reserve p < 256"
  shows "\<exists>q. coop_guest_read_player p (coop_guest_place_player p r) = Some q \<and>
     p_x q = p_x p \<and> p_y q = p_y p \<and> p_power q = p_power p \<and> p_reserve q = p_reserve p \<and>
     p_protection_ticks q = min 255 (p_protection_ticks p)"
proof -
  let ?r = "coop_guest_place_player p r"
  note reads = place_player_reads [of p r]
  have shape: "clip_shape ?r = placed_shape p r"
    by (simp add: clip_shape_def placed_shape_def reads power_code_0)
  have x: "rd16 ?r 0x94 = nat (sint (p_x p) - 8)"
    and y: "rd16 ?r 0x96 = nat (sint (p_y p) - int (clip_y ! placed_shape p r) -
      int (clip_height ! placed_shape p r div 2))"
    using assms(1-4) by (simp_all add: reads)
  have reserve: "(ucast (ucast (p_reserve p) :: u8) :: u32) = p_reserve p"
    using assms(5) by (intro byte_round) (simp add: word_less_nat_alt)
  have protection: "(ucast (ucast (if p_protection_ticks p > 255 then 255 else p_protection_ticks p) :: u8) :: u32) =
      min 255 (p_protection_ticks p)"
    using byte_round [of "p_protection_ticks p"]
    by (cases "p_protection_ticks p" "255 :: u32" rule: linorder_cases)
      (simp_all add: min_def word_less_nat_alt word_le_nat_alt)
  show ?thesis
    unfolding coop_guest_read_player_def shape Let_def
    using assms(1,3) by (simp add: reads(1-3,6,7) power_code_byte x y reserve protection)
qed

end
