(* ===== verification/Coop_State.thy ===== *)
theory Coop_State
  imports Coop_Roster Coop_Guest
begin

text \<open>
  The session codec of \<^verbatim>\<open>src/mods/coop/coop_state.c\<close>: a stream that reads or writes
  little-endian words depending on its mode, the field lists of the session, its players, events
  and actions, the validity test, \<open>coop_session_save\<close> and \<open>coop_session_load\<close>.

  The macros \<open>W\<close>, \<open>I\<close> and \<open>B\<close> of the C code are constructors of \<open>entry\<close>; \<open>Q\<close> is a call of
  \<open>wide\<close> and \<open>E\<close> is \<open>W\<close> on a field of enumeration type.  For \<open>E\<close> a number that names no
  enumerator raises the stream's error; the C code stores the number and \<open>valid\<close> rejects it
  after the loop, so in both cases the load returns false and discards the candidate.
\<close>

section \<open>The stream\<close>

record Stream =
  st_p :: "u8 list"
  st_at :: nat
  st_size :: nat
  st_error :: bool
  st_loading :: bool

definition le32 :: "u32 \<Rightarrow> u8 list" where
  "le32 v = [ucast v, ucast (drop_bit 8 v), ucast (drop_bit 16 v), ucast (drop_bit 24 v)]"

definition get32 :: "u8 list \<Rightarrow> nat \<Rightarrow> u32" where
  "get32 p i = ucast (p ! i) OR push_bit 8 (ucast (p ! (i + 1))) OR
     push_bit 16 (ucast (p ! (i + 2))) OR push_bit 24 (ucast (p ! (i + 3)))"

definition patch :: "nat \<Rightarrow> 'a list \<Rightarrow> 'a list \<Rightarrow> 'a list" where
  "patch i bs p = take i p @ bs @ drop (i + length bs) p"

definition word_io :: "u32 \<Rightarrow> Stream \<Rightarrow> u32 \<times> Stream" where
  "word_io value s =
     (if st_at s > st_size s \<or> st_size s - st_at s < 4 then (0, s\<lparr>st_error := True\<rparr>)
      else if st_loading s then (get32 (st_p s) (st_at s), s\<lparr>st_at := st_at s + 4\<rparr>)
      else (value, s\<lparr>st_p := patch (st_at s) (le32 value) (st_p s), st_at := st_at s + 4\<rparr>))"

definition wide :: "u64 \<Rightarrow> Stream \<Rightarrow> u64 \<times> Stream" where
  "wide value s =
     (case word_io (ucast value) s of (lo, s1) \<Rightarrow>
        case word_io (ucast (drop_bit 32 value)) s1 of (hi, s2) \<Rightarrow>
          (ucast lo OR push_bit 32 (ucast hi), s2))"

definition boolean :: "bool \<Rightarrow> Stream \<Rightarrow> bool \<times> Stream" where
  "boolean value s =
     (case word_io (if value then 1 else 0) s of (v, s1) \<Rightarrow>
        (v \<noteq> 0, if v > 1 then s1\<lparr>st_error := True\<rparr> else s1))"

definition signed_word :: "i32 \<Rightarrow> Stream \<Rightarrow> i32 \<times> Stream" where
  "signed_word value s =
     (case word_io value s of (v, s1) \<Rightarrow>
        (if v \<le> 0x7FFFFFFF then v else - 1 - (0xFFFFFFFF - v), s1))"

definition crc_bit :: "u32 \<Rightarrow> u32" where
  "crc_bit crc = drop_bit 1 crc XOR (0xedb88320 AND (0 - (crc AND 1)))"

definition checksum :: "u8 list \<Rightarrow> u32" where
  "checksum data = NOT (foldl (\<lambda>crc b. (crc_bit ^^ 8) (crc XOR ucast b)) 0xFFFFFFFF data)"

section \<open>Field lists\<close>

datatype 'r entry =
    W "'r \<Rightarrow> u32" "u32 \<Rightarrow> 'r \<Rightarrow> 'r"
  | I "'r \<Rightarrow> i32" "i32 \<Rightarrow> 'r \<Rightarrow> 'r"
  | B "'r \<Rightarrow> bool" "bool \<Rightarrow> 'r \<Rightarrow> 'r"
  | Q "'r \<Rightarrow> u64" "u64 \<Rightarrow> 'r \<Rightarrow> 'r"
  | E "'r \<Rightarrow> u32" "u32 \<Rightarrow> 'r \<Rightarrow> 'r option"

fun stream_entry :: "'r entry \<Rightarrow> 'r \<Rightarrow> Stream \<Rightarrow> 'r \<times> Stream" where
  "stream_entry (W g u) r s = (case word_io (g r) s of (v, s1) \<Rightarrow> (u v r, s1))"
| "stream_entry (I g u) r s = (case signed_word (g r) s of (v, s1) \<Rightarrow> (u v r, s1))"
| "stream_entry (B g u) r s = (case boolean (g r) s of (v, s1) \<Rightarrow> (u v r, s1))"
| "stream_entry (Q g u) r s = (case wide (g r) s of (v, s1) \<Rightarrow> (u v r, s1))"
| "stream_entry (E g u) r s = (case word_io (g r) s of (v, s1) \<Rightarrow>
     (case u v r of Some r' \<Rightarrow> (r', s1) | None \<Rightarrow> (r, s1\<lparr>st_error := True\<rparr>)))"

fun stream_fields :: "'r entry list \<Rightarrow> 'r \<Rightarrow> Stream \<Rightarrow> 'r \<times> Stream" where
  "stream_fields [] r s = (r, s)"
| "stream_fields (e # es) r s = (case stream_entry e r s of (r1, s1) \<Rightarrow> stream_fields es r1 s1)"

fun stream_each :: "('r \<Rightarrow> Stream \<Rightarrow> 'r \<times> Stream) \<Rightarrow> 'r list \<Rightarrow> Stream \<Rightarrow> 'r list \<times> Stream" where
  "stream_each f [] s = ([], s)"
| "stream_each f (r # rs) s =
     (case f r s of (r1, s1) \<Rightarrow> case stream_each f rs s1 of (rs1, s2) \<Rightarrow> (r1 # rs1, s2))"

text \<open>The numbers of the enumerators.\<close>

fun outcome_code :: "CoopOutcome \<Rightarrow> u32" where
  "outcome_code COOP_CONTINUE = 0"
| "outcome_code COOP_RETRY = 1"
| "outcome_code COOP_GAME_OVER = 2"
| "outcome_code COOP_CLEAR = 3"

definition outcome_of :: "u32 \<Rightarrow> CoopOutcome option" where
  "outcome_of v = (if v = 0 then Some COOP_CONTINUE else if v = 1 then Some COOP_RETRY
     else if v = 2 then Some COOP_GAME_OVER else if v = 3 then Some COOP_CLEAR else None)"

fun life_code :: "CoopLifeState \<Rightarrow> u32" where
  "life_code COOP_PLAYING = 0"
| "life_code COOP_DYING = 1"
| "life_code COOP_DEATH_BUBBLE = 2"
| "life_code COOP_CATCHUP_BUBBLE = 3"

definition life_of :: "u32 \<Rightarrow> CoopLifeState option" where
  "life_of v = (if v = 0 then Some COOP_PLAYING else if v = 1 then Some COOP_DYING
     else if v = 2 then Some COOP_DEATH_BUBBLE else if v = 3 then Some COOP_CATCHUP_BUBBLE else None)"

definition event_kinds :: "CoopEventKind list" where
  "event_kinds = [COOP_EVENT_PICKUP, COOP_EVENT_ENEMY_CONTACT, COOP_EVENT_ON_OFF,
     COOP_EVENT_CHECKPOINT, COOP_EVENT_DAMAGE, COOP_EVENT_DEATH, COOP_EVENT_DEATH_FINISHED,
     COOP_EVENT_TIMEOUT, COOP_EVENT_EXIT]"

definition kind_of :: "u32 \<Rightarrow> CoopEventKind option" where
  "kind_of v = (if unat v < length event_kinds then Some (event_kinds ! unat v) else None)"

definition action_kinds :: "CoopActionKind list" where
  "action_kinds = [COOP_ACTION_PICKUP, COOP_ACTION_ENEMY_DAMAGE, COOP_ACTION_STOMP_BOUNCE,
     COOP_ACTION_ON_OFF, COOP_ACTION_CHECKPOINT, COOP_ACTION_DAMAGE, COOP_ACTION_DROP_RESERVE,
     COOP_ACTION_DROP_OBJECT, COOP_ACTION_DETACH_MOUNT, COOP_ACTION_DEATH, COOP_ACTION_RECOVER,
     COOP_ACTION_EXIT, COOP_ACTION_RETRY, COOP_ACTION_GAME_OVER]"

fun action_code :: "CoopActionKind \<Rightarrow> u32" where
  "action_code COOP_ACTION_PICKUP = 0"
| "action_code COOP_ACTION_ENEMY_DAMAGE = 1"
| "action_code COOP_ACTION_STOMP_BOUNCE = 2"
| "action_code COOP_ACTION_ON_OFF = 3"
| "action_code COOP_ACTION_CHECKPOINT = 4"
| "action_code COOP_ACTION_DAMAGE = 5"
| "action_code COOP_ACTION_DROP_RESERVE = 6"
| "action_code COOP_ACTION_DROP_OBJECT = 7"
| "action_code COOP_ACTION_DETACH_MOUNT = 8"
| "action_code COOP_ACTION_DEATH = 9"
| "action_code COOP_ACTION_RECOVER = 10"
| "action_code COOP_ACTION_EXIT = 11"
| "action_code COOP_ACTION_RETRY = 12"
| "action_code COOP_ACTION_GAME_OVER = 13"

definition action_of :: "u32 \<Rightarrow> CoopActionKind option" where
  "action_of v = (if unat v < length action_kinds then Some (action_kinds ! unat v) else None)"

definition session_fields :: "CoopSession entry list" where
  "session_fields = [
     W primary (\<lambda>v. primary_update (\<lambda>_. v)),
     W ticks_per_second (\<lambda>v. ticks_per_second_update (\<lambda>_. v)),
     Q frame_no (\<lambda>v. frame_no_update (\<lambda>_. v)),
     W lives (\<lambda>v. lives_update (\<lambda>_. v)),
     W coins (\<lambda>v. coins_update (\<lambda>_. v)),
     W score (\<lambda>v. score_update (\<lambda>_. v)),
     W dragon_coins (\<lambda>v. dragon_coins_update (\<lambda>_. v)),
     W bonus_stars (\<lambda>v. bonus_stars_update (\<lambda>_. v)),
     W checkpoint (\<lambda>v. checkpoint_update (\<lambda>_. v)),
     W level_ticks (\<lambda>v. level_ticks_update (\<lambda>_. v)),
     E (outcome_code \<circ> outcome) (\<lambda>v r. map_option (\<lambda>k. r\<lparr>outcome := k\<rparr>) (outcome_of v)),
     B advancing (\<lambda>v. advancing_update (\<lambda>_. v)),
     B input_blocked (\<lambda>v. input_blocked_update (\<lambda>_. v)),
     B failed (\<lambda>v. failed_update (\<lambda>_. v)),
     B resolved (\<lambda>v. resolved_update (\<lambda>_. v)),
     I (c_x \<circ> camera) (\<lambda>v. camera_update (c_x_update (\<lambda>_. v))),
     I (c_y \<circ> camera) (\<lambda>v. camera_update (c_y_update (\<lambda>_. v))),
     I (c_width \<circ> camera) (\<lambda>v. camera_update (c_width_update (\<lambda>_. v))),
     I (c_height \<circ> camera) (\<lambda>v. camera_update (c_height_update (\<lambda>_. v))),
     I (c_room_width \<circ> camera) (\<lambda>v. camera_update (c_room_width_update (\<lambda>_. v))),
     I (c_room_height \<circ> camera) (\<lambda>v. camera_update (c_room_height_update (\<lambda>_. v))),
     I (c_previous_center_x \<circ> camera) (\<lambda>v. camera_update (c_previous_center_x_update (\<lambda>_. v))),
     I (c_previous_center_y \<circ> camera) (\<lambda>v. camera_update (c_previous_center_y_update (\<lambda>_. v))),
     I (c_travel_x \<circ> camera) (\<lambda>v. camera_update (c_travel_x_update (\<lambda>_. v))),
     I (c_travel_y \<circ> camera) (\<lambda>v. camera_update (c_travel_y_update (\<lambda>_. v))),
     W (c_leader \<circ> camera) (\<lambda>v. camera_update (c_leader_update (\<lambda>_. v))),
     B (c_initialized \<circ> camera) (\<lambda>v. camera_update (c_initialized_update (\<lambda>_. v))),
     B (c_autoscroll \<circ> camera) (\<lambda>v. camera_update (c_autoscroll_update (\<lambda>_. v)))]"

definition player_fields :: "CoopPlayer entry list" where
  "player_fields = [
     W p_id (\<lambda>v. p_id_update (\<lambda>_. v)),
     W p_character (\<lambda>v. p_character_update (\<lambda>_. v)),
     E (life_code \<circ> p_life) (\<lambda>v r. map_option (\<lambda>k. r\<lparr>p_life := k\<rparr>) (life_of v)),
     E (power_code \<circ> p_power) (\<lambda>v r. map_option (\<lambda>k. r\<lparr>p_power := k\<rparr>) (power_of v)),
     W p_reserve (\<lambda>v. p_reserve_update (\<lambda>_. v)),
     I p_x (\<lambda>v. p_x_update (\<lambda>_. v)),
     I p_y (\<lambda>v. p_y_update (\<lambda>_. v)),
     I p_half_width (\<lambda>v. p_half_width_update (\<lambda>_. v)),
     I p_height (\<lambda>v. p_height_update (\<lambda>_. v)),
     W p_star_ticks (\<lambda>v. p_star_ticks_update (\<lambda>_. v)),
     W p_protection_ticks (\<lambda>v. p_protection_ticks_update (\<lambda>_. v)),
     W p_recovery_ticks (\<lambda>v. p_recovery_ticks_update (\<lambda>_. v)),
     W p_separation_ticks (\<lambda>v. p_separation_ticks_update (\<lambda>_. v)),
     W p_mount (\<lambda>v. p_mount_update (\<lambda>_. v)),
     W p_held_object (\<lambda>v. p_held_object_update (\<lambda>_. v)),
     W p_held_input (\<lambda>v. p_held_input_update (\<lambda>_. v)),
     W p_pressed_input (\<lambda>v. p_pressed_input_update (\<lambda>_. v)),
     W p_action_latch (\<lambda>v. p_action_latch_update (\<lambda>_. v)),
     B p_connected (\<lambda>v. p_connected_update (\<lambda>_. v)),
     B p_grounded (\<lambda>v. p_grounded_update (\<lambda>_. v)),
     B p_swimming (\<lambda>v. p_swimming_update (\<lambda>_. v)),
     B p_supported_flight (\<lambda>v. p_supported_flight_update (\<lambda>_. v)),
     B p_behind_fence (\<lambda>v. p_behind_fence_update (\<lambda>_. v)),
     B p_checkpoint_upgrade (\<lambda>v. p_checkpoint_upgrade_update (\<lambda>_. v))]"

definition event_fields :: "CoopEvent entry list" where
  "event_fields = [
     E (kind_code \<circ> e_kind) (\<lambda>v r. map_option (\<lambda>k. r\<lparr>e_kind := k\<rparr>) (kind_of v)),
     W e_player (\<lambda>v. e_player_update (\<lambda>_. v)),
     W e_entity (\<lambda>v. e_entity_update (\<lambda>_. v)),
     W e_value (\<lambda>v. e_value_update (\<lambda>_. v)),
     W e_flags (\<lambda>v. e_flags_update (\<lambda>_. v)),
     Q e_distance_squared (\<lambda>v. e_distance_squared_update (\<lambda>_. v))]"

definition action_fields :: "CoopAction entry list" where
  "action_fields = [
     E (action_code \<circ> a_kind) (\<lambda>v r. map_option (\<lambda>k. r\<lparr>a_kind := k\<rparr>) (action_of v)),
     W a_player (\<lambda>v. a_player_update (\<lambda>_. v)),
     W a_entity (\<lambda>v. a_entity_update (\<lambda>_. v)),
     W a_value (\<lambda>v. a_value_update (\<lambda>_. v))]"

definition stream_session :: "CoopSession \<Rightarrow> Stream \<Rightarrow> CoopSession \<times> Stream" where
  "stream_session s w =
     (case stream_fields session_fields s w of (s0, w0) \<Rightarrow>
      case stream_each (stream_fields player_fields) (players s0) w0 of (ps, w1) \<Rightarrow>
      case stream_each (stream_fields event_fields) (events s0) w1 of (es, w2) \<Rightarrow>
      case stream_each (stream_fields action_fields) (actions s0) w2 of (as, w3) \<Rightarrow>
        (s0\<lparr>players := ps, events := es, actions := as\<rparr>, w3))"

section \<open>Sizes, validity, saving and loading\<close>

definition HEADER_SIZE :: nat where
  "HEADER_SIZE = 136"

definition PLAYER_SIZE :: nat where
  "PLAYER_SIZE = 96"

definition EVENT_SIZE :: nat where
  "EVENT_SIZE = 28"

definition ACTION_SIZE :: nat where
  "ACTION_SIZE = 16"

definition COOP_STATE_MAGIC :: u32 where
  "COOP_STATE_MAGIC = 0x504f4f43"

definition COOP_STATE_VERSION :: u32 where
  "COOP_STATE_VERSION = 1"

definition encoded_size :: "nat \<Rightarrow> nat \<Rightarrow> nat \<Rightarrow> nat" where
  "encoded_size ps es as =
     (let n = HEADER_SIZE + 4
      in if ps > (SIZE_MAX - n) div PLAYER_SIZE then 0
         else let n = n + ps * PLAYER_SIZE
         in if es > (SIZE_MAX - n) div EVENT_SIZE then 0
         else let n = n + es * EVENT_SIZE
         in if as > (SIZE_MAX - n) div ACTION_SIZE then 0
         else n + as * ACTION_SIZE)"

definition coop_session_save_size :: "CoopSession \<Rightarrow> nat" where
  "coop_session_save_size s =
     (if players s = [] \<or> length (players s) \<ge> unat COOP_NO_PLAYER \<or> length (events s) > UINT32_MAX \<or>
         length (actions s) > UINT32_MAX then 0
      else encoded_size (length (players s)) (length (events s)) (length (actions s)))"

text \<open>
  \<open>valid\<close>; the tests that an enumeration is in range are the type of the field.  The inner loop
  compares each player with the later ones.
\<close>

definition names_player :: "CoopSession \<Rightarrow> u32 \<Rightarrow> bool" where
  "names_player s i \<longleftrightarrow> i = COOP_NO_PLAYER \<or> coop_player s i \<noteq> None"

definition player_valid :: "CoopPlayer \<Rightarrow> bool" where
  "player_valid p \<longleftrightarrow> \<not> (p_id p = COOP_NO_PLAYER \<or> p_reserve p > 4 \<or> sint (p_half_width p) < 1 \<or>
     sint (p_half_width p) > 256 \<or> sint (p_height p) < 1 \<or> sint (p_height p) > 512)"

definition player_clash :: "CoopPlayer \<Rightarrow> CoopPlayer \<Rightarrow> bool" where
  "player_clash p q \<longleftrightarrow> p_id p = p_id q \<or> (p_mount p \<noteq> COOP_NO_ENTITY \<and> p_mount p = p_mount q) \<or>
     (p_held_object p \<noteq> COOP_NO_ENTITY \<and> p_held_object p = p_held_object q)"

fun players_valid :: "CoopPlayer list \<Rightarrow> bool" where
  "players_valid [] = True"
| "players_valid (p # ps) = (player_valid p \<and> (\<forall>q \<in> set ps. \<not> player_clash p q) \<and> players_valid ps)"

definition valid :: "CoopSession \<Rightarrow> bool" where
  "valid s \<longleftrightarrow>
     \<not> (ticks_per_second s = 0 \<or> ticks_per_second s > 1000 \<or> coop_player s (primary s) = None \<or>
        (c_leader (camera s) \<noteq> COOP_NO_PLAYER \<and> coop_player s (c_leader (camera s)) = None)) \<and>
     \<not> (c_initialized (camera s) \<and>
        (sint (c_width (camera s)) < 32 \<or> sint (c_height (camera s)) < 32 \<or>
         sint (c_room_width (camera s)) < 1 \<or> sint (c_room_height (camera s)) < 1)) \<and>
     \<not> (sint (c_travel_x (camera s)) < - 1 \<or> sint (c_travel_x (camera s)) > 1 \<or>
        sint (c_travel_y (camera s)) < - 1 \<or> sint (c_travel_y (camera s)) > 1) \<and>
     players_valid (players s) \<and>
     list_all (\<lambda>e. names_player s (e_player e)) (events s) \<and>
     list_all (\<lambda>a. names_player s (a_player a)) (actions s)"

text \<open>
  \<open>coop_session_save\<close>: \<open>data\<close> is the caller's buffer of \<open>length data\<close> bytes; the result is the
  buffer after a successful save.  A failed save returns false; what it leaves in the buffer is
  not used.
\<close>

definition coop_session_save :: "allocator \<Rightarrow> CoopSession \<Rightarrow> u8 list \<Rightarrow> u8 list option" where
  "coop_session_save alloc s data =
     (let size = coop_session_save_size s
      in if size = 0 \<or> length data < size \<or> \<not> valid s then None
         else
           let w = \<lparr>st_p = data, st_at = 0, st_size = size - 4, st_error = False, st_loading = False\<rparr>;
               w1 = snd (word_io COOP_STATE_MAGIC w);
               w2 = snd (word_io COOP_STATE_VERSION w1);
               w3 = snd (word_io (of_nat (length (players s))) w2);
               w4 = snd (word_io (of_nat (length (events s))) w3);
               w5 = snd (word_io (of_nat (length (actions s))) w4)
           in if \<not> alloc (length (players s) * SIZEOF_PLAYER) \<or>
                 (events s \<noteq> [] \<and> \<not> alloc (length (events s) * SIZEOF_EVENT)) \<or>
                 (actions s \<noteq> [] \<and> \<not> alloc (length (actions s) * SIZEOF_ACTION)) then None
              else
                let w6 = snd (stream_session s w5)
                in if st_error w6 \<or> st_at w6 \<noteq> size - 4 then None
                   else
                     let w7 = snd (word_io (checksum (take (size - 4) (st_p w6))) (w6\<lparr>st_size := size\<rparr>))
                     in if st_error w7 then None else Some (st_p w7))"

definition zero_event :: CoopEvent where
  "zero_event = \<lparr>e_kind = COOP_EVENT_PICKUP, e_player = 0, e_entity = 0, e_value = 0, e_flags = 0,
     e_distance_squared = 0\<rparr>"

definition zero_action :: CoopAction where
  "zero_action = \<lparr>a_kind = COOP_ACTION_PICKUP, a_player = 0, a_entity = 0, a_value = 0\<rparr>"

text \<open>\<open>coop_session_load\<close>: \<open>data\<close> is the whole input; the pair is the result and the session after it.\<close>

definition coop_session_load :: "allocator \<Rightarrow> u8 list \<Rightarrow> CoopSession \<Rightarrow> bool \<times> CoopSession" where
  "coop_session_load alloc data s =
     (let size = length data
      in if size < HEADER_SIZE + PLAYER_SIZE * 2 + 4 then (False, s)
         else
           let r = \<lparr>st_p = data, st_at = 0, st_size = size, st_error = False, st_loading = True\<rparr>;
               (magic, r1) = word_io 0 r;
               (version, r2) = word_io 0 r1
           in if magic \<noteq> COOP_STATE_MAGIC \<or> version \<noteq> COOP_STATE_VERSION then (False, s)
              else
                let (ps, r3) = word_io 0 r2; (es, r4) = word_io 0 r3; (as, r5) = word_io 0 r4
                in if encoded_size (unat ps) (unat es) (unat as) \<noteq> size then (False, s)
                   else if fst (word_io 0 (r5\<lparr>st_at := size - 4\<rparr>)) \<noteq> checksum (take (size - 4) data)
                   then (False, s)
                   else case coop_session_init alloc (unat ps) 60 of None \<Rightarrow> (False, s)
                   | Some c \<Rightarrow>
                       if unat es * SIZEOF_EVENT > SIZE_MAX \<or> unat as * SIZEOF_ACTION > SIZE_MAX \<or>
                          (es \<noteq> 0 \<and> \<not> alloc (unat es * SIZEOF_EVENT)) \<or>
                          (as \<noteq> 0 \<and> \<not> alloc (unat as * SIZEOF_ACTION)) then (False, s)
                       else
                         let c1 = c\<lparr>events := replicate (unat es) zero_event, event_capacity := unat es,
                                    actions := replicate (unat as) zero_action, action_capacity := unat as\<rparr>;
                             (c2, r6) = stream_session c1 (r5\<lparr>st_size := size - 4\<rparr>)
                         in if st_error r6 \<or> st_at r6 \<noteq> st_size r6 \<or> \<not> valid c2 then (False, s)
                            else (True, c2))"

end
