(* ===== verification/Coop_State_Facts.thy ===== *)
theory Coop_State_Facts
  imports Coop_State
begin

text \<open>
  The contract of the session codec.  A codec writes a fixed encoding at the position of the stream
  and reads it back; the locale states this for a pair of modes of the same C function, and is
  interpreted for the words, the field lists and the arrays of the session.
\<close>

section \<open>Words\<close>

lemma length_le32 [simp]: "length (le32 v) = 4"
  by (simp add: le32_def)

lemma word_parts:
  "ucast (ucast v :: u8) OR push_bit 8 (ucast (ucast (drop_bit 8 v) :: u8)) OR
   push_bit 16 (ucast (ucast (drop_bit 16 v) :: u8)) OR
   push_bit 24 (ucast (ucast (drop_bit 24 v) :: u8)) = (v :: u32)"
  (is "?w = v")
proof (rule bit_word_eqI)
  fix k
  assume "k < LENGTH(32)"
  then consider "k < 8" | "8 \<le> k" "k < 16" | "16 \<le> k" "k < 24" | "24 \<le> k" "k < 32" by fastforce
  then show "bit ?w k = bit v k" by cases (auto simp: bit_simps)
qed

lemma get32_le32:
  assumes "take 4 (drop i p) = le32 v" "i + 4 \<le> length p"
  shows "get32 p i = v"
proof -
  have n: "p ! (i + k) = le32 v ! k" if "k < 4" for k
  proof -
    have "le32 v ! k = take 4 (drop i p) ! k" by (simp add: assms(1))
    also have "\<dots> = p ! (i + k)" using that assms(2) by simp
    finally show ?thesis by simp
  qed
  have "get32 p i = ucast (ucast v :: u8) OR push_bit 8 (ucast (ucast (drop_bit 8 v) :: u8)) OR
      push_bit 16 (ucast (ucast (drop_bit 16 v) :: u8)) OR push_bit 24 (ucast (ucast (drop_bit 24 v) :: u8))"
    using n [of 0] n [of 1] n [of 2] n [of 3] by (simp add: get32_def le32_def)
  also have "\<dots> = v" by (rule word_parts)
  finally show ?thesis .
qed

lemma wide_parts: "ucast (ucast v :: u32) OR push_bit 32 (ucast (ucast (drop_bit 32 v) :: u32)) = (v :: u64)"
  (is "?w = v")
proof (rule bit_word_eqI)
  fix k
  assume "k < LENGTH(64)"
  then show "bit ?w k = bit v k" by (cases "k < 32") (auto simp: bit_simps)
qed

lemma signed_same: "(if v \<le> 0x7FFFFFFF then v else - 1 - (0xFFFFFFFF - v)) = (v :: i32)"
  by simp

section \<open>Patching a buffer\<close>

lemma length_patch [simp]: "i + length bs \<le> length p \<Longrightarrow> length (patch i bs p) = length p"
  by (simp add: patch_def)

lemma patch_empty [simp]: "patch i [] p = p"
  by (simp add: patch_def)

lemma patch_patch:
  "i + length bs + length cs \<le> length p \<Longrightarrow>
     patch (i + length bs) cs (patch i bs p) = patch i (bs @ cs) p"
proof (cases "bs = [] \<and> cs = []")
  case False
  assume len: "i + length bs + length cs \<le> length p"
  with False have "i < length p" by (cases bs; cases cs) simp_all
  with len show ?thesis by (auto simp: patch_def min_def drop_take ac_simps)
qed (simp add: patch_def)

lemma take_patch:
  "i + length bs \<le> length p \<Longrightarrow> take (i + length bs) (patch i bs p) = take i p @ bs"
  by (simp add: patch_def)

section \<open>The contract of a codec\<close>

definition writing :: "Stream \<Rightarrow> nat \<Rightarrow> bool" where
  "writing s n \<longleftrightarrow> \<not> st_loading s \<and> st_at s + n \<le> st_size s \<and> st_size s \<le> length (st_p s)"

definition reading :: "Stream \<Rightarrow> u8 list \<Rightarrow> bool" where
  "reading s bs \<longleftrightarrow> st_loading s \<and> st_at s + length bs \<le> st_size s \<and> st_size s \<le> length (st_p s) \<and>
     take (length bs) (drop (st_at s) (st_p s)) = bs"

definition wrote :: "u8 list \<Rightarrow> Stream \<Rightarrow> Stream" where
  "wrote bs s = s\<lparr>st_p := patch (st_at s) bs (st_p s), st_at := st_at s + length bs\<rparr>"

definition skipped :: "u8 list \<Rightarrow> Stream \<Rightarrow> Stream" where
  "skipped bs s = s\<lparr>st_at := st_at s + length bs\<rparr>"

lemma wrote_append: "writing s (length (bs @ cs)) \<Longrightarrow> wrote cs (wrote bs s) = wrote (bs @ cs) s"
  using patch_patch [of "st_at s" bs cs "st_p s"] by (simp add: wrote_def writing_def)

lemma skipped_append: "skipped cs (skipped bs s) = skipped (bs @ cs) s"
  by (simp add: skipped_def)

lemma writing_wrote: "writing s (length bs + n) \<Longrightarrow> writing (wrote bs s) n"
  by (simp add: writing_def wrote_def)

lemma writing_less: "writing s n \<Longrightarrow> m \<le> n \<Longrightarrow> writing s m"
  by (simp add: writing_def)

lemma reading_append:
  assumes "reading s (bs @ cs)"
  shows "reading s bs \<and> reading (skipped bs s) cs"
proof -
  have t: "take (length bs + length cs) (drop (st_at s) (st_p s)) = bs @ cs"
    using assms by (simp add: reading_def)
  have "take (length bs) (drop (st_at s) (st_p s)) = bs"
    using arg_cong [OF t, of "take (length bs)"] by (simp add: min_def)
  moreover have "take (length cs) (drop (st_at s + length bs) (st_p s)) = cs"
    using arg_cong [OF t, of "drop (length bs)"] by (simp add: drop_take add.commute)
  ultimately show ?thesis using assms by (simp add: reading_def skipped_def)
qed

lemma wrote_frame [simp]: "st_loading (wrote bs s) = st_loading s" "st_error (wrote bs s) = st_error s"
  "st_size (wrote bs s) = st_size s" "st_at (wrote bs s) = st_at s + length bs"
  by (simp_all add: wrote_def)

lemma skipped_frame [simp]: "st_loading (skipped bs s) = st_loading s" "st_error (skipped bs s) = st_error s"
  "st_size (skipped bs s) = st_size s" "st_at (skipped bs s) = st_at s + length bs"
  "st_p (skipped bs s) = st_p s"
  by (simp_all add: skipped_def)

text \<open>
  \<open>f\<close> is the streaming function, \<open>enc\<close> the bytes of a value and \<open>merge v r\<close> what reading the bytes
  of \<open>v\<close> makes of the old contents \<open>r\<close>.
\<close>

locale codec =
  fixes f :: "'r \<Rightarrow> Stream \<Rightarrow> 'r \<times> Stream"
    and enc :: "'r \<Rightarrow> u8 list"
    and merge :: "'r \<Rightarrow> 'r \<Rightarrow> 'r"
  assumes writes: "writing s (length (enc v)) \<Longrightarrow> f v s = (v, wrote (enc v) s)"
    and reads: "reading s (enc v) \<Longrightarrow> f r s = (merge v r, skipped (enc v) s)"
begin

lemma each_writes:
  "writing s (length (concat (map enc vs))) \<Longrightarrow>
     stream_each f vs s = (vs, wrote (concat (map enc vs)) s)"
proof (induction vs arbitrary: s)
  case Nil
  then show ?case by (simp add: wrote_def)
next
  case (Cons v vs)
  have "f v s = (v, wrote (enc v) s)"
    by (rule writes) (rule writing_less [OF Cons.prems], simp)
  moreover have "stream_each f vs (wrote (enc v) s) = (vs, wrote (concat (map enc vs)) (wrote (enc v) s))"
    by (rule Cons.IH) (rule writing_wrote, use Cons.prems in simp)
  ultimately show ?case using wrote_append [of s "enc v" "concat (map enc vs)"] Cons.prems by simp
qed

lemma each_reads:
  "reading s (concat (map enc vs)) \<Longrightarrow> length rs = length vs \<Longrightarrow>
     stream_each f rs s = (map2 merge vs rs, skipped (concat (map enc vs)) s)"
proof (induction vs arbitrary: s rs)
  case Nil
  then show ?case by (simp add: skipped_def)
next
  case (Cons v vs)
  then obtain r rs' where rs: "rs = r # rs'" "length rs' = length vs" by (cases rs) auto
  note rd = reading_append [of s "enc v" "concat (map enc vs)"]
  have "f r s = (merge v r, skipped (enc v) s)" using reads rd Cons.prems(1) by simp
  moreover have "stream_each f rs' (skipped (enc v) s) =
      (map2 merge vs rs', skipped (concat (map enc vs)) (skipped (enc v) s))"
    using Cons.IH [OF _ rs(2)] rd Cons.prems(1) by simp
  ultimately show ?case by (simp add: rs skipped_append)
qed

end

section \<open>Entries and field lists\<close>

lemma word_io_writes:
  assumes "writing s 4"
  shows "word_io v s = (v, wrote (le32 v) s)"
proof -
  have "\<not> (st_at s > st_size s \<or> st_size s - st_at s < 4)" "\<not> st_loading s"
    using assms by (auto simp: writing_def)
  then show ?thesis unfolding word_io_def wrote_def by simp
qed

lemma word_io_reads:
  assumes "reading s (le32 v)"
  shows "word_io r s = (v, skipped (le32 v) s)"
proof -
  have "\<not> (st_at s > st_size s \<or> st_size s - st_at s < 4)" "st_loading s"
    "get32 (st_p s) (st_at s) = v"
    using get32_le32 [of "st_at s" "st_p s" v] assms by (auto simp: reading_def)
  then show ?thesis unfolding word_io_def skipped_def by simp
qed

interpretation word_codec: codec word_io le32 "\<lambda>v r. v"
  by unfold_locales (simp_all add: word_io_writes word_io_reads)

definition enc64 :: "u64 \<Rightarrow> u8 list" where
  "enc64 v = le32 (ucast v) @ le32 (ucast (drop_bit 32 v))"

interpretation wide_codec: codec wide enc64 "\<lambda>v r. v"
proof unfold_locales
  fix s and v :: u64
  assume w: "writing s (length (enc64 v))"
  have "word_io (ucast v) s = (ucast v, wrote (le32 (ucast v)) s)"
    by (rule word_io_writes) (rule writing_less [OF w], simp add: enc64_def)
  moreover have "word_io (ucast (drop_bit 32 v)) (wrote (le32 (ucast v)) s) =
      (ucast (drop_bit 32 v), wrote (le32 (ucast (drop_bit 32 v))) (wrote (le32 (ucast v)) s))"
    by (rule word_io_writes, rule writing_wrote) (use w in \<open>simp add: enc64_def\<close>)
  ultimately show "wide v s = (v, wrote (enc64 v) s)"
    using wrote_append [of s "le32 (ucast v)" "le32 (ucast (drop_bit 32 v))"] w
    by (simp add: wide_def wide_parts enc64_def)
next
  fix s and v r :: u64
  assume "reading s (enc64 v)"
  then have "reading s (le32 (ucast v))" "reading (skipped (le32 (ucast v)) s) (le32 (ucast (drop_bit 32 v)))"
    using reading_append by (auto simp: enc64_def)
  then show "wide r s = (v, skipped (enc64 v) s)"
    by (simp add: wide_def word_io_reads wide_parts skipped_append enc64_def)
qed

definition enc_bool :: "bool \<Rightarrow> u8 list" where
  "enc_bool b = le32 (if b then 1 else 0)"

interpretation bool_codec: codec boolean enc_bool "\<lambda>v r. v"
proof unfold_locales
  show "writing s (length (enc_bool v)) \<Longrightarrow> boolean v s = (v, wrote (enc_bool v) s)" for s v
    by (simp add: boolean_def enc_bool_def word_io_writes)
  show "reading s (enc_bool v) \<Longrightarrow> boolean r s = (v, skipped (enc_bool v) s)" for s v r
    unfolding boolean_def enc_bool_def by (simp only: word_io_reads) simp
qed

interpretation signed_codec: codec signed_word le32 "\<lambda>v r. v"
  by unfold_locales (simp_all add: signed_word_def word_io_writes word_io_reads)

fun entry_bytes :: "'r entry \<Rightarrow> 'r \<Rightarrow> u8 list" where
  "entry_bytes (W g u) r = le32 (g r)"
| "entry_bytes (I g u) r = le32 (g r)"
| "entry_bytes (B g u) r = enc_bool (g r)"
| "entry_bytes (Q g u) r = enc64 (g r)"
| "entry_bytes (E g u) r = le32 (g r)"

fun entry_merge :: "'r entry \<Rightarrow> 'r \<Rightarrow> 'r \<Rightarrow> 'r" where
  "entry_merge (W g u) v r = u (g v) r"
| "entry_merge (I g u) v r = u (g v) r"
| "entry_merge (B g u) v r = u (g v) r"
| "entry_merge (Q g u) v r = u (g v) r"
| "entry_merge (E g u) v r = (case u (g v) r of Some r' \<Rightarrow> r' | None \<Rightarrow> r)"

text \<open>A setter puts back what the getter found, and an enumerator's number is in range.\<close>

fun entry_lawful :: "'r entry \<Rightarrow> bool" where
  "entry_lawful (W g u) = (\<forall>r. u (g r) r = r)"
| "entry_lawful (I g u) = (\<forall>r. u (g r) r = r)"
| "entry_lawful (B g u) = (\<forall>r. u (g r) r = r)"
| "entry_lawful (Q g u) = (\<forall>r. u (g r) r = r)"
| "entry_lawful (E g u) = ((\<forall>v r. \<exists>r'. u (g v) r = Some r') \<and> (\<forall>r. u (g r) r = Some r))"

lemma entry_codec:
  assumes "entry_lawful e"
  shows "codec (stream_entry e) (entry_bytes e) (entry_merge e)"
proof (cases e)
  case (W g u)
  with assms show ?thesis by unfold_locales (simp_all add: word_io_writes word_io_reads)
next
  case (I g u)
  with assms show ?thesis by unfold_locales (simp_all add: signed_codec.writes signed_codec.reads)
next
  case (B g u)
  with assms show ?thesis by unfold_locales (simp_all add: bool_codec.writes bool_codec.reads)
next
  case (Q g u)
  with assms show ?thesis by unfold_locales (simp_all add: wide_codec.writes wide_codec.reads)
next
  case (E g u)
  show ?thesis
  proof unfold_locales
    show "writing s (length (entry_bytes e v)) \<Longrightarrow> stream_entry e v s = (v, wrote (entry_bytes e v) s)" for s v
      using assms E by (simp add: word_io_writes)
    show "reading s (entry_bytes e v) \<Longrightarrow> stream_entry e r s = (entry_merge e v r, skipped (entry_bytes e v) s)"
      for s v r
    proof -
      assume "reading s (entry_bytes e v)"
      moreover obtain r' where "u (g v) r = Some r'" using assms E by fastforce
      ultimately show ?thesis using E by (simp add: word_io_reads)
    qed
  qed
qed

definition fields_bytes :: "'r entry list \<Rightarrow> 'r \<Rightarrow> u8 list" where
  "fields_bytes es r = concat (map (\<lambda>e. entry_bytes e r) es)"

definition fields_merge :: "'r entry list \<Rightarrow> 'r \<Rightarrow> 'r \<Rightarrow> 'r" where
  "fields_merge es v r = foldl (\<lambda>r e. entry_merge e v r) r es"

lemma fields_codec:
  assumes "\<forall>e \<in> set es. entry_lawful e"
  shows "codec (stream_fields es) (fields_bytes es) (fields_merge es)"
proof unfold_locales
  fix s and v :: 'a
  show "writing s (length (fields_bytes es v)) \<Longrightarrow> stream_fields es v s = (v, wrote (fields_bytes es v) s)"
    using assms
  proof (induction es arbitrary: s)
    case Nil
    then show ?case by (simp add: fields_bytes_def wrote_def)
  next
    case (Cons e es)
    have e: "codec (stream_entry e) (entry_bytes e) (entry_merge e)"
      by (rule entry_codec) (use Cons.prems in simp)
    have "stream_entry e v s = (v, wrote (entry_bytes e v) s)"
      by (rule codec.writes [OF e]) (rule writing_less [OF Cons.prems(1)], simp add: fields_bytes_def)
    moreover have "stream_fields es v (wrote (entry_bytes e v) s) =
        (v, wrote (fields_bytes es v) (wrote (entry_bytes e v) s))"
      by (rule Cons.IH, rule writing_wrote) (use Cons.prems in \<open>simp_all add: fields_bytes_def\<close>)
    ultimately show ?case
      using wrote_append [of s "entry_bytes e v" "fields_bytes es v"] Cons.prems(1)
      by (simp add: fields_bytes_def)
  qed
next
  fix s and v r :: 'a
  show "reading s (fields_bytes es v) \<Longrightarrow>
      stream_fields es r s = (fields_merge es v r, skipped (fields_bytes es v) s)"
    using assms
  proof (induction es arbitrary: s r)
    case Nil
    then show ?case by (simp add: fields_bytes_def fields_merge_def skipped_def)
  next
    case (Cons e es)
    have e: "codec (stream_entry e) (entry_bytes e) (entry_merge e)"
      by (rule entry_codec) (use Cons.prems in simp)
    have parts: "reading s (entry_bytes e v)" "reading (skipped (entry_bytes e v) s) (fields_bytes es v)"
      using reading_append [of s "entry_bytes e v" "fields_bytes es v"] Cons.prems(1)
      by (simp_all add: fields_bytes_def)
    have "stream_fields es (entry_merge e v r) (skipped (entry_bytes e v) s) =
        (fields_merge es v (entry_merge e v r), skipped (fields_bytes es v) (skipped (entry_bytes e v) s))"
      by (rule Cons.IH [OF parts(2)]) (use Cons.prems(2) in simp)
    with codec.reads [OF e parts(1), of r] show ?case
      by (simp add: skipped_append fields_bytes_def fields_merge_def)
  qed
qed

section \<open>The parts of a session\<close>

lemma kind_code_of [simp]: "kind_of (kind_code k) = Some k"
  by (cases k) (simp_all add: kind_of_def event_kinds_def)

lemma action_code_of [simp]: "action_of (action_code k) = Some k"
  by (cases k) (simp_all add: action_of_def action_kinds_def)

lemma outcome_code_of [simp]: "outcome_of (outcome_code k) = Some k"
  by (cases k) (simp_all add: outcome_of_def)

lemma life_code_of [simp]: "life_of (life_code k) = Some k"
  by (cases k) (simp_all add: life_of_def)

lemma power_code_of [simp]: "power_of (power_code k) = Some k"
  by (cases k) (simp_all add: power_of_def)

lemma lawful_fields:
  "\<forall>e \<in> set player_fields. entry_lawful e" "\<forall>e \<in> set event_fields. entry_lawful e"
  "\<forall>e \<in> set action_fields. entry_lawful e" "\<forall>e \<in> set session_fields. entry_lawful e"
  by (simp_all add: player_fields_def event_fields_def action_fields_def session_fields_def)

lemma merge_player: "fields_merge player_fields v r = v"
  by (simp add: fields_merge_def player_fields_def)

lemma merge_event: "fields_merge event_fields v r = v"
  by (simp add: fields_merge_def event_fields_def)

lemma merge_action: "fields_merge action_fields v r = v"
  by (simp add: fields_merge_def action_fields_def)

lemma merge_session: "fields_merge session_fields v r =
    v\<lparr>players := players r, events := events r, event_capacity := event_capacity r,
      actions := actions r, action_capacity := action_capacity r\<rparr>"
  by (simp add: fields_merge_def session_fields_def)


lemma record_codec:
  assumes "\<forall>e \<in> set es. entry_lawful e" "\<And>v r. fields_merge es v r = v"
  shows "codec (stream_fields es) (fields_bytes es) (\<lambda>v r. v)"
proof -
  have "fields_merge es = (\<lambda>v r. v)" using assms(2) by (intro ext)
  with fields_codec [OF assms(1)] show ?thesis by simp
qed

interpretation player_codec: codec "stream_fields player_fields" "fields_bytes player_fields" "\<lambda>v r. v"
  by (rule record_codec [OF lawful_fields(1) merge_player])

interpretation event_codec: codec "stream_fields event_fields" "fields_bytes event_fields" "\<lambda>v r. v"
  by (rule record_codec [OF lawful_fields(2) merge_event])

interpretation action_codec: codec "stream_fields action_fields" "fields_bytes action_fields" "\<lambda>v r. v"
  by (rule record_codec [OF lawful_fields(3) merge_action])

interpretation scalar_codec: codec "stream_fields session_fields" "fields_bytes session_fields"
  "fields_merge session_fields"
  by (rule fields_codec [OF lawful_fields(4)])

lemma length_enc [simp]: "length (enc64 v) = 8" "length (enc_bool b) = 4"
  by (simp_all add: enc64_def enc_bool_def)

lemma fields_length [codec_simps]:
  "length (fields_bytes player_fields p) = PLAYER_SIZE"
  "length (fields_bytes event_fields e) = EVENT_SIZE"
  "length (fields_bytes action_fields a) = ACTION_SIZE"
  "length (fields_bytes session_fields s) = 116"
  by (simp_all add: fields_bytes_def player_fields_def event_fields_def action_fields_def
      session_fields_def PLAYER_SIZE_def EVENT_SIZE_def ACTION_SIZE_def)

definition session_bytes :: "CoopSession \<Rightarrow> u8 list" where
  "session_bytes s = fields_bytes session_fields s @
     concat (map (fields_bytes player_fields) (players s)) @
     concat (map (fields_bytes event_fields) (events s)) @
     concat (map (fields_bytes action_fields) (actions s))"

lemma length_concat_map: "(\<And>x. length (f x) = n) \<Longrightarrow> length (concat (map f xs)) = n * length xs"
  by (induction xs) simp_all

lemma session_bytes_length [codec_simps]:
  "length (session_bytes s) = 116 + PLAYER_SIZE * length (players s) +
     EVENT_SIZE * length (events s) + ACTION_SIZE * length (actions s)"
  by (simp add: session_bytes_def codec_simps
      length_concat_map [of "fields_bytes player_fields" PLAYER_SIZE]
      length_concat_map [of "fields_bytes event_fields" EVENT_SIZE]
      length_concat_map [of "fields_bytes action_fields" ACTION_SIZE])

lemma stream_session_writes:
  assumes "writing w (length (session_bytes s))"
  shows "stream_session s w = (s, wrote (session_bytes s) w)"
proof -
  define a b c d where "a = fields_bytes session_fields s"
    and "b = concat (map (fields_bytes player_fields) (players s))"
    and "c = concat (map (fields_bytes event_fields) (events s))"
    and "d = concat (map (fields_bytes action_fields) (actions s))"
  have s: "session_bytes s = a @ b @ c @ d" by (simp add: session_bytes_def a_def b_def c_def d_def)
  have w: "writing w (length a)" "writing (wrote a w) (length b)" "writing (wrote (a @ b) w) (length c)"
    "writing (wrote (a @ b @ c) w) (length d)"
    using assms by (auto simp: s intro: writing_less intro!: writing_wrote)
  have j: "wrote b (wrote a w) = wrote (a @ b) w" "wrote c (wrote (a @ b) w) = wrote (a @ b @ c) w"
    "wrote d (wrote (a @ b @ c) w) = wrote (a @ b @ c @ d) w"
    using assms by (simp_all add: s wrote_append writing_less)
  have "stream_fields session_fields s w = (s, wrote a w)"
    unfolding a_def by (rule scalar_codec.writes) (use w(1) in \<open>simp add: a_def\<close>)
  moreover have "stream_each (stream_fields player_fields) (players s) (wrote a w) = (players s, wrote (a @ b) w)"
    using player_codec.each_writes [of "wrote a w" "players s"] w(2) j(1) by (simp add: b_def)
  moreover have "stream_each (stream_fields event_fields) (events s) (wrote (a @ b) w) =
      (events s, wrote (a @ b @ c) w)"
    using event_codec.each_writes [of "wrote (a @ b) w" "events s"] w(3) j(2) by (simp add: c_def)
  moreover have "stream_each (stream_fields action_fields) (actions s) (wrote (a @ b @ c) w) =
      (actions s, wrote (a @ b @ c @ d) w)"
    using action_codec.each_writes [of "wrote (a @ b @ c) w" "actions s"] w(4) j(3) by (simp add: d_def)
  ultimately show ?thesis by (simp add: stream_session_def s)
qed

lemma map2_const: "length xs = length ys \<Longrightarrow> map2 (\<lambda>v r. v) xs ys = xs"
  by (induction xs ys rule: list_induct2) simp_all

lemma stream_session_reads:
  assumes "reading w (session_bytes s)" "length (players r) = length (players s)"
    "length (events r) = length (events s)" "length (actions r) = length (actions s)"
  shows "stream_session r w =
     (s\<lparr>event_capacity := event_capacity r, action_capacity := action_capacity r\<rparr>,
      skipped (session_bytes s) w)"
proof -
  define a b c d where "a = fields_bytes session_fields s"
    and "b = concat (map (fields_bytes player_fields) (players s))"
    and "c = concat (map (fields_bytes event_fields) (events s))"
    and "d = concat (map (fields_bytes action_fields) (actions s))"
  have s: "session_bytes s = a @ b @ c @ d" by (simp add: session_bytes_def a_def b_def c_def d_def)
  have rd: "reading w a" "reading (skipped a w) b" "reading (skipped b (skipped a w)) c"
    "reading (skipped c (skipped b (skipped a w))) d"
    using assms(1) unfolding s by (auto dest!: reading_append)
  have "stream_fields session_fields r w = (fields_merge session_fields s r, skipped a w)"
    using scalar_codec.reads [of w s r] rd(1) by (simp add: a_def)
  moreover have "stream_each (stream_fields player_fields) (players r) (skipped a w) =
      (players s, skipped b (skipped a w))"
    using player_codec.each_reads [of "skipped a w" "players s" "players r"] rd(2) assms(2)
    by (simp add: b_def map2_const)
  moreover have "stream_each (stream_fields event_fields) (events r) (skipped b (skipped a w)) =
      (events s, skipped c (skipped b (skipped a w)))"
    using event_codec.each_reads [of "skipped b (skipped a w)" "events s" "events r"] rd(3) assms(3)
    by (simp add: c_def map2_const)
  moreover have "stream_each (stream_fields action_fields) (actions r) (skipped c (skipped b (skipped a w))) =
      (actions s, skipped d (skipped c (skipped b (skipped a w))))"
    using action_codec.each_reads [of "skipped c (skipped b (skipped a w))" "actions s" "actions r"] rd(4) assms(4)
    by (simp add: d_def map2_const)
  ultimately show ?thesis by (simp add: stream_session_def merge_session s skipped_append)
qed


section \<open>The image of a session\<close>

definition session_image :: "CoopSession \<Rightarrow> u8 list" where
  "session_image s = le32 COOP_STATE_MAGIC @ le32 COOP_STATE_VERSION @
     le32 (of_nat (length (players s))) @ le32 (of_nat (length (events s))) @
     le32 (of_nat (length (actions s))) @ session_bytes s"

definition sealed :: "u8 list \<Rightarrow> u8 list" where
  "sealed bs = bs @ le32 (checksum bs)"

lemma wrote_word:
  assumes "writing w (length bs + 4)"
  shows "word_io v (wrote bs w) = (v, wrote (bs @ le32 v) w)"
  using word_io_writes [OF writing_wrote [OF assms], of v] wrote_append [of w bs "le32 v"] assms by simp

lemma skipped_word:
  assumes "reading w (bs @ le32 v)"
  shows "word_io r (skipped bs w) = (v, skipped (bs @ le32 v) w)"
  using word_io_reads [of "skipped bs w" v r] reading_append [OF assms] by (simp add: skipped_append)

lemma reading_prefix: "reading w (bs @ cs) \<Longrightarrow> reading w bs"
  using reading_append by blast

lemma save_size_image:
  assumes "coop_session_save_size s \<noteq> 0"
  shows "coop_session_save_size s = length (session_image s) + 4"
    and "length (players s) < unat COOP_NO_PLAYER" "length (events s) \<le> UINT32_MAX"
    and "length (actions s) \<le> UINT32_MAX"
    and "encoded_size (length (players s)) (length (events s)) (length (actions s)) = coop_session_save_size s"
  using assms
  by (auto simp: coop_session_save_size_def encoded_size_def Let_def session_image_def codec_simps
      HEADER_SIZE_def split: if_splits)

lemma save_image:
  assumes "valid s" "coop_session_save_size s \<noteq> 0" "coop_session_save_size s \<le> length data" "\<forall>n. alloc n"
  shows "coop_session_save alloc s data = Some (patch 0 (sealed (session_image s)) data)"
proof -
  let ?n = "length (session_image s)"
  define w where "w = \<lparr>st_p = data, st_at = 0, st_size = coop_session_save_size s - 4,
    st_error = False, st_loading = False\<rparr>"
  note size = save_size_image(1) [OF assms(2)]
  have wr: "writing w ?n" using assms(3) size by (simp add: w_def writing_def)
  define h where "h = le32 COOP_STATE_MAGIC @ le32 COOP_STATE_VERSION @ le32 (of_nat (length (players s))) @
    le32 (of_nat (length (events s))) @ le32 (of_nat (length (actions s)))"
  have img: "session_image s = h @ session_bytes s" by (simp add: session_image_def h_def)
  have hw: "writing w (20 + length (session_bytes s))" using wr by (simp add: img h_def)
  have "snd (word_io (of_nat (length (actions s))) (snd (word_io (of_nat (length (events s)))
      (snd (word_io (of_nat (length (players s))) (snd (word_io COOP_STATE_VERSION
      (snd (word_io COOP_STATE_MAGIC w))))))))) = wrote h w"
    using hw by (simp add: word_io_writes wrote_word writing_less [OF hw] h_def)
  moreover have "stream_session s (wrote h w) = (s, wrote (session_image s) w)"
    using stream_session_writes [OF writing_wrote, of w h s] hw wrote_append [of w h "session_bytes s"] wr
    by (simp add: img h_def)
  moreover have "take (coop_session_save_size s - 4) (st_p (wrote (session_image s) w)) = session_image s"
    using size assms(3) by (simp add: wrote_def w_def patch_def)
  moreover have "word_io (checksum (session_image s)) (wrote (session_image s) w\<lparr>st_size := coop_session_save_size s\<rparr>) =
      (checksum (session_image s), wrote (sealed (session_image s)) (w\<lparr>st_size := coop_session_save_size s\<rparr>))"
    using wrote_word [of "w\<lparr>st_size := coop_session_save_size s\<rparr>" "session_image s" "checksum (session_image s)"]
      size assms(3) by (simp add: writing_def w_def wrote_def sealed_def)
  ultimately show ?thesis
    using assms size unfolding coop_session_save_def Let_def w_def [symmetric]
    by (simp add: w_def wrote_def not_less)
qed

lemma unat_of_nat_u32: "n \<le> UINT32_MAX \<Longrightarrow> unat (of_nat n :: u32) = n"
  by (simp add: UINT32_MAX_def unsigned_of_nat take_bit_nat_eq_self)

lemma valid_capacities [simp]: "valid (s\<lparr>event_capacity := m, action_capacity := n\<rparr>) = valid s"
  by (simp add: valid_def coop_player_def names_player_def)

lemma init_some:
  assumes "2 \<le> n" "n < unat COOP_NO_PLAYER" "\<forall>k. alloc k"
  obtains c where "coop_session_init alloc n 60 = Some c" "length (players c) = n"
  using assms
  by (auto simp: coop_session_init_def SIZE_MAX_def SIZEOF_PLAYER_def COOP_NO_PLAYER_def)

lemma load_image:
  assumes "valid s" "2 \<le> length (players s)" "coop_session_save_size s \<noteq> 0" "\<forall>n. alloc n"
  shows "coop_session_load alloc (sealed (session_image s)) old =
     (True, s\<lparr>event_capacity := length (events s), action_capacity := length (actions s)\<rparr>)"
proof -
  let ?data = "sealed (session_image s)" and ?size = "coop_session_save_size s"
  let ?np = "of_nat (length (players s)) :: u32" and ?ne = "of_nat (length (events s)) :: u32"
    and ?na = "of_nat (length (actions s)) :: u32"
  note sz = save_size_image [OF assms(3)]
  have np: "unat ?np = length (players s)" "unat ?ne = length (events s)" "unat ?na = length (actions s)"
    using sz(2-4) by (simp_all add: unat_of_nat_u32 UINT32_MAX_def COOP_NO_PLAYER_def)
  have z: "?ne = 0 \<longleftrightarrow> events s = []" "?na = 0 \<longleftrightarrow> actions s = []"
    using np(2,3) by (auto simp: word_unat_eq_iff)
  have len: "length ?data = ?size" by (simp add: sealed_def sz(1))
  define r where "r = \<lparr>st_p = ?data, st_at = 0, st_size = ?size, st_error = False, st_loading = True\<rparr>"
  define r' where "r' = r\<lparr>st_size := ?size - 4\<rparr>"
  define h1 h2 h3 h4 h5 where "h1 = le32 COOP_STATE_MAGIC" and "h2 = h1 @ le32 COOP_STATE_VERSION"
    and "h3 = h2 @ le32 ?np" and "h4 = h3 @ le32 ?ne" and "h5 = h4 @ le32 ?na"
  have img: "session_image s = h5 @ session_bytes s"
    by (simp add: session_image_def h1_def h2_def h3_def h4_def h5_def)
  have rd: "reading r (h5 @ session_bytes s)" "reading r' (h5 @ session_bytes s)"
    using len sz(1) by (simp_all add: reading_def r_def r'_def img sealed_def)
  have rh5: "reading r h5" by (rule reading_prefix [OF rd(1)])
  then have rh4: "reading r h4" unfolding h5_def by (rule reading_prefix)
  then have rh3: "reading r h3" unfolding h4_def by (rule reading_prefix)
  then have rh2: "reading r h2" unfolding h3_def by (rule reading_prefix)
  then have rh1: "reading r h1" unfolding h2_def by (rule reading_prefix)
  have words: "word_io 0 r = (COOP_STATE_MAGIC, skipped h1 r)"
    "word_io 0 (skipped h1 r) = (COOP_STATE_VERSION, skipped h2 r)"
    "word_io 0 (skipped h2 r) = (?np, skipped h3 r)" "word_io 0 (skipped h3 r) = (?ne, skipped h4 r)"
    "word_io 0 (skipped h4 r) = (?na, skipped h5 r)"
    using word_io_reads [OF rh1 [unfolded h1_def]] skipped_word [OF rh2 [unfolded h2_def]]
      skipped_word [OF rh3 [unfolded h3_def]] skipped_word [OF rh4 [unfolded h4_def]]
      skipped_word [OF rh5 [unfolded h5_def]]
    unfolding h1_def [symmetric] h2_def [symmetric] h3_def [symmetric] h4_def [symmetric] h5_def [symmetric]
    by simp_all
  have tail: "fst (word_io 0 (skipped h5 r\<lparr>st_at := ?size - 4\<rparr>)) = checksum (session_image s)"
  proof -
    have "reading (skipped h5 r\<lparr>st_at := ?size - 4\<rparr>) (le32 (checksum (session_image s)))"
      using len sz(1) by (simp add: reading_def r_def skipped_def sealed_def)
    then show ?thesis by (simp add: word_io_reads)
  qed
  have pre: "take (?size - 4) ?data = session_image s" by (simp add: sealed_def sz(1))
  obtain c where c: "coop_session_init alloc (length (players s)) 60 = Some c" "length (players c) = length (players s)"
    using init_some [of "length (players s)" alloc] assms(2,4) sz(2) by metis
  define c1 where "c1 = c\<lparr>events := replicate (length (events s)) zero_event, event_capacity := length (events s),
    actions := replicate (length (actions s)) zero_action, action_capacity := length (actions s)\<rparr>"
  have stream: "stream_session c1 (skipped h5 r') =
      (s\<lparr>event_capacity := length (events s), action_capacity := length (actions s)\<rparr>,
       skipped (h5 @ session_bytes s) r')"
    using stream_session_reads [of "skipped h5 r'" s c1] reading_append [OF rd(2)] c(2)
    by (simp add: c1_def skipped_append)
  have sk: "skipped h5 r\<lparr>st_size := ?size - 4\<rparr> = skipped h5 r'" by (simp add: skipped_def r'_def)
  have big: "\<not> ?size < HEADER_SIZE + PLAYER_SIZE * 2 + 4"
    using sz(1) assms(2) by (simp add: session_image_def codec_simps HEADER_SIZE_def PLAYER_SIZE_def)
  have mem: "length (events s) * SIZEOF_EVENT \<le> SIZE_MAX" "length (actions s) * SIZEOF_ACTION \<le> SIZE_MAX"
    using sz(3,4) by (simp_all add: SIZE_MAX_def SIZEOF_EVENT_def SIZEOF_ACTION_def UINT32_MAX_def)
  have "coop_session_load alloc ?data old =
     (let (c2, r6) = stream_session c1 (skipped h5 r')
      in if st_error r6 \<or> st_at r6 \<noteq> st_size r6 \<or> \<not> valid c2 then (False, old) else (True, c2))"
    unfolding coop_session_load_def Let_def len r_def [symmetric] words prod.case
    using big sz(5) tail pre mem assms(4) c(1) np z sk
    by (simp add: c1_def not_less)
  also have "\<dots> = (True, s\<lparr>event_capacity := length (events s), action_capacity := length (actions s)\<rparr>)"
    unfolding stream using assms(1) sz(1) by (simp add: img r'_def r_def)
  finally show ?thesis .
qed

text \<open>
  Saving and loading a session is the identity on everything but the spare capacities of its
  queues: a valid session with at least two players whose size is representable is written into
  any buffer that is large enough, and loading exactly the written bytes restores it whatever
  session it replaces.
\<close>

lemma session_roundtrip:
  assumes "valid s" "2 \<le> length (players s)" "coop_session_save_size s \<noteq> 0"
    and "coop_session_save_size s \<le> length data" "\<forall>n. alloc n"
  shows "\<exists>buf. coop_session_save alloc s data = Some buf \<and> length buf = length data \<and>
     drop (coop_session_save_size s) buf = drop (coop_session_save_size s) data \<and>
     coop_session_load alloc (take (coop_session_save_size s) buf) old =
       (True, s\<lparr>event_capacity := length (events s), action_capacity := length (actions s)\<rparr>)"
proof -
  let ?buf = "patch 0 (sealed (session_image s)) data"
  have len: "length (sealed (session_image s)) = coop_session_save_size s"
    using save_size_image(1) [OF assms(3)] by (simp add: sealed_def)
  have "take (coop_session_save_size s) ?buf = sealed (session_image s)"
    "drop (coop_session_save_size s) ?buf = drop (coop_session_save_size s) data"
    "length ?buf = length data"
    using len assms(4) by (simp_all add: patch_def)
  then show ?thesis
    using save_image [OF assms(1,3,4,5)] load_image [OF assms(1,2,3,5)] by auto
qed

text \<open>What no field of the stream can change, whatever the bytes are.\<close>

fun entry_keeps :: "('r \<Rightarrow> 'a) \<Rightarrow> 'r entry \<Rightarrow> bool" where
  "entry_keeps k (W g u) = (\<forall>v r. k (u v r) = k r)"
| "entry_keeps k (I g u) = (\<forall>v r. k (u v r) = k r)"
| "entry_keeps k (B g u) = (\<forall>v r. k (u v r) = k r)"
| "entry_keeps k (Q g u) = (\<forall>v r. k (u v r) = k r)"
| "entry_keeps k (E g u) = (\<forall>v r. case u v r of None \<Rightarrow> True | Some r' \<Rightarrow> k r' = k r)"

lemma stream_entry_keeps: "entry_keeps k e \<Longrightarrow> k (fst (stream_entry e r s)) = k r"
proof (cases e)
  case (E g u)
  assume keeps: "entry_keeps k e"
  obtain v s1 where v: "word_io (g r) s = (v, s1)" by (cases "word_io (g r) s")
  have "case u v r of None \<Rightarrow> True | Some r' \<Rightarrow> k r' = k r" using keeps unfolding E by simp
  with v show ?thesis by (cases "u v r") (simp_all add: E)
qed (auto split: prod.split)

lemma stream_fields_keeps: "\<forall>e \<in> set es. entry_keeps k e \<Longrightarrow> k (fst (stream_fields es r s)) = k r"
proof (induction es arbitrary: r s)
  case (Cons e es)
  obtain r1 s1 where st: "stream_entry e r s = (r1, s1)" by (cases "stream_entry e r s")
  with stream_entry_keeps [of k e r s] Cons show ?case by simp
qed simp

lemma stream_each_length: "length (fst (stream_each f rs s)) = length rs"
  by (induction rs arbitrary: s) (auto split: prod.split simp: prod_eq_iff)

lemma session_fields_keep:
  "\<forall>e \<in> set session_fields. entry_keeps (\<lambda>s. (players s, events s, actions s)) e"
  by (simp add: session_fields_def split: option.split)

lemma stream_session_lengths:
  assumes "stream_session s w = (t, w')"
  shows "length (players t) = length (players s) \<and> length (events t) = length (events s) \<and>
     length (actions t) = length (actions s)"
proof -
  obtain s0 w0 where f: "stream_fields session_fields s w = (s0, w0)" by (cases "stream_fields session_fields s w")
  have s0: "players s0 = players s" "events s0 = events s" "actions s0 = actions s"
    using stream_fields_keeps [OF session_fields_keep, of s w] f by simp_all
  obtain ps w1 where p: "stream_each (stream_fields player_fields) (players s0) w0 = (ps, w1)"
    by (cases "stream_each (stream_fields player_fields) (players s0) w0")
  obtain es w2 where e: "stream_each (stream_fields event_fields) (events s0) w1 = (es, w2)"
    by (cases "stream_each (stream_fields event_fields) (events s0) w1")
  obtain as w3 where a: "stream_each (stream_fields action_fields) (actions s0) w2 = (as, w3)"
    by (cases "stream_each (stream_fields action_fields) (actions s0) w2")
  have "t = s0\<lparr>players := ps, events := es, actions := as\<rparr>"
    using assms f p e a by (simp add: stream_session_def)
  then show ?thesis
    using stream_each_length [of "stream_fields player_fields" "players s0" w0]
      stream_each_length [of "stream_fields event_fields" "events s0" w1]
      stream_each_length [of "stream_fields action_fields" "actions s0" w2] p e a s0 by simp
qed

lemma init_length: "coop_session_init alloc n hz = Some c \<Longrightarrow> length (players c) = n"
  by (auto simp: coop_session_init_def split: if_splits)

lemma word_io_frame:
  "word_io v s = (x, s') \<Longrightarrow> st_loading s \<Longrightarrow>
     st_p s' = st_p s \<and> st_size s' = st_size s \<and> st_loading s'"
  by (auto simp: word_io_def split: if_splits)

text \<open>
  A load is all or nothing: when it fails the session is untouched, and when it succeeds the
  input had exactly the encoded size of what was loaded, its checksum was right and the new
  session is valid, with at least two players.
\<close>

lemma session_load_transactional:
  assumes "coop_session_load alloc data s = (ok, t)"
  shows "if ok then valid t \<and> 2 \<le> length (players t) \<and>
       length data = encoded_size (length (players t)) (length (events t)) (length (actions t)) \<and>
       get32 data (length data - 4) = checksum (take (length data - 4) data)
     else t = s"
proof (cases ok)
  case False
  with assms show ?thesis
    by (auto simp: coop_session_load_def Let_def split: if_splits option.splits prod.splits)
next
  case True
  define r where "r = \<lparr>st_p = data, st_at = 0, st_size = length data, st_error = False, st_loading = True\<rparr>"
  obtain m r1 where w1: "word_io 0 r = (m, r1)" by (cases "word_io 0 r")
  obtain v r2 where w2: "word_io 0 r1 = (v, r2)" by (cases "word_io 0 r1")
  obtain ps r3 where w3: "word_io 0 r2 = (ps, r3)" by (cases "word_io 0 r2")
  obtain es r4 where w4: "word_io 0 r3 = (es, r4)" by (cases "word_io 0 r3")
  obtain as r5 where w5: "word_io 0 r4 = (as, r5)" by (cases "word_io 0 r4")
  have big: "\<not> length data < HEADER_SIZE + PLAYER_SIZE * 2 + 4"
    using assms True by (auto simp: coop_session_load_def Let_def)
  have run: "coop_session_load alloc data s = (True, t)" using assms True by simp
  obtain c c1 r6 where c: "coop_session_init alloc (unat ps) 60 = Some c"
    and c1: "c1 = c\<lparr>events := replicate (unat es) zero_event, event_capacity := unat es,
      actions := replicate (unat as) zero_action, action_capacity := unat as\<rparr>"
    and st: "stream_session c1 (r5\<lparr>st_size := length data - 4\<rparr>) = (t, r6)"
    and facts: "encoded_size (unat ps) (unat es) (unat as) = length data" "valid t"
      "fst (word_io 0 (r5\<lparr>st_at := length data - 4\<rparr>)) = checksum (take (length data - 4) data)"
    using run big unfolding coop_session_load_def Let_def r_def [symmetric] w1 prod.case w2 w3 w4 w5
    by (auto split: if_splits option.splits prod.splits)
  have "st_p r = data \<and> st_size r = length data \<and> st_loading r" by (simp add: r_def)
  then have "st_p r5 = data \<and> st_size r5 = length data \<and> st_loading r5"
    using word_io_frame [OF w1] word_io_frame [OF w2] word_io_frame [OF w3] word_io_frame [OF w4]
      word_io_frame [OF w5] by simp
  then have "get32 data (length data - 4) = fst (word_io 0 (r5\<lparr>st_at := length data - 4\<rparr>))"
    using big unfolding word_io_def by (auto simp: HEADER_SIZE_def)
  moreover have "length (players t) = unat ps" "length (events t) = unat es" "length (actions t) = unat as"
    using stream_session_lengths [OF st] init_length [OF c] by (simp_all add: c1)
  moreover have "2 \<le> unat ps" using c by (auto simp: coop_session_init_def split: if_splits)
  ultimately show ?thesis using facts True by simp
qed

end
