(* ===== verification/Coop_Machine.thy ===== *)
theory Coop_Machine
  imports Coop_Roster Coop_Guest
begin

text \<open>
  The native machine state of \<^verbatim>\<open>src/mods/coop/coop_machine.h\<close> and the operations of
  \<^verbatim>\<open>coop_machine.c\<close> other than its codec: actors with their native images, the table of live
  entities with stable identities over reusable sprite slots, the tables of used Yoshi sources and
  placed eggs, the camera focus and the validity predicates of a snapshot.

  A counted array inside a structure (\<open>CoopVisual\<close>, the pending and visible piece of a fireball)
  is the list of its used elements, so its count is the list's length.  An array that the code
  allocates is a list and its capacity.  A pointer that a function returns into an array is the
  index of the element.
\<close>

section \<open>The records\<close>

definition COOP_BODY_PIECES :: nat where
  "COOP_BODY_PIECES = 7"

definition COOP_PIECE_PIXELS :: nat where
  "COOP_PIECE_PIXELS = 256"

definition COOP_MOUNT_PIECES :: nat where
  "COOP_MOUNT_PIECES = 16"

definition COOP_MOUNT_BYTES :: nat where
  "COOP_MOUNT_BYTES = 21"

definition COOP_FIREBALL_SLOTS :: nat where
  "COOP_FIREBALL_SLOTS = 2"

definition COOP_FIREBALL_BYTES :: nat where
  "COOP_FIREBALL_BYTES = 12"

record CoopVisualPiece =
  v_x :: i32
  v_y :: i32
  v_width :: u32
  v_height :: u32
  v_priority :: u32
  v_math :: u32
  v_slot :: u32
  v_pixels :: "u16 list"

record CoopFireball =
  f_id :: u32
  f_guest :: "u8 list"
  f_pending :: "CoopVisualPiece list"
  f_visible :: "CoopVisualPiece list"

record CoopActor =
  ac_player :: u32
  ac_input_seat :: u32
  ac_guest :: "u8 list"
  ac_pending :: "CoopVisualPiece list"
  ac_visible :: "CoopVisualPiece list"
  ac_fireballs :: "CoopFireball list"
  ac_stored_mount :: u32
  ac_stored_mount_color :: u32

definition COOP_ENTITY_NORMAL :: u32 where
  "COOP_ENTITY_NORMAL = 0"

definition COOP_ENTITY_EXTENDED :: u32 where
  "COOP_ENTITY_EXTENDED = 1"

definition COOP_ENTITY_HELD :: u32 where
  "COOP_ENTITY_HELD = 1"

definition COOP_ENTITY_RIDDEN :: u32 where
  "COOP_ENTITY_RIDDEN = 2"

definition COOP_ENTITY_PROJECTILE :: u32 where
  "COOP_ENTITY_PROJECTILE = 4"

definition COOP_ENTITY_ATTACHED :: u32 where
  "COOP_ENTITY_ATTACHED = 8"

record CoopEntity =
  en_id :: u32
  en_kind :: u32
  en_slot :: u32
  en_type :: u32
  en_owner :: u32
  en_target :: u32
  en_flags :: u32
  en_mount_valid :: bool
  en_mount :: "u8 list"
  en_pending :: "CoopVisualPiece list"
  en_visible :: "CoopVisualPiece list"

record CoopYoshiSource =
  ys_level :: u32
  ys_layer :: u32
  ys_x :: u32
  ys_y :: u32
  ys_tile :: u32
  ys_uses :: u32

record CoopPlacedEgg =
  pe_level :: u32
  pe_x :: u32
  pe_y :: u32
  pe_load_index :: u32
  pe_uses :: u32
  pe_egg :: u32

record CoopMachine =
  m_session :: CoopSession
  m_actors :: "CoopActor list"
  m_room :: u32
  m_previous_mode :: u32
  m_room_initialized :: bool
  m_entities :: "CoopEntity list"
  m_entity_capacity :: nat
  m_next_entity :: u32
  m_level :: u32
  m_focus_x :: i32
  m_focus_y :: i32
  m_focus_center_x :: i32
  m_focus_center_y :: i32
  m_focus_count :: u32
  m_focus_initialized :: bool
  m_focus_hold :: bool
  m_mounts_initialized :: bool
  m_fireballs_initialized :: bool
  m_entrance_prepared :: bool
  m_sources :: "CoopYoshiSource list"
  m_source_capacity :: nat
  m_placed_eggs :: "CoopPlacedEgg list"
  m_placed_capacity :: nat

text \<open>The sizes of the structures on the 64-bit targets, which bound the allocations.\<close>

definition SIZEOF_ACTOR :: nat where
  "SIZEOF_ACTOR = 9936"

definition SIZEOF_ENTITY :: nat where
  "SIZEOF_ENTITY = 17340"

definition SIZEOF_SOURCE :: nat where
  "SIZEOF_SOURCE = 24"

definition zero_fireball :: CoopFireball where
  "zero_fireball = \<lparr>f_id = 0, f_guest = replicate COOP_FIREBALL_BYTES 0, f_pending = [], f_visible = []\<rparr>"

definition zero_actor :: CoopActor where
  "zero_actor = \<lparr>ac_player = 0, ac_input_seat = 0, ac_guest = replicate COOP_GUEST_BYTES 0,
     ac_pending = [], ac_visible = [], ac_fireballs = replicate COOP_FIREBALL_SLOTS zero_fireball,
     ac_stored_mount = 0, ac_stored_mount_color = 0\<rparr>"

definition zero_machine :: CoopMachine where
  "zero_machine = \<lparr>m_session = zero_session, m_actors = [], m_room = 0, m_previous_mode = 0,
     m_room_initialized = False, m_entities = [], m_entity_capacity = 0, m_next_entity = 0,
     m_level = 0, m_focus_x = 0, m_focus_y = 0, m_focus_center_x = 0, m_focus_center_y = 0,
     m_focus_count = 0, m_focus_initialized = False, m_focus_hold = False,
     m_mounts_initialized = False, m_fireballs_initialized = False, m_entrance_prepared = False,
     m_sources = [], m_source_capacity = 0, m_placed_eggs = [], m_placed_capacity = 0\<rparr>"

definition coop_machine_init :: "allocator \<Rightarrow> nat \<Rightarrow> CoopMachine option" where
  "coop_machine_init alloc n =
     (if n > UINT32_MAX \<or> n > SIZE_MAX div SIZEOF_ACTOR then None
      else case coop_session_init alloc n 60 of None \<Rightarrow> None
         | Some s \<Rightarrow>
             if \<not> alloc (n * SIZEOF_ACTOR) then None
             else Some (zero_machine\<lparr>m_session := s, m_next_entity := 1, m_level := 0xFFFFFFFF,
                    m_actors := map (\<lambda>i. zero_actor\<lparr>ac_player := p_id (players s ! i),
                                   ac_input_seat := of_nat i\<rparr>) [0..<n]\<rparr>))"

definition coop_machine_destroy :: "CoopMachine \<Rightarrow> CoopMachine" where
  "coop_machine_destroy m = zero_machine"

section \<open>The native bytes of mounts and fireballs\<close>

definition coop_fireball_capture :: "mem \<Rightarrow> nat \<Rightarrow> CoopFireball \<Rightarrow> CoopFireball" where
  "coop_fireball_capture ram slot f =
     f\<lparr>f_guest := map (\<lambda>i. ram (0x170b + i * 10 + slot)) [0..<COOP_FIREBALL_BYTES]\<rparr>"

definition coop_fireball_bind :: "CoopFireball \<Rightarrow> nat \<Rightarrow> mem \<Rightarrow> mem" where
  "coop_fireball_bind f slot ram =
     foldl (\<lambda>r i. r(0x170b + i * 10 + slot := f_guest f ! i)) ram [0..<COOP_FIREBALL_BYTES]"

definition mount_fields :: "nat list" where
  "mount_fields = [
     0xdc1, 0x13c7, 0x1410, 0x141e, 0x14a3, 0x18ac, 0x18ad, 0x18ae, 0x18af,
     0x18b0, 0x18b1, 0x18b2, 0x18b3, 0x18d4, 0x18d5, 0x18d6, 0x18da, 0x18de,
     0x18e7, 0x18e8, 0x191c]"

definition coop_mount_capture :: "mem \<Rightarrow> CoopEntity \<Rightarrow> CoopEntity" where
  "coop_mount_capture ram e = e\<lparr>en_mount := map ram mount_fields, en_mount_valid := True\<rparr>"

definition coop_mount_bind :: "CoopEntity option \<Rightarrow> mem \<Rightarrow> mem" where
  "coop_mount_bind e ram =
     (let r = foldl (\<lambda>r i. r(mount_fields ! i :=
                (case e of None \<Rightarrow> 0 | Some e \<Rightarrow> if en_mount_valid e then en_mount e ! i else 0)))
                ram [0..<COOP_MOUNT_BYTES];
          n = (case e of None \<Rightarrow> 0 | Some e \<Rightarrow> ucast (en_slot e + 1))
      in r(0x18e2 := n, 0x18df := n))"

section \<open>Used sources and placed eggs\<close>

text \<open>
  The capacity doubles from 8; None where the C function returns NULL.  \<open>n < capacity\<close> is the
  test for the wrap-around of \<open>capacity * 2\<close>.
\<close>

definition grow_table :: "allocator \<Rightarrow> nat \<Rightarrow> nat \<Rightarrow> nat option" where
  "grow_table alloc used capacity =
     (if used = capacity then
        let n = (if capacity \<noteq> 0 then capacity * 2 mod 2 ^ 64 else 8)
        in if n < capacity \<or> n > SIZE_MAX div SIZEOF_SOURCE then None
           else if \<not> alloc (n * SIZEOF_SOURCE) then None
           else Some n
      else Some capacity)"

definition coop_yoshi_source ::
  "allocator \<Rightarrow> u32 \<Rightarrow> u32 \<Rightarrow> u32 \<Rightarrow> u32 \<Rightarrow> u32 \<Rightarrow> CoopMachine \<Rightarrow> nat option \<times> CoopMachine" where
  "coop_yoshi_source alloc level layer x y tile m =
     (case find_index (\<lambda>s. ys_level s = level \<and> ys_layer s = layer \<and> ys_x s = x \<and> ys_y s = y)
             (m_sources m) of
        Some i \<Rightarrow> (Some i, m)
      | None \<Rightarrow>
          (case grow_table alloc (length (m_sources m)) (m_source_capacity m) of
             None \<Rightarrow> (None, m)
           | Some cap \<Rightarrow>
               (Some (length (m_sources m)),
                m\<lparr>m_source_capacity := cap,
                  m_sources := m_sources m @ [\<lparr>ys_level = level, ys_layer = layer, ys_x = x,
                    ys_y = y, ys_tile = tile, ys_uses = 0\<rparr>]\<rparr>)))"

definition coop_placed_egg ::
  "allocator \<Rightarrow> u32 \<Rightarrow> u32 \<Rightarrow> u32 \<Rightarrow> u32 \<Rightarrow> CoopMachine \<Rightarrow> nat option \<times> CoopMachine" where
  "coop_placed_egg alloc level x y load_index m =
     (case find_index (\<lambda>s. pe_level s = level \<and> pe_x s = x \<and> pe_y s = y) (m_placed_eggs m) of
        Some i \<Rightarrow> (Some i, m)
      | None \<Rightarrow>
          (case grow_table alloc (length (m_placed_eggs m)) (m_placed_capacity m) of
             None \<Rightarrow> (None, m)
           | Some cap \<Rightarrow>
               (Some (length (m_placed_eggs m)),
                m\<lparr>m_placed_capacity := cap,
                  m_placed_eggs := m_placed_eggs m @ [\<lparr>pe_level = level, pe_x = x, pe_y = y,
                    pe_load_index = load_index, pe_uses = 0, pe_egg = 0\<rparr>]\<rparr>)))"

section \<open>Actors and entities\<close>

definition coop_machine_actor :: "CoopMachine \<Rightarrow> u32 \<Rightarrow> nat option" where
  "coop_machine_actor m player = find_index (\<lambda>a. ac_player a = player) (m_actors m)"

definition coop_machine_entity :: "CoopMachine \<Rightarrow> u32 \<Rightarrow> nat option" where
  "coop_machine_entity m i = find_index (\<lambda>e. en_id e = i) (m_entities m)"

definition coop_machine_entity_slot :: "CoopMachine \<Rightarrow> u32 \<Rightarrow> u32 \<Rightarrow> nat option" where
  "coop_machine_entity_slot m kind slot =
     find_index (\<lambda>e. en_kind e = kind \<and> en_slot e = slot) (m_entities m)"

text \<open>\<open>entities[i] = entities[--count]\<close>: the last element takes the place of element \<open>i\<close>.\<close>

definition swap_remove :: "nat \<Rightarrow> 'a list \<Rightarrow> 'a list" where
  "swap_remove i xs = butlast (xs[i := last xs])"

definition release_player :: "u32 \<Rightarrow> CoopPlayer \<Rightarrow> CoopPlayer" where
  "release_player i p =
     (let p1 = (if p_held_object p = i then p\<lparr>p_held_object := COOP_NO_ENTITY\<rparr> else p)
      in if p_mount p1 = i then p1\<lparr>p_mount := COOP_NO_ENTITY\<rparr> else p1)"

definition release_egg :: "u32 \<Rightarrow> CoopPlacedEgg \<Rightarrow> CoopPlacedEgg" where
  "release_egg i s = (if pe_egg s = i then s\<lparr>pe_egg := 0\<rparr> else s)"

definition coop_machine_forget_entity :: "u32 \<Rightarrow> CoopMachine \<Rightarrow> CoopMachine" where
  "coop_machine_forget_entity i m =
     (case coop_machine_entity m i of None \<Rightarrow> m
      | Some k \<Rightarrow>
          m\<lparr>m_placed_eggs := map (release_egg i) (m_placed_eggs m),
            m_session := (m_session m)\<lparr>players := map (release_player i) (players (m_session m))\<rparr>,
            m_entities := swap_remove k (m_entities m)\<rparr>)"

definition entity_slot_valid :: "u32 \<Rightarrow> u32 \<Rightarrow> bool" where
  "entity_slot_valid kind slot \<longleftrightarrow>
     (kind = COOP_ENTITY_NORMAL \<and> slot < 12) \<or> (kind = COOP_ENTITY_EXTENDED \<and> slot < 10)"

definition new_entity :: "u32 \<Rightarrow> u32 \<Rightarrow> u32 \<Rightarrow> u32 \<Rightarrow> CoopEntity" where
  "new_entity i kind slot type = \<lparr>en_id = i, en_kind = kind, en_slot = slot, en_type = type,
     en_owner = COOP_NO_PLAYER, en_target = COOP_NO_PLAYER, en_flags = 0, en_mount_valid = False,
     en_mount = replicate COOP_MOUNT_BYTES 0, en_pending = [], en_visible = []\<rparr>"

definition coop_machine_spawn_entity ::
  "allocator \<Rightarrow> u32 \<Rightarrow> u32 \<Rightarrow> u32 \<Rightarrow> CoopMachine \<Rightarrow> nat option \<times> CoopMachine" where
  "coop_machine_spawn_entity alloc kind slot type m =
     (if \<not> entity_slot_valid kind slot \<or> type > 255 \<or> m_next_entity m = COOP_NO_ENTITY
      then (None, m)
      else
        let full = (length (m_entities m) = m_entity_capacity m);
            n = (if m_entity_capacity m \<noteq> 0 then m_entity_capacity m * 2 else 16)
        in if full \<and> \<not> alloc (n * SIZEOF_ENTITY) then (None, m)
           else
             let m1 = (if full then m\<lparr>m_entity_capacity := n\<rparr> else m);
                 m2 = (case coop_machine_entity_slot m1 kind slot of None \<Rightarrow> m1
                       | Some k \<Rightarrow> coop_machine_forget_entity (en_id (m_entities m1 ! k)) m1)
             in (Some (length (m_entities m2)),
                 m2\<lparr>m_entities := m_entities m2 @ [new_entity (m_next_entity m2) kind slot type],
                    m_next_entity := m_next_entity m2 + 1\<rparr>))"

section \<open>The camera focus\<close>

definition focus_step :: "int \<Rightarrow> int" where
  "focus_step v = (if v < - 4 then - 4 else if v > 4 then 4 else v)"

definition coop_machine_focus :: "i32 \<Rightarrow> i32 \<Rightarrow> u32 \<Rightarrow> CoopMachine \<Rightarrow> CoopMachine" where
  "coop_machine_focus x y active m =
     (if active = 0 then m
      else
        let m1 =
          (if \<not> m_focus_initialized m
           then m\<lparr>m_focus_x := x, m_focus_y := y, m_focus_initialized := True\<rparr>
           else
             let m0 = (if active \<noteq> m_focus_count m
                       then m\<lparr>m_focus_hold := active < m_focus_count m\<rparr> else m);
                 (dx0, dy0) = (if active = m_focus_count m0
                   then (focus_step (sint x - sint (m_focus_center_x m0)),
                         focus_step (sint y - sint (m_focus_center_y m0)))
                   else (0, 0));
                 (dx, dy) = (if \<not> m_focus_hold m0
                   then (focus_step (sint x - sint (m_focus_x m0)),
                         focus_step (sint y - sint (m_focus_y m0)))
                   else (dx0, dy0))
             in m0\<lparr>m_focus_x := m_focus_x m0 + word_of_int dx,
                   m_focus_y := m_focus_y m0 + word_of_int dy\<rparr>)
        in m1\<lparr>m_focus_count := active, m_focus_center_x := x, m_focus_center_y := y\<rparr>)"

text \<open>The test for an actor outside the view, as \<open>coop_machine_refit_view\<close> writes it.\<close>

definition actor_outside :: "CoopCamera \<Rightarrow> CoopPlayer \<Rightarrow> bool" where
  "actor_outside c p \<longleftrightarrow>
     sint (p_x p) - sint (p_half_width p) < sint (c_x c) \<or>
     sint (p_x p) + sint (p_half_width p) > sint (c_x c) + sint (c_width c) \<or>
     sint (p_y p) - sint (p_height p) sdiv 2 < sint (c_y c) \<or>
     sint (p_y p) + sint (p_height p) sdiv 2 > sint (c_y c) + sint (c_height c)"

definition coop_machine_refit_view :: "CoopMachine \<Rightarrow> CoopMachine" where
  "coop_machine_refit_view m =
     (let s = m_session m
      in if c_autoscroll (camera s) then m
         else if \<exists>p \<in> set (players s). p_life p = COOP_PLAYING \<and> actor_outside (camera s) p
         then m\<lparr>m_focus_hold := False\<rparr> else m)"

section \<open>Mouths and berries\<close>

definition coop_mount_mouth_active :: "mem \<Rightarrow> nat \<Rightarrow> bool" where
  "coop_mount_mouth_active ram slot \<longleftrightarrow>
     (if slot \<ge> 12 then False
      else let status = ram (0x14c8 + slot); type = ram (0x9e + slot)
           in (status = 8 \<and> type = 0x35) \<or>
              (status \<ge> 9 \<and> status \<le> 11 \<and> type = 0x2d \<and> ram (0x163e + slot) > 0x20))"

text \<open>The 16-bit value of two bytes with the low four bits cleared.\<close>

definition tile_at :: "u8 \<Rightarrow> u8 \<Rightarrow> nat" where
  "tile_at lo hi = (unat lo + 256 * unat hi) div 16 * 16"

definition coop_mount_pending_berry :: "CoopEntity \<Rightarrow> mem \<Rightarrow> (nat \<times> nat) option" where
  "coop_mount_pending_berry e ram =
     (let slot = unat (en_slot e)
      in if en_kind e \<noteq> COOP_ENTITY_NORMAL \<or> en_type e \<noteq> 0x35 \<or> slot \<ge> 12 \<or> \<not> en_mount_valid e \<or>
            ram (0x14c8 + slot) \<noteq> 8 \<or> ram (0x1564 + slot) = 0 \<or> en_mount e ! 15 = 0
         then None
         else Some (tile_at (en_mount e ! 9) (en_mount e ! 10), tile_at (en_mount e ! 11) (en_mount e ! 12)))"

text \<open>The search for an egg keeps the last entity with the identity.\<close>

definition last_entity :: "CoopEntity list \<Rightarrow> u32 \<Rightarrow> CoopEntity option" where
  "last_entity es i = foldl (\<lambda>acc e. if en_id e = i then Some e else acc) None es"

definition placed_egg_valid :: "CoopMachine \<Rightarrow> mem \<Rightarrow> CoopPlacedEgg \<Rightarrow> bool" where
  "placed_egg_valid m ram s \<longleftrightarrow> pe_egg s = 0 \<or>
     (case last_entity (m_entities m) (pe_egg s) of None \<Rightarrow> False
      | Some egg \<Rightarrow>
          let slot = unat (en_slot egg); status = ram (0x14c8 + slot)
          in slot < 12 \<and> ram (0x9e + slot) = 0x2c \<and> (status = 1 \<or> status = 8) \<and>
             unat (ram (0xe4 + slot)) + 256 * unat (ram (0x14e0 + slot)) = unat (pe_x s) \<and>
             unat (ram (0xd8 + slot)) + 256 * unat (ram (0x14d4 + slot)) = unat (pe_y s) \<and>
             \<not> (status = 8 \<and> ram (0x187b + slot) = 0 \<and>
                (pe_uses s = 0 \<or> (ram (0x151c + slot) \<noteq> 0x2d \<and> ram (0x151c + slot) \<noteq> 0x78))))"

definition coop_machine_placed_eggs_valid :: "CoopMachine \<Rightarrow> mem \<Rightarrow> bool" where
  "coop_machine_placed_eggs_valid m ram \<longleftrightarrow> list_all (placed_egg_valid m ram) (m_placed_eggs m)"

definition rider_of :: "CoopMachine \<Rightarrow> nat \<Rightarrow> u32" where
  "rider_of m slot = foldl (\<lambda>rider e.
     if en_kind e = COOP_ENTITY_NORMAL \<and> unat (en_slot e) = slot then en_owner e else rider)
     COOP_NO_PLAYER (m_entities m)"

text \<open>One mouth; the state is the array \<open>referenced\<close>, None an early \<open>return false\<close>.\<close>

definition mouth_step :: "CoopMachine \<Rightarrow> mem \<Rightarrow> bool list option \<Rightarrow> nat \<Rightarrow> bool list option" where
  "mouth_step m ram st slot =
     (case st of None \<Rightarrow> None
      | Some referenced \<Rightarrow>
          if \<not> coop_mount_mouth_active ram slot then Some referenced
          else
            let object = unat (ram (0x160e + slot))
            in if object \<ge> 0x80
               then (if ram (0x9e + slot) = 0x2d then None else Some referenced)
               else if object \<ge> 12 \<or> object = slot \<or> referenced ! object then None
               else if ram (0x9e + object) = 0x2c \<or> ram (0x9e + object) = 0x2d \<or>
                       ram (0x9e + object) = 0x35 then None
               else if \<exists>e \<in> set (m_entities m). en_kind e = COOP_ENTITY_NORMAL \<and>
                         unat (en_slot e) = object \<and>
                         en_flags e AND (COOP_ENTITY_HELD OR COOP_ENTITY_ATTACHED) \<noteq> 0 \<and>
                         en_owner e \<noteq> rider_of m slot
               then None
               else Some (referenced[object := True]))"

definition berries_distinct :: "CoopMachine \<Rightarrow> mem \<Rightarrow> bool" where
  "berries_distinct m ram \<longleftrightarrow>
     (\<forall>i \<in> set [0..<length (m_entities m)]. \<forall>j \<in> set [0..<i].
        case coop_mount_pending_berry (m_entities m ! i) ram of None \<Rightarrow> True
        | Some b \<Rightarrow> coop_mount_pending_berry (m_entities m ! j) ram \<noteq> Some b)"

definition coop_machine_mouths_valid :: "CoopMachine \<Rightarrow> mem \<Rightarrow> bool" where
  "coop_machine_mouths_valid m ram \<longleftrightarrow> berries_distinct m ram \<and>
     foldl (mouth_step m ram) (Some (replicate 12 False)) [0..<12] \<noteq> None"


section \<open>The validity of a snapshot\<close>

text \<open>
  \<open>entities_valid\<close>, one predicate for each loop of the C function; each holds when the loop reaches
  its end without \<open>return false\<close>.
\<close>

definition entity_ok :: "CoopMachine \<Rightarrow> CoopEntity \<Rightarrow> bool" where
  "entity_ok m e \<longleftrightarrow>
     \<not> (en_mount_valid e \<and> (en_kind e \<noteq> COOP_ENTITY_NORMAL \<or> en_type e \<noteq> 0x35)) \<and>
     en_id e \<noteq> 0 \<and> en_id e < m_next_entity m \<and> entity_slot_valid (en_kind e) (en_slot e) \<and>
     en_type e \<le> 255 \<and> en_flags e AND NOT 15 = 0 \<and>
     (en_owner e = COOP_NO_PLAYER \<or> coop_player (m_session m) (en_owner e) \<noteq> None) \<and>
     (en_target e = COOP_NO_PLAYER \<or> coop_player (m_session m) (en_target e) \<noteq> None) \<and>
     (en_owner e = COOP_NO_PLAYER) = (en_flags e = 0) \<and>
     \<not> (en_flags e \<noteq> 0 \<and> en_flags e AND (en_flags e - 1) \<noteq> 0) \<and>
     \<not> (en_flags e AND (COOP_ENTITY_HELD OR COOP_ENTITY_RIDDEN OR COOP_ENTITY_ATTACHED) \<noteq> 0 \<and>
        en_kind e \<noteq> COOP_ENTITY_NORMAL) \<and>
     (case coop_player (m_session m) (en_owner e) of None \<Rightarrow> True
      | Some k \<Rightarrow> let p = players (m_session m) ! k
                  in \<not> (en_flags e = COOP_ENTITY_HELD \<and> p_held_object p \<noteq> en_id e) \<and>
                     \<not> (en_flags e = COOP_ENTITY_RIDDEN \<and> p_mount p \<noteq> en_id e))"

text \<open>The inner loop of a double loop: no earlier element is related to element \<open>i\<close>.\<close>

definition no_earlier :: "('a \<Rightarrow> 'a \<Rightarrow> bool) \<Rightarrow> 'a list \<Rightarrow> bool" where
  "no_earlier clash xs \<longleftrightarrow>
     (\<forall>i \<in> set [0..<length xs]. \<forall>j \<in> set [0..<i]. \<not> clash (xs ! i) (xs ! j))"

definition same_entity :: "CoopEntity \<Rightarrow> CoopEntity \<Rightarrow> bool" where
  "same_entity e e' \<longleftrightarrow> en_id e = en_id e' \<or> (en_kind e = en_kind e' \<and> en_slot e = en_slot e')"

definition source_ok :: "CoopMachine \<Rightarrow> CoopYoshiSource \<Rightarrow> bool" where
  "source_ok m s \<longleftrightarrow> \<not> (ys_level s \<ge> 512 \<or> ys_layer s > 1 \<or> ys_x s > 65535 \<or> ys_y s > 65535 \<or>
     (ys_x s OR ys_y s) AND 15 \<noteq> 0 \<or> ys_tile s < 256 \<or> ys_tile s \<ge> 512 \<or>
     unat (ys_uses s) > length (m_actors m))"

definition same_source :: "CoopYoshiSource \<Rightarrow> CoopYoshiSource \<Rightarrow> bool" where
  "same_source s t \<longleftrightarrow>
     ys_level s = ys_level t \<and> ys_layer s = ys_layer t \<and> ys_x s = ys_x t \<and> ys_y s = ys_y t"

definition egg_ok :: "CoopMachine \<Rightarrow> CoopPlacedEgg \<Rightarrow> bool" where
  "egg_ok m s \<longleftrightarrow>
     \<not> (pe_level s \<ge> 512 \<or> pe_x s > 65535 \<or> pe_y s > 65535 \<or> (pe_x s OR pe_y s) AND 15 \<noteq> 0 \<or>
        (pe_load_index s \<ge> 128 \<and> pe_load_index s \<noteq> 255) \<or> unat (pe_uses s) > length (m_actors m)) \<and>
     (pe_egg s = 0 \<or>
      (case last_entity (m_entities m) (pe_egg s) of None \<Rightarrow> False
       | Some egg \<Rightarrow> pe_level s = m_level m \<and> en_kind egg = COOP_ENTITY_NORMAL \<and>
                     en_type egg = 0x2c \<and> en_owner egg = COOP_NO_PLAYER \<and> en_flags egg = 0))"

definition same_egg :: "CoopPlacedEgg \<Rightarrow> CoopPlacedEgg \<Rightarrow> bool" where
  "same_egg s t \<longleftrightarrow> (pe_level s = pe_level t \<and> pe_x s = pe_x t \<and> pe_y s = pe_y t) \<or>
     (pe_egg s \<noteq> 0 \<and> pe_egg s = pe_egg t)"

definition links_ok :: "CoopMachine \<Rightarrow> CoopPlayer \<Rightarrow> bool" where
  "links_ok m p \<longleftrightarrow>
     (p_held_object p = COOP_NO_ENTITY \<or>
      (\<exists>e \<in> set (m_entities m). en_owner e = p_id p \<and> en_id e = p_held_object p \<and>
         en_flags e = COOP_ENTITY_HELD)) \<and>
     (p_mount p = COOP_NO_ENTITY \<or>
      (\<exists>e \<in> set (m_entities m). en_owner e = p_id p \<and> en_id e = p_mount p \<and>
         en_flags e = COOP_ENTITY_RIDDEN))"

definition stored_ok :: "CoopMachine \<Rightarrow> nat \<Rightarrow> bool" where
  "stored_ok m i \<longleftrightarrow>
     (let a = m_actors m ! i
      in \<not> (ac_stored_mount_color a > 255 \<or> (ac_stored_mount a = 0 \<and> ac_stored_mount_color a \<noteq> 0)) \<and>
         (ac_stored_mount a = 0 \<or>
          (case coop_player (m_session m) (ac_player a) of None \<Rightarrow> False
           | Some k \<Rightarrow>
               p_mount (players (m_session m) ! k) = COOP_NO_ENTITY \<and>
               ac_stored_mount a < m_next_entity m \<and>
               (\<forall>e \<in> set (m_entities m). en_id e \<noteq> ac_stored_mount a) \<and>
               (\<forall>j \<in> set [0..<length (m_actors m)].
                  \<not> (j \<noteq> i \<and> ac_stored_mount (m_actors m ! j) = ac_stored_mount a) \<and>
                  (\<forall>f \<in> set (ac_fireballs (m_actors m ! j)). f_id f \<noteq> ac_stored_mount a)))))"

definition fireball_ok :: "CoopMachine \<Rightarrow> CoopFireball \<Rightarrow> bool" where
  "fireball_ok m f \<longleftrightarrow>
     (f_guest f ! 0 = 0 \<or> f_guest f ! 0 = 1 \<or> f_guest f ! 0 = 5) \<and>
     f_id f < m_next_entity m \<and>
     \<not> ((f_id f = 0 \<or> \<not> m_fireballs_initialized m) \<and>
        (f_guest f ! 0 \<noteq> 0 \<or> f_pending f \<noteq> [] \<or> f_visible f \<noteq> [])) \<and>
     (f_id f = 0 \<or> (\<forall>e \<in> set (m_entities m). f_id f \<noteq> en_id e))"

definition same_fireball :: "CoopFireball \<Rightarrow> CoopFireball \<Rightarrow> bool" where
  "same_fireball f g \<longleftrightarrow> f_id f \<noteq> 0 \<and> f_id f = f_id g"

definition entities_valid :: "CoopMachine \<Rightarrow> bool" where
  "entities_valid m \<longleftrightarrow>
     \<not> (length (m_entities m) > 22 \<or> m_next_entity m = 0 \<or> (m_level m \<noteq> 0xFFFFFFFF \<and> m_level m \<ge> 512)) \<and>
     list_all (entity_ok m) (m_entities m) \<and> no_earlier same_entity (m_entities m) \<and>
     list_all (source_ok m) (m_sources m) \<and> no_earlier same_source (m_sources m) \<and>
     list_all (egg_ok m) (m_placed_eggs m) \<and> no_earlier same_egg (m_placed_eggs m) \<and>
     list_all (links_ok m) (players (m_session m)) \<and>
     list_all (stored_ok m) [0..<length (m_actors m)] \<and>
     list_all (fireball_ok m) (concat (map ac_fireballs (m_actors m))) \<and>
     no_earlier same_fireball (concat (map ac_fireballs (m_actors m)))"

end
