(* ===== verification/Coop_Machine_Facts.thy ===== *)
theory Coop_Machine_Facts
  imports Coop_Machine
begin

text \<open>
  What the operations of \<^verbatim>\<open>Coop_Machine\<close> keep: identities of live entities are unique and never
  reused, a physical slot has at most one owner, no player or egg refers to an entity that is gone,
  and the tables of sources and eggs have one entry per place.  The invariant is stated for every
  operation as a \<open>machine_op\<close> and then for every reachable state.
\<close>

section \<open>Removing by swapping\<close>

lemma mset_swap_remove:
  assumes "i < length xs"
  shows "mset xs = add_mset (xs ! i) (mset (swap_remove i xs))"
proof -
  from assms obtain ys l where xs: "xs = ys @ [l]" by (cases xs rule: rev_cases) auto
  show ?thesis
  proof (cases "i = length ys")
    case True
    then show ?thesis by (simp add: xs swap_remove_def)
  next
    case False
    then have i: "i < length ys" using assms xs by simp
    then have "swap_remove i xs = ys[i := l]" by (simp add: xs swap_remove_def list_update_append)
    then show ?thesis using i by (simp add: xs mset_update nth_append)
  qed
qed

lemma set_swap_remove: "i < length xs \<Longrightarrow> set xs = insert (xs ! i) (set (swap_remove i xs))"
  using arg_cong [OF mset_swap_remove, of i xs set_mset] by simp

lemma distinct_swap_remove:
  assumes "i < length xs" "distinct (map f xs)"
  shows "distinct (map f (swap_remove i xs)) \<and> f (xs ! i) \<notin> f ` set (swap_remove i xs)"
proof -
  have "mset (map f xs) = mset (map f (xs ! i # swap_remove i xs))"
    using arg_cong [OF mset_swap_remove [OF assms(1)], of "image_mset f"] by simp
  then have "distinct (map f (xs ! i # swap_remove i xs))"
    using assms(2) mset_eq_imp_distinct_iff by blast
  then show ?thesis by simp
qed

lemma length_swap_remove: "i < length xs \<Longrightarrow> length (swap_remove i xs) = length xs - 1"
  by (simp add: swap_remove_def)

section \<open>The invariant\<close>

definition place_of :: "CoopEntity \<Rightarrow> u32 \<times> nat" where
  "place_of e = (en_kind e, unat (en_slot e))"

definition entity_table :: "CoopMachine \<Rightarrow> bool" where
  "entity_table m \<longleftrightarrow>
     distinct (map en_id (m_entities m)) \<and> distinct (map place_of (m_entities m)) \<and>
     (\<forall>e \<in> set (m_entities m). en_id e \<noteq> 0 \<and> en_id e < m_next_entity m \<and>
        entity_slot_valid (en_kind e) (en_slot e) \<and> en_type e \<le> 255)"

definition live :: "CoopMachine \<Rightarrow> u32 \<Rightarrow> bool" where
  "live m i \<longleftrightarrow> i \<in> en_id ` set (m_entities m)"

definition links_live :: "CoopMachine \<Rightarrow> bool" where
  "links_live m \<longleftrightarrow>
     (\<forall>p \<in> set (players (m_session m)).
        (p_held_object p \<noteq> COOP_NO_ENTITY \<longrightarrow> live m (p_held_object p)) \<and>
        (p_mount p \<noteq> COOP_NO_ENTITY \<longrightarrow> live m (p_mount p))) \<and>
     (\<forall>s \<in> set (m_placed_eggs m). pe_egg s \<noteq> 0 \<longrightarrow> live m (pe_egg s))"

definition source_key :: "CoopYoshiSource \<Rightarrow> u32 \<times> u32 \<times> u32 \<times> u32" where
  "source_key s = (ys_level s, ys_layer s, ys_x s, ys_y s)"

definition egg_key :: "CoopPlacedEgg \<Rightarrow> u32 \<times> u32 \<times> u32" where
  "egg_key s = (pe_level s, pe_x s, pe_y s)"

definition machine_ok :: "CoopMachine \<Rightarrow> bool" where
  "machine_ok m \<longleftrightarrow> m_next_entity m \<noteq> 0 \<and> entity_table m \<and> links_live m \<and>
     distinct (map source_key (m_sources m)) \<and> distinct (map egg_key (m_placed_eggs m))"

text \<open>Twelve normal and ten extended slots bound the table.\<close>

lemma valid_place:
  "entity_slot_valid (en_kind e) (en_slot e) \<Longrightarrow>
     place_of e \<in> {COOP_ENTITY_NORMAL} \<times> {..<12} \<union> {COOP_ENTITY_EXTENDED} \<times> {..<10}"
  by (auto simp: entity_slot_valid_def place_of_def word_less_nat_alt)

lemma entity_table_22:
  assumes "entity_table m"
  shows "length (m_entities m) \<le> 22"
proof -
  let ?P = "{COOP_ENTITY_NORMAL} \<times> {..<12 :: nat} \<union> {COOP_ENTITY_EXTENDED} \<times> {..<10}"
  have "place_of ` set (m_entities m) \<subseteq> ?P"
    using assms valid_place by (fastforce simp: entity_table_def)
  then have "card (place_of ` set (m_entities m)) \<le> card ?P" by (intro card_mono) simp_all
  also have "\<dots> \<le> card ({COOP_ENTITY_NORMAL} \<times> {..<12 :: nat}) + card ({COOP_ENTITY_EXTENDED} \<times> {..<10 :: nat})"
    by (rule card_Un_le)
  also have "\<dots> = 22" by simp
  finally have "card (set (map place_of (m_entities m))) \<le> 22" by simp
  then show ?thesis using assms distinct_card [of "map place_of (m_entities m)"]
    by (simp add: entity_table_def)
qed

section \<open>Operations that keep the invariant\<close>

locale machine_op =
  fixes op :: "CoopMachine \<Rightarrow> CoopMachine"
  assumes keeps: "machine_ok m \<Longrightarrow> machine_ok (op m)"
    and fresh_ids: "machine_ok m \<Longrightarrow> m_next_entity m \<le> m_next_entity (op m) \<and>
      (\<forall>i. live (op m) i \<longrightarrow> live m i \<or> i \<ge> m_next_entity m)"
begin

text \<open>An identity that is gone stays gone.\<close>

lemma gone_stays_gone: "machine_ok m \<Longrightarrow> i < m_next_entity m \<Longrightarrow> \<not> live m i \<Longrightarrow> \<not> live (op m) i"
  using fresh_ids [of m] by auto

lemma op_bound: "machine_ok m \<Longrightarrow> length (m_entities (op m)) \<le> 22"
  using keeps entity_table_22 by (simp add: machine_ok_def)

end

lemma release_player_simps [simp]:
  "p_held_object (release_player i p) = (if p_held_object p = i then COOP_NO_ENTITY else p_held_object p)"
  "p_mount (release_player i p) = (if p_mount p = i then COOP_NO_ENTITY else p_mount p)"
  "p_id (release_player i p) = p_id p" "p_life (release_player i p) = p_life p"
  by (simp_all add: release_player_def Let_def)

lemma release_egg_simps [simp]:
  "pe_egg (release_egg i s) = (if pe_egg s = i then 0 else pe_egg s)"
  "egg_key (release_egg i s) = egg_key s"
  by (simp_all add: release_egg_def egg_key_def)

lemma forget_next [simp]: "m_next_entity (coop_machine_forget_entity i m) = m_next_entity m"
  by (simp add: coop_machine_forget_entity_def split: option.split)

lemma forget_capacity [simp]: "m_entity_capacity (coop_machine_forget_entity i m) = m_entity_capacity m"
  by (simp add: coop_machine_forget_entity_def split: option.split)

lemma entity_index:
  assumes "coop_machine_entity m i = Some k"
  shows "k < length (m_entities m) \<and> en_id (m_entities m ! k) = i"
  using find_index_Some [OF assms [unfolded coop_machine_entity_def]] by simp

lemma forget_entities:
  assumes "coop_machine_entity m i = Some k" "distinct (map en_id (m_entities m))"
  shows "set (m_entities (coop_machine_forget_entity i m)) = {e \<in> set (m_entities m). en_id e \<noteq> i}"
proof -
  have k: "k < length (m_entities m)" "en_id (m_entities m ! k) = i"
    using entity_index [OF assms(1)] by simp_all
  have m: "m_entities (coop_machine_forget_entity i m) = swap_remove k (m_entities m)"
    using assms(1) by (simp add: coop_machine_forget_entity_def)
  have "\<forall>e \<in> set (swap_remove k (m_entities m)). en_id e \<noteq> i"
    using distinct_swap_remove [OF k(1) assms(2)] k(2) by (metis image_eqI)
  then show ?thesis using set_swap_remove [OF k(1)] k(2) m by auto
qed

lemma forget_live:
  assumes "distinct (map en_id (m_entities m))"
  shows "live (coop_machine_forget_entity i m) j \<longleftrightarrow> live m j \<and> j \<noteq> i"
proof (cases "coop_machine_entity m i")
  case None
  then have "\<not> live m i" by (auto simp: coop_machine_entity_def find_index_None live_def)
  then show ?thesis using None by (auto simp: coop_machine_forget_entity_def)
next
  case (Some k)
  show ?thesis unfolding live_def forget_entities [OF Some assms] by auto
qed

lemma forget_links:
  assumes "links_live m" "distinct (map en_id (m_entities m))"
  shows "links_live (coop_machine_forget_entity i m)"
proof (cases "coop_machine_entity m i")
  case None
  then show ?thesis using assms by (simp add: coop_machine_forget_entity_def)
next
  case (Some k)
  have parts: "players (m_session (coop_machine_forget_entity i m)) = map (release_player i) (players (m_session m))"
    "m_placed_eggs (coop_machine_forget_entity i m) = map (release_egg i) (m_placed_eggs m)"
    using Some by (simp_all add: coop_machine_forget_entity_def)
  show ?thesis
    using assms(1) unfolding links_live_def parts forget_live [OF assms(2)] by auto
qed

lemma forget_table:
  assumes "entity_table m"
  shows "entity_table (coop_machine_forget_entity i m)"
proof (cases "coop_machine_entity m i")
  case None
  then show ?thesis using assms by (simp add: coop_machine_forget_entity_def)
next
  case (Some k)
  then have k: "k < length (m_entities m)" using entity_index by blast
  have e: "m_entities (coop_machine_forget_entity i m) = swap_remove k (m_entities m)"
    using Some by (simp add: coop_machine_forget_entity_def)
  show ?thesis
    using assms distinct_swap_remove [OF k, of en_id] distinct_swap_remove [OF k, of place_of]
      set_swap_remove [OF k] by (simp add: entity_table_def e)
qed

lemma forget_keeps: "machine_ok m \<Longrightarrow> machine_ok (coop_machine_forget_entity i m)"
proof -
  assume ok: "machine_ok m"
  then have d: "distinct (map en_id (m_entities m))" by (simp add: machine_ok_def entity_table_def)
  have "map egg_key (m_placed_eggs (coop_machine_forget_entity i m)) = map egg_key (m_placed_eggs m)"
    "m_sources (coop_machine_forget_entity i m) = m_sources m"
    by (simp_all add: coop_machine_forget_entity_def split: option.split)
  with ok show ?thesis
    using forget_table [of m i] forget_links [of m i] d by (simp add: machine_ok_def)
qed

lemma ok_distinct: "machine_ok m \<Longrightarrow> distinct (map en_id (m_entities m))"
  by (simp add: machine_ok_def entity_table_def)

interpretation forget_op: machine_op "coop_machine_forget_entity i" for i
proof unfold_locales
  fix m
  assume ok: "machine_ok m"
  then show "machine_ok (coop_machine_forget_entity i m)" by (rule forget_keeps)
  show "m_next_entity m \<le> m_next_entity (coop_machine_forget_entity i m) \<and>
      (\<forall>j. live (coop_machine_forget_entity i m) j \<longrightarrow> live m j \<or> j \<ge> m_next_entity m)"
    by (simp add: forget_live [OF ok_distinct [OF ok]])
qed

section \<open>Spawning\<close>

text \<open>The machine just before the new element is appended.\<close>

definition displaced :: "u32 \<Rightarrow> u32 \<Rightarrow> CoopMachine \<Rightarrow> CoopMachine" where
  "displaced kind slot m =
     (case coop_machine_entity_slot m kind slot of None \<Rightarrow> m
      | Some k \<Rightarrow> coop_machine_forget_entity (en_id (m_entities m ! k)) m)"

lemma spawn_cases:
  assumes "coop_machine_spawn_entity alloc kind slot type m = (r, m')"
  obtains (refused) "r = None" "m' = m"
    | (spawned) m1 where "r = Some (length (m_entities (displaced kind slot m1)))"
        "entity_slot_valid kind slot" "type \<le> 255" "m_next_entity m \<noteq> COOP_NO_ENTITY"
        "m1 = m \<or> (\<exists>n. m1 = m\<lparr>m_entity_capacity := n\<rparr>)"
        "m' = (displaced kind slot m1)\<lparr>
           m_entities := m_entities (displaced kind slot m1) @ [new_entity (m_next_entity m) kind slot type],
           m_next_entity := m_next_entity m + 1\<rparr>"
proof (cases "\<not> entity_slot_valid kind slot \<or> type > 255 \<or> m_next_entity m = COOP_NO_ENTITY \<or>
    (length (m_entities m) = m_entity_capacity m \<and>
     \<not> alloc ((if m_entity_capacity m \<noteq> 0 then m_entity_capacity m * 2 else 16) * SIZEOF_ENTITY))")
  case True
  then have "coop_machine_spawn_entity alloc kind slot type m = (None, m)"
    by (auto simp: coop_machine_spawn_entity_def Let_def)
  with assms show thesis by (intro refused) simp_all
next
  case False
  define m1 where "m1 = (if length (m_entities m) = m_entity_capacity m
    then m\<lparr>m_entity_capacity := (if m_entity_capacity m \<noteq> 0 then m_entity_capacity m * 2 else 16)\<rparr> else m)"
  have next_id: "m_next_entity (displaced kind slot m1) = m_next_entity m"
    by (simp add: displaced_def m1_def split: option.split)
  have "coop_machine_spawn_entity alloc kind slot type m =
      (Some (length (m_entities (displaced kind slot m1))),
       (displaced kind slot m1)\<lparr>
         m_entities := m_entities (displaced kind slot m1) @ [new_entity (m_next_entity m) kind slot type],
         m_next_entity := m_next_entity m + 1\<rparr>)"
    using False next_id unfolding coop_machine_spawn_entity_def Let_def m1_def [symmetric] displaced_def [symmetric]
    by simp
  then have r: "r = Some (length (m_entities (displaced kind slot m1)))"
    and m': "m' = (displaced kind slot m1)\<lparr>
         m_entities := m_entities (displaced kind slot m1) @ [new_entity (m_next_entity m) kind slot type],
         m_next_entity := m_next_entity m + 1\<rparr>"
    using assms by simp_all
  have "m1 = m \<or> (\<exists>n. m1 = m\<lparr>m_entity_capacity := n\<rparr>)" unfolding m1_def by auto
  then show thesis using r m' False by (intro spawned [of m1]) auto
qed

lemma displaced_ok:
  assumes "machine_ok m"
  shows "machine_ok (displaced kind slot m) \<and>
     (kind, unat slot) \<notin> place_of ` set (m_entities (displaced kind slot m)) \<and>
     (\<forall>i. live (displaced kind slot m) i \<longrightarrow> live m i) \<and>
     m_next_entity (displaced kind slot m) = m_next_entity m"
proof (cases "coop_machine_entity_slot m kind slot")
  case None
  then have "displaced kind slot m = m" by (simp add: displaced_def)
  moreover have "\<forall>e \<in> set (m_entities m). \<not> (en_kind e = kind \<and> en_slot e = slot)"
    using None by (simp add: coop_machine_entity_slot_def find_index_None)
  then have "(kind, unat slot) \<notin> place_of ` set (m_entities m)"
    by (auto simp: place_of_def word_unat_eq_iff)
  ultimately show ?thesis using assms by simp
next
  case (Some k)
  let ?i = "en_id (m_entities m ! k)"
  have k: "k < length (m_entities m)" "en_kind (m_entities m ! k) = kind" "en_slot (m_entities m ! k) = slot"
    using find_index_Some [OF Some [unfolded coop_machine_entity_slot_def]] by simp_all
  have d: "displaced kind slot m = coop_machine_forget_entity ?i m" using Some by (simp add: displaced_def)
  have "live m ?i" using k(1) by (auto simp: live_def)
  then obtain j where j: "coop_machine_entity m ?i = Some j"
    by (cases "coop_machine_entity m ?i") (auto simp: coop_machine_entity_def find_index_None live_def)
  have eq: "e = m_entities m ! k"
    if "e \<in> set (m_entities m)" "place_of e = place_of (m_entities m ! k)" for e
    using assms k(1) that by (auto simp: machine_ok_def entity_table_def distinct_map inj_on_def)
  have "\<forall>e \<in> set (m_entities (coop_machine_forget_entity ?i m)). place_of e \<noteq> (kind, unat slot)"
    using eq k by (auto simp: forget_entities [OF j ok_distinct [OF assms]] place_of_def)
  then show ?thesis
    using forget_keeps [OF assms, of ?i] d by (auto simp: forget_live [OF ok_distinct [OF assms]])
qed

lemma ok_capacity [simp]: "machine_ok (m\<lparr>m_entity_capacity := n\<rparr>) = machine_ok m"
  by (simp add: machine_ok_def entity_table_def links_live_def live_def)

lemma live_capacity [simp]: "live (m\<lparr>m_entity_capacity := n\<rparr>) i = live m i"
  by (simp add: live_def)

lemma next_word:
  assumes "n \<noteq> (0xFFFFFFFF :: u32)"
  shows "n < n + 1 \<and> n + 1 \<noteq> 0 \<and> (\<forall>i. i < n \<longrightarrow> i < n + 1)"
proof -
  have "unat n < 2 ^ 32 - 1"
    using assms unsigned_less [of n, where 'a = nat] by (auto simp: word_unat_eq_iff less_Suc_eq)
  then have "unat (n + 1) = unat n + 1" by (simp add: unat_word_ariths)
  then show ?thesis by (auto simp: word_less_nat_alt word_unat_eq_iff)
qed

lemma new_entity_simps [simp]:
  "en_id (new_entity i k s t) = i" "en_kind (new_entity i k s t) = k" "en_slot (new_entity i k s t) = s"
  "en_type (new_entity i k s t) = t" "place_of (new_entity i k s t) = (k, unat s)"
  by (simp_all add: new_entity_def place_of_def)

lemma append_keeps:
  assumes ok: "machine_ok d" and "entity_slot_valid kind slot" "type \<le> 255"
    and "m_next_entity d \<noteq> COOP_NO_ENTITY" "(kind, unat slot) \<notin> place_of ` set (m_entities d)"
  shows "machine_ok (d\<lparr>m_entities := m_entities d @ [new_entity (m_next_entity d) kind slot type],
     m_next_entity := m_next_entity d + 1\<rparr>)"
proof -
  note n = next_word [OF assms(4) [unfolded COOP_NO_ENTITY_def]]
  have table: "entity_table d" and links: "links_live d" using ok by (simp_all add: machine_ok_def)
  have new: "m_next_entity d \<notin> en_id ` set (m_entities d)"
    using table by (fastforce simp: entity_table_def)
  let ?m = "d\<lparr>m_entities := m_entities d @ [new_entity (m_next_entity d) kind slot type],
     m_next_entity := m_next_entity d + 1\<rparr>"
  have "entity_table ?m"
    using table new n assms(2,3,5) ok by (auto simp: entity_table_def machine_ok_def)
  moreover have "links_live ?m" using links by (auto simp: links_live_def live_def)
  ultimately show ?thesis using ok n by (simp add: machine_ok_def)
qed

text \<open>
  Spawning an entity in a machine whose tables are consistent either changes nothing or
  appends one entity with a fresh identity that nothing has ever referred to, owned by nobody and
  the only owner of its physical slot; the previous owner of the slot is gone with every reference
  to it, and the invariant holds again.
\<close>

lemma spawn_entity_spec:
  assumes "machine_ok m" "coop_machine_spawn_entity alloc kind slot type m = (r, m')"
  shows "case r of None \<Rightarrow> m' = m
    | Some k \<Rightarrow> machine_ok m' \<and> k < length (m_entities m') \<and>
        m_entities m' ! k = new_entity (m_next_entity m) kind slot type \<and>
        coop_machine_entity_slot m' kind slot = Some k \<and> \<not> live m (m_next_entity m) \<and>
        (\<forall>e \<in> set (m_entities m'). en_id e \<noteq> m_next_entity m \<longrightarrow>
           live m (en_id e) \<and> \<not> (en_kind e = kind \<and> en_slot e = slot)) \<and>
        m_next_entity m < m_next_entity m'"
  using assms(2)
proof (cases rule: spawn_cases)
  case refused
  then show ?thesis by simp
next
  case (spawned m1)
  let ?d = "displaced kind slot m1"
  have m1: "machine_ok m1" "\<And>i. live m1 i = live m i" "m_next_entity m1 = m_next_entity m"
    using spawned(5) assms(1) by auto
  have d: "machine_ok ?d" "(kind, unat slot) \<notin> place_of ` set (m_entities ?d)"
    "\<And>i. live ?d i \<Longrightarrow> live m i" "m_next_entity ?d = m_next_entity m"
    using displaced_ok [OF m1(1)] m1(2,3) by auto
  have ok: "machine_ok m'"
    using append_keeps [OF d(1) spawned(2,3) _ d(2)] spawned(4,6) d(4) by simp
  have none: "find_index (\<lambda>e. en_kind e = kind \<and> en_slot e = slot) (m_entities ?d) = None"
    using d(2) by (auto simp: find_index_None place_of_def)
  have app: "find_index P xs = None \<Longrightarrow> P x \<Longrightarrow> find_index P (xs @ [x]) = Some (length xs)" for P xs and x :: CoopEntity
    by (induction xs) (auto split: if_splits)
  have slot: "coop_machine_entity_slot m' kind slot = Some (length (m_entities ?d))"
    using app [OF none] spawned(6) by (simp add: coop_machine_entity_slot_def)
  have new: "\<not> live m (m_next_entity m)"
    using assms(1) by (auto simp: machine_ok_def entity_table_def live_def)
  have "live m (en_id e) \<and> \<not> (en_kind e = kind \<and> en_slot e = slot)"
    if "e \<in> set (m_entities m')" "en_id e \<noteq> m_next_entity m" for e
    using that d(2) d(3) [of "en_id e"] spawned(6) by (auto simp: live_def place_of_def)
  then show ?thesis
    using ok slot new spawned(1,6) next_word [OF spawned(4) [unfolded COOP_NO_ENTITY_def]] by simp
qed


lemma spawn_keeps:
  assumes ok: "machine_ok m"
  shows "machine_ok (snd (coop_machine_spawn_entity alloc kind slot type m)) \<and>
     m_next_entity m \<le> m_next_entity (snd (coop_machine_spawn_entity alloc kind slot type m)) \<and>
     (\<forall>i. live (snd (coop_machine_spawn_entity alloc kind slot type m)) i \<longrightarrow>
        live m i \<or> i \<ge> m_next_entity m)"
proof -
  obtain r m' where run: "coop_machine_spawn_entity alloc kind slot type m = (r, m')"
    by (cases "coop_machine_spawn_entity alloc kind slot type m")
  from run show ?thesis
  proof (cases rule: spawn_cases)
    case refused
    then show ?thesis using ok run by simp
  next
    case (spawned m1)
    let ?d = "displaced kind slot m1"
    have m1: "machine_ok m1" "\<And>i. live m1 i = live m i" "m_next_entity m1 = m_next_entity m"
      using spawned(5) ok by auto
    have d: "machine_ok ?d" "(kind, unat slot) \<notin> place_of ` set (m_entities ?d)"
      "\<And>i. live ?d i \<Longrightarrow> live m i" "m_next_entity ?d = m_next_entity m"
      using displaced_ok [OF m1(1)] m1(2,3) by auto
    have "machine_ok m'"
      using append_keeps [OF d(1) spawned(2,3) _ d(2)] spawned(4,6) d(4) by simp
    moreover have "live m' i \<Longrightarrow> live m i \<or> i \<ge> m_next_entity m" for i
      using d(3) [of i] spawned(6) by (auto simp: live_def)
    ultimately show ?thesis
      using run spawned(6) next_word [OF spawned(4) [unfolded COOP_NO_ENTITY_def]] by (auto intro: less_imp_le)
  qed
qed

interpretation spawn_op: machine_op "\<lambda>m. snd (coop_machine_spawn_entity alloc kind slot type m)"
  for alloc kind slot type
  by unfold_locales (use spawn_keeps in blast)+

text \<open>An operation that leaves the entities, the players and the eggs alone.\<close>

lemma ok_same:
  assumes "machine_ok m" "m_entities m' = m_entities m" "m_next_entity m' = m_next_entity m"
    "m_session m' = m_session m" "m_placed_eggs m' = m_placed_eggs m"
    "distinct (map source_key (m_sources m'))"
  shows "machine_ok m'"
  using assms by (simp add: machine_ok_def entity_table_def links_live_def live_def)

lemma source_cases:
  "snd (coop_yoshi_source alloc level layer x y tile m) = m \<or>
   (\<exists>cap s. source_key s \<notin> source_key ` set (m_sources m) \<and>
      snd (coop_yoshi_source alloc level layer x y tile m) =
        m\<lparr>m_source_capacity := cap, m_sources := m_sources m @ [s]\<rparr>)"
proof (cases "find_index (\<lambda>s. ys_level s = level \<and> ys_layer s = layer \<and> ys_x s = x \<and> ys_y s = y) (m_sources m)")
  case None
  let ?s = "\<lparr>ys_level = level, ys_layer = layer, ys_x = x, ys_y = y, ys_tile = tile, ys_uses = 0\<rparr>"
  have "source_key ?s \<notin> source_key ` set (m_sources m)"
    using None by (auto simp: find_index_None source_key_def)
  moreover have "snd (coop_yoshi_source alloc level layer x y tile m) = m \<or>
      (\<exists>cap. snd (coop_yoshi_source alloc level layer x y tile m) =
        m\<lparr>m_source_capacity := cap, m_sources := m_sources m @ [?s]\<rparr>)"
    unfolding coop_yoshi_source_def None by (auto split: option.split)
  ultimately show ?thesis by blast
qed (simp add: coop_yoshi_source_def)

lemma egg_cases:
  "snd (coop_placed_egg alloc level x y load_index m) = m \<or>
   (\<exists>cap s. egg_key s \<notin> egg_key ` set (m_placed_eggs m) \<and> pe_egg s = 0 \<and>
      snd (coop_placed_egg alloc level x y load_index m) =
        m\<lparr>m_placed_capacity := cap, m_placed_eggs := m_placed_eggs m @ [s]\<rparr>)"
proof (cases "find_index (\<lambda>s. pe_level s = level \<and> pe_x s = x \<and> pe_y s = y) (m_placed_eggs m)")
  case None
  let ?s = "\<lparr>pe_level = level, pe_x = x, pe_y = y, pe_load_index = load_index, pe_uses = 0, pe_egg = 0\<rparr>"
  have "egg_key ?s \<notin> egg_key ` set (m_placed_eggs m)" "pe_egg ?s = 0"
    using None by (auto simp: find_index_None egg_key_def)
  moreover have "snd (coop_placed_egg alloc level x y load_index m) = m \<or>
      (\<exists>cap. snd (coop_placed_egg alloc level x y load_index m) =
        m\<lparr>m_placed_capacity := cap, m_placed_eggs := m_placed_eggs m @ [?s]\<rparr>)"
    unfolding coop_placed_egg_def None by (auto split: option.split)
  ultimately show ?thesis by blast
qed (simp add: coop_placed_egg_def)

lemma source_keeps:
  assumes "machine_ok m"
  shows "machine_ok (snd (coop_yoshi_source alloc level layer x y tile m))"
  using source_cases [of alloc level layer x y tile m]
proof
  assume "\<exists>cap s. source_key s \<notin> source_key ` set (m_sources m) \<and>
      snd (coop_yoshi_source alloc level layer x y tile m) =
        m\<lparr>m_source_capacity := cap, m_sources := m_sources m @ [s]\<rparr>"
  then obtain cap s where s: "source_key s \<notin> source_key ` set (m_sources m)"
    "snd (coop_yoshi_source alloc level layer x y tile m) =
       m\<lparr>m_source_capacity := cap, m_sources := m_sources m @ [s]\<rparr>" by blast
  show ?thesis unfolding s(2)
    by (rule ok_same [OF assms]) (use s(1) assms in \<open>simp_all add: machine_ok_def\<close>)
qed (simp add: assms)

lemma egg_keeps:
  assumes "machine_ok m"
  shows "machine_ok (snd (coop_placed_egg alloc level x y load_index m))"
  using egg_cases [of alloc level x y load_index m]
proof
  assume "\<exists>cap s. egg_key s \<notin> egg_key ` set (m_placed_eggs m) \<and> pe_egg s = 0 \<and>
      snd (coop_placed_egg alloc level x y load_index m) =
        m\<lparr>m_placed_capacity := cap, m_placed_eggs := m_placed_eggs m @ [s]\<rparr>"
  then obtain cap s where s: "egg_key s \<notin> egg_key ` set (m_placed_eggs m)" "pe_egg s = 0"
    "snd (coop_placed_egg alloc level x y load_index m) =
       m\<lparr>m_placed_capacity := cap, m_placed_eggs := m_placed_eggs m @ [s]\<rparr>" by blast
  show ?thesis unfolding s(3)
    using s(1,2) assms by (auto simp: machine_ok_def entity_table_def links_live_def live_def)
qed (simp add: assms)

lemma source_frame [simp]:
  "m_next_entity (snd (coop_yoshi_source alloc level layer x y tile m)) = m_next_entity m"
  "live (snd (coop_yoshi_source alloc level layer x y tile m)) i = live m i"
  by (simp_all add: coop_yoshi_source_def live_def split: option.split)

lemma egg_frame [simp]:
  "m_next_entity (snd (coop_placed_egg alloc level x y load_index m)) = m_next_entity m"
  "live (snd (coop_placed_egg alloc level x y load_index m)) i = live m i"
  by (simp_all add: coop_placed_egg_def live_def split: option.split)

interpretation source_op: machine_op "\<lambda>m. snd (coop_yoshi_source alloc level layer x y tile m)"
  for alloc level layer x y tile
  by unfold_locales (simp_all add: source_keeps)

interpretation egg_op: machine_op "\<lambda>m. snd (coop_placed_egg alloc level x y load_index m)"
  for alloc level x y load_index
  by unfold_locales (simp_all add: egg_keeps)

lemma focus_frame [simp]:
  "m_entities (coop_machine_focus x y active m) = m_entities m"
  "m_next_entity (coop_machine_focus x y active m) = m_next_entity m"
  "m_session (coop_machine_focus x y active m) = m_session m"
  "m_placed_eggs (coop_machine_focus x y active m) = m_placed_eggs m"
  "m_sources (coop_machine_focus x y active m) = m_sources m"
  by (simp_all add: coop_machine_focus_def Let_def case_prod_unfold)

lemma refit_frame [simp]:
  "m_entities (coop_machine_refit_view m) = m_entities m"
  "m_next_entity (coop_machine_refit_view m) = m_next_entity m"
  "m_session (coop_machine_refit_view m) = m_session m"
  "m_placed_eggs (coop_machine_refit_view m) = m_placed_eggs m"
  "m_sources (coop_machine_refit_view m) = m_sources m"
  by (simp_all add: coop_machine_refit_view_def Let_def)

interpretation focus_op: machine_op "coop_machine_focus x y active" for x y active
proof unfold_locales
  show "machine_ok m \<Longrightarrow> machine_ok (coop_machine_focus x y active m)" for m
    by (rule ok_same) (simp_all add: machine_ok_def)
qed (simp add: live_def)

interpretation refit_op: machine_op coop_machine_refit_view
proof unfold_locales
  show "machine_ok m \<Longrightarrow> machine_ok (coop_machine_refit_view m)" for m
    by (rule ok_same) (simp_all add: machine_ok_def)
qed (simp add: live_def)

section \<open>Reachable machines\<close>

text \<open>
  The operations of \<^verbatim>\<open>coop_machine.c\<close>, and the three ways in which the simulation lets a player or
  an egg refer to an entity, which it does with the identity of a live one.
\<close>

inductive native_step :: "CoopMachine \<Rightarrow> CoopMachine \<Rightarrow> bool" where
  spawn: "coop_machine_spawn_entity alloc kind slot type m = (r, m') \<Longrightarrow> native_step m m'"
| forget: "native_step m (coop_machine_forget_entity i m)"
| focus: "native_step m (coop_machine_focus x y active m)"
| refit: "native_step m (coop_machine_refit_view m)"
| source: "coop_yoshi_source alloc level layer x y tile m = (r, m') \<Longrightarrow> native_step m m'"
| egg: "coop_placed_egg alloc level x y load_index m = (r, m') \<Longrightarrow> native_step m m'"
| hold: "coop_machine_entity m i = Some k \<Longrightarrow>
    native_step m (m\<lparr>m_session := upd_player j (p_held_object_update (\<lambda>_. i)) (m_session m)\<rparr>)"
| mount: "coop_machine_entity m i = Some k \<Longrightarrow>
    native_step m (m\<lparr>m_session := upd_player j (p_mount_update (\<lambda>_. i)) (m_session m)\<rparr>)"
| lay: "coop_machine_entity m i = Some k \<Longrightarrow>
    native_step m (m\<lparr>m_placed_eggs := upd_at j (pe_egg_update (\<lambda>_. i)) (m_placed_eggs m)\<rparr>)"

inductive_cases native_stepE: "native_step m m'"

lemma entity_live: "coop_machine_entity m i = Some k \<Longrightarrow> live m i"
  using entity_index [of m i k] by (auto simp: live_def)

lemma link_keeps:
  assumes "machine_ok m" "live m i"
  shows "machine_ok (m\<lparr>m_session := upd_player j (p_held_object_update (\<lambda>_. i)) (m_session m)\<rparr>)"
    and "machine_ok (m\<lparr>m_session := upd_player j (p_mount_update (\<lambda>_. i)) (m_session m)\<rparr>)"
    and "machine_ok (m\<lparr>m_placed_eggs := upd_at j (pe_egg_update (\<lambda>_. i)) (m_placed_eggs m)\<rparr>)"
proof -
  have all: "\<forall>p \<in> set (upd_at j f xs). P p" if "\<forall>p \<in> set xs. P p" "\<And>p. P p \<Longrightarrow> P (f p)" for f :: "'b \<Rightarrow> 'b" and xs P
    using that set_upd_at [of j xs f] by (cases "j < length xs") auto
  have key: "map egg_key (upd_at j (pe_egg_update (\<lambda>_. i)) (m_placed_eggs m)) = map egg_key (m_placed_eggs m)"
    by (rule map_upd_at_same) (simp add: egg_key_def)
  let ?P = "\<lambda>p. (p_held_object p \<noteq> COOP_NO_ENTITY \<longrightarrow> live m (p_held_object p)) \<and>
    (p_mount p \<noteq> COOP_NO_ENTITY \<longrightarrow> live m (p_mount p))"
  have P: "\<forall>p \<in> set (players (m_session m)). ?P p" "\<forall>s \<in> set (m_placed_eggs m). pe_egg s \<noteq> 0 \<longrightarrow> live m (pe_egg s)"
    using assms(1) by (auto simp: machine_ok_def links_live_def)
  have h: "\<forall>p \<in> set (upd_at j (p_held_object_update (\<lambda>_. i)) (players (m_session m))). ?P p"
    "\<forall>p \<in> set (upd_at j (p_mount_update (\<lambda>_. i)) (players (m_session m))). ?P p"
    by (rule all [OF P(1)], simp add: assms(2))+
  have l: "\<forall>s \<in> set (upd_at j (pe_egg_update (\<lambda>_. i)) (m_placed_eggs m)). pe_egg s \<noteq> 0 \<longrightarrow> live m (pe_egg s)"
    using P(2) assms(2) set_upd_at [of j "m_placed_eggs m" "pe_egg_update (\<lambda>_. i)"]
    by (cases "j < length (m_placed_eggs m)") auto
  show "machine_ok (m\<lparr>m_session := upd_player j (p_held_object_update (\<lambda>_. i)) (m_session m)\<rparr>)"
    "machine_ok (m\<lparr>m_session := upd_player j (p_mount_update (\<lambda>_. i)) (m_session m)\<rparr>)"
    "machine_ok (m\<lparr>m_placed_eggs := upd_at j (pe_egg_update (\<lambda>_. i)) (m_placed_eggs m)\<rparr>)"
    using assms(1) h l P key by (simp_all add: machine_ok_def entity_table_def links_live_def live_def)
qed

lemma step_keeps:
  assumes "native_step m m'" "machine_ok m"
  shows "machine_ok m'"
  using assms(1)
proof cases
  case (spawn alloc kind slot type r)
  then show ?thesis using spawn_op.keeps [OF assms(2), of alloc kind slot type] by simp
next
  case (source alloc level layer x y tile r)
  then show ?thesis using source_op.keeps [OF assms(2), of alloc level layer x y tile] by simp
next
  case (egg alloc level x y load_index r)
  then show ?thesis using egg_op.keeps [OF assms(2), of alloc level x y load_index] by simp
qed (auto simp: forget_op.keeps focus_op.keeps refit_op.keeps assms(2) link_keeps [OF assms(2) entity_live])

lemma init_ok:
  assumes "coop_machine_init alloc n = Some m"
  shows "machine_ok m"
  using assms
  by (auto simp: coop_machine_init_def coop_session_init_def machine_ok_def entity_table_def
      links_live_def zero_machine_def new_player_def split: if_splits option.splits)



section \<open>The camera focus\<close>

definition following :: "u32 \<Rightarrow> CoopMachine \<Rightarrow> bool" where
  "following active m \<longleftrightarrow> m_focus_initialized m \<and> m_focus_count m = active \<and> \<not> m_focus_hold m"

definition holding :: "i32 \<Rightarrow> i32 \<Rightarrow> u32 \<Rightarrow> CoopMachine \<Rightarrow> bool" where
  "holding x y active m \<longleftrightarrow> m_focus_initialized m \<and> m_focus_count m = active \<and> m_focus_hold m \<and>
     m_focus_center_x m = x \<and> m_focus_center_y m = y"

lemma focus_following:
  assumes "following active m" "active \<noteq> 0"
  shows "following active (coop_machine_focus x y active m) \<and>
     m_focus_x (coop_machine_focus x y active m) =
       m_focus_x m + word_of_int (focus_step (sint x - sint (m_focus_x m))) \<and>
     m_focus_y (coop_machine_focus x y active m) =
       m_focus_y m + word_of_int (focus_step (sint y - sint (m_focus_y m)))"
  using assms by (simp add: following_def coop_machine_focus_def Let_def)

lemma focus_holding:
  assumes "holding x y active m" "active \<noteq> 0"
  shows "holding x y active (coop_machine_focus x y active m) \<and>
     m_focus_x (coop_machine_focus x y active m) = m_focus_x m \<and>
     m_focus_y (coop_machine_focus x y active m) = m_focus_y m"
  using assms by (simp add: holding_def coop_machine_focus_def Let_def focus_step_def)

text \<open>One axis: a step towards the target never overshoots or wraps.\<close>

lemma focus_axis:
  fixes f x :: i32
  shows "sint (f + word_of_int (focus_step (sint x - sint f))) = sint f + focus_step (sint x - sint f)"
proof -
  let ?n = "sint f + focus_step (sint x - sint f)"
  have b: "- (2 ^ 31) \<le> sint f" "sint f < 2 ^ 31" "- (2 ^ 31) \<le> sint x" "sint x < 2 ^ 31"
    using sint_ge [of f] sint_lt [of f] sint_ge [of x] sint_lt [of x] by simp_all
  have "- (2 ^ 31) \<le> ?n \<and> ?n < 2 ^ 31" using b by (auto simp: focus_step_def)
  moreover have "f + word_of_int (focus_step (sint x - sint f)) = word_of_int ?n" by simp
  ultimately show ?thesis by (simp only: sint_sbintrunc') (simp add: signed_take_bit_int_eq_self)
qed

lemma focus_near:
  fixes f x :: i32
  assumes "\<bar>sint x - sint f\<bar> \<le> 4 * int (Suc n)"
  shows "\<bar>sint x - sint (f + word_of_int (focus_step (sint x - sint f)))\<bar> \<le> 4 * int n"
  using assms unfolding focus_axis by (auto simp: focus_step_def)


text \<open>
  When an actor leaves the play, the view of stationary survivors does not move: the frame that
  sees fewer actors keeps the focus, and so does every later frame with the same number and centre.
\<close>

lemma focus_holds_still:
  assumes "m_focus_initialized m" "active \<noteq> 0" "active < m_focus_count m"
  shows "m_focus_x ((coop_machine_focus x y active ^^ Suc n) m) = m_focus_x m \<and>
     m_focus_y ((coop_machine_focus x y active ^^ Suc n) m) = m_focus_y m"
proof -
  let ?m = "coop_machine_focus x y active m"
  have m: "holding x y active ?m" "m_focus_x ?m = m_focus_x m" "m_focus_y ?m = m_focus_y m"
    using assms by (auto simp: holding_def coop_machine_focus_def Let_def)
  have "holding x y active ((coop_machine_focus x y active ^^ n) ?m) \<and>
      m_focus_x ((coop_machine_focus x y active ^^ n) ?m) = m_focus_x m \<and>
      m_focus_y ((coop_machine_focus x y active ^^ n) ?m) = m_focus_y m"
  proof (induction n)
    case 0
    with m show ?case by simp
  next
    case (Suc n)
    then show ?case
      using focus_holding [of x y active "(coop_machine_focus x y active ^^ n) ?m"] assms(2) by simp
  qed
  then show ?thesis by (simp add: funpow_swap1)
qed

section \<open>Native bytes of mounts and fireballs\<close>

lemma foldl_upd_other: "x \<notin> g ` set is \<Longrightarrow> foldl (\<lambda>r i. r(g i := h i)) ram is x = ram x"
  by (induction "is" arbitrary: ram) auto

lemma foldl_upd_nth:
  assumes "inj_on g (set is)" "i \<in> set is"
  shows "foldl (\<lambda>r i. r(g i := h i)) ram is (g i) = h i"
  using assms
proof (induction "is" rule: rev_induct)
  case Nil
  then show ?case by simp
next
  case (snoc k ks)
  show ?case
  proof (cases "i = k")
    case True
    then show ?thesis by simp
  next
    case False
    then have "g i \<noteq> g k" using snoc.prems by (auto simp: inj_on_def)
    then show ?thesis using snoc False by (auto simp: inj_on_def)
  qed
qed

lemma mount_fields_facts:
  "distinct mount_fields" "length mount_fields = COOP_MOUNT_BYTES"
  "0x18df \<notin> set mount_fields" "0x18e2 \<notin> set mount_fields"
  by (simp_all add: mount_fields_def COOP_MOUNT_BYTES_def)

text \<open>
  Binding a captured mount writes the captured bytes back to their addresses and the mount's
  slot (plus one) to both slot registers, and touches no other byte of work RAM.
\<close>

lemma mount_bind_of_capture:
  "coop_mount_bind (Some (coop_mount_capture ram e)) other x =
     (if x = 0x18df \<or> x = 0x18e2 then ucast (en_slot e + 1)
      else if x \<in> set mount_fields then ram x else other x)"
proof (cases "x \<in> set mount_fields")
  case True
  then obtain i where i: "i < COOP_MOUNT_BYTES" "x = mount_fields ! i"
    using mount_fields_facts(2) by (auto simp: in_set_conv_nth)
  have "inj_on ((!) mount_fields) (set [0..<COOP_MOUNT_BYTES])"
    using mount_fields_facts by (simp add: inj_on_nth)
  from foldl_upd_nth [OF this, of i] i(1)
  have "foldl (\<lambda>r i. r(mount_fields ! i := map ram mount_fields ! i)) other [0..<COOP_MOUNT_BYTES] x =
      map ram mount_fields ! i" by (simp add: i(2))
  also have "\<dots> = ram x" using i mount_fields_facts(2) by simp
  finally show ?thesis using True mount_fields_facts(3,4)
    by (auto simp: coop_mount_bind_def coop_mount_capture_def Let_def)
next
  case False
  then have "x \<notin> (!) mount_fields ` set [0..<COOP_MOUNT_BYTES]"
    using mount_fields_facts(2) by auto
  from foldl_upd_other [OF this, of "\<lambda>i. map ram mount_fields ! i" other] False show ?thesis
    by (simp add: coop_mount_bind_def coop_mount_capture_def Let_def)
qed

lemma fireball_bind_of_capture:
  assumes "slot < 10"
  shows "coop_fireball_bind (coop_fireball_capture ram slot f) slot other x =
     (if \<exists>i < COOP_FIREBALL_BYTES. x = 0x170b + i * 10 + slot then ram x else other x)"
proof (cases "\<exists>i < COOP_FIREBALL_BYTES. x = 0x170b + i * 10 + slot")
  case True
  then obtain i where i: "i < COOP_FIREBALL_BYTES" "x = 0x170b + i * 10 + slot" by blast
  have "inj_on (\<lambda>i. 0x170b + i * 10 + slot) (set [0..<COOP_FIREBALL_BYTES])" by (simp add: inj_on_def)
  from foldl_upd_nth [OF this, of i "\<lambda>i. f_guest (coop_fireball_capture ram slot f) ! i" other] i True
  show ?thesis by (simp add: coop_fireball_bind_def) (simp add: coop_fireball_capture_def)
next
  case False
  then have "x \<notin> (\<lambda>i. 0x170b + i * 10 + slot) ` set [0..<COOP_FIREBALL_BYTES]" by auto
  from foldl_upd_other [OF this, of "\<lambda>i. f_guest (coop_fireball_capture ram slot f) ! i" other]
  show ?thesis unfolding if_not_P [OF False] by (simp add: coop_fireball_bind_def)
qed


section \<open>Mouths\<close>

text \<open>
  The loop over the slots as an invariant: the array \<open>referenced\<close> marks exactly the objects of the
  active mouths visited, all of them different.
\<close>

definition food_of :: "mem \<Rightarrow> nat \<Rightarrow> nat" where
  "food_of ram slot = unat (ram (0x160e + slot))"

definition eating :: "mem \<Rightarrow> nat \<Rightarrow> bool" where
  "eating ram slot \<longleftrightarrow> coop_mount_mouth_active ram slot \<and> food_of ram slot < 0x80"

definition mouth_inv :: "mem \<Rightarrow> nat list \<Rightarrow> bool list \<Rightarrow> bool" where
  "mouth_inv ram slots referenced \<longleftrightarrow> length referenced = 12 \<and>
     (\<forall>s \<in> set slots. eating ram s \<longrightarrow> food_of ram s < 12 \<and> food_of ram s \<noteq> s \<and>
        referenced ! food_of ram s \<and> ram (0x9e + food_of ram s) \<notin> {0x2c, 0x2d, 0x35}) \<and>
     (\<forall>s \<in> set slots. \<forall>t \<in> set slots. eating ram s \<and> eating ram t \<and> food_of ram s = food_of ram t \<longrightarrow> s = t)"

lemma mouth_step_inv:
  assumes "mouth_inv ram slots referenced" "mouth_step m ram (Some referenced) s = Some referenced'"
  shows "mouth_inv ram (slots @ [s]) referenced'"
proof (cases "eating ram s")
  case False
  then have "referenced' = referenced"
    using assms(2) by (auto simp: mouth_step_def eating_def food_of_def Let_def split: if_splits)
  with assms(1) False show ?thesis by (auto simp: mouth_inv_def)
next
  case True
  have step: "food_of ram s < 12" "food_of ram s \<noteq> s" "\<not> referenced ! food_of ram s"
    "ram (0x9e + food_of ram s) \<notin> {0x2c, 0x2d, 0x35}" "referenced' = referenced[food_of ram s := True]"
    using assms(2) True unfolding mouth_step_def eating_def food_of_def Let_def
    by (auto split: if_splits)
  have "food_of ram t \<noteq> food_of ram s" if "t \<in> set slots" "eating ram t" for t
    using assms(1) that step(3) by (auto simp: mouth_inv_def)
  then show ?thesis using assms(1) step True
    unfolding mouth_inv_def by (auto simp: nth_list_update)
qed

lemma mouth_step_None [simp]: "mouth_step m ram None s = None"
  by (simp add: mouth_step_def)

lemma mouth_loop:
  "foldl (mouth_step m ram) (Some (replicate 12 False)) slots = Some referenced \<Longrightarrow>
     mouth_inv ram slots referenced"
proof (induction slots arbitrary: referenced rule: rev_induct)
  case Nil
  then show ?case by (auto simp: mouth_inv_def)
next
  case (snoc s slots)
  then obtain r where r: "foldl (mouth_step m ram) (Some (replicate 12 False)) slots = Some r"
    by (cases "foldl (mouth_step m ram) (Some (replicate 12 False)) slots") auto
  with snoc show ?case by (auto intro: mouth_step_inv)
qed

text \<open>
  When the cross-check of the mouths accepts a snapshot, the food of every active mouth is one of
  the twelve sprites, not the eater itself and not an egg, a baby or an adult Yoshi, and no sprite is
  in two mouths; and no two pending berries are the same tile of the world.
\<close>

lemma mouths_exclusive:
  assumes "coop_machine_mouths_valid m ram" "s < 12" "eating ram s"
  shows "food_of ram s < 12 \<and> food_of ram s \<noteq> s \<and>
     ram (0x9e + food_of ram s) \<notin> {0x2c, 0x2d, 0x35} \<and>
     (\<forall>t < 12. eating ram t \<and> food_of ram t = food_of ram s \<longrightarrow> t = s) \<and>
     (\<forall>i < length (m_entities m). \<forall>j < i. \<forall>b. coop_mount_pending_berry (m_entities m ! i) ram = Some b \<longrightarrow>
        coop_mount_pending_berry (m_entities m ! j) ram \<noteq> Some b)"
proof -
  obtain r where "foldl (mouth_step m ram) (Some (replicate 12 False)) [0..<12] = Some r"
    using assms(1) by (auto simp: coop_machine_mouths_valid_def)
  from mouth_loop [OF this] have inv: "mouth_inv ram [0..<12] r" .
  have "\<forall>i < length (m_entities m). \<forall>j < i. \<forall>b. coop_mount_pending_berry (m_entities m ! i) ram = Some b \<longrightarrow>
        coop_mount_pending_berry (m_entities m ! j) ram \<noteq> Some b"
    using assms(1) by (force simp: coop_machine_mouths_valid_def berries_distinct_def)
  moreover have "s \<in> set [0..<12]" using assms(2) by simp
  with inv assms(3) have "food_of ram s < 12 \<and> food_of ram s \<noteq> s \<and>
     ram (0x9e + food_of ram s) \<notin> {0x2c, 0x2d, 0x35}" unfolding mouth_inv_def by blast
  moreover have "\<forall>t < 12. eating ram t \<and> food_of ram t = food_of ram s \<longrightarrow> t = s"
    using inv assms(2,3) unfolding mouth_inv_def by auto
  ultimately show ?thesis by blast
qed

end
