(* ===== verification/Coop_Codec.thy ===== *)
theory Coop_Codec
  imports Coop_State_Facts Coop_Machine_Facts
begin

text \<open>
  The snapshot codec of the native machine: \<open>coop_machine_save_size\<close>, \<open>coop_machine_save\<close> and
  \<open>coop_machine_load\<close> of \<^verbatim>\<open>coop_machine.c\<close>, versions 2 to 8.

  The writer is the list of bytes it leaves at the start of the buffer.  A reader takes the input,
  the limit \<open>size - TRAILER\<close> and a position and gives what it read and the next position, None for
  \<open>goto fail\<close>; the comparison \<open>size - TRAILER - at < n\<close> of the code is one on natural numbers, as \<open>at\<close>
  never passes the limit.
\<close>

section \<open>Bytes\<close>

definition HEADER :: nat where "HEADER = 64"
definition ACTOR_HEADER :: nat where "ACTOR_HEADER = 16"
definition PIECE_BYTES :: nat where "PIECE_BYTES = 540"
definition ENTITY_HEADER :: nat where "ENTITY_HEADER = 16"
definition ENTITY_BYTES :: nat where "ENTITY_BYTES = 28"
definition FOCUS_BYTES :: nat where "FOCUS_BYTES = 32"
definition TRAILER :: nat where "TRAILER = 4"

definition rom_id :: "u8 list" where
  "rom_id = [0x08, 0x38, 0xe5, 0x31, 0xfe, 0x22, 0xc0, 0x77, 0x52, 0x8f, 0xeb, 0xe1, 0x4c, 0xb3, 0xff, 0x7c,
     0x49, 0x2f, 0x1f, 0x5f, 0xa8, 0xde, 0x35, 0x41, 0x92, 0xbd, 0xff, 0x71, 0x37, 0xc2, 0x7f, 0x5b]"

definition put_words :: "u32 list \<Rightarrow> u8 list" where
  "put_words ws = concat (map le32 ws)"

definition tag :: "string \<Rightarrow> u8 list" where
  "tag t = map of_char t"

definition has_tag :: "u8 list \<Rightarrow> nat \<Rightarrow> string \<Rightarrow> bool" where
  "has_tag p at t \<longleftrightarrow> take 4 (drop at p) = tag t"

definition bool_word :: "bool \<Rightarrow> u32" where
  "bool_word b = (if b then 1 else 0)"

definition crc :: "u8 list \<Rightarrow> u32" where
  "crc p = NOT (foldl (\<lambda>c b. (crc_bit ^^ 8) (c XOR ucast b)) 0xFFFFFFFF p)"

definition layout_id :: u32 where
  "layout_id = foldl (\<lambda>h (a, n). ((h XOR of_nat a) * 16777619 XOR of_nat n) * 16777619) 2166136261 Coop_Guest.fields"

section \<open>Saving\<close>

text \<open>The size, None where the code returns 0.\<close>

definition size_table :: "nat \<Rightarrow> nat \<Rightarrow> nat \<Rightarrow> nat \<Rightarrow> nat option" where
  "size_table header used each n =
     (if n > SIZE_MAX - header \<or> used > (SIZE_MAX - n - header) div each then None
      else Some (n + header + used * each))"

fun size_each :: "('a \<Rightarrow> nat option) \<Rightarrow> 'a list \<Rightarrow> nat \<Rightarrow> nat option" where
  "size_each f [] n = Some n"
| "size_each f (x # xs) n =
     (case f x of None \<Rightarrow> None
      | Some bytes \<Rightarrow> if bytes > SIZE_MAX - n then None else size_each f xs (n + bytes))"

definition actor_extra :: "CoopActor \<Rightarrow> nat option" where
  "actor_extra a =
     (if length (ac_pending a) > COOP_BODY_PIECES \<or> length (ac_visible a) > COOP_BODY_PIECES then None
      else Some ((length (ac_pending a) + length (ac_visible a)) * PIECE_BYTES))"

definition mount_extra :: "CoopEntity \<Rightarrow> nat option" where
  "mount_extra e =
     (if length (en_pending e) > COOP_MOUNT_PIECES \<or> length (en_visible e) > COOP_MOUNT_PIECES then None
      else Some (12 + COOP_MOUNT_BYTES + (length (en_pending e) + length (en_visible e)) * PIECE_BYTES))"

definition fireball_extra :: "CoopFireball \<Rightarrow> nat option" where
  "fireball_extra f =
     (if length (f_pending f) > 1 \<or> length (f_visible f) > 1 then None
      else Some ((length (f_pending f) + length (f_visible f)) * PIECE_BYTES))"

definition machine_size :: "CoopMachine \<Rightarrow> nat option" where
  "machine_size m =
     (let n = length (m_actors m); core = coop_session_save_size (m_session m)
      in if n \<noteq> length (players (m_session m)) \<or> n > UINT32_MAX \<or> core = 0 \<or> core > UINT32_MAX \<or>
            core > SIZE_MAX - HEADER - TRAILER \<or>
            n > (SIZE_MAX - HEADER - TRAILER - core) div (ACTOR_HEADER + COOP_GUEST_BYTES) then None
         else
           Option.bind (size_each actor_extra (m_actors m)
               (HEADER + core + n * (ACTOR_HEADER + COOP_GUEST_BYTES) + TRAILER)) (\<lambda>n1.
           if length (m_entities m) > UINT32_MAX then None else
           Option.bind (size_table ENTITY_HEADER (length (m_entities m)) ENTITY_BYTES n1) (\<lambda>n2.
           if n2 > SIZE_MAX - FOCUS_BYTES \<or> length (m_sources m) > UINT32_MAX then None else
           Option.bind (size_table 16 (length (m_sources m)) 24 (n2 + FOCUS_BYTES)) (\<lambda>n3.
           Option.bind (size_each mount_extra (filter en_mount_valid (m_entities m)) n3) (\<lambda>n4.
           Option.bind (size_table 16 n (4 + COOP_FIREBALL_SLOTS * 24) n4) (\<lambda>n5.
           Option.bind (size_each fireball_extra (concat (map ac_fireballs (m_actors m))) n5) (\<lambda>n6.
           Option.bind (size_table 16 n 12 n6) (\<lambda>n7.
           if length (m_placed_eggs m) > UINT32_MAX then None else
           size_table 8 (length (m_placed_eggs m)) 24 n7))))))))"

definition coop_machine_save_size :: "CoopMachine \<Rightarrow> nat" where
  "coop_machine_save_size m = (case machine_size m of None \<Rightarrow> 0 | Some n \<Rightarrow> n)"

definition piece_valid :: "CoopVisualPiece \<Rightarrow> bool" where
  "piece_valid v \<longleftrightarrow> (v_width v = 8 \<or> v_width v = 16) \<and> v_height v = v_width v \<and>
     v_priority v \<le> 3 \<and> v_math v \<le> 1 \<and> v_slot v < 128"

definition save_piece :: "CoopVisualPiece \<Rightarrow> u8 list" where
  "save_piece v = put_words [v_x v, v_y v, v_width v, v_height v, v_priority v, v_math v, v_slot v] @
     concat (map (\<lambda>i. [ucast (v_pixels v ! i), ucast (drop_bit 8 (v_pixels v ! i))]) [0..<COOP_PIECE_PIXELS])"

definition save_actor :: "CoopActor \<Rightarrow> u8 list" where
  "save_actor a =
     put_words [ac_player a, ac_input_seat a, of_nat (length (ac_pending a)), of_nat (length (ac_visible a))] @
     ac_guest a @ concat (map save_piece (ac_pending a)) @ concat (map save_piece (ac_visible a))"

definition save_entity :: "CoopEntity \<Rightarrow> u8 list" where
  "save_entity e = put_words [en_id e, en_kind e, en_slot e, en_type e, en_owner e, en_target e, en_flags e]"

definition save_mount :: "CoopEntity \<Rightarrow> u8 list" where
  "save_mount e = put_words [en_id e, of_nat (length (en_pending e)), of_nat (length (en_visible e))] @ en_mount e @
     concat (map save_piece (en_pending e)) @ concat (map save_piece (en_visible e))"

definition save_source :: "CoopYoshiSource \<Rightarrow> u8 list" where
  "save_source s = put_words [ys_level s, ys_layer s, ys_x s, ys_y s, ys_tile s, ys_uses s]"

definition save_fireball :: "CoopFireball \<Rightarrow> u8 list" where
  "save_fireball f = put_words [f_id f] @ f_guest f @
     put_words [of_nat (length (f_pending f)), of_nat (length (f_visible f))] @
     concat (map save_piece (f_pending f)) @ concat (map save_piece (f_visible f))"

definition save_stored :: "CoopActor \<Rightarrow> u8 list" where
  "save_stored a = put_words [ac_player a, ac_stored_mount a, ac_stored_mount_color a]"

definition save_egg :: "CoopPlacedEgg \<Rightarrow> u8 list" where
  "save_egg s = put_words [pe_level s, pe_x s, pe_y s, pe_load_index s, pe_uses s, pe_egg s]"

definition save_header :: "CoopMachine \<Rightarrow> u8 list" where
  "save_header m = tag ''CNR1'' @ put_words [8] @ rom_id @
     put_words [of_nat (coop_session_save_size (m_session m)), of_nat (length (m_actors m)), layout_id, m_room m,
       m_previous_mode m, bool_word (m_room_initialized m)]"

definition save_entities :: "CoopMachine \<Rightarrow> u8 list" where
  "save_entities m = tag ''ENT1'' @ put_words [of_nat (length (m_entities m)), m_next_entity m, m_level m] @
     concat (map save_entity (m_entities m))"

definition save_focus :: "CoopMachine \<Rightarrow> u8 list" where
  "save_focus m = tag ''CAM1'' @ put_words [m_focus_x m, m_focus_y m, m_focus_center_x m, m_focus_center_y m,
     m_focus_count m, bool_word (m_focus_initialized m), bool_word (m_focus_hold m)]"

definition save_mounts :: "CoopMachine \<Rightarrow> u8 list" where
  "save_mounts m = tag ''YSH1'' @ put_words [of_nat (length (filter en_mount_valid (m_entities m))),
       of_nat (length (m_sources m)), bool_word (m_mounts_initialized m)] @
     concat (map save_mount (filter en_mount_valid (m_entities m))) @ concat (map save_source (m_sources m))"

definition save_actor_fireballs :: "CoopActor \<Rightarrow> u8 list" where
  "save_actor_fireballs a = put_words [ac_player a] @ concat (map save_fireball (ac_fireballs a))"

definition save_fireballs :: "CoopMachine \<Rightarrow> u8 list" where
  "save_fireballs m = tag ''PJT1'' @ put_words [of_nat (length (m_actors m)), of_nat COOP_FIREBALL_SLOTS,
       bool_word (m_fireballs_initialized m)] @ concat (map save_actor_fireballs (m_actors m))"

definition save_metadata :: "CoopMachine \<Rightarrow> u8 list" where
  "save_metadata m = tag ''MTR1'' @ put_words [of_nat (length (m_actors m)), bool_word (m_entrance_prepared m), 0] @
     concat (map save_stored (m_actors m))"

definition save_eggs :: "CoopMachine \<Rightarrow> u8 list" where
  "save_eggs m = tag ''PEG1'' @ put_words [of_nat (length (m_placed_eggs m))] @ concat (map save_egg (m_placed_eggs m))"

definition machine_pieces :: "CoopMachine \<Rightarrow> CoopVisualPiece list" where
  "machine_pieces m =
     concat (map (\<lambda>a. ac_pending a @ ac_visible a) (m_actors m)) @
     concat (map (\<lambda>e. en_pending e @ en_visible e) (filter en_mount_valid (m_entities m))) @
     concat (map (\<lambda>f. f_pending f @ f_visible f) (concat (map ac_fireballs (m_actors m))))"

definition machine_image :: "CoopMachine \<Rightarrow> u8 list \<Rightarrow> u8 list" where
  "machine_image m core = save_header m @ core @ concat (map save_actor (m_actors m)) @ save_entities m @ save_focus m @
     save_mounts m @ save_fireballs m @ save_metadata m @ save_eggs m"

text \<open>
  \<open>coop_machine_save\<close>: the buffer after a successful save.  What a failed save, which returns false,
  leaves in the buffer is not used.
\<close>

definition coop_machine_save :: "allocator \<Rightarrow> CoopMachine \<Rightarrow> u8 list \<Rightarrow> u8 list option" where
  "coop_machine_save alloc m data =
     (let n = coop_machine_save_size m; core = coop_session_save_size (m_session m)
      in if n = 0 \<or> length data < n \<or> \<not> entities_valid m then None
         else case coop_session_save alloc (m_session m) (take core (drop HEADER data)) of
                None \<Rightarrow> None
              | Some bytes \<Rightarrow>
                  if \<not> list_all piece_valid (machine_pieces m) then None
                  else let body = machine_image m bytes
                       in Some (patch 0 (body @ le32 (crc body)) data))"

section \<open>Loading\<close>

type_synonym 'a reader = "u8 list \<Rightarrow> nat \<Rightarrow> nat \<Rightarrow> ('a \<times> nat) option"

fun read_each :: "nat \<Rightarrow> 'a reader \<Rightarrow> 'a list reader" where
  "read_each 0 rd p lim at = Some ([], at)"
| "read_each (Suc n) rd p lim at =
     (case rd p lim at of None \<Rightarrow> None
      | Some (x, at1) \<Rightarrow>
          (case read_each n rd p lim at1 of None \<Rightarrow> None | Some (xs, at2) \<Rightarrow> Some (x # xs, at2)))"

definition load_piece :: "CoopVisualPiece reader" where
  "load_piece p lim at =
     (if lim - at < PIECE_BYTES then None
      else
        let v = \<lparr>v_x = get32 p at, v_y = get32 p (at + 4), v_width = get32 p (at + 8), v_height = get32 p (at + 12),
              v_priority = get32 p (at + 16), v_math = get32 p (at + 20), v_slot = get32 p (at + 24),
              v_pixels = map (\<lambda>i. ucast (p ! (at + 28 + i * 2)) OR push_bit 8 (ucast (p ! (at + 29 + i * 2))))
                [0..<COOP_PIECE_PIXELS]\<rparr>
        in if piece_valid v then Some (v, at + PIECE_BYTES) else None)"

definition legacy_owned :: "nat list" where
  "legacy_owned = [0x1470, 0x148f, 0x187a, 0x13f3, 0x1891]"

definition load_actor :: "nat \<Rightarrow> CoopSession \<Rightarrow> CoopActor list \<Rightarrow> CoopActor reader" where
  "load_actor version s earlier p lim at =
     (if lim - at < ACTOR_HEADER + COOP_GUEST_BYTES then None
      else
        let player = get32 p at; seat = get32 p (at + 4);
            np = unat (get32 p (at + 8)); nv = unat (get32 p (at + 12));
            guest = take COOP_GUEST_BYTES (drop (at + ACTOR_HEADER) p);
            at1 = at + ACTOR_HEADER + COOP_GUEST_BYTES
        in if np > COOP_BODY_PIECES \<or> nv > COOP_BODY_PIECES then None
           else if coop_player s player = None then None
           else if \<exists>a \<in> set earlier. player = ac_player a \<or> seat = ac_input_seat a then None
           else if version = 2 \<and>
             (\<exists>a \<in> set legacy_owned. case coop_guest_peek guest a of None \<Rightarrow> False | Some v \<Rightarrow> v \<noteq> 0) then None
           else Option.bind (read_each np load_piece p lim at1) (\<lambda>(pending, at2).
             Option.bind (read_each nv load_piece p lim at2) (\<lambda>(visible, at3).
               Some (zero_actor\<lparr>ac_player := player, ac_input_seat := seat, ac_guest := guest,
                 ac_pending := pending, ac_visible := visible\<rparr>, at3))))"

fun load_actors :: "nat \<Rightarrow> CoopSession \<Rightarrow> nat \<Rightarrow> CoopActor list \<Rightarrow> CoopActor list reader" where
  "load_actors version s 0 as p lim at = Some (as, at)"
| "load_actors version s (Suc n) as p lim at =
     (case load_actor version s as p lim at of None \<Rightarrow> None
      | Some (a, at1) \<Rightarrow> load_actors version s n (as @ [a]) p lim at1)"

definition load_entity :: "CoopEntity reader" where
  "load_entity p lim at =
     Some (\<lparr>en_id = get32 p at, en_kind = get32 p (at + 4), en_slot = get32 p (at + 8), en_type = get32 p (at + 12),
        en_owner = get32 p (at + 16), en_target = get32 p (at + 20), en_flags = get32 p (at + 24),
        en_mount_valid = False, en_mount = replicate COOP_MOUNT_BYTES 0, en_pending = [], en_visible = []\<rparr>,
      at + ENTITY_BYTES)"

definition load_entities :: "allocator \<Rightarrow> nat \<Rightarrow> CoopMachine \<Rightarrow> CoopMachine reader" where
  "load_entities alloc version m p lim at =
     (if version < 3 then Some (m, at)
      else if lim - at < ENTITY_HEADER \<or> \<not> has_tag p at ''ENT1'' then None
      else
        let n = unat (get32 p (at + 4)); at1 = at + ENTITY_HEADER; tail = (if version \<ge> 4 then FOCUS_BYTES else 0)
        in if lim - at1 < tail \<or> n > 22 \<or> n > (lim - at1 - tail) div ENTITY_BYTES then None
           else if n \<noteq> 0 \<and> \<not> alloc (n * SIZEOF_ENTITY) then None
           else Option.bind (read_each n load_entity p lim at1) (\<lambda>(es, at2).
             Some (m\<lparr>m_entities := es, m_entity_capacity := n, m_next_entity := get32 p (at + 8),
               m_level := get32 p (at + 12)\<rparr>, at2)))"

definition coordinate :: "i32 \<Rightarrow> bool" where
  "coordinate x \<longleftrightarrow> \<not> (sint x < 0 \<or> sint x > 65535)"

definition load_focus :: "nat \<Rightarrow> CoopMachine \<Rightarrow> CoopMachine reader" where
  "load_focus version m p lim at =
     (if version < 4 then Some (m, at)
      else if lim - at < FOCUS_BYTES \<or> \<not> has_tag p at ''CAM1'' \<or> unat (get32 p (at + 20)) > length (m_actors m) \<or>
        get32 p (at + 24) > 1 \<or> get32 p (at + 28) > 1 then None
      else
        let m' = m\<lparr>m_focus_x := get32 p (at + 4), m_focus_y := get32 p (at + 8), m_focus_center_x := get32 p (at + 12),
              m_focus_center_y := get32 p (at + 16), m_focus_count := get32 p (at + 20),
              m_focus_initialized := (get32 p (at + 24) \<noteq> 0), m_focus_hold := (get32 p (at + 28) \<noteq> 0)\<rparr>
        in if coordinate (m_focus_x m') \<and> coordinate (m_focus_y m') \<and> coordinate (m_focus_center_x m') \<and>
              coordinate (m_focus_center_y m') then Some (m', at + FOCUS_BYTES) else None)"

definition load_mount :: "CoopEntity list \<Rightarrow> CoopEntity list reader" where
  "load_mount es p lim at =
     (if lim - at < 12 + COOP_MOUNT_BYTES then None
      else case find_index (\<lambda>e. en_id e = get32 p at) es of
             None \<Rightarrow> None
           | Some i \<Rightarrow>
               let np = unat (get32 p (at + 4)); nv = unat (get32 p (at + 8)); at1 = at + 12 + COOP_MOUNT_BYTES
               in if en_mount_valid (es ! i) \<or> np > COOP_MOUNT_PIECES \<or> nv > COOP_MOUNT_PIECES then None
                  else Option.bind (read_each np load_piece p lim at1) (\<lambda>(pending, at2).
                    Option.bind (read_each nv load_piece p lim at2) (\<lambda>(visible, at3).
                      Some (es[i := (es ! i)\<lparr>en_mount_valid := True, en_pending := pending, en_visible := visible,
                        en_mount := take COOP_MOUNT_BYTES (drop (at + 12) p)\<rparr>], at3))))"

fun load_mount_list :: "nat \<Rightarrow> CoopEntity list \<Rightarrow> CoopEntity list reader" where
  "load_mount_list 0 es p lim at = Some (es, at)"
| "load_mount_list (Suc n) es p lim at =
     (case load_mount es p lim at of None \<Rightarrow> None | Some (es', at1) \<Rightarrow> load_mount_list n es' p lim at1)"

definition load_source :: "CoopYoshiSource reader" where
  "load_source p lim at =
     Some (\<lparr>ys_level = get32 p at, ys_layer = get32 p (at + 4), ys_x = get32 p (at + 8), ys_y = get32 p (at + 12),
        ys_tile = get32 p (at + 16), ys_uses = get32 p (at + 20)\<rparr>, at + 24)"

definition load_mounts :: "allocator \<Rightarrow> nat \<Rightarrow> CoopMachine \<Rightarrow> CoopMachine reader" where
  "load_mounts alloc version m p lim at =
     (if version < 5 then Some (m, at)
      else if lim - at < 16 \<or> \<not> has_tag p at ''YSH1'' \<or> get32 p (at + 12) > 1 then None
      else
        let mounts = unat (get32 p (at + 4)); sources = unat (get32 p (at + 8))
        in if mounts > 12 \<or> mounts > length (m_entities m) then None
           else Option.bind (load_mount_list mounts (m_entities m) p lim (at + 16)) (\<lambda>(es, at1).
             if sources > (lim - at1) div 24 \<or> sources > SIZE_MAX div SIZEOF_SOURCE then None
             else if sources \<noteq> 0 \<and> \<not> alloc (sources * SIZEOF_SOURCE) then None
             else Option.bind (read_each sources load_source p lim at1) (\<lambda>(ss, at2).
               Some (m\<lparr>m_mounts_initialized := (get32 p (at + 12) \<noteq> 0), m_entities := es, m_sources := ss,
                 m_source_capacity := sources\<rparr>, at2))))"

definition load_fireball :: "CoopFireball reader" where
  "load_fireball p lim at =
     (if lim - at < 24 then None
      else
        let np = unat (get32 p (at + 16)); nv = unat (get32 p (at + 20))
        in if np > 1 \<or> nv > 1 then None
           else Option.bind (read_each np load_piece p lim (at + 24)) (\<lambda>(pending, at2).
             Option.bind (read_each nv load_piece p lim at2) (\<lambda>(visible, at3).
               Some (\<lparr>f_id = get32 p at, f_guest = take COOP_FIREBALL_BYTES (drop (at + 4) p),
                 f_pending = pending, f_visible = visible\<rparr>, at3))))"

fun load_actor_fireballs :: "CoopActor list \<Rightarrow> CoopActor list reader" where
  "load_actor_fireballs [] p lim at = Some ([], at)"
| "load_actor_fireballs (a # as) p lim at =
     (if lim - at < 4 \<or> get32 p at \<noteq> ac_player a then None
      else Option.bind (read_each COOP_FIREBALL_SLOTS load_fireball p lim (at + 4)) (\<lambda>(fs, at1).
        Option.bind (load_actor_fireballs as p lim at1) (\<lambda>(as', at2).
          Some (a\<lparr>ac_fireballs := fs\<rparr> # as', at2))))"

definition load_fireballs :: "nat \<Rightarrow> CoopMachine \<Rightarrow> CoopMachine reader" where
  "load_fireballs version m p lim at =
     (if version < 6 then Some (m, at)
      else if lim - at < 16 \<or> \<not> has_tag p at ''PJT1'' \<or> unat (get32 p (at + 4)) \<noteq> length (m_actors m) \<or>
        unat (get32 p (at + 8)) \<noteq> COOP_FIREBALL_SLOTS \<or> get32 p (at + 12) > 1 then None
      else Option.bind (load_actor_fireballs (m_actors m) p lim (at + 16)) (\<lambda>(as, at1).
        Some (m\<lparr>m_fireballs_initialized := (get32 p (at + 12) \<noteq> 0), m_actors := as\<rparr>, at1)))"

fun load_stored :: "CoopActor list \<Rightarrow> CoopActor list reader" where
  "load_stored [] p lim at = Some ([], at)"
| "load_stored (a # as) p lim at =
     (if get32 p at \<noteq> ac_player a then None
      else Option.bind (load_stored as p lim (at + 12)) (\<lambda>(as', at2).
        Some (a\<lparr>ac_stored_mount := get32 p (at + 4), ac_stored_mount_color := get32 p (at + 8)\<rparr> # as', at2)))"

definition load_metadata :: "nat \<Rightarrow> CoopMachine \<Rightarrow> CoopMachine reader" where
  "load_metadata version m p lim at =
     (if version < 7 then Some (m, at)
      else if lim - at < 16 \<or> \<not> has_tag p at ''MTR1'' \<or> unat (get32 p (at + 4)) \<noteq> length (m_actors m) \<or>
        get32 p (at + 8) > 1 \<or> get32 p (at + 12) \<noteq> 0 then None
      else if length (m_actors m) > (lim - (at + 16)) div 12 then None
      else Option.bind (load_stored (m_actors m) p lim (at + 16)) (\<lambda>(as, at1).
        Some (m\<lparr>m_entrance_prepared := (get32 p (at + 8) \<noteq> 0), m_actors := as\<rparr>, at1)))"

definition load_egg :: "CoopPlacedEgg reader" where
  "load_egg p lim at =
     Some (\<lparr>pe_level = get32 p at, pe_x = get32 p (at + 4), pe_y = get32 p (at + 8), pe_load_index = get32 p (at + 12),
        pe_uses = get32 p (at + 16), pe_egg = get32 p (at + 20)\<rparr>, at + 24)"

definition load_eggs :: "allocator \<Rightarrow> nat \<Rightarrow> CoopMachine \<Rightarrow> CoopMachine reader" where
  "load_eggs alloc version m p lim at =
     (if version < 8 then Some (m, at)
      else if lim - at < 8 \<or> \<not> has_tag p at ''PEG1'' then None
      else
        let eggs = unat (get32 p (at + 4))
        in if eggs > (lim - (at + 8)) div 24 \<or> eggs > SIZE_MAX div SIZEOF_SOURCE then None
           else if eggs \<noteq> 0 \<and> \<not> alloc (eggs * SIZEOF_SOURCE) then None
           else Option.bind (read_each eggs load_egg p lim (at + 8)) (\<lambda>(ss, at1).
             Some (m\<lparr>m_placed_eggs := ss, m_placed_capacity := eggs\<rparr>, at1)))"

definition header_ok :: "u8 list \<Rightarrow> bool" where
  "header_ok p \<longleftrightarrow>
     \<not> (\<not> has_tag p 0 ''CNR1'' \<or> (get32 p 4 < 2 \<or> get32 p 4 > 8) \<or> take 32 (drop 8 p) \<noteq> rom_id \<or>
        get32 p 48 \<noteq> layout_id \<or> get32 p 60 > 1 \<or> get32 p 56 > 0x29 \<or>
        get32 p (length p - 4) \<noteq> crc (take (length p - 4) p))"

text \<open>The sections behind the actors, in their order.\<close>

definition load_sections :: "allocator \<Rightarrow> nat \<Rightarrow> CoopMachine \<Rightarrow> CoopMachine reader" where
  "load_sections alloc version m p lim at =
     Option.bind (load_entities alloc version m p lim at) (\<lambda>(m1, at1).
     Option.bind (load_focus version m1 p lim at1) (\<lambda>(m2, at2).
     Option.bind (load_mounts alloc version m2 p lim at2) (\<lambda>(m3, at3).
     Option.bind (load_fireballs version m3 p lim at3) (\<lambda>(m4, at4).
     Option.bind (load_metadata version m4 p lim at4) (\<lambda>(m5, at5).
     load_eggs alloc version m5 p lim at5)))))"

definition load_machine :: "allocator \<Rightarrow> u8 list \<Rightarrow> CoopMachine option" where
  "load_machine alloc p =
     (if length p < HEADER + TRAILER \<or> \<not> header_ok p then None
      else
        let version = unat (get32 p 4); core = unat (get32 p 40); n = unat (get32 p 44); lim = length p - TRAILER
        in if core > length p - HEADER - TRAILER \<or>
              n > (length p - HEADER - TRAILER - core) div (ACTOR_HEADER + COOP_GUEST_BYTES) then None
           else
             let (ok, s) = coop_session_load alloc (take core (drop HEADER p)) zero_session
             in if \<not> ok \<or> length (players s) \<noteq> n \<or> n > SIZE_MAX div SIZEOF_ACTOR then None
                else if \<not> alloc (n * SIZEOF_ACTOR) then None
                else Option.bind (load_actors version s n [] p lim (HEADER + core)) (\<lambda>(as, at).
                  Option.bind (load_sections alloc version
                      (zero_machine\<lparr>m_session := s, m_actors := as, m_room := get32 p 52, m_previous_mode := get32 p 56,
                         m_room_initialized := (get32 p 60 \<noteq> 0), m_next_entity := 1, m_level := 0xFFFFFFFF\<rparr>) p lim at)
                    (\<lambda>(m, at'). if at' \<noteq> lim \<or> \<not> entities_valid m then None else Some m)))"

definition coop_machine_load :: "allocator \<Rightarrow> u8 list \<Rightarrow> CoopMachine \<Rightarrow> bool \<times> CoopMachine" where
  "coop_machine_load alloc data m =
     (case load_machine alloc data of None \<Rightarrow> (False, m) | Some m' \<Rightarrow> (True, m'))"

end
