(* ===== verification/Coop_Codec_Facts.thy ===== *)
theory Coop_Codec_Facts
  imports Coop_Codec
begin

text \<open>
  The snapshot codec restores what it saved.  The locale \<open>item_codec\<close> is the contract of one kind of
  item, a writer and a reader that is its inverse at any place of a buffer; the lists follow in it
  once for all items, and the sections are put together from them.
\<close>

section \<open>Readers that invert writers\<close>

definition parses :: "'a reader \<Rightarrow> 'a \<Rightarrow> u8 list \<Rightarrow> bool" where
  "parses rd x bs \<longleftrightarrow> (\<forall>pre post lim. length pre + length bs \<le> lim \<longrightarrow>
     rd (pre @ bs @ post) lim (length pre) = Some (x, length pre + length bs))"

lemma parsesD: "parses rd x bs \<Longrightarrow> p = pre @ bs @ post \<Longrightarrow> at = length pre \<Longrightarrow> at + length bs \<le> lim \<Longrightarrow>
    rd p lim at = Some (x, at + length bs)"
  by (simp add: parses_def)

locale item_codec =
  fixes enc :: "'a \<Rightarrow> u8 list" and rd :: "'a reader" and ok :: "'a \<Rightarrow> bool"
  assumes inverse: "ok x \<Longrightarrow> parses rd x (enc x)"
begin

lemma each: "\<forall>x \<in> set xs. ok x \<Longrightarrow> parses (read_each (length xs) rd) xs (concat (map enc xs))"
proof (induction xs)
  case Nil
  then show ?case by (simp add: parses_def)
next
  case (Cons x xs)
  have x: "parses rd x (enc x)" using Cons.prems by (intro inverse) simp
  have xs: "parses (read_each (length xs) rd) xs (concat (map enc xs))" using Cons by simp
  show ?case
    unfolding parses_def
  proof (intro allI impI)
    fix pre post :: "u8 list" and lim
    assume len: "length pre + length (concat (map enc (x # xs))) \<le> lim"
    let ?p = "pre @ concat (map enc (x # xs)) @ post"
    have 1: "rd ?p lim (length pre) = Some (x, length pre + length (enc x))"
      using len by (intro parsesD [OF x, where pre = pre and post = "concat (map enc xs) @ post"]) simp_all
    have 2: "read_each (length xs) rd ?p lim (length pre + length (enc x)) =
        Some (xs, length pre + length (enc x) + length (concat (map enc xs)))"
      using len by (intro parsesD [OF xs, where pre = "pre @ enc x" and post = post]) simp_all
    show "read_each (length (x # xs)) rd ?p lim (length pre) =
        Some (x # xs, length pre + length (concat (map enc (x # xs))))"
      using 1 2 by (simp add: add.assoc)
  qed
qed

end

section \<open>Words\<close>

lemma length_words [simp]: "length (put_words ws) = 4 * length ws"
  by (induction ws) (simp_all add: put_words_def)

lemma put_words_Cons: "put_words (w # ws) = le32 w @ put_words ws"
  by (simp add: put_words_def)

lemma put_words_append: "put_words vs @ put_words ws = put_words (vs @ ws)"
  by (simp add: put_words_def)

lemma get32_at: "get32 (pre @ le32 w @ post) (length pre) = w"
  by (simp add: get32_le32)

lemma get32_words: "i < length ws \<Longrightarrow> get32 (pre @ put_words ws @ post) (length pre + 4 * i) = ws ! i"
proof (induction ws arbitrary: pre i)
  case (Cons w ws)
  show ?case
  proof (cases i)
    case 0
    then show ?thesis using get32_at [of pre w "put_words ws @ post"] by (simp add: put_words_Cons)
  next
    case (Suc j)
    then show ?thesis using Cons.IH [of j "pre @ le32 w"] Cons.prems
      by (simp add: put_words_Cons add.assoc add.commute add.left_commute)
  qed
qed simp

lemma words_read: "p = pre @ put_words ws @ post \<Longrightarrow> at = length pre \<Longrightarrow>
    list_all (\<lambda>i. get32 p (at + 4 * i) = ws ! i) [0..<length ws]"
  using get32_words [of _ ws pre post] by (simp add: list_all_iff)

lemma tag_words:
  "tag ''CNR1'' = put_words [0x31524E43]" "tag ''ENT1'' = put_words [0x31544E45]" "tag ''CAM1'' = put_words [0x314D4143]"
  "tag ''YSH1'' = put_words [0x31485359]" "tag ''PJT1'' = put_words [0x31544A50]" "tag ''MTR1'' = put_words [0x3152544D]"
  "tag ''PEG1'' = put_words [0x31474550]"
  by (simp_all add: tag_def put_words_def le32_def)

lemma has_tag_here: "p = pre @ tag t @ post \<Longrightarrow> at = length pre \<Longrightarrow> length t = 4 \<Longrightarrow> has_tag p at t"
  by (simp add: has_tag_def tag_def)

section \<open>Items\<close>

definition piece_ok :: "CoopVisualPiece \<Rightarrow> bool" where
  "piece_ok v \<longleftrightarrow> piece_valid v \<and> length (v_pixels v) = COOP_PIECE_PIXELS"

lemma pairs_nth:
  "i < n \<Longrightarrow> concat (map (\<lambda>i. [f i, g i]) [0..<n]) ! (i * 2) = f i \<and>
     concat (map (\<lambda>i. [f i, g i]) [0..<n]) ! (i * 2 + 1) = g i"
proof (induction n)
  case (Suc n)
  have len: "length (concat (map (\<lambda>i. [f i, g i]) [0..<n])) = n * 2" for n by (induction n) simp_all
  show ?case using Suc len [of n] by (cases "i = n") (simp_all add: nth_append)
qed simp

lemma length_pairs: "length (concat (map (\<lambda>i. [f i, g i]) [0..<n])) = n * 2"
  by (induction n) simp_all

lemma u16_parts: "ucast (ucast x :: u8) OR push_bit 8 (ucast (ucast (drop_bit 8 x) :: u8)) = (x :: u16)"
proof (rule bit_word_eqI)
  fix n
  assume "n < LENGTH(16)"
  then show "bit (ucast (ucast x :: u8) OR push_bit 8 (ucast (ucast (drop_bit 8 x) :: u8)) :: u16) n = bit x n"
    by (auto simp: bit_simps)
qed

lemma length_save_piece [simp]: "length (save_piece v) = PIECE_BYTES"
  by (simp add: save_piece_def length_pairs PIECE_BYTES_def COOP_PIECE_PIXELS_def)

lemma piece_codec: "piece_ok v \<Longrightarrow> parses load_piece v (save_piece v)"
  unfolding parses_def
proof (intro allI impI)
  fix pre post :: "u8 list" and lim
  assume ok: "piece_ok v" and lim: "length pre + length (save_piece v) \<le> lim"
  let ?ws = "[v_x v, v_y v, v_width v, v_height v, v_priority v, v_math v, v_slot v]"
  let ?px = "concat (map (\<lambda>i. [ucast (v_pixels v ! i), ucast (drop_bit 8 (v_pixels v ! i))]) [0..<COOP_PIECE_PIXELS]) :: u8 list"
  let ?p = "pre @ save_piece v @ post" and ?at = "length pre"
  have p: "?p = pre @ put_words ?ws @ (?px @ post)" by (simp add: save_piece_def)
  have w: "get32 ?p ?at = v_x v" "get32 ?p (?at + 4) = v_y v" "get32 ?p (?at + 8) = v_width v"
    "get32 ?p (?at + 12) = v_height v" "get32 ?p (?at + 16) = v_priority v" "get32 ?p (?at + 20) = v_math v"
    "get32 ?p (?at + 24) = v_slot v"
    using words_read [OF p refl] by (simp_all add: upt_rec)
  have px: "?p ! (?at + 28 + i * 2) = ucast (v_pixels v ! i) \<and> ?p ! (?at + 29 + i * 2) = ucast (drop_bit 8 (v_pixels v ! i))"
    if "i < COOP_PIECE_PIXELS" for i
  proof -
    have "?p ! (?at + 28 + j) = ?px ! j" if "j < COOP_PIECE_PIXELS * 2" for j
      using that length_pairs [of "\<lambda>i. ucast (v_pixels v ! i) :: u8" "\<lambda>i. ucast (drop_bit 8 (v_pixels v ! i))" COOP_PIECE_PIXELS]
      unfolding p by (simp add: nth_append)
    from this [of "i * 2"] this [of "i * 2 + 1"] pairs_nth [OF that, of "\<lambda>i. ucast (v_pixels v ! i)"] that
    show ?thesis by (simp add: add.assoc add.commute add.left_commute)
  qed
  have "map (\<lambda>i. ucast (?p ! (?at + 28 + i * 2)) OR push_bit 8 (ucast (?p ! (?at + 29 + i * 2)))) [0..<COOP_PIECE_PIXELS] =
      map ((!) (v_pixels v)) [0..<COOP_PIECE_PIXELS]"
    by (rule map_cong) (use px in \<open>simp_all add: u16_parts\<close>)
  also have "\<dots> = v_pixels v" using ok map_nth [of "v_pixels v"] by (simp add: piece_ok_def)
  finally have "map (\<lambda>i. ucast (?p ! (?at + 28 + i * 2)) OR push_bit 8 (ucast (?p ! (?at + 29 + i * 2)))) [0..<COOP_PIECE_PIXELS] =
      v_pixels v" .
  then show "load_piece ?p lim ?at = Some (v, ?at + length (save_piece v))"
    using ok lim by (simp add: load_piece_def w Let_def piece_ok_def) (simp add: piece_valid_def)
qed

interpretation pieces: item_codec save_piece load_piece piece_ok
  by unfold_locales (rule piece_codec)

lemma length_pieces [simp]: "length (concat (map save_piece vs)) = length vs * PIECE_BYTES"
  by (induction vs) simp_all

lemma entity_codec: "\<not> en_mount_valid e \<and> en_mount e = replicate COOP_MOUNT_BYTES 0 \<and> en_pending e = [] \<and> en_visible e = [] \<Longrightarrow>
    parses load_entity e (save_entity e)"
  unfolding parses_def
proof (intro allI impI)
  fix pre post :: "u8 list" and lim
  assume e: "\<not> en_mount_valid e \<and> en_mount e = replicate COOP_MOUNT_BYTES 0 \<and> en_pending e = [] \<and> en_visible e = []"
  let ?p = "pre @ save_entity e @ post"
  note w = words_read [OF _ refl, of ?p pre "[en_id e, en_kind e, en_slot e, en_type e, en_owner e, en_target e, en_flags e]" post]
  show "load_entity ?p lim (length pre) = Some (e, length pre + length (save_entity e))"
    using w e by (cases e) (simp add: load_entity_def save_entity_def upt_rec ENTITY_BYTES_def)
qed

lemma source_codec: "parses load_source s (save_source s)"
  unfolding parses_def
proof (intro allI impI)
  fix pre post :: "u8 list" and lim
  let ?p = "pre @ save_source s @ post"
  note w = words_read [OF _ refl, of ?p pre "[ys_level s, ys_layer s, ys_x s, ys_y s, ys_tile s, ys_uses s]" post]
  show "load_source ?p lim (length pre) = Some (s, length pre + length (save_source s))"
    using w by (cases s) (simp add: load_source_def save_source_def upt_rec)
qed

lemma egg_codec: "parses load_egg s (save_egg s)"
  unfolding parses_def
proof (intro allI impI)
  fix pre post :: "u8 list" and lim
  let ?p = "pre @ save_egg s @ post"
  note w = words_read [OF _ refl, of ?p pre "[pe_level s, pe_x s, pe_y s, pe_load_index s, pe_uses s, pe_egg s]" post]
  show "load_egg ?p lim (length pre) = Some (s, length pre + length (save_egg s))"
    using w by (cases s) (simp add: load_egg_def save_egg_def upt_rec)
qed

definition bare_entity :: "CoopEntity \<Rightarrow> CoopEntity" where
  "bare_entity e = e\<lparr>en_mount_valid := False, en_mount := replicate COOP_MOUNT_BYTES 0, en_pending := [], en_visible := []\<rparr>"

interpretation entities: item_codec save_entity load_entity
  "\<lambda>e. \<not> en_mount_valid e \<and> en_mount e = replicate COOP_MOUNT_BYTES 0 \<and> en_pending e = [] \<and> en_visible e = []"
  by unfold_locales (rule entity_codec)

interpretation sources: item_codec save_source load_source "\<lambda>s. True"
  by unfold_locales (rule source_codec)

interpretation eggs: item_codec save_egg load_egg "\<lambda>s. True"
  by unfold_locales (rule egg_codec)

section \<open>Items with pictures\<close>

lemma small_count: "n \<le> 22 \<Longrightarrow> unat (of_nat n :: u32) = n"
  by (rule unat_of_nat_u32) (simp add: UINT32_MAX_def)

text \<open>Two lists of pieces behind a head.\<close>

lemma two_lists:
  assumes "\<forall>v \<in> set vs. piece_ok v" "\<forall>v \<in> set ws. piece_ok v"
    and "p = pre @ concat (map save_piece vs) @ concat (map save_piece ws) @ post" "at = length pre"
    and "at + length vs * PIECE_BYTES + length ws * PIECE_BYTES \<le> lim"
  shows "read_each (length vs) load_piece p lim at = Some (vs, at + length vs * PIECE_BYTES)"
    and "read_each (length ws) load_piece p lim (at + length vs * PIECE_BYTES) =
      Some (ws, at + length vs * PIECE_BYTES + length ws * PIECE_BYTES)"
proof -
  show "read_each (length vs) load_piece p lim at = Some (vs, at + length vs * PIECE_BYTES)"
    using parsesD [OF pieces.each [OF assms(1)] assms(3,4), of lim] assms(5) by simp
  show "read_each (length ws) load_piece p lim (at + length vs * PIECE_BYTES) =
      Some (ws, at + length vs * PIECE_BYTES + length ws * PIECE_BYTES)"
    using parsesD [OF pieces.each [OF assms(2)], of p "pre @ concat (map save_piece vs)" post
        "at + length vs * PIECE_BYTES" lim] assms(3,4,5) by simp
qed

definition fireball_fits :: "CoopFireball \<Rightarrow> bool" where
  "fireball_fits f \<longleftrightarrow> length (f_guest f) = COOP_FIREBALL_BYTES \<and> length (f_pending f) \<le> 1 \<and> length (f_visible f) \<le> 1 \<and>
     (\<forall>v \<in> set (f_pending f @ f_visible f). piece_ok v)"

lemma length_save_fireball: "fireball_fits f \<Longrightarrow>
    length (save_fireball f) = 24 + length (f_pending f) * PIECE_BYTES + length (f_visible f) * PIECE_BYTES"
  by (simp add: save_fireball_def fireball_fits_def COOP_FIREBALL_BYTES_def)

lemma fireball_codec: "fireball_fits f \<Longrightarrow> parses load_fireball f (save_fireball f)"
  unfolding parses_def
proof (intro allI impI)
  fix pre post :: "u8 list" and lim
  assume ok: "fireball_fits f" and lim: "length pre + length (save_fireball f) \<le> lim"
  let ?p = "pre @ save_fireball f @ post" and ?at = "length pre"
  let ?np = "of_nat (length (f_pending f)) :: u32" and ?nv = "of_nat (length (f_visible f)) :: u32"
  let ?h = "pre @ put_words [f_id f] @ f_guest f"
  have g: "length (f_guest f) = 12" using ok by (simp add: fireball_fits_def COOP_FIREBALL_BYTES_def)
  have len: "length (save_fireball f) = 24 + length (f_pending f) * PIECE_BYTES + length (f_visible f) * PIECE_BYTES"
    by (rule length_save_fireball [OF ok])
  have "?p = pre @ put_words [f_id f] @ (f_guest f @ put_words [?np, ?nv] @ concat (map save_piece (f_pending f)) @
      concat (map save_piece (f_visible f)) @ post)" by (simp add: save_fireball_def)
  from words_read [OF this refl] have w0: "get32 ?p ?at = f_id f" by (simp add: upt_rec)
  have "?p = ?h @ put_words [?np, ?nv] @ (concat (map save_piece (f_pending f)) @
      concat (map save_piece (f_visible f)) @ post)" by (simp add: save_fireball_def)
  moreover have "?at + 16 = length ?h" using g by simp
  ultimately have w1: "get32 ?p (?at + 16) = ?np" "get32 ?p (?at + 20) = ?nv"
    using words_read [of ?p ?h "[?np, ?nv]" _ "?at + 16"] by (simp_all add: upt_rec add.commute)
  have n: "unat ?np = length (f_pending f)" "unat ?nv = length (f_visible f)"
    using ok by (simp_all add: fireball_fits_def small_count)
  have "?p = (?h @ put_words [?np, ?nv]) @ concat (map save_piece (f_pending f)) @ concat (map save_piece (f_visible f)) @ post"
    by (simp add: save_fireball_def)
  from two_lists [OF _ _ this, of "?at + 24" lim] have l:
    "read_each (length (f_pending f)) load_piece ?p lim (?at + 24) = Some (f_pending f, ?at + 24 + length (f_pending f) * PIECE_BYTES)"
    "read_each (length (f_visible f)) load_piece ?p lim (?at + 24 + length (f_pending f) * PIECE_BYTES) =
      Some (f_visible f, ?at + 24 + length (f_pending f) * PIECE_BYTES + length (f_visible f) * PIECE_BYTES)"
    using ok g lim len by (simp_all add: fireball_fits_def)
  have "take COOP_FIREBALL_BYTES (drop (?at + 4) ?p) = f_guest f"
    using g by (simp add: save_fireball_def COOP_FIREBALL_BYTES_def)
  then show "load_fireball ?p lim ?at = Some (f, ?at + length (save_fireball f))"
    unfolding load_fireball_def w0 w1 n Let_def l len
    using ok lim len by (simp add: l fireball_fits_def)
qed

interpretation fireballs: item_codec save_fireball load_fireball fireball_fits
  by unfold_locales (rule fireball_codec)

definition actor_fits :: "CoopActor \<Rightarrow> bool" where
  "actor_fits a \<longleftrightarrow> length (ac_guest a) = COOP_GUEST_BYTES \<and> length (ac_pending a) \<le> COOP_BODY_PIECES \<and>
     length (ac_visible a) \<le> COOP_BODY_PIECES \<and> (\<forall>v \<in> set (ac_pending a @ ac_visible a). piece_ok v) \<and>
     length (ac_fireballs a) = COOP_FIREBALL_SLOTS \<and> (\<forall>f \<in> set (ac_fireballs a). fireball_fits f)"

definition bare_actor :: "CoopActor \<Rightarrow> CoopActor" where
  "bare_actor a = a\<lparr>ac_fireballs := replicate COOP_FIREBALL_SLOTS zero_fireball, ac_stored_mount := 0, ac_stored_mount_color := 0\<rparr>"

lemma bare_actor_simps [simp]: "ac_player (bare_actor a) = ac_player a" "ac_input_seat (bare_actor a) = ac_input_seat a"
  by (simp_all add: bare_actor_def)

lemma length_save_actor: "actor_fits a \<Longrightarrow> length (save_actor a) =
    160 + length (ac_pending a) * PIECE_BYTES + length (ac_visible a) * PIECE_BYTES"
  by (simp add: save_actor_def actor_fits_def guest_bytes)

lemma load_actor_saved:
  assumes "actor_fits a" "coop_player s (ac_player a) \<noteq> None" "version \<noteq> 2"
    and "\<forall>b \<in> set earlier. ac_player a \<noteq> ac_player b \<and> ac_input_seat a \<noteq> ac_input_seat b"
    and "p = pre @ save_actor a @ post" "at = length pre" "at + length (save_actor a) \<le> lim"
  shows "load_actor version s earlier p lim at = Some (bare_actor a, at + length (save_actor a))"
proof -
  let ?np = "of_nat (length (ac_pending a)) :: u32" and ?nv = "of_nat (length (ac_visible a)) :: u32"
  let ?w = "[ac_player a, ac_input_seat a, ?np, ?nv]"
  have g: "length (ac_guest a) = 144" using assms(1) by (simp add: actor_fits_def guest_bytes)
  have len: "length (save_actor a) = 160 + length (ac_pending a) * PIECE_BYTES + length (ac_visible a) * PIECE_BYTES"
    by (rule length_save_actor [OF assms(1)])
  have "p = pre @ put_words ?w @ (ac_guest a @ concat (map save_piece (ac_pending a)) @
      concat (map save_piece (ac_visible a)) @ post)" using assms(5) by (simp add: save_actor_def)
  from words_read [OF this assms(6)]
  have w: "get32 p at = ac_player a" "get32 p (at + 4) = ac_input_seat a" "get32 p (at + 8) = ?np" "get32 p (at + 12) = ?nv"
    by (simp_all add: upt_rec)
  have n: "unat ?np = length (ac_pending a)" "unat ?nv = length (ac_visible a)"
    using assms(1) by (simp_all add: actor_fits_def small_count COOP_BODY_PIECES_def)
  have "p = (pre @ put_words ?w @ ac_guest a) @ concat (map save_piece (ac_pending a)) @
      concat (map save_piece (ac_visible a)) @ post" using assms(5) by (simp add: save_actor_def)
  from two_lists [OF _ _ this, of "at + 160" lim] have l:
    "read_each (length (ac_pending a)) load_piece p lim (at + 160) =
      Some (ac_pending a, at + 160 + length (ac_pending a) * PIECE_BYTES)"
    "read_each (length (ac_visible a)) load_piece p lim (at + 160 + length (ac_pending a) * PIECE_BYTES) =
      Some (ac_visible a, at + 160 + length (ac_pending a) * PIECE_BYTES + length (ac_visible a) * PIECE_BYTES)"
    using assms(1,6,7) g len by (simp_all add: actor_fits_def)
  have "take COOP_GUEST_BYTES (drop (at + ACTOR_HEADER) p) = ac_guest a"
    using g assms(5,6) by (simp add: save_actor_def guest_bytes ACTOR_HEADER_def)
  moreover have at1: "at + ACTOR_HEADER + COOP_GUEST_BYTES = at + 160" by (simp add: ACTOR_HEADER_def guest_bytes)
  moreover have "\<not> (\<exists>b \<in> set earlier. ac_player a = ac_player b \<or> ac_input_seat a = ac_input_seat b)" using assms(4) by blast
  moreover have "\<not> lim - at < ACTOR_HEADER + COOP_GUEST_BYTES"
    using assms(7) len by (simp add: ACTOR_HEADER_def guest_bytes)
  moreover have "\<not> (length (ac_pending a) > COOP_BODY_PIECES \<or> length (ac_visible a) > COOP_BODY_PIECES)"
    using assms(1) by (simp add: actor_fits_def)
  moreover have "zero_actor\<lparr>ac_player := ac_player a, ac_input_seat := ac_input_seat a, ac_guest := ac_guest a,
      ac_pending := ac_pending a, ac_visible := ac_visible a\<rparr> = bare_actor a"
    by (simp add: zero_actor_def bare_actor_def)
  ultimately show ?thesis
    using assms(2,3) unfolding load_actor_def w n Let_def len at1
    by (simp only: l Option.bind.simps prod.case if_False if_True not_False_eq_True) (simp add: add.assoc)
qed

lemma load_actors_saved:
  assumes "version \<noteq> 2"
  shows "\<forall>a \<in> set rest. actor_fits a \<and> coop_player s (ac_player a) \<noteq> None \<Longrightarrow>
     distinct (map ac_player (earlier @ rest)) \<Longrightarrow> distinct (map ac_input_seat (earlier @ rest)) \<Longrightarrow>
     p = pre @ concat (map save_actor rest) @ post \<Longrightarrow> at = length pre \<Longrightarrow>
     at + length (concat (map save_actor rest)) \<le> lim \<Longrightarrow>
     load_actors version s (length rest) (map bare_actor earlier) p lim at =
       Some (map bare_actor (earlier @ rest), at + length (concat (map save_actor rest)))"
proof (induction rest arbitrary: earlier pre at)
  case (Cons a rest)
  have "load_actor version s (map bare_actor earlier) p lim at = Some (bare_actor a, at + length (save_actor a))"
    by (rule load_actor_saved [OF _ _ assms, of a s _ p pre "concat (map save_actor rest) @ post"])
      (use Cons.prems in auto)
  moreover have "load_actors version s (length rest) (map bare_actor (earlier @ [a])) p lim (at + length (save_actor a)) =
      Some (map bare_actor ((earlier @ [a]) @ rest), at + length (save_actor a) + length (concat (map save_actor rest)))"
    by (rule Cons.IH [of "earlier @ [a]" "pre @ save_actor a"]) (use Cons.prems in auto)
  ultimately show ?case by simp
qed simp


section \<open>The entity table and the mounts\<close>

definition mount_fits :: "CoopEntity \<Rightarrow> bool" where
  "mount_fits e \<longleftrightarrow> (if en_mount_valid e
     then length (en_mount e) = COOP_MOUNT_BYTES \<and> length (en_pending e) \<le> COOP_MOUNT_PIECES \<and>
       length (en_visible e) \<le> COOP_MOUNT_PIECES \<and> (\<forall>v \<in> set (en_pending e @ en_visible e). piece_ok v)
     else bare_entity e = e)"

lemma save_bare_entity [simp]: "save_entity (bare_entity e) = save_entity e" "en_id (bare_entity e) = en_id e"
    "\<not> en_mount_valid (bare_entity e)"
  by (simp_all add: save_entity_def bare_entity_def)

lemma length_entities [simp]: "length (concat (map save_entity es)) = length es * 28"
  by (induction es) (simp_all add: save_entity_def)

lemma entities_parse: "parses (read_each (length es) load_entity) (map bare_entity es) (concat (map save_entity es))"
proof -
  have "map save_entity (map bare_entity es) = map save_entity es" by simp
  moreover have "\<forall>e \<in> set (map bare_entity es). \<not> en_mount_valid e \<and> en_mount e = replicate COOP_MOUNT_BYTES 0 \<and>
      en_pending e = [] \<and> en_visible e = []" by (simp add: bare_entity_def)
  ultimately show ?thesis using entities.each [of "map bare_entity es"] by (simp only: length_map)
qed

lemma load_entities_saved:
  assumes "p = pre @ save_entities m @ post" "at = length pre" "at + length (save_entities m) + FOCUS_BYTES \<le> lim"
    and "length (m_entities m) \<le> 22" "\<forall>n. alloc n"
  shows "load_entities alloc 8 m0 p lim at = Some (m0\<lparr>m_entities := map bare_entity (m_entities m),
      m_entity_capacity := length (m_entities m), m_next_entity := m_next_entity m, m_level := m_level m\<rparr>,
    at + length (save_entities m))"
proof -
  let ?n = "of_nat (length (m_entities m)) :: u32"
  have n: "unat ?n = length (m_entities m)" by (rule small_count [OF assms(4)])
  have len: "length (save_entities m) = 16 + length (m_entities m) * 28"
    by (simp add: save_entities_def tag_words)
  have p: "p = pre @ put_words [0x31544E45, ?n, m_next_entity m, m_level m] @ (concat (map save_entity (m_entities m)) @ post)"
    using assms(1) by (simp add: save_entities_def tag_words put_words_def)
  from words_read [OF p assms(2)]
  have w: "get32 p (at + 4) = ?n" "get32 p (at + 8) = m_next_entity m" "get32 p (at + 12) = m_level m"
    by (simp_all add: upt_rec)
  have t: "has_tag p at ''ENT1''"
    by (rule has_tag_here [OF _ assms(2), where post = "put_words [?n, m_next_entity m, m_level m] @ concat (map save_entity (m_entities m)) @ post"])
      (use assms(1) in \<open>simp_all add: save_entities_def\<close>)
  have p2: "p = (pre @ put_words [0x31544E45, ?n, m_next_entity m, m_level m]) @ concat (map save_entity (m_entities m)) @ post"
    using p by simp
  have r: "read_each (length (m_entities m)) load_entity p lim (at + 16) =
      Some (map bare_entity (m_entities m), at + 16 + length (m_entities m) * 28)"
    using parsesD [OF entities_parse p2, of "at + 16" lim] assms(2,3) len by simp
  have "\<not> lim - (at + 16) < FOCUS_BYTES" "length (m_entities m) \<le> (lim - (at + 16) - FOCUS_BYTES) div 28"
    "\<not> lim - at < 16"
    using assms(3) len by (simp_all add: less_eq_div_iff_mult_less_eq)
  then show ?thesis
    using r t assms(4,5) unfolding load_entities_def w n Let_def ENTITY_HEADER_def ENTITY_BYTES_def
    by (simp add: len add.assoc)
qed

lemma length_focus [simp]: "length (save_focus m) = 32"
  by (simp add: save_focus_def tag_words)

lemma bool_word_simps [simp]: "bool_word b \<noteq> 0 \<longleftrightarrow> b" "bool_word b = 0 \<longleftrightarrow> \<not> b" "\<not> bool_word b > 1" "bool_word b \<le> 1"
  by (simp_all add: bool_word_def)

lemma load_focus_saved:
  assumes "p = pre @ save_focus m @ post" "at = length pre" "at + length (save_focus m) \<le> lim"
    and "unat (m_focus_count m) \<le> length (m_actors m0)"
    and "coordinate (m_focus_x m)" "coordinate (m_focus_y m)" "coordinate (m_focus_center_x m)"
      "coordinate (m_focus_center_y m)"
  shows "load_focus 8 m0 p lim at = Some (m0\<lparr>m_focus_x := m_focus_x m, m_focus_y := m_focus_y m,
      m_focus_center_x := m_focus_center_x m, m_focus_center_y := m_focus_center_y m,
      m_focus_count := m_focus_count m, m_focus_initialized := m_focus_initialized m,
      m_focus_hold := m_focus_hold m\<rparr>, at + length (save_focus m))"
proof -
  have p: "p = pre @ put_words [0x314D4143, m_focus_x m, m_focus_y m, m_focus_center_x m, m_focus_center_y m,
     m_focus_count m, bool_word (m_focus_initialized m), bool_word (m_focus_hold m)] @ post"
    using assms(1) by (simp add: save_focus_def tag_words put_words_def)
  from words_read [OF p assms(2)]
  have w: "get32 p (at + 4) = m_focus_x m" "get32 p (at + 8) = m_focus_y m" "get32 p (at + 12) = m_focus_center_x m"
    "get32 p (at + 16) = m_focus_center_y m" "get32 p (at + 20) = m_focus_count m"
    "get32 p (at + 24) = bool_word (m_focus_initialized m)" "get32 p (at + 28) = bool_word (m_focus_hold m)"
    by (simp_all add: upt_rec)
  have "has_tag p at ''CAM1''"
    by (rule has_tag_here [OF _ assms(2)]) (use assms(1) in \<open>simp_all add: save_focus_def\<close>)
  then show ?thesis
    using assms(3-8) unfolding load_focus_def w Let_def FOCUS_BYTES_def by simp
qed


lemma find_index_here: "P x \<Longrightarrow> \<forall>y \<in> set xs. \<not> P y \<Longrightarrow> find_index P (xs @ x # ys) = Some (length xs)"
  by (induction xs) simp_all

lemma length_save_mount: "mount_fits e \<Longrightarrow> en_mount_valid e \<Longrightarrow> length (save_mount e) =
    12 + COOP_MOUNT_BYTES + length (en_pending e) * PIECE_BYTES + length (en_visible e) * PIECE_BYTES"
  by (simp add: save_mount_def mount_fits_def)

lemma load_mount_saved:
  assumes "mount_fits e" "en_mount_valid e" "en_id e \<notin> en_id ` set front"
    and "p = pre @ save_mount e @ post" "at = length pre" "at + length (save_mount e) \<le> lim"
  shows "load_mount (front @ bare_entity e # es) p lim at = Some (front @ e # es, at + length (save_mount e))"
proof -
  let ?np = "of_nat (length (en_pending e)) :: u32" and ?nv = "of_nat (length (en_visible e)) :: u32"
  let ?w = "[en_id e, ?np, ?nv]" and ?at1 = "at + 12 + COOP_MOUNT_BYTES"
  note len = length_save_mount [OF assms(1,2)]
  have g: "length (en_mount e) = COOP_MOUNT_BYTES" and pieces: "\<forall>v \<in> set (en_pending e @ en_visible e). piece_ok v"
    and few: "length (en_pending e) \<le> COOP_MOUNT_PIECES" "length (en_visible e) \<le> COOP_MOUNT_PIECES"
    using assms(1,2) by (simp_all add: mount_fits_def)
  have "p = pre @ put_words ?w @ (en_mount e @ concat (map save_piece (en_pending e)) @
      concat (map save_piece (en_visible e)) @ post)" using assms(4) by (simp add: save_mount_def)
  from words_read [OF this assms(5)]
  have w: "get32 p at = en_id e" "get32 p (at + 4) = ?np" "get32 p (at + 8) = ?nv" by (simp_all add: upt_rec)
  have n: "unat ?np = length (en_pending e)" "unat ?nv = length (en_visible e)"
    using few by (simp_all add: small_count COOP_MOUNT_PIECES_def)
  have p2: "p = (pre @ put_words ?w @ en_mount e) @ concat (map save_piece (en_pending e)) @
      concat (map save_piece (en_visible e)) @ post" using assms(4) by (simp add: save_mount_def)
  have l: "read_each (length (en_pending e)) load_piece p lim ?at1 =
      Some (en_pending e, ?at1 + length (en_pending e) * PIECE_BYTES)"
    "read_each (length (en_visible e)) load_piece p lim (?at1 + length (en_pending e) * PIECE_BYTES) =
      Some (en_visible e, ?at1 + length (en_pending e) * PIECE_BYTES + length (en_visible e) * PIECE_BYTES)"
    by (rule two_lists [OF _ _ p2]; use pieces assms(5,6) g len in simp)+
  have "take COOP_MOUNT_BYTES (drop (at + 12) p) = en_mount e"
    using g assms(4,5) by (simp add: save_mount_def)
  moreover have "find_index (\<lambda>x. en_id x = en_id e) (front @ bare_entity e # es) = Some (length front)"
    by (rule find_index_here) (use assms(3) in \<open>simp_all, metis imageI\<close>)
  moreover have "(bare_entity e)\<lparr>en_mount_valid := True, en_pending := en_pending e, en_visible := en_visible e,
      en_mount := en_mount e\<rparr> = e"
    using assms(2) by (simp add: bare_entity_def)
  moreover have "\<not> lim - at < 12 + COOP_MOUNT_BYTES" using assms(6) len by simp
  moreover have "\<not> (False \<or> length (en_pending e) > COOP_MOUNT_PIECES \<or> length (en_visible e) > COOP_MOUNT_PIECES)"
    using few by simp
  ultimately show ?thesis
    unfolding load_mount_def w n Let_def len
    by (simp only: l Option.bind.simps prod.case if_False if_True option.case save_bare_entity nth_append_length
        list_update_length) (simp add: add.assoc)
qed

lemma load_mount_list_saved:
  "\<forall>e \<in> set rest. mount_fits e \<Longrightarrow> distinct (map en_id (front @ rest)) \<Longrightarrow>
     p = pre @ concat (map save_mount (filter en_mount_valid rest)) @ post \<Longrightarrow> at = length pre \<Longrightarrow>
     at + length (concat (map save_mount (filter en_mount_valid rest))) \<le> lim \<Longrightarrow>
     load_mount_list (length (filter en_mount_valid rest)) (front @ map bare_entity rest) p lim at =
       Some (front @ rest, at + length (concat (map save_mount (filter en_mount_valid rest))))"
proof (induction rest arbitrary: front pre at)
  case (Cons e rest)
  show ?case
  proof (cases "en_mount_valid e")
    case False
    then have "bare_entity e = e" using Cons.prems(1) by (simp add: mount_fits_def)
    with False Cons.IH [of "front @ [e]" pre at] Cons.prems show ?thesis by simp
  next
    case True
    have 1: "load_mount (front @ bare_entity e # map bare_entity rest) p lim at =
        Some (front @ e # map bare_entity rest, at + length (save_mount e))"
      by (rule load_mount_saved [of e "front" p pre "concat (map save_mount (filter en_mount_valid rest)) @ post"])
        (use Cons.prems True in auto)
    have "load_mount_list (length (filter en_mount_valid rest)) ((front @ [e]) @ map bare_entity rest) p lim (at + length (save_mount e)) =
        Some ((front @ [e]) @ rest, at + length (save_mount e) + length (concat (map save_mount (filter en_mount_valid rest))))"
      by (rule Cons.IH [of "front @ [e]" "pre @ save_mount e"]) (use Cons.prems True in auto)
    with 1 True show ?thesis by (simp add: add.assoc)
  qed
qed simp

lemma length_sources [simp]: "length (concat (map save_source ss)) = length ss * 24"
  by (induction ss) (simp_all add: save_source_def)

lemma length_eggs [simp]: "length (concat (map save_egg ss)) = length ss * 24"
  by (induction ss) (simp_all add: save_egg_def)


definition machine_mounts :: "CoopMachine \<Rightarrow> CoopEntity list" where
  "machine_mounts m = filter en_mount_valid (m_entities m)"

lemma load_mounts_saved:
  assumes "p = pre @ save_mounts m @ post" "at = length pre" "at + length (save_mounts m) \<le> lim"
    and "\<forall>e \<in> set (m_entities m). mount_fits e" "distinct (map en_id (m_entities m))" "length (machine_mounts m) \<le> 12"
    and "m_entities m0 = map bare_entity (m_entities m)" "length (m_sources m) \<le> UINT32_MAX" "\<forall>n. alloc n"
  shows "load_mounts alloc 8 m0 p lim at = Some (m0\<lparr>m_mounts_initialized := m_mounts_initialized m,
      m_entities := m_entities m, m_sources := m_sources m, m_source_capacity := length (m_sources m)\<rparr>,
    at + length (save_mounts m))"
proof -
  let ?es = "machine_mounts m" and ?ss = "m_sources m"
  let ?ms = "concat (map save_mount ?es)" and ?xs = "concat (map save_source ?ss)"
  let ?w = "[0x31485359, of_nat (length ?es), of_nat (length ?ss), bool_word (m_mounts_initialized m)] :: u32 list"
  have saved: "save_mounts m = put_words ?w @ ?ms @ ?xs"
    by (simp add: save_mounts_def tag_words machine_mounts_def put_words_def)
  have len: "length (save_mounts m) = 16 + length ?ms + length ?ss * 24" unfolding saved by simp
  have p: "p = pre @ put_words ?w @ (?ms @ ?xs @ post)" unfolding assms(1) saved by simp
  from words_read [OF p assms(2)]
  have w: "get32 p (at + 4) = of_nat (length ?es)" "get32 p (at + 8) = of_nat (length ?ss)"
    "get32 p (at + 12) = bool_word (m_mounts_initialized m)"
    by (simp_all add: upt_rec)
  have n: "unat (of_nat (length ?es) :: u32) = length ?es" "unat (of_nat (length ?ss) :: u32) = length ?ss"
    using assms(6,8) by (simp_all add: small_count unat_of_nat_u32)
  have t: "has_tag p at ''YSH1''"
    by (rule has_tag_here [OF _ assms(2)]) (use assms(1) in \<open>simp_all add: save_mounts_def\<close>)
  have 1: "load_mount_list (length ?es) (map bare_entity (m_entities m)) p lim (at + 16) =
      Some (m_entities m, at + 16 + length ?ms)"
    using load_mount_list_saved [where front = "[]" and rest = "m_entities m" and p = p and pre = "pre @ put_words ?w"
        and post = "?xs @ post" and at = "at + 16" and lim = lim] assms(2-5) p len
    by (simp add: machine_mounts_def)
  have p2: "p = (pre @ put_words ?w @ ?ms) @ ?xs @ post" using p by simp
  have 2: "read_each (length ?ss) load_source p lim (at + 16 + length ?ms) =
      Some (?ss, at + 16 + length ?ms + length ?ss * 24)"
    using parsesD [OF sources.each [of ?ss] p2, of "at + 16 + length ?ms" lim] assms(2,3) len by simp
  have c: "\<not> lim - at < 16" "\<not> length ?es > 12" "\<not> length ?es > length (m_entities m)"
    "\<not> length ?ss > (lim - (at + 16 + length ?ms)) div 24" "\<not> length ?ss > SIZE_MAX div SIZEOF_SOURCE"
    using assms(3,6,8) len
    by (simp_all add: less_eq_div_iff_mult_less_eq machine_mounts_def SIZE_MAX_def SIZEOF_SOURCE_def UINT32_MAX_def
        linorder_not_less)
  have "\<not> (8 :: nat) < 5" by simp
  then show ?thesis
    using t unfolding load_mounts_def w n Let_def assms(7) length_map
    by (simp only: 1 2 Option.bind.simps prod.case if_False if_True c t bool_word_simps assms(9) simp_thms)
      (simp add: len add.assoc)
qed

section \<open>Fireballs, stored mounts and eggs\<close>

lemma fireballs_saved_length: "\<forall>f \<in> set fs. fireball_fits f \<Longrightarrow> 24 * length fs \<le> length (concat (map save_fireball fs))"
  by (induction fs) (simp_all add: length_save_fireball)

lemma load_actor_fireballs_saved:
  "\<forall>a \<in> set as. actor_fits a \<Longrightarrow> map ac_player bs = map ac_player as \<Longrightarrow>
     p = pre @ concat (map save_actor_fireballs as) @ post \<Longrightarrow> at = length pre \<Longrightarrow>
     at + length (concat (map save_actor_fireballs as)) \<le> lim \<Longrightarrow>
     load_actor_fireballs bs p lim at = Some (map2 (\<lambda>b a. b\<lparr>ac_fireballs := ac_fireballs a\<rparr>) bs as,
       at + length (concat (map save_actor_fireballs as)))"
proof (induction as arbitrary: bs pre at)
  case (Cons a as)
  obtain b bs' where bs: "bs = b # bs'" "ac_player b = ac_player a" "map ac_player bs' = map ac_player as"
    using Cons.prems(2) by auto
  let ?fs = "concat (map save_fireball (ac_fireballs a))"
  have fits: "\<forall>f \<in> set (ac_fireballs a). fireball_fits f" "length (ac_fireballs a) = COOP_FIREBALL_SLOTS"
    using Cons.prems(1) by (simp_all add: actor_fits_def)
  have p: "p = pre @ put_words [ac_player a] @ (?fs @ concat (map save_actor_fireballs as) @ post)"
    using Cons.prems(3) by (simp add: save_actor_fireballs_def [of a])
  from words_read [OF p Cons.prems(4)] have w: "get32 p at = ac_player a" by (simp add: upt_rec)
  have len: "length (save_actor_fireballs a) = 4 + length ?fs" by (simp add: save_actor_fireballs_def [of a])
  have p2: "p = (pre @ put_words [ac_player a]) @ ?fs @ concat (map save_actor_fireballs as) @ post" using p by simp
  have 1: "read_each COOP_FIREBALL_SLOTS load_fireball p lim (at + 4) = Some (ac_fireballs a, at + 4 + length ?fs)"
    using parsesD [OF fireballs.each [OF fits(1)] p2, of "at + 4" lim] Cons.prems(4,5) len fits(2) by simp
  have 2: "load_actor_fireballs bs' p lim (at + 4 + length ?fs) = Some (map2 (\<lambda>b a. b\<lparr>ac_fireballs := ac_fireballs a\<rparr>) bs' as,
       at + 4 + length ?fs + length (concat (map save_actor_fireballs as)))"
    by (rule Cons.IH [of bs' "pre @ save_actor_fireballs a"])
      (use Cons.prems bs(3) len in \<open>simp_all add: save_actor_fireballs_def [of a]\<close>)
  have "\<not> lim - at < 4" using Cons.prems(5) len by simp
  then show ?case using bs 1 2 w len by (simp add: add.assoc)
qed simp

lemma load_fireballs_saved:
  assumes "p = pre @ save_fireballs m @ post" "at = length pre" "at + length (save_fireballs m) \<le> lim"
    and "\<forall>a \<in> set (m_actors m). actor_fits a" "map ac_player (m_actors m0) = map ac_player (m_actors m)"
    and "length (m_actors m) \<le> UINT32_MAX"
  shows "load_fireballs 8 m0 p lim at = Some (m0\<lparr>m_fireballs_initialized := m_fireballs_initialized m,
      m_actors := map2 (\<lambda>b a. b\<lparr>ac_fireballs := ac_fireballs a\<rparr>) (m_actors m0) (m_actors m)\<rparr>,
    at + length (save_fireballs m))"
proof -
  let ?fs = "concat (map save_actor_fireballs (m_actors m))"
  let ?w = "[0x31544A50, of_nat (length (m_actors m)), of_nat COOP_FIREBALL_SLOTS, bool_word (m_fireballs_initialized m)] :: u32 list"
  have saved: "save_fireballs m = put_words ?w @ ?fs" by (simp add: save_fireballs_def tag_words put_words_def)
  have p: "p = pre @ put_words ?w @ (?fs @ post)" unfolding assms(1) saved by simp
  from words_read [OF p assms(2)]
  have w: "get32 p (at + 4) = of_nat (length (m_actors m))" "get32 p (at + 8) = of_nat COOP_FIREBALL_SLOTS"
    "get32 p (at + 12) = bool_word (m_fireballs_initialized m)"
    by (simp_all add: upt_rec)
  have n: "unat (of_nat (length (m_actors m)) :: u32) = length (m_actors m)"
    "unat (of_nat COOP_FIREBALL_SLOTS :: u32) = COOP_FIREBALL_SLOTS"
    using assms(6) by (simp_all add: unat_of_nat_u32 small_count COOP_FIREBALL_SLOTS_def)
  have t: "has_tag p at ''PJT1''"
    by (rule has_tag_here [OF _ assms(2)]) (use assms(1) in \<open>simp_all add: save_fireballs_def\<close>)
  have l: "length (m_actors m0) = length (m_actors m)" by (rule map_eq_imp_length_eq [OF assms(5)])
  have "load_actor_fireballs (m_actors m0) p lim (at + 16) =
      Some (map2 (\<lambda>b a. b\<lparr>ac_fireballs := ac_fireballs a\<rparr>) (m_actors m0) (m_actors m), at + 16 + length ?fs)"
    by (rule load_actor_fireballs_saved [where pre = "pre @ put_words ?w" and post = post])
      (use assms saved p in simp_all)
  then show ?thesis
    using t l assms(3) unfolding load_fireballs_def w n saved by simp
qed

lemma load_stored_saved:
  "map ac_player bs = map ac_player as \<Longrightarrow> p = pre @ concat (map save_stored as) @ post \<Longrightarrow> at = length pre \<Longrightarrow>
     load_stored bs p lim at = Some (map2 (\<lambda>b a. b\<lparr>ac_stored_mount := ac_stored_mount a,
         ac_stored_mount_color := ac_stored_mount_color a\<rparr>) bs as, at + length (concat (map save_stored as)))"
proof (induction as arbitrary: bs pre at)
  case (Cons a as)
  obtain b bs' where bs: "bs = b # bs'" "ac_player b = ac_player a" "map ac_player bs' = map ac_player as"
    using Cons.prems(1) by auto
  have "p = pre @ put_words [ac_player a, ac_stored_mount a, ac_stored_mount_color a] @ (concat (map save_stored as) @ post)"
    using Cons.prems(2) by (simp add: save_stored_def [of a])
  from words_read [OF this Cons.prems(3)]
  have w: "get32 p at = ac_player a" "get32 p (at + 4) = ac_stored_mount a" "get32 p (at + 8) = ac_stored_mount_color a"
    by (simp_all add: upt_rec)
  have len: "length (save_stored a) = 12" by (simp add: save_stored_def [of a])
  have "load_stored bs' p lim (at + 12) = Some (map2 (\<lambda>b a. b\<lparr>ac_stored_mount := ac_stored_mount a,
         ac_stored_mount_color := ac_stored_mount_color a\<rparr>) bs' as, at + 12 + length (concat (map save_stored as)))"
    by (rule Cons.IH [of bs' "pre @ save_stored a"]) (use Cons.prems bs(3) len in simp_all)
  then show ?case using bs w len by (simp add: add.assoc)
qed simp

lemma length_stored [simp]: "length (concat (map save_stored as)) = length as * 12"
  by (induction as) (simp_all add: save_stored_def)

lemma load_metadata_saved:
  assumes "p = pre @ save_metadata m @ post" "at = length pre" "at + length (save_metadata m) \<le> lim"
    and "map ac_player (m_actors m0) = map ac_player (m_actors m)" "length (m_actors m) \<le> UINT32_MAX"
  shows "load_metadata 8 m0 p lim at = Some (m0\<lparr>m_entrance_prepared := m_entrance_prepared m,
      m_actors := map2 (\<lambda>b a. b\<lparr>ac_stored_mount := ac_stored_mount a, ac_stored_mount_color := ac_stored_mount_color a\<rparr>)
        (m_actors m0) (m_actors m)\<rparr>, at + length (save_metadata m))"
proof -
  let ?w = "[0x3152544D, of_nat (length (m_actors m)), bool_word (m_entrance_prepared m), 0] :: u32 list"
  let ?fs = "concat (map save_stored (m_actors m))"
  have saved: "save_metadata m = put_words ?w @ ?fs" by (simp add: save_metadata_def tag_words put_words_def)
  have len: "length (save_metadata m) = 16 + length (m_actors m) * 12" unfolding saved by simp
  have p: "p = pre @ put_words ?w @ (?fs @ post)" unfolding assms(1) saved by simp
  from words_read [OF p assms(2)]
  have w: "get32 p (at + 4) = of_nat (length (m_actors m))" "get32 p (at + 8) = bool_word (m_entrance_prepared m)"
    "get32 p (at + 12) = 0"
    by (simp_all add: upt_rec)
  have n: "unat (of_nat (length (m_actors m)) :: u32) = length (m_actors m)"
    using assms(5) by (simp add: unat_of_nat_u32)
  have t: "has_tag p at ''MTR1''"
    by (rule has_tag_here [OF _ assms(2)]) (use assms(1) in \<open>simp_all add: save_metadata_def\<close>)
  have l: "length (m_actors m0) = length (m_actors m)" by (rule map_eq_imp_length_eq [OF assms(4)])
  have 1: "load_stored (m_actors m0) p lim (at + 16) = Some (map2 (\<lambda>b a. b\<lparr>ac_stored_mount := ac_stored_mount a,
         ac_stored_mount_color := ac_stored_mount_color a\<rparr>) (m_actors m0) (m_actors m), at + 16 + length ?fs)"
    by (rule load_stored_saved [where pre = "pre @ put_words ?w" and post = post])
      (use assms saved p in simp_all)
  have "\<not> length (m_actors m) > (lim - (at + 16)) div 12" "\<not> lim - at < 16"
    using assms(3) len by (simp_all add: less_eq_div_iff_mult_less_eq)
  then show ?thesis
    using t l 1 unfolding load_metadata_def w n len by (simp add: add.assoc)
qed

lemma load_eggs_saved:
  assumes "p = pre @ save_eggs m @ post" "at = length pre" "at + length (save_eggs m) \<le> lim"
    and "length (m_placed_eggs m) \<le> UINT32_MAX" "\<forall>n. alloc n"
  shows "load_eggs alloc 8 m0 p lim at = Some (m0\<lparr>m_placed_eggs := m_placed_eggs m,
      m_placed_capacity := length (m_placed_eggs m)\<rparr>, at + length (save_eggs m))"
proof -
  let ?ss = "m_placed_eggs m"
  let ?w = "[0x31474550, of_nat (length ?ss)] :: u32 list" and ?xs = "concat (map save_egg ?ss)"
  have saved: "save_eggs m = put_words ?w @ ?xs" by (simp add: save_eggs_def tag_words put_words_def)
  have len: "length (save_eggs m) = 8 + length ?ss * 24" unfolding saved by simp
  have p: "p = pre @ put_words ?w @ (?xs @ post)" unfolding assms(1) saved by simp
  from words_read [OF p assms(2)] have w: "get32 p (at + 4) = of_nat (length ?ss)" by (simp add: upt_rec)
  have n: "unat (of_nat (length ?ss) :: u32) = length ?ss" using assms(4) by (simp add: unat_of_nat_u32)
  have t: "has_tag p at ''PEG1''"
    by (rule has_tag_here [OF _ assms(2)]) (use assms(1) in \<open>simp_all add: save_eggs_def\<close>)
  have p2: "p = (pre @ put_words ?w) @ ?xs @ post" using p by simp
  have 1: "read_each (length ?ss) load_egg p lim (at + 8) = Some (?ss, at + 8 + length ?ss * 24)"
    using parsesD [OF eggs.each [of ?ss] p2, of "at + 8" lim] assms(2,3) len by simp
  have "\<not> (length ?ss > (lim - (at + 8)) div 24 \<or> length ?ss > SIZE_MAX div SIZEOF_SOURCE)" "\<not> lim - at < 8"
    using assms(3,4) len by (simp_all add: less_eq_div_iff_mult_less_eq SIZE_MAX_def SIZEOF_SOURCE_def UINT32_MAX_def)
  then show ?thesis
    using t 1 assms(5) unfolding load_eggs_def w n Let_def len by (simp add: add.assoc)
qed

end
