(* ===== verification/Coop_Snapshot.thy ===== *)
theory Coop_Snapshot
  imports Coop_Codec_Facts
begin

text \<open>
  What a saved machine gives back: the size that is announced is the size that is written, loading
  restores the machine, and a load that fails changes nothing.
\<close>

section \<open>The size\<close>

lemma size_table_Some: "size_table h used each n = Some n' \<Longrightarrow> n' = n + h + used * each"
  by (simp add: size_table_def split: if_splits)

lemma size_each_Some:
  assumes "\<And>x e. x \<in> set xs \<Longrightarrow> f x = Some e \<Longrightarrow> length (enc x) = base + e"
  shows "size_each f xs n = Some n' \<Longrightarrow> n' + length xs * base = n + length (concat (map enc xs))"
  using assms
proof (induction xs arbitrary: n)
  case (Cons x xs)
  from Cons.prems(1) obtain e where e: "f x = Some e" "size_each f xs (n + e) = Some n'"
    by (auto split: option.splits if_splits)
  have "n' + length xs * base = n + e + length (concat (map enc xs))"
    by (rule Cons.IH [OF e(2)]) (use Cons.prems(2) in simp)
  with Cons.prems(2) [of x e] e(1) show ?case by simp
qed simp

lemma size_each_all: "size_each f xs n = Some n' \<Longrightarrow> \<forall>x \<in> set xs. f x \<noteq> None"
  by (induction xs arbitrary: n) (auto split: option.splits if_splits)

text \<open>
  The arrays of the C structures have fixed sizes, and an entity without a mount holds no mount data.
\<close>

definition picture :: "CoopVisualPiece \<Rightarrow> bool" where
  "picture v \<longleftrightarrow> length (v_pixels v) = COOP_PIECE_PIXELS"

definition shaped :: "CoopMachine \<Rightarrow> bool" where
  "shaped m \<longleftrightarrow>
     (\<forall>a \<in> set (m_actors m). length (ac_guest a) = COOP_GUEST_BYTES \<and> length (ac_fireballs a) = COOP_FIREBALL_SLOTS \<and>
        (\<forall>f \<in> set (ac_fireballs a). length (f_guest f) = COOP_FIREBALL_BYTES)) \<and>
     (\<forall>e \<in> set (m_entities m). if en_mount_valid e then length (en_mount e) = COOP_MOUNT_BYTES else bare_entity e = e) \<and>
     (\<forall>v \<in> set (machine_pieces m). picture v)"

text \<open>What holds of a machine in play: its actors are players of the session with seats of their own.\<close>

definition in_play :: "CoopMachine \<Rightarrow> bool" where
  "in_play m \<longleftrightarrow>
     2 \<le> length (players (m_session m)) \<and> m_previous_mode m \<le> 0x29 \<and>
     (\<forall>a \<in> set (m_actors m). coop_player (m_session m) (ac_player a) \<noteq> None) \<and>
     distinct (map ac_player (m_actors m)) \<and> distinct (map ac_input_seat (m_actors m)) \<and>
     coordinate (m_focus_x m) \<and> coordinate (m_focus_y m) \<and> coordinate (m_focus_center_x m) \<and>
     coordinate (m_focus_center_y m) \<and> unat (m_focus_count m) \<le> length (m_actors m)"

lemma machine_size_parts:
  assumes "machine_size m = Some n"
  obtains n1 n2 n3 n4 n5 n6 n7 where "length (m_actors m) = length (players (m_session m))"
    "coop_session_save_size (m_session m) \<noteq> 0" "coop_session_save_size (m_session m) \<le> UINT32_MAX"
    "length (m_actors m) \<le> UINT32_MAX" "length (m_entities m) \<le> UINT32_MAX" "length (m_sources m) \<le> UINT32_MAX"
    "length (m_placed_eggs m) \<le> UINT32_MAX"
    "size_each actor_extra (m_actors m) (HEADER + coop_session_save_size (m_session m) +
       length (m_actors m) * (ACTOR_HEADER + COOP_GUEST_BYTES) + TRAILER) = Some n1"
    "size_table ENTITY_HEADER (length (m_entities m)) ENTITY_BYTES n1 = Some n2"
    "size_table 16 (length (m_sources m)) 24 (n2 + FOCUS_BYTES) = Some n3"
    "size_each mount_extra (machine_mounts m) n3 = Some n4"
    "size_table 16 (length (m_actors m)) (4 + COOP_FIREBALL_SLOTS * 24) n4 = Some n5"
    "size_each fireball_extra (concat (map ac_fireballs (m_actors m))) n5 = Some n6"
    "size_table 16 (length (m_actors m)) 12 n6 = Some n7"
    "size_table 8 (length (m_placed_eggs m)) 24 n7 = Some n"
  using assms
  by (auto simp: machine_size_def Let_def machine_mounts_def Option.bind_eq_Some_conv split: if_splits)

lemma actor_extra_Some: "actor_extra a = Some e \<Longrightarrow> length (ac_guest a) = COOP_GUEST_BYTES \<Longrightarrow>
    length (save_actor a) = 160 + e"
  by (auto simp: actor_extra_def save_actor_def guest_bytes algebra_simps split: if_splits)

lemma mount_extra_Some: "mount_extra e = Some k \<Longrightarrow> length (en_mount e) = COOP_MOUNT_BYTES \<Longrightarrow>
    length (save_mount e) = 0 + k"
  by (auto simp: mount_extra_def save_mount_def algebra_simps split: if_splits)

lemma fireball_extra_Some: "fireball_extra f = Some e \<Longrightarrow> length (f_guest f) = COOP_FIREBALL_BYTES \<Longrightarrow>
    length (save_fireball f) = 24 + e"
  by (auto simp: fireball_extra_def save_fireball_def COOP_FIREBALL_BYTES_def algebra_simps split: if_splits)

lemma length_actor_fireballs: "length (concat (map save_actor_fireballs as)) =
    4 * length as + length (concat (map save_fireball (concat (map ac_fireballs as))))"
  by (induction as) (simp_all add: save_actor_fireballs_def)

lemma slots_count: "\<forall>a \<in> set as. length (ac_fireballs a) = COOP_FIREBALL_SLOTS \<Longrightarrow>
    length (concat (map ac_fireballs as)) = length as * COOP_FIREBALL_SLOTS"
  by (induction as) simp_all

lemma length_header [simp]: "length (save_header m) = HEADER"
  by (simp add: save_header_def tag_words rom_id_def HEADER_def)

lemma saved_size:
  assumes "machine_size m = Some n" "shaped m" "length core = coop_session_save_size (m_session m)"
  shows "n = length (machine_image m core) + TRAILER"
proof -
  obtain n1 n2 n3 n4 n5 n6 n7 where "length (m_actors m) = length (players (m_session m))"
    and s: "size_each actor_extra (m_actors m) (HEADER + coop_session_save_size (m_session m) +
       length (m_actors m) * (ACTOR_HEADER + COOP_GUEST_BYTES) + TRAILER) = Some n1"
    "size_table ENTITY_HEADER (length (m_entities m)) ENTITY_BYTES n1 = Some n2"
    "size_table 16 (length (m_sources m)) 24 (n2 + FOCUS_BYTES) = Some n3"
    "size_each mount_extra (machine_mounts m) n3 = Some n4"
    "size_table 16 (length (m_actors m)) (4 + COOP_FIREBALL_SLOTS * 24) n4 = Some n5"
    "size_each fireball_extra (concat (map ac_fireballs (m_actors m))) n5 = Some n6"
    "size_table 16 (length (m_actors m)) 12 n6 = Some n7"
    "size_table 8 (length (m_placed_eggs m)) 24 n7 = Some n"
    by (rule machine_size_parts [OF assms(1)]) blast
  have sh: "\<forall>a \<in> set (m_actors m). length (ac_guest a) = COOP_GUEST_BYTES"
    "\<forall>a \<in> set (m_actors m). length (ac_fireballs a) = COOP_FIREBALL_SLOTS"
    "\<forall>a \<in> set (m_actors m). \<forall>f \<in> set (ac_fireballs a). length (f_guest f) = COOP_FIREBALL_BYTES"
    "\<forall>e \<in> set (machine_mounts m). length (en_mount e) = COOP_MOUNT_BYTES"
    using assms(2) by (auto simp: shaped_def machine_mounts_def)
  have 1: "n1 + length (m_actors m) * 160 = HEADER + coop_session_save_size (m_session m) +
      length (m_actors m) * (ACTOR_HEADER + COOP_GUEST_BYTES) + TRAILER + length (concat (map save_actor (m_actors m)))"
    by (rule size_each_Some [OF _ s(1)]) (use sh(1) actor_extra_Some in auto)
  have 4: "n4 + length (machine_mounts m) * 0 = n3 + length (concat (map save_mount (machine_mounts m)))"
    by (rule size_each_Some [OF _ s(4)]) (use sh(4) mount_extra_Some in auto)
  have 6: "n6 + length (concat (map ac_fireballs (m_actors m))) * 24 =
      n5 + length (concat (map save_fireball (concat (map ac_fireballs (m_actors m)))))"
    by (rule size_each_Some [OF _ s(6)]) (use sh(3) fireball_extra_Some in auto)
  have len: "length (machine_image m core) = HEADER + length core + length (concat (map save_actor (m_actors m))) +
      (16 + length (m_entities m) * 28) + 32 + (16 + length (concat (map save_mount (machine_mounts m))) +
      length (m_sources m) * 24) + (16 + (4 * length (m_actors m) +
      length (concat (map save_fireball (concat (map ac_fireballs (m_actors m))))))) + (16 + length (m_actors m) * 12) +
      (8 + length (m_placed_eggs m) * 24)"
    unfolding machine_image_def save_entities_def save_mounts_def save_fireballs_def save_metadata_def save_eggs_def
      tag_words machine_mounts_def
    by (simp add: length_actor_fireballs)
  show ?thesis
    using 1 4 6 size_table_Some [OF s(2)] size_table_Some [OF s(3)] size_table_Some [OF s(5)] size_table_Some [OF s(7)]
      size_table_Some [OF s(8)] slots_count [OF sh(2)] assms(3)
    unfolding len by (simp add: ACTOR_HEADER_def guest_bytes ENTITY_HEADER_def ENTITY_BYTES_def FOCUS_BYTES_def
        COOP_FIREBALL_SLOTS_def TRAILER_def)
qed


section \<open>Valid machines\<close>

text \<open>The validity predicate looks only at these parts of a machine.\<close>

lemma entities_valid_cong:
  assumes "m_entities m' = m_entities m" "m_next_entity m' = m_next_entity m" "m_level m' = m_level m"
    "m_actors m' = m_actors m" "m_sources m' = m_sources m" "m_placed_eggs m' = m_placed_eggs m"
    "m_fireballs_initialized m' = m_fireballs_initialized m" "players (m_session m') = players (m_session m)"
  shows "entities_valid m' = entities_valid m"
proof -
  have p: "coop_player (m_session m') i = coop_player (m_session m) i" for i
    by (simp add: coop_player_def assms(8))
  have "entity_ok m' = entity_ok m" by (simp add: fun_eq_iff entity_ok_def assms p cong: option.case_cong)
  moreover have "source_ok m' = source_ok m" by (simp add: fun_eq_iff source_ok_def assms)
  moreover have "egg_ok m' = egg_ok m" by (simp add: fun_eq_iff egg_ok_def assms cong: option.case_cong)
  moreover have "links_ok m' = links_ok m" by (simp add: fun_eq_iff links_ok_def assms)
  moreover have "stored_ok m' = stored_ok m" by (simp add: fun_eq_iff stored_ok_def assms p Let_def cong: option.case_cong)
  moreover have "fireball_ok m' = fireball_ok m" by (simp add: fun_eq_iff fireball_ok_def assms)
  ultimately show ?thesis by (simp add: entities_valid_def assms)
qed

lemma no_earlier_sorted: "no_earlier clash xs \<longleftrightarrow> sorted_wrt (\<lambda>x y. \<not> clash y x) xs"
  by (auto simp: no_earlier_def sorted_wrt_iff_nth_less)

lemma sorted_distinct: "sorted_wrt (\<lambda>x y. f x \<noteq> f y) xs \<longleftrightarrow> distinct (map f xs)"
  by (induction xs) auto

lemma no_earlier_distinct:
  assumes "no_earlier clash xs" "\<And>x y. f x = f y \<Longrightarrow> clash y x"
  shows "distinct (map f xs)"
  unfolding sorted_distinct [symmetric]
  by (rule sorted_wrt_mono_rel [OF _ assms(1) [unfolded no_earlier_sorted]]) (use assms(2) in blast)

lemma no_earlier_filter: "no_earlier clash xs \<Longrightarrow> no_earlier clash (filter P xs)"
  unfolding no_earlier_sorted by (rule sorted_wrt_filter)

lemma mounted_slot: "entity_ok m e \<Longrightarrow> en_mount_valid e \<Longrightarrow> en_kind e = COOP_ENTITY_NORMAL \<and> unat (en_slot e) < 12"
proof -
  assume "entity_ok m e" "en_mount_valid e"
  then have "en_kind e = COOP_ENTITY_NORMAL" "entity_slot_valid (en_kind e) (en_slot e)"
    unfolding entity_ok_def by blast+
  then show ?thesis
    by (simp add: entity_slot_valid_def COOP_ENTITY_NORMAL_def COOP_ENTITY_EXTENDED_def word_less_nat_alt)
qed

lemma few_mounts:
  assumes "entities_valid m"
  shows "length (machine_mounts m) \<le> 12"
proof -
  let ?es = "machine_mounts m"
  have ok: "\<forall>e \<in> set ?es. entity_ok m e \<and> en_mount_valid e"
    using assms by (auto simp: entities_valid_def machine_mounts_def list_all_iff)
  then have slots: "\<forall>e \<in> set ?es. en_kind e = COOP_ENTITY_NORMAL \<and> unat (en_slot e) < 12"
    using mounted_slot by blast
  have "no_earlier same_entity ?es"
    unfolding machine_mounts_def by (rule no_earlier_filter) (use assms in \<open>simp add: entities_valid_def\<close>)
  then have "distinct (map (\<lambda>e. (en_kind e, en_slot e)) ?es)"
    by (rule no_earlier_distinct) (simp add: same_entity_def)
  then have "distinct ?es" "inj_on (\<lambda>e. (en_kind e, en_slot e)) (set ?es)" by (simp_all add: distinct_map)
  then have d: "distinct (map (\<lambda>e. unat (en_slot e)) ?es)"
    using slots by (auto simp: distinct_map inj_on_def word_unat_eq_iff)
  have "set (map (\<lambda>e. unat (en_slot e)) ?es) \<subseteq> {..<12}"
    using slots by auto
  then have "card (set (map (\<lambda>e. unat (en_slot e)) ?es)) \<le> card {..<12::nat}" by (intro card_mono) auto
  with distinct_card [OF d] show ?thesis by simp
qed


section \<open>Loading what was saved\<close>

lemma picture_ok: "list_all piece_valid vs \<Longrightarrow> \<forall>v \<in> set vs. picture v \<Longrightarrow> \<forall>v \<in> set vs. piece_ok v"
  by (simp add: piece_ok_def picture_def list_all_iff)

lemma machine_fits:
  assumes "machine_size m = Some n" "shaped m" "list_all piece_valid (machine_pieces m)"
  shows "\<forall>a \<in> set (m_actors m). actor_fits a" "\<forall>e \<in> set (m_entities m). mount_fits e"
proof -
  obtain n0 n3 n5 n1 n4 n6 where s: "size_each actor_extra (m_actors m) n0 = Some n1"
    "size_each mount_extra (machine_mounts m) n3 = Some n4"
    "size_each fireball_extra (concat (map ac_fireballs (m_actors m))) n5 = Some n6"
    by (rule machine_size_parts [OF assms(1)]) blast
  have ok: "\<forall>v \<in> set (machine_pieces m). piece_ok v"
    by (rule picture_ok [OF assms(3)]) (use assms(2) in \<open>simp add: shaped_def\<close>)
  have f: "fireball_fits f" if "a \<in> set (m_actors m)" "f \<in> set (ac_fireballs a)" for a f
  proof -
    have "fireball_extra f \<noteq> None" using size_each_all [OF s(3)] that by auto
    moreover have "length (f_guest f) = COOP_FIREBALL_BYTES" using assms(2) that by (auto simp: shaped_def)
    moreover have "\<forall>v \<in> set (f_pending f @ f_visible f). piece_ok v" using ok that by (auto simp: machine_pieces_def)
    ultimately show ?thesis by (auto simp: fireball_fits_def fireball_extra_def split: if_splits)
  qed
  show "\<forall>a \<in> set (m_actors m). actor_fits a"
  proof
    fix a
    assume a: "a \<in> set (m_actors m)"
    have "actor_extra a \<noteq> None" using size_each_all [OF s(1)] a by auto
    moreover have "length (ac_guest a) = COOP_GUEST_BYTES" "length (ac_fireballs a) = COOP_FIREBALL_SLOTS"
      using assms(2) a by (auto simp: shaped_def)
    moreover have "\<forall>v \<in> set (ac_pending a @ ac_visible a). piece_ok v" using ok a by (auto simp: machine_pieces_def)
    ultimately show "actor_fits a" using f [OF a] by (auto simp: actor_fits_def actor_extra_def split: if_splits)
  qed
  show "\<forall>e \<in> set (m_entities m). mount_fits e"
  proof
    fix e
    assume e: "e \<in> set (m_entities m)"
    have sh: "if en_mount_valid e then length (en_mount e) = COOP_MOUNT_BYTES else bare_entity e = e"
      using assms(2) e by (simp add: shaped_def)
    show "mount_fits e"
    proof (cases "en_mount_valid e")
      case True
      then have "mount_extra e \<noteq> None" using size_each_all [OF s(2)] e by (auto simp: machine_mounts_def)
      moreover have "\<forall>v \<in> set (en_pending e @ en_visible e). piece_ok v" using ok e True by (auto simp: machine_pieces_def)
      ultimately show ?thesis using sh True by (auto simp: mount_fits_def mount_extra_def split: if_splits)
    next
      case False
      with sh show ?thesis by (simp add: mount_fits_def)
    qed
  qed
qed

lemma actors_restored: "map2 (\<lambda>b a. b\<lparr>ac_stored_mount := ac_stored_mount a, ac_stored_mount_color := ac_stored_mount_color a\<rparr>)
    (map2 (\<lambda>b a. b\<lparr>ac_fireballs := ac_fireballs a\<rparr>) (map bare_actor as) as) as = as"
  by (induction as) (simp_all add: bare_actor_def)

lemma fireballs_keep_players: "map ac_player (map2 (\<lambda>b a. b\<lparr>ac_fireballs := ac_fireballs a\<rparr>) (map bare_actor as) as) =
    map ac_player as"
  by (induction as) simp_all

text \<open>The capacities of the loaded machine are the lengths of its arrays.\<close>

definition trimmed :: "CoopMachine \<Rightarrow> CoopMachine" where
  "trimmed m = m\<lparr>m_session := (m_session m)\<lparr>event_capacity := length (events (m_session m)),
       action_capacity := length (actions (m_session m))\<rparr>,
     m_entity_capacity := length (m_entities m), m_source_capacity := length (m_sources m),
     m_placed_capacity := length (m_placed_eggs m)\<rparr>"

lemma load_sections_saved:
  assumes "machine_size m = Some n" "shaped m" "in_play m" "entities_valid m" "list_all piece_valid (machine_pieces m)"
    "\<forall>n. alloc n"
    and p: "p = pre @ save_entities m @ save_focus m @ save_mounts m @ save_fireballs m @ save_metadata m @ save_eggs m @ post"
    and lim: "lim = length pre + length (save_entities m @ save_focus m @ save_mounts m @ save_fireballs m @
      save_metadata m @ save_eggs m)"
    and m0: "m_actors m0 = map bare_actor (m_actors m)" "m_session m0 = (m_session m)\<lparr>event_capacity := length (events (m_session m)),
       action_capacity := length (actions (m_session m))\<rparr>" "m_room m0 = m_room m" "m_previous_mode m0 = m_previous_mode m"
      "m_room_initialized m0 = m_room_initialized m"
  shows "load_sections alloc 8 m0 p lim (length pre) = Some (trimmed m, lim)"
proof -
  note fits = machine_fits [OF assms(1,2,5)]
  have counts: "length (m_actors m) \<le> UINT32_MAX" "length (m_sources m) \<le> UINT32_MAX" "length (m_placed_eggs m) \<le> UINT32_MAX"
    by (rule machine_size_parts [OF assms(1)]; assumption)+
  have few: "length (m_entities m) \<le> 22" using assms(4) by (simp add: entities_valid_def)
  have ids: "distinct (map en_id (m_entities m))"
    by (rule no_earlier_distinct [of same_entity]) (use assms(4) in \<open>simp_all add: entities_valid_def same_entity_def\<close>)
  let ?m1 = "m0\<lparr>m_entities := map bare_entity (m_entities m), m_entity_capacity := length (m_entities m),
      m_next_entity := m_next_entity m, m_level := m_level m\<rparr>"
  let ?m2 = "?m1\<lparr>m_focus_x := m_focus_x m, m_focus_y := m_focus_y m, m_focus_center_x := m_focus_center_x m,
      m_focus_center_y := m_focus_center_y m, m_focus_count := m_focus_count m,
      m_focus_initialized := m_focus_initialized m, m_focus_hold := m_focus_hold m\<rparr>"
  let ?m3 = "?m2\<lparr>m_mounts_initialized := m_mounts_initialized m, m_entities := m_entities m,
      m_sources := m_sources m, m_source_capacity := length (m_sources m)\<rparr>"
  let ?m4 = "?m3\<lparr>m_fireballs_initialized := m_fireballs_initialized m,
      m_actors := map2 (\<lambda>b a. b\<lparr>ac_fireballs := ac_fireballs a\<rparr>) (m_actors ?m3) (m_actors m)\<rparr>"
  let ?m5 = "?m4\<lparr>m_entrance_prepared := m_entrance_prepared m,
      m_actors := map2 (\<lambda>b a. b\<lparr>ac_stored_mount := ac_stored_mount a, ac_stored_mount_color := ac_stored_mount_color a\<rparr>)
        (m_actors ?m4) (m_actors m)\<rparr>"
  let ?m6 = "?m5\<lparr>m_placed_eggs := m_placed_eggs m, m_placed_capacity := length (m_placed_eggs m)\<rparr>"
  have 1: "load_entities alloc 8 m0 p lim (length pre) = Some (?m1, length pre + length (save_entities m))"
    by (rule load_entities_saved [OF _ refl _ few assms(6)]) (use p lim in \<open>simp_all add: FOCUS_BYTES_def\<close>)
  have 2: "load_focus 8 ?m1 p lim (length pre + length (save_entities m)) =
      Some (?m2, length pre + length (save_entities m) + length (save_focus m))"
    by (rule load_focus_saved [where pre = "pre @ save_entities m"]) (use p lim assms(3) m0(1) in \<open>simp_all add: in_play_def\<close>)
  have 3: "load_mounts alloc 8 ?m2 p lim (length pre + length (save_entities m) + length (save_focus m)) =
      Some (?m3, length pre + length (save_entities m) + length (save_focus m) + length (save_mounts m))"
    by (rule load_mounts_saved [OF _ _ _ fits(2) ids few_mounts [OF assms(4)] _ counts(2) assms(6),
          where pre = "pre @ save_entities m @ save_focus m"]) (use p lim in simp_all)
  have 4: "load_fireballs 8 ?m3 p lim (length pre + length (save_entities m) + length (save_focus m) + length (save_mounts m)) =
      Some (?m4, length pre + length (save_entities m) + length (save_focus m) + length (save_mounts m) +
        length (save_fireballs m))"
    by (rule load_fireballs_saved [OF _ _ _ fits(1) _ counts(1), where pre = "pre @ save_entities m @ save_focus m @ save_mounts m"])
      (use p lim m0(1) in simp_all)
  have 5: "load_metadata 8 ?m4 p lim (length pre + length (save_entities m) + length (save_focus m) + length (save_mounts m) +
        length (save_fireballs m)) =
      Some (?m5, length pre + length (save_entities m) + length (save_focus m) + length (save_mounts m) +
        length (save_fireballs m) + length (save_metadata m))"
    by (rule load_metadata_saved [OF _ _ _ _ counts(1),
          where pre = "pre @ save_entities m @ save_focus m @ save_mounts m @ save_fireballs m"])
      (use p lim m0(1) fireballs_keep_players in simp_all)
  have 6: "load_eggs alloc 8 ?m5 p lim (length pre + length (save_entities m) + length (save_focus m) + length (save_mounts m) +
        length (save_fireballs m) + length (save_metadata m)) = Some (?m6, lim)"
    using load_eggs_saved [OF _ refl _ counts(3) assms(6), of p "pre @ save_entities m @ save_focus m @ save_mounts m @
      save_fireballs m @ save_metadata m" post lim ?m5] p lim by (simp add: add.assoc)
  have "m_actors ?m6 = m_actors m" using m0(1) actors_restored by simp
  then have "?m6 = trimmed m" using m0 by (cases m) (cases m0, simp add: trimmed_def)
  then show ?thesis
    unfolding load_sections_def using 1 2 3 4 5 6 by (simp only: Option.bind.simps prod.case)
qed


lemma sealed_length: "coop_session_save_size s \<noteq> 0 \<Longrightarrow> length (sealed (session_image s)) = coop_session_save_size s"
  using save_size_image(1) by (simp add: sealed_def)

lemma saved_session:
  assumes "valid s" "coop_session_save_size s \<noteq> 0" "\<forall>n. alloc n" "length data = coop_session_save_size s"
  shows "coop_session_save alloc s data = Some (sealed (session_image s))"
  using save_image [OF assms(1,2) _ assms(3), of data] assms(4) sealed_length [OF assms(2)] by (simp add: patch_def)

lemma actors_room: "\<forall>a \<in> set as. actor_fits a \<Longrightarrow> length as * 160 \<le> length (concat (map save_actor as))"
  by (induction as) (simp_all add: length_save_actor)

text \<open>The header of an image, with the bytes behind it.\<close>

lemma header_words:
  assumes "p = save_header m @ rest" "length (m_actors m) \<le> UINT32_MAX"
    "coop_session_save_size (m_session m) \<le> UINT32_MAX"
  shows "has_tag p 0 ''CNR1''" "get32 p 4 = 8" "take 32 (drop 8 p) = rom_id"
    "unat (get32 p 40) = coop_session_save_size (m_session m)" "unat (get32 p 44) = length (m_actors m)"
    "get32 p 48 = layout_id" "get32 p 52 = m_room m" "get32 p 56 = m_previous_mode m"
    "get32 p 60 = bool_word (m_room_initialized m)"
proof -
  let ?w = "[of_nat (coop_session_save_size (m_session m)), of_nat (length (m_actors m)), layout_id, m_room m,
       m_previous_mode m, bool_word (m_room_initialized m)]"
  have p: "p = [] @ put_words [0x31524E43, 8] @ (rom_id @ put_words ?w @ rest)"
    using assms(1) by (simp add: save_header_def tag_words put_words_def)
  have id: "length rom_id = 32" by (simp add: rom_id_def)
  have p2: "p = (put_words [0x31524E43, 8] @ rom_id) @ put_words ?w @ rest" using p by simp
  show "has_tag p 0 ''CNR1''"
    by (rule has_tag_here [where pre = "[]"]) (use assms(1) in \<open>simp_all add: save_header_def\<close>)
  show "get32 p 4 = 8" using words_read [OF p refl] by (simp add: upt_rec)
  show "take 32 (drop 8 p) = rom_id" unfolding p using id by simp
  have "list_all (\<lambda>i. get32 p (40 + 4 * i) = ?w ! i) [0..<length ?w]"
    by (rule words_read [OF p2]) (simp add: id)
  then show "unat (get32 p 40) = coop_session_save_size (m_session m)" "unat (get32 p 44) = length (m_actors m)"
    "get32 p 48 = layout_id" "get32 p 52 = m_room m" "get32 p 56 = m_previous_mode m"
    "get32 p 60 = bool_word (m_room_initialized m)"
    using assms(2,3) by (simp_all add: upt_rec unat_of_nat_u32)
qed

lemma checked_image: "p = body @ le32 (crc body) \<Longrightarrow> get32 p (length p - 4) = crc (take (length p - 4) p)"
  using get32_at [of body "crc body" "[]"] by simp

lemma save_succeeds:
  assumes "machine_size m = Some n" "shaped m" "entities_valid m" "valid (m_session m)"
    "list_all piece_valid (machine_pieces m)" "n \<le> length data" "\<forall>n. alloc n"
  defines "body \<equiv> machine_image m (sealed (session_image (m_session m)))"
  shows "coop_machine_save alloc m data = Some (patch 0 (body @ le32 (crc body)) data)" "n = length body + 4"
proof -
  have nz: "coop_session_save_size (m_session m) \<noteq> 0" by (rule machine_size_parts [OF assms(1)])
  note core = saved_session [OF assms(4) nz assms(7)] sealed_length [OF nz]
  show n: "n = length body + 4"
    using saved_size [OF assms(1,2) core(2)] unfolding body_def by (simp add: TRAILER_def)
  have "HEADER + coop_session_save_size (m_session m) \<le> length body"
    unfolding body_def machine_image_def using core(2) by simp
  then have "length (take (coop_session_save_size (m_session m)) (drop HEADER data)) = coop_session_save_size (m_session m)"
    using n assms(6) by simp
  from core(1) [OF this] assms(1,3,5,6) n
  show "coop_machine_save alloc m data = Some (patch 0 (body @ le32 (crc body)) data)"
    by (simp add: coop_machine_save_def coop_machine_save_size_def Let_def body_def)
qed

text \<open>
  Saving and loading a machine is the identity on everything but the spare capacities of its
  arrays: a valid machine in play whose size is representable is written into any buffer that is
  large enough, the announced size is the written size, the rest of the buffer stays, and loading
  exactly the written bytes restores the machine whatever machine it replaces.
\<close>

lemma machine_roundtrip:
  assumes "shaped m" "in_play m" "entities_valid m" "valid (m_session m)" "list_all piece_valid (machine_pieces m)"
    and "coop_machine_save_size m \<noteq> 0" "coop_machine_save_size m \<le> length data" "\<forall>n. alloc n"
  shows "\<exists>buf. coop_machine_save alloc m data = Some buf \<and> length buf = length data \<and>
     drop (coop_machine_save_size m) buf = drop (coop_machine_save_size m) data \<and>
     coop_machine_load alloc (take (coop_machine_save_size m) buf) old = (True, trimmed m)"
proof -
  let ?s = "m_session m" and ?core = "coop_session_save_size (m_session m)"
  obtain n where size: "machine_size m = Some n" and n: "coop_machine_save_size m = n"
    using assms(6) by (cases "machine_size m") (simp_all add: coop_machine_save_size_def)
  define bytes where "bytes = sealed (session_image ?s)"
  define body where "body = machine_image m bytes"
  define p where "p = body @ le32 (crc body)"
  have save: "coop_machine_save alloc m data = Some (patch 0 p data)" and len: "n = length body + 4"
    using save_succeeds [OF size assms(1,3,4,5) _ assms(8), of data] assms(7) unfolding n body_def p_def bytes_def by auto
  have parts: "length (m_actors m) = length (players ?s)" "?core \<noteq> 0" "?core \<le> UINT32_MAX" "length (m_actors m) \<le> UINT32_MAX"
    by (rule machine_size_parts [OF size]; assumption)+
  have core: "length bytes = ?core" using sealed_length [OF parts(2)] by (simp add: bytes_def)
  note fits = machine_fits [OF size assms(1,5)]
  let ?as = "concat (map save_actor (m_actors m))"
  let ?tail = "save_entities m @ save_focus m @ save_mounts m @ save_fireballs m @ save_metadata m @ save_eggs m"
  have p: "p = (save_header m @ bytes) @ ?as @ ?tail @ le32 (crc body)" by (simp add: p_def body_def machine_image_def)
  then have ph: "p = save_header m @ (bytes @ ?as @ ?tail @ le32 (crc body))" by simp
  note h = header_words [OF ph parts(4,3)]
  have lp: "length p = length body + 4" by (simp add: p_def)
  have lb: "length body = HEADER + ?core + length ?as + length ?tail"
    unfolding body_def machine_image_def using core by simp
  have room: "length (m_actors m) * 160 \<le> length ?as"
    by (rule actors_room [OF fits(1)])
  have ok: "header_ok p"
    using h checked_image [OF p_def] assms(2) by (simp add: header_ok_def in_play_def linorder_not_less)
  have sess: "coop_session_load alloc (take ?core (drop HEADER p)) zero_session =
      (True, ?s\<lparr>event_capacity := length (events ?s), action_capacity := length (actions ?s)\<rparr>)"
    using load_image [OF assms(4) _ parts(2) assms(8)] assms(2) ph core by (simp add: in_play_def bytes_def)
  let ?s' = "?s\<lparr>event_capacity := length (events ?s), action_capacity := length (actions ?s)\<rparr>"
  have known: "\<forall>a \<in> set (m_actors m). actor_fits a \<and> coop_player ?s' (ac_player a) \<noteq> None"
    using fits(1) assms(2) by (auto simp: in_play_def coop_player_def)
  have as: "load_actors 8 ?s' (length (m_actors m)) [] p (length p - TRAILER) (HEADER + ?core) =
      Some (map bare_actor (m_actors m), HEADER + ?core + length ?as)"
    using load_actors_saved [where earlier = "[]" and version = 8, OF _ known _ _ p, of "HEADER + ?core" "length p - TRAILER"]
      assms(2) lp lb core by (simp add: in_play_def TRAILER_def)
  let ?m0 = "zero_machine\<lparr>m_session := ?s', m_actors := map bare_actor (m_actors m), m_room := m_room m,
      m_previous_mode := m_previous_mode m, m_room_initialized := m_room_initialized m,
      m_next_entity := 1, m_level := 0xFFFFFFFF\<rparr>"
  have "load_sections alloc 8 ?m0 p (length p - TRAILER) (length (save_header m @ bytes @ ?as)) =
      Some (trimmed m, length p - TRAILER)"
    by (rule load_sections_saved [OF size assms(1,2,3,5,8), where post = "le32 (crc body)"])
      (use p lp lb core in \<open>simp_all add: TRAILER_def\<close>)
  then have sec: "load_sections alloc 8 ?m0 p (length p - TRAILER) (HEADER + ?core + length ?as) =
      Some (trimmed m, length p - TRAILER)" using core by (simp add: add.assoc)
  have bounds: "\<not> length p < HEADER + TRAILER" "\<not> ?core > length p - HEADER - TRAILER"
    "\<not> length (m_actors m) > (length p - HEADER - TRAILER - ?core) div (ACTOR_HEADER + COOP_GUEST_BYTES)"
    using lp lb room by (simp_all add: TRAILER_def ACTOR_HEADER_def guest_bytes less_eq_div_iff_mult_less_eq linorder_not_less)
  have few: "\<not> length (m_actors m) > SIZE_MAX div SIZEOF_ACTOR"
    using parts(4) by (simp add: SIZE_MAX_def SIZEOF_ACTOR_def UINT32_MAX_def)
  have valid: "entities_valid (trimmed m)"
    using assms(3) entities_valid_cong [of "trimmed m" m] by (simp add: trimmed_def)
  have "load_machine alloc p = Some (trimmed m)"
    using assms(8) bounds ok few valid parts(1) [symmetric]
    unfolding load_machine_def h Let_def sess by (simp add: as sec h)
  moreover have "take n (patch 0 p data) = p" "drop n (patch 0 p data) = drop n data" "length (patch 0 p data) = length data"
    using assms(7) lp len unfolding n by (simp_all add: patch_def)
  ultimately show ?thesis using save n by (simp add: coop_machine_load_def)
qed

section \<open>What a load admits\<close>

lemma if_None_Some: "(if b then None else x) = Some y \<longleftrightarrow> \<not> b \<and> x = Some y"
  by simp

lemma bind_two: "Option.bind r1 (\<lambda>(x, i). Option.bind (r2 i) (\<lambda>(y, j). Some (f x y, j))) = Some (a, k) \<Longrightarrow>
    \<exists>x y. a = f x y"
  by (auto simp: Option.bind_eq_Some_conv)

lemma load_actor_checked:
  assumes "load_actor version s earlier p lim at = Some (a, at1)"
  shows "coop_player s (ac_player a) \<noteq> None"
    "\<forall>b \<in> set earlier. ac_player a \<noteq> ac_player b \<and> ac_input_seat a \<noteq> ac_input_seat b"
proof -
  note c = assms [unfolded load_actor_def Let_def if_None_Some]
  have "\<exists>pending visible. a = zero_actor\<lparr>ac_player := get32 p at, ac_input_seat := get32 p (at + 4),
      ac_guest := take COOP_GUEST_BYTES (drop (at + ACTOR_HEADER) p), ac_pending := pending, ac_visible := visible\<rparr>"
    by (rule bind_two [OF c [THEN conjunct2, THEN conjunct2, THEN conjunct2, THEN conjunct2, THEN conjunct2]])
  then have a: "ac_player a = get32 p at" "ac_input_seat a = get32 p (at + 4)" by auto
  show "coop_player s (ac_player a) \<noteq> None"
    unfolding a by (rule c [THEN conjunct2, THEN conjunct2, THEN conjunct1])
  show "\<forall>b \<in> set earlier. ac_player a \<noteq> ac_player b \<and> ac_input_seat a \<noteq> ac_input_seat b"
    unfolding a using c [THEN conjunct2, THEN conjunct2, THEN conjunct2, THEN conjunct1] by blast
qed

lemma load_actors_checked:
  "load_actors version s n as p lim at = Some (as', at') \<Longrightarrow>
     distinct (map ac_player as) \<and> distinct (map ac_input_seat as) \<and> (\<forall>a \<in> set as. coop_player s (ac_player a) \<noteq> None) \<Longrightarrow>
     distinct (map ac_player as') \<and> distinct (map ac_input_seat as') \<and> (\<forall>a \<in> set as'. coop_player s (ac_player a) \<noteq> None) \<and>
     length as' = length as + n"
proof (induction n arbitrary: as at)
  case (Suc n)
  obtain a at1 where a: "load_actor version s as p lim at = Some (a, at1)"
    "load_actors version s n (as @ [a]) p lim at1 = Some (as', at')"
    using Suc.prems(1) by (auto split: option.splits)
  have "coop_player s (ac_player a) \<noteq> None" "\<forall>b \<in> set as. ac_player a \<noteq> ac_player b \<and> ac_input_seat a \<noteq> ac_input_seat b"
    by (rule load_actor_checked [OF a(1)])+
  then have "distinct (map ac_player (as @ [a])) \<and> distinct (map ac_input_seat (as @ [a])) \<and>
      (\<forall>x \<in> set (as @ [a]). coop_player s (ac_player x) \<noteq> None)"
    using Suc.prems(2) by (simp add: image_iff)
  from Suc.IH [OF a(2) this] show ?case by simp
qed simp


text \<open>The sections leave the session and the identities of the actors alone.\<close>

definition same_cast :: "CoopMachine \<Rightarrow> CoopMachine \<Rightarrow> bool" where
  "same_cast m m' \<longleftrightarrow> m_session m' = m_session m \<and> map ac_player (m_actors m') = map ac_player (m_actors m) \<and>
     map ac_input_seat (m_actors m') = map ac_input_seat (m_actors m)"

lemma same_cast_trans: "same_cast m m' \<Longrightarrow> same_cast m' m'' \<Longrightarrow> same_cast m m''"
  by (simp add: same_cast_def)

lemma load_actor_fireballs_cast: "load_actor_fireballs as p lim at = Some (as', at') \<Longrightarrow>
    map ac_player as' = map ac_player as \<and> map ac_input_seat as' = map ac_input_seat as"
proof (induction as arbitrary: as' at at')
  case (Cons a as)
  obtain fs at1 as1 at2 where r: "load_actor_fireballs as p lim at1 = Some (as1, at2)" "as' = a\<lparr>ac_fireballs := fs\<rparr> # as1"
    using Cons.prems by (auto simp: Option.bind_eq_Some_conv split: if_splits)
  with Cons.IH [OF r(1)] show ?case by simp
qed simp

lemma load_stored_cast: "load_stored as p lim at = Some (as', at') \<Longrightarrow>
    map ac_player as' = map ac_player as \<and> map ac_input_seat as' = map ac_input_seat as"
proof (induction as arbitrary: as' at at')
  case (Cons a as)
  obtain u v as1 at1 at2 where r: "load_stored as p lim at1 = Some (as1, at2)"
    "as' = a\<lparr>ac_stored_mount := u, ac_stored_mount_color := v\<rparr> # as1"
    using Cons.prems by (auto simp: Option.bind_eq_Some_conv split: if_splits)
  with Cons.IH [OF r(1)] show ?case by simp
qed simp

lemma load_entities_cast: "load_entities alloc v m p lim at = Some (m', at') \<Longrightarrow> same_cast m m'"
  by (auto simp: load_entities_def Let_def Option.bind_eq_Some_conv same_cast_def split: if_splits)

lemma load_focus_cast: "load_focus v m p lim at = Some (m', at') \<Longrightarrow> same_cast m m'"
  by (auto simp: load_focus_def Let_def same_cast_def split: if_splits)

lemma load_mounts_cast: "load_mounts alloc v m p lim at = Some (m', at') \<Longrightarrow> same_cast m m'"
  by (auto simp: load_mounts_def Let_def Option.bind_eq_Some_conv same_cast_def split: if_splits)

lemma load_fireballs_cast: "load_fireballs v m p lim at = Some (m', at') \<Longrightarrow> same_cast m m'"
  by (auto simp: load_fireballs_def Let_def Option.bind_eq_Some_conv same_cast_def
      dest: load_actor_fireballs_cast split: if_splits)

lemma load_metadata_cast: "load_metadata v m p lim at = Some (m', at') \<Longrightarrow> same_cast m m'"
  by (auto simp: load_metadata_def Let_def Option.bind_eq_Some_conv same_cast_def
      dest: load_stored_cast split: if_splits)

lemma load_eggs_cast: "load_eggs alloc v m p lim at = Some (m', at') \<Longrightarrow> same_cast m m'"
  by (auto simp: load_eggs_def Let_def Option.bind_eq_Some_conv same_cast_def split: if_splits)

lemma load_sections_cast:
  assumes "load_sections alloc v m p lim at = Some (m', at')"
  shows "same_cast m m'"
proof -
  obtain m1 at1 m2 at2 m3 at3 m4 at4 m5 at5 where
    "load_entities alloc v m p lim at = Some (m1, at1)" "load_focus v m1 p lim at1 = Some (m2, at2)"
    "load_mounts alloc v m2 p lim at2 = Some (m3, at3)" "load_fireballs v m3 p lim at3 = Some (m4, at4)"
    "load_metadata v m4 p lim at4 = Some (m5, at5)" "load_eggs alloc v m5 p lim at5 = Some (m', at')"
    using assms by (auto simp: load_sections_def Option.bind_eq_Some_conv)
  then show ?thesis
    by (meson load_entities_cast load_focus_cast load_mounts_cast load_fireballs_cast load_metadata_cast load_eggs_cast
        same_cast_trans)
qed

lemma loaded_session_valid: "coop_session_load alloc data s = (True, t) \<Longrightarrow> valid t"
  by (auto simp: coop_session_load_def Let_def split: if_splits option.splits prod.splits)

lemma load_machine_parts:
  assumes "load_machine alloc p = Some m'"
  obtains s as at m0 where "header_ok p" "coop_session_load alloc (take (unat (get32 p 40)) (drop HEADER p)) zero_session = (True, s)"
    "load_actors (unat (get32 p 4)) s (length (players s)) [] p (length p - TRAILER) (HEADER + unat (get32 p 40)) = Some (as, at)"
    "m_session m0 = s" "m_actors m0 = as"
    "load_sections alloc (unat (get32 p 4)) m0 p (length p - TRAILER) at = Some (m', length p - TRAILER)" "entities_valid m'"
proof -
  note c = assms [unfolded load_machine_def Let_def if_None_Some]
  obtain ok s where s: "coop_session_load alloc (take (unat (get32 p 40)) (drop HEADER p)) zero_session = (ok, s)"
    by force
  note d = c [THEN conjunct2, THEN conjunct2, unfolded s prod.case if_None_Some]
  have 1: "ok" "length (players s) = unat (get32 p 44)" using d by simp_all
  let ?m0 = "\<lambda>as. zero_machine\<lparr>m_session := s, m_actors := as, m_room := get32 p 52, m_previous_mode := get32 p 56,
     m_room_initialized := (get32 p 60 \<noteq> 0), m_next_entity := 1, m_level := 0xFFFFFFFF\<rparr>"
  have "Option.bind (load_actors (unat (get32 p 4)) s (unat (get32 p 44)) [] p (length p - TRAILER) (HEADER + unat (get32 p 40)))
      (\<lambda>(as, at). Option.bind (load_sections alloc (unat (get32 p 4)) (?m0 as) p (length p - TRAILER) at)
        (\<lambda>(m, at'). if at' \<noteq> length p - TRAILER \<or> \<not> entities_valid m then None else Some m)) = Some m'"
    using d by blast
  then obtain as at m1 at' where "load_actors (unat (get32 p 4)) s (unat (get32 p 44)) [] p (length p - TRAILER)
      (HEADER + unat (get32 p 40)) = Some (as, at)"
    "load_sections alloc (unat (get32 p 4)) (?m0 as) p (length p - TRAILER) at = Some (m1, at')"
    "at' = length p - TRAILER" "entities_valid m1" "m1 = m'"
    by (auto simp: Option.bind_eq_Some_conv if_None_Some)
  with 1 s c show ?thesis by (intro that [of s as at "?m0 as"]) simp_all
qed

text \<open>
  C23. A load that fails leaves the machine as it was.  One that succeeds has read the whole input:
  its checksum, ROM and layout are right, its session and the machine are valid, and its actors are
  players of the session with seats of their own, so a snapshot that was tampered with or cut short
  never gets into play.
\<close>

theorem machine_load_transactional:
  assumes "coop_machine_load alloc data m = (ok, m')"
  shows "if ok then entities_valid m' \<and> valid (m_session m') \<and>
       length (m_actors m') = length (players (m_session m')) \<and>
       distinct (map ac_player (m_actors m')) \<and> distinct (map ac_input_seat (m_actors m')) \<and>
       (\<forall>a \<in> set (m_actors m'). coop_player (m_session m') (ac_player a) \<noteq> None) \<and>
       take 32 (drop 8 data) = rom_id \<and> get32 data 48 = layout_id \<and>
       get32 data (length data - 4) = crc (take (length data - 4) data)
     else m' = m"
proof (cases "load_machine alloc data")
  case None
  with assms show ?thesis by (simp add: coop_machine_load_def)
next
  case (Some r)
  then have ok: "ok" "r = m'" using assms by (simp_all add: coop_machine_load_def)
  obtain s as at m0 where h: "header_ok data"
    and s: "coop_session_load alloc (take (unat (get32 data 40)) (drop HEADER data)) zero_session = (True, s)"
    and as: "load_actors (unat (get32 data 4)) s (length (players s)) [] data (length data - TRAILER)
      (HEADER + unat (get32 data 40)) = Some (as, at)"
    and m0: "m_session m0 = s" "m_actors m0 = as"
    and sec: "load_sections alloc (unat (get32 data 4)) m0 data (length data - TRAILER) at = Some (m', length data - TRAILER)"
    and v: "entities_valid m'"
    by (rule load_machine_parts [OF Some [unfolded ok(2)]])
  have c: "m_session m' = s" "map ac_player (m_actors m') = map ac_player as" "map ac_input_seat (m_actors m') = map ac_input_seat as"
    using load_sections_cast [OF sec] m0 by (simp_all add: same_cast_def)
  have l: "length (m_actors m') = length as" by (rule map_eq_imp_length_eq [OF c(2)])
  have "\<forall>i \<in> set (map ac_player as). coop_player s i \<noteq> None" and d: "distinct (map ac_player as)"
    "distinct (map ac_input_seat as)" "length as = length (players s)"
    using load_actors_checked [OF as] by simp_all
  then have "\<forall>i \<in> set (map ac_player (m_actors m')). coop_player s i \<noteq> None" unfolding c(2) by blast
  then have "\<forall>a \<in> set (m_actors m'). coop_player s (ac_player a) \<noteq> None" by simp
  then show ?thesis using h ok v c l d loaded_session_valid [OF s] by (simp add: header_ok_def)
qed

end
