(* ===== verification/Renderer_Objects.thy ===== *)
theory Renderer_Objects
  imports Prelude "HOL-Library.Product_Lexorder"
begin

unbundle bit_operations_syntax

text \<open>
  The objects of the host renderer, \<^verbatim>\<open>src/smw_renderer.c\<close> up to the capture of the raster lines, and
  the viewport arithmetic of \<^verbatim>\<open>src/smw_video.c\<close>: which host coordinates belong to which entry of the
  game's sprite table (OAM), and the list of draws that every finished object leaves behind.

  \<open>ram\<close> is the game's work RAM \<^verbatim>\<open>g_ram\<close>.  Host coordinates are integers; the code's \<open>int\<close> holds them
  without overflow, since each is a 16-bit coordinate plus at most 128.  The array of draws grows by
  doubling; the code aborts when the memory for it is exhausted, which is None.
\<close>

section \<open>The viewport\<close>

record SmwViewport =
  vp_width :: int
  vp_extra :: int

definition SmwViewOffset :: "SmwViewport \<Rightarrow> int \<Rightarrow> int \<Rightarrow> int" where
  "SmwViewOffset view camera level_width =
     (let origin0 = camera - vp_extra view;
          final = (if level_width > vp_width view then level_width - vp_width view else 0);
          origin1 = (if origin0 > final then final else origin0);
          origin = (if origin1 < 0 then 0 else origin1);
          offset0 = camera - origin;
          offset = (if offset0 < 0 then 0 else offset0)
      in if offset > vp_width view - 256 then vp_width view - 256 else offset)"

section \<open>Owners and draws\<close>

record OamOwner =
  oo_x :: int
  oo_position :: u16
  oo_attr :: u16
  oo_valid :: bool

record SpriteOwner =
  so_x :: int
  so_y :: int
  so_valid :: bool
  so_exact :: bool

record SpriteDraw =
  sd_image :: OamOwner
  sd_slot :: nat
  sd_high :: nat
  sd_kind :: nat
  sd_actor :: nat
  sd_order :: nat

record DrawList =
  dl_items :: "SpriteDraw list"
  dl_capacity :: nat

text \<open>The object that is drawing: its OAM before, its recorded tiles and the inferred ones.\<close>

record ActorDraw =
  ad_active :: bool
  ad_kind :: nat
  ad_index :: nat
  ad_before :: "u8 list"
  ad_exact :: "OamOwner list"
  ad_inferred :: "SpriteOwner list"

record Renderer =
  rn_pending :: "OamOwner list"
  rn_latched :: "OamOwner list"
  rn_sprite_owners :: "SpriteOwner list"
  rn_pending_draws :: DrawList
  rn_latched_draws :: DrawList
  rn_draw_start :: "nat list"
  rn_actor_draw :: ActorDraw
  rn_actors_ran :: bool
  rn_level_scene :: bool
  rn_tracking :: bool
  rn_frame_ram :: mem

definition no_oam_owner :: OamOwner where
  "no_oam_owner = \<lparr>oo_x = 0, oo_position = 0, oo_attr = 0, oo_valid = False\<rparr>"

definition no_sprite_owner :: SpriteOwner where
  "no_sprite_owner = \<lparr>so_x = 0, so_y = 0, so_valid = False, so_exact = False\<rparr>"

definition no_actor_draw :: ActorDraw where
  "no_actor_draw = \<lparr>ad_active = False, ad_kind = 0, ad_index = 0, ad_before = replicate 512 0,
     ad_exact = replicate 128 no_oam_owner, ad_inferred = replicate 64 no_sprite_owner\<rparr>"

definition initial_renderer :: Renderer where
  "initial_renderer = \<lparr>rn_pending = replicate 128 no_oam_owner, rn_latched = replicate 128 no_oam_owner,
     rn_sprite_owners = replicate 64 no_sprite_owner, rn_pending_draws = \<lparr>dl_items = [], dl_capacity = 0\<rparr>,
     rn_latched_draws = \<lparr>dl_items = [], dl_capacity = 0\<rparr>, rn_draw_start = replicate 129 0,
     rn_actor_draw = no_actor_draw, rn_actors_ran = False, rn_level_scene = False, rn_tracking = False,
     rn_frame_ram = (\<lambda>a. 0)\<rparr>"

section \<open>Recording\<close>

definition SmwRendererRecordOam :: "nat \<Rightarrow> int \<Rightarrow> u16 \<Rightarrow> u16 \<Rightarrow> Renderer \<Rightarrow> Renderer" where
  "SmwRendererRecordOam slot x pos attr s =
     (if slot < 128 then
        let owner = \<lparr>oo_x = x, oo_position = pos, oo_attr = attr, oo_valid = True\<rparr>;
            s1 = s\<lparr>rn_pending := (rn_pending s)[slot := owner]\<rparr>; a = rn_actor_draw s1
        in if ad_active a then s1\<lparr>rn_actor_draw := a\<lparr>ad_exact := (ad_exact a)[slot := owner]\<rparr>\<rparr> else s1
      else s)"

definition span_owner :: "int \<Rightarrow> int \<Rightarrow> SpriteOwner" where
  "span_owner x y = \<lparr>so_x = x, so_y = y, so_valid = True, so_exact = False\<rparr>"

definition record_span :: "int \<Rightarrow> int \<Rightarrow> Renderer \<Rightarrow> nat \<Rightarrow> Renderer" where
  "record_span x y s index =
     (let piece = index div 4;
          s1 = (if \<not> so_exact (rn_sprite_owners s ! piece)
                then s\<lparr>rn_sprite_owners := (rn_sprite_owners s)[piece := span_owner x y]\<rparr> else s);
          a = rn_actor_draw s1
      in if ad_active a \<and> \<not> so_exact (ad_inferred a ! piece)
         then s1\<lparr>rn_actor_draw := a\<lparr>ad_inferred := (ad_inferred a)[piece := span_owner x y]\<rparr>\<rparr> else s1)"

text \<open>The values of \<open>index\<close> from \<open>start\<close> in steps of four below \<open>stop\<close>.\<close>

definition span_indices :: "nat \<Rightarrow> nat \<Rightarrow> nat list" where
  "span_indices start stop = map (\<lambda>k. start + 4 * k) [0..<(stop - start + 3) div 4]"

definition SmwRendererRecordSprite :: "nat \<Rightarrow> int \<Rightarrow> int \<Rightarrow> nat \<Rightarrow> nat \<Rightarrow> Renderer \<Rightarrow> Renderer" where
  "SmwRendererRecordSprite slot x y start stop s =
     (if slot < 12 \<and> start < stop \<and> stop \<le> 256 then foldl (record_span x y) s (span_indices start stop) else s)"

definition SmwRendererRecordSpriteTile :: "nat \<Rightarrow> int \<Rightarrow> int \<Rightarrow> Renderer \<Rightarrow> Renderer" where
  "SmwRendererRecordSpriteTile piece x y s =
     (if piece < 64 then
        let owner = \<lparr>so_x = x, so_y = y, so_valid = True, so_exact = True\<rparr>;
            s1 = s\<lparr>rn_sprite_owners := (rn_sprite_owners s)[piece := owner]\<rparr>; a = rn_actor_draw s1
        in if ad_active a then s1\<lparr>rn_actor_draw := a\<lparr>ad_inferred := (ad_inferred a)[piece := owner]\<rparr>\<rparr> else s1
      else s)"

section \<open>One object's draws\<close>

definition SIZEOF_SPRITE_DRAW :: nat where
  "SIZEOF_SPRITE_DRAW = 32"

definition append_draw :: "allocator \<Rightarrow> SpriteDraw \<Rightarrow> Renderer \<Rightarrow> Renderer option" where
  "append_draw alloc draw s =
     (let l = rn_pending_draws s; n = length (dl_items l);
          capacity = (if n = dl_capacity l then (if dl_capacity l \<noteq> 0 then dl_capacity l * 2 else 128) else dl_capacity l)
      in if n = dl_capacity l \<and> \<not> alloc (capacity * SIZEOF_SPRITE_DRAW) then None
         else Some (s\<lparr>rn_pending_draws :=
                \<lparr>dl_items = dl_items l @ [draw\<lparr>sd_order := n\<rparr>], dl_capacity = capacity\<rparr>\<rparr>))"

text \<open>The cast to \<open>int8_t\<close> of a difference of bytes.\<close>

definition int8 :: "int \<Rightarrow> int" where
  "int8 n = sint (word_of_int n :: u8)"

definition near_origin :: "SpriteOwner \<Rightarrow> nat \<Rightarrow> int option" where
  "near_origin owner pos =
     (let dx = int8 (int (pos mod 256) - so_x owner mod 256); dy = int8 (int (pos div 256) - so_y owner mod 256)
      in if \<bar>dx\<bar> > 64 \<or> \<bar>dy\<bar> > 64 then None else Some (so_x owner + dx))"

definition same_oam :: "u8 list \<Rightarrow> mem \<Rightarrow> nat \<Rightarrow> bool" where
  "same_oam old ram slot \<longleftrightarrow> list_all (\<lambda>k. old ! (slot * 4 + k) = ram (0x200 + slot * 4 + k)) [0..<4]"

text \<open>The host coordinate of a table entry of the finished object; None where the loop continues.\<close>

definition drawn_x :: "mem \<Rightarrow> ActorDraw \<Rightarrow> nat \<Rightarrow> int option" where
  "drawn_x ram a slot =
     (let pos = rd16 ram (0x200 + slot * 4); exact = ad_exact a ! slot; owner = ad_inferred a ! (slot - 64)
      in if pos div 256 = 240 then None
         else if oo_valid exact
              then Some (oo_x exact + int8 (int (pos mod 256) - int (unat (oo_position exact) mod 256)))
         else if slot < 64 then None
         else if \<not> so_valid owner \<or> \<not> so_exact owner \<and> same_oam (ad_before a) ram slot then None
         else near_origin owner pos)"

definition oam_image :: "mem \<Rightarrow> nat \<Rightarrow> int \<Rightarrow> OamOwner" where
  "oam_image ram slot x = \<lparr>oo_x = x, oo_position = of_nat (rd16 ram (0x200 + slot * 4)),
     oo_attr = of_nat (rd16 ram (0x202 + slot * 4)), oo_valid = True\<rparr>"

definition end_slot :: "allocator \<Rightarrow> mem \<Rightarrow> Renderer option \<Rightarrow> nat \<Rightarrow> Renderer option" where
  "end_slot alloc ram st slot =
     (case st of None \<Rightarrow> None
      | Some s \<Rightarrow>
          (case drawn_x ram (rn_actor_draw s) slot of
             None \<Rightarrow> Some s
           | Some x \<Rightarrow>
               let image = oam_image ram slot x; a = rn_actor_draw s
               in append_draw alloc \<lparr>sd_image = image, sd_slot = slot, sd_high = unat (ram (0x420 + slot) AND 3),
                    sd_kind = ad_kind a, sd_actor = ad_index a, sd_order = 0\<rparr>
                    (s\<lparr>rn_pending := (rn_pending s)[slot := image]\<rparr>)))"

definition SmwRendererEndActor :: "allocator \<Rightarrow> mem \<Rightarrow> Renderer \<Rightarrow> Renderer option" where
  "SmwRendererEndActor alloc ram s =
     (if \<not> ad_active (rn_actor_draw s) then Some s
      else map_option (\<lambda>s'. s'\<lparr>rn_actor_draw := (rn_actor_draw s')\<lparr>ad_active := False\<rparr>\<rparr>)
             (foldl (end_slot alloc ram) (Some s) [0..<128]))"

definition SmwRendererBeginActor :: "allocator \<Rightarrow> mem \<Rightarrow> nat \<Rightarrow> nat \<Rightarrow> Renderer \<Rightarrow> Renderer option" where
  "SmwRendererBeginActor alloc ram kind index s =
     map_option (\<lambda>s'.
       if kind > 1 \<or> index \<ge> (if kind \<noteq> 0 then 10 else 12) then s'
       else s'\<lparr>rn_actor_draw := no_actor_draw\<lparr>ad_active := True, ad_kind := kind, ad_index := index,
                ad_before := map (\<lambda>i. ram (0x200 + i)) [0..<512]\<rparr>, rn_actors_ran := True\<rparr>)
       (SmwRendererEndActor alloc ram s)"

definition SmwRendererResetScene :: "Renderer \<Rightarrow> Renderer" where
  "SmwRendererResetScene s = s\<lparr>rn_level_scene := False, rn_tracking := False,
     rn_pending := replicate 128 no_oam_owner, rn_latched := replicate 128 no_oam_owner,
     rn_sprite_owners := replicate 64 no_sprite_owner,
     rn_actor_draw := (rn_actor_draw s)\<lparr>ad_active := False\<rparr>, rn_actors_ran := False,
     rn_pending_draws := (rn_pending_draws s)\<lparr>dl_items := []\<rparr>,
     rn_latched_draws := (rn_latched_draws s)\<lparr>dl_items := []\<rparr>, rn_draw_start := replicate 129 0\<rparr>"

section \<open>The frame latch\<close>

definition next_level_scene :: "nat \<Rightarrow> bool \<Rightarrow> bool" where
  "next_level_scene mode scene =
     (if mode = 0x13 \<or> mode = 0x14 then True
      else if mode \<noteq> 0x0b \<and> mode \<noteq> 0x0f \<and> mode \<noteq> 0x15 \<and> mode \<noteq> 0x18 then False
      else scene)"

definition bind_piece :: "mem \<Rightarrow> SpriteOwner list \<Rightarrow> OamOwner list \<Rightarrow> nat \<Rightarrow> OamOwner list" where
  "bind_piece ram owners pend piece =
     (let owner = owners ! piece; slot = 64 + piece; pos = rd16 ram (0x300 + piece * 4)
      in if \<not> so_valid owner \<or> oo_valid (pend ! slot) \<or> pos div 256 = 240 then pend
         else case near_origin owner pos of None \<Rightarrow> pend | Some x \<Rightarrow> pend[slot := oam_image ram slot x])"

definition keep_latched :: "mem \<Rightarrow> OamOwner list \<Rightarrow> OamOwner list \<Rightarrow> nat \<Rightarrow> OamOwner list" where
  "keep_latched ram latched pend slot =
     (if \<not> oo_valid (pend ! slot) \<and> oo_valid (latched ! slot) \<and>
         unat (oo_position (latched ! slot)) = rd16 ram (0x200 + slot * 4) \<and>
         unat (oo_attr (latched ! slot)) = rd16 ram (0x202 + slot * 4)
      then pend[slot := latched ! slot] else pend)"

definition compare_draw :: "SpriteDraw \<Rightarrow> SpriteDraw \<Rightarrow> int" where
  "compare_draw x y =
     (if sd_slot x \<noteq> sd_slot y then (if sd_slot x < sd_slot y then -1 else 1)
      else if sd_order x < sd_order y then -1 else if sd_order x \<noteq> sd_order y then 1 else 0)"

text \<open>\<open>qsort\<close> with \<open>compare_draw\<close>: the key is the pair that it compares.\<close>

definition sort_draws :: "SpriteDraw list \<Rightarrow> SpriteDraw list" where
  "sort_draws = sort_key (\<lambda>d. (sd_slot d, sd_order d))"

definition advance_next :: "SpriteDraw list \<Rightarrow> nat \<Rightarrow> nat \<Rightarrow> nat" where
  "advance_next items slot n = n + length (takeWhile (\<lambda>d. sd_slot d < slot) (drop n items))"

definition draw_starts :: "SpriteDraw list \<Rightarrow> nat list" where
  "draw_starts items =
     fst (foldl (\<lambda>(starts, n) slot. let m = advance_next items slot n in (starts @ [m], m)) ([], 0) [0..<129])"

text \<open>\<open>reuse_draws\<close>: no object was drawn and the table is the one of the last frame.\<close>

definition reuses_draws :: "mem \<Rightarrow> Renderer \<Rightarrow> bool" where
  "reuses_draws ram s \<longleftrightarrow> next_level_scene (unat (ram 0x100)) (rn_level_scene s) \<and> \<not> rn_actors_ran s \<and>
     dl_items (rn_pending_draws s) = [] \<and> list_all (\<lambda>i. rn_frame_ram s (0x200 + i) = ram (0x200 + i)) [0..<512]"

definition SmwRendererLatchFrame :: "allocator \<Rightarrow> mem \<Rightarrow> bool \<Rightarrow> Renderer \<Rightarrow> Renderer option" where
  "SmwRendererLatchFrame alloc ram enabled s0 =
     (case SmwRendererEndActor alloc ram s0 of
        None \<Rightarrow> None
      | Some s \<Rightarrow>
          let mode = unat (ram 0x100);
              scene = next_level_scene mode (rn_level_scene s);
              fading_level = (scene \<and> mode \<noteq> 0x13 \<and> mode \<noteq> 0x14);
              reuse_draws = reuses_draws ram s;
              pend1 = foldl (bind_piece ram (rn_sprite_owners s)) (rn_pending s) [0..<64];
              pend2 = (if fading_level \<or> reuse_draws
                       then foldl (keep_latched ram (rn_latched s)) pend1 [0..<128] else pend1);
              s1 = s\<lparr>rn_frame_ram := (if enabled then ram else rn_frame_ram s), rn_level_scene := scene,
                     rn_latched := pend2, rn_pending := replicate 128 no_oam_owner,
                     rn_sprite_owners := replicate 64 no_sprite_owner\<rparr>;
              s2 = (if reuse_draws then s1
                    else let items = sort_draws (dl_items (rn_pending_draws s1))
                         in s1\<lparr>rn_latched_draws := (rn_pending_draws s1)\<lparr>dl_items := items\<rparr>,
                              rn_pending_draws := rn_latched_draws s1, rn_draw_start := draw_starts items\<rparr>)
          in Some (s2\<lparr>rn_pending_draws := (rn_pending_draws s2)\<lparr>dl_items := []\<rparr>, rn_actors_ran := False\<rparr>))"


section \<open>Sorted lists and their segments\<close>

lemma takeWhile_less_filter:
  "sorted (map f xs) \<Longrightarrow> takeWhile (\<lambda>d. f d < (k :: nat)) xs = filter (\<lambda>d. f d < k) xs"
proof (induction xs)
  case (Cons x xs)
  have "filter (\<lambda>d. f d < k) xs = []" if "\<not> f x < k"
    using Cons.prems that by (fastforce simp: filter_empty_conv)
  with Cons show ?case by simp
qed simp

lemma take_less_filter:
  "sorted (map f xs) \<Longrightarrow> take (length (filter (\<lambda>d. f d < (k :: nat)) xs)) xs = filter (\<lambda>d. f d < k) xs"
  using takeWhile_eq_take [of "\<lambda>d. f d < k" xs] by (simp only: takeWhile_less_filter)

lemma dropWhile_split:
  assumes "sorted (map f xs)"
  shows "drop (length (filter (\<lambda>d. f d < (k :: nat)) xs)) xs = filter (\<lambda>d. k \<le> f d) xs"
proof -
  have "drop (length (takeWhile (\<lambda>d. f d < k) xs)) xs = dropWhile (\<lambda>d. f d < k) xs"
    by (simp add: dropWhile_eq_drop)
  also have "\<dots> = filter (\<lambda>d. k \<le> f d) xs"
    using assms
  proof (induction xs)
    case (Cons x xs)
    have "filter (\<lambda>d. k \<le> f d) xs = xs" if "\<not> f x < k"
      using Cons.prems that by (fastforce simp: filter_id_conv)
    with Cons show ?case by simp
  qed simp
  finally show ?thesis by (simp only: takeWhile_less_filter [OF assms])
qed

lemma segment_filter:
  assumes "sorted (map f xs)"
  shows "take (length (filter (\<lambda>d. f d < Suc k) xs) - length (filter (\<lambda>d. f d < k) xs))
      (drop (length (filter (\<lambda>d. f d < k) xs)) xs) = filter (\<lambda>d. f d = k) xs"
proof -
  let ?ge = "filter (\<lambda>d. k \<le> f d) xs"
  have d: "drop (length (filter (\<lambda>d. f d < k) xs)) xs = ?ge" by (rule dropWhile_split [OF assms])
  have "length (filter (\<lambda>d. f d < Suc k) xs) = length (filter (\<lambda>d. f d < k) xs) + length (filter (\<lambda>d. f d = k) xs)"
    by (induction xs) auto
  moreover have "take (length (filter (\<lambda>d. f d < Suc k) ?ge)) ?ge = filter (\<lambda>d. f d < Suc k) ?ge"
  proof -
    have "sorted (map f ?ge)" using assms by (simp add: sorted_wrt_map sorted_wrt_filter)
    then show ?thesis by (rule take_less_filter)
  qed
  moreover have "filter (\<lambda>d. f d < Suc k) ?ge = filter (\<lambda>d. f d = k) xs"
    unfolding filter_filter by (rule filter_cong [OF refl]) auto
  ultimately show ?thesis by (simp add: d)
qed

lemma advance_from:
  "sorted (map sd_slot items) \<Longrightarrow> j \<le> k \<Longrightarrow>
     advance_next items k (length (filter (\<lambda>d. sd_slot d < j) items)) = length (filter (\<lambda>d. sd_slot d < k) items)"
proof -
  assume s: "sorted (map sd_slot items)" and j: "j \<le> k"
  let ?n = "length (filter (\<lambda>d. sd_slot d < j) items)"
  have "take ?n items = filter (\<lambda>d. sd_slot d < j) items"
    by (rule take_less_filter [OF s])
  then have "takeWhile (\<lambda>d. sd_slot d < k) (take ?n items @ drop ?n items) =
      take ?n items @ takeWhile (\<lambda>d. sd_slot d < k) (drop ?n items)"
    using j by (intro takeWhile_append2) auto
  moreover have "length (take ?n items) = ?n" by simp
  ultimately have "length (takeWhile (\<lambda>d. sd_slot d < k) items) = ?n + length (takeWhile (\<lambda>d. sd_slot d < k) (drop ?n items))"
    by (simp only: append_take_drop_id length_append)
  then show ?thesis by (simp add: advance_next_def takeWhile_less_filter [OF s])
qed

lemma draw_starts_loop:
  assumes "sorted (map sd_slot items)"
  shows "foldl (\<lambda>(starts, n) slot. let m = advance_next items slot n in (starts @ [m], m)) ([], 0) [0..<k] =
    (map (\<lambda>j. length (filter (\<lambda>d. sd_slot d < j) items)) [0..<k], length (filter (\<lambda>d. sd_slot d < k - 1) items))"
  by (induction k) (simp_all add: Let_def advance_from [OF assms])

lemma draw_starts_counts:
  assumes "sorted (map sd_slot items)"
  shows "draw_starts items = map (\<lambda>j. length (filter (\<lambda>d. sd_slot d < j) items)) [0..<129]"
  unfolding draw_starts_def draw_starts_loop [OF assms] by simp


section \<open>The invariant of the renderer\<close>

definition actor_ok :: "ActorDraw \<Rightarrow> bool" where
  "actor_ok a \<longleftrightarrow> length (ad_before a) = 512 \<and> length (ad_exact a) = 128 \<and> length (ad_inferred a) = 64"

text \<open>The draws of the frame in the making are numbered in the order of their submission.\<close>

definition pending_ok :: "DrawList \<Rightarrow> bool" where
  "pending_ok l \<longleftrightarrow> map sd_order (dl_items l) = [0..<length (dl_items l)] \<and> length (dl_items l) \<le> dl_capacity l \<and>
     list_all (\<lambda>d. sd_slot d < 128) (dl_items l)"

text \<open>The latched draws of each table entry are one segment, which \<open>draw_start\<close> delimits.\<close>

definition draws_of :: "Renderer \<Rightarrow> nat \<Rightarrow> SpriteDraw list" where
  "draws_of s slot = take (rn_draw_start s ! Suc slot - rn_draw_start s ! slot)
     (drop (rn_draw_start s ! slot) (dl_items (rn_latched_draws s)))"

definition renderer_ok :: "Renderer \<Rightarrow> bool" where
  "renderer_ok s \<longleftrightarrow> length (rn_pending s) = 128 \<and> length (rn_latched s) = 128 \<and> length (rn_sprite_owners s) = 64 \<and>
     actor_ok (rn_actor_draw s) \<and> pending_ok (rn_pending_draws s) \<and> sorted (map sd_slot (dl_items (rn_latched_draws s))) \<and>
     rn_draw_start s = draw_starts (dl_items (rn_latched_draws s)) \<and>
     length (dl_items (rn_latched_draws s)) \<le> dl_capacity (rn_latched_draws s)"

named_theorems renderer_ops

lemma no_draw_starts: "draw_starts [] = replicate 129 0"
  by (simp add: draw_starts_counts map_replicate_const del: upt_rec_numeral)

lemma initial_renderer_ok: "renderer_ok initial_renderer"
  by (simp add: renderer_ok_def initial_renderer_def actor_ok_def no_actor_draw_def pending_ok_def no_draw_starts)

lemma record_oam_ok [renderer_ops]: "renderer_ok s \<Longrightarrow> renderer_ok (SmwRendererRecordOam slot x pos attr s)"
  by (simp add: SmwRendererRecordOam_def renderer_ok_def actor_ok_def Let_def)

lemma record_span_ok: "renderer_ok s \<Longrightarrow> renderer_ok (record_span x y s index)"
  by (simp add: record_span_def renderer_ok_def actor_ok_def Let_def)

lemma record_sprite_ok [renderer_ops]: "renderer_ok s \<Longrightarrow> renderer_ok (SmwRendererRecordSprite slot x y start stop s)"
proof -
  have "renderer_ok (foldl (record_span x y) s is)" if "renderer_ok s" for s "is"
    using that by (induction "is" arbitrary: s) (simp_all add: record_span_ok)
  then show "renderer_ok s \<Longrightarrow> renderer_ok (SmwRendererRecordSprite slot x y start stop s)"
    by (simp add: SmwRendererRecordSprite_def)
qed

lemma record_tile_ok [renderer_ops]: "renderer_ok s \<Longrightarrow> renderer_ok (SmwRendererRecordSpriteTile piece x y s)"
  by (simp add: SmwRendererRecordSpriteTile_def renderer_ok_def actor_ok_def Let_def)

lemma append_draw_ok:
  "renderer_ok s \<Longrightarrow> sd_slot d < 128 \<Longrightarrow> append_draw alloc d s = Some s' \<Longrightarrow> renderer_ok s'"
  by (auto simp: append_draw_def renderer_ok_def pending_ok_def Let_def split: if_splits)

lemma end_slot_ok:
  assumes "renderer_ok s" "slot < 128" "end_slot alloc ram (Some s) slot = Some s'"
  shows "renderer_ok s'"
proof (cases "drawn_x ram (rn_actor_draw s) slot")
  case None
  then show ?thesis using assms by (simp add: end_slot_def)
next
  case (Some x)
  have "renderer_ok (s\<lparr>rn_pending := (rn_pending s)[slot := oam_image ram slot x]\<rparr>)"
    using assms(1) by (simp add: renderer_ok_def)
  moreover obtain d where "sd_slot d = slot"
    "append_draw alloc d (s\<lparr>rn_pending := (rn_pending s)[slot := oam_image ram slot x]\<rparr>) = Some s'"
    using assms(3) Some by (force simp: end_slot_def Let_def)
  ultimately show ?thesis using append_draw_ok assms(2) by blast
qed

lemma end_slots_None: "foldl (end_slot alloc ram) None slots = None"
  by (induction slots) (simp_all add: end_slot_def)

lemma end_slots_ok:
  "renderer_ok s \<Longrightarrow> list_all (\<lambda>slot. slot < 128) slots \<Longrightarrow> foldl (end_slot alloc ram) (Some s) slots = Some s' \<Longrightarrow>
     renderer_ok s'"
proof (induction slots arbitrary: s)
  case (Cons slot slots)
  show ?case
  proof (cases "end_slot alloc ram (Some s) slot")
    case None
    then show ?thesis using Cons.prems by (simp add: end_slots_None)
  next
    case (Some t)
    then show ?thesis using Cons.IH [of t] Cons.prems end_slot_ok [of s slot alloc ram t] by simp
  qed
qed simp

lemma end_actor_ok:
  assumes "renderer_ok s" "SmwRendererEndActor alloc ram s = Some s'"
  shows "renderer_ok s'"
proof (cases "ad_active (rn_actor_draw s)")
  case True
  then obtain t where t: "foldl (end_slot alloc ram) (Some s) [0..<128] = Some t"
    "s' = t\<lparr>rn_actor_draw := (rn_actor_draw t)\<lparr>ad_active := False\<rparr>\<rparr>"
    using assms(2) by (auto simp: SmwRendererEndActor_def)
  have "renderer_ok t" by (rule end_slots_ok [OF assms(1) _ t(1)]) (simp add: list_all_iff)
  then show ?thesis by (simp add: t(2) renderer_ok_def actor_ok_def)
qed (use assms in \<open>simp add: SmwRendererEndActor_def\<close>)

lemma begin_actor_ok:
  assumes "renderer_ok s" "SmwRendererBeginActor alloc ram kind index s = Some s'"
  shows "renderer_ok s'"
proof -
  obtain t where t: "SmwRendererEndActor alloc ram s = Some t"
    using assms(2) by (auto simp: SmwRendererBeginActor_def)
  have "renderer_ok t" by (rule end_actor_ok [OF assms(1) t])
  then show ?thesis using assms(2) t
    by (auto simp: SmwRendererBeginActor_def renderer_ok_def actor_ok_def no_actor_draw_def
        simp del: upt_rec_numeral)
qed

lemma reset_scene_ok [renderer_ops]: "renderer_ok s \<Longrightarrow> renderer_ok (SmwRendererResetScene s)"
  by (simp add: SmwRendererResetScene_def renderer_ok_def actor_ok_def pending_ok_def no_draw_starts)

lemma draws_of_filter:
  assumes "renderer_ok s" "slot < 128"
  shows "draws_of s slot = filter (\<lambda>d. sd_slot d = slot) (dl_items (rn_latched_draws s))"
proof -
  let ?items = "dl_items (rn_latched_draws s)"
  have sorted: "sorted (map sd_slot ?items)" and start: "rn_draw_start s = draw_starts ?items"
    using assms(1) by (simp_all add: renderer_ok_def)
  have "rn_draw_start s ! k = length (filter (\<lambda>d. sd_slot d < k) ?items)" if "k < 129" for k
    using that by (simp add: start draw_starts_counts [OF sorted] del: upt_Suc)
  then show ?thesis using segment_filter [OF sorted, of slot] assms(2) by (simp add: draws_of_def)
qed

section \<open>What the latch keeps of the draws\<close>

lemma sort_draws_slots: "sorted (map sd_slot (sort_draws xs))"
proof -
  have "sorted (map (\<lambda>d. (sd_slot d, sd_order d)) (sort_draws xs))" by (simp add: sort_draws_def)
  then have "sorted_wrt (\<lambda>d e. (sd_slot d, sd_order d) \<le> (sd_slot e, sd_order e)) (sort_draws xs)"
    by (simp only: sorted_wrt_map)
  then show ?thesis unfolding sorted_wrt_map by (rule sorted_wrt_mono_rel [rotated]) (auto simp: less_eq_prod_def)
qed

lemma length_sort_draws: "length (sort_draws xs) = length xs"
  by (simp add: sort_draws_def)

lemma sort_draws_filter:
  assumes "sorted (map sd_order xs)"
  shows "filter (\<lambda>d. sd_slot d = slot) (sort_draws xs) = filter (\<lambda>d. sd_slot d = slot) xs"
proof -
  let ?f = "filter (\<lambda>d. sd_slot d = slot) xs"
  have "sorted_wrt (\<lambda>d e. sd_order d \<le> sd_order e) ?f"
    using assms by (simp add: sorted_wrt_map sorted_wrt_filter)
  then have "sorted_wrt (\<lambda>d e. (sd_slot d, sd_order d) \<le> (sd_slot e, sd_order e)) ?f"
    by (rule sorted_wrt_mono_rel [rotated]) (auto simp: less_eq_prod_def)
  then have "sorted (map (\<lambda>d. (sd_slot d, sd_order d)) ?f)" by (simp only: sorted_wrt_map)
  then show ?thesis by (simp add: sort_draws_def filter_sort sort_key_id_if_sorted)
qed

lemma bind_pieces_length: "length (foldl (bind_piece ram owners) pend pieces) = length pend"
  by (induction pieces arbitrary: pend) (simp_all add: bind_piece_def Let_def split: option.splits)

lemma keep_latched_length: "length (foldl (keep_latched ram latched) pend slots) = length pend"
  by (induction slots arbitrary: pend) (simp_all add: keep_latched_def)

lemma latch_parts:
  assumes "renderer_ok s" "SmwRendererLatchFrame alloc ram enabled s = Some s'"
  obtains t where "SmwRendererEndActor alloc ram s = Some t" "renderer_ok t" "renderer_ok s'"
    "if reuses_draws ram t then rn_latched_draws s' = rn_latched_draws t \<and> rn_draw_start s' = rn_draw_start t
     else dl_items (rn_latched_draws s') = sort_draws (dl_items (rn_pending_draws t))"
proof -
  obtain t where t: "SmwRendererEndActor alloc ram s = Some t"
    using assms(2) by (auto simp: SmwRendererLatchFrame_def split: option.splits)
  have ok: "renderer_ok t" by (rule end_actor_ok [OF assms(1) t])
  have len: "length (rn_latched s') = 128" "length (rn_pending s') = 128" "length (rn_sprite_owners s') = 64"
    "rn_actor_draw s' = rn_actor_draw t"
    using assms(2) ok
    by (auto simp: SmwRendererLatchFrame_def t Let_def renderer_ok_def bind_pieces_length keep_latched_length
        simp del: upt_rec_numeral split: if_splits)
  have l: "if reuses_draws ram t then rn_latched_draws s' = rn_latched_draws t \<and> rn_draw_start s' = rn_draw_start t \<and>
        rn_pending_draws s' = (rn_pending_draws t)\<lparr>dl_items := []\<rparr>
     else dl_items (rn_latched_draws s') = sort_draws (dl_items (rn_pending_draws t)) \<and>
        dl_capacity (rn_latched_draws s') = dl_capacity (rn_pending_draws t) \<and>
        rn_draw_start s' = draw_starts (dl_items (rn_latched_draws s')) \<and> dl_items (rn_pending_draws s') = []"
    using assms(2) by (auto simp: SmwRendererLatchFrame_def t Let_def simp del: upt_rec_numeral)
  have "renderer_ok s'"
    using ok l unfolding renderer_ok_def len
    by (auto simp: pending_ok_def sort_draws_slots length_sort_draws split: if_splits)
  then show ?thesis using that [OF t ok] l by (auto split: if_splits)
qed

text \<open>
  C38. After the latch of a frame the segment that \<open>draw_start\<close> delimits for a table entry holds
  exactly the draws of that entry, each once and in the order in which the objects submitted them,
  the object still in the making included; where nothing was drawn and the table is unchanged they
  are the draws of the last frame.
\<close>

theorem latch_indexes_draws:
  assumes "renderer_ok s" "SmwRendererLatchFrame alloc ram enabled s = Some s'" "slot < 128"
  shows "\<exists>t. SmwRendererEndActor alloc ram s = Some t \<and> renderer_ok s' \<and>
    draws_of s' slot = (if reuses_draws ram t then draws_of t slot
      else filter (\<lambda>d. sd_slot d = slot) (dl_items (rn_pending_draws t)))"
proof -
  obtain t where t: "SmwRendererEndActor alloc ram s = Some t" "renderer_ok t" "renderer_ok s'"
    and l: "if reuses_draws ram t then rn_latched_draws s' = rn_latched_draws t \<and> rn_draw_start s' = rn_draw_start t
     else dl_items (rn_latched_draws s') = sort_draws (dl_items (rn_pending_draws t))"
    by (rule latch_parts [OF assms(1,2)])
  have "sorted (map sd_order (dl_items (rn_pending_draws t)))"
    using t(2) by (simp add: renderer_ok_def pending_ok_def)
  then have "draws_of s' slot = (if reuses_draws ram t then draws_of t slot
      else filter (\<lambda>d. sd_slot d = slot) (dl_items (rn_pending_draws t)))"
    using l by (simp add: draws_of_filter t(2,3) assms(3) sort_draws_filter split: if_splits)
  then show ?thesis using t by blast
qed


section \<open>The viewport keeps the native picture\<close>

text \<open>The native 256 columns lie in the host picture, and at a level that is wide enough and a camera in it
the host picture lies in the level.\<close>

lemma view_offset_range:
  "256 \<le> vp_width view \<Longrightarrow> 0 \<le> SmwViewOffset view camera w \<and> SmwViewOffset view camera w + 256 \<le> vp_width view"
  by (simp add: SmwViewOffset_def Let_def)

lemma view_in_level:
  assumes "256 \<le> vp_width view" "vp_width view \<le> w" "0 \<le> camera" "camera + 256 \<le> w" "0 \<le> vp_extra view"
    "vp_extra view + 256 \<le> vp_width view"
  shows "0 \<le> camera - SmwViewOffset view camera w \<and> camera - SmwViewOffset view camera w + vp_width view \<le> w"
  using assms by (simp add: SmwViewOffset_def Let_def)

end
