(* ===== verification/Coop_Presentation.thy ===== *)
theory Coop_Presentation
  imports Coop_Snapshot Renderer_Objects
begin

unbundle bit_operations_syntax

text \<open>
  The pictures of the co-op mode, \<^verbatim>\<open>src/mods/coop/coop_presentation.c\<close>: the game draws one player, so
  each player's sprite pieces are captured as pixels while that player is bound, latched with the
  scene, and given to the PPU as extra objects beside the reserve boxes and the bubbles.

  The PPU's memory and registers are the record \<open>Ppu\<close>, \<open>rom\<close> is the cartridge.  None stands for the
  end of the program by \<^verbatim>\<open>Die\<close>.  The PPU's overlay surfaces belong to the framework: \<open>overlay_ok\<close> says
  whether they could be bound; \<open>native\<close> is the renderer's offset of the native picture.
\<close>

section \<open>Pictures of sprite pieces\<close>

record Ppu =
  pp_vram :: "nat \<Rightarrow> u16"
  pp_cgram :: "nat \<Rightarrow> u16"
  pp_obsel :: nat
  pp_hscroll2 :: nat
  pp_vscroll2 :: nat
  pp_bgxsc2 :: nat
  pp_bgtileadr :: nat

text \<open>The private picture memory with the tiles that the game will upload for the player.\<close>

definition upload :: "mem \<Rightarrow> nat \<Rightarrow> nat \<Rightarrow> nat \<Rightarrow> (nat \<Rightarrow> u16) \<Rightarrow> (nat \<Rightarrow> u16)" where
  "upload ram base source n pic =
     foldl (\<lambda>pic j. pic(base + j := of_nat (rd16 ram ((source + j * 2) mod 65536)))) pic [0..<n]"

definition player_tiles :: "mem \<Rightarrow> nat \<Rightarrow> (nat \<Rightarrow> u16) \<Rightarrow> (nat \<Rightarrow> u16)" where
  "player_tiles ram tiles pic =
     upload ram 0x67f0 (rd16 ram 0xd99) 16
       (foldl (\<lambda>pic (row, k). upload ram (0x6000 + row * 0x100 + 2 * k * 16) (rd16 ram (0xd85 + row * 10 + 2 * k)) 32 pic)
          pic (List.product [0..<2] [0..<tiles div 2]))"

definition player_palette :: "mem \<Rightarrow> nat \<Rightarrow> (nat \<Rightarrow> u16) \<Rightarrow> (nat \<Rightarrow> u16)" where
  "player_palette rom pal palette = foldl (\<lambda>p i. p(0x86 + i := of_nat (rd16 rom (pal mod 0x8000 + i * 2)))) palette [0..<10]"

text \<open>The four bit planes of a pixel.\<close>

definition plane_pixel :: "(nat \<Rightarrow> u16) \<Rightarrow> nat \<Rightarrow> nat \<Rightarrow> nat" where
  "plane_pixel pic address shift =
     (let low = pic address; high = pic ((address + 8) mod 0x8000)
      in of_bool (bit low shift) + 2 * of_bool (bit low (shift + 8)) +
         4 * of_bool (bit high shift) + 8 * of_bool (bit high (shift + 8)))"

definition object_base :: "Ppu \<Rightarrow> bool \<Rightarrow> nat" where
  "object_base ppu second =
     pp_obsel ppu mod 8 * 8192 + (if second then (pp_obsel ppu div 8 mod 4 + 1) * 4096 else 0)"

definition tile_number :: "nat \<Rightarrow> nat \<Rightarrow> nat \<Rightarrow> nat" where
  "tile_number t row col = ((t mod 256 div 16 + row div 8) mod 16) * 16 + (t mod 16 + col div 8) mod 16"

definition piece_pixel :: "Ppu \<Rightarrow> (nat \<Rightarrow> u16) \<Rightarrow> (nat \<Rightarrow> u16) \<Rightarrow> nat \<Rightarrow> nat \<Rightarrow> nat \<Rightarrow> nat \<Rightarrow> u16" where
  "piece_pixel ppu pic palette attr side y x =
     (let row = (if odd (attr div 0x8000) then side - 1 - y else y);
          col = (if odd (attr div 0x4000) then side - 1 - x else x);
          address = (object_base ppu (odd (attr div 256)) + tile_number attr row col * 16 + row mod 8) mod 0x8000;
          pixel = plane_pixel pic address (7 - col mod 8)
      in if pixel \<noteq> 0 then 0x8000 OR palette (128 + attr div 512 mod 8 * 16 + pixel) else 0)"

definition captured_piece :: "Ppu \<Rightarrow> mem \<Rightarrow> (nat \<Rightarrow> u16) \<Rightarrow> (nat \<Rightarrow> u16) \<Rightarrow> int \<Rightarrow> int \<Rightarrow> nat \<Rightarrow> CoopVisualPiece" where
  "captured_piece ppu ram pic palette origin_x origin_y slot =
     (let pos = rd16 ram (0x200 + slot * 4); attr = rd16 ram (0x202 + slot * 4);
          side = (if bit (ram (0x420 + slot)) 1 then 16 else 8)
      in \<lparr>v_x = word_of_int (origin_x + int8 (int (pos mod 256) - origin_x mod 256)),
          v_y = word_of_int (origin_y + int8 (int (pos div 256) - origin_y mod 256)),
          v_width = of_nat side, v_height = of_nat side, v_priority = of_nat (attr div 0x1000 mod 4),
          v_math = (if odd (attr div 0x800) then 1 else 0), v_slot = of_nat slot,
          v_pixels = map (\<lambda>i. if i div 16 < side \<and> i mod 16 < side
                              then piece_pixel ppu pic palette attr side (i div 16) (i mod 16) else 0)
                       [0..<COOP_PIECE_PIXELS]\<rparr>)"

text \<open>One round of the loop over the table: the outer None is a Die.\<close>

definition capture_step ::
  "Ppu \<Rightarrow> mem \<Rightarrow> mem \<Rightarrow> (nat \<Rightarrow> u16) \<Rightarrow> (nat \<Rightarrow> u16) \<Rightarrow> nat \<Rightarrow> bool \<Rightarrow> int \<Rightarrow> int \<Rightarrow>
   CoopVisualPiece list option \<Rightarrow> nat \<Rightarrow> CoopVisualPiece list option" where
  "capture_step ppu rom ram pic palette capacity primary_only origin_x origin_y st slot =
     (case st of None \<Rightarrow> None
      | Some pieces \<Rightarrow>
          let fence = unat (ram 0x13f9); start = (0x100 + unat (rom (0xe2b6 - 0x8000 + fence))) div 4
          in if primary_only \<and> fence > 3 then None
             else if primary_only \<and> (slot < start \<or> slot \<ge> start + 7) then Some pieces
             else if rd16 ram (0x200 + slot * 4) div 256 = 0xf0 then Some pieces
             else if length pieces = capacity then None
             else Some (pieces @ [captured_piece ppu ram pic palette origin_x origin_y slot]))"

definition capture_pieces ::
  "Ppu \<Rightarrow> mem \<Rightarrow> mem \<Rightarrow> nat \<Rightarrow> bool \<Rightarrow> int \<Rightarrow> int \<Rightarrow> CoopVisualPiece list option" where
  "capture_pieces ppu rom ram capacity primary_only origin_x origin_y =
     (let tiles = unat (ram 0xd84); pal = rd16 ram 0xd82
      in if tiles > 10 \<or> odd tiles then None
         else if tiles \<noteq> 0 \<and> (pal < 0x8000 \<or> pal > 0xffec) then None
         else
           let palette = (if tiles \<noteq> 0 then player_palette rom pal (pp_cgram ppu) else pp_cgram ppu);
               pic = player_tiles ram tiles (pp_vram ppu)
           in foldl (capture_step ppu rom ram pic palette capacity primary_only origin_x origin_y) (Some []) [0..<128])"

definition int16_of :: "int \<Rightarrow> int" where
  "int16_of n = sint (word_of_int n :: u16)"

definition capture_visual :: "Ppu \<Rightarrow> mem \<Rightarrow> mem \<Rightarrow> bool \<Rightarrow> CoopVisualPiece list option" where
  "capture_visual ppu rom ram primary_only =
     capture_pieces ppu rom ram COOP_BODY_PIECES primary_only
       (int16_of (int (rd16 ram 0x94) - int (rd16 ram 0x1a))) (int16_of (int (rd16 ram 0x96) - int (rd16 ram 0x1c)))"

definition SmwCoopCaptureVisual :: "Ppu \<Rightarrow> mem \<Rightarrow> mem \<Rightarrow> CoopVisualPiece list option" where
  "SmwCoopCaptureVisual ppu rom ram = capture_visual ppu rom ram False"

definition SmwCoopCaptureMount :: "Ppu \<Rightarrow> mem \<Rightarrow> mem \<Rightarrow> int \<Rightarrow> int \<Rightarrow> CoopVisualPiece list option" where
  "SmwCoopCaptureMount ppu rom ram x y =
     capture_pieces ppu rom ram COOP_MOUNT_PIECES False (x - int (rd16 ram 0x1a)) (y - int (rd16 ram 0x1c))"

definition SmwCoopCaptureFireball :: "Ppu \<Rightarrow> mem \<Rightarrow> mem \<Rightarrow> int \<Rightarrow> int \<Rightarrow> CoopFireball \<Rightarrow> CoopFireball option" where
  "SmwCoopCaptureFireball ppu rom ram x y f =
     map_option (\<lambda>pieces. f\<lparr>f_pending := pieces\<rparr>)
       (capture_pieces ppu rom ram 1 False (int16_of (x - int (rd16 ram 0x1a))) (int16_of (y - int (rd16 ram 0x1c))))"

section \<open>The latch\<close>

definition latch_fireball :: "bool \<Rightarrow> CoopFireball \<Rightarrow> CoopFireball" where
  "latch_fireball level f =
     (let f1 = (if level then f else f\<lparr>f_pending := []\<rparr>) in f1\<lparr>f_visible := f_pending f1\<rparr>)"

definition latch_actor :: "bool \<Rightarrow> CoopActor \<Rightarrow> CoopActor" where
  "latch_actor level a =
     (let a1 = (if level then a else a\<lparr>ac_pending := []\<rparr>)
      in a1\<lparr>ac_visible := ac_pending a1, ac_fireballs := map (latch_fireball level) (ac_fireballs a1)\<rparr>)"

definition latch_entity :: "bool \<Rightarrow> CoopEntity \<Rightarrow> CoopEntity" where
  "latch_entity level e =
     (let e1 = (if level then e else e\<lparr>en_pending := []\<rparr>) in e1\<lparr>en_visible := en_pending e1\<rparr>)"

text \<open>The primary player is captured at the latch, the others while they were bound.\<close>

definition capture_primary :: "Ppu \<Rightarrow> mem \<Rightarrow> mem \<Rightarrow> CoopMachine \<Rightarrow> CoopMachine option" where
  "capture_primary ppu rom ram m =
     (let who = primary (m_session m)
      in case (coop_machine_actor m who, coop_player (m_session m) who) of
           (Some i, Some k) \<Rightarrow>
             let p = players (m_session m) ! k;
                 set_pending = (\<lambda>pieces. m\<lparr>m_actors := upd_at i (ac_pending_update (\<lambda>_. pieces)) (m_actors m)\<rparr>)
             in if p_life p = COOP_PLAYING \<or> p_life p = COOP_DYING
                then map_option set_pending (capture_visual ppu rom ram True)
                else Some (set_pending [])
         | _ \<Rightarrow> Some m)"

definition SmwCoopPresentationLatch :: "Ppu \<Rightarrow> mem \<Rightarrow> mem \<Rightarrow> bool \<Rightarrow> CoopMachine \<Rightarrow> CoopMachine option" where
  "SmwCoopPresentationLatch ppu rom ram level m =
     map_option (\<lambda>m1. m1\<lparr>m_actors := map (latch_actor level) (m_actors m1),
         m_entities := map (latch_entity level) (m_entities m1)\<rparr>)
       (if level \<and> m_room_initialized m then capture_primary ppu rom ram m else Some m)"


section \<open>The pictures of the display\<close>

definition DECOR_WIDTH :: nat where "DECOR_WIDTH = 32"
definition DECOR_HEIGHT :: nat where "DECOR_HEIGHT = 40"
definition DRAW_PIXELS :: nat where "DRAW_PIXELS = DECOR_WIDTH * DECOR_HEIGHT"

text \<open>Two nested loops over rows and columns that set some pixels, None where the pixel stays.\<close>

definition plot ::
  "nat \<Rightarrow> nat list \<Rightarrow> nat list \<Rightarrow> (nat \<Rightarrow> nat \<Rightarrow> u16 option) \<Rightarrow> u16 list \<Rightarrow> u16 list" where
  "plot stride rows cols colour pixels =
     foldl (\<lambda>px (y, x). case colour y x of None \<Rightarrow> px | Some c \<Rightarrow> px[y * stride + x := c]) pixels
       (List.product rows cols)"

definition digits :: "nat list" where
  "digits = [0x7b6f, 0x2492, 0x73e7, 0x73cf, 0x5bc9, 0x79cf, 0x79ef, 0x7249, 0x7bef, 0x7bcf]"

definition draw_digit :: "nat \<Rightarrow> int \<Rightarrow> nat \<Rightarrow> nat \<Rightarrow> u16 \<Rightarrow> u16 list \<Rightarrow> u16 list" where
  "draw_digit stride x y n colour pixels =
     foldl (\<lambda>px (row, col).
       if 0 \<le> x + int col \<and> x + int col < int stride \<and> odd (digits ! n div 2 ^ (14 - row * 3 - col))
       then px[(y + row) * stride + nat (x + int col) := colour] else px)
       pixels (List.product [0..<5] [0..<3])"

function draw_number :: "nat \<Rightarrow> int \<Rightarrow> nat \<Rightarrow> nat \<Rightarrow> u16 \<Rightarrow> u16 list \<Rightarrow> u16 list" where
  "draw_number stride x y n colour pixels =
     (if n > 9 then draw_digit stride x y (n mod 10) colour (draw_number stride (x - 4) y (n div 10) colour pixels)
      else draw_digit stride x y n colour pixels)"
  by pat_completeness auto
termination by (relation "measure (\<lambda>(stride, x, y, n, colour, pixels). n)") auto

declare draw_number.simps [simp del]

definition player_colour :: "CoopPlayer \<Rightarrow> u16" where
  "player_colour p = (if p_character p = 0 then 0x801f else if p_character p = 1 then 0x83e0 else 0xffff)"

definition identity :: "nat \<Rightarrow> nat \<Rightarrow> CoopPlayer \<Rightarrow> u16 list \<Rightarrow> u16 list" where
  "identity stride y p pixels =
     (let letter = [6, 5, 6, 4, 4 :: nat]; colour = player_colour p;
          named = foldl (\<lambda>px (row, col).
            if odd (letter ! row div 2 ^ (2 - col)) then px[(y + row) * stride + 7 + col := colour] else px)
            pixels (List.product [0..<5] [0..<3])
      in draw_number stride 13 y (unat (p_id p + 1)) colour named)"

definition hud_colour :: "Ppu \<Rightarrow> nat \<Rightarrow> nat \<Rightarrow> nat \<Rightarrow> u16 option" where
  "hud_colour ppu source_x y x =
     (let px = (source_x + x + pp_hscroll2 ppu) mod 1024; py = (y + 1 + pp_vscroll2 ppu) mod 1024;
          sc = pp_bgxsc2 ppu; tx = px div 8; ty = py div 8;
          address = sc div 4 * 4 * 256 + tx mod 32 + ty mod 32 * 32 +
            (if odd sc \<and> odd (tx div 32) then 1024 else 0) +
            (if odd (sc div 2) \<and> odd (ty div 32) then (if odd sc then 2048 else 1024) else 0);
          tile = unat (pp_vram ppu (address mod 0x8000));
          col = (if odd (tile div 0x4000) then 7 - px mod 8 else px mod 8);
          row = (if odd (tile div 0x8000) then 7 - py mod 8 else py mod 8);
          base = pp_bgtileadr ppu div 256 mod 16 * 4096;
          bits = pp_vram ppu ((base + tile mod 1024 * 8 + row) mod 0x8000);
          pixel = of_bool (bit bits (7 - col)) + 2 * of_bool (bit bits (15 - col)) :: nat
      in if pixel \<noteq> 0 then Some (0x8000 OR pp_cgram ppu (tile div 1024 mod 8 * 4 + pixel)) else None)"

definition hud_picture :: "Ppu \<Rightarrow> nat \<Rightarrow> u16 list \<Rightarrow> u16 list" where
  "hud_picture ppu source_x = plot DECOR_WIDTH [0..<40] [0..<32] (hud_colour ppu source_x)"

definition item_colour :: "Ppu \<Rightarrow> nat \<Rightarrow> nat \<Rightarrow> nat \<Rightarrow> nat \<Rightarrow> u16 option" where
  "item_colour ppu tile attr y x =
     (let address = (object_base ppu (odd attr) + tile_number tile y x * 16 + y mod 8) mod 0x8000;
          pixel = plane_pixel (pp_vram ppu) address (7 - x mod 8)
      in if pixel \<noteq> 0 then Some (0x8000 OR pp_cgram ppu (128 + attr div 2 mod 8 * 16 + pixel)) else None)"

definition reserve_picture :: "Ppu \<Rightarrow> mem \<Rightarrow> mem \<Rightarrow> CoopPlayer \<Rightarrow> u16 list \<Rightarrow> u16 list" where
  "reserve_picture ppu rom ram p pixels0 =
     (let pixels = hud_picture ppu 112 pixels0; item = unat (p_reserve p);
          tile = unat (rom (0x8dfa - 0x8000 + item - 1));
          attr = unat (if item = 3 then rom (0x8dfe - 0x8000 + unat (ram 0x13) div 2 mod 4) else rom (0x8e02 - 0x8000 + item - 1));
          boxed = (if 1 \<le> item \<and> item \<le> 4
                   then foldl (\<lambda>px (y, x). case item_colour ppu tile attr y x of None \<Rightarrow> px
                          | Some c \<Rightarrow> px[(y + 15) * DECOR_WIDTH + x + 8 := c]) pixels (List.product [0..<16] [0..<16])
                   else pixels);
          letter = (if p_character p = 0 then [17, 27, 21, 17, 17] else [16, 16, 16, 16, 31 :: nat])
      in if p_character p < 2
         then foldl (\<lambda>px (y, x). if odd (letter ! y div 2 ^ (4 - x))
                then px[(y + 9) * DECOR_WIDTH + x + 4 := (if p_character p \<noteq> 0 then 0x83e0 else 0x801f)] else px)
                (plot DECOR_WIDTH [8..<15] [3..<10] (\<lambda>y x. Some 0x8000) boxed) (List.product [0..<5] [0..<5])
         else identity DECOR_WIDTH 1 p boxed)"

definition bubble_picture :: "CoopPlayer \<Rightarrow> u16 list \<Rightarrow> u16 list" where
  "bubble_picture p pixels =
     (let ring = plot 24 [0..<24] [0..<24] (\<lambda>y x.
            let dx = int x * 2 - 23; dy = int y * 2 - 23; d = dx * dx + dy * dy
            in if d < 23 * 23 \<and> d > 19 * 19 then Some (if d > 21 * 21 then 0x8000 else 0xffa8) else None) pixels
      in identity 24 11 p (plot 24 [5..<8] [6..<9] (\<lambda>y x. Some 0xffff) ring))"

section \<open>The objects of a frame\<close>

record PpuExtraObject =
  xo_x :: int
  xo_y :: int
  xo_width :: nat
  xo_height :: nat
  xo_stride :: nat
  xo_priority :: nat
  xo_math :: nat
  xo_slot :: nat
  xo_owner :: u32
  xo_picture :: "u16 list"

definition piece_object :: "u32 \<Rightarrow> u16 list \<Rightarrow> CoopVisualPiece \<Rightarrow> PpuExtraObject" where
  "piece_object owner pixels v = \<lparr>xo_x = sint (v_x v), xo_y = sint (v_y v), xo_width = unat (v_width v) mod 65536,
     xo_height = unat (v_height v) mod 65536, xo_stride = 16, xo_priority = unat (v_priority v) mod 256,
     xo_math = unat (v_math v) mod 256, xo_slot = unat (v_slot v) mod 256, xo_owner = owner, xo_picture = pixels\<rparr>"

definition covered :: "CoopMachine \<Rightarrow> nat \<Rightarrow> CoopVisualPiece \<Rightarrow> int \<Rightarrow> int \<Rightarrow> bool" where
  "covered m actor v x y =
     list_ex (\<lambda>i. let other = m_actors m ! i
       in i \<noteq> actor \<and> coop_player_precedes (m_session m) (ac_player other) (ac_player (m_actors m ! actor)) \<and>
          list_ex (\<lambda>q. let dx = x - sint (v_x q); dy = y - sint (v_y q)
            in v_priority q = v_priority v \<and> dx \<ge> 0 \<and> dy \<ge> 0 \<and> dx < int (unat (v_width q)) \<and> dy < int (unat (v_height q)) \<and>
               bit (v_pixels q ! nat (dy * 16 + dx)) 15) (ac_visible other))
       [0..<length (m_actors m)]"

text \<open>The piece without the pixels that a player with precedence covers.\<close>

definition uncovered_pixels :: "CoopMachine \<Rightarrow> nat \<Rightarrow> CoopVisualPiece \<Rightarrow> u16 list" where
  "uncovered_pixels m actor v =
     plot 16 [0..<unat (v_height v)] [0..<unat (v_width v)]
       (\<lambda>y x. if covered m actor v (sint (v_x v) + int x) (sint (v_y v) + int y) then Some 0 else None) (v_pixels v)"

definition wanted_objects :: "CoopMachine \<Rightarrow> bool \<Rightarrow> nat" where
  "wanted_objects m level =
     sum_list (map (\<lambda>a. (if ac_player a \<noteq> primary (m_session m) then length (ac_visible a) else 0) + (if level then 2 else 0) +
       sum_list (map (\<lambda>f. length (f_visible f)) (ac_fireballs a))) (m_actors m)) +
     (if level then 1 else 0) + sum_list (map (\<lambda>e. length (en_visible e)) (m_entities m))"

definition fireball_objects :: "CoopActor \<Rightarrow> PpuExtraObject list" where
  "fireball_objects a = concat (map (\<lambda>f. if f_visible f = [] then []
     else [piece_object (f_id f) (v_pixels (hd (f_visible f))) (hd (f_visible f))]) (ac_fireballs a))"

definition entity_objects :: "CoopEntity \<Rightarrow> PpuExtraObject list" where
  "entity_objects e = map (\<lambda>v. piece_object (en_id e) (v_pixels v) v) (en_visible e)"

definition actor_objects :: "CoopMachine \<Rightarrow> nat \<Rightarrow> PpuExtraObject list" where
  "actor_objects m i =
     (let a = m_actors m ! i
      in if ac_player a = primary (m_session m) then []
         else map (\<lambda>v. piece_object (ac_player a + 1) (uncovered_pixels m i v) v) (ac_visible a))"

record Hud =
  hd_columns :: nat
  hd_start :: int
  hd_timer :: int

definition hud_layout :: "int \<Rightarrow> nat \<Rightarrow> Hud" where
  "hud_layout width actors =
     (let columns0 = unat (word_of_int ((width - 192) sdiv 32) :: u64); columns1 = (if columns0 = 0 then 1 else columns0);
          columns = (if columns1 > actors then actors else columns1);
          start0 = width sdiv 2 - int (columns * 32 div 2); start = (if start0 < 112 then 112 else start0);
          final = start + int (columns * 32); timer = width - 112
      in \<lparr>hd_columns = columns, hd_start = start, hd_timer = (if timer < final - 8 then final - 8 else timer)\<rparr>)"

definition blank_picture :: "u16 list" where
  "blank_picture = replicate DRAW_PIXELS 0"

definition decor :: "int \<Rightarrow> int \<Rightarrow> nat \<Rightarrow> nat \<Rightarrow> u32 \<Rightarrow> u16 list \<Rightarrow> PpuExtraObject" where
  "decor x y width height owner pixels = \<lparr>xo_x = x, xo_y = y, xo_width = width, xo_height = height, xo_stride = width,
     xo_priority = 3, xo_math = 0, xo_slot = 0, xo_owner = owner, xo_picture = pixels\<rparr>"

definition clamp_between :: "int \<Rightarrow> int \<Rightarrow> int \<Rightarrow> int" where
  "clamp_between lo hi n = (let n1 = (if n < lo then lo else n) in if n1 > hi then hi else n1)"

text \<open>The bubble of a player that waits, or the warning of one that is left behind.\<close>

definition bubble_objects :: "CoopMachine \<Rightarrow> mem \<Rightarrow> int \<Rightarrow> int \<Rightarrow> nat \<Rightarrow> CoopPlayer \<Rightarrow> PpuExtraObject list" where
  "bubble_objects m ram width native place p =
     (let s = m_session m; bubble = (p_life p = COOP_DEATH_BUBBLE \<or> p_life p = COOP_CATCHUP_BUBBLE)
      in if \<not> bubble \<and> p_separation_ticks p = 0 then []
         else if outcome s \<noteq> COOP_CONTINUE then []
         else case coop_player s (coop_nearest_player s (p_x p) (p_y p) False False) of
                None \<Rightarrow> []
              | Some k \<Rightarrow>
                  let survivor = players s ! k;
                      x0 = (if bubble then sint (p_x survivor) - int (rd16 ram 0x1a) + 20 + int place * 26
                            else if sint (p_x p) < sint (p_x survivor) then 4 - native else width - 28 - native);
                      x = clamp_between (4 - native) (width - 28 - native) x0;
                      y = clamp_between 44 188 (sint (p_y survivor) - int (rd16 ram 0x1c) - 56)
                  in [decor x (y + int (unat (frame_no s) div 8 mod 4) - 2) 24 24 (p_id p + 1) (bubble_picture p blank_picture)])"

definition player_rank :: "CoopMachine \<Rightarrow> CoopPlayer \<Rightarrow> nat" where
  "player_rank m p = length (filter (\<lambda>a. coop_player_precedes (m_session m) (ac_player a) (p_id p)) (m_actors m))"

definition hud_objects ::
  "Ppu \<Rightarrow> mem \<Rightarrow> mem \<Rightarrow> int \<Rightarrow> int \<Rightarrow> CoopMachine \<Rightarrow> CoopActor \<Rightarrow> PpuExtraObject list" where
  "hud_objects ppu rom ram width native m a =
     (case coop_player (m_session m) (ac_player a) of
        None \<Rightarrow> []
      | Some k \<Rightarrow>
          let p = players (m_session m) ! k; place = player_rank m p; hud = hud_layout width (length (m_actors m))
          in decor (hd_start hud + int (place mod hd_columns hud) * 32 - native) (int (place div hd_columns hud) * 40) 32 40
               (p_id p + 1) (reserve_picture ppu rom ram p blank_picture) #
             bubble_objects m ram width native place p)"

text \<open>\<open>object_bytes\<close> is the size of a \<^verbatim>\<open>PpuExtraObject\<close>; the result is the list given to the PPU and the
capacity of the two arrays.\<close>

definition draw_capacity :: "allocator \<Rightarrow> nat \<Rightarrow> nat \<Rightarrow> nat \<Rightarrow> nat option" where
  "draw_capacity alloc object_bytes capacity num =
     (if num \<le> capacity then Some capacity
      else if num > SIZE_MAX div object_bytes \<or> num > SIZE_MAX div (DRAW_PIXELS * 2) then None
      else if \<not> alloc (num * object_bytes) \<or> \<not> alloc (num * DRAW_PIXELS * 2) then None
      else Some num)"

definition scene_objects :: "CoopMachine \<Rightarrow> PpuExtraObject list" where
  "scene_objects m = concat (map fireball_objects (m_actors m)) @ concat (map entity_objects (m_entities m)) @
     concat (map (actor_objects m) [0..<length (m_actors m)])"

definition SmwCoopPresentationPrepare ::
  "allocator \<Rightarrow> nat \<Rightarrow> bool \<Rightarrow> Ppu \<Rightarrow> mem \<Rightarrow> mem \<Rightarrow> int \<Rightarrow> int \<Rightarrow> bool \<Rightarrow> CoopMachine option \<Rightarrow> nat \<Rightarrow>
   (PpuExtraObject list \<times> nat) option" where
  "SmwCoopPresentationPrepare alloc object_bytes overlay_ok ppu rom ram width native level_scene machine capacity =
     (case machine of
        None \<Rightarrow> Some ([], capacity)
      | Some m \<Rightarrow>
          let level = (m_room_initialized m \<and> level_scene)
          in case draw_capacity alloc object_bytes capacity (wanted_objects m level) of
               None \<Rightarrow> None
             | Some capacity' \<Rightarrow>
                 if level then
                   (if \<not> overlay_ok then None
                    else Some (scene_objects m @
                      decor (hd_timer (hud_layout width (length (m_actors m))) - native) 0 32 40 1 (hud_picture ppu 144 blank_picture) #
                      concat (map (hud_objects ppu rom ram width native m) (m_actors m)), capacity'))
                 else Some (scene_objects m, capacity'))"


section \<open>Captured pieces\<close>

lemma captured_piece_ok:
  assumes "slot < 128"
  shows "piece_ok (captured_piece ppu ram pic palette ox oy slot)"
proof -
  have "(of_nat (k mod 4) :: u32) \<le> 3" for k
    by (simp add: word_le_nat_alt unat_of_nat take_bit_eq_mod)
  moreover have "(of_nat slot :: u32) < 128" using assms by (simp add: word_less_nat_alt unat_of_nat take_bit_eq_mod)
  ultimately show ?thesis
    by (simp add: piece_ok_def piece_valid_def captured_piece_def Let_def COOP_PIECE_PIXELS_def del: of_nat_mod upt_rec_numeral)
qed

definition captured_ok :: "nat \<Rightarrow> nat \<Rightarrow> CoopVisualPiece list \<Rightarrow> bool" where
  "captured_ok capacity slots pieces \<longleftrightarrow> length pieces \<le> capacity \<and> list_all piece_ok pieces \<and>
     sorted_wrt (\<lambda>v w. unat (v_slot v) < unat (v_slot w)) pieces \<and> list_all (\<lambda>v. unat (v_slot v) < slots) pieces"

lemma captured_slot: "slot < 128 \<Longrightarrow> unat (v_slot (captured_piece ppu ram pic palette ox oy slot)) = slot"
  by (simp add: captured_piece_def Let_def unat_of_nat take_bit_eq_mod)

lemma capture_step_ok:
  assumes "captured_ok capacity slot pieces" "slot < 128"
    and "capture_step ppu rom ram pic palette capacity po ox oy (Some pieces) slot = Some pieces'"
  shows "captured_ok capacity (Suc slot) pieces'"
proof -
  let ?v = "captured_piece ppu ram pic palette ox oy slot"
  have weak: "captured_ok capacity (Suc slot) pieces"
    using assms(1) by (auto simp: captured_ok_def list_all_iff less_Suc_eq)
  have "captured_ok capacity (Suc slot) (pieces @ [?v])" if "length pieces \<noteq> capacity"
    using assms(1,2) that captured_piece_ok [OF assms(2)] captured_slot [OF assms(2)]
    by (auto simp: captured_ok_def list_all_iff sorted_wrt_append less_Suc_eq)
  with weak assms(3) show ?thesis by (auto simp: capture_step_def Let_def split: if_splits)
qed

lemma capture_step_None: "capture_step ppu rom ram pic palette capacity po ox oy None slot = None"
  by (simp add: capture_step_def)

lemma capture_loop_ok:
  "n \<le> 128 \<Longrightarrow> foldl (capture_step ppu rom ram pic palette capacity po ox oy) (Some []) [0..<n] = Some pieces \<Longrightarrow>
     captured_ok capacity n pieces"
proof (induction n arbitrary: pieces)
  case (Suc n)
  let ?f = "foldl (capture_step ppu rom ram pic palette capacity po ox oy) (Some []) [0..<n]"
  obtain before where b: "?f = Some before"
    using Suc.prems(2) by (cases ?f) (simp_all add: capture_step_None)
  then have "captured_ok capacity n before" using Suc.IH Suc.prems(1) by simp
  then show ?case using capture_step_ok [of capacity n before] Suc.prems b by simp
qed (simp add: captured_ok_def)

text \<open>
  Whatever the game's memory holds, a capture of a player, a mount or a fireball ends the program
  or gives pieces that a snapshot accepts: at most as many as their owner can hold, each of a legal
  size, priority and table entry with its 256 pixels, in the order of distinct table entries.
\<close>

lemma captures_are_valid:
  assumes "capture_pieces ppu rom ram capacity primary_only origin_x origin_y = Some pieces"
  shows "length pieces \<le> capacity \<and> list_all piece_ok pieces \<and>
    sorted_wrt (\<lambda>v w. unat (v_slot v) < unat (v_slot w)) pieces"
proof -
  have "\<exists>pic palette. foldl (capture_step ppu rom ram pic palette capacity primary_only origin_x origin_y) (Some []) [0..<128] = Some pieces"
    using assms by (auto simp: capture_pieces_def Let_def simp del: upt_rec_numeral split: if_splits)
  then have "captured_ok capacity 128 pieces" using capture_loop_ok [of 128] by blast
  then show ?thesis by (simp add: captured_ok_def)
qed

section \<open>The latch keeps the pieces valid\<close>

definition pieces_ok :: "CoopMachine \<Rightarrow> bool" where
  "pieces_ok m \<longleftrightarrow>
     (\<forall>a \<in> set (m_actors m). length (ac_pending a) \<le> COOP_BODY_PIECES \<and> list_all piece_ok (ac_pending a @ ac_visible a) \<and>
        length (ac_visible a) \<le> COOP_BODY_PIECES \<and>
        (\<forall>f \<in> set (ac_fireballs a). length (f_pending f) \<le> 1 \<and> length (f_visible f) \<le> 1 \<and>
           list_all piece_ok (f_pending f @ f_visible f))) \<and>
     (\<forall>e \<in> set (m_entities m). length (en_pending e) \<le> COOP_MOUNT_PIECES \<and> length (en_visible e) \<le> COOP_MOUNT_PIECES \<and>
        list_all piece_ok (en_pending e @ en_visible e))"

lemma capture_visual_ok:
  "capture_visual ppu rom ram po = Some pieces \<Longrightarrow> length pieces \<le> COOP_BODY_PIECES \<and> list_all piece_ok pieces"
proof -
  assume "capture_visual ppu rom ram po = Some pieces"
  then have "\<exists>pic palette ox oy. foldl (capture_step ppu rom ram pic palette COOP_BODY_PIECES po ox oy) (Some []) [0..<128] = Some pieces"
    by (auto simp: capture_visual_def capture_pieces_def Let_def simp del: upt_rec_numeral split: if_splits)
  then have "captured_ok COOP_BODY_PIECES 128 pieces" using capture_loop_ok [of 128] by blast
  then show ?thesis by (simp add: captured_ok_def)
qed

lemma set_pending_ok:
  assumes "pieces_ok m" "length pieces \<le> COOP_BODY_PIECES" "list_all piece_ok pieces"
  shows "pieces_ok (m\<lparr>m_actors := upd_at i (ac_pending_update (\<lambda>_. pieces)) (m_actors m)\<rparr>)"
proof (cases "i < length (m_actors m)")
  case True
  have "set (upd_at i (ac_pending_update (\<lambda>_. pieces)) (m_actors m)) \<subseteq>
      insert ((m_actors m ! i)\<lparr>ac_pending := pieces\<rparr>) (set (m_actors m))" by (rule set_upd_at [OF True])
  moreover have "m_actors m ! i \<in> set (m_actors m)" using True by simp
  ultimately show ?thesis using assms unfolding pieces_ok_def by (auto dest!: subsetD)
qed (use assms in \<open>simp add: pieces_ok_def\<close>)

lemma latch_keeps_pieces:
  assumes "pieces_ok m" "SmwCoopPresentationLatch ppu rom ram level m = Some m'"
  shows "pieces_ok m'"
proof -
  obtain m1 where m1: "(if level \<and> m_room_initialized m then capture_primary ppu rom ram m else Some m) = Some m1"
    "m' = m1\<lparr>m_actors := map (latch_actor level) (m_actors m1), m_entities := map (latch_entity level) (m_entities m1)\<rparr>"
    using assms(2) by (auto simp: SmwCoopPresentationLatch_def)
  have "pieces_ok m1"
    using m1(1) assms(1) set_pending_ok [OF assms(1)] capture_visual_ok
    by (auto simp: capture_primary_def Let_def split: if_splits option.splits)
  then show ?thesis unfolding m1(2) pieces_ok_def
    by (auto simp: latch_actor_def latch_entity_def latch_fireball_def Let_def)
qed

section \<open>The arrays hold the objects of the frame\<close>

lemma concat_length: "length (concat xss) = sum_list (map length xss)"
  by (simp add: length_concat)

lemma fireball_count: "length (fireball_objects a) \<le> sum_list (map (\<lambda>f. length (f_visible f)) (ac_fireballs a))"
  unfolding fireball_objects_def concat_length map_map
  by (rule sum_list_mono) (auto simp: Suc_le_eq)

lemma hud_count: "length (hud_objects ppu rom ram width native m a) \<le> 2"
  by (simp add: hud_objects_def bubble_objects_def Let_def split: option.split)

lemma actors_count:
  "sum_list (map length (map (actor_objects m) [0..<length (m_actors m)])) =
   sum_list (map (\<lambda>a. if ac_player a \<noteq> primary (m_session m) then length (ac_visible a) else 0) (m_actors m))"
proof -
  have "map (\<lambda>i. length (actor_objects m i)) [0..<length (m_actors m)] =
      map (\<lambda>a. if ac_player a \<noteq> primary (m_session m) then length (ac_visible a) else 0) (m_actors m)"
    by (rule nth_equalityI) (simp_all add: actor_objects_def Let_def)
  then show ?thesis by (simp add: o_def)
qed

lemma scene_count:
  "length (scene_objects m) + sum_list (map (\<lambda>a. if level then 2 else 0) (m_actors m)) + (if level then 1 else 0) \<le> wanted_objects m level"
proof -
  have f: "sum_list (map length (map fireball_objects (m_actors m))) \<le>
      sum_list (map (\<lambda>a. sum_list (map (\<lambda>f. length (f_visible f)) (ac_fireballs a))) (m_actors m))"
    unfolding map_map by (rule sum_list_mono) (simp add: fireball_count)
  have e: "sum_list (map length (map entity_objects (m_entities m))) = sum_list (map (\<lambda>e. length (en_visible e)) (m_entities m))"
    by (simp add: o_def entity_objects_def)
  show ?thesis using f e
    unfolding scene_objects_def wanted_objects_def length_append concat_length actors_count sum_list_addf by simp
qed

lemma hud_total:
  "sum_list (map length (map (hud_objects ppu rom ram width native m) (m_actors m))) \<le> sum_list (map (\<lambda>a. 2) (m_actors m))"
  unfolding map_map by (rule sum_list_mono) (simp add: hud_count)

definition picture_covers :: "PpuExtraObject \<Rightarrow> bool" where
  "picture_covers obj \<longleftrightarrow> 0 < xo_height obj \<and> xo_width obj \<le> xo_stride obj \<and>
     xo_stride obj * xo_height obj \<le> length (xo_picture obj) \<and> length (xo_picture obj) \<le> DRAW_PIXELS"

lemma plot_length [simp]: "length (plot stride rows cols colour pixels) = length pixels"
proof -
  have "length (foldl (\<lambda>px (y, x). case colour y x of None \<Rightarrow> px | Some c \<Rightarrow> px[y * stride + x := c]) pixels ps) = length pixels" for ps
    by (induction ps arbitrary: pixels) (auto split: option.split)
  then show ?thesis by (simp add: plot_def)
qed


lemma foldl_set_length:
  "(\<And>px p. length (f px p) = length px) \<Longrightarrow> length (foldl f pixels ps) = length (pixels :: 'a list)"
  by (induction ps arbitrary: pixels) simp_all

lemma draw_digit_length [simp]: "length (draw_digit stride x y n colour pixels) = length pixels"
  unfolding draw_digit_def by (rule foldl_set_length) (auto split: prod.split)

lemma draw_number_length [simp]: "length (draw_number stride x y n colour pixels) = length pixels"
  by (induction stride x y n colour pixels rule: draw_number.induct) (simp add: draw_number.simps [of stride x y n colour pixels for stride x y n colour pixels])

lemma identity_length [simp]: "length (identity stride y p pixels) = length pixels"
  unfolding identity_def Let_def draw_number_length by (rule foldl_set_length) (auto split: prod.split)

lemma pictures_length [simp]:
  "length (hud_picture ppu source_x pixels) = length pixels" "length (bubble_picture p pixels) = length pixels"
  by (simp_all add: hud_picture_def bubble_picture_def Let_def)

lemma reserve_length [simp]: "length (reserve_picture ppu rom ram p pixels) = length pixels"
proof -
  have box: "length (foldl (\<lambda>px (y, x). case item_colour ppu tile attr y x of None \<Rightarrow> px
      | Some c \<Rightarrow> px[(y + 15) * DECOR_WIDTH + x + 8 := c]) px0 ps) = length px0" for tile attr px0 ps
    by (rule foldl_set_length) (auto split: prod.split option.split)
  have badge: "length (foldl (\<lambda>px (y, x). if odd ((letter :: nat list) ! y div 2 ^ (4 - x))
      then px[(y + 9) * DECOR_WIDTH + x + 4 := c] else px) px0 ps) = length px0" for letter c px0 ps
    by (rule foldl_set_length) (auto split: prod.split)
  show ?thesis unfolding reserve_picture_def Let_def by (simp only: badge box plot_length identity_length pictures_length split: if_split) simp
qed


lemma draw_pixels: "DRAW_PIXELS = 1280"
  by (simp add: DRAW_PIXELS_def DECOR_WIDTH_def DECOR_HEIGHT_def)

lemma piece_covers:
  assumes "piece_ok v" "length pixels = COOP_PIECE_PIXELS"
  shows "picture_covers (piece_object owner pixels v)"
proof -
  have "v_width v = 8 \<or> v_width v = 16" "v_height v = v_width v"
    using assms(1) by (simp_all add: piece_ok_def piece_valid_def)
  then show ?thesis using assms(2)
    by (auto simp: picture_covers_def piece_object_def draw_pixels COOP_PIECE_PIXELS_def)
qed

lemma decor_covers:
  "0 < h \<Longrightarrow> w * h \<le> DRAW_PIXELS \<Longrightarrow> length pixels = DRAW_PIXELS \<Longrightarrow> picture_covers (decor x y w h owner pixels)"
  by (simp add: picture_covers_def decor_def)

lemma scene_covers:
  assumes "pieces_ok m"
  shows "list_all picture_covers (scene_objects m)"
proof -
  have v: "picture_covers (piece_object owner (v_pixels v) v)" if "piece_ok v" for owner v
    using that by (intro piece_covers) (simp_all add: piece_ok_def)
  have u: "picture_covers (piece_object owner (uncovered_pixels m i v) v)" if "piece_ok v" for owner i v
    using that by (intro piece_covers) (simp_all add: piece_ok_def uncovered_pixels_def)
  have "picture_covers ob" if "a \<in> set (m_actors m)" "ob \<in> set (fireball_objects a)" for a ob
    using assms that v unfolding pieces_ok_def fireball_objects_def
    by (fastforce simp: list_all_iff neq_Nil_conv)
  moreover have "picture_covers ob" if "e \<in> set (m_entities m)" "ob \<in> set (entity_objects e)" for e ob
    using assms that v unfolding pieces_ok_def entity_objects_def by (fastforce simp: list_all_iff)
  moreover have "picture_covers ob" if "i < length (m_actors m)" "ob \<in> set (actor_objects m i)" for i ob
  proof -
    have "list_all piece_ok (ac_visible (m_actors m ! i))" using assms that(1) by (simp add: pieces_ok_def)
    then show ?thesis using that(2) u by (auto simp: actor_objects_def Let_def list_all_iff split: if_splits)
  qed
  ultimately show ?thesis by (auto simp: scene_objects_def list_all_iff)
qed

lemma hud_covers: "list_all picture_covers (hud_objects ppu rom ram width native m a)"
  by (auto simp: hud_objects_def bubble_objects_def Let_def blank_picture_def draw_pixels intro!: decor_covers
      split: option.split)

lemma capacity_enough: "draw_capacity alloc ob capacity num = Some cap \<Longrightarrow> num \<le> cap"
  by (auto simp: draw_capacity_def split: if_splits)

text \<open>
  C40. The frame's objects fit the arrays that were allocated for them, which the code indexes without
  a check: their number never exceeds the capacity, and every picture holds all the pixels of its
  object and no more than its slot of the array.
\<close>

theorem prepare_fits:
  assumes "pieces_ok m"
    and "SmwCoopPresentationPrepare alloc object_bytes overlay_ok ppu rom ram width native level_scene (Some m) capacity =
      Some (objs, cap)"
  shows "length objs \<le> cap \<and> list_all picture_covers objs"
proof -
  let ?level = "m_room_initialized m \<and> level_scene"
  let ?hud = "decor (hd_timer (hud_layout width (length (m_actors m))) - native) 0 32 40 1 (hud_picture ppu 144 blank_picture) #
      concat (map (hud_objects ppu rom ram width native m) (m_actors m))"
  obtain cap' where cap': "draw_capacity alloc object_bytes capacity (wanted_objects m ?level) = Some cap'"
    using assms(2) by (auto simp: SmwCoopPresentationPrepare_def Let_def split: option.splits)
  have o: "objs = (if ?level then scene_objects m @ ?hud else scene_objects m)" "cap = cap'"
    using assms(2) cap' by (auto simp: SmwCoopPresentationPrepare_def Let_def split: if_splits)
  have "length objs \<le> wanted_objects m ?level"
    using scene_count [of m ?level] hud_total [of ppu rom ram width native m]
    by (auto simp: o(1) concat_length)
  then have "length objs \<le> cap" using capacity_enough [OF cap'] o(2) by simp
  moreover have "list_all picture_covers objs"
    using scene_covers [OF assms(1)] hud_covers [of ppu rom ram width native m]
    by (auto simp: o(1) list_all_iff blank_picture_def draw_pixels intro!: decor_covers)
  ultimately show ?thesis ..
qed

end
