(* ===== verification/Coop_Resolve.thy ===== *)
theory Coop_Resolve
  imports Coop_Session "HOL-Library.Product_Lexorder"
begin

text \<open>
  \<open>coop_session_resolve\<close> of \<^verbatim>\<open>coop_session.c\<close>: the events of one frame, sorted, become
  actions and player state.  The pass over the events is split where the C function has its three
  loops; the loop over the sorted events recurses on the list of those still to be handled.
\<close>

section \<open>Sorting\<close>

text \<open>
  \<open>compare_event\<close> is the lexicographic comparison of all six fields, so it is a linear order on
  the key below, and \<^verbatim>\<open>qsort\<close> with it is sorting by that key: two events with equal keys are
  the same event.
\<close>

definition event_key :: "CoopEvent \<Rightarrow> u32 \<times> u32 \<times> u32 \<times> u32 \<times> u32 \<times> u64" where
  "event_key e = (kind_code (e_kind e), e_entity e, e_player e, e_value e, e_flags e,
                  e_distance_squared e)"

definition compare_event :: "CoopEvent \<Rightarrow> CoopEvent \<Rightarrow> int" where
  "compare_event a b =
     (if kind_code (e_kind a) \<noteq> kind_code (e_kind b)
      then (if kind_code (e_kind a) < kind_code (e_kind b) then -1 else 1)
      else if e_entity a \<noteq> e_entity b then (if e_entity a < e_entity b then -1 else 1)
      else if e_player a \<noteq> e_player b then (if e_player a < e_player b then -1 else 1)
      else if e_value a \<noteq> e_value b then (if e_value a < e_value b then -1 else 1)
      else if e_flags a \<noteq> e_flags b then (if e_flags a < e_flags b then -1 else 1)
      else if e_distance_squared a \<noteq> e_distance_squared b
      then (if e_distance_squared a < e_distance_squared b then -1 else 1)
      else 0)"

definition sort_events :: "CoopEvent list \<Rightarrow> CoopEvent list" where
  "sort_events es = (if length es > 1 then sort_key event_key es else es)"

lemma compare_event_key:
  "compare_event a b < 0 \<longleftrightarrow> event_key a < event_key b"
  "compare_event a b = 0 \<longleftrightarrow> event_key a = event_key b"
  by (auto simp: compare_event_def event_key_def less_prod_simp)

lemma event_key_inj: "event_key a = event_key b \<longleftrightarrow> a = b"
  by (cases a; cases b) (auto simp: event_key_def)

section \<open>Consequences for one player\<close>

definition dead_player :: "CoopPlayer \<Rightarrow> CoopPlayer" where
  "dead_player p = p\<lparr>p_held_object := COOP_NO_ENTITY, p_mount := COOP_NO_ENTITY,
     p_life := COOP_DYING, p_power := COOP_SMALL, p_star_ticks := 0, p_protection_ticks := 0,
     p_separation_ticks := 0, p_checkpoint_upgrade := False\<rparr>"

definition die :: "allocator \<Rightarrow> nat \<Rightarrow> CoopSession \<Rightarrow> CoopSession" where
  "die alloc i s =
     (let p = players s ! i
      in if p_life p \<noteq> COOP_PLAYING then s
         else
           let s1 = (if p_held_object p \<noteq> COOP_NO_ENTITY
                     then emit alloc COOP_ACTION_DROP_OBJECT (p_id p) (p_held_object p) 0 s else s);
               s2 = (if p_mount p \<noteq> COOP_NO_ENTITY
                     then emit alloc COOP_ACTION_DETACH_MOUNT (p_id p) (p_mount p) 0 s1 else s1);
               s3 = upd_player i dead_player s2
           in emit alloc COOP_ACTION_DEATH (p_id p) COOP_NO_ENTITY 0 s3)"

definition hurt_player :: "u32 \<Rightarrow> CoopPlayer \<Rightarrow> CoopPlayer" where
  "hurt_player hz p = p\<lparr>p_power := COOP_SMALL, p_protection_ticks := hz * 2\<rparr>"

text \<open>The branch \<open>case COOP_EVENT_DAMAGE\<close>, \<open>i\<close> the index of the event's player if it has one.\<close>

definition damage :: "allocator \<Rightarrow> CoopEvent \<Rightarrow> nat option \<Rightarrow> CoopSession \<Rightarrow> CoopSession" where
  "damage alloc e pi s =
     (case pi of None \<Rightarrow> s
      | Some i \<Rightarrow>
          let p = players s ! i
          in if p_life p \<noteq> COOP_PLAYING \<or> p_star_ticks p \<noteq> 0 \<or> p_protection_ticks p \<noteq> 0 then s
             else if e_flags e AND COOP_EVENT_LETHAL \<noteq> 0 then s
             else
               let s1 = (if p_reserve p \<noteq> 0
                         then upd_player i (p_reserve_update (\<lambda>_. 0))
                                (emit alloc COOP_ACTION_DROP_RESERVE (p_id p) COOP_NO_ENTITY (p_reserve p) s)
                         else s);
                   s2 = upd_player i (hurt_player (ticks_per_second s)) s1
               in emit alloc COOP_ACTION_DAMAGE (p_id p) COOP_NO_ENTITY 0 s2)"

definition checkpoint_player :: "CoopPlayer \<Rightarrow> CoopPlayer" where
  "checkpoint_player p =
     (let p1 = (if p_power p = COOP_SMALL then p\<lparr>p_power := COOP_BIG\<rparr> else p)
      in if p_life p1 \<noteq> COOP_PLAYING then p1\<lparr>p_checkpoint_upgrade := True\<rparr> else p1)"

definition death_finished :: "nat option \<Rightarrow> CoopSession \<Rightarrow> CoopSession" where
  "death_finished pi s =
     (case pi of None \<Rightarrow> s
      | Some i \<Rightarrow>
          if p_life (players s ! i) = COOP_DYING
          then upd_player i (\<lambda>p. p\<lparr>p_life := COOP_DEATH_BUBBLE,
                                   p_recovery_ticks := ticks_per_second s * 3\<rparr>) s
          else s)"

section \<open>The first loop: terminal events\<close>

definition secret :: "CoopEvent \<Rightarrow> u32" where
  "secret e = e_flags e AND COOP_EVENT_SECRET"

definition better_exit :: "CoopSession \<Rightarrow> CoopEvent \<Rightarrow> CoopEvent \<Rightarrow> bool" where
  "better_exit s e x \<longleftrightarrow> secret e > secret x \<or>
     (secret e = secret x \<and> coop_player_precedes s (e_player e) (e_player x))"

definition terminal_step ::
  "CoopSession \<Rightarrow> CoopEvent option \<times> bool \<times> u32 \<Rightarrow> CoopEvent \<Rightarrow> CoopEvent option \<times> bool \<times> u32" where
  "terminal_step s = (\<lambda>(exit, timeout, goal_stars) e.
     let timeout' = (if e_kind e = COOP_EVENT_TIMEOUT then True else timeout)
     in if e_kind e \<noteq> COOP_EVENT_EXIT then (exit, timeout', goal_stars)
        else
          let goal_stars' = (if e_value e > goal_stars then e_value e else goal_stars);
              exit' = (case exit of None \<Rightarrow> Some e
                       | Some x \<Rightarrow> if better_exit s e x then Some e else Some x)
          in (exit', timeout', goal_stars'))"

definition terminal_events :: "CoopSession \<Rightarrow> CoopEvent list \<Rightarrow> CoopEvent option \<times> bool \<times> u32" where
  "terminal_events s es = foldl (terminal_step s) (None, False, 0) es"

section \<open>The second loop: lethal hits\<close>

definition lethal_event :: "CoopEvent \<Rightarrow> bool" where
  "lethal_event e \<longleftrightarrow> e_kind e = COOP_EVENT_DEATH \<or>
     (e_kind e = COOP_EVENT_DAMAGE \<and> e_flags e AND COOP_EVENT_LETHAL \<noteq> 0)"

definition lethal_step :: "allocator \<Rightarrow> CoopSession \<Rightarrow> CoopEvent \<Rightarrow> CoopSession" where
  "lethal_step alloc s e =
     (case coop_player s (e_player e) of None \<Rightarrow> s
      | Some i \<Rightarrow> if lethal_event e then die alloc i s else s)"

section \<open>The third loop: contacts, switches, checkpoints and damage\<close>

definition same_group :: "CoopEvent \<Rightarrow> CoopEvent \<Rightarrow> bool" where
  "same_group e v \<longleftrightarrow> e_kind v = e_kind e \<and> e_entity v = e_entity e"

definition better_contact :: "CoopSession \<Rightarrow> CoopEvent \<Rightarrow> CoopEvent \<Rightarrow> bool" where
  "better_contact s v w \<longleftrightarrow> e_distance_squared v < e_distance_squared w \<or>
     (e_distance_squared v = e_distance_squared w \<and>
      coop_player_precedes s (e_player v) (e_player w))"

definition contact_step ::
  "allocator \<Rightarrow> CoopEvent \<Rightarrow> CoopEvent option \<times> u32 \<times> CoopSession \<Rightarrow> CoopEvent \<Rightarrow>
   CoopEvent option \<times> u32 \<times> CoopSession" where
  "contact_step alloc e = (\<lambda>(winner, bounced, s) v.
     case coop_player s (e_player v) of None \<Rightarrow> (winner, bounced, s)
     | Some i \<Rightarrow>
         if p_life (players s ! i) \<noteq> COOP_PLAYING then (winner, bounced, s)
         else
           let winner' = (case winner of None \<Rightarrow> Some v
                          | Some w \<Rightarrow> if better_contact s v w then Some v else Some w)
           in if e_kind e = COOP_EVENT_ENEMY_CONTACT \<and> e_flags v AND COOP_EVENT_STOMP \<noteq> 0 \<and>
                 bounced \<noteq> e_player v
              then (winner', e_player v,
                    emit alloc COOP_ACTION_STOMP_BOUNCE (e_player v) (e_entity v) 0 s)
              else (winner', bounced, s))"

definition contact_group :: "allocator \<Rightarrow> CoopEvent \<Rightarrow> CoopEvent list \<Rightarrow> CoopSession \<Rightarrow> CoopSession" where
  "contact_group alloc e grp s =
     (case foldl (contact_step alloc e) (None, COOP_NO_PLAYER, s) grp of
        (None, _, s1) \<Rightarrow> s1
      | (Some w, _, s1) \<Rightarrow>
          emit alloc (if e_kind e = COOP_EVENT_PICKUP then COOP_ACTION_PICKUP
                      else COOP_ACTION_ENEMY_DAMAGE)
            (e_player w) (e_entity w) (e_value w) s1)"

definition reach_checkpoint :: "allocator \<Rightarrow> CoopEvent \<Rightarrow> CoopSession \<Rightarrow> CoopSession" where
  "reach_checkpoint alloc e s =
     emit alloc COOP_ACTION_CHECKPOINT (e_player e) (e_entity e) (e_value e)
       (s\<lparr>checkpoint := e_value e, players := map checkpoint_player (players s)\<rparr>)"

text \<open>\<open>sw\<close> and \<open>ck\<close> are the loop's flags \<open>switch_done\<close> and \<open>checkpoint_done\<close>.\<close>

function process :: "allocator \<Rightarrow> bool \<Rightarrow> bool \<Rightarrow> CoopEvent list \<Rightarrow> CoopSession \<Rightarrow> CoopSession" where
  "process alloc sw ck [] s = s"
| "process alloc sw ck (e # es) s =
     (let pi = coop_player s (e_player e)
      in case e_kind e of
        COOP_EVENT_PICKUP \<Rightarrow>
          process alloc sw ck (dropWhile (same_group e) es)
            (contact_group alloc e (e # takeWhile (same_group e) es) s)
      | COOP_EVENT_ENEMY_CONTACT \<Rightarrow>
          process alloc sw ck (dropWhile (same_group e) es)
            (contact_group alloc e (e # takeWhile (same_group e) es) s)
      | COOP_EVENT_ON_OFF \<Rightarrow>
          process alloc True ck es
            (if \<not> sw then emit alloc COOP_ACTION_ON_OFF (e_player e) (e_entity e) 0 s else s)
      | COOP_EVENT_CHECKPOINT \<Rightarrow>
          process alloc sw True es (if ck then s else reach_checkpoint alloc e s)
      | COOP_EVENT_DAMAGE \<Rightarrow> process alloc sw ck es (damage alloc e pi s)
      | COOP_EVENT_DEATH_FINISHED \<Rightarrow> process alloc sw ck es (death_finished pi s)
      | COOP_EVENT_DEATH \<Rightarrow> process alloc sw ck es s
      | COOP_EVENT_TIMEOUT \<Rightarrow> process alloc sw ck es s
      | COOP_EVENT_EXIT \<Rightarrow> process alloc sw ck es s)"
  by pat_completeness auto
termination
  by (relation "measure (\<lambda>(alloc, sw, ck, es, s). length es)")
    (auto simp: less_Suc_eq_le length_dropWhile_le)

section \<open>The outcome\<close>

definition conclude ::
  "allocator \<Rightarrow> CoopEvent option \<times> bool \<times> u32 \<Rightarrow> CoopSession \<Rightarrow> CoopSession" where
  "conclude alloc t s =
     (case t of (exit, timeout, goal_stars) \<Rightarrow>
        case exit of
          Some x \<Rightarrow>
            emit alloc COOP_ACTION_EXIT (e_player x) (e_entity x)
              (secret x OR push_bit 8 goal_stars) (s\<lparr>outcome := COOP_CLEAR\<rparr>)
        | None \<Rightarrow>
            if timeout \<or> coop_active_count s = 0 then
              let s1 = (if lives s \<noteq> 0 then s\<lparr>lives := lives s - 1\<rparr> else s);
                  s2 = s1\<lparr>outcome := (if lives s1 \<noteq> 0 then COOP_RETRY else COOP_GAME_OVER)\<rparr>
              in emit alloc (if lives s2 \<noteq> 0 then COOP_ACTION_RETRY else COOP_ACTION_GAME_OVER)
                   COOP_NO_PLAYER COOP_NO_ENTITY (checkpoint s2) s2
            else s)"

definition coop_session_resolve :: "allocator \<Rightarrow> CoopSession \<Rightarrow> bool \<times> CoopSession" where
  "coop_session_resolve alloc s =
     (if failed s then (False, s)
      else if outcome s \<noteq> COOP_CONTINUE \<or> resolved s then (True, s)
      else if \<not> advancing s \<and> events s = [] then (True, s)
      else
        let es = sort_events (events s);
            s1 = s\<lparr>resolved := True, events := es\<rparr>;
            t = terminal_events s1 es;
            s2 = foldl (lethal_step alloc) s1 es;
            s3 = process alloc False False es s2;
            s4 = conclude alloc t s3
        in (\<not> failed s4, s4))"

section \<open>Sorting lemmas\<close>

lemma sort_events_key: "sort_events es = sort_key event_key es"
  by (cases es; cases "tl es") (auto simp: sort_events_def)

lemma set_sort_events [simp]: "set (sort_events es) = set es"
  by (simp add: sort_events_key)

lemma sorted_sort_events: "sorted (map event_key (sort_events es))"
  by (simp add: sort_events_key)

lemma sorted_mset_unique:
  fixes xs ys :: "'a :: linorder list"
  assumes "sorted xs" "sorted ys" "mset xs = mset ys"
  shows "xs = ys"
  using properties_for_sort [OF assms(3) assms(1)] sorted_sort_id [OF assms(2)] by simp

lemma sort_events_perm:
  assumes "mset es = mset es'"
  shows "sort_events es = sort_events es'"
proof -
  have "mset (map event_key (sort_events es)) = mset (map event_key (sort_events es'))"
    using assms by (simp add: sort_events_key)
  then have "map event_key (sort_events es) = map event_key (sort_events es')"
    by (rule sorted_mset_unique [OF sorted_sort_events sorted_sort_events])
  moreover have "inj event_key" by (simp add: inj_def event_key_inj)
  ultimately show ?thesis by (simp add: inj_map_eq_map)
qed

section \<open>What every effect of an event keeps\<close>

text \<open>
  A relation between the session before and after that is reflexive, transitive and holds for
  each branch of the third loop holds for the loop: \<open>loop_contract\<close>.  The branches are built from
  a few primitive effects, queueing an action and a handful of updates of one player; a relation
  that holds for those satisfies the contract (\<open>event_effects\<close>), and \<open>lethal_effects\<close> adds the
  effect that only the second loop has.
\<close>

definition finish_death :: "u32 \<Rightarrow> CoopPlayer \<Rightarrow> CoopPlayer" where
  "finish_death hz p = p\<lparr>p_life := COOP_DEATH_BUBBLE, p_recovery_ticks := hz * 3\<rparr>"

lemma death_finished_alt:
  "death_finished (Some i) s =
     (if p_life (players s ! i) = COOP_DYING
      then upd_player i (finish_death (ticks_per_second s)) s else s)"
  by (auto simp: death_finished_def upd_player_def finish_death_def [abs_def])

locale loop_contract =
  fixes alloc :: allocator and R :: "CoopSession \<Rightarrow> CoopSession \<Rightarrow> bool"
  assumes R_refl: "R s s"
    and R_trans: "R s t \<Longrightarrow> R t u \<Longrightarrow> R s u"
    and R_queue: "k \<in> {COOP_ACTION_PICKUP, COOP_ACTION_ENEMY_DAMAGE, COOP_ACTION_STOMP_BOUNCE,
                       COOP_ACTION_ON_OFF} \<Longrightarrow> R s (emit alloc k p ent v s)"
    and R_reach: "R s (reach_checkpoint alloc e s)"
    and R_damage: "R s (damage alloc e (coop_player s (e_player e)) s)"
    and R_death_finished: "R s (death_finished (coop_player s a) s)"
begin

lemma R_if_switch: "R s (if b then emit alloc COOP_ACTION_ON_OFF p ent v s else s)"
  by (simp add: R_refl R_queue)

lemma R_if_reach: "R s (if b then s else reach_checkpoint alloc e s)"
  by (simp add: R_refl R_reach)

lemma R_contact_fold: "R s0 s \<Longrightarrow> R s0 (snd (snd (foldl (contact_step alloc e) (w, b, s) grp)))"
proof (induction grp arbitrary: w b s)
  case Nil
  then show ?case by simp
next
  case (Cons v grp)
  obtain w' b' s' where st: "contact_step alloc e (w, b, s) v = (w', b', s')"
    by (metis prod_cases3)
  have "s' = s \<or> (\<exists>p ent x. s' = emit alloc COOP_ACTION_STOMP_BOUNCE p ent x s)"
    using st by (auto simp: contact_step_def Let_def split: option.splits if_splits)
  then have "R s s'" by (auto simp: R_refl R_queue)
  with Cons.prems have "R s0 s'" by (rule R_trans)
  with Cons.IH st show ?case by simp
qed

lemma R_contact: "R s (contact_group alloc e grp s)"
proof -
  obtain w b s1 where f: "foldl (contact_step alloc e) (None, COOP_NO_PLAYER, s) grp = (w, b, s1)"
    by (metis prod_cases3)
  with R_contact_fold [OF R_refl, of s e None COOP_NO_PLAYER grp] have "R s s1" by simp
  moreover have "R s1 (emit alloc (if e_kind e = COOP_EVENT_PICKUP then COOP_ACTION_PICKUP
      else COOP_ACTION_ENEMY_DAMAGE) p ent v s1)" for p ent v
    by (simp add: R_queue)
  ultimately show ?thesis
    using f by (cases w) (auto simp: contact_group_def intro: R_trans)
qed

lemma R_process: "R s (process alloc sw ck es s)"
proof (induction alloc \<equiv> alloc sw ck es s rule: process.induct)
  case (1 sw ck s)
  show ?case by (simp add: R_refl)
next
  case (2 sw ck e es s)
  note 2 = 2 [OF refl]
  show ?case
    by (cases "e_kind e")
      (simp_all add: Let_def 2 R_trans [OF R_contact 2(1)] R_trans [OF R_contact 2(2)]
         R_trans [OF R_if_switch 2(3)] R_trans [OF R_if_reach 2(4)]
         R_trans [OF R_damage 2(5)] R_trans [OF R_death_finished 2(7)])
qed

end

locale event_effects =
  fixes alloc :: allocator and R :: "CoopSession \<Rightarrow> CoopSession \<Rightarrow> bool"
  assumes refl: "R s s"
    and trans: "R s t \<Longrightarrow> R t u \<Longrightarrow> R s u"
    and emits: "R s (emit alloc k p ent v s)"
    and reserve: "R s (upd_player i (p_reserve_update (\<lambda>_. 0)) s)"
    and hurt: "R s (upd_player i (hurt_player hz) s)"
    and finish: "i < length (players s) \<Longrightarrow> p_life (players s ! i) = COOP_DYING \<Longrightarrow>
                   R s (upd_player i (finish_death hz) s)"
    and at_checkpoint: "R s (s\<lparr>checkpoint := c, players := map checkpoint_player (players s)\<rparr>)"
begin

lemma damage_R: "R s (damage alloc e pi s)"
proof (cases pi)
  case None
  then show ?thesis by (simp add: damage_def refl)
next
  case (Some i)
  have 1: "R s (emit alloc k p ent v (upd_player i (hurt_player hz) s1))" if "R s s1" for k p ent v hz s1
    by (rule trans [OF trans [OF that hurt] emits])
  have "R s (upd_player i (p_reserve_update (\<lambda>_. 0)) (emit alloc k p ent v s))" for k p ent v
    by (rule trans [OF emits reserve])
  with Some show ?thesis
    by (simp add: damage_def Let_def refl 1)
qed

lemma death_finished_R: "R s (death_finished (coop_player s k) s)"
proof (cases "coop_player s k")
  case None
  then show ?thesis by (simp add: death_finished_def refl)
next
  case (Some i)
  then show ?thesis
    by (auto simp: death_finished_alt refl dest!: coop_player_SomeD intro: finish)
qed

end

sublocale event_effects \<subseteq> loop_contract
  by unfold_locales
    (auto simp: refl emits damage_R death_finished_R reach_checkpoint_def
      intro: trans trans [OF at_checkpoint emits])

locale lethal_effects = event_effects +
  assumes kill: "i < length (players s) \<Longrightarrow> p_life (players s ! i) = COOP_PLAYING \<Longrightarrow>
                   R s (upd_player i dead_player s)"
begin

lemma R_die:
  assumes "i < length (players s)"
  shows "R s (die alloc i s)"
proof (cases "p_life (players s ! i) = COOP_PLAYING")
  case False
  then show ?thesis by (simp add: die_def R_refl)
next
  case True
  define p where "p = players s ! i"
  define s1 where "s1 = (if p_held_object p \<noteq> COOP_NO_ENTITY
      then emit alloc COOP_ACTION_DROP_OBJECT (p_id p) (p_held_object p) 0 s else s)"
  define s2 where "s2 = (if p_mount p \<noteq> COOP_NO_ENTITY
      then emit alloc COOP_ACTION_DETACH_MOUNT (p_id p) (p_mount p) 0 s1 else s1)"
  have pl: "players s1 = players s" "players s2 = players s" by (simp_all add: s1_def s2_def)
  have "R s s1" "R s1 s2" by (auto simp: s1_def s2_def R_refl emits)
  moreover have "R s2 (upd_player i dead_player s2)"
    using True assms by (simp add: kill pl)
  ultimately have "R s (upd_player i dead_player s2)" by (blast intro: R_trans)
  then have "R s (emit alloc COOP_ACTION_DEATH (p_id p) COOP_NO_ENTITY 0 (upd_player i dead_player s2))"
    by (rule R_trans [OF _ emits])
  moreover have "die alloc i s =
      emit alloc COOP_ACTION_DEATH (p_id p) COOP_NO_ENTITY 0 (upd_player i dead_player s2)"
    using True by (simp add: die_def Let_def p_def s1_def s2_def)
  ultimately show ?thesis by simp
qed

lemma R_lethal: "R s (foldl (lethal_step alloc) s es)"
proof (induction es arbitrary: s)
  case Nil
  then show ?case by (simp add: R_refl)
next
  case (Cons e es)
  have "R s (lethal_step alloc s e)"
    by (auto simp: lethal_step_def R_refl split: option.split intro: R_die dest: coop_player_SomeD)
  then show ?case using Cons.IH [of "lethal_step alloc s e"] by (auto intro: R_trans)
qed

end

end
