(* ===== verification/Coop_Camera.thy ===== *)
theory Coop_Camera
  imports Coop_Roster "HOL-Library.Product_Lexorder"
begin

text \<open>
  The second half of \<^verbatim>\<open>coop_session.c\<close>: the shared camera, the catch-up rule for players it
  leaves behind, recovery of bubbles and the level restart.

  Coordinates are \<open>int32_t\<close> objects; the code widens them to \<open>int64_t\<close> for every sum and product,
  which is exact, so the intermediate values are integers.  \<open>sdiv\<close> is the truncating division of
  C.  The conversion back to \<open>int32_t\<close> keeps the low 32 bits.
\<close>

section \<open>The camera\<close>

definition clamp64 :: "int \<Rightarrow> i32 \<Rightarrow> i32 \<Rightarrow> i32" where
  "clamp64 n lo hi = (if n < sint lo then lo else if n > sint hi then hi else word_of_int n)"

definition left_edge :: "CoopPlayer \<Rightarrow> int" where
  "left_edge p = sint (p_x p) - sint (p_half_width p)"

definition right_edge :: "CoopPlayer \<Rightarrow> int" where
  "right_edge p = sint (p_x p) + sint (p_half_width p)"

definition top_edge :: "CoopPlayer \<Rightarrow> int" where
  "top_edge p = sint (p_y p) - sint (p_height p) sdiv 2"

definition bottom_edge :: "CoopPlayer \<Rightarrow> int" where
  "bottom_edge p = sint (p_y p) + sint (p_height p) sdiv 2"

definition playing_players :: "CoopSession \<Rightarrow> CoopPlayer list" where
  "playing_players s = filter (\<lambda>p. p_life p = COOP_PLAYING) (players s)"

text \<open>The bounding box loop: \<open>left\<close>, \<open>right\<close>, \<open>top\<close>, \<open>bottom\<close> over the playing actors.\<close>

definition bounds_step :: "int \<times> int \<times> int \<times> int \<Rightarrow> CoopPlayer \<Rightarrow> int \<times> int \<times> int \<times> int" where
  "bounds_step = (\<lambda>(left, right, upper, lower) p.
     (if left_edge p < left then left_edge p else left,
      if right_edge p > right then right_edge p else right,
      if top_edge p < upper then top_edge p else upper,
      if bottom_edge p > lower then bottom_edge p else lower))"

definition bounding_box :: "CoopSession \<Rightarrow> int \<times> int \<times> int \<times> int" where
  "bounding_box s =
     foldl bounds_step (INT32_MAX, INT32_MIN, INT32_MAX, INT32_MIN) (playing_players s)"

definition progress :: "bool \<Rightarrow> i32 \<Rightarrow> CoopPlayer \<Rightarrow> int" where
  "progress horizontal travel p = sint (if horizontal then p_x p else p_y p) * sint travel"

definition better_leader :: "CoopSession \<Rightarrow> bool \<Rightarrow> i32 \<Rightarrow> CoopPlayer \<Rightarrow> CoopPlayer \<Rightarrow> bool" where
  "better_leader s horizontal travel p q \<longleftrightarrow>
     progress horizontal travel p > progress horizontal travel q \<or>
     (progress horizontal travel p = progress horizontal travel q \<and>
      coop_player_precedes s (p_id p) (p_id q))"

text \<open>The direction \<open>travel_x\<close> or \<open>travel_y\<close> after a step of the focus by \<open>d\<close>.\<close>

definition travel_after :: "bool \<Rightarrow> int \<Rightarrow> i32 \<Rightarrow> i32" where
  "travel_after moves d t = (if moves \<and> d \<noteq> 0 then (if d > 0 then 1 else - 1) else t)"

definition sized_camera :: "i32 \<Rightarrow> i32 \<Rightarrow> i32 \<Rightarrow> i32 \<Rightarrow> bool \<Rightarrow> CoopCamera \<Rightarrow> CoopCamera" where
  "sized_camera w h rw rh autoscroll c =
     c\<lparr>c_width := w, c_height := h, c_room_width := rw, c_room_height := rh,
       c_autoscroll := autoscroll\<rparr>"

definition focus_camera :: "CoopSession \<Rightarrow> CoopCamera \<Rightarrow> CoopCamera" where
  "focus_camera s c =
     (case bounding_box s of (left, right, upper, lower) \<Rightarrow>
        let w = c_width c; h = c_height c; rw = c_room_width c; rh = c_room_height c;
            cx = word_of_int ((left + right) sdiv 2) :: i32;
            cy = word_of_int ((upper + lower) sdiv 2) :: i32;
            dx = sint cx - sint (c_previous_center_x c);
            dy = sint cy - sint (c_previous_center_y c);
            fits = right - left \<le> sint w - 32 \<and> lower - upper \<le> sint h - 32;
            moves = c_initialized c \<and> fits;
            tx = travel_after moves dx (c_travel_x c);
            ty = travel_after moves dy (c_travel_y c);
            horizontal = (right - left - (sint w - 32) \<ge> lower - upper - (sint h - 32));
            travel = (if horizontal then tx else ty);
            leader = (if fits then None
                      else pick (better_leader s horizontal travel) None (playing_players s));
            fx = (case leader of None \<Rightarrow> cx | Some p \<Rightarrow> p_x p);
            fy = (case leader of None \<Rightarrow> cy | Some p \<Rightarrow> p_y p);
            c1 = c\<lparr>c_travel_x := tx, c_travel_y := ty,
                   c_previous_center_x := cx, c_previous_center_y := cy, c_initialized := True,
                   c_leader := (case leader of None \<Rightarrow> COOP_NO_PLAYER | Some p \<Rightarrow> p_id p)\<rparr>
        in if \<not> c_autoscroll c
           then c1\<lparr>c_x := clamp64 (sint fx - sint w sdiv 2) 0 (if sint rw > sint w then rw - w else 0),
                   c_y := clamp64 (sint fy - sint h sdiv 2) 0 (if sint rh > sint h then rh - h else 0)\<rparr>
           else c1)"

definition coop_camera_frame ::
  "i32 \<Rightarrow> i32 \<Rightarrow> i32 \<Rightarrow> i32 \<Rightarrow> bool \<Rightarrow> CoopSession \<Rightarrow> bool \<times> CoopSession" where
  "coop_camera_frame w h rw rh autoscroll s =
     (if failed s \<or> sint w < 32 \<or> sint h < 32 \<or> sint rw < 1 \<or> sint rh < 1 then (False, s)
      else
        let resized = (c_width (camera s) \<noteq> w \<or> c_height (camera s) \<noteq> h);
            s1 = s\<lparr>camera := sized_camera w h rw rh autoscroll (camera s),
                   players := (if resized then map (p_separation_ticks_update (\<lambda>_. 0)) (players s)
                               else players s)\<rparr>
        in if coop_active_count s1 = 0 then (True, s1)
           else (True, s1\<lparr>camera := focus_camera s1 (camera s1)\<rparr>))"

section \<open>Catch-up bubbles\<close>

definition outside_view :: "CoopCamera \<Rightarrow> CoopPlayer \<Rightarrow> bool" where
  "outside_view c p \<longleftrightarrow>
     left_edge p < sint (c_x c) \<or> right_edge p > sint (c_x c) + sint (c_width c) \<or>
     top_edge p < sint (c_y c) \<or> bottom_edge p > sint (c_y c) + sint (c_height c)"

definition strand_player :: "u32 \<Rightarrow> CoopPlayer \<Rightarrow> CoopPlayer" where
  "strand_player hz p = p\<lparr>p_held_object := COOP_NO_ENTITY, p_life := COOP_CATCHUP_BUBBLE,
     p_recovery_ticks := hz div 2, p_separation_ticks := 0\<rparr>"

text \<open>One round of the loop over the players, over \<open>active\<close> and the session.\<close>

definition separation_step ::
  "allocator \<Rightarrow> bool \<Rightarrow> nat \<times> CoopSession \<Rightarrow> nat \<Rightarrow> nat \<times> CoopSession" where
  "separation_step alloc resized = (\<lambda>(active, s) i.
     let p = players s ! i; c = camera s
     in if p_life p \<noteq> COOP_PLAYING then (active, s)
        else if \<not> outside_view c p \<or> p_id p = c_leader c \<or> active \<le> 1
        then (active, upd_player i (p_separation_ticks_update (\<lambda>_. 0)) s)
        else if resized then (active, s)
        else
          let ticks = p_separation_ticks p + 1;
              s1 = upd_player i (p_separation_ticks_update (\<lambda>_. ticks)) s
          in if ticks < ticks_per_second s then (active, s1)
             else
               let s2 = (if p_held_object p \<noteq> COOP_NO_ENTITY
                         then emit alloc COOP_ACTION_DROP_OBJECT (p_id p) (p_held_object p) 0 s1
                         else s1)
               in (active - 1, upd_player i (strand_player (ticks_per_second s)) s2))"

definition coop_camera_check_separation ::
  "allocator \<Rightarrow> bool \<Rightarrow> CoopSession \<Rightarrow> bool \<times> CoopSession" where
  "coop_camera_check_separation alloc resized s =
     (if failed s then (False, s)
      else if \<not> advancing s \<or> outcome s \<noteq> COOP_CONTINUE \<or> c_autoscroll (camera s) then (True, s)
      else
        let s' = snd (foldl (separation_step alloc resized) (coop_active_count s, s)
                        [0..<length (players s)])
        in (\<not> failed s', s'))"

definition coop_camera_update ::
  "allocator \<Rightarrow> i32 \<Rightarrow> i32 \<Rightarrow> i32 \<Rightarrow> i32 \<Rightarrow> bool \<Rightarrow> CoopSession \<Rightarrow> bool \<times> CoopSession" where
  "coop_camera_update alloc w h rw rh autoscroll s =
     (let resized = (c_width (camera s) \<noteq> w \<or> c_height (camera s) \<noteq> h)
      in case coop_camera_frame w h rw rh autoscroll s of
           (True, s1) \<Rightarrow> coop_camera_check_separation alloc resized s1
         | (False, s1) \<Rightarrow> (False, s1))"

section \<open>Recovery\<close>

text \<open>
  \<open>CoopSafePlacement\<close>: a query without side effects, from the returning player and the anchor to
  the position where the player may appear, if there is one.  Its context may hold a pointer to
  the session that is being changed (\<open>CoopTerrain.session\<close> does), so the query sees the session
  of the moment it is made.
\<close>

type_synonym safe_placement = "CoopSession \<Rightarrow> CoopPlayer \<Rightarrow> CoopPlayer \<Rightarrow> (i32 \<times> i32) option"

definition anchor_step ::
  "safe_placement \<Rightarrow> CoopSession \<Rightarrow> CoopPlayer \<Rightarrow> u32 \<times> u64 \<times> i32 \<times> i32 \<Rightarrow> u32 \<Rightarrow>
   u32 \<times> u64 \<times> i32 \<times> i32" where
  "anchor_step safe s p = (\<lambda>(winner, best, wx, wy) aid.
     case coop_player s aid of None \<Rightarrow> (winner, best, wx, wy)
     | Some k \<Rightarrow>
         let a = players s ! k
         in case safe s p a of None \<Rightarrow> (winner, best, wx, wy)
            | Some (x, y) \<Rightarrow>
                let d = distance2 (p_x p) (p_y p) x y
                in if winner = COOP_NO_PLAYER \<or> d < best \<or>
                      (d = best \<and> coop_player_precedes s (p_id a) winner)
                   then (p_id a, d, x, y) else (winner, best, wx, wy))"

definition best_anchor ::
  "safe_placement \<Rightarrow> CoopSession \<Rightarrow> CoopPlayer \<Rightarrow> u32 list \<Rightarrow> u32 \<times> u64 \<times> i32 \<times> i32" where
  "best_anchor safe s p anchors =
     foldl (anchor_step safe s p) (COOP_NO_PLAYER, 0xFFFFFFFFFFFFFFFF, 0, 0) anchors"

definition revive_player :: "u32 \<Rightarrow> i32 \<Rightarrow> i32 \<Rightarrow> CoopPlayer \<Rightarrow> CoopPlayer" where
  "revive_player hz x y p =
     (let p1 = (if p_life p = COOP_DEATH_BUBBLE
                then p\<lparr>p_power := (if p_checkpoint_upgrade p then COOP_BIG else COOP_SMALL),
                       p_protection_ticks := 2 * hz\<rparr>
                else p)
      in p1\<lparr>p_life := COOP_PLAYING, p_x := x, p_y := y, p_checkpoint_upgrade := False,
            p_pressed_input := 0\<rparr>)"

definition recover_step ::
  "allocator \<Rightarrow> safe_placement \<Rightarrow> u32 list \<Rightarrow> CoopSession \<Rightarrow> nat \<Rightarrow> CoopSession" where
  "recover_step alloc safe anchors s i =
     (let p = players s ! i
      in if (p_life p \<noteq> COOP_DEATH_BUBBLE \<and> p_life p \<noteq> COOP_CATCHUP_BUBBLE) \<or> p_recovery_ticks p \<noteq> 0
         then s
         else
           case best_anchor safe s p anchors of
             (winner, best, wx, wy) \<Rightarrow>
               if winner = COOP_NO_PLAYER then s
               else emit alloc COOP_ACTION_RECOVER (p_id p) COOP_NO_ENTITY winner
                      (upd_player i (revive_player (ticks_per_second s) wx wy) s))"

definition coop_session_recover :: "allocator \<Rightarrow> safe_placement \<Rightarrow> CoopSession \<Rightarrow> bool \<times> CoopSession" where
  "coop_session_recover alloc safe s =
     (if failed s then (False, s)
      else if \<not> advancing s \<or> outcome s \<noteq> COOP_CONTINUE then (True, s)
      else if length (players s) > SIZE_MAX div 4 then (False, s)
      else if \<not> alloc (length (players s) * 4) then (False, s\<lparr>failed := True\<rparr>)
      else
        let anchors = map p_id (playing_players s);
            s' = foldl (recover_step alloc safe anchors) s [0..<length (players s)]
        in (\<not> failed s', s'))"

section \<open>Restart\<close>

definition restart_player :: "CoopPlayer \<Rightarrow> CoopPlayer" where
  "restart_player p = p\<lparr>p_life := COOP_PLAYING, p_power := COOP_SMALL, p_mount := COOP_NO_ENTITY,
     p_held_object := COOP_NO_ENTITY, p_star_ticks := 0, p_protection_ticks := 0,
     p_recovery_ticks := 0, p_separation_ticks := 0, p_checkpoint_upgrade := False,
     p_pressed_input := 0\<rparr>"

definition coop_session_restart :: "CoopSession \<Rightarrow> CoopSession" where
  "coop_session_restart s =
     s\<lparr>players := map restart_player (players s), outcome := COOP_CONTINUE, events := [],
       actions := [], camera := (camera s)\<lparr>c_initialized := False, c_leader := COOP_NO_PLAYER\<rparr>\<rparr>"

section \<open>The contracts of the camera\<close>

lemma sized_camera_simps [simp]:
  "c_width (sized_camera w h rw rh a c) = w" "c_height (sized_camera w h rw rh a c) = h"
  "c_room_width (sized_camera w h rw rh a c) = rw" "c_room_height (sized_camera w h rw rh a c) = rh"
  "c_autoscroll (sized_camera w h rw rh a c) = a"
  by (simp_all add: sized_camera_def)

lemma active_playing: "coop_active_count s = length (playing_players s)"
  by (simp add: coop_active_count_def playing_players_def)

lemma focus_camera_size [simp]:
  "c_width (focus_camera s c) = c_width c" "c_height (focus_camera s c) = c_height c"
  "c_room_width (focus_camera s c) = c_room_width c"
  "c_room_height (focus_camera s c) = c_room_height c"
  "c_autoscroll (focus_camera s c) = c_autoscroll c"
  by (auto simp: focus_camera_def Let_def split: prod.split)

lemma camera_frame_roster: "roster_le still_life s (snd (coop_camera_frame w h rw rh a s))"
  by (rule roster_le_map [where f = "if failed s \<or> sint w < 32 \<or> sint h < 32 \<or> sint rw < 1 \<or>
        sint rh < 1 \<or> \<not> (c_width (camera s) \<noteq> w \<or> c_height (camera s) \<noteq> h)
        then id else p_separation_ticks_update (\<lambda>_. 0)"])
    (auto simp: coop_camera_frame_def Let_def)

interpretation camera_op: roster_op "\<lambda>s. snd (coop_camera_frame w h rw rh a s)" still_life
  for w h rw rh a
  by unfold_locales (simp_all add: camera_frame_roster)

text \<open>The rules for clamping.\<close>

lemma sint_clamp64:
  assumes "sint lo \<le> sint hi"
  shows "sint lo \<le> sint (clamp64 n lo hi) \<and> sint (clamp64 n lo hi) \<le> sint hi"
proof -
  have "sint (word_of_int n :: i32) = n" if "sint lo \<le> n" "n \<le> sint hi"
  proof -
    have "- (2 ^ 31) \<le> n" "n < 2 ^ 31"
      using that sint_ge [of lo] sint_lt [of hi] by simp_all
    then show ?thesis by (simp add: sint_sbintrunc' signed_take_bit_int_eq_self)
  qed
  with assms show ?thesis by (auto simp: clamp64_def)
qed

lemma sint_room_rest:
  fixes rw w :: i32
  assumes "sint w \<ge> 32" "sint rw > sint w"
  shows "sint (rw - w) = sint rw - sint w"
proof -
  have "0 \<le> sint rw - sint w" "sint rw - sint w < 2 ^ 31"
    using assms sint_lt [of rw] by simp_all
  then show ?thesis by (simp add: sint_word_diff signed_take_bit_int_eq_self)
qed

lemma clamp_room:
  fixes rw w :: i32
  assumes "sint w \<ge> 32"
  shows "0 \<le> sint (clamp64 n 0 (if sint rw > sint w then rw - w else 0)) \<and>
         sint (clamp64 n 0 (if sint rw > sint w then rw - w else 0)) \<le> max 0 (sint rw - sint w)"
  using sint_clamp64 [of 0 "if sint rw > sint w then rw - w else 0" n] sint_room_rest [OF assms, of rw]
  by (auto simp: max_def split: if_splits)

text \<open>The bounding box: at least as wide as every playing actor, and reached by one on each side.\<close>

lemma bounds_foldl:
  "foldl bounds_step (l, r, t, b) ps =
     (foldl min l (map left_edge ps), foldl max r (map right_edge ps),
      foldl min t (map top_edge ps), foldl max b (map bottom_edge ps))"
proof (induction ps arbitrary: l r t b)
  case Nil
  then show ?case by simp
next
  case (Cons p ps)
  have "bounds_step (l, r, t, b) p =
      (min l (left_edge p), max r (right_edge p), min t (top_edge p), max b (bottom_edge p))"
    by (auto simp: bounds_step_def)
  with Cons show ?case by simp
qed

lemma foldl_min_le: "foldl min (m :: int) xs \<le> m \<and> (\<forall>x \<in> set xs. foldl min m xs \<le> x)"
  by (induction xs arbitrary: m) force+

lemma foldl_max_ge: "m \<le> foldl max (m :: int) xs \<and> (\<forall>x \<in> set xs. x \<le> foldl max m xs)"
  by (induction xs arbitrary: m) force+

lemma bounding_box_covers:
  assumes "bounding_box s = (l, r, t, b)" "p \<in> set (playing_players s)"
  shows "l \<le> left_edge p \<and> right_edge p \<le> r \<and> t \<le> top_edge p \<and> bottom_edge p \<le> b"
  using assms foldl_min_le [of INT32_MAX "map left_edge (playing_players s)"]
    foldl_max_ge [of INT32_MIN "map right_edge (playing_players s)"]
    foldl_min_le [of INT32_MAX "map top_edge (playing_players s)"]
    foldl_max_ge [of INT32_MIN "map bottom_edge (playing_players s)"]
  by (auto simp: bounding_box_def bounds_foldl)

interpretation leader_choice: selection "better_leader s horizontal travel" for s horizontal travel
proof (rule selection_key [where key = "\<lambda>p. (- progress horizontal travel p, rank s (p_id p))"])
  show "better_leader s horizontal travel x y \<longleftrightarrow>
      (- progress horizontal travel x, rank s (p_id x)) < (- progress horizontal travel y, rank s (p_id y))"
    for x y
    by (auto simp: better_leader_def precedes_rank less_prod_simp)
qed

section \<open>The contract of the catch-up rule\<close>

lemma active_upd:
  assumes "i < length (players s)" "p_life (players s ! i) = COOP_PLAYING"
  shows "coop_active_count (upd_player i f s) =
     (if p_life (f (players s ! i)) = COOP_PLAYING then coop_active_count s
      else coop_active_count s - 1)"
proof -
  let ?A = "{j. j < length (players s) \<and> p_life (players s ! j) = COOP_PLAYING}"
  have c: "coop_active_count s = card ?A"
    by (simp add: coop_active_count_def length_filter_conv_card)
  have "coop_active_count (upd_player i f s) =
      card {j. j < length (players s) \<and> p_life (upd_at i f (players s) ! j) = COOP_PLAYING}"
    by (simp add: coop_active_count_def length_filter_conv_card)
  also have "{j. j < length (players s) \<and> p_life (upd_at i f (players s) ! j) = COOP_PLAYING} =
      (if p_life (f (players s ! i)) = COOP_PLAYING then ?A else ?A - {i})"
    using assms by (auto simp: nth_upd_at split: if_splits)
  finally show ?thesis using assms c by simp
qed

lemma active_emit [simp]: "coop_active_count (emit alloc k p ent v s) = coop_active_count s"
  by (simp add: coop_active_count_def)

text \<open>
  What a visit of the loop can do to one player: reset its counter, count one more frame outside,
  or put it into a bubble, the last only after a second outside the view of a camera that another
  player leads.
\<close>

definition separation_effect ::
  "bool \<Rightarrow> u32 \<Rightarrow> CoopCamera \<Rightarrow> CoopPlayer \<Rightarrow> CoopPlayer \<Rightarrow> bool" where
  "separation_effect resized hz c p q \<longleftrightarrow>
     q = p \<or> (p_life p = COOP_PLAYING \<and>
      (q = p\<lparr>p_separation_ticks := 0\<rparr> \<or>
       (outside_view c p \<and> p_id p \<noteq> c_leader c \<and> \<not> resized \<and>
        (if p_separation_ticks p + 1 < hz then q = p\<lparr>p_separation_ticks := p_separation_ticks p + 1\<rparr>
         else q = strand_player hz p))))"

definition separation_inv :: "CoopSession \<Rightarrow> nat \<times> CoopSession \<Rightarrow> bool" where
  "separation_inv s0 = (\<lambda>(active, s).
     active = coop_active_count s \<and> (coop_active_count s0 \<ge> 1 \<longrightarrow> active \<ge> 1) \<and>
     roster_le strand_life s0 s \<and> camera s = camera s0)"

lemma strand_simps [simp]:
  "p_id (strand_player hz p) = p_id p" "p_life (strand_player hz p) = COOP_CATCHUP_BUBBLE"
  by (simp_all add: strand_player_def)

lemma roster_le_emit: "roster_le steps s t \<Longrightarrow> roster_le steps s (emit alloc k p ent v t)"
  by (erule roster_le_trans) (rule roster_le_same_players, simp_all)

text \<open>The five ways through one round.\<close>

lemma separation_step_off:
  "p_life (players s ! i) \<noteq> COOP_PLAYING \<Longrightarrow> separation_step alloc resized (active, s) i = (active, s)"
  by (simp add: separation_step_def)

lemma separation_step_inside:
  "p_life (players s ! i) = COOP_PLAYING \<Longrightarrow>
   \<not> outside_view (camera s) (players s ! i) \<or> p_id (players s ! i) = c_leader (camera s) \<or> active \<le> 1 \<Longrightarrow>
   separation_step alloc resized (active, s) i =
     (active, upd_player i (p_separation_ticks_update (\<lambda>_. 0)) s)"
  unfolding separation_step_def prod.case Let_def by simp

definition left_behind :: "nat \<Rightarrow> CoopSession \<Rightarrow> nat \<Rightarrow> bool" where
  "left_behind active s i \<longleftrightarrow> p_life (players s ! i) = COOP_PLAYING \<and>
     outside_view (camera s) (players s ! i) \<and> p_id (players s ! i) \<noteq> c_leader (camera s) \<and> active > 1"

definition one_more_tick :: "nat \<Rightarrow> CoopSession \<Rightarrow> CoopSession" where
  "one_more_tick i s =
     upd_player i (p_separation_ticks_update (\<lambda>_. p_separation_ticks (players s ! i) + 1)) s"

definition drop_held :: "allocator \<Rightarrow> CoopPlayer \<Rightarrow> CoopSession \<Rightarrow> CoopSession" where
  "drop_held alloc p s = (if p_held_object p \<noteq> COOP_NO_ENTITY
     then emit alloc COOP_ACTION_DROP_OBJECT (p_id p) (p_held_object p) 0 s else s)"

lemma separation_step_resized:
  "left_behind active s i \<Longrightarrow> separation_step alloc True (active, s) i = (active, s)"
  unfolding separation_step_def left_behind_def prod.case Let_def by simp

lemma separation_step_count:
  "left_behind active s i \<Longrightarrow> p_separation_ticks (players s ! i) + 1 < ticks_per_second s \<Longrightarrow>
   separation_step alloc False (active, s) i = (active, one_more_tick i s)"
  unfolding separation_step_def left_behind_def one_more_tick_def prod.case Let_def by simp

lemma separation_step_strand:
  "left_behind active s i \<Longrightarrow> \<not> p_separation_ticks (players s ! i) + 1 < ticks_per_second s \<Longrightarrow>
   separation_step alloc False (active, s) i =
     (active - 1, upd_player i (strand_player (ticks_per_second s))
                    (drop_held alloc (players s ! i) (one_more_tick i s)))"
  unfolding separation_step_def left_behind_def one_more_tick_def drop_held_def prod.case Let_def by simp

lemma drop_held_frame [simp]:
  "players (drop_held alloc p s) = players s" "primary (drop_held alloc p s) = primary s"
  "ticks_per_second (drop_held alloc p s) = ticks_per_second s"
  "camera (drop_held alloc p s) = camera s"
  "coop_active_count (drop_held alloc p s) = coop_active_count s"
  by (simp_all add: drop_held_def)

lemma one_more_tick_frame [simp]:
  "primary (one_more_tick i s) = primary s"
  "ticks_per_second (one_more_tick i s) = ticks_per_second s"
  "camera (one_more_tick i s) = camera s"
  "players (one_more_tick i s) =
     upd_at i (p_separation_ticks_update (\<lambda>_. p_separation_ticks (players s ! i) + 1)) (players s)"
  by (simp_all add: one_more_tick_def)

text \<open>A visit that writes one player, whatever it appends to the action queue.\<close>

lemma separation_inv_upd:
  assumes inv: "separation_inv s0 (active, s)" and i: "i < length (players s)"
    and t: "players t = upd_at i f (players s)" "primary t = primary s"
      "ticks_per_second t = ticks_per_second s" "camera t = camera s"
    and f: "\<And>p. p_id (f p) = p_id p"
    and live: "p_life (players s ! i) = COOP_PLAYING"
    and l: "p_life (f (players s ! i)) = COOP_PLAYING \<and> active' = active \<or>
      p_life (f (players s ! i)) = COOP_CATCHUP_BUBBLE \<and> active > 1 \<and> active' = active - 1"
  shows "separation_inv s0 (active', t)"
proof -
  have "roster_le strand_life s (upd_player i f s)"
    by (rule roster_le_upd) (use f live l in \<open>auto simp: life_at_def strand_life_star\<close>)
  moreover have "roster_le strand_life (upd_player i f s) t"
    by (rule roster_le_same_players) (simp_all add: t)
  moreover have "roster_le strand_life s0 s" using inv by (simp add: separation_inv_def)
  ultimately have r: "roster_le strand_life s0 t" by (meson roster_le_trans)
  have "coop_active_count t = coop_active_count (upd_player i f s)"
    by (simp add: coop_active_count_def t)
  also have "\<dots> = (if p_life (f (players s ! i)) = COOP_PLAYING then coop_active_count s
      else coop_active_count s - 1)"
    by (rule active_upd [OF i live])
  finally have "coop_active_count t = active'" using l inv by (auto simp: separation_inv_def)
  with r l inv t(4) show ?thesis by (auto simp: separation_inv_def)
qed

lemma separation_visit:
  assumes inv: "separation_inv s0 (active, s)" and i: "i < length (players s0)"
    and fresh: "players s ! i = players s0 ! i"
    and st: "separation_step alloc resized (active, s) i = (active', s')"
  shows "separation_inv s0 (active', s') \<and> (\<forall>j. j \<noteq> i \<longrightarrow> players s' ! j = players s ! j) \<and>
     separation_effect resized (ticks_per_second s0) (camera s0) (players s0 ! i) (players s' ! i)"
proof -
  let ?p = "players s ! i" and ?hz = "ticks_per_second s"
  have r: "roster_le strand_life s0 s" and c: "camera s = camera s0"
    using inv by (auto simp: separation_inv_def)
  have hz: "?hz = ticks_per_second s0" using r by (simp add: roster_le_def)
  have i': "i < length (players s)" using i r ids_length [of s s0] by (simp add: roster_le_def)
  consider (off) "p_life ?p \<noteq> COOP_PLAYING"
    | (inside) "p_life ?p = COOP_PLAYING"
        "\<not> outside_view (camera s) ?p \<or> p_id ?p = c_leader (camera s) \<or> active \<le> 1"
    | (resized) "left_behind active s i" "resized"
    | (count) "left_behind active s i" "\<not> resized" "p_separation_ticks ?p + 1 < ?hz"
    | (strand) "left_behind active s i" "\<not> resized" "\<not> p_separation_ticks ?p + 1 < ?hz"
    using not_le [of active 1] unfolding left_behind_def by blast
  then show ?thesis
  proof cases
    case off
    then show ?thesis using st inv fresh by (simp add: separation_step_off separation_effect_def)
  next
    case inside
    have e: "active' = active" "s' = upd_player i (p_separation_ticks_update (\<lambda>_. 0)) s"
      using st separation_step_inside [OF inside] by simp_all
    have "separation_inv s0 (active', s')"
      by (rule separation_inv_upd [OF inv i', of _ "p_separation_ticks_update (\<lambda>_. 0)"])
        (simp_all add: e inside(1))
    then show ?thesis using inside(1) fresh i' by (simp add: e separation_effect_def)
  next
    case resized
    then show ?thesis using st inv fresh by (simp add: separation_step_resized separation_effect_def)
  next
    case count
    have e: "active' = active" "s' = one_more_tick i s"
      using st count separation_step_count [OF count(1,3)] by simp_all
    have "separation_inv s0 (active', s')"
      by (rule separation_inv_upd [OF inv i',
            of _ "p_separation_ticks_update (\<lambda>_. p_separation_ticks ?p + 1)"])
        (use count(1) in \<open>simp_all add: e left_behind_def\<close>)
    then show ?thesis using count fresh i' c hz by (simp add: e separation_effect_def left_behind_def)
  next
    case strand
    have e: "active' = active - 1" "s' = upd_player i (strand_player ?hz)
        (drop_held alloc ?p (one_more_tick i s))"
      using st strand separation_step_strand [OF strand(1,3)] by simp_all
    have "separation_inv s0 (active', s')"
      by (rule separation_inv_upd [OF inv i', of _ "strand_player ?hz \<circ>
            p_separation_ticks_update (\<lambda>_. p_separation_ticks ?p + 1)"])
        (use strand(1) in \<open>simp_all add: e left_behind_def\<close>)
    then show ?thesis using strand fresh i' c hz
      by (simp add: e separation_effect_def left_behind_def strand_player_def)
  qed
qed

lemma separation_loop:
  assumes "foldl (separation_step alloc resized) (coop_active_count s, s) [0..<length (players s)] = (n, t)"
  shows "roster_le strand_life s t \<and> camera t = camera s \<and>
     (coop_active_count s \<ge> 1 \<longrightarrow> coop_active_count t \<ge> 1) \<and>
     (\<forall>i < length (players s). separation_effect resized (ticks_per_second s) (camera s)
        (players s ! i) (players t ! i))"
proof -
  have "separation_inv s (foldl (separation_step alloc resized) (coop_active_count s, s) [0..<length (players s)]) \<and>
    (\<forall>i < length (players s). separation_effect resized (ticks_per_second s) (camera s)
       (players (snd (coop_active_count s, s)) ! i)
       (players (snd (foldl (separation_step alloc resized) (coop_active_count s, s) [0..<length (players s)])) ! i))"
  proof (rule index_loop [where get = "players \<circ> snd", unfolded comp_def])
    show "separation_inv s (coop_active_count s, s)" by (simp add: separation_inv_def)
  next
    fix as i
    assume J: "separation_inv s as" and i: "i < length (players s)"
      and get: "\<And>j. i \<le> j \<Longrightarrow> players (snd as) ! j = players (snd (coop_active_count s, s)) ! j"
    obtain a u a' u' where as: "as = (a, u)" and st: "separation_step alloc resized (a, u) i = (a', u')"
      by (metis surj_pair)
    have "players u ! i = players s ! i" using get [of i] as by simp
    from separation_visit [OF J [unfolded as] i this st]
    show "separation_inv s (separation_step alloc resized as i) \<and>
       (\<forall>j. j \<noteq> i \<longrightarrow> players (snd (separation_step alloc resized as i)) ! j = players (snd as) ! j) \<and>
       separation_effect resized (ticks_per_second s) (camera s)
         (players (snd (coop_active_count s, s)) ! i)
         (players (snd (separation_step alloc resized as i)) ! i)"
      by (simp add: as st)
  qed
  then show ?thesis unfolding assms by (auto simp: separation_inv_def)
qed

end
