(* ===== verification/Coop_Camera_Facts.thy ===== *)
theory Coop_Camera_Facts
  imports Coop_Camera
begin

text \<open>
  What the shared camera, the catch-up rule, recovery, the nearest-player query and the input
  latch guarantee.  The loops that keep a best candidate in variables are related to \<open>pick\<close> by
  their encodings; the loops over the roster are related to their effect on one player by
  \<open>index_loop\<close>.
\<close>

section \<open>The view\<close>

definition box_in_room :: "i32 \<Rightarrow> i32 \<Rightarrow> int \<times> int \<times> int \<times> int \<Rightarrow> bool" where
  "box_in_room rw rh = (\<lambda>(l, r, t, b). 0 \<le> l \<and> l \<le> r \<and> r \<le> sint rw \<and> 0 \<le> t \<and> t \<le> b \<and> b \<le> sint rh)"

definition box_fits :: "i32 \<Rightarrow> i32 \<Rightarrow> int \<times> int \<times> int \<times> int \<Rightarrow> bool" where
  "box_fits w h = (\<lambda>(l, r, t, b). r - l \<le> sint w - 32 \<and> b - t \<le> sint h - 32)"

lemma sint_small:
  fixes n :: int
  assumes "0 \<le> n" "n < 2 ^ 31"
  shows "sint (word_of_int n :: i32) = n"
  using assms by (simp add: sint_sbintrunc' signed_take_bit_int_eq_self)

text \<open>One axis of the view: the middle of a fitting span, clamped to the room, covers the span.\<close>

lemma axis_covers:
  fixes w rw :: i32
  assumes w: "sint w \<ge> 32" and span: "0 \<le> l" "l \<le> r" "r \<le> sint rw" "r - l \<le> sint w - 32"
  defines "x \<equiv> clamp64 (sint (word_of_int ((l + r) sdiv 2) :: i32) - sint w sdiv 2) 0
                 (if sint rw > sint w then rw - w else 0)"
  shows "sint x \<le> l \<and> r \<le> sint x + sint w"
proof -
  define n where "n = (l + r) div 2 - sint w div 2"
  have lim: "sint rw < 2 ^ 31" using sint_lt [of rw] by simp
  have "(l + r) sdiv 2 = (l + r) div 2" "sint w sdiv 2 = sint w div 2"
    using w span by (auto simp: signed_divide_int_def sgn_if)
  moreover have "0 \<le> (l + r) div 2" "(l + r) div 2 < 2 ^ 31" using span lim by auto
  ultimately have x: "x = clamp64 n 0 (if sint rw > sint w then rw - w else 0)"
    by (simp add: x_def sint_small n_def)
  show ?thesis
  proof (cases "sint rw > sint w")
    case True
    have rest: "sint (rw - w) = sint rw - sint w" by (rule sint_room_rest [OF w True])
    consider "n < 0" | "n > sint rw - sint w" | "0 \<le> n" "n \<le> sint rw - sint w" by linarith
    then have "sint x = (if n < 0 then 0 else if n > sint rw - sint w then sint rw - sint w else n)"
      using True rest lim w
      by cases (auto simp: x clamp64_def sint_small)
    then show ?thesis using span True by (auto simp: n_def split: if_splits)
  next
    case False
    then have "x = 0" by (auto simp: x clamp64_def)
    then show ?thesis using span False by simp
  qed
qed

lemma camera_frame_success:
  assumes "coop_camera_frame w h rw rh auto s = (True, t)" "coop_active_count s > 0"
  obtains s1 where "t = s1\<lparr>camera := focus_camera s1 (sized_camera w h rw rh auto (camera s))\<rparr>"
    "camera s1 = sized_camera w h rw rh auto (camera s)"
    "bounding_box s1 = bounding_box s" "coop_active_count s1 > 0"
    "sint w \<ge> 32" "sint h \<ge> 32"
    "players t = players s1"
    "map p_life (players s1) = map p_life (players s)"
    "map left_edge (players s1) = map left_edge (players s)"
proof -
  let ?f = "if c_width (camera s) \<noteq> w \<or> c_height (camera s) \<noteq> h
    then p_separation_ticks_update (\<lambda>_. 0 :: u32) else id"
  define s1 where "s1 = s\<lparr>camera := sized_camera w h rw rh auto (camera s), players := map ?f (players s)\<rparr>"
  have f: "p_life (?f p) = p_life p" "left_edge (?f p) = left_edge p" "right_edge (?f p) = right_edge p"
    "top_edge (?f p) = top_edge p" "bottom_edge (?f p) = bottom_edge p" for p
    by (simp_all add: left_edge_def right_edge_def top_edge_def bottom_edge_def)
  have pl: "playing_players s1 = map ?f (playing_players s)"
    by (simp add: playing_players_def s1_def filter_map comp_def f(1))
  have box: "bounding_box s1 = bounding_box s"
    unfolding bounding_box_def bounds_foldl pl
    by (simp only: map_map comp_def f)
  have act: "coop_active_count s1 = coop_active_count s"
    by (simp add: active_playing pl)
  have s1': "(if c_width (camera s) \<noteq> w \<or> c_height (camera s) \<noteq> h
       then map (p_separation_ticks_update (\<lambda>_. 0)) (players s) else players s) = map ?f (players s)"
    by simp
  have guard: "\<not> (failed s \<or> sint w < 32 \<or> sint h < 32 \<or> sint rw < 1 \<or> sint rh < 1)"
    using assms(1) by (auto simp: coop_camera_frame_def)
  then have "coop_camera_frame w h rw rh auto s = (True, s1\<lparr>camera := focus_camera s1 (camera s1)\<rparr>)"
    using assms(2) act unfolding coop_camera_frame_def Let_def s1' s1_def [symmetric] by simp
  then have t: "t = s1\<lparr>camera := focus_camera s1 (camera s1)\<rparr>" using assms(1) by simp
  show thesis
    by (rule that [of s1]) (use t box act assms(2) guard f in
      \<open>simp_all add: s1_def comp_def del: if_split\<close>)
qed


text \<open>The focus is the middle of the box when everyone fits, otherwise the leader.\<close>

lemma focus_camera_view:
  assumes "\<not> c_autoscroll c" "sint (c_width c) \<ge> 32" "sint (c_height c) \<ge> 32"
  shows "0 \<le> sint (c_x (focus_camera s c)) \<and>
     sint (c_x (focus_camera s c)) \<le> max 0 (sint (c_room_width c) - sint (c_width c)) \<and>
     0 \<le> sint (c_y (focus_camera s c)) \<and>
     sint (c_y (focus_camera s c)) \<le> max 0 (sint (c_room_height c) - sint (c_height c))"
proof -
  obtain l r u b where box: "bounding_box s = (l, r, u, b)" by (cases "bounding_box s")
  have "\<exists>m n. c_x (focus_camera s c) =
      clamp64 m 0 (if sint (c_room_width c) > sint (c_width c) then c_room_width c - c_width c else 0) \<and>
    c_y (focus_camera s c) =
      clamp64 n 0 (if sint (c_room_height c) > sint (c_height c) then c_room_height c - c_height c else 0)"
    unfolding focus_camera_def Let_def box prod.case if_P [OF assms(1)]
    by (simp del: if_split) blast
  with clamp_room [OF assms(2), of _ "c_room_width c"] clamp_room [OF assms(3), of _ "c_room_height c"]
  show ?thesis by metis
qed

lemma focus_camera_fits:
  assumes "\<not> c_autoscroll c" "bounding_box s = (l, r, t, b)" "box_fits (c_width c) (c_height c) (l, r, t, b)"
  shows "c_leader (focus_camera s c) = COOP_NO_PLAYER \<and>
     c_x (focus_camera s c) = clamp64 (sint (word_of_int ((l + r) sdiv 2) :: i32) - sint (c_width c) sdiv 2) 0
       (if sint (c_room_width c) > sint (c_width c) then c_room_width c - c_width c else 0) \<and>
     c_y (focus_camera s c) = clamp64 (sint (word_of_int ((t + b) sdiv 2) :: i32) - sint (c_height c) sdiv 2) 0
       (if sint (c_room_height c) > sint (c_height c) then c_room_height c - c_height c else 0)"
  using assms by (simp add: focus_camera_def Let_def box_fits_def)

lemma focus_camera_leader:
  assumes "bounding_box s = box" "\<not> box_fits (c_width c) (c_height c) box" "coop_active_count s > 0"
  obtains horizontal travel p where
    "pick (better_leader s horizontal travel) None (playing_players s) = Some p"
    "c_leader (focus_camera s c) = p_id p"
    "horizontal = (case box of (l, r, t, b) \<Rightarrow>
       r - l - (sint (c_width c) - 32) \<ge> b - t - (sint (c_height c) - 32))"
    "travel = (if horizontal then c_travel_x c else c_travel_y c)"
proof -
  obtain l r t b where box: "box = (l, r, t, b)" by (cases box)
  define hz where "hz \<longleftrightarrow> r - l - (sint (c_width c) - 32) \<ge> b - t - (sint (c_height c) - 32)"
  let ?tr = "if hz then c_travel_x c else c_travel_y c"
  have "playing_players s \<noteq> []" using assms(3) by (simp add: active_playing)
  then obtain p where p: "pick (better_leader s hz ?tr) None (playing_players s) = Some p"
    using leader_choice.pick_None by (cases "pick (better_leader s hz ?tr) None (playing_players s)") auto
  have nofit: "(r - l \<le> sint (c_width c) - 32 \<and> b - t \<le> sint (c_height c) - 32) = False"
    using assms(2) by (simp add: box box_fits_def)
  have "c_leader (focus_camera s c) = p_id p"
    unfolding focus_camera_def assms(1) box prod.case Let_def nofit travel_after_def hz_def [symmetric]
    using p by (cases hz) simp_all
  with p show thesis by (intro that [of hz ?tr p]) (simp_all add: box hz_def)
qed

text \<open>
  C13. Outside autoscroll, the camera update of a frame with a playing actor leaves the view inside
  the room: its corner is neither left of or above the room nor further right or down than the
  room allows (0 where the room is smaller than the view), for any positions of the players.
\<close>

theorem camera_view_in_room:
  assumes "coop_camera_frame w h rw rh False s = (True, t)" "coop_active_count s > 0"
  shows "c_width (camera t) = w \<and> c_height (camera t) = h \<and>
     0 \<le> sint (c_x (camera t)) \<and> sint (c_x (camera t)) \<le> max 0 (sint rw - sint w) \<and>
     0 \<le> sint (c_y (camera t)) \<and> sint (c_y (camera t)) \<le> max 0 (sint rh - sint h)"
proof -
  obtain s1 where t: "t = s1\<lparr>camera := focus_camera s1 (sized_camera w h rw rh False (camera s))\<rparr>"
    "sint w \<ge> 32" "sint h \<ge> 32"
    using camera_frame_success [OF assms] by metis
  show ?thesis
    using focus_camera_view [of "sized_camera w h rw rh False (camera s)" s1] t by simp
qed


text \<open>
  When the actors do not fit, the camera follows a playing actor that is furthest along the
  direction of travel on the axis that overflows most; ties go to the primary player, then to the
  lower identity.
\<close>

lemma camera_leader_is_furthest:
  assumes "coop_camera_frame w h rw rh auto s = (True, t)" "coop_active_count s > 0"
    and "\<not> box_fits w h (bounding_box s)"
  shows "\<exists>p \<in> set (playing_players t). c_leader (camera t) = p_id p \<and>
     (\<exists>horizontal. horizontal = (case bounding_box s of (l, r, u, b) \<Rightarrow>
          r - l - (sint w - 32) \<ge> b - u - (sint h - 32)) \<and>
        (\<forall>q \<in> set (playing_players t). \<not> better_leader t horizontal
           (if horizontal then c_travel_x (camera s) else c_travel_y (camera s)) q p))"
proof -
  obtain s1 where t: "t = s1\<lparr>camera := focus_camera s1 (sized_camera w h rw rh auto (camera s))\<rparr>"
    and s1: "bounding_box s1 = bounding_box s" "coop_active_count s1 > 0"
    using camera_frame_success [OF assms(1,2)] by metis
  let ?c = "sized_camera w h rw rh auto (camera s)"
  have same: "playing_players t = playing_players s1" "better_leader t = better_leader s1"
    by (simp_all add: t playing_players_def better_leader_def coop_player_precedes_def fun_eq_iff)
  have tr: "c_travel_x ?c = c_travel_x (camera s)" "c_travel_y ?c = c_travel_y (camera s)"
    by (simp_all add: sized_camera_def)
  obtain horizontal travel p where
    p: "pick (better_leader s1 horizontal travel) None (playing_players s1) = Some p"
      "c_leader (focus_camera s1 ?c) = p_id p"
      "horizontal = (case bounding_box s of (l, r, t, b) \<Rightarrow> r - l - (sint w - 32) \<ge> b - t - (sint h - 32))"
      "travel = (if horizontal then c_travel_x (camera s) else c_travel_y (camera s))"
    using focus_camera_leader [OF s1(1) _ s1(2), of ?c] assms(3) unfolding tr by auto
  from leader_choice.pick_best [OF p(1)] p show ?thesis
    unfolding same by (intro bexI [of _ p] conjI exI [of _ horizontal]) (simp_all add: t)
qed


section \<open>Catch-up\<close>

text \<open>
  The same loop without its running count.  A player whose second outside the view is complete is
  \<open>overdue\<close>; in the order of the roster the overdue players are put into bubbles as long as
  somebody else is left (\<open>others_left\<close>).
\<close>

definition overdue :: "CoopSession \<Rightarrow> CoopPlayer \<Rightarrow> bool" where
  "overdue s p \<longleftrightarrow> p_life p = COOP_PLAYING \<and> outside_view (camera s) p \<and>
     p_id p \<noteq> c_leader (camera s) \<and> ticks_per_second s \<le> p_separation_ticks p + 1"

definition overdue_before :: "bool \<Rightarrow> CoopSession \<Rightarrow> nat \<Rightarrow> nat" where
  "overdue_before resized s i = (if resized then 0 else length (filter (overdue s) (take i (players s))))"

definition others_left :: "bool \<Rightarrow> CoopSession \<Rightarrow> nat \<Rightarrow> bool" where
  "others_left resized s i \<longleftrightarrow> 1 + overdue_before resized s i < coop_active_count s"

definition bubbled :: "bool \<Rightarrow> CoopSession \<Rightarrow> nat \<Rightarrow> bool" where
  "bubbled resized s i \<longleftrightarrow> \<not> resized \<and> overdue s (players s ! i) \<and> others_left resized s i"

definition separated :: "bool \<Rightarrow> CoopSession \<Rightarrow> nat \<Rightarrow> CoopPlayer" where
  "separated resized s i =
     (let p = players s ! i
      in if p_life p \<noteq> COOP_PLAYING then p
         else if \<not> outside_view (camera s) p \<or> p_id p = c_leader (camera s) \<or> \<not> others_left resized s i
         then p\<lparr>p_separation_ticks := 0\<rparr>
         else if resized then p
         else if bubbled resized s i then strand_player (ticks_per_second s) p
         else p\<lparr>p_separation_ticks := p_separation_ticks p + 1\<rparr>)"

definition bubble_drop :: "bool \<Rightarrow> CoopSession \<Rightarrow> nat \<Rightarrow> CoopAction list" where
  "bubble_drop resized s i =
     (let p = players s ! i
      in if bubbled resized s i \<and> p_held_object p \<noteq> COOP_NO_ENTITY
         then [\<lparr>a_kind = COOP_ACTION_DROP_OBJECT, a_player = p_id p, a_entity = p_held_object p,
                a_value = 0\<rparr>]
         else [])"

text \<open>The loop after \<open>k\<close> rounds.\<close>

definition separated_upto :: "bool \<Rightarrow> CoopSession \<Rightarrow> nat \<Rightarrow> nat \<times> CoopSession \<Rightarrow> bool" where
  "separated_upto resized s k = (\<lambda>(active, u).
     active = coop_active_count s - min (overdue_before resized s k) (coop_active_count s - 1) \<and>
     length (players u) = length (players s) \<and> camera u = camera s \<and>
     ticks_per_second u = ticks_per_second s \<and> (failed s \<longrightarrow> failed u) \<and>
     (\<forall>j. players u ! j = (if j < k then separated resized s j else players s ! j)) \<and>
     (\<not> failed u \<longrightarrow> actions u = actions s @ concat (map (bubble_drop resized s) [0..<k])))"

lemma overdue_before_Suc:
  "k < length (players s) \<Longrightarrow> overdue_before resized s (Suc k) =
     overdue_before resized s k + (if \<not> resized \<and> overdue s (players s ! k) then 1 else 0)"
  by (simp add: overdue_before_def take_Suc_conv_app_nth)

lemma drop_held_queue:
  "\<not> failed (drop_held alloc p s) \<Longrightarrow> \<not> failed s \<and> actions (drop_held alloc p s) =
     actions s @ (if p_held_object p \<noteq> COOP_NO_ENTITY
       then [\<lparr>a_kind = COOP_ACTION_DROP_OBJECT, a_player = p_id p, a_entity = p_held_object p,
              a_value = 0\<rparr>] else [])"
  by (auto simp: drop_held_def dest: emit_ok)

lemma drop_held_failed: "failed s \<Longrightarrow> failed (drop_held alloc p s)"
  by (simp add: drop_held_def emit_failed_mono)

lemma one_more_tick_queue [simp]:
  "actions (one_more_tick i s) = actions s" "failed (one_more_tick i s) = failed s"
  by (simp_all add: one_more_tick_def)

lemma separated_round:
  assumes inv: "separated_upto resized s k (active, u)" and k: "k < length (players s)"
    and st: "separation_step alloc resized (active, u) k = (active', u')"
  shows "separated_upto resized s (Suc k) (active', u')"
proof -
  let ?p = "players s ! k" and ?hz = "ticks_per_second s"
  note I = inv [unfolded separated_upto_def prod.case]
  have p: "players u ! k = ?p" and c: "camera u = camera s" and hz: "ticks_per_second u = ?hz"
    and len: "length (players u) = length (players s)"
    using I by auto
  have left: "others_left resized s k \<longleftrightarrow> active > 1"
    using I unfolding others_left_def by auto
  have only: "separated_upto resized s (Suc k) (active', u')"
    if "players u' = upd_at k f (players u) \<or> players u' = players u \<and> f ?p = ?p"
      "f ?p = separated resized s k" "camera u' = camera u" "ticks_per_second u' = ticks_per_second u"
      "failed u \<longrightarrow> failed u'"
      "\<not> failed u' \<longrightarrow> actions u' = actions u @ bubble_drop resized s k"
      "active' = (if bubbled resized s k then active - 1 else active)" for f
  proof -
    have "players u' ! j = (if j < Suc k then separated resized s j else players s ! j)" for j
      using that(1,2) I k p by (cases "j = k") (auto simp: less_Suc_eq nth_upd_at len)
    moreover have "length (players u') = length (players s)" using that(1) len by auto
    moreover have "active' = coop_active_count s -
        min (overdue_before resized s (Suc k)) (coop_active_count s - 1)"
      using that(7) I k left
      by (auto simp: overdue_before_Suc bubbled_def others_left_def)
    ultimately show ?thesis using that(3-6) I by (auto simp: separated_upto_def)
  qed
  consider (off) "p_life ?p \<noteq> COOP_PLAYING"
    | (inside) "p_life ?p = COOP_PLAYING"
        "\<not> outside_view (camera s) ?p \<or> p_id ?p = c_leader (camera s) \<or> active \<le> 1"
    | (resized) "left_behind active u k" "resized"
    | (count) "left_behind active u k" "\<not> resized" "p_separation_ticks ?p + 1 < ?hz"
    | (strand) "left_behind active u k" "\<not> resized" "\<not> p_separation_ticks ?p + 1 < ?hz"
    using not_le [of active 1] unfolding left_behind_def p c by blast
  then show ?thesis
  proof cases
    case off
    then have "active' = active" "u' = u" using st p by (simp_all add: separation_step_off)
    with off show ?thesis
      by (intro only [of "\<lambda>p. p"]) (auto simp: separated_def bubble_drop_def bubbled_def overdue_def)
  next
    case inside
    then have "active' = active" "u' = upd_player k (p_separation_ticks_update (\<lambda>_. 0)) u"
      using st separation_step_inside [of u k active alloc resized] p c by auto
    with inside left show ?thesis
      by (intro only [of "p_separation_ticks_update (\<lambda>_. 0)"])
        (auto simp: separated_def bubble_drop_def bubbled_def overdue_def)
  next
    case resized
    then have "active' = active" "u' = u" using st by (simp_all add: separation_step_resized)
    with resized left p c show ?thesis
      by (intro only [of "\<lambda>p. p"]) (auto simp: separated_def bubble_drop_def bubbled_def left_behind_def)
  next
    case count
    then have "active' = active" "u' = one_more_tick k u"
      using st separation_step_count [of active u k alloc] p hz by auto
    with count left p c show ?thesis
      by (intro only [of "p_separation_ticks_update (\<lambda>_. p_separation_ticks ?p + 1)"])
        (auto simp: separated_def bubble_drop_def bubbled_def left_behind_def overdue_def Let_def not_le)
  next
    case strand
    then have e: "active' = active - 1" "u' = upd_player k (strand_player ?hz)
        (drop_held alloc ?p (one_more_tick k u))"
      using st separation_step_strand [of active u k alloc] p hz by auto
    have b: "bubbled resized s k"
      using strand left p c by (auto simp: bubbled_def overdue_def left_behind_def)
    from e b strand left p c show ?thesis
      by (intro only [of "strand_player ?hz \<circ> p_separation_ticks_update (\<lambda>_. p_separation_ticks ?p + 1)"])
        (auto simp: separated_def bubble_drop_def left_behind_def strand_player_def
          drop_held_failed Let_def drop_held_queue [THEN conjunct2] dest: drop_held_queue)
  qed
qed

lemma separated_rounds:
  "k \<le> length (players s) \<Longrightarrow> separated_upto resized s k
     (foldl (separation_step alloc resized) (coop_active_count s, s) [0..<k])"
proof (induction k)
  case 0
  then show ?case by (simp add: separated_upto_def overdue_before_def)
next
  case (Suc k)
  obtain a u a' u' where st: "foldl (separation_step alloc resized) (coop_active_count s, s) [0..<k] = (a, u)"
    "separation_step alloc resized (a, u) k = (a', u')"
    by (metis surj_pair)
  with separated_round [OF _ _ st(2), of s] Suc show ?case by simp
qed

text \<open>
  C15. What a check of the separation does, exactly.  It does nothing while the frame does not
  advance, after the outcome is settled or under autoscroll.  Otherwise every playing actor that is inside the
  view, is the camera leader, or would be the last one left has its counter set to zero; of the
  others, in a frame that did not resize the view, the counter of each goes up by one, and whoever
  completes a second is put into a bubble for half a second, its held object dropped by an action, in
  the order of the roster and as long as somebody else is left.  Who is not playing is not changed, and
  the last playing actor never is put into a bubble.
\<close>

theorem catchup_rule:
  assumes "coop_camera_check_separation alloc resized s = (True, t)"
  shows "ids t = ids s \<and> (coop_active_count s \<ge> 1 \<longrightarrow> coop_active_count t \<ge> 1) \<and>
     (if \<not> advancing s \<or> outcome s \<noteq> COOP_CONTINUE \<or> c_autoscroll (camera s) then t = s
      else actions t = actions s @ concat (map (bubble_drop resized s) [0..<length (players s)]) \<and>
        players t = map (separated resized s) [0..<length (players s)])"
proof (cases "\<not> advancing s \<or> outcome s \<noteq> COOP_CONTINUE \<or> c_autoscroll (camera s)")
  case True
  then have "t = s" using assms by (auto simp: coop_camera_check_separation_def split: if_splits)
  with True show ?thesis by simp
next
  case False
  obtain n u where loop: "foldl (separation_step alloc resized) (coop_active_count s, s)
      [0..<length (players s)] = (n, u)" by (metis surj_pair)
  then have u: "t = u" "\<not> failed u" using assms False
    by (auto simp: coop_camera_check_separation_def split: if_splits)
  have "separated_upto resized s (length (players s)) (n, u)"
    using separated_rounds [of "length (players s)" s resized alloc] by (simp add: loop)
  then have "actions t = actions s @ concat (map (bubble_drop resized s) [0..<length (players s)])"
    "players t = map (separated resized s) [0..<length (players s)]"
    using u by (auto simp: separated_upto_def intro: nth_equalityI)
  with separation_loop [OF loop] False show ?thesis by (simp add: u roster_le_def)
qed

lemma separation_strand: "roster_le strand_life s (snd (coop_camera_check_separation alloc resized s))"
proof -
  obtain n u where loop: "foldl (separation_step alloc resized) (coop_active_count s, s)
      [0..<length (players s)] = (n, u)" by (cases "foldl (separation_step alloc resized)
      (coop_active_count s, s) [0..<length (players s)]")
  from separation_loop [OF loop] loop show ?thesis
    by (simp add: coop_camera_check_separation_def Let_def)
qed

interpretation separation_op: roster_op "\<lambda>s. snd (coop_camera_check_separation alloc resized s)" strand_life
  for alloc resized
  by unfold_locales (auto simp: separation_strand life_step.simps)

section \<open>The nearest player\<close>

definition near_candidate :: "bool \<Rightarrow> bool \<Rightarrow> CoopPlayer \<Rightarrow> bool" where
  "near_candidate match_fence fence p \<longleftrightarrow>
     p_life p = COOP_PLAYING \<and> (match_fence \<longrightarrow> p_behind_fence p = fence)"

definition nearer :: "CoopSession \<Rightarrow> i32 \<Rightarrow> i32 \<Rightarrow> CoopPlayer \<Rightarrow> CoopPlayer \<Rightarrow> bool" where
  "nearer s x y p q \<longleftrightarrow>
     (let d = distance2 x y (p_x p) (p_y p); e = distance2 x y (p_x q) (p_y q)
      in d < e \<or> (d = e \<and> coop_player_precedes s (p_id p) (p_id q)))"

interpretation near_choice: selection "nearer s x y" for s x y
  by (rule selection_key [where key = "\<lambda>p. (distance2 x y (p_x p) (p_y p), rank s (p_id p))"])
    (auto simp: nearer_def Let_def precedes_rank less_prod_simp)

lemma nearest_pick:
  assumes "COOP_NO_PLAYER \<notin> set (ids s)"
  shows "coop_nearest_player s x y match_fence fence =
     (case pick (nearer s x y) None (filter (near_candidate match_fence fence) (players s)) of
        None \<Rightarrow> COOP_NO_PLAYER | Some p \<Rightarrow> p_id p)"
proof -
  let ?enc = "\<lambda>acc :: CoopPlayer option. case acc of None \<Rightarrow> (COOP_NO_PLAYER, 0xFFFFFFFFFFFFFFFF)
    | Some p \<Rightarrow> (p_id p, distance2 x y (p_x p) (p_y p))"
  let ?step = "nearest_step s x y match_fence fence"
  let ?cs = "filter (near_candidate match_fence fence) (players s)"
  have no: "p_id p \<noteq> COOP_NO_PLAYER" if "p \<in> set (players s)" for p
    using assms imageI [OF that, of p_id] by (auto simp: ids_def)
  have "foldl ?step (?enc None) (players s) = foldl ?step (?enc None) ?cs"
    by (subst foldl_filter_step [where P = "near_candidate match_fence fence"])
      (auto simp: nearest_step_def near_candidate_def)
  also have "\<dots> = ?enc (pick (nearer s x y) None ?cs)"
    by (rule pick_encoded [of ?cs ?cs])
      (auto simp: nearest_step_def near_candidate_def nearer_def Let_def no split: option.split)
  finally show ?thesis by (simp add: coop_nearest_player_def split: option.splits)
qed

text \<open>
  \<open>coop_nearest_player\<close> answers \<open>COOP_NO_PLAYER\<close> exactly when no actor is eligible; otherwise
  it names an eligible actor, and no eligible actor is nearer, an equal distance being decided by
  precedence.
\<close>

lemma nearest_player_spec:
  assumes "COOP_NO_PLAYER \<notin> set (ids s)"
  shows "if \<exists>p \<in> set (players s). near_candidate match_fence fence p
     then \<exists>p \<in> set (players s). near_candidate match_fence fence p \<and>
            coop_nearest_player s x y match_fence fence = p_id p \<and>
            (\<forall>q \<in> set (players s). near_candidate match_fence fence q \<longrightarrow> \<not> nearer s x y q p)
     else coop_nearest_player s x y match_fence fence = COOP_NO_PLAYER"
proof (cases "pick (nearer s x y) None (filter (near_candidate match_fence fence) (players s))")
  case None
  then have "\<not> (\<exists>p \<in> set (players s). near_candidate match_fence fence p)"
    by (simp add: near_choice.pick_None filter_empty_conv)
  with None show ?thesis by (simp add: nearest_pick [OF assms])
next
  case (Some p)
  from near_choice.pick_best [OF Some] Some show ?thesis
    by (auto simp: nearest_pick [OF assms])
qed

end
