(* ===== verification/Coop_Recovery.thy ===== *)
theory Coop_Recovery
  imports Coop_Camera_Facts
begin

text \<open>
  Recovery of bubbles: what \<open>coop_session_recover\<close> does to each player, the anchor it chooses, and
  the interface it needs from a placement query.  The provider of that interface is the terrain
  query of \<^verbatim>\<open>Coop_Terrain\<close>.
\<close>

section \<open>The choice of an anchor\<close>

definition returnable :: "CoopPlayer \<Rightarrow> bool" where
  "returnable p \<longleftrightarrow>
     (p_life p = COOP_DEATH_BUBBLE \<or> p_life p = COOP_CATCHUP_BUBBLE) \<and> p_recovery_ticks p = 0"

definition placed_distance :: "safe_placement \<Rightarrow> CoopSession \<Rightarrow> CoopPlayer \<Rightarrow> CoopPlayer \<Rightarrow> u64" where
  "placed_distance safe s p a =
     (case safe s p a of None \<Rightarrow> 0 | Some (x, y) \<Rightarrow> distance2 (p_x p) (p_y p) x y)"

definition better_anchor ::
  "safe_placement \<Rightarrow> CoopSession \<Rightarrow> CoopPlayer \<Rightarrow> CoopPlayer \<Rightarrow> CoopPlayer \<Rightarrow> bool" where
  "better_anchor safe s p a b \<longleftrightarrow>
     placed_distance safe s p a < placed_distance safe s p b \<or>
     (placed_distance safe s p a = placed_distance safe s p b \<and>
      coop_player_precedes s (p_id a) (p_id b))"

interpretation anchor_choice: selection "better_anchor safe s p" for safe s p
  by (rule selection_key [where key = "\<lambda>a. (placed_distance safe s p a, rank s (p_id a))"])
    (auto simp: better_anchor_def precedes_rank less_prod_simp)

definition chosen_anchor :: "safe_placement \<Rightarrow> CoopSession \<Rightarrow> CoopPlayer \<Rightarrow> CoopPlayer list \<Rightarrow> CoopPlayer option" where
  "chosen_anchor safe s p as = pick (better_anchor safe s p) None (filter (\<lambda>a. safe s p a \<noteq> None) as)"

definition anchor_vars ::
  "safe_placement \<Rightarrow> CoopSession \<Rightarrow> CoopPlayer \<Rightarrow> CoopPlayer option \<Rightarrow> u32 \<times> u64 \<times> i32 \<times> i32" where
  "anchor_vars safe s p acc =
     (case acc of None \<Rightarrow> (COOP_NO_PLAYER, 0xFFFFFFFFFFFFFFFF, 0, 0)
      | Some a \<Rightarrow> (case safe s p a of None \<Rightarrow> (COOP_NO_PLAYER, 0xFFFFFFFFFFFFFFFF, 0, 0)
                  | Some (x, y) \<Rightarrow> (p_id a, distance2 (p_x p) (p_y p) x y, x, y)))"

text \<open>A player looked up by identity is the player with that identity.\<close>

definition anchors_in :: "CoopSession \<Rightarrow> CoopPlayer list \<Rightarrow> bool" where
  "anchors_in u as \<longleftrightarrow> (\<forall>a \<in> set as. p_id a \<noteq> COOP_NO_PLAYER \<and>
     (\<exists>k. coop_player u (p_id a) = Some k \<and> players u ! k = a))"

lemma best_anchor_pick:
  assumes "anchors_in s as"
  shows "best_anchor safe s p (map p_id as) = anchor_vars safe s p (chosen_anchor safe s p as)"
proof -
  let ?step = "\<lambda>acc a. anchor_step safe s p acc (p_id a)"
  let ?cs = "filter (\<lambda>a. safe s p a \<noteq> None) as"
  have a: "a \<in> set as \<Longrightarrow> p_id a \<noteq> COOP_NO_PLAYER \<and> (\<exists>k. coop_player s (p_id a) = Some k \<and> players s ! k = a)" for a
    using assms by (simp add: anchors_in_def)
  have skip: "?step acc a = acc" if "a \<in> set as" "safe s p a = None" for acc a
    using a [OF that(1)] that(2) by (auto simp: anchor_step_def split: prod.split)
  have "foldl ?step acc as = foldl ?step acc ?cs" for acc
    by (rule foldl_filter_step) (use skip in blast)
  then have "best_anchor safe s p (map p_id as) = foldl ?step (anchor_vars safe s p None) ?cs"
    by (simp add: best_anchor_def foldl_map anchor_vars_def)
  also have "\<dots> = anchor_vars safe s p (pick (better_anchor safe s p) None ?cs)"
  proof (rule pick_encoded [of ?cs ?cs])
    fix acc x
    assume x: "x \<in> set ?cs" and acc: "acc \<in> insert None (Some ` set ?cs)"
    obtain k where k: "coop_player s (p_id x) = Some k" "players s ! k = x" using a [of x] x by auto
    obtain xx xy where sx: "safe s p x = Some (xx, xy)" using x by auto
    show "?step (anchor_vars safe s p acc) x = anchor_vars safe s p
        (case acc of None \<Rightarrow> Some x | Some y \<Rightarrow> if better_anchor safe s p x y then Some x else Some y)"
    proof (cases acc)
      case None
      then show ?thesis using k sx by (simp add: anchor_step_def anchor_vars_def Let_def)
    next
      case (Some b)
      then obtain bx by' where sb: "safe s p b = Some (bx, by')" and "p_id b \<noteq> COOP_NO_PLAYER"
        using acc a [of b] by auto
      with Some show ?thesis using k sx
        by (simp add: anchor_step_def anchor_vars_def Let_def better_anchor_def placed_distance_def)
    qed
  qed simp_all
  finally show ?thesis by (simp add: chosen_anchor_def)
qed


section \<open>One round of the loop\<close>

lemma chosen_anchor_None: "chosen_anchor safe s p as = None \<longleftrightarrow> (\<forall>a \<in> set as. safe s p a = None)"
  by (simp add: chosen_anchor_def anchor_choice.pick_None filter_empty_conv del: not_None_eq not_Some_eq)

lemma chosen_anchor_Some:
  assumes "chosen_anchor safe s p as = Some a"
  shows "a \<in> set as \<and> (\<exists>x y. safe s p a = Some (x, y)) \<and>
     (\<forall>b \<in> set as. safe s p b \<noteq> None \<longrightarrow> \<not> better_anchor safe s p b a)"
  using anchor_choice.pick_best [OF assms [unfolded chosen_anchor_def]] by auto

definition recovered :: "safe_placement \<Rightarrow> CoopSession \<Rightarrow> CoopPlayer list \<Rightarrow> CoopPlayer \<Rightarrow> CoopPlayer" where
  "recovered safe u as p =
     (if returnable p
      then (case chosen_anchor safe u p as of None \<Rightarrow> p
            | Some a \<Rightarrow> (case safe u p a of None \<Rightarrow> p
                        | Some (x, y) \<Rightarrow> revive_player (ticks_per_second u) x y p))
      else p)"

lemma recover_step_players:
  assumes "anchors_in s as"
  shows "players (recover_step alloc safe (map p_id as) s i) =
     upd_at i (\<lambda>p. recovered safe s as (players s ! i)) (players s)"
proof (cases "returnable (players s ! i)")
  case False
  then show ?thesis
    by (cases "i < length (players s)") (auto simp: recover_step_def recovered_def returnable_def Let_def upd_at_def)
next
  case True
  let ?p = "players s ! i"
  have r: "((p_life ?p \<noteq> COOP_DEATH_BUBBLE \<and> p_life ?p \<noteq> COOP_CATCHUP_BUBBLE) \<or> p_recovery_ticks ?p \<noteq> 0) = False"
    using True by (auto simp: returnable_def)
  show ?thesis
  proof (cases "chosen_anchor safe s ?p as")
    case None
    then show ?thesis using True
      unfolding recover_step_def Let_def r best_anchor_pick [OF assms]
      by (simp add: anchor_vars_def recovered_def upd_at_def)
  next
    case (Some a)
    with chosen_anchor_Some [OF this] obtain x y where a: "a \<in> set as" "safe s ?p a = Some (x, y)" by auto
    have "p_id a \<noteq> COOP_NO_PLAYER" using assms a(1) by (simp add: anchors_in_def)
    with Some a True show ?thesis
      unfolding recover_step_def Let_def r best_anchor_pick [OF assms]
      by (simp add: anchor_vars_def recovered_def upd_at_def)
  qed
qed

lemma recover_step_frame [simp]:
  "primary (recover_step alloc safe as s i) = primary s"
  "ticks_per_second (recover_step alloc safe as s i) = ticks_per_second s"
  by (auto simp: recover_step_def Let_def split: prod.split)

lemma revive_player_simps [simp]:
  "p_id (revive_player hz x y p) = p_id p" "p_life (revive_player hz x y p) = COOP_PLAYING"
  "p_x (revive_player hz x y p) = x" "p_y (revive_player hz x y p) = y"
  by (simp_all add: revive_player_def Let_def)

lemma recovered_simps [simp]: "p_id (recovered safe u as p) = p_id p"
  by (auto simp: recovered_def split: option.split)

lemma recovered_life: "revive_life\<^sup>*\<^sup>* (p_life p) (p_life (recovered safe u as p))"
  by (auto simp: recovered_def returnable_def revive_life_star split: option.split)

lemma recovered_playing: "p_life p = COOP_PLAYING \<Longrightarrow> recovered safe u as p = p"
  by (simp add: recovered_def returnable_def)

section \<open>The loop\<close>

definition named_roster :: "CoopSession \<Rightarrow> bool" where
  "named_roster s \<longleftrightarrow> distinct (ids s) \<and> COOP_NO_PLAYER \<notin> set (ids s)"

definition recovery_inv :: "CoopSession \<Rightarrow> CoopSession \<Rightarrow> bool" where
  "recovery_inv s u \<longleftrightarrow> roster_le revive_life s u \<and>
     (\<forall>k < length (players s). life_at s k = COOP_PLAYING \<longrightarrow> players u ! k = players s ! k)"

lemma recovery_anchors:
  assumes "named_roster s" "recovery_inv s u"
  shows "anchors_in u (playing_players s)"
  unfolding anchors_in_def
proof
  fix a
  assume a: "a \<in> set (playing_players s)"
  then obtain k where k: "k < length (players s)" "players s ! k = a" "p_life a = COOP_PLAYING"
    by (auto simp: playing_players_def in_set_conv_nth)
  have ids: "ids u = ids s" using assms(2) by (simp add: recovery_inv_def roster_le_def)
  have "players u ! k = a" using assms(2) k by (simp add: recovery_inv_def life_at_def)
  moreover have "coop_player u (p_id a) = Some k"
    using coop_player_distinct [of s k] coop_player_cong [OF ids] assms(1) k by (simp add: named_roster_def)
  moreover have "p_id a \<in> set (ids s)" using k by (auto simp: ids_def)
  ultimately show "p_id a \<noteq> COOP_NO_PLAYER \<and> (\<exists>k. coop_player u (p_id a) = Some k \<and> players u ! k = a)"
    using assms(1) by (auto simp: named_roster_def)
qed

lemma recovery_visit:
  assumes "named_roster s" "recovery_inv s u" "i < length (players s)"
  shows "recovery_inv s (recover_step alloc safe (map p_id (playing_players s)) u i) \<and>
     (\<forall>j. j \<noteq> i \<longrightarrow>
        players (recover_step alloc safe (map p_id (playing_players s)) u i) ! j = players u ! j)"
proof -
  let ?t = "recover_step alloc safe (map p_id (playing_players s)) u i"
  let ?f = "\<lambda>p. recovered safe u (playing_players s) (players u ! i)"
  have t: "players ?t = upd_at i ?f (players u)"
    by (rule recover_step_players [OF recovery_anchors [OF assms(1,2)]])
  have r: "roster_le revive_life s u"
    and keep: "k < length (players s) \<Longrightarrow> life_at s k = COOP_PLAYING \<Longrightarrow> players u ! k = players s ! k" for k
    using assms(2) by (auto simp: recovery_inv_def)
  have i: "i < length (players u)" using assms(3) r ids_length [of u s] by (simp add: roster_le_def)
  have "ids ?t = ids u"
    using i by (intro nth_equalityI) (auto simp: ids_def t nth_upd_at)
  moreover have "revive_life\<^sup>*\<^sup>* (life_at u j) (life_at ?t j)" for j
    using recovered_life [of "players u ! i"] i by (cases "j = i") (auto simp: life_at_def t)
  ultimately have "roster_le revive_life u ?t" by (simp add: roster_le_def)
  with r have "roster_le revive_life s ?t" by (rule roster_le_trans)
  moreover have "players ?t ! k = players s ! k"
    if "k < length (players s)" "life_at s k = COOP_PLAYING" for k
    using keep [OF that] that i recovered_playing [of "players u ! k"]
    by (cases "k = i") (auto simp: t life_at_def)
  ultimately show ?thesis by (simp add: recovery_inv_def t)
qed

text \<open>The session when the loop reaches the player of index \<open>i\<close>.\<close>

definition recovery_at :: "allocator \<Rightarrow> safe_placement \<Rightarrow> CoopSession \<Rightarrow> nat \<Rightarrow> CoopSession" where
  "recovery_at alloc safe s i = foldl (recover_step alloc safe (map p_id (playing_players s))) s [0..<i]"

lemma recovery_prefix:
  assumes "named_roster s" "i \<le> length (players s)"
  shows "recovery_inv s (recovery_at alloc safe s i) \<and>
     (\<forall>j \<ge> i. players (recovery_at alloc safe s i) ! j = players s ! j)"
  unfolding recovery_at_def
  by (rule index_loop_prefix [OF _ recovery_visit [OF assms(1)] assms(2)]) (simp_all add: recovery_inv_def)

lemma recovery_suffix:
  assumes "named_roster s" "j < i" "i \<le> m" "m \<le> length (players s)"
  shows "players (recovery_at alloc safe s m) ! j = players (recovery_at alloc safe s i) ! j"
  unfolding recovery_at_def
  by (rule index_loop_suffix [where J = "recovery_inv s", OF _ recovery_visit [OF assms(1)] assms(3,4,2)])
    (simp_all add: recovery_inv_def)

lemma recovery_effect:
  assumes "named_roster s" "i < length (players s)" "m = length (players s)"
  shows "players (recovery_at alloc safe s m) ! i =
     recovered safe (recovery_at alloc safe s i) (playing_players s) (players s ! i)"
proof -
  let ?u = "recovery_at alloc safe s i"
  have pre: "recovery_inv s ?u" "players ?u ! i = players s ! i"
    using recovery_prefix [OF assms(1), of i] assms(2) by auto
  have i: "i < length (players ?u)"
    using pre(1) ids_length [of ?u s] assms(2) by (simp add: recovery_inv_def roster_le_def)
  have "recovery_at alloc safe s (Suc i) = recover_step alloc safe (map p_id (playing_players s)) ?u i"
    by (simp add: recovery_at_def)
  with recover_step_players [OF recovery_anchors [OF assms(1) pre(1)], of alloc safe i]
  have "players (recovery_at alloc safe s (Suc i)) ! i =
      recovered safe ?u (playing_players s) (players s ! i)"
    using pre i by simp
  with recovery_suffix [OF assms(1), of i "Suc i" m] assms(2,3) show ?thesis by simp
qed

lemma recover_runs:
  assumes "coop_session_recover alloc safe s = (True, t)" "advancing s" "outcome s = COOP_CONTINUE"
  shows "t = recovery_at alloc safe s (length (players s))"
  using assms by (auto simp: coop_session_recover_def recovery_at_def Let_def split: if_splits)


lemma recover_step_le: "roster_le revive_life s (recover_step alloc safe as s i)"
proof (cases "returnable (players s ! i)")
  case False
  then have "recover_step alloc safe as s i = s"
    by (auto simp: recover_step_def returnable_def Let_def)
  then show ?thesis by simp
next
  case True
  obtain w d x y where b: "best_anchor safe s (players s ! i) as = (w, d, x, y)"
    by (cases "best_anchor safe s (players s ! i) as")
  have "roster_le revive_life s (upd_player i (revive_player (ticks_per_second s) x y) s)"
    by (rule roster_le_upd) (use True in \<open>auto simp: life_at_def returnable_def revive_life_star\<close>)
  then show ?thesis
    unfolding recover_step_def Let_def b prod.case by (simp add: roster_le_emit)
qed

lemma recover_revive: "roster_le revive_life s (snd (coop_session_recover alloc safe s))"
proof -
  have "roster_le revive_life s (foldl (recover_step alloc safe as) s is)" for as "is"
  proof (induction "is" rule: rev_induct)
    case Nil
    show ?case by simp
  next
    case (snoc i "is")
    then show ?case
      unfolding foldl_append foldl.simps by (rule roster_le_trans [OF _ recover_step_le])
  qed
  then show ?thesis
    by (auto simp: coop_session_recover_def Let_def intro: roster_le_same_players)
qed

interpretation recover_op: roster_op "\<lambda>s. snd (coop_session_recover alloc safe s)" revive_life
  for alloc safe
  by unfold_locales (auto simp: recover_revive life_step.simps)

text \<open>
  C16. Recovery, for every player of a roster with distinct identities.  A player that is not a
  bubble with an expired timer is untouched.  Such a bubble returns exactly when some player that
  was playing before the pass offers a place; it then stands at the place of the nearest of these
  anchors (precedence decides ties), a death bubble small or with the checkpoint's upgrade and two
  seconds of protection.  Players that return in this pass are no anchors in it.
\<close>

theorem recovery_spec:
  assumes "coop_session_recover alloc safe s = (True, t)" "advancing s" "outcome s = COOP_CONTINUE"
    and "named_roster s" "i < length (players s)"
  shows "let p = players s ! i; u = recovery_at alloc safe s i; as = playing_players s in
     if returnable p \<and> (\<exists>a \<in> set as. safe u p a \<noteq> None)
     then \<exists>a \<in> set as. \<exists>x y. safe u p a = Some (x, y) \<and>
            players t ! i = revive_player (ticks_per_second s) x y p \<and>
            (\<forall>b \<in> set as. safe u p b \<noteq> None \<longrightarrow> \<not> better_anchor safe u p b a)
     else players t ! i = p"
proof -
  let ?p = "players s ! i" and ?u = "recovery_at alloc safe s i" and ?as = "playing_players s"
  have t: "players t ! i = recovered safe ?u ?as ?p"
    using recovery_effect [OF assms(4,5) refl] recover_runs [OF assms(1-3)] by simp
  have hz: "ticks_per_second ?u = ticks_per_second s"
    using recovery_prefix [OF assms(4), of i alloc safe] assms(5) by (simp add: recovery_inv_def roster_le_def)
  show ?thesis
  proof (cases "chosen_anchor safe ?u ?p ?as")
    case None
    have "players t ! i = ?p" using t None by (simp add: recovered_def)
    moreover have "\<not> (\<exists>a \<in> set ?as. safe ?u ?p a \<noteq> None)"
      using None [unfolded chosen_anchor_None] by (simp del: not_None_eq)
    ultimately show ?thesis unfolding Let_def by simp
  next
    case (Some a)
    obtain x y where a: "a \<in> set ?as" "safe ?u ?p a = Some (x, y)"
      and best: "\<forall>b \<in> set ?as. safe ?u ?p b \<noteq> None \<longrightarrow> \<not> better_anchor safe ?u ?p b a"
      using chosen_anchor_Some [OF Some] by blast
    show ?thesis
    proof (cases "returnable ?p")
      case True
      then have "players t ! i = revive_player (ticks_per_second s) x y ?p"
        using t Some a(2) hz by (simp add: recovered_def)
      moreover have "\<exists>a \<in> set ?as. safe ?u ?p a \<noteq> None" using a by blast
      ultimately show ?thesis unfolding Let_def using True a best by (simp del: not_None_eq) blast
    next
      case False
      with t have "players t ! i = ?p" by (simp add: recovered_def)
      with False show ?thesis unfolding Let_def by simp
    qed
  qed
qed

section \<open>The interface of a placement query\<close>

text \<open>
  What recovery relies on: an answer keeps clear of every playing actor of the session but the
  returning one.  \<open>clear p x y q\<close> says that the returning player \<open>p\<close> at \<open>(x, y)\<close> and the actor
  \<open>q\<close> do not touch.
\<close>

locale placement =
  fixes safe :: safe_placement
    and clear :: "CoopPlayer \<Rightarrow> i32 \<Rightarrow> i32 \<Rightarrow> CoopPlayer \<Rightarrow> bool"
  assumes clears: "safe s p a = Some (x, y) \<Longrightarrow> q \<in> set (players s) \<Longrightarrow> p_life q = COOP_PLAYING \<Longrightarrow>
      p_id q \<noteq> p_id p \<Longrightarrow> clear p x y q"
begin

lemma recovered_clear:
  assumes run: "coop_session_recover alloc safe s = (True, t)" "advancing s" "outcome s = COOP_CONTINUE"
    and roster: "named_roster s" and ij: "j < length (players s)" "j \<noteq> i"
    and i: "i < length (players s)" "life_at s i \<noteq> COOP_PLAYING" "life_at t i = COOP_PLAYING"
    and j: "life_at t j = COOP_PLAYING" "j < i \<or> life_at s j = COOP_PLAYING"
  shows "clear (players s ! i) (p_x (players t ! i)) (p_y (players t ! i)) (players t ! j)"
proof -
  let ?p = "players s ! i" and ?u = "recovery_at alloc safe s i" and ?as = "playing_players s"
  let ?n = "length (players s)"
  have t: "t = recovery_at alloc safe s ?n" by (rule recover_runs [OF run])
  have pre: "recovery_inv s ?u" using recovery_prefix [OF roster, of i] i(1) by simp
  have "players t ! i = recovered safe ?u ?as ?p"
    unfolding t by (rule recovery_effect [OF roster i(1) refl])
  with i(2,3) obtain a x y where "safe ?u ?p a = Some (x, y)"
    "players t ! i = revive_player (ticks_per_second ?u) x y ?p"
    by (auto simp: recovered_def life_at_def split: if_splits option.splits)
  then have a: "safe ?u ?p a = Some (x, y)" "p_x (players t ! i) = x" "p_y (players t ! i) = y"
    by simp_all
  have same: "players t ! j = players ?u ! j"
  proof (cases "j < i")
    case True
    then show ?thesis unfolding t using recovery_suffix [OF roster, of j i ?n] i(1) by simp
  next
    case False
    with j(2) have "life_at s j = COOP_PLAYING" by simp
    with recovery_prefix [OF roster, of ?n alloc safe] pre ij(1)
    show ?thesis unfolding t by (simp add: recovery_inv_def)
  qed
  have ids: "ids ?u = ids s" using pre by (simp add: recovery_inv_def roster_le_def)
  then have len: "length (players ?u) = ?n" by (rule ids_length)
  have "p_id (players ?u ! j) \<noteq> p_id ?p"
    using roster ids ij i(1) len nth_eq_iff_index_eq [of "ids s" j i] nth_map [of j "players ?u" p_id]
    by (simp add: named_roster_def ids_def)
  then show ?thesis
    using clears [OF a(1), of "players ?u ! j"] ij(1) len j(1) a same by (simp add: life_at_def)
qed

text \<open>Of two different playing actors, the one that returned last was placed clear of the other.\<close>

lemma no_overlap:
  assumes "coop_session_recover alloc safe s = (True, t)" "advancing s" "outcome s = COOP_CONTINUE"
    and "named_roster s" "i < length (players s)" "j < length (players s)" "i \<noteq> j"
    and "life_at t i = COOP_PLAYING" "life_at t j = COOP_PLAYING" "life_at s i \<noteq> COOP_PLAYING"
  shows "clear (players s ! i) (p_x (players t ! i)) (p_y (players t ! i)) (players t ! j) \<or>
    (life_at s j \<noteq> COOP_PLAYING \<and>
     clear (players s ! j) (p_x (players t ! j)) (p_y (players t ! j)) (players t ! i))"
  using recovered_clear [OF assms(1-4), of j i] recovered_clear [OF assms(1-4), of i j] assms(5-10)
  by (cases "j < i") auto

end

section \<open>The input latch\<close>

lemma input_play:
  assumes "p_life p = COOP_PLAYING" "bit (p_action_latch p) n" "bit held n" "bit action_mask n"
  shows "p_life (coop_player_input held action_mask p) = COOP_PLAYING \<and>
    bit (p_action_latch (coop_player_input held action_mask p)) n \<and>
    \<not> bit (p_held_input (coop_player_input held action_mask p)) n \<and>
    \<not> bit (p_pressed_input (coop_player_input held action_mask p)) n"
  using assms by (simp add: coop_player_input_def Let_def bit_simps)

lemma input_plays:
  assumes "p_life p = COOP_PLAYING" "bit (p_action_latch p) n" "bit action_mask n"
    and "\<forall>h \<in> set hs. bit h n" "hs \<noteq> []"
  defines "q \<equiv> foldl (\<lambda>p h. coop_player_input h action_mask p) p hs"
  shows "\<not> bit (p_held_input q) n \<and> \<not> bit (p_pressed_input q) n"
proof -
  have "p_life p = COOP_PLAYING \<Longrightarrow> bit (p_action_latch p) n \<Longrightarrow> \<forall>h \<in> set hs. bit h n \<Longrightarrow> hs \<noteq> [] \<Longrightarrow>
    \<not> bit (p_held_input (foldl (\<lambda>p h. coop_player_input h action_mask p) p hs)) n \<and>
    \<not> bit (p_pressed_input (foldl (\<lambda>p h. coop_player_input h action_mask p) p hs)) n" for p
  proof (induction hs arbitrary: p)
    case Nil
    then show ?case by simp
  next
    case (Cons h hs)
    let ?q = "coop_player_input h action_mask p"
    have q: "p_life ?q = COOP_PLAYING" "bit (p_action_latch ?q) n"
      "\<not> bit (p_held_input ?q) n \<and> \<not> bit (p_pressed_input ?q) n"
      using input_play [of p n h action_mask] Cons.prems assms(3) by simp_all
    then show ?case using Cons.IH [of ?q] Cons.prems by (cases hs) simp_all
  qed
  then show ?thesis using assms by simp
qed

text \<open>
  An action button that is down when a player's last frame out of play is read is not seen
  after the player's return, neither as held nor as pressed, for as long as it stays down.
\<close>

lemma input_latch:
  assumes "p_life p \<noteq> COOP_PLAYING" "bit action_mask n" "bit h n"
    and "\<forall>h \<in> set hs. bit h n" "hs \<noteq> []"
  shows "let returned = (coop_player_input h action_mask p)\<lparr>p_life := COOP_PLAYING\<rparr>;
         q = foldl (\<lambda>p h. coop_player_input h action_mask p) returned hs
     in \<not> bit (p_pressed_input (coop_player_input h action_mask p)) n \<and>
        \<not> bit (p_held_input q) n \<and> \<not> bit (p_pressed_input q) n"
proof -
  let ?returned = "(coop_player_input h action_mask p)\<lparr>p_life := COOP_PLAYING\<rparr>"
  have b: "bit (p_action_latch ?returned) n"
    and f: "\<not> bit (p_pressed_input (coop_player_input h action_mask p)) n"
    using assms(1-3) by (simp_all add: coop_player_input_def Let_def bit_simps)
  show ?thesis unfolding Let_def
    using f input_plays [OF _ b assms(2,4,5)] by simp
qed

end
