(* ===== verification/Coop_Terrain.thy ===== *)
theory Coop_Terrain
  imports Coop_Recovery Coop_Machine
begin

text \<open>
  The placement query of \<^verbatim>\<open>src/mods/coop/coop_terrain.c\<close>: it decodes the level map in work RAM
  with the tables of the ROM and answers where a returning player may stand.

  \<open>int\<close> values of the C code are integers.  Positions that the code stores in \<open>int32_t\<close> objects
  are 32-bit words; a signed overflow, which C leaves undefined, wraps in the model.
\<close>

section \<open>Blocks\<close>

record CoopTerrain =
  t_ram :: mem
  t_rom :: "u8 list"
  t_session :: "CoopSession option"
  t_entities :: "CoopEntity list"

definition ram16 :: "mem \<Rightarrow> nat \<Rightarrow> nat \<Rightarrow> int" where
  "ram16 r lo hi = int (unat (r lo) + 256 * unat (r hi))"

definition rom8 :: "CoopTerrain \<Rightarrow> nat \<Rightarrow> u8 option" where
  "rom8 t address =
     (if address mod 0x10000 < 0x8000 then None
      else let at = address div 0x10000 mod 0x80 * 0x8000 + address mod 0x8000
           in if at \<ge> length (t_rom t) then None else Some (t_rom t ! at))"

text \<open>\<open>RemapBlocks\<close>: what the switches make of a block.\<close>

definition remap_block :: "mem \<Rightarrow> nat \<Rightarrow> nat" where
  "remap_block r b =
     (if b < 256 then
        (if b = 0x29 \<and> r 0x14ad \<noteq> 0 then 0x24
         else if (b = 0x2b \<and> r 0x14ad \<noteq> 0) \<or> (b \<ge> 0xec \<and> b < 0xfc) then 0x132 else b)
      else if (b = 0x132 \<and> r 0x14ad \<noteq> 0) \<or> (b = 0x12f \<and> r 0x14ae \<noteq> 0) then 0x2b else b)"

text \<open>The block at an index inside a screen of a layer: the pointer tables, the two map bytes, the switches.\<close>

definition screen_block :: "CoopTerrain \<Rightarrow> nat \<Rightarrow> bool \<Rightarrow> nat \<Rightarrow> nat \<Rightarrow> nat option" where
  "screen_block t layer vertical screen index =
     (let r = t_ram t;
          lo = (if vertical then (if layer \<noteq> 0 then 0xba8e else 0xba80)
                else (if layer \<noteq> 0 then 0xba70 else 0xba60));
          hi = (if vertical then (if layer \<noteq> 0 then 0xbaca else 0xbabc)
                else (if layer \<noteq> 0 then 0xbaac else 0xba9c))
      in case (rom8 t (lo + screen), rom8 t (hi + screen)) of
           (Some l, Some h) \<Rightarrow>
             let at = unat l + unat h * 256 + index
             in if at < 0xc800 \<or> at > 0xffff then None
                else let b = unat (r at) + unat (r (at + 0x10000)) * 256
                     in if b \<ge> 512 then None else Some (remap_block r b)
         | _ \<Rightarrow> None)"

definition coop_terrain_block :: "CoopTerrain \<Rightarrow> nat \<Rightarrow> int \<Rightarrow> int \<Rightarrow> nat option" where
  "coop_terrain_block t layer x y =
     (if layer > 1 \<or> x < 0 \<or> y < 0 then None
      else
        let vertical = bit (t_ram t 0x5b) layer;
            screen = nat (if vertical then y else x) div 256;
            limit = (if layer \<noteq> 0 then (if vertical then 14 else 16) else unat (t_ram t 0x5d))
        in if screen \<ge> limit \<or> screen \<ge> 32 \<or> (if vertical then x \<ge> 512 else y \<ge> 432) then None
           else screen_block t layer vertical screen
                  (nat y mod 256 div 16 * 16 + nat x mod 256 div 16 +
                   nat (if vertical then x else y) mod 65536 div 256 * 256))"

definition dangerous :: "CoopTerrain \<Rightarrow> nat \<Rightarrow> bool" where
  "dangerous t b \<longleftrightarrow>
     (let tileset = t_ram t 0x1931
      in if b = 5 \<or> b = 0x12f \<or> b \<ge> 0x1fb then True
         else if (tileset = 5 \<or> tileset = 13) \<and> b \<ge> 0x159 \<and> b \<le> 0x15b then True
         else if tileset = 1 \<and> (b = 0x15c \<or> (b \<ge> 0x166 \<and> b < 0x16a)) then True
         else (tileset = 3 \<or> tileset = 14) \<and> b \<ge> 0x1d2)"

section \<open>The body\<close>

text \<open>One probed pixel of \<open>body_clear\<close>: the loops go on exactly when it is clear.\<close>

definition pixel_clear :: "CoopTerrain \<Rightarrow> nat \<Rightarrow> bool \<Rightarrow> int \<Rightarrow> int \<Rightarrow> bool" where
  "pixel_clear t layer water x y =
     (case coop_terrain_block t layer x y of None \<Rightarrow> False
      | Some b \<Rightarrow> \<not> dangerous t b \<and> (if b < 256 then \<not> (b < 5 \<and> \<not> water) else b < 0x111))"

lemma next_tile: "x < x div 16 * 16 + (16 :: int)"
proof -
  have "x = x div 16 * 16 + x mod 16" by simp
  moreover have "x mod 16 < 16" by simp
  ultimately show ?thesis by linarith
qed

function row_clear :: "(int \<Rightarrow> bool) \<Rightarrow> int \<Rightarrow> int \<Rightarrow> bool" where
  "row_clear ok x right =
     (if x \<le> right then
        ok x \<and> (let next = x div 16 * 16 + 16
                in row_clear ok (if next > right \<and> x \<noteq> right then right else next) right)
      else True)"
  by pat_completeness auto
termination
  by (relation "measure (\<lambda>(ok, x, right). nat (right + 1 - x))")
    (use next_tile in \<open>auto simp: nat_less_eq_zless split: if_splits\<close>)

function column_clear :: "(int \<Rightarrow> bool) \<Rightarrow> int \<Rightarrow> int \<Rightarrow> bool" where
  "column_clear ok y feet =
     (if y < feet then
        ok y \<and> (let next = y div 16 * 16 + 16
                in column_clear ok (if next \<ge> feet \<and> y \<noteq> feet - 1 then feet - 1 else next) feet)
      else True)"
  by pat_completeness auto
termination
  by (relation "measure (\<lambda>(ok, y, feet). nat (feet - y))")
    (use next_tile in \<open>auto simp: nat_less_eq_zless split: if_splits\<close>)

declare row_clear.simps [simp del] column_clear.simps [simp del]

definition body_clear :: "CoopTerrain \<Rightarrow> nat \<Rightarrow> int \<Rightarrow> int \<Rightarrow> int \<Rightarrow> int \<Rightarrow> bool \<Rightarrow> bool" where
  "body_clear t layer left right top_y feet water =
     column_clear (\<lambda>y. row_clear (\<lambda>x. pixel_clear t layer water x y) left right) top_y feet"

definition footing :: "CoopTerrain \<Rightarrow> nat \<Rightarrow> int \<Rightarrow> int \<Rightarrow> bool" where
  "footing t layer x feet =
     (case coop_terrain_block t layer x feet of None \<Rightarrow> False
      | Some b \<Rightarrow>
          if dangerous t b then False
          else if (t_ram t 0x1931 = 3 \<or> t_ram t 0x1931 = 14) \<and> b \<ge> 0x159 \<and> b \<le> 0x15b then False
          else b \<ge> 0x100 \<and> b < 0x16e \<and> feet mod 16 = 0)"

section \<open>Sprites\<close>

definition rider_owns_sprite :: "CoopTerrain \<Rightarrow> nat \<Rightarrow> bool" where
  "rider_owns_sprite t slot =
     (case t_session t of None \<Rightarrow> False
      | Some s \<Rightarrow>
          if t_ram t (0x9e + slot) \<noteq> 0x35 \<or> t_ram t (0x14c8 + slot) \<noteq> 8 then False
          else \<exists>e \<in> set (t_entities t).
            en_kind e = COOP_ENTITY_NORMAL \<and> unat (en_slot e) = slot \<and> en_type e = 0x35 \<and>
            en_flags e = COOP_ENTITY_RIDDEN \<and>
            (case coop_player s (en_owner e) of None \<Rightarrow> False
             | Some k \<Rightarrow> let p = players s ! k
                         in p_mount p = en_id e \<and>
                            (p_life p = COOP_PLAYING \<or> p_life p = COOP_DEATH_BUBBLE \<or>
                             p_life p = COOP_CATCHUP_BUBBLE)))"

definition platform_footing :: "CoopTerrain \<Rightarrow> nat \<Rightarrow> int \<Rightarrow> int \<Rightarrow> int \<Rightarrow> bool" where
  "platform_footing t slot left right feet =
     (let r = t_ram t
      in if r (0x14c8 + slot) \<noteq> 8 \<or> r (0x9e + slot) < 0x55 \<or> r (0x9e + slot) > 0x59 then False
         else if feet \<noteq> ram16 r (0xd8 + slot) (0x14d4 + slot) + 1 then False
         else
           let clip = unat (r (0x1662 + slot)) mod 64
           in case (rom8 t (0x03b56c + clip), rom8 t (0x03b5a8 + clip)) of
                (Some dx, Some width) \<Rightarrow>
                  let x = ram16 r (0xe4 + slot) (0x14e0 + slot) + sint dx
                  in width \<noteq> 0 \<and> left \<ge> x \<and> right < x + int (unat width)
              | _ \<Rightarrow> False)"

definition clear_of_sprites :: "CoopTerrain \<Rightarrow> int \<Rightarrow> int \<Rightarrow> int \<Rightarrow> int \<Rightarrow> bool" where
  "clear_of_sprites t left right top_y feet \<longleftrightarrow>
     (let r = t_ram t
      in (\<forall>i \<in> set [0..<12].
            r (0x14c8 + i) < 8 \<or> rider_owns_sprite t i \<or> platform_footing t i left right feet \<or>
            (let x = ram16 r (0xe4 + i) (0x14e0 + i); y = ram16 r (0xd8 + i) (0x14d4 + i)
             in \<not> (right \<ge> x - 16 \<and> left < x + 48 \<and> feet > y - 16 \<and> top_y < y + 48))) \<and>
         (\<forall>i \<in> set [0..<10].
            r (0x170b + i) = 0 \<or>
            (let x = ram16 r (0x171f + i) (0x1733 + i); y = ram16 r (0x1715 + i) (0x1729 + i)
             in \<not> (right \<ge> x - 8 \<and> left < x + 24 \<and> feet > y - 8 \<and> top_y < y + 24))))"

section \<open>The query\<close>

definition body_height :: "CoopPlayer \<Rightarrow> int" where
  "body_height p =
     (let height = (if p_checkpoint_upgrade p \<or> p_power p \<noteq> COOP_SMALL then 26 else 12)
      in if p_mount p \<noteq> COOP_NO_ENTITY then (if height = 26 then 32 else 24) else height)"

definition body_clearance :: "CoopPlayer \<Rightarrow> int" where
  "body_clearance p = (if p_mount p \<noteq> COOP_NO_ENTITY then 48 else body_height p)"

definition body_half :: "CoopPlayer \<Rightarrow> int" where
  "body_half p = (if p_mount p \<noteq> COOP_NO_ENTITY then 16 else 6)"

text \<open>The last test of \<open>safe_at\<close>: the bodies of another actor \<open>q\<close> and of the returning one.\<close>

definition touches :: "int \<Rightarrow> int \<Rightarrow> int \<Rightarrow> int \<Rightarrow> CoopPlayer \<Rightarrow> bool" where
  "touches left right feet clearance q \<longleftrightarrow>
     (let other_half = (if p_mount q \<noteq> COOP_NO_ENTITY then 16 else sint (p_half_width q));
          other_height = (if p_mount q \<noteq> COOP_NO_ENTITY then 48 else sint (p_height q));
          other_feet = sint (p_y q) + sint (p_height q) sdiv 2
      in right \<ge> sint (p_x q) - other_half - 4 \<and> left \<le> sint (p_x q) + other_half + 4 \<and>
         feet > other_feet - other_height \<and> feet - clearance < other_feet)"

definition layer_active :: "CoopTerrain \<Rightarrow> nat \<Rightarrow> bool" where
  "layer_active t layer \<longleftrightarrow>
     \<not> (layer = 0 \<and> t_ram t 0x5b AND 0x40 \<noteq> 0) \<and> \<not> (layer = 1 \<and> t_ram t 0x5b AND 0x80 = 0)"

definition layer_shift :: "CoopTerrain \<Rightarrow> nat \<Rightarrow> nat \<Rightarrow> int" where
  "layer_shift t layer a = (if layer \<noteq> 0 then sint (of_nat (rd16 (t_ram t) a) :: 16 word) else 0)"

text \<open>One round of the loop over the layers; the state is \<open>support\<close>, None an early \<open>return false\<close>.\<close>

definition layer_step ::
  "CoopTerrain \<Rightarrow> int \<Rightarrow> int \<Rightarrow> int \<Rightarrow> int \<Rightarrow> bool \<Rightarrow> bool option \<Rightarrow> nat \<Rightarrow> bool option" where
  "layer_step t left right feet clearance water st layer =
     (case st of None \<Rightarrow> None
      | Some support \<Rightarrow>
          if \<not> layer_active t layer then Some support
          else
            let dx = layer_shift t layer 0x26; dy = layer_shift t layer 0x28
            in if \<not> body_clear t layer (left + dx) (right + dx) (feet - clearance + dy) (feet + dy) water
               then None
               else Some (support \<or>
                 (footing t layer (left + dx) (feet + dy) \<and> footing t layer (right + dx) (feet + dy))))"

definition safe_at :: "CoopTerrain \<Rightarrow> CoopPlayer \<Rightarrow> CoopPlayer \<Rightarrow> i32 \<Rightarrow> (i32 \<times> i32) option" where
  "safe_at t returning anchor center =
     (let height = body_height returning;
          clearance = body_clearance returning;
          half = body_half returning;
          feet32 = p_y anchor + word_of_int (sint (p_height anchor) sdiv 2);
          feet = sint feet32;
          left = sint center - half;
          right = sint center + half - 1;
          water = p_swimming anchor
      in if left < 0 \<or> feet < clearance then None
         else case foldl (layer_step t left right feet clearance water) (Some False) [0..<2] of
           None \<Rightarrow> None
         | Some support0 \<Rightarrow>
             let support = (support0 \<or> (\<exists>i \<in> set [0..<12]. platform_footing t i left right feet))
             in if \<not> support \<and> \<not> water then None
                else if \<not> clear_of_sprites t left right (feet - clearance) feet then None
                else if (case t_session t of None \<Rightarrow> False
                         | Some s \<Rightarrow> \<exists>q \<in> set (players s). p_id q \<noteq> p_id returning \<and>
                             p_life q = COOP_PLAYING \<and> touches left right feet clearance q)
                then None
                else Some (center, feet32 - word_of_int (height sdiv 2)))"

definition offsets :: "int list" where
  "offsets = [24, - 24, 40, - 40, 56, - 56]"

fun first_some :: "('a \<Rightarrow> 'b option) \<Rightarrow> 'a list \<Rightarrow> 'b option" where
  "first_some f [] = None"
| "first_some f (x # xs) = (case f x of None \<Rightarrow> first_some f xs | Some y \<Rightarrow> Some y)"

definition coop_terrain_safe :: "CoopTerrain \<Rightarrow> CoopPlayer \<Rightarrow> CoopPlayer \<Rightarrow> (i32 \<times> i32) option" where
  "coop_terrain_safe t returning anchor =
     (if p_life anchor \<noteq> COOP_PLAYING then None
      else first_some (\<lambda>d. safe_at t returning anchor (p_x anchor + word_of_int d)) offsets)"


section \<open>The probed pixels decide the whole body\<close>

definition tile_constant :: "(int \<Rightarrow> bool) \<Rightarrow> bool" where
  "tile_constant ok \<longleftrightarrow> (\<forall>x. ok x = ok (x div 16 * 16))"

lemma same_tile: "tile_constant ok \<Longrightarrow> x div 16 = z div 16 \<Longrightarrow> ok x = ok z"
  unfolding tile_constant_def by metis

lemma row_clear_all:
  assumes "tile_constant ok"
  shows "row_clear ok x right \<longleftrightarrow> (\<forall>z. x \<le> z \<and> z \<le> right \<longrightarrow> ok z)"
  using assms
proof (induction ok x right rule: row_clear.induct)
  case (1 ok x right)
  let ?next = "x div 16 * 16 + 16"
  let ?x = "if ?next > right \<and> x \<noteq> right then right else ?next"
  have tile: "ok z = ok x" if "x \<le> z" "z < ?next" for z
  proof (rule same_tile [OF 1(2)])
    have "x div 16 * 16 \<le> x" using pos_mod_sign [of 16 x] div_mult_mod_eq [of x 16] by linarith
    then have "0 \<le> z - 16 * (x div 16)" "z - 16 * (x div 16) < 16" using that by linarith+
    then show "z div 16 = x div 16" by (intro int_div_pos_eq [of _ _ _ "z - 16 * (x div 16)"]) simp_all
  qed
  show ?case
  proof (cases "x \<le> right")
    case False
    then show ?thesis by (subst row_clear.simps) auto
  next
    case True
    have "row_clear ok x right \<longleftrightarrow> ok x \<and> (\<forall>z. ?x \<le> z \<and> z \<le> right \<longrightarrow> ok z)"
      using 1 True by (subst row_clear.simps) (simp add: Let_def)
    also have "\<dots> \<longleftrightarrow> (\<forall>z. x \<le> z \<and> z \<le> right \<longrightarrow> ok z)"
    proof (intro iffI allI impI)
      fix z
      assume a: "ok x \<and> (\<forall>z. ?x \<le> z \<and> z \<le> right \<longrightarrow> ok z)" and z: "x \<le> z \<and> z \<le> right"
      show "ok z"
      proof (cases "z < ?next")
        case True
        with tile [of z] a z show ?thesis by simp
      next
        case False
        with a z show ?thesis by (auto split: if_splits)
      qed
    next
      assume a: "\<forall>z. x \<le> z \<and> z \<le> right \<longrightarrow> ok z"
      have "x \<le> ?x" using True next_tile [of x] by simp
      with a True show "ok x \<and> (\<forall>z. ?x \<le> z \<and> z \<le> right \<longrightarrow> ok z)" by auto
    qed
    finally show ?thesis .
  qed
qed

lemma column_row: "column_clear ok y feet = row_clear ok y (feet - 1)"
proof (induction ok y feet rule: column_clear.induct)
  case (1 ok y feet)
  then show ?case
    by (subst column_clear.simps, subst row_clear.simps) (auto simp: Let_def)
qed

lemma nat_mod_div: "0 < a \<Longrightarrow> m mod (a * b) div a = m div a mod (b :: nat)"
  by (simp add: mod_mult2_eq)

lemma nat_tile:
  "(n div 16 * 16) div 256 = n div (256 :: nat)"
  "(n div 16 * 16) mod 256 div 16 = n mod (256 :: nat) div 16"
  "(n div 16 * 16) mod 65536 div 256 = n mod (65536 :: nat) div 256"
  "512 \<le> n div 16 * 16 \<longleftrightarrow> 512 \<le> n" "432 \<le> n div 16 * 16 \<longleftrightarrow> 432 \<le> n"
proof -
  have d: "m div 256 = m div 16 div (16 :: nat)" for m using div_mult2_eq [of m 16 16] by simp
  show 1: "(n div 16 * 16) div 256 = n div (256 :: nat)" by (simp add: d)
  show "(n div 16 * 16) mod 256 div 16 = n mod (256 :: nat) div 16"
    using nat_mod_div [of 16 "n div 16 * 16" 16] nat_mod_div [of 16 n 16] by simp
  show "(n div 16 * 16) mod 65536 div 256 = n mod (65536 :: nat) div 256"
    using nat_mod_div [of 256 "n div 16 * 16" 256] nat_mod_div [of 256 n 256] by (simp add: 1)
  show "512 \<le> n div 16 * 16 \<longleftrightarrow> 512 \<le> n" "432 \<le> n div 16 * 16 \<longleftrightarrow> 432 \<le> n"
    using less_eq_div_iff_mult_less_eq [of 16 32 n] less_eq_div_iff_mult_less_eq [of 16 27 n] by linarith+
qed

lemma tile_arith:
  fixes x :: int
  assumes "0 \<le> x"
  shows "\<not> x div 16 * 16 < 0" "nat (x div 16 * 16) div 256 = nat x div 256"
    "nat (x div 16 * 16) mod 256 div 16 = nat x mod 256 div 16"
    "nat (x div 16 * 16) mod 65536 div 256 = nat x mod 65536 div 256"
    "x div 16 * 16 \<ge> 512 \<longleftrightarrow> x \<ge> 512" "x div 16 * 16 \<ge> 432 \<longleftrightarrow> x \<ge> 432"
proof -
  obtain n where x: "x = int n" using assms nonneg_int_cases by blast
  have e: "x div 16 * 16 = int (n div 16 * 16)" by (simp add: x zdiv_int)
  have s: "nat (x div 16 * 16) = n div 16 * 16" unfolding e by (rule nat_int)
  show "\<not> x div 16 * 16 < 0" unfolding e by simp
  show "nat (x div 16 * 16) div 256 = nat x div 256" "nat (x div 16 * 16) mod 256 div 16 = nat x mod 256 div 16"
    "nat (x div 16 * 16) mod 65536 div 256 = nat x mod 65536 div 256"
    unfolding s by (simp_all only: x nat_int nat_tile)
  show "x div 16 * 16 \<ge> 512 \<longleftrightarrow> x \<ge> 512" "x div 16 * 16 \<ge> 432 \<longleftrightarrow> x \<ge> 432"
    unfolding e unfolding x using nat_tile(4,5) [of n] by linarith+
qed

lemma tile_negative: "x < 0 \<longleftrightarrow> x div 16 * 16 < (0 :: int)"
  using next_tile [of x] pos_mod_sign [of 16 x] div_mult_mod_eq [of x 16] by (cases "0 \<le> x div 16") linarith+

lemma block_tile:
  "coop_terrain_block t layer x y = coop_terrain_block t layer (x div 16 * 16) (y div 16 * 16)"
proof (cases "x < 0 \<or> y < 0")
  case True
  then have "x div 16 * 16 < 0 \<or> y div 16 * 16 < 0" using tile_negative by blast
  with True show ?thesis by (auto simp: coop_terrain_block_def)
next
  case False
  then have x: "0 \<le> x" and y: "0 \<le> y" by simp_all
  note ax = tile_arith [OF x] and ay = tile_arith [OF y]
  have nn: "(x < 0) = False" "(y < 0) = False" "(x div 16 * 16 < 0) = False" "(y div 16 * 16 < 0) = False"
    using x y ax(1) ay(1) by simp_all
  have sel: "nat (if v then y div 16 * 16 else x div 16 * 16) div 256 = nat (if v then y else x) div 256"
    "nat (if v then x div 16 * 16 else y div 16 * 16) mod 65536 div 256 =
       nat (if v then x else y) mod 65536 div 256"
    "(if v then x div 16 * 16 \<ge> 512 else y div 16 * 16 \<ge> 432) = (if v then x \<ge> 512 else y \<ge> 432)" for v
    using ax ay by (cases v; simp only: if_True if_False)+
  show ?thesis
    unfolding coop_terrain_block_def nn sel ax(3) ay(3) ..
qed

lemma pixel_tile_x: "tile_constant (\<lambda>x. pixel_clear t layer water x y)"
  unfolding tile_constant_def
proof
  fix x
  have "coop_terrain_block t layer x y = coop_terrain_block t layer (x div 16 * 16) y"
    using block_tile [of t layer x y] block_tile [of t layer "x div 16 * 16" y] by simp
  then show "pixel_clear t layer water x y = pixel_clear t layer water (x div 16 * 16) y"
    by (simp add: pixel_clear_def)
qed

lemma pixel_tile_y: "pixel_clear t layer water x y = pixel_clear t layer water x (y div 16 * 16)"
proof -
  have "coop_terrain_block t layer x y = coop_terrain_block t layer x (y div 16 * 16)"
    using block_tile [of t layer x y] block_tile [of t layer x "y div 16 * 16"] by simp
  then show ?thesis by (simp add: pixel_clear_def)
qed

text \<open>
  C20. The tile-stepping probe of a body is exact: it accepts a rectangle precisely when every pixel of
  the rectangle is on a passable, harmless block of the layer.
\<close>

theorem body_clear_exact:
  "body_clear t layer left right top_y feet water \<longleftrightarrow>
     (\<forall>x y. left \<le> x \<and> x \<le> right \<and> top_y \<le> y \<and> y < feet \<longrightarrow> pixel_clear t layer water x y)"
proof -
  have row: "row_clear (\<lambda>x. pixel_clear t layer water x y) left right \<longleftrightarrow>
      (\<forall>x. left \<le> x \<and> x \<le> right \<longrightarrow> pixel_clear t layer water x y)" for y
    by (rule row_clear_all [OF pixel_tile_x])
  have "tile_constant (\<lambda>y. row_clear (\<lambda>x. pixel_clear t layer water x y) left right)"
    unfolding tile_constant_def row using pixel_tile_y by blast
  from row_clear_all [OF this, of top_y "feet - 1"] show ?thesis
    unfolding body_clear_def column_row row by auto
qed


section \<open>What an answer guarantees\<close>

lemma first_some_Some: "first_some f xs = Some y \<Longrightarrow> \<exists>x \<in> set xs. f x = Some y"
  by (induction xs) (auto split: option.splits)

lemma layer_step_None [simp]: "layer_step t left right feet clearance water None layer = None"
  by (simp add: layer_step_def)

definition layer_clear :: "CoopTerrain \<Rightarrow> int \<Rightarrow> int \<Rightarrow> int \<Rightarrow> int \<Rightarrow> bool \<Rightarrow> nat \<Rightarrow> bool" where
  "layer_clear t left right feet clearance water layer \<longleftrightarrow>
     (\<forall>x y. left \<le> x \<and> x \<le> right \<and> feet - clearance \<le> y \<and> y < feet \<longrightarrow>
        pixel_clear t layer water (x + layer_shift t layer 0x26) (y + layer_shift t layer 0x28))"

definition layer_support :: "CoopTerrain \<Rightarrow> int \<Rightarrow> int \<Rightarrow> int \<Rightarrow> nat \<Rightarrow> bool" where
  "layer_support t left right feet layer \<longleftrightarrow> layer_active t layer \<and>
     footing t layer (left + layer_shift t layer 0x26) (feet + layer_shift t layer 0x28) \<and>
     footing t layer (right + layer_shift t layer 0x26) (feet + layer_shift t layer 0x28)"

lemma body_clear_layer:
  "body_clear t layer (left + layer_shift t layer 0x26) (right + layer_shift t layer 0x26)
     (feet - clearance + layer_shift t layer 0x28) (feet + layer_shift t layer 0x28) water \<longleftrightarrow>
   layer_clear t left right feet clearance water layer"
  (is "?b \<longleftrightarrow> ?l")
proof
  show ?l if ?b
    using that unfolding body_clear_exact layer_clear_def by simp
  show ?b if ?l
    unfolding body_clear_exact
  proof (intro allI impI)
    fix x y
    assume "left + layer_shift t layer 0x26 \<le> x \<and> x \<le> right + layer_shift t layer 0x26 \<and>
      feet - clearance + layer_shift t layer 0x28 \<le> y \<and> y < feet + layer_shift t layer 0x28"
    then show "pixel_clear t layer water x y"
      using that [unfolded layer_clear_def, rule_format,
          of "x - layer_shift t layer 0x26" "y - layer_shift t layer 0x28"] by simp
  qed
qed

lemma layer_loop:
  "foldl (layer_step t left right feet clearance water) (Some False) layers = Some support \<Longrightarrow>
     (\<forall>layer \<in> set layers. layer_active t layer \<longrightarrow> layer_clear t left right feet clearance water layer) \<and>
     (support \<longleftrightarrow> (\<exists>layer \<in> set layers. layer_support t left right feet layer))"
proof (induction layers arbitrary: support rule: rev_induct)
  case Nil
  then show ?case by simp
next
  case (snoc l layers)
  then obtain s where s: "foldl (layer_step t left right feet clearance water) (Some False) layers = Some s"
    by (cases "foldl (layer_step t left right feet clearance water) (Some False) layers") auto
  have "layer_step t left right feet clearance water (Some s) l = Some support"
    using snoc.prems s by simp
  then have "layer_active t l \<longrightarrow> layer_clear t left right feet clearance water l"
    "support \<longleftrightarrow> s \<or> layer_support t left right feet l"
    unfolding layer_step_def layer_support_def Let_def body_clear_layer by (auto split: if_splits)
  with snoc.IH [OF s] show ?case by auto
qed

text \<open>The place a body occupies when its answer is \<open>(x, y)\<close>.\<close>

definition placed_feet :: "CoopPlayer \<Rightarrow> i32 \<Rightarrow> int" where
  "placed_feet p y = sint (y + word_of_int (body_height p sdiv 2))"

definition placed_left :: "CoopPlayer \<Rightarrow> i32 \<Rightarrow> int" where
  "placed_left p x = sint x - body_half p"

definition placed_right :: "CoopPlayer \<Rightarrow> i32 \<Rightarrow> int" where
  "placed_right p x = sint x + body_half p - 1"

definition terrain_clear :: "CoopPlayer \<Rightarrow> i32 \<Rightarrow> i32 \<Rightarrow> CoopPlayer \<Rightarrow> bool" where
  "terrain_clear p x y q \<longleftrightarrow>
     \<not> touches (placed_left p x) (placed_right p x) (placed_feet p y) (body_clearance p) q"

lemma safe_at_Some:
  assumes "safe_at t p a c = Some (x, y)"
  shows "x = c \<and> y + word_of_int (body_height p sdiv 2) = p_y a + word_of_int (sint (p_height a) sdiv 2) \<and>
    0 \<le> placed_left p x \<and> body_clearance p \<le> placed_feet p y \<and>
    (\<forall>layer < 2. layer_active t layer \<longrightarrow>
       layer_clear t (placed_left p x) (placed_right p x) (placed_feet p y) (body_clearance p) (p_swimming a) layer) \<and>
    (p_swimming a \<or>
     (\<exists>layer < 2. layer_support t (placed_left p x) (placed_right p x) (placed_feet p y) layer) \<or>
     (\<exists>i < 12. platform_footing t i (placed_left p x) (placed_right p x) (placed_feet p y))) \<and>
    clear_of_sprites t (placed_left p x) (placed_right p x) (placed_feet p y - body_clearance p) (placed_feet p y) \<and>
    (\<forall>s. t_session t = Some s \<longrightarrow>
       (\<forall>q \<in> set (players s). p_id q \<noteq> p_id p \<and> p_life q = COOP_PLAYING \<longrightarrow> terrain_clear p x y q))"
proof -
  define feet where "feet = sint (p_y a + word_of_int (sint (p_height a) sdiv 2))"
  define left right where "left = sint c - body_half p" and "right = sint c + body_half p - 1"
  obtain support where loop: "foldl (layer_step t left right feet (body_clearance p) (p_swimming a)) (Some False) [0..<2] =
      Some support"
    and out: "x = c" "y = p_y a + word_of_int (sint (p_height a) sdiv 2) - word_of_int (body_height p sdiv 2)"
    and tests: "\<not> left < 0" "\<not> feet < body_clearance p"
      "\<not> (\<not> (support \<or> (\<exists>i \<in> set [0..<12]. platform_footing t i left right feet)) \<and> \<not> p_swimming a)"
      "clear_of_sprites t left right (feet - body_clearance p) feet"
      "\<not> (case t_session t of None \<Rightarrow> False
          | Some s \<Rightarrow> \<exists>q \<in> set (players s). p_id q \<noteq> p_id p \<and> p_life q = COOP_PLAYING \<and>
              touches left right feet (body_clearance p) q)"
    using assms unfolding safe_at_def Let_def left_def [symmetric] right_def [symmetric] feet_def [symmetric]
    by (auto split: if_split_asm option.split_asm)
  have eq: "placed_left p x = left" "placed_right p x = right" "placed_feet p y = feet"
    by (simp_all add: placed_left_def placed_right_def placed_feet_def left_def right_def feet_def out)
  have "y + word_of_int (body_height p sdiv 2) = p_y a + word_of_int (sint (p_height a) sdiv 2)"
    by (simp add: out)
  then show ?thesis
    unfolding eq terrain_clear_def
    using layer_loop [OF loop] tests out(1) by (auto simp: Ball_def)
qed


section \<open>Recovery on the terrain\<close>

text \<open>The context of recovery: \<open>CoopTerrain.session\<close> points to the session that recovers.\<close>

definition terrain_query :: "CoopTerrain \<Rightarrow> safe_placement" where
  "terrain_query t s p a = coop_terrain_safe (t\<lparr>t_session := Some s\<rparr>) p a"

lemma safe_answer_clear:
  assumes "coop_terrain_safe t p a = Some (x, y)" "t_session t = Some s" "q \<in> set (players s)"
    "p_life q = COOP_PLAYING" "p_id q \<noteq> p_id p"
  shows "terrain_clear p x y q"
proof -
  from assms(1) have f: "first_some (\<lambda>d. safe_at t p a (p_x a + word_of_int d)) offsets = Some (x, y)"
    by (auto simp: coop_terrain_safe_def split: if_splits)
  from first_some_Some [OF f] obtain d where "safe_at t p a (p_x a + word_of_int d) = Some (x, y)" by blast
  from safe_at_Some [OF this] assms(2-5) show ?thesis by blast
qed

interpretation terrain: placement "terrain_query t" terrain_clear for t
  by unfold_locales (auto simp: terrain_query_def intro: safe_answer_clear)

text \<open>
  C22. Players that return in a recovery pass with the terrain query never overlap: for two different
  playing actors of which at least one has just returned, the one that returned later was placed
  clear of the other as it stands after the pass.
\<close>

theorem recovery_never_overlaps:
  assumes "coop_session_recover alloc (terrain_query t) s = (True, s')" "advancing s"
    and "outcome s = COOP_CONTINUE" "named_roster s"
    and "i < length (players s)" "j < length (players s)" "i \<noteq> j"
    and "life_at s' i = COOP_PLAYING" "life_at s' j = COOP_PLAYING" "life_at s i \<noteq> COOP_PLAYING"
  shows "terrain_clear (players s ! i) (p_x (players s' ! i)) (p_y (players s' ! i)) (players s' ! j) \<or>
    (life_at s j \<noteq> COOP_PLAYING \<and>
     terrain_clear (players s ! j) (p_x (players s' ! j)) (p_y (players s' ! j)) (players s' ! i))"
  by (rule terrain.no_overlap [OF assms])

end
