(* ===== verification/Guest_Cpu.thy ===== *)
theory Guest_Cpu
  imports Prelude
begin

text \<open>
  The registers of the guest's 65816 that the hooks and the routines in C touch.  The flags are kept
  beside the status byte, as the framework does; the bus clocks and the last driven value belong to
  the machine and not to the routine that runs.
\<close>

record CpuState =
  cpu_A :: u16
  cpu_X :: u16
  cpu_Y :: u16
  cpu_S :: u16
  cpu_D :: u16
  cpu_P :: u8
  cpu_PB :: u8
  cpu_DB :: u8
  cpu_m_flag :: bool
  cpu_x_flag :: bool
  cpu_flag_N :: bool
  cpu_flag_V :: bool
  cpu_flag_Z :: bool
  cpu_flag_C :: bool
  cpu_host_return_valid :: bool
  cpu_cycles :: u64
  cpu_master_cycles :: u64
  cpu_coprocessor_master_cycles :: u64
  cpu_open_bus :: u8

end
