(* ===== verification/Sim_World.thy ===== *)
theory Sim_World
  imports Coop_Presentation Coop_Resolve Coop_Terrain Guest_Cpu "HOL-Library.Monad_Syntax"
begin

unbundle bit_operations_syntax

text \<open>
  The state of \<^verbatim>\<open>src/mods/coop/coop_simulation.c\<close> and its first operations: mounts, carried objects,
  placed eggs and the fireballs of each player.

  The simulation runs the game's own routines once for every player.  Such a routine runs until it
  returns, and meanwhile it may come back to the hooks of the simulation; it is the parameter
  \<open>sv_run\<close>, any function on the whole state that also says whether the routine returned as it
  should.  An operation is a function from the state to an optional state; None is the end of the
  program, by \<^verbatim>\<open>Die\<close> or by following a null pointer.  A pointer to an actor or to an entity is an
  index.  The traces that the environment can switch on only print and are left out.
\<close>

section \<open>The state\<close>

text \<open>The guards that are set while a routine of the game runs.\<close>

record Guards =
  gd_player :: nat
  gd_sprite :: nat
  gd_camera :: nat
  gd_room_sprite :: nat
  gd_room_load :: nat
  gd_spawning_mount :: bool
  gd_carried_reward :: nat
  gd_mount_draw :: nat
  gd_contact :: nat
  gd_chuck :: nat
  gd_cape :: nat
  gd_platform :: nat
  gd_fireball_spawn :: nat
  gd_extended_call :: nat
  gd_boss_fireball :: nat
  gd_extended_contact :: nat
  gd_extended_query :: bool
  gd_collecting_mouths :: bool
  gd_owned_boss_bank :: bool
  gd_contact_query :: bool
  gd_bounce_only :: bool
  gd_powerup_query :: bool
  gd_goal_query :: bool
  gd_goal_commit :: bool
  gd_keyhole_query :: bool
  gd_frozen_bonus :: bool
  gd_settling_bonus :: bool

datatype NativeContactKind =
    CONTACT_NONE | CONTACT_STAR | CONTACT_BOUNCE | CONTACT_SIDE | CONTACT_SLIDE
  | CONTACT_SPIN | CONTACT_STOMP | CONTACT_PICKUP | CONTACT_LOOSE | CONTACT_POWERUP

record MouthContact =
  mc_mount :: u32
  mc_object :: u32
  mc_actor :: u32
  mc_distance :: u64
  mc_cpu :: CpuState
  mc_scratch :: "u8 list"

record BerryContact =
  bc_mount :: u32
  bc_actor :: u32
  bc_tile :: nat
  bc_x :: nat
  bc_y :: nat
  bc_distance :: u64
  bc_cpu :: CpuState
  bc_scratch :: "u8 list"

text \<open>\<open>w_bound\<close> is \<^verbatim>\<open>bound_actor\<close>, \<open>w_damaged\<close> the ledger \<^verbatim>\<open>damaged_entity\<close>.\<close>

record World =
  w_ram :: mem
  w_cpu :: CpuState
  w_ppu :: Ppu
  w_machine :: CoopMachine
  w_guards :: Guards
  w_bound :: "nat option"
  w_queried_contact :: NativeContactKind
  w_extended_found :: bool
  w_mouths :: "MouthContact list"
  w_mouth_capacity :: nat
  w_berries :: "BerryContact list"
  w_berry_capacity :: nat
  w_damaged :: "u32 list"
  w_level_frame :: bool
  w_timer_had_time :: bool
  w_stage_started :: bool
  w_end_timer :: u8
  w_scene_request :: u32
  w_room_request :: u32
  w_goal_contact :: bool
  w_frozen_score :: nat
  w_goal_height :: u8
  w_goal_stars :: u8
  w_goal_actor :: u32
  w_goal_entity :: u32

text \<open>The framework and the cartridge: the interpreter, the return frames that it wants on the stack, the
bus, the sizes of the two contact records, which hold a processor of the framework,
the flags mirrored from the status byte, the controllers with the bits of their four face buttons
(\<open>sv_face\<close>), SELECT and START, the bit order of their words, and whether the co-op mode is active.\<close>

record Env =
  sv_rom :: mem
  sv_alloc :: allocator
  sv_run :: "nat \<Rightarrow> World \<Rightarrow> bool \<times> World"
  sv_push_jsr :: "World \<Rightarrow> World"
  sv_push_jsl :: "World \<Rightarrow> World"
  sv_write8 :: "nat \<Rightarrow> nat \<Rightarrow> u8 \<Rightarrow> World \<Rightarrow> World"
  sv_mouth_bytes :: nat
  sv_berry_bytes :: nat
  sv_p_to_mirrors :: "CpuState \<Rightarrow> CpuState"
  sv_pad :: "nat \<Rightarrow> u32"
  sv_face :: u32
  sv_select :: u32
  sv_start :: u32
  sv_swap :: "u16 \<Rightarrow> u16"
  sv_active :: bool
  sv_viewport :: SmwViewport

section \<open>Small steps\<close>

definition on_ram :: "(mem \<Rightarrow> mem) \<Rightarrow> World \<Rightarrow> World" where
  "on_ram f w = w\<lparr>w_ram := f (w_ram w)\<rparr>"

definition on_regs :: "(CpuState \<Rightarrow> CpuState) \<Rightarrow> World \<Rightarrow> World" where
  "on_regs f w = w\<lparr>w_cpu := f (w_cpu w)\<rparr>"

definition on_machine :: "(CoopMachine \<Rightarrow> CoopMachine) \<Rightarrow> World \<Rightarrow> World" where
  "on_machine f w = w\<lparr>w_machine := f (w_machine w)\<rparr>"

definition on_guards :: "(Guards \<Rightarrow> Guards) \<Rightarrow> World \<Rightarrow> World" where
  "on_guards f w = w\<lparr>w_guards := f (w_guards w)\<rparr>"

definition poke8 :: "nat \<Rightarrow> u8 \<Rightarrow> World \<Rightarrow> World" where
  "poke8 a v = on_ram (\<lambda>r. r(a := v))"

text \<open>An assignment of one value to several bytes.\<close>

definition poke_all :: "nat list \<Rightarrow> u8 \<Rightarrow> World \<Rightarrow> World" where
  "poke_all as v = on_ram (\<lambda>r. foldl (\<lambda>r a. r(a := v)) r as)"

definition bind_actor :: "nat option \<Rightarrow> World \<Rightarrow> World" where
  "bind_actor i w = w\<lparr>w_bound := i\<rparr>"

definition guest_scratch :: "World \<Rightarrow> u8 list" where
  "guest_scratch w = map (w_ram w) [0..<16]"

definition put_scratch :: "u8 list \<Rightarrow> World \<Rightarrow> World" where
  "put_scratch bs = on_ram (poke 0 bs)"

text \<open>The 16-bit value of two bytes of separate tables.\<close>

definition joined :: "mem \<Rightarrow> nat \<Rightarrow> nat \<Rightarrow> nat" where
  "joined r lo hi = unat (r lo) + 256 * unat (r hi)"

definition slot_x :: "mem \<Rightarrow> nat \<Rightarrow> nat" where
  "slot_x r slot = joined r (0xe4 + slot) (0x14e0 + slot)"

definition slot_y :: "mem \<Rightarrow> nat \<Rightarrow> nat" where
  "slot_y r slot = joined r (0xd8 + slot) (0x14d4 + slot)"

definition upd_actor :: "nat \<Rightarrow> (CoopActor \<Rightarrow> CoopActor) \<Rightarrow> CoopMachine \<Rightarrow> CoopMachine" where
  "upd_actor i f m = m\<lparr>m_actors := upd_at i f (m_actors m)\<rparr>"

definition upd_entity :: "nat \<Rightarrow> (CoopEntity \<Rightarrow> CoopEntity) \<Rightarrow> CoopMachine \<Rightarrow> CoopMachine" where
  "upd_entity k f m = m\<lparr>m_entities := upd_at k f (m_entities m)\<rparr>"

definition on_session :: "(CoopSession \<Rightarrow> CoopSession) \<Rightarrow> CoopMachine \<Rightarrow> CoopMachine" where
  "on_session f m = m\<lparr>m_session := f (m_session m)\<rparr>"

definition on_player :: "nat \<Rightarrow> (CoopPlayer \<Rightarrow> CoopPlayer) \<Rightarrow> CoopMachine \<Rightarrow> CoopMachine" where
  "on_player j f = on_session (upd_player j f)"

text \<open>Loops whose body may end the program, and loops that the body may leave.\<close>

fun each_do :: "('a \<Rightarrow> World \<Rightarrow> World option) \<Rightarrow> 'a list \<Rightarrow> World \<Rightarrow> World option" where
  "each_do f [] w = Some w"
| "each_do f (x # xs) w = do { w \<leftarrow> f x w; each_do f xs w }"

fun each_while :: "('a \<Rightarrow> World \<Rightarrow> (bool \<times> World) option) \<Rightarrow> 'a list \<Rightarrow> World \<Rightarrow> World option" where
  "each_while f [] w = Some w"
| "each_while f (x # xs) w = do { (go, w) \<leftarrow> f x w; if go then each_while f xs w else Some w }"

definition actor_indices :: "World \<Rightarrow> nat list" where
  "actor_indices w = [0..<length (m_actors (w_machine w))]"

section \<open>Registers and calls of the game's routines\<close>

definition restore_registers :: "CpuState \<Rightarrow> CpuState \<Rightarrow> CpuState" where
  "restore_registers caller cpu =
     caller\<lparr>cpu_cycles := cpu_cycles cpu, cpu_master_cycles := cpu_master_cycles cpu,
            cpu_coprocessor_master_cycles := cpu_coprocessor_master_cycles cpu, cpu_open_bus := cpu_open_bus cpu\<rparr>"

text \<open>\<open>stack\<close> is the value of S with which the routine has to come back.\<close>

definition guest_call :: "Env \<Rightarrow> (World \<Rightarrow> World) \<Rightarrow> u16 \<Rightarrow> nat \<Rightarrow> World \<Rightarrow> World option" where
  "guest_call env push stack entry w =
     (let (ok, w') = sv_run env entry (push w) in if ok \<and> cpu_S (w_cpu w') = stack then Some w' else None)"

definition guest_jsr :: "Env \<Rightarrow> nat \<Rightarrow> World \<Rightarrow> World option" where
  "guest_jsr env entry w = guest_call env (sv_push_jsr env) (cpu_S (w_cpu w)) entry w"

section \<open>Actors and their images\<close>

definition primary_actor :: "World \<Rightarrow> nat option" where
  "primary_actor w = coop_machine_actor (w_machine w) (primary (m_session (w_machine w)))"

definition actor_at :: "nat \<Rightarrow> World \<Rightarrow> CoopActor" where
  "actor_at i w = m_actors (w_machine w) ! i"

definition entity_at :: "nat \<Rightarrow> World \<Rightarrow> CoopEntity" where
  "entity_at k w = m_entities (w_machine w) ! k"

definition player_at :: "nat \<Rightarrow> World \<Rightarrow> CoopPlayer" where
  "player_at j w = players (m_session (w_machine w)) ! j"

text \<open>The player of an actor, by its index in the roster.\<close>

definition player_index :: "nat \<Rightarrow> World \<Rightarrow> nat option" where
  "player_index i w = coop_player (m_session (w_machine w)) (ac_player (actor_at i w))"

definition capture :: "nat \<Rightarrow> World \<Rightarrow> World option" where
  "capture i w =
     do { j \<leftarrow> player_index i w;
          p \<leftarrow> coop_guest_read_player (player_at j w) (w_ram w);
          Some (on_machine (on_player j (\<lambda>_. p) \<circ>
                  upd_actor i (ac_guest_update (\<lambda>_. coop_guest_capture (w_ram w)))) w) }"

definition bind_image :: "u8 list \<Rightarrow> World \<Rightarrow> World" where
  "bind_image bytes = on_ram (coop_guest_bind bytes)"

definition bind_guest :: "nat \<Rightarrow> World \<Rightarrow> World" where
  "bind_guest i w = bind_image (ac_guest (actor_at i w)) w"

text \<open>\<^verbatim>\<open>bound_actor?bound_actor:primary_actor(m)\<close>.\<close>

definition current_actor :: "World \<Rightarrow> nat option" where
  "current_actor w = (case w_bound w of Some i \<Rightarrow> Some i | None \<Rightarrow> primary_actor w)"

text \<open>The byte that \<^verbatim>\<open>coop_guest_peek\<close> stores, zero for an address that is no actor's.\<close>

definition peeked :: "nat \<Rightarrow> nat \<Rightarrow> World \<Rightarrow> u8" where
  "peeked i a w = (case coop_guest_peek (ac_guest (actor_at i w)) a of None \<Rightarrow> 0 | Some v \<Rightarrow> v)"

section \<open>Entities and mounts\<close>

definition normal_slot :: "nat \<Rightarrow> World \<Rightarrow> nat option" where
  "normal_slot slot w = coop_machine_entity_slot (w_machine w) COOP_ENTITY_NORMAL (of_nat slot)"

definition normal_entity :: "Env \<Rightarrow> nat \<Rightarrow> bool \<Rightarrow> World \<Rightarrow> (nat \<times> World) option" where
  "normal_entity env slot reset w =
     (let type = ucast (w_ram w (0x9e + slot))
      in do { (k, w) \<leftarrow>
                (case (if reset then None else normal_slot slot w) of
                   Some k \<Rightarrow> Some (k, w)
                 | None \<Rightarrow>
                     (case coop_machine_spawn_entity (sv_alloc env) COOP_ENTITY_NORMAL (of_nat slot) type (w_machine w) of
                        (None, m) \<Rightarrow> None
                      | (Some k, m) \<Rightarrow> Some (k, w\<lparr>w_machine := m\<rparr>)));
              Some (k, on_machine (upd_entity k (en_type_update (\<lambda>_. type))) w) })"

text \<open>Every actor has a player in the roster, so a mount is looked up for each.\<close>

definition actor_mount :: "nat \<Rightarrow> World \<Rightarrow> nat option" where
  "actor_mount i w =
     (case player_index i w of None \<Rightarrow> None | Some j \<Rightarrow> coop_machine_entity (w_machine w) (p_mount (player_at j w)))"

definition bind_mount :: "nat option \<Rightarrow> World \<Rightarrow> World" where
  "bind_mount k w = on_ram (coop_mount_bind (map_option (\<lambda>k. entity_at k w) k)) w"

definition capture_mount :: "nat \<Rightarrow> World \<Rightarrow> World" where
  "capture_mount k w = on_machine (upd_entity k (coop_mount_capture (w_ram w))) w"

definition capture_any_mount :: "nat option \<Rightarrow> World \<Rightarrow> World" where
  "capture_any_mount k w = (case k of None \<Rightarrow> w | Some k \<Rightarrow> capture_mount k w)"

definition leave_mount :: "u32 \<Rightarrow> CoopPlayer \<Rightarrow> CoopPlayer" where
  "leave_mount i p = (if p_mount p = i then p\<lparr>p_mount := COOP_NO_ENTITY\<rparr> else p)"

definition dismount :: "nat \<Rightarrow> CoopMachine \<Rightarrow> CoopMachine" where
  "dismount k m =
     (let e = m_entities m ! k;
          m1 = (case coop_player (m_session m) (en_owner e) of None \<Rightarrow> m | Some j \<Rightarrow> on_player j (leave_mount (en_id e)) m)
      in upd_entity k (\<lambda>e. e\<lparr>en_owner := COOP_NO_PLAYER, en_flags := 0\<rparr>) m1)"

definition mount_owner :: "nat \<Rightarrow> nat \<Rightarrow> World \<Rightarrow> World option" where
  "mount_owner k i w =
     (let e = entity_at k w; r = w_ram w; slot = unat (en_slot e)
      in do { j \<leftarrow> player_index i w;
              let p = player_at j w;
              if en_type e = 0x35 \<and> r (0x14c8 + slot) = 8 \<and> r (0xc2 + slot) = 1 \<and> r 0x187a \<noteq> 0
              then if (en_owner e \<noteq> COOP_NO_PLAYER \<and> en_owner e \<noteq> p_id p) \<or>
                      (p_mount p \<noteq> COOP_NO_ENTITY \<and> p_mount p \<noteq> en_id e) then None
                   else Some (on_machine (on_player j (p_mount_update (\<lambda>_. en_id e)) \<circ>
                          upd_entity k (\<lambda>e. e\<lparr>en_owner := p_id p, en_flags := COOP_ENTITY_RIDDEN\<rparr>)) w)
              else if en_flags e = COOP_ENTITY_RIDDEN
              then Some (if r 0x71 = 0x0a then w else on_machine (dismount k) w)
              else Some w })"

definition restore_primary_mount :: "World \<Rightarrow> World option" where
  "restore_primary_mount w =
     do { i \<leftarrow> primary_actor w;
          let e = actor_mount i w;
          let a = actor_at i w;
          let w = bind_mount e w;
          Some (if e = None \<and> ac_stored_mount a \<noteq> 0
                then poke8 0x13c7 (ucast (ac_stored_mount_color a)) (poke8 0xdc1 1 w) else w) }"

text \<open>Older snapshots: the room from the pointer to its sprite data, and the single Yoshi of the game.\<close>

definition room_entrance :: "mem \<Rightarrow> nat" where
  "room_entrance r =
     (let trans = unat (r 0x13bf); submap = r (0x1f11 + unat (r 0xdd6) div 4)
      in (if trans \<ge> 0x25 then trans - 0x24 else trans) + (if submap \<noteq> 0 then 256 else 0))"

fun match_levels :: "mem \<Rightarrow> mem \<Rightarrow> nat list \<Rightarrow> nat \<times> nat \<Rightarrow> nat \<times> nat" where
  "match_levels rom r [] found = found"
| "match_levels rom r (level # levels) (match, matches) =
     (if r 0xd0 \<noteq> 7 \<or> rd16 rom (0x2ec00 + level * 2) \<noteq> rd16 r 0xce then match_levels rom r levels (match, matches)
      else if r 0x141a = 0 \<and> level = room_entrance r then (level, 1)
      else match_levels rom r levels (level, matches + 1))"

definition adopt_level :: "Env \<Rightarrow> World \<Rightarrow> World" where
  "adopt_level env w =
     (if m_level (w_machine w) \<noteq> 0xFFFFFFFF then w
      else let (match, matches) = match_levels (sv_rom env) (w_ram w) [0..<512] (UINT32_MAX, 0)
           in if matches = 1 then on_machine (m_level_update (\<lambda>_. of_nat match)) w else w)"

definition adopt_mount :: "Env \<Rightarrow> nat \<Rightarrow> nat \<Rightarrow> World \<Rightarrow> World option" where
  "adopt_mount env legacy slot w =
     (if w_ram w (0x14c8 + slot) = 0 \<or> w_ram w (0x9e + slot) \<noteq> 0x35 then Some w
      else
        do { (k, w) \<leftarrow> normal_entity env slot False w;
             let w = (if en_mount_valid (entity_at k w) then w
                      else if legacy = slot + 1 then capture_mount k w
                      else on_machine (upd_entity k (\<lambda>e. e\<lparr>en_mount := replicate COOP_MOUNT_BYTES 0, en_mount_valid := True\<rparr>)) w);
             if w_ram w (0xc2 + slot) \<noteq> 1 \<or> en_owner (entity_at k w) \<noteq> COOP_NO_PLAYER then Some w
             else
               (case filter (\<lambda>i. peeked i 0x187a w \<noteq> 0) (actor_indices w) of
                  [] \<Rightarrow> Some w
                | [i] \<Rightarrow>
                    do { j \<leftarrow> player_index i w;
                         let w = on_machine (upd_entity k (\<lambda>e. e\<lparr>en_owner := ac_player (actor_at i w), en_flags := COOP_ENTITY_RIDDEN\<rparr>)) w;
                         Some (on_machine (on_player j (p_mount_update (\<lambda>_. en_id (entity_at k w)))) w) }
                | _ \<Rightarrow> None) })"

definition adopt_mounts :: "Env \<Rightarrow> World \<Rightarrow> World option" where
  "adopt_mounts env w =
     (if m_mounts_initialized (w_machine w) then Some w
      else
        do { let w = adopt_level env w;
             let legacy = unat (if w_ram w 0x18e2 \<noteq> 0 then w_ram w 0x18e2 else w_ram w 0x18df);
             w \<leftarrow> each_do (adopt_mount env legacy) [0..<12] w;
             restore_primary_mount (on_machine (m_mounts_initialized_update (\<lambda>_. True)) w) })"

definition mount_count :: "mem \<Rightarrow> nat \<Rightarrow> nat" where
  "mount_count r excluded =
     length (filter (\<lambda>slot. slot \<noteq> excluded \<and> r (0x14c8 + slot) \<noteq> 0 \<and>
        (r (0x9e + slot) = 0x35 \<or> r (0x9e + slot) = 0x2d \<or>
         (r (0x9e + slot) = 0x2c \<and> (r (0x151c + slot) = 0x35 \<or> r (0x151c + slot) = 0x2d)))) [0..<12])"

section \<open>Carried objects\<close>

definition let_go :: "u32 \<Rightarrow> CoopPlayer \<Rightarrow> CoopPlayer" where
  "let_go i p = (if p_held_object p = i then p\<lparr>p_held_object := COOP_NO_ENTITY\<rparr> else p)"

definition release_owner :: "nat \<Rightarrow> CoopMachine \<Rightarrow> CoopMachine" where
  "release_owner k m =
     (let e = m_entities m ! k;
          m1 = (case coop_player (m_session m) (en_owner e) of None \<Rightarrow> m | Some j \<Rightarrow> on_player j (let_go (en_id e)) m)
      in upd_entity k (\<lambda>e. e\<lparr>en_owner := COOP_NO_PLAYER, en_flags := 0\<rparr>) m1)"

definition claim_carried :: "nat \<Rightarrow> nat \<Rightarrow> World \<Rightarrow> World option" where
  "claim_carried k i w =
     (let e = entity_at k w
      in if en_owner e \<noteq> COOP_NO_PLAYER \<and> en_owner e \<noteq> ac_player (actor_at i w) then None
         else
           do { j \<leftarrow> player_index i w;
                let p = player_at j w;
                if en_type e = 0x7d
                then Some (on_machine (upd_entity k (\<lambda>e. e\<lparr>en_owner := p_id p, en_flags := COOP_ENTITY_ATTACHED\<rparr>)) w)
                else if p_held_object p \<noteq> COOP_NO_ENTITY \<and> p_held_object p \<noteq> en_id e then None
                else Some (on_machine (on_player j (p_held_object_update (\<lambda>_. en_id e)) \<circ>
                       upd_entity k (\<lambda>e. e\<lparr>en_owner := p_id p, en_flags := COOP_ENTITY_HELD\<rparr>)) w) })"

text \<open>The loop steps back over an entity that it forgets, since another one takes its place.\<close>

lemma forget_shrinks:
  assumes "i < length (m_entities m)"
  shows "length (m_entities (coop_machine_forget_entity (en_id (m_entities m ! i)) m)) < length (m_entities m)"
proof -
  obtain k where "coop_machine_entity m (en_id (m_entities m ! i)) = Some k"
    using assms by (cases "coop_machine_entity m (en_id (m_entities m ! i))")
      (auto simp: coop_machine_entity_def find_index_None)
  with assms show ?thesis by (auto simp: coop_machine_forget_entity_def swap_remove_def)
qed

lemma release_owner_length [simp]: "length (m_entities (release_owner k m)) = length (m_entities m)"
  by (simp add: release_owner_def Let_def upd_entity_def on_player_def on_session_def split: option.split)

function retire_from :: "mem \<Rightarrow> nat \<Rightarrow> CoopMachine \<Rightarrow> CoopMachine" where
  "retire_from r i m =
     (if i \<ge> length (m_entities m) then m
      else
        let e = m_entities m ! i; status = r (0x14c8 + unat (en_slot e))
        in if en_kind e \<noteq> COOP_ENTITY_NORMAL then retire_from r (i + 1) m
           else if status = 0 then retire_from r i (coop_machine_forget_entity (en_id e) m)
           else if status \<noteq> 0x0b \<and> en_flags e AND (COOP_ENTITY_HELD OR COOP_ENTITY_ATTACHED) \<noteq> 0
           then retire_from r (i + 1) (release_owner i m)
           else retire_from r (i + 1) m)"
  by pat_completeness auto
termination
proof (relation "measure (\<lambda>(r, i, m). length (m_entities m) - i)", goal_cases)
  case (3 r i m e status)
  then show ?case using forget_shrinks [of i m] by (auto simp: not_le)
qed auto

declare retire_from.simps [simp del]

definition retire_released_objects :: "World \<Rightarrow> World" where
  "retire_released_objects w = on_machine (retire_from (w_ram w) 0) w"

section \<open>Placed eggs\<close>

definition placed_source_for :: "CoopMachine \<Rightarrow> u32 \<Rightarrow> nat option" where
  "placed_source_for m egg = find_index (\<lambda>s. pe_egg s = egg) (m_placed_eggs m)"

definition upd_egg :: "nat \<Rightarrow> (CoopPlacedEgg \<Rightarrow> CoopPlacedEgg) \<Rightarrow> CoopMachine \<Rightarrow> CoopMachine" where
  "upd_egg n f m = m\<lparr>m_placed_eggs := upd_at n f (m_placed_eggs m)\<rparr>"

definition adopt_placed_egg :: "Env \<Rightarrow> nat \<Rightarrow> World \<Rightarrow> (bool \<times> World) option" where
  "adopt_placed_egg env k w =
     (let e = entity_at k w; m = w_machine w; r = w_ram w; slot = unat (en_slot e)
      in if en_type e \<noteq> 0x2c \<or> placed_source_for m (en_id e) \<noteq> None then Some (True, w)
         else if r (0x14c8 + slot) \<noteq> 1 \<and> r (0x187b + slot) = 0 then Some (True, w)
         else if m_level m \<ge> 512 then None
         else
           (case coop_placed_egg (sv_alloc env) (m_level m) (of_nat (slot_x r slot)) (of_nat (slot_y r slot))
                   (ucast (r (0x161a + slot))) m of
              (None, m) \<Rightarrow> None
            | (Some n, m) \<Rightarrow>
                let s = m_placed_eggs m ! n
                in if pe_egg s \<noteq> 0 \<or> unat (pe_uses s) \<ge> length (m_actors m)
                   then Some (False, on_machine (coop_machine_forget_entity (en_id e)) (poke8 (0x14c8 + slot) 0 (w\<lparr>w_machine := m\<rparr>)))
                   else Some (True, w\<lparr>w_machine := upd_egg n (pe_egg_update (\<lambda>_. en_id e)) m\<rparr>)))"

text \<open>The free sprite slot with the highest number.\<close>

definition free_slot :: "mem \<Rightarrow> nat option" where
  "free_slot r = find (\<lambda>slot. r (0x14c8 + slot) = 0) (rev [0..<12])"

definition place_egg :: "nat \<Rightarrow> CoopPlacedEgg \<Rightarrow> World \<Rightarrow> World" where
  "place_egg slot s =
     poke8 (0x161a + slot) 0xff \<circ> poke8 (0x14d4 + slot) (ucast (drop_bit 8 (pe_y s))) \<circ> poke8 (0xd8 + slot) (ucast (pe_y s)) \<circ>
     poke8 (0x14e0 + slot) (ucast (drop_bit 8 (pe_x s))) \<circ> poke8 (0xe4 + slot) (ucast (pe_x s)) \<circ>
     poke8 (0x14c8 + slot) 1 \<circ> poke8 (0x9e + slot) 0x2c"

definition replenish_egg :: "Env \<Rightarrow> CpuState \<Rightarrow> u8 list \<Rightarrow> nat \<Rightarrow> World \<Rightarrow> (bool \<times> World) option" where
  "replenish_egg env caller scratch n w =
     (let m = w_machine w; s = m_placed_eggs m ! n
      in if pe_level s \<noteq> m_level m \<or> pe_egg s \<noteq> 0 \<or> unat (pe_uses s) \<ge> length (m_actors m) then Some (True, w)
         else case free_slot (w_ram w) of
                None \<Rightarrow> Some (False, w)
              | Some slot \<Rightarrow>
                  do { let w = on_regs (cpu_X_update (\<lambda>_. of_nat slot)) (place_egg slot s w);
                       w \<leftarrow> guest_call env (sv_push_jsl env) (cpu_S caller) 0x07f722 w;
                       (k, w) \<leftarrow> normal_entity env slot False w;
                       let w = on_machine (upd_egg n (pe_egg_update (\<lambda>_. en_id (entity_at k w)))) w;
                       Some (True, put_scratch scratch (on_regs (restore_registers caller) w)) })"

text \<open>The routine that is called initialises a sprite's tables and records no placed egg, so the array
keeps its length during the loop.\<close>

definition replenish_placed_eggs :: "Env \<Rightarrow> World \<Rightarrow> World option" where
  "replenish_placed_eggs env w =
     (let s = m_session (w_machine w)
      in if \<not> advancing s \<or> w_ram w 0x9d \<noteq> 0 \<or> outcome s \<noteq> COOP_CONTINUE then Some w
         else each_while (replenish_egg env (w_cpu w) (guest_scratch w)) [0..<length (m_placed_eggs (w_machine w))] w)"

section \<open>Fireballs\<close>

definition fireball_at :: "nat \<Rightarrow> nat \<Rightarrow> World \<Rightarrow> CoopFireball" where
  "fireball_at i j w = ac_fireballs (actor_at i w) ! j"

definition upd_fireball :: "nat \<Rightarrow> nat \<Rightarrow> (CoopFireball \<Rightarrow> CoopFireball) \<Rightarrow> World \<Rightarrow> World" where
  "upd_fireball i j f = on_machine (upd_actor i (ac_fireballs_update (upd_at j f)))"

definition capture_fireball :: "nat \<Rightarrow> nat \<Rightarrow> World \<Rightarrow> World" where
  "capture_fireball i j w = upd_fireball i j (coop_fireball_capture (w_ram w) (8 + j)) w"

definition bind_fireball :: "CoopFireball \<Rightarrow> nat \<Rightarrow> World \<Rightarrow> World" where
  "bind_fireball f j = on_ram (coop_fireball_bind f (8 + j))"

definition shared_fireball :: "nat \<Rightarrow> World \<Rightarrow> CoopFireball" where
  "shared_fireball j w = coop_fireball_capture (w_ram w) (8 + j) zero_fireball"

definition fireball_slots :: "nat list" where
  "fireball_slots = [0..<COOP_FIREBALL_SLOTS]"

definition adopt_fireball_banks :: "World \<Rightarrow> World" where
  "adopt_fireball_banks w =
     (if m_fireballs_initialized (w_machine w) then w
      else on_machine (m_fireballs_initialized_update (\<lambda>_. True))
        (foldl (\<lambda>w (i, j). if w_ram w (0x170b + 8 + j) = 0 then capture_fireball i j w else w) w
          (List.product (actor_indices w) fireball_slots)))"

text \<open>The actor's shots go where no shot of nobody is.\<close>

definition lend_slot :: "nat \<Rightarrow> World \<times> CoopFireball list \<Rightarrow> nat \<Rightarrow> World \<times> CoopFireball list" where
  "lend_slot i = (\<lambda>(w, shared) j. let f = shared_fireball j w
     in (if f_guest f ! 0 = 0 then bind_fireball (fireball_at i j w) j w else w, shared @ [f]))"

definition claim_shot :: "nat \<Rightarrow> bool list \<Rightarrow> CoopFireball list \<Rightarrow> nat \<Rightarrow> World \<Rightarrow> World option" where
  "claim_shot i idle shared j w =
     do { w \<leftarrow> (if f_guest (shared ! j) ! 0 \<noteq> 0 then Some w
                else
                  let w = capture_fireball i j w
                  in if idle ! j \<and> f_guest (fireball_at i j w) ! 0 \<noteq> 0
                     then if m_next_entity (w_machine w) = COOP_NO_ENTITY then None
                          else Some (on_machine (m_next_entity_update (\<lambda>n. n + 1))
                                 (upd_fireball i j (f_id_update (\<lambda>_. m_next_entity (w_machine w))) w))
                     else Some w);
          Some (bind_fireball (shared ! j) j w) }"

definition spawn_owned_fireball :: "Env \<Rightarrow> World \<Rightarrow> World option" where
  "spawn_owned_fireball env w =
     do { i \<leftarrow> current_actor w;
          let idle = map (\<lambda>j. f_guest (fireball_at i j w) ! 0 = 0) fireball_slots;
          let (w, shared) = foldl (lend_slot i) (w, []) fireball_slots;
          w \<leftarrow> guest_jsr env 0x00fea8 (on_guards (gd_fireball_spawn_update Suc) w);
          let w = on_guards (gd_fireball_spawn_update (\<lambda>n. n - 1)) w;
          each_do (claim_shot i idle shared) fireball_slots w }"

definition next_ordered_actor :: "u32 \<Rightarrow> CoopMachine \<Rightarrow> nat option" where
  "next_ordered_actor previous m =
     (let who = (\<lambda>i. ac_player (m_actors m ! i)); before = coop_player_precedes (m_session m)
      in foldl (\<lambda>best i.
           if previous \<noteq> COOP_NO_PLAYER \<and> \<not> before previous (who i) then best
           else case best of None \<Rightarrow> Some i | Some j \<Rightarrow> if before (who i) (who j) then Some i else best)
         None [0..<length (m_actors m)])"

text \<open>The actors in the order of precedence, each_do found after the one before it.\<close>

fun each_ordered :: "(nat \<Rightarrow> World \<Rightarrow> World option) \<Rightarrow> nat \<Rightarrow> u32 \<Rightarrow> World \<Rightarrow> World option" where
  "each_ordered f 0 previous w = Some w"
| "each_ordered f (Suc n) previous w =
     do { i \<leftarrow> next_ordered_actor previous (w_machine w);
          let previous = ac_player (actor_at i w);
          w \<leftarrow> f i w;
          each_ordered f n previous w }"

definition in_order :: "(nat \<Rightarrow> World \<Rightarrow> World option) \<Rightarrow> World \<Rightarrow> World option" where
  "in_order f w = each_ordered f (length (m_actors (w_machine w))) COOP_NO_PLAYER w"

definition boss_contact_of :: "Env \<Rightarrow> CpuState \<Rightarrow> u8 list \<Rightarrow> nat \<Rightarrow> nat \<Rightarrow> World \<Rightarrow> World option" where
  "boss_contact_of env caller scratch entry i w =
     do { let w = bind_actor (Some i) (bind_guest i w);
          let w = on_regs (restore_registers caller) (put_scratch scratch w);
          let w = foldl (\<lambda>w j. bind_fireball (fireball_at i j w) j w) w fireball_slots;
          w \<leftarrow> guest_jsr env entry w;
          capture i (foldl (\<lambda>w j. capture_fireball i j w) w fireball_slots) }"

definition boss_fireball_contacts :: "Env \<Rightarrow> nat \<Rightarrow> World \<Rightarrow> World option" where
  "boss_fireball_contacts env entry w =
     do { let caller = w_cpu w;
          let scratch = guest_scratch w;
          original \<leftarrow> current_actor w;
          w \<leftarrow> capture original w;
          let shared = map (\<lambda>j. shared_fireball j w) fireball_slots;
          let w = on_guards (\<lambda>g. g\<lparr>gd_boss_fireball := gd_boss_fireball g + 1, gd_owned_boss_bank := True\<rparr>) w;
          w \<leftarrow> in_order (boss_contact_of env caller scratch entry) w;
          let w = on_guards (gd_owned_boss_bank_update (\<lambda>_. False)) w;
          let w = foldl (\<lambda>w j. bind_fireball (shared ! j) j w) w fireball_slots;
          let w = bind_actor (Some original) (bind_guest original w);
          w \<leftarrow> guest_jsr env entry (on_regs (restore_registers caller) (put_scratch scratch w));
          Some (on_guards (gd_boss_fireball_update (\<lambda>n. n - 1)) w) }"

definition hide_sprites :: "World \<Rightarrow> World" where
  "hide_sprites = on_ram (\<lambda>r. foldl (\<lambda>r i. r(0x201 + i * 4 := 0xf0)) r [0..<128])"

text \<open>The sprite table and the bytes behind it.\<close>

definition guest_oam :: "World \<Rightarrow> u8 list" where
  "guest_oam w = map (w_ram w) [0x200..<0x4a0]"

definition put_oam :: "u8 list \<Rightarrow> World \<Rightarrow> World" where
  "put_oam bs = on_ram (poke 0x200 bs)"

definition run_fireball :: "Env \<Rightarrow> CpuState \<Rightarrow> u8 list \<Rightarrow> nat \<Rightarrow> nat \<Rightarrow> World \<Rightarrow> World option" where
  "run_fireball env caller scratch i j w =
     (let w = upd_fireball i j (f_pending_update (\<lambda>_. [])) w; f = fireball_at i j w
      in if f_guest f ! 0 = 0 then Some w
         else
           do { let shared = shared_fireball j w;
                let w = hide_sprites (put_scratch scratch (bind_fireball f j w));
                let w = on_regs (\<lambda>c. (restore_registers caller c)\<lparr>cpu_X := of_nat (8 + j)\<rparr>) w;
                w \<leftarrow> guest_jsr env 0x029b16 (poke8 0x15e9 (of_nat (8 + j)) w);
                let w = capture_fireball i j w;
                let f = fireball_at i j w;
                f \<leftarrow> SmwCoopCaptureFireball (w_ppu w) (sv_rom env) (w_ram w)
                       (int (unat (f_guest f ! 2)) + 256 * int (unat (f_guest f ! 4)))
                       (int (unat (f_guest f ! 1)) + 256 * int (unat (f_guest f ! 3))) f;
                Some (bind_fireball shared j (upd_fireball i j (\<lambda>_. f) w)) })"

definition run_fireballs_of :: "Env \<Rightarrow> CpuState \<Rightarrow> u8 list \<Rightarrow> nat \<Rightarrow> World \<Rightarrow> World option" where
  "run_fireballs_of env caller scratch i w =
     do { w \<leftarrow> each_do (run_fireball env caller scratch i) (rev fireball_slots) (bind_actor (Some i) (bind_guest i w));
          capture i w }"

definition run_owned_fireballs :: "Env \<Rightarrow> World \<Rightarrow> World option" where
  "run_owned_fireballs env w =
     do { let caller = w_cpu w;
          let scratch = guest_scratch w;
          let oam = guest_oam w;
          let sprite = w_ram w 0x15e9;
          let track = w_ram w 0x185e;
          let saved = w_bound w;
          first \<leftarrow> primary_actor w;
          w \<leftarrow> capture first w;
          w \<leftarrow> in_order (run_fireballs_of env caller scratch) w;
          let w = on_regs (restore_registers caller) (bind_actor saved w);
          let w = put_oam oam (put_scratch scratch w);
          Some (bind_guest first (poke8 0x185e track (poke8 0x15e9 sprite w))) }"

end
