(* ===== verification/Sim_Rooms.thy ===== *)
theory Sim_Rooms
  imports Sim_World
begin

unbundle bit_operations_syntax

text \<open>
  The simulation between frames and rooms: carrying objects and mounts through an entrance, the
  queries for goals and keyholes, the followers of a victory, the initialisation of a room, and the
  beginning of a frame.
\<close>

section \<open>Objects that are carried through an entrance\<close>

record Transport =
  tr_entity :: CoopEntity
  tr_x :: nat
  tr_y :: nat
  tr_palette :: u8

definition pick_up_carried :: "Transport list \<times> World \<Rightarrow> nat \<Rightarrow> (Transport list \<times> World) option" where
  "pick_up_carried = (\<lambda>(carried, w) slot.
     if w_ram w (0x14c8 + slot) \<noteq> 0x0b then Some (carried, w)
     else case normal_slot slot w of
            None \<Rightarrow> None
          | Some k \<Rightarrow>
              if en_owner (entity_at k w) = COOP_NO_PLAYER then None
              else Some (carried @ [\<lparr>tr_entity = entity_at k w, tr_x = slot_x (w_ram w) slot, tr_y = slot_y (w_ram w) slot,
                           tr_palette = w_ram w (0x15f6 + slot)\<rparr>], poke8 (0x14c8 + slot) 0 w))"

fun pick_up_all :: "nat list \<Rightarrow> Transport list \<times> World \<Rightarrow> (Transport list \<times> World) option" where
  "pick_up_all [] st = Some st"
| "pick_up_all (slot # slots) st = do { st \<leftarrow> pick_up_carried st slot; pick_up_all slots st }"

function forget_all :: "CoopMachine \<Rightarrow> CoopMachine" where
  "forget_all m =
     (if m_entities m = [] then m else forget_all (coop_machine_forget_entity (en_id (m_entities m ! 0)) m))"
  by pat_completeness auto
termination
proof (relation "measure (\<lambda>m. length (m_entities m))", goal_cases)
  case (2 m)
  then show ?case using forget_shrinks [of 0 m] by simp
qed simp

declare forget_all.simps [simp del]

definition put_position :: "nat \<Rightarrow> nat \<Rightarrow> nat \<Rightarrow> World \<Rightarrow> World" where
  "put_position slot x y =
     poke8 (0x14d4 + slot) (of_nat (y div 256)) \<circ> poke8 (0xd8 + slot) (of_nat y) \<circ>
     poke8 (0x14e0 + slot) (of_nat (x div 256)) \<circ> poke8 (0xe4 + slot) (of_nat x)"

definition put_down :: "Env \<Rightarrow> CpuState \<Rightarrow> Transport \<times> nat \<Rightarrow> World \<Rightarrow> World option" where
  "put_down env completed = (\<lambda>(t, slot) w.
     do { let e = tr_entity t;
          let w = poke8 (0x9e + slot) (ucast (en_type e)) (poke8 (0x14c8 + slot) 0x0b w);
          let w = put_position slot (tr_x t) (tr_y t) w;
          let w = on_regs (\<lambda>c. (restore_registers completed c)\<lparr>cpu_X := of_nat slot\<rparr>) w;
          w \<leftarrow> guest_call env (sv_push_jsl env) (cpu_S (w_cpu w)) 0x07f7d2 w;
          let w = poke8 (0x15f6 + slot) (tr_palette t) w;
          let w = on_machine (m_entities_update (\<lambda>es. es @ [e\<lparr>en_slot := of_nat slot\<rparr>])) w;
          if en_flags e = COOP_ENTITY_HELD
          then map_option (\<lambda>j. on_machine (on_player j (p_held_object_update (\<lambda>_. en_id e))) w)
                 (coop_player (m_session (w_machine w)) (en_owner e))
          else Some w })"

definition carry_through_room :: "Env \<Rightarrow> World \<Rightarrow> World option" where
  "carry_through_room env w =
     do { (carried, w) \<leftarrow> pick_up_all [0..<12] ([], w);
          w \<leftarrow> guest_jsr env 0x02abf2 (on_guards (gd_room_sprite_update Suc) w);
          let completed = w_cpu w;
          let scratch = guest_scratch w;
          w \<leftarrow> each_do (put_down env completed) (zip carried [0..<length carried]) (on_machine forget_all w);
          let w = on_guards (gd_room_sprite_update (\<lambda>n. n - 1)) w;
          Some (put_scratch scratch (on_regs (restore_registers completed) w)) }"

section \<open>Mounts that are ridden through an entrance\<close>

definition store_mount :: "nat \<Rightarrow> World \<Rightarrow> World option" where
  "store_mount i w =
     (case actor_mount i w of
        None \<Rightarrow> Some w
      | Some k \<Rightarrow>
          let e = entity_at k w
          in if ac_stored_mount (actor_at i w) \<noteq> 0 then None
             else Some (on_machine (coop_machine_forget_entity (en_id e) \<circ>
                    upd_actor i (\<lambda>a. a\<lparr>ac_stored_mount := en_id e,
                      ac_stored_mount_color := ucast (if en_mount_valid e then en_mount e ! 1 else w_ram w 0x13c7)\<rparr>)) w))"

definition adopt_campaign_mount :: "nat \<Rightarrow> World \<Rightarrow> World option" where
  "adopt_campaign_mount i w =
     (if ac_stored_mount (actor_at i w) = 0 \<and> w_ram w 0xdc1 \<noteq> 0
      then if m_next_entity (w_machine w) = COOP_NO_ENTITY then None
           else Some (on_machine (m_next_entity_update (\<lambda>n. n + 1) \<circ>
                  upd_actor i (\<lambda>a. a\<lparr>ac_stored_mount := m_next_entity (w_machine w),
                    ac_stored_mount_color := ucast (w_ram w 0x13c7)\<rparr>)) w)
      else Some w)"

definition spawn_stored_mount :: "Env \<Rightarrow> CpuState \<Rightarrow> u8 list \<Rightarrow> u16 \<Rightarrow> nat \<Rightarrow> World \<Rightarrow> World option" where
  "spawn_stored_mount env completed scratch stack i w =
     do { let a = actor_at i w;
          j \<leftarrow> player_index i w;
          let w = poke8 0x13c7 (ucast (ac_stored_mount_color a)) (poke8 0xdc1 1 w);
          let w = put_scratch scratch (on_regs (restore_registers completed) w);
          w \<leftarrow> guest_call env (sv_push_jsl env) stack 0x00fc7a (on_guards (gd_spawning_mount_update (\<lambda>_. True)) w);
          let w = on_guards (gd_spawning_mount_update (\<lambda>_. False)) w;
          let slot = (if w_ram w 0x18e2 \<noteq> 0 then unat (w_ram w 0x18e2) - 1 else 12);
          if slot \<ge> 12 \<or> w_ram w (0x9e + slot) \<noteq> 0x35 \<or> w_ram w (0x14c8 + slot) \<noteq> 8 then None
          else
            do { (k, w) \<leftarrow> normal_entity env slot True w;
                 let w = on_machine (upd_entity k (\<lambda>e. e\<lparr>en_id := ac_stored_mount a, en_owner := ac_player a,
                           en_flags := COOP_ENTITY_RIDDEN\<rparr>)) w;
                 let w = on_machine (on_player j (p_mount_update (\<lambda>_. ac_stored_mount a)) \<circ>
                           upd_actor i (\<lambda>a. a\<lparr>ac_stored_mount := 0, ac_stored_mount_color := 0\<rparr>)) w;
                 Some (capture_mount k w) } }"

text \<open>The equipment of a player at an entrance.\<close>

definition put_equipment :: "CoopPlayer \<Rightarrow> World \<Rightarrow> World" where
  "put_equipment p = poke8 0xdc2 (ucast (p_reserve p)) \<circ> poke8 0x19 (ucast (power_code (p_power p)))"

definition enter_actor :: "Env \<Rightarrow> CpuState \<Rightarrow> u8 list \<Rightarrow> u16 \<Rightarrow> u8 list \<Rightarrow> bool \<Rightarrow> nat \<Rightarrow> nat \<Rightarrow> World \<Rightarrow> World option" where
  "enter_actor env completed scratch stack entry allowed first i w =
     do { j \<leftarrow> player_index i w;
          let w = bind_mount None (bind_image entry w);
          let w = poke_all [0x188b, 0x187a] 0 w;
          let w = (if m_room_initialized (w_machine w) \<or> i \<noteq> first then put_equipment (player_at j w) w else w);
          let stored = ac_stored_mount (actor_at i w) \<noteq> 0;
          let w = (if w_ram w 0x71 = 0x0a then poke8 0x88 (if stored then 0x0f else 0) w else w);
          w \<leftarrow> (if stored \<and> allowed then spawn_stored_mount env completed scratch stack i w else Some w);
          w \<leftarrow> capture i w;
          Some (on_machine (upd_actor i (\<lambda>a. a\<lparr>ac_pending := [], ac_visible := []\<rparr>)) w) }"

definition load_room_sprites :: "Env \<Rightarrow> World \<Rightarrow> World option" where
  "load_room_sprites env w =
     do { w \<leftarrow> each_do store_mount (actor_indices w) w;
          first \<leftarrow> primary_actor w;
          w \<leftarrow> adopt_campaign_mount first w;
          let stack = cpu_S (w_cpu w);
          w \<leftarrow> guest_call env (sv_push_jsl env) stack 0x02a751 (on_guards (gd_room_load_update Suc) w);
          let completed = w_cpu w;
          let scratch = guest_scratch w;
          let entry = coop_guest_capture (w_ram w);
          let allowed = (w_ram w 0x1b9b = 0);
          w \<leftarrow> each_do (enter_actor env completed scratch stack entry allowed first) (actor_indices w) w;
          let w = on_machine (m_entrance_prepared_update (\<lambda>_. True)) w;
          let w = on_guards (gd_room_load_update (\<lambda>n. n - 1)) w;
          let w = put_scratch scratch (on_regs (restore_registers completed) w);
          restore_primary_mount (bind_guest first w) }"

section \<open>Goals\<close>

definition convert_carried_reward :: "Env \<Rightarrow> World \<Rightarrow> World option" where
  "convert_carried_reward env w =
     do { k \<leftarrow> normal_slot (unat (cpu_Y (w_cpu w)) mod 256) w;
          let e = entity_at k w;
          if en_owner e = COOP_NO_PLAYER \<or> en_flags e AND (COOP_ENTITY_HELD OR COOP_ENTITY_ATTACHED) = 0 then None
          else
            do { owner \<leftarrow> coop_machine_actor (w_machine w) (en_owner e);
                 original \<leftarrow> current_actor w;
                 let previous = w_bound w;
                 w \<leftarrow> capture original w;
                 let w = poke8 0x1490 0 (bind_actor (Some owner) (bind_guest owner w));
                 w \<leftarrow> guest_jsr env 0x00fb00 (on_guards (gd_carried_reward_update Suc) w);
                 let w = on_guards (gd_carried_reward_update (\<lambda>n. n - 1)) w;
                 w \<leftarrow> capture owner (poke_all [0x148f, 0x1470] 0 w);
                 Some (bind_guest original (bind_actor previous w)) } }"

definition report_event :: "Env \<Rightarrow> CoopEventKind \<Rightarrow> u32 \<Rightarrow> u32 \<Rightarrow> u32 \<Rightarrow> u32 \<Rightarrow> World \<Rightarrow> World option" where
  "report_event env kind player entity v flags w =
     (case coop_session_event (sv_alloc env) \<lparr>e_kind = kind, e_player = player, e_entity = entity, e_value = v,
             e_flags = flags, e_distance_squared = 0\<rparr> (m_session (w_machine w)) of
        (False, s) \<Rightarrow> None
      | (True, s) \<Rightarrow> Some (on_machine (on_session (\<lambda>_. s)) w))"

definition actor_life :: "nat \<Rightarrow> World \<Rightarrow> CoopLifeState option" where
  "actor_life i w = map_option (\<lambda>j. p_life (player_at j w)) (player_index i w)"

definition query_goal :: "Env \<Rightarrow> CpuState \<Rightarrow> u8 list \<Rightarrow> nat \<Rightarrow> nat \<Rightarrow> World \<Rightarrow> World option" where
  "query_goal env caller scratch query i w =
     do { life \<leftarrow> actor_life i w;
          if life \<noteq> COOP_PLAYING then Some w
          else
            let w = bind_actor (Some i) (bind_guest i w)
            in guest_jsr env query (put_scratch scratch (on_regs (restore_registers caller) w)) }"

definition collect_goal :: "Env \<Rightarrow> nat \<Rightarrow> World \<Rightarrow> World option" where
  "collect_goal env query w =
     (if \<not> advancing (m_session (w_machine w)) then Some w
      else
        do { original \<leftarrow> current_actor w;
             let previous = w_bound w;
             w \<leftarrow> capture original w;
             let caller = w_cpu w;
             let scratch = guest_scratch w;
             let w = on_guards (gd_goal_query_update (\<lambda>_. True)) w;
             w \<leftarrow> each_do (query_goal env caller scratch query) (actor_indices w) w;
             let w = bind_actor previous (on_guards (gd_goal_query_update (\<lambda>_. False)) w);
             Some (bind_guest original (put_scratch scratch (on_regs (restore_registers caller) w))) })"

text \<open>The highest tape reward counts, ties by precedence.\<close>

definition better_goal :: "World \<Rightarrow> u32 \<Rightarrow> u8 \<Rightarrow> bool" where
  "better_goal w player stars \<longleftrightarrow> \<not> w_goal_contact w \<or> stars > w_goal_stars w \<or>
     (stars = w_goal_stars w \<and> coop_player_precedes (m_session (w_machine w)) player (w_goal_actor w))"

definition record_goal :: "Env \<Rightarrow> World \<Rightarrow> World option" where
  "record_goal env w =
     (let slot = unat (cpu_X (w_cpu w)) mod 256; caller = w_cpu w; scratch = guest_scratch w
      in if slot \<ge> 12 \<or> w_ram w (0x167a + slot) AND 0x80 = 0 then None
         else
           do { w \<leftarrow> guest_jsr env 0x01a7e4 w;
                i \<leftarrow> w_bound w;
                let player = ac_player (actor_at i w);
                let height = w_ram w (0x1528 + slot) - w_ram w (0xd8 + slot);
                let touched = cpu_flag_C (w_cpu w);
                let stars = (if touched then sv_rom env (0x3f1aa + unat height div 4) else 0);
                let w = (if touched \<and> better_goal w player stars
                         then w\<lparr>w_goal_contact := True, w_goal_height := height, w_goal_stars := stars,
                                w_goal_actor := player, w_goal_entity := of_nat slot\<rparr> else w);
                w \<leftarrow> report_event env COOP_EVENT_EXIT player (of_nat slot) (ucast stars)
                       (if w_ram w (0x187b + slot) AND 4 \<noteq> 0 then COOP_EVENT_SECRET else 0) w;
                Some (put_scratch scratch (on_regs (restore_registers caller) w)) })"

definition holds_key :: "World \<Rightarrow> CoopPlayer \<Rightarrow> nat option" where
  "holds_key w p =
     (case coop_machine_entity (w_machine w) (p_held_object p) of None \<Rightarrow> None
      | Some k \<Rightarrow>
          let e = entity_at k w
          in if en_kind e = COOP_ENTITY_NORMAL \<and> en_type e = 0x80 \<and> en_owner e = p_id p \<and>
                en_flags e = COOP_ENTITY_HELD \<and> w_ram w (0x14c8 + unat (en_slot e)) = 0x0b
             then Some (unat (en_slot e)) else None)"

definition rides :: "World \<Rightarrow> CoopPlayer \<Rightarrow> nat option \<Rightarrow> bool" where
  "rides w p mount \<longleftrightarrow>
     (case mount of None \<Rightarrow> False
      | Some k \<Rightarrow>
          let e = entity_at k w
          in en_type e = 0x35 \<and> en_owner e = p_id p \<and> en_flags e = COOP_ENTITY_RIDDEN \<and>
             w_ram w (0x14c8 + unat (en_slot e)) = 8)"

definition query_keyhole :: "Env \<Rightarrow> CpuState \<Rightarrow> u8 list \<Rightarrow> nat \<Rightarrow> World \<Rightarrow> World option" where
  "query_keyhole env caller scratch i w =
     do { j \<leftarrow> player_index i w;
          let p = player_at j w;
          let key = holds_key w p;
          let mount = actor_mount i w;
          if p_life p \<noteq> COOP_PLAYING \<or> (key = None \<and> \<not> rides w p mount) then Some w
          else
            let w = bind_actor (Some i) (bind_mount mount (bind_guest i w));
                w = put_scratch scratch (on_regs (restore_registers caller) w);
                w = on_regs (cpu_Y_update (\<lambda>_. case key of Some slot \<Rightarrow> of_nat slot | None \<Rightarrow> 0xff)) w
            in guest_jsr env 0x01e1db w }"

definition collect_keyhole :: "Env \<Rightarrow> World \<Rightarrow> World option" where
  "collect_keyhole env w =
     (if \<not> advancing (m_session (w_machine w)) \<or> w_ram w 0x1434 \<noteq> 0 then Some w
      else
        do { original \<leftarrow> current_actor w;
             let previous = w_bound w;
             w \<leftarrow> capture original w;
             let caller = w_cpu w;
             let scratch = guest_scratch w;
             let w = on_guards (gd_keyhole_query_update (\<lambda>_. True)) w;
             w \<leftarrow> each_do (query_keyhole env caller scratch) (actor_indices w) w;
             let w = bind_actor previous (on_guards (gd_keyhole_query_update (\<lambda>_. False)) w);
             let w = bind_guest original (put_scratch scratch (on_regs (restore_registers caller) w));
             Some (bind_mount (actor_mount original w) w) })"

text \<open>Where a follower of the victory goes on: 0 for the primary player, which runs the original scene.\<close>

definition follow_victory :: "Env \<Rightarrow> World \<Rightarrow> (nat \<times> World) option" where
  "follow_victory env w =
     do { first \<leftarrow> primary_actor w;
          if w_bound w = None \<or> w_bound w = Some first then Some (0, w)
          else
            do { let w = poke_all [0x18, 0x17, 0x16, 0x15, 0x13ed, 0x13de, 0x18c2] 0 w;
                 if w_ram w 0x1b99 \<noteq> 0 \<and> peeked first 0x1492 w \<noteq> 0 then Some (0x00ca31, w)
                 else if odd (unat (w_ram w 0x5b)) \<or> w_ram w 0x13c6 \<noteq> 0 \<or> w_ram w 0x13d2 \<noteq> 0 then Some (0x00c96a, w)
                 else if w_ram w 0x1b99 \<noteq> 0 then Some (0x00cd24, poke8 0x15 1 w)
                 else
                   do { let w = (if w_ram w 0x1493 \<ge> 0x28 then poke8 0x7b 5 (poke_all [0x15, 0x76] 1 w) else w);
                        w \<leftarrow> (if w_ram w 0x72 \<noteq> 0 then guest_jsr env 0x00d76b w else Some w);
                        Some (0x00cd24, w) } } }"

section \<open>The beginning of a room\<close>

definition clear_player :: "CoopPlayer \<Rightarrow> CoopPlayer" where
  "clear_player p = p\<lparr>p_life := COOP_PLAYING, p_recovery_ticks := 0, p_separation_ticks := 0, p_checkpoint_upgrade := False\<rparr>"

definition settle_outcome :: "CoopSession \<Rightarrow> CoopSession" where
  "settle_outcome s =
     (case outcome s of
        COOP_GAME_OVER \<Rightarrow> coop_session_restart (s\<lparr>players := map (p_reserve_update (\<lambda>_. 0)) (players s)\<rparr>)
      | COOP_RETRY \<Rightarrow> coop_session_restart s
      | COOP_CLEAR \<Rightarrow> s\<lparr>outcome := COOP_CONTINUE, camera := (camera s)\<lparr>c_initialized := False\<rparr>,
                        players := map clear_player (players s)\<rparr>
      | COOP_CONTINUE \<Rightarrow> s)"

definition enter_from_map :: "mem \<Rightarrow> CoopMachine \<Rightarrow> CoopMachine" where
  "enter_from_map r m =
     (if r 0x141a \<noteq> 0 then m
      else m\<lparr>m_sources := [], m_placed_eggs := [],
             m_session := (m_session m)\<lparr>checkpoint :=
               (if r (0x1ea2 + unat (r 0x13bf)) AND 0x40 \<noteq> 0 then ucast (r 0x13bf) + 1 else 0)\<rparr>\<rparr>)"

definition place_actor :: "u8 list \<Rightarrow> nat \<Rightarrow> World \<Rightarrow> World option" where
  "place_actor entry i w =
     do { j \<leftarrow> player_index i w;
          let m = w_machine w;
          let p = player_at j w;
          let secondary = (ac_player (actor_at i w) \<noteq> primary (m_session m));
          let w = bind_image (if m_entrance_prepared m then ac_guest (actor_at i w) else entry) w;
          let w = (if m_room_initialized m \<or> secondary then put_equipment p w else w);
          let w = (if secondary \<and> p_mount p = COOP_NO_ENTITY then poke_all [0x188b, 0x187a] 0 w else w);
          let w = poke_all [0x148f, 0x1470] (if p_held_object p \<noteq> COOP_NO_ENTITY then 1 else 0) w;
          w \<leftarrow> capture i w;
          Some (on_machine (upd_actor i (\<lambda>a. a\<lparr>ac_pending := [], ac_visible := [],
                  ac_fireballs := replicate COOP_FIREBALL_SLOTS zero_fireball\<rparr>)) w) }"

definition room_number :: "mem \<Rightarrow> u32" where
  "room_number r = ucast (r 0xce) OR push_bit 8 (ucast (r 0xcf)) OR push_bit 16 (ucast (r 0xd0))"

definition initialize_room :: "World \<Rightarrow> World option" where
  "initialize_room w =
     do { let w = on_machine (\<lambda>m. m\<lparr>m_focus_initialized := False, m_focus_hold := False, m_focus_count := 0\<rparr>) w;
          let w = retire_released_objects w;
          let w = on_machine (enter_from_map (w_ram w) \<circ> on_session settle_outcome) w;
          let entry = coop_guest_capture (w_ram w);
          w \<leftarrow> each_do (place_actor entry) (actor_indices w) w;
          let w = on_machine (\<lambda>m. m\<lparr>m_room := room_number (w_ram w), m_room_initialized := True, m_entrance_prepared := False\<rparr>) w;
          first \<leftarrow> primary_actor w;
          let w = bind_guest first w;
          Some (on_machine (\<lambda>m. m\<lparr>m_mounts_initialized := False, m_fireballs_initialized := True\<rparr>) w) }"

section \<open>The beginning of a frame\<close>

definition fresh_frame :: "World \<Rightarrow> World" where
  "fresh_frame w =
     on_guards (\<lambda>g. g\<lparr>gd_goal_query := False, gd_goal_commit := False, gd_keyhole_query := False,
       gd_frozen_bonus := False, gd_settling_bonus := False\<rparr>)
     (w\<lparr>w_damaged := replicate 12 0, w_level_frame := False, w_stage_started := False, w_room_request := COOP_NO_PLAYER,
        w_goal_contact := False, w_goal_height := 0, w_goal_stars := 0, w_frozen_score := 6,
        w_goal_actor := COOP_NO_PLAYER, w_goal_entity := COOP_NO_ENTITY, w_scene_request := COOP_NO_PLAYER\<rparr>)"

definition read_pad :: "Env \<Rightarrow> u32 \<times> World \<Rightarrow> nat \<Rightarrow> (u32 \<times> World) option" where
  "read_pad env = (\<lambda>(shared, w) i.
     do { j \<leftarrow> player_index i w;
          let w = on_machine (on_player j (coop_player_input (sv_pad env (unat (ac_input_seat (actor_at i w))))
                    (sv_face env OR sv_select env))) w;
          Some (shared OR p_pressed_input (player_at j w), w) })"

fun read_pads :: "Env \<Rightarrow> nat list \<Rightarrow> u32 \<times> World \<Rightarrow> (u32 \<times> World) option" where
  "read_pads env [] st = Some st"
| "read_pads env (i # is) st = do { st \<leftarrow> read_pad env st i; read_pads env is st }"

definition share_buttons :: "Env \<Rightarrow> u32 \<Rightarrow> World \<Rightarrow> World" where
  "share_buttons env shared w =
     (if w_ram w 0x1426 \<noteq> 0
      then let serial = sv_swap env (ucast (shared AND (sv_face env OR sv_start env OR sv_select env)))
           in on_ram (coop_guest_set_input serial serial) w
      else if shared AND sv_start env \<noteq> 0 then poke8 0x16 (w_ram w 0x16 OR 0x10) w
      else w)"

definition begin_frame :: "bool \<Rightarrow> World \<Rightarrow> World option" where
  "begin_frame advances w =
     (case coop_session_begin_frame advances (m_session (w_machine w)) of
        (False, s) \<Rightarrow> None
      | (True, s) \<Rightarrow> Some (on_machine (on_session (\<lambda>_. s)) w))"

definition SmwCoopSimulationBegin :: "Env \<Rightarrow> World \<Rightarrow> World option" where
  "SmwCoopSimulationBegin env w =
     (let w = fresh_frame w; mode = w_ram w 0x100
      in if \<not> sv_active env then Some w
         else if mode \<noteq> 0x14 then Some (on_machine (m_previous_mode_update (\<lambda>_. ucast mode)) w)
         else
           do { w \<leftarrow> (if \<not> m_room_initialized (w_machine w) \<or> m_previous_mode (w_machine w) \<noteq> 0x14
                      then initialize_room w else Some w);
                w \<leftarrow> adopt_mounts env w;
                let w = adopt_fireball_banks w;
                let w = (on_machine (m_previous_mode_update (\<lambda>_. ucast mode)) w)\<lparr>w_level_frame := True,
                          w_end_timer := w_ram w 0x1493,
                          w_timer_had_time := (w_ram w 0xf31 \<noteq> 0 \<or> w_ram w 0xf32 \<noteq> 0 \<or> w_ram w 0xf33 \<noteq> 0)\<rparr>;
                (shared, w) \<leftarrow> read_pads env (actor_indices w) (0, w);
                w \<leftarrow> begin_frame False (share_buttons env shared w);
                first \<leftarrow> primary_actor w;
                capture first w })"

section \<open>The stages of a frame\<close>

definition transforming :: "World \<Rightarrow> nat \<Rightarrow> bool" where
  "transforming w i \<longleftrightarrow> 1 \<le> peeked i 0x71 w \<and> peeked i 0x71 w \<le> 4 \<and> actor_life i w = Some COOP_PLAYING"

definition hold_transformations :: "World \<Rightarrow> World" where
  "hold_transformations w =
     (if list_ex (transforming w) (actor_indices w) \<and> w_ram w 0x9d = 0 then poke8 0x9d 1 w else w)"

definition begin_gameplay_stage :: "World \<Rightarrow> World option" where
  "begin_gameplay_stage w =
     (if w_stage_started w then Some w
      else
        let w = hold_transformations (w\<lparr>w_stage_started := True\<rparr>);
            scene = \<not> list_ex (\<lambda>i. actor_life i w = Some COOP_PLAYING \<and> peeked i 0x71 w < 5) (actor_indices w)
        in begin_frame (\<not> scene \<and> w_ram w 0x1426 = 0 \<and> w_ram w 0x9d = 0 \<and> w_ram w 0x13fb = 0) w)"

definition party_pause :: "World \<Rightarrow> World" where
  "party_pause w =
     (if w_ram w 0x16 AND 0x10 = 0 \<or> w_ram w 0x1493 \<noteq> 0 \<or> w_ram w 0x1434 \<noteq> 0 \<or>
         outcome (m_session (w_machine w)) \<noteq> COOP_CONTINUE then w
      else if \<not> list_ex (\<lambda>i. actor_life i w = Some COOP_PLAYING \<and> peeked i 0x71 w < 9) (actor_indices w) then w
      else let w = poke8 0x13d4 (w_ram w 0x13d4 XOR 1) (poke8 0x13d3 0x3c w)
           in poke8 0x1df9 (if w_ram w 0x13d4 \<noteq> 0 then 0x11 else 0x12) w)"

definition tick_byte :: "nat \<Rightarrow> mem \<Rightarrow> mem" where
  "tick_byte a r = (if r a \<noteq> 0 then r(a := r a - 1) else r)"

definition tick_secondary_timers :: "mem \<Rightarrow> mem" where
  "tick_secondary_timers r =
     (if r 0x9d \<noteq> 0 then r
      else
        let r = foldl (\<lambda>r a. if a = 0x1496 \<and> r 0x71 = 9 then r else tick_byte a r) r [0x1496..<0x14a3];
            r = foldl (\<lambda>r a. tick_byte a r) r [0x14a4..<0x14a7]
        in if r 0x14 AND 3 = 0 then tick_byte 0x14aa (tick_byte 0x14a9 r) else r)"

end
