(* ===== verification/Sim_Players.thy ===== *)
theory Sim_Players
  imports Sim_Rooms
begin

unbundle bit_operations_syntax

text \<open>
  The simulation's work for every player of a frame: the mouths of the mounts, the drawing of mounts
  and of the other players, and the player routine that runs once for each player in play.
\<close>

section \<open>Mounts and their mouths\<close>

definition target_step :: "World \<Rightarrow> int \<Rightarrow> int \<Rightarrow> nat option \<times> int \<Rightarrow> nat \<Rightarrow> nat option \<times> int" where
  "target_step w x y = (\<lambda>(best, distance) i.
     case player_index i w of None \<Rightarrow> (best, distance)
     | Some j \<Rightarrow>
         let p = player_at j w; dx = sint (p_x p) - x; dy = sint (p_y p) - y; d = dx * dx + dy * dy
         in if p_life p \<noteq> COOP_PLAYING \<or> p_mount p \<noteq> COOP_NO_ENTITY then (best, distance)
            else if d < distance \<or> (d = distance \<and> (case best of None \<Rightarrow> True
                   | Some b \<Rightarrow> coop_player_precedes (m_session (w_machine w)) (ac_player (actor_at i w)) (ac_player (actor_at b w))))
            then (Some i, d) else (best, distance))"

definition mount_target :: "nat \<Rightarrow> World \<Rightarrow> nat option" where
  "mount_target k w =
     (let e = entity_at k w; slot = unat (en_slot e)
      in if en_owner e \<noteq> COOP_NO_PLAYER then coop_machine_actor (w_machine w) (en_owner e)
         else case fst (foldl (target_step w (int (slot_x (w_ram w) slot)) (int (slot_y (w_ram w) slot)))
                     (None, 2 ^ 63 - 1) (actor_indices w)) of
                Some i \<Rightarrow> Some i | None \<Rightarrow> primary_actor w)"

definition mouth_candidate_available :: "Env \<Rightarrow> nat \<Rightarrow> nat \<Rightarrow> World \<Rightarrow> (bool \<times> World) option" where
  "mouth_candidate_available env mouth slot w =
     do { (k, w) \<leftarrow> normal_entity env mouth False w;
          let rider = en_owner (entity_at k w);
          (n, w) \<leftarrow> normal_entity env slot False w;
          let object = entity_at n w;
          Some (\<not> (en_type object = 0x2c \<or> en_type object = 0x2d \<or> en_type object = 0x35) \<and>
                \<not> (en_flags object AND (COOP_ENTITY_HELD OR COOP_ENTITY_ATTACHED) \<noteq> 0 \<and> en_owner object \<noteq> rider) \<and>
                \<not> list_ex (\<lambda>other. other \<noteq> mouth \<and> coop_mount_mouth_active (w_ram w) other \<and>
                       unat (w_ram w (0x160e + other)) = slot) [0..<12], w) }"

definition berry_reserved :: "World \<Rightarrow> nat \<Rightarrow> nat \<Rightarrow> nat \<Rightarrow> bool" where
  "berry_reserved w mouth x y =
     list_ex (\<lambda>e. unat (en_slot e) \<noteq> mouth \<and>
        coop_mount_pending_berry e (w_ram w) = Some (x div 16 * 16, y div 16 * 16)) (m_entities (w_machine w))"

text \<open>The capacity of an array of candidates doubles from \<open>start\<close>.\<close>

definition contact_capacity :: "allocator \<Rightarrow> nat \<Rightarrow> nat \<Rightarrow> nat \<Rightarrow> nat \<Rightarrow> nat option" where
  "contact_capacity alloc bytes start used capacity =
     (if used \<noteq> capacity then Some capacity
      else let n = (if capacity \<noteq> 0 then capacity * 2 mod 2 ^ 64 else start)
           in if n < capacity \<or> n > SIZE_MAX div bytes \<or> \<not> alloc (n * bytes) then None else Some n)"

definition squared :: "int \<Rightarrow> int \<Rightarrow> CoopPlayer \<Rightarrow> u64" where
  "squared x y p = (let dx = sint (p_x p) - x; dy = sint (p_y p) - y in word_of_int (dx * dx + dy * dy))"

definition record_body_berry :: "Env \<Rightarrow> World \<Rightarrow> World option" where
  "record_body_berry env w =
     (let slot = unat (cpu_X (w_cpu w)) mod 256; x = rd16 (w_ram w) 0x18b0; y = rd16 (w_ram w) 0x18b2
      in if slot \<ge> 12 \<or> w_bound w = None \<or> w_ram w (0x9e + slot) \<noteq> 0x35 then None
         else if berry_reserved w slot x y then Some w
         else
           do { capacity \<leftarrow> contact_capacity (sv_alloc env) (sv_berry_bytes env) 8 (length (w_berries w)) (w_berry_capacity w);
                (k, w) \<leftarrow> normal_entity env slot False w;
                i \<leftarrow> w_bound w;
                j \<leftarrow> player_index i w;
                Some (w\<lparr>w_berry_capacity := capacity,
                  w_berries := w_berries w @ [\<lparr>bc_mount = en_id (entity_at k w), bc_actor = ac_player (actor_at i w),
                    bc_tile = rd16 (w_ram w) 5, bc_x = x, bc_y = y,
                    bc_distance = squared (int (x div 16 * 16) + 8) (int (y div 16 * 16) + 8) (player_at j w),
                    bc_cpu = w_cpu w, bc_scratch = guest_scratch w\<rparr>]\<rparr>) })"

text \<open>The nearer candidate for a berry, ties by precedence and then by identity.\<close>

definition berry_before :: "CoopSession \<Rightarrow> BerryContact \<Rightarrow> BerryContact \<Rightarrow> bool" where
  "berry_before s b c \<longleftrightarrow> bc_distance b < bc_distance c \<or>
     (bc_distance b = bc_distance c \<and>
        (coop_player_precedes s (bc_actor b) (bc_actor c) \<or> (bc_actor b = bc_actor c \<and> bc_mount b < bc_mount c)))"

definition berry_winner :: "CoopSession \<Rightarrow> BerryContact list \<Rightarrow> nat \<Rightarrow> nat" where
  "berry_winner s cs i =
     foldl (\<lambda>best j. if bc_tile (cs ! j) = bc_tile (cs ! i) \<and> berry_before s (cs ! j) (cs ! best) then j else best)
       i [0..<length cs]"

definition berry_possible :: "World \<Rightarrow> BerryContact \<Rightarrow> CoopEntity \<Rightarrow> bool" where
  "berry_possible w c mount \<longleftrightarrow>
     (let r = w_ram w; slot = unat (en_slot mount)
      in en_type mount = 0x35 \<and> r (0x14c8 + slot) = 8 \<and> r (0x1564 + slot) = 0 \<and> r (0x160e + slot) \<ge> 0x80 \<and>
         \<not> berry_reserved w slot (bc_x c) (bc_y c) \<and>
         bc_tile c \<ge> 0xc800 \<and> bc_tile c \<le> 0xffff \<and> r (bc_tile c + 0x10000) = 0 \<and>
         r (bc_tile c) = ucast (cpu_A (bc_cpu c)))"

definition resolve_berry :: "Env \<Rightarrow> CpuState \<Rightarrow> nat \<Rightarrow> World \<Rightarrow> World option" where
  "resolve_berry env caller n w =
     (let c = w_berries w ! n
      in if berry_winner (m_session (w_machine w)) (w_berries w) n \<noteq> n then Some w
         else case coop_machine_entity (w_machine w) (bc_mount c) of
                None \<Rightarrow> Some w
              | Some k \<Rightarrow>
                  let mount = entity_at k w
                  in if \<not> berry_possible w c mount then Some w
                     else
                       do { i \<leftarrow> coop_machine_actor (w_machine w) (bc_actor c);
                            let w = bind_actor (Some i) (bind_mount (Some k) (bind_guest i w));
                            let w = put_scratch (bc_scratch c) w;
                            let w = on_regs (\<lambda>cpu. (restore_registers (bc_cpu c) cpu)\<lparr>cpu_S := cpu_S caller\<rparr>) w;
                            let w = poke8 0x15e9 (ucast (en_slot mount)) w;
                            let w = on_ram (put16 0x18b2 (int (bc_y c)) \<circ> put16 0x18b0 (int (bc_x c))) w;
                            w \<leftarrow> guest_jsr env 0x02d1ca w;
                            capture i (capture_mount k w) })"

definition resolve_body_berries :: "Env \<Rightarrow> CpuState \<Rightarrow> World \<Rightarrow> World option" where
  "resolve_body_berries env caller w =
     do { let sprite = w_ram w 0x15e9;
          w \<leftarrow> each_do (resolve_berry env caller) [0..<length (w_berries w)] w;
          Some (poke8 0x15e9 sprite w) }"

definition record_mouth_contact :: "Env \<Rightarrow> World \<Rightarrow> World option" where
  "record_mouth_contact env w =
     (let mouth = unat (cpu_X (w_cpu w)) mod 256; slot = unat (cpu_Y (w_cpu w)) mod 256
      in if mouth \<ge> 12 \<or> slot \<ge> 12 \<or> w_bound w = None then None
         else
           do { (k, w) \<leftarrow> normal_entity env mouth False w;
                let mount = en_id (entity_at k w);
                (n, w) \<leftarrow> normal_entity env slot False w;
                let object = en_id (entity_at n w);
                if list_ex (\<lambda>c. mc_mount c = mount \<and> mc_object c = object) (w_mouths w) then Some w
                else
                  do { capacity \<leftarrow> contact_capacity (sv_alloc env) (sv_mouth_bytes env) 16 (length (w_mouths w)) (w_mouth_capacity w);
                       i \<leftarrow> w_bound w;
                       j \<leftarrow> player_index i w;
                       let r = w_ram w;
                       let x = int (joined r 4 10 + unat (r 6) div 2);
                       let y = int (joined r 5 11 + unat (r 7) div 2);
                       Some (w\<lparr>w_mouth_capacity := capacity,
                         w_mouths := w_mouths w @ [\<lparr>mc_mount = mount, mc_object = object, mc_actor = ac_player (actor_at i w),
                           mc_distance = squared x y (player_at j w), mc_cpu = w_cpu w, mc_scratch = guest_scratch w\<rparr>]\<rparr>) } })"

definition mouth_before :: "CoopSession \<Rightarrow> MouthContact \<Rightarrow> MouthContact \<Rightarrow> bool" where
  "mouth_before s b c \<longleftrightarrow> mc_distance b < mc_distance c \<or>
     (mc_distance b = mc_distance c \<and>
        (coop_player_precedes s (mc_actor b) (mc_actor c) \<or> (mc_actor b = mc_actor c \<and> mc_mount b < mc_mount c)))"

text \<open>Whether a recorded contact still stands when the object in \<open>slot\<close> is given away.\<close>

definition mouth_possible :: "Env \<Rightarrow> nat \<Rightarrow> MouthContact \<Rightarrow> World \<Rightarrow> (bool \<times> World) option" where
  "mouth_possible env slot c w =
     (if unat (cpu_Y (mc_cpu c)) mod 256 \<noteq> slot then Some (False, w)
      else case (coop_machine_entity (w_machine w) (mc_mount c), coop_machine_entity (w_machine w) (mc_object c)) of
             (Some k, Some n) \<Rightarrow>
               let mount = entity_at k w; place = unat (en_slot mount); r = w_ram w
               in if unat (en_slot (entity_at n w)) \<noteq> slot \<or> en_type mount \<noteq> 0x35 \<or> r (0x14c8 + place) \<noteq> 8 \<or>
                     r (0x160e + place) < 0x80 \<or> r (0x14c8 + slot) < 8 then Some (False, w)
                  else mouth_candidate_available env place slot w
           | _ \<Rightarrow> Some (False, w))"

fun mouth_winner :: "Env \<Rightarrow> nat \<Rightarrow> MouthContact list \<Rightarrow> MouthContact option \<Rightarrow> World \<Rightarrow> (MouthContact option \<times> World) option" where
  "mouth_winner env slot [] winner w = Some (winner, w)"
| "mouth_winner env slot (c # cs) winner w =
     do { (possible, w) \<leftarrow> mouth_possible env slot c w;
          mouth_winner env slot cs
            (if possible \<and> (case winner of None \<Rightarrow> True | Some b \<Rightarrow> mouth_before (m_session (w_machine w)) c b)
             then Some c else winner) w }"

definition resolve_mouth :: "Env \<Rightarrow> CpuState \<Rightarrow> nat \<Rightarrow> World \<Rightarrow> World option" where
  "resolve_mouth env caller slot w =
     do { (winner, w) \<leftarrow> mouth_winner env slot (w_mouths w) None w;
          (case winner of
             None \<Rightarrow> Some w
           | Some c \<Rightarrow>
               do { i \<leftarrow> coop_machine_actor (w_machine w) (mc_actor c);
                    k \<leftarrow> coop_machine_entity (w_machine w) (mc_mount c);
                    let mount = entity_at k w;
                    let unrelated = (en_owner mount = COOP_NO_PLAYER \<and> actor_mount i w \<noteq> None);
                    let w = bind_actor (Some i) (bind_mount (Some k) (bind_guest i w));
                    let w = (if unrelated then poke_all [0x72, 0x187a] 0 w else w);
                    let w = put_scratch (mc_scratch c) w;
                    let w = on_regs (\<lambda>cpu. (restore_registers (mc_cpu c) cpu)\<lparr>cpu_S := cpu_S caller\<rparr>) w;
                    w \<leftarrow> guest_jsr env 0x01f59b (poke8 0x15e9 (ucast (en_slot mount)) w);
                    k \<leftarrow> coop_machine_entity (w_machine w) (mc_mount c);
                    let w = capture_mount k w;
                    if unrelated then Some w else capture i w }) }"

definition resolve_mouth_contacts :: "Env \<Rightarrow> CpuState \<Rightarrow> World \<Rightarrow> World option" where
  "resolve_mouth_contacts env caller w =
     do { let sprite = w_ram w 0x15e9;
          let track = w_ram w 0x185e;
          w \<leftarrow> each_do (resolve_mouth env caller) (rev [0..<12]) w;
          Some (poke8 0x185e track (poke8 0x15e9 sprite w)) }"

section \<open>Drawing\<close>

definition put_input :: "Env \<Rightarrow> CoopPlayer \<Rightarrow> World \<Rightarrow> World" where
  "put_input env p =
     on_ram (coop_guest_set_input (sv_swap env (ucast (p_held_input p))) (sv_swap env (ucast (p_pressed_input p))))"

definition draw_mount :: "Env \<Rightarrow> CpuState \<Rightarrow> u8 list \<Rightarrow> nat \<Rightarrow> World \<Rightarrow> World option" where
  "draw_mount env caller scratch slot w =
     (case normal_slot slot w of
        None \<Rightarrow> Some w
      | Some k \<Rightarrow>
          if en_type (entity_at k w) \<noteq> 0x35 \<or> w_ram w (0x14c8 + slot) = 0 then Some w
          else
            do { let w = on_machine (upd_entity k (en_pending_update (\<lambda>_. []))) w;
                 i \<leftarrow> mount_target k w;
                 j \<leftarrow> player_index i w;
                 let owner = en_owner (entity_at k w);
                 let p = player_at j w;
                 if owner \<noteq> COOP_NO_PLAYER \<and> p_life p \<noteq> COOP_PLAYING then Some w
                 else
                   do { let unrelated = (owner = COOP_NO_PLAYER \<and> p_mount p \<noteq> COOP_NO_ENTITY);
                        let w = put_input env p (bind_mount (Some k) (bind_guest i w));
                        let w = (if unrelated then poke_all [0x72, 0x187a] 0 w else w);
                        let w = hide_sprites (put_scratch scratch w);
                        let w = bind_actor (Some i) (on_regs (restore_registers caller) w);
                        w \<leftarrow> guest_call env (sv_push_jsl env) (cpu_S caller) 0x01ea70 w;
                        k \<leftarrow> normal_slot slot w;
                        let w = poke8 0xd84 10 w;
                        pieces \<leftarrow> SmwCoopCaptureMount (w_ppu w) (sv_rom env) (w_ram w)
                                    (int (slot_x (w_ram w) slot)) (int (slot_y (w_ram w) slot));
                        let w = capture_mount k (on_machine (upd_entity k (en_pending_update (\<lambda>_. pieces))) w);
                        if unrelated then Some w else do { w \<leftarrow> mount_owner k i w; capture i w } } })"

definition draw_mounts :: "Env \<Rightarrow> World \<Rightarrow> World option" where
  "draw_mounts env w =
     do { let caller = w_cpu w;
          let scratch = guest_scratch w;
          let oam = guest_oam w;
          first \<leftarrow> primary_actor w;
          w \<leftarrow> capture first w;
          let w = on_guards (\<lambda>g. g\<lparr>gd_mount_draw := gd_mount_draw g + 1, gd_collecting_mouths := True\<rparr>)
                    (w\<lparr>w_mouths := [], w_berries := []\<rparr>);
          w \<leftarrow> each_do (draw_mount env caller scratch) [0..<12] w;
          let w = on_guards (gd_collecting_mouths_update (\<lambda>_. False)) w;
          w \<leftarrow> resolve_body_berries env caller w;
          w \<leftarrow> resolve_mouth_contacts env caller w;
          let w = bind_actor None (on_guards (gd_mount_draw_update (\<lambda>n. n - 1)) w);
          let w = put_oam oam (put_scratch scratch (on_regs (restore_registers caller) w));
          w \<leftarrow> restore_primary_mount (bind_guest first w);
          if w_ram w 0x187a = 0 then capture first (poke8 0x188b 0 w) else Some w }"

text \<open>The body is drawn behind the mount and the star's music, where the program bank is on the stack.\<close>

definition body_entry :: "mem \<Rightarrow> nat" where
  "body_entry r =
     (if r 0x149b \<noteq> 0 then 0x00e308
      else if r 0x1490 \<noteq> 0 then (if r 0x1490 > 0x1e then 0x00e30c else 0x00e308)
      else 0x00e314)"

definition star_palette :: "World \<Rightarrow> World" where
  "star_palette w =
     (let r = w_ram w
      in if r 0x149b \<noteq> 0 \<or> r 0x1490 = 0 then w
         else
           let w = (if r 0x78 \<noteq> 0xff \<and> r 0x14 AND 3 = 0 then poke8 0x1490 (r 0x1490 - 1) w else w)
           in on_regs (cpu_A_update (\<lambda>a. (a AND 0xff00) OR ucast (r 0x13))) w)"

definition push_bank :: "Env \<Rightarrow> World \<Rightarrow> World" where
  "push_bank env w =
     on_regs (\<lambda>c. c\<lparr>cpu_S := cpu_S c - 1, cpu_DB := 0, cpu_PB := 0\<rparr>)
       (sv_write8 env 0 (unat (cpu_S (w_cpu w))) (cpu_DB (w_cpu w)) w)"

definition draw_player :: "Env \<Rightarrow> CpuState \<Rightarrow> u8 list \<Rightarrow> nat \<Rightarrow> nat \<Rightarrow> World \<Rightarrow> World option" where
  "draw_player env caller scratch first i w =
     (if i = first then Some w
      else
        do { j \<leftarrow> player_index i w;
             let p = player_at j w;
             let w = on_machine (upd_actor i (ac_pending_update (\<lambda>_. []))) w;
             if p_life p \<noteq> COOP_PLAYING \<and> p_life p \<noteq> COOP_DYING then Some w
             else
               do { let w = bind_guest i w;
                    let w = (if w_ram w 0x187a = 0 then poke8 0x188b 0 w else w);
                    let w = hide_sprites (put_scratch scratch w);
                    let w = poke8 0xdb3 (if p_character p = 1 then 1 else 0) w;
                    let w = push_bank env (sv_push_jsl env (on_regs (restore_registers caller) w));
                    let entry = body_entry (w_ram w);
                    w \<leftarrow> guest_call env (\<lambda>w. w) (cpu_S caller) entry (star_palette w);
                    pieces \<leftarrow> SmwCoopCaptureVisual (w_ppu w) (sv_rom env) (w_ram w);
                    capture i (on_machine (upd_actor i (ac_pending_update (\<lambda>_. pieces))) w) } })"

definition draw_secondary_players :: "Env \<Rightarrow> World \<Rightarrow> World option" where
  "draw_secondary_players env w =
     do { let caller = w_cpu w;
          let scratch = guest_scratch w;
          let oam = guest_oam w;
          let turn = w_ram w 0xdb3;
          first \<leftarrow> primary_actor w;
          w \<leftarrow> capture first w;
          w \<leftarrow> each_do (draw_player env caller scratch first) (actor_indices w) (on_guards (gd_player_update Suc) w);
          let w = on_guards (gd_player_update (\<lambda>n. n - 1)) w;
          let w = put_oam oam (put_scratch scratch (on_regs (restore_registers caller) w));
          Some (bind_guest first (poke8 0xdb3 turn w)) }"

section \<open>The player routine\<close>

definition run_player :: "Env \<Rightarrow> CpuState \<Rightarrow> u8 list \<Rightarrow> nat \<Rightarrow> nat \<Rightarrow> World \<Rightarrow> (bool \<times> World) option" where
  "run_player env caller scratch first i w =
     do { j \<leftarrow> player_index i w;
          let p = player_at j w;
          if p_life p \<noteq> COOP_PLAYING \<and> p_life p \<noteq> COOP_DYING then Some (True, w)
          else
            do { let mount = actor_mount i w;
                 let w = bind_mount mount (bind_guest i w);
                 let w = (if i = first then w
                          else
                            let w = on_ram (\<lambda>r. tick_secondary_timers (poke 0xd1 (map r [0x94..<0x98]) r)) w
                            in if mount \<noteq> None \<and> w_ram w 0x9d = 0 then on_ram (tick_byte 0x14a3) w else w);
                 let w = put_input env p (poke8 0xdb3 0 w);
                 let w = put_scratch scratch (on_regs (restore_registers caller) w);
                 let end_timer = w_ram w 0x1493;
                 w \<leftarrow> guest_call env (sv_push_jsr env) (cpu_S caller) 0x00c569 (bind_actor (Some i) w);
                 let w = (if end_timer = 0 \<and> w_ram w 0x1493 \<noteq> 0 then w\<lparr>w_scene_request := ac_player (actor_at i w)\<rparr> else w);
                 w \<leftarrow> capture i (bind_actor None w);
                 let w = hold_transformations w;
                 let w = capture_any_mount (actor_mount i w) w;
                 Some (w_ram w 0x100 = 0x14, w) } }"

definition death_timer :: "nat \<Rightarrow> World \<Rightarrow> World" where
  "death_timer first w = (if actor_life first w = Some COOP_DYING then poke8 0x1496 (peeked first 0x1496 w) w else w)"

text \<open>The primary player first, then the others in the order of the actors.\<close>

definition player_order :: "nat \<Rightarrow> World \<Rightarrow> nat list" where
  "player_order first w = first # filter (\<lambda>i. i \<noteq> first) (actor_indices w)"

definition run_player_routines :: "Env \<Rightarrow> World \<Rightarrow> World option" where
  "run_player_routines env w =
     do { let caller = w_cpu w;
          let scratch = guest_scratch w;
          let turn = w_ram w 0xdb3;
          first \<leftarrow> primary_actor w;
          let w = capture_any_mount (actor_mount first w) w;
          w \<leftarrow> capture first (death_timer first w);
          w \<leftarrow> each_while (run_player env caller scratch first) (player_order first w) (on_guards (gd_player_update Suc) w);
          let w = on_guards (gd_player_update (\<lambda>n. n - 1)) w;
          let w = poke8 0xdb3 turn (put_scratch scratch (on_regs (restore_registers caller) w));
          restore_primary_mount (bind_guest first w) }"

end
