(* ===== verification/Sim_Contacts.thy ===== *)
theory Sim_Contacts
  imports Sim_Players
begin

unbundle bit_operations_syntax

text \<open>
  The contacts of the simulation: an enemy, an item or a hazard that the game would let touch its one
  player is shown to every player in play.  All players are queried before any response runs; then
  the side hits, one winner's attack or grab, and the bounces of the other attackers are committed.
  The remaining routines of a frame follow: one sprite's update, death, and the team's camera.

  The comparison of the memory before and after a query, which an environment variable switches on,
  only stops the program and is left out.
\<close>

section \<open>Responses of the ordinary contact\<close>

text \<open>While players are only queried, the response is named and skipped; 0 lets the game go on.\<close>

definition query_kind :: "mem \<Rightarrow> nat \<Rightarrow> nat \<Rightarrow> NativeContactKind option" where
  "query_kind r pc slot =
     (if pc = 0x01a847 then Some CONTACT_STAR
      else if pc = 0x01a8d8 then Some CONTACT_BOUNCE
      else if pc = 0x01a8e6 then Some (if r 0x13ed \<noteq> 0 \<and> r (0x190f + slot) AND 4 = 0 then CONTACT_SLIDE else CONTACT_SIDE)
      else if pc = 0x01a924 then Some CONTACT_SPIN
      else if pc = 0x01a947 then Some CONTACT_STOMP
      else if pc = 0x01aa66 then Some CONTACT_PICKUP
      else if pc = 0x01aa74 then Some CONTACT_LOOSE
      else None)"

definition contact_response_hook :: "nat \<Rightarrow> nat \<Rightarrow> World \<Rightarrow> nat \<times> World" where
  "contact_response_hook pc slot w =
     (let g = w_guards w
      in if gd_bounce_only g \<and> (pc = 0x01a935 \<or> pc = 0x01a95d) then (0x01a91b, poke8 0x1697 (w_ram w 0x1697 + 1) w)
         else if \<not> gd_contact_query g then (0, w)
         else if gd_powerup_query g
         then (if pc \<noteq> 0x01c4c6 then (0, w) else (0x01c4fa, w\<lparr>w_queried_contact := CONTACT_POWERUP\<rparr>))
         else case query_kind (w_ram w) pc slot of
                None \<Rightarrow> (0, w) | Some kind \<Rightarrow> (0x01a91b, w\<lparr>w_queried_contact := kind\<rparr>))"

record NativeContact =
  nc_actor :: nat
  nc_kind :: NativeContactKind
  nc_distance :: u64
  nc_scratch :: "u8 list"

text \<open>The size of the structures \<^verbatim>\<open>NativeContact\<close> and \<^verbatim>\<open>ExtendedContact\<close> on a 64-bit target.\<close>

definition SIZEOF_CONTACT :: nat where
  "SIZEOF_CONTACT = 40"

definition bind_contact :: "nat \<Rightarrow> World \<Rightarrow> World" where
  "bind_contact i w = bind_actor (Some i) (let w = bind_guest i w in bind_mount (actor_mount i w) w)"

definition mark_damaged :: "nat \<Rightarrow> u32 \<Rightarrow> World \<Rightarrow> World" where
  "mark_damaged slot i w = w\<lparr>w_damaged := (w_damaged w)[slot := i]\<rparr>"

definition attack :: "NativeContactKind \<Rightarrow> bool" where
  "attack kind \<longleftrightarrow> kind = CONTACT_STAR \<or> kind = CONTACT_SLIDE \<or> kind = CONTACT_SPIN \<or> kind = CONTACT_STOMP"

definition commit_contact ::
  "Env \<Rightarrow> nat \<Rightarrow> CpuState \<Rightarrow> NativeContact \<Rightarrow> nat \<Rightarrow> bool \<Rightarrow> bool \<Rightarrow> World \<Rightarrow> World option" where
  "commit_contact env slot caller c entry winner bounce_only w =
     do { let i = nc_actor c;
          let w = bind_contact i (put_scratch (nc_scratch c) (on_regs (restore_registers caller) w));
          let w = (if entry \<noteq> 0x01a7e4 \<and> entry \<noteq> 0x01c4ac then poke8 0x18d2 0 w else w);
          w \<leftarrow> (if winner \<and> attack (nc_kind c)
                then do { (k, w) \<leftarrow> normal_entity env slot False w; Some (mark_damaged slot (en_id (entity_at k w)) w) }
                else Some w);
          w \<leftarrow> guest_jsr env entry (on_guards (gd_bounce_only_update (\<lambda>_. bounce_only)) w);
          w \<leftarrow> capture i (on_guards (gd_bounce_only_update (\<lambda>_. False)) w);
          let w = capture_any_mount (actor_mount i w) w;
          if w_ram w (0x14c8 + slot) = 0x0b
          then do { (k, w) \<leftarrow> normal_entity env slot False w; claim_carried k i w }
          else Some w }"

text \<open>A grab comes before an attack; among equals the nearer player, ties by precedence.\<close>

definition contact_wins :: "World \<Rightarrow> NativeContact \<Rightarrow> NativeContact option \<Rightarrow> bool" where
  "contact_wins w c winner =
     (case winner of
        None \<Rightarrow> True
      | Some b \<Rightarrow>
          (nc_kind c = CONTACT_PICKUP \<and> nc_kind b \<noteq> CONTACT_PICKUP) \<or>
          ((nc_kind c = CONTACT_PICKUP) = (nc_kind b = CONTACT_PICKUP) \<and>
           (nc_distance c < nc_distance b \<or>
            (nc_distance c = nc_distance b \<and>
             coop_player_precedes (m_session (w_machine w)) (ac_player (actor_at (nc_actor c) w)) (ac_player (actor_at (nc_actor b) w))))))"

text \<open>One query; the first component is the list of contacts with the winner so far.\<close>

type_synonym contacts = "NativeContact list \<times> NativeContact option"

definition query_contact ::
  "Env \<Rightarrow> nat \<Rightarrow> CpuState \<Rightarrow> u8 list \<Rightarrow> u8 \<Rightarrow> int \<Rightarrow> int \<Rightarrow> nat \<Rightarrow> nat \<Rightarrow> contacts \<times> World \<Rightarrow> (contacts \<times> World) option" where
  "query_contact env slot caller scratch cooldown x y entry i = (\<lambda>((cs, winner), w).
     do { j \<leftarrow> player_index i w;
          if p_life (player_at j w) \<noteq> COOP_PLAYING then Some ((cs, winner), w)
          else
            do { let w = bind_contact i (put_scratch scratch (on_regs (restore_registers caller) w));
                 w \<leftarrow> guest_jsr env entry (w\<lparr>w_queried_contact := CONTACT_NONE\<rparr>);
                 w \<leftarrow> capture i (poke8 (0x154c + slot) cooldown w);
                 if w_queried_contact w = CONTACT_NONE then Some ((cs, winner), w)
                 else
                   let c = \<lparr>nc_actor = i, nc_kind = w_queried_contact w, nc_distance = squared x y (player_at j w),
                            nc_scratch = guest_scratch w\<rparr>
                   in if nc_kind c = CONTACT_SIDE \<or> nc_kind c = CONTACT_BOUNCE then Some ((cs @ [c], winner), w)
                      else Some ((cs @ [c], if contact_wins w c winner then Some c else winner), w) } })"

fun gather :: "(nat \<Rightarrow> 'c \<times> World \<Rightarrow> ('c \<times> World) option) \<Rightarrow> nat list \<Rightarrow> 'c \<times> World \<Rightarrow> ('c \<times> World) option" where
  "gather f [] st = Some st"
| "gather f (i # is) st = do { st \<leftarrow> f i st; gather f is st }"

definition bounce_entry :: "NativeContactKind \<Rightarrow> nat" where
  "bounce_entry kind = (if kind = CONTACT_STOMP then 0x01a947 else if kind = CONTACT_SPIN then 0x01a924
     else if kind = CONTACT_BOUNCE then 0x01a8d8 else 0)"

text \<open>An attacker beside the winner bounces off, with the knock-back byte of before.\<close>

definition bounce_off ::
  "Env \<Rightarrow> nat \<Rightarrow> CpuState \<Rightarrow> u8 \<Rightarrow> NativeContact option \<Rightarrow> NativeContact \<Rightarrow> World \<Rightarrow> World option" where
  "bounce_off env slot caller knockback winner c w =
     (if Some c = winner \<or> bounce_entry (nc_kind c) = 0 then Some w
      else
        do { let after = w_ram w (0x187b + slot);
             w \<leftarrow> commit_contact env slot caller c (bounce_entry (nc_kind c)) False True (poke8 (0x187b + slot) knockback w);
             Some (poke8 (0x187b + slot) after w) })"

definition restore_contact :: "CpuState \<Rightarrow> u8 list \<Rightarrow> nat \<Rightarrow> World \<Rightarrow> World" where
  "restore_contact caller scratch original w =
     (let w = bind_guest original (put_scratch scratch (on_regs (restore_registers caller) w))
      in bind_mount (actor_mount original w) w)"

definition collect_native_contacts :: "Env \<Rightarrow> bool \<Rightarrow> World \<Rightarrow> (bool \<times> World) option" where
  "collect_native_contacts env powerup w =
     (let slot = unat (cpu_X (w_cpu w)) mod 256
      in case w_bound w of
           None \<Rightarrow> Some (False, w)
         | Some original \<Rightarrow>
             if slot \<ge> 12 \<or> (\<not> powerup \<and> w_ram w (0x167a + slot) AND 0x80 \<noteq> 0) then Some (False, w)
             else
               do { w \<leftarrow> capture original w;
                    let caller = w_cpu w;
                    let scratch = guest_scratch w;
                    let cooldown = w_ram w (0x154c + slot);
                    let knockback = w_ram w (0x187b + slot);
                    let entry = (if powerup then 0x01c4ac else 0x01a7e4);
                    let x = int (slot_x (w_ram w) slot) + 8;
                    let y = int (slot_y (w_ram w) slot) + 8;
                    if \<not> sv_alloc env (length (m_actors (w_machine w)) * SIZEOF_CONTACT) then None
                    else
                      do { let w = on_guards (\<lambda>g. g\<lparr>gd_contact := gd_contact g + 1, gd_contact_query := True, gd_powerup_query := powerup\<rparr>) w;
                           ((cs, winner), w) \<leftarrow> gather (query_contact env slot caller scratch cooldown x y entry) (actor_indices w) (([], None), w);
                           let w = on_guards (\<lambda>g. g\<lparr>gd_contact_query := False, gd_powerup_query := False\<rparr>) w;
                           w \<leftarrow> each_do (\<lambda>c. commit_contact env slot caller c 0x01a8e6 False False)
                                  (filter (\<lambda>c. nc_kind c = CONTACT_SIDE) cs) w;
                           w \<leftarrow> (case winner of None \<Rightarrow> Some w | Some c \<Rightarrow> commit_contact env slot caller c entry True False w);
                           let w = (if cs \<noteq> [] \<and> cooldown = 0 \<and> winner = None then poke8 (0x154c + slot) 8 w else w);
                           w \<leftarrow> each_do (bounce_off env slot caller knockback winner) cs w;
                           let w = on_guards (gd_contact_update (\<lambda>n. n - 1)) w;
                           Some (True, bind_actor (Some original) (restore_contact caller scratch original w)) } })"

section \<open>Chucks\<close>

definition chuck_wins :: "World \<Rightarrow> NativeContact \<Rightarrow> NativeContact option \<Rightarrow> bool" where
  "chuck_wins w c winner =
     (case winner of
        None \<Rightarrow> True
      | Some b \<Rightarrow> nc_distance c < nc_distance b \<or>
          (nc_distance c = nc_distance b \<and>
           coop_player_precedes (m_session (w_machine w)) (ac_player (actor_at (nc_actor c) w)) (ac_player (actor_at (nc_actor b) w))))"

definition query_chuck ::
  "Env \<Rightarrow> CpuState \<Rightarrow> u8 list \<Rightarrow> int \<Rightarrow> int \<Rightarrow> nat \<Rightarrow> contacts \<times> World \<Rightarrow> (contacts \<times> World) option" where
  "query_chuck env caller scratch x y i = (\<lambda>((cs, winner), w).
     do { j \<leftarrow> player_index i w;
          let p = player_at j w;
          if p_life p \<noteq> COOP_PLAYING then Some ((cs, winner), w)
          else
            do { let w = bind_contact i (put_scratch scratch (on_regs (restore_registers caller) w));
                 w \<leftarrow> guest_jsr env 0x01a7e4 w;
                 if \<not> cpu_flag_C (w_cpu w) then Some ((cs, winner), w)
                 else
                   do { (kind, w) \<leftarrow>
                          (if w_ram w 0x1490 \<noteq> 0 then Some (CONTACT_STAR, w)
                           else do { w \<leftarrow> guest_jsr env 0x02d50c w;
                                     Some (if (w_ram w 14 - 0xec) AND 0x80 \<noteq> 0 then CONTACT_STOMP else CONTACT_SIDE, w) });
                        let c = \<lparr>nc_actor = i, nc_kind = kind, nc_distance = squared x y (player_at j w), nc_scratch = guest_scratch w\<rparr>;
                        Some ((cs @ [c], if kind \<noteq> CONTACT_SIDE \<and> chuck_wins w c winner then Some c else winner), w) } } })"

definition hit_chuck :: "Env \<Rightarrow> nat \<Rightarrow> CpuState \<Rightarrow> NativeContact option \<Rightarrow> NativeContact \<Rightarrow> World \<Rightarrow> World option" where
  "hit_chuck env slot caller winner c w =
     do { let side = (nc_kind c = CONTACT_SIDE);
          (k, w) \<leftarrow> normal_entity env slot False w;
          let enemy = en_id (entity_at k w);
          let duplicate = (\<not> side \<and> (Some c \<noteq> winner \<or> w_damaged w ! slot = enemy));
          if duplicate \<and> nc_kind c = CONTACT_STAR then Some w
          else
            do { let w = bind_contact (nc_actor c) (put_scratch (nc_scratch c) (on_regs (restore_registers caller) w));
                 let state = w_ram w (0xc2 + slot);
                 let cooldown = w_ram w (0x1564 + slot);
                 let w = (if duplicate then poke8 (0x1564 + slot) 0 (poke8 (0xc2 + slot) 3 w) else w);
                 w \<leftarrow> guest_jsr env (if side then 0x02c810 else 0x02c79d) w;
                 let w = (if duplicate then poke8 (0x1564 + slot) cooldown (poke8 (0xc2 + slot) state w)
                          else if \<not> side then mark_damaged slot enemy w else w);
                 w \<leftarrow> capture (nc_actor c) w;
                 Some (capture_any_mount (actor_mount (nc_actor c) w) w) } }"

definition collect_chuck_contacts :: "Env \<Rightarrow> World \<Rightarrow> World option" where
  "collect_chuck_contacts env w =
     (let slot = unat (cpu_X (w_cpu w)) mod 256
      in if slot \<ge> 12 then None
         else
           do { original \<leftarrow> w_bound w;
                if w_ram w (0x1564 + slot) \<noteq> 0 then Some w
                else
                  do { w \<leftarrow> capture original w;
                       let caller = w_cpu w;
                       let scratch = guest_scratch w;
                       let x = int (slot_x (w_ram w) slot) + 8;
                       let y = int (slot_y (w_ram w) slot) + 16;
                       if \<not> sv_alloc env (length (m_actors (w_machine w)) * SIZEOF_CONTACT) then None
                       else
                         do { ((cs, winner), w) \<leftarrow> gather (query_chuck env caller scratch x y) (actor_indices w)
                                (([], None), on_guards (gd_chuck_update Suc) w);
                              w \<leftarrow> each_do (hit_chuck env slot caller winner)
                                (filter (\<lambda>c. nc_kind c = CONTACT_SIDE) cs @ filter (\<lambda>c. Some c = winner) cs @
                                 filter (\<lambda>c. Some c \<noteq> winner \<and> nc_kind c = CONTACT_STOMP) cs) w;
                              let w = on_guards (gd_chuck_update (\<lambda>n. n - 1)) w;
                              Some (bind_actor (Some original) (restore_contact caller scratch original w)) } } })"

section \<open>Capes and platforms\<close>

definition cape_contact :: "Env \<Rightarrow> CpuState \<Rightarrow> u8 list \<Rightarrow> nat \<Rightarrow> World \<Rightarrow> World option" where
  "cape_contact env caller scratch i w =
     do { life \<leftarrow> actor_life i w;
          if life \<noteq> COOP_PLAYING then Some w
          else
            do { w \<leftarrow> guest_jsr env 0x0294f5 (bind_contact i (put_scratch scratch (on_regs (restore_registers caller) w)));
                 w \<leftarrow> capture i w;
                 Some (capture_any_mount (actor_mount i w) w) } }"

definition run_cape_contacts :: "Env \<Rightarrow> World \<Rightarrow> World option" where
  "run_cape_contacts env w =
     do { let saved = w_bound w;
          original \<leftarrow> current_actor w;
          w \<leftarrow> capture original w;
          let caller = w_cpu w;
          let scratch = guest_scratch w;
          w \<leftarrow> in_order (cape_contact env caller scratch) (on_guards (gd_cape_update Suc) w);
          let w = on_guards (gd_cape_update (\<lambda>n. n - 1)) w;
          Some (bind_actor saved (restore_contact caller scratch original w)) }"

definition platform_contact :: "Env \<Rightarrow> CpuState \<Rightarrow> u8 list \<Rightarrow> nat \<Rightarrow> bool \<times> World \<Rightarrow> (bool \<times> World) option" where
  "platform_contact env caller scratch i = (\<lambda>(occupied, w).
     do { life \<leftarrow> actor_life i w;
          if life \<noteq> COOP_PLAYING then Some (occupied, w)
          else
            do { w \<leftarrow> guest_jsr env 0x01b457 (bind_contact i (put_scratch scratch (on_regs (restore_registers caller) w)));
                 let carry = cpu_flag_C (w_cpu w);
                 w \<leftarrow> capture i w;
                 Some (occupied \<or> carry, capture_any_mount (actor_mount i w) w) } })"

definition put_carry :: "bool \<Rightarrow> CpuState \<Rightarrow> CpuState" where
  "put_carry carry c = c\<lparr>cpu_flag_C := carry, cpu_P := (cpu_P c AND 0xfe) OR (if carry then 1 else 0)\<rparr>"

definition run_platform_contacts :: "Env \<Rightarrow> World \<Rightarrow> (bool \<times> World) option" where
  "run_platform_contacts env w =
     do { original \<leftarrow> w_bound w;
          w \<leftarrow> capture original w;
          let caller = w_cpu w;
          let scratch = guest_scratch w;
          (occupied, w) \<leftarrow> gather (platform_contact env caller scratch) (actor_indices w) (False, on_guards (gd_platform_update Suc) w);
          let w = on_guards (gd_platform_update (\<lambda>n. n - 1)) w;
          let w = bind_actor (Some original) (restore_contact caller scratch original w);
          Some (occupied, on_regs (put_carry occupied) w) }"

section \<open>Extended objects\<close>

record ExtendedContact =
  xc_actor :: nat
  xc_distance :: u64
  xc_scratch :: "u8 list"
  xc_star :: bool

definition extended_wins :: "World \<Rightarrow> ExtendedContact \<Rightarrow> ExtendedContact option \<Rightarrow> bool" where
  "extended_wins w c winner =
     (case winner of
        None \<Rightarrow> True
      | Some b \<Rightarrow> xc_distance c < xc_distance b \<or>
          (xc_distance c = xc_distance b \<and>
           coop_player_precedes (m_session (w_machine w)) (ac_player (actor_at (xc_actor c) w)) (ac_player (actor_at (xc_actor b) w))))"

definition query_extended ::
  "Env \<Rightarrow> CpuState \<Rightarrow> u8 list \<Rightarrow> bool \<Rightarrow> nat \<Rightarrow> (ExtendedContact list \<times> ExtendedContact option) \<times> World \<Rightarrow>
   ((ExtendedContact list \<times> ExtendedContact option) \<times> World) option" where
  "query_extended env caller scratch coin i = (\<lambda>((cs, winner), w).
     do { j \<leftarrow> player_index i w;
          if p_life (player_at j w) \<noteq> COOP_PLAYING then Some ((cs, winner), w)
          else
            do { let w = bind_contact i (put_scratch scratch (on_regs (restore_registers caller) w));
                 w \<leftarrow> guest_jsr env 0x02a3f6 (w\<lparr>w_extended_found := False\<rparr>);
                 if \<not> w_extended_found w then Some ((cs, winner), w)
                 else
                   let r = w_ram w; x = int (joined r 4 10 + unat (r 6) div 2); y = int (joined r 5 11 + unat (r 7) div 2);
                       c = \<lparr>xc_actor = i, xc_distance = squared x y (player_at j w), xc_scratch = guest_scratch w,
                            xc_star = (r 0x1490 \<noteq> 0)\<rparr>
                   in Some ((cs @ [c], if (coin \<or> xc_star c) \<and> extended_wins w c winner then Some c else winner), w) } })"

definition commit_extended :: "Env \<Rightarrow> CpuState \<Rightarrow> ExtendedContact \<Rightarrow> World \<Rightarrow> World option" where
  "commit_extended env caller c w =
     do { let i = xc_actor c;
          let w = bind_actor (Some i) (bind_guest i (put_scratch (xc_scratch c) (on_regs (restore_registers caller) w)));
          let mount = actor_mount i w;
          let mount_id = (case mount of None \<Rightarrow> COOP_NO_ENTITY | Some k \<Rightarrow> en_id (entity_at k w));
          w \<leftarrow> guest_jsr env 0x02a40b (bind_mount mount w);
          w \<leftarrow> capture i w;
          (case coop_machine_entity (w_machine w) mount_id of
             None \<Rightarrow> Some w | Some k \<Rightarrow> mount_owner k i (capture_mount k w)) }"

text \<open>A coin goes to the winner; a hazard meets every player without a star, then the winner with one.\<close>

definition extended_order :: "bool \<Rightarrow> ExtendedContact list \<Rightarrow> ExtendedContact option \<Rightarrow> ExtendedContact list" where
  "extended_order coin cs winner =
     (if coin then [] else filter (\<lambda>c. \<not> xc_star c) cs) @ filter (\<lambda>c. Some c = winner) cs"

definition collect_extended_contacts :: "Env \<Rightarrow> World \<Rightarrow> World option" where
  "collect_extended_contacts env w =
     (let slot = unat (cpu_X (w_cpu w)) mod 256
      in if slot \<ge> 10 then None
         else
           do { let saved = w_bound w;
                original \<leftarrow> current_actor w;
                w \<leftarrow> capture original w;
                let caller = w_cpu w;
                let scratch = guest_scratch w;
                let coin = (w_ram w (0x170b + slot) = 0x0a);
                if \<not> sv_alloc env (length (m_actors (w_machine w)) * SIZEOF_CONTACT) then None
                else
                  do { let w = on_guards (\<lambda>g. g\<lparr>gd_extended_contact := gd_extended_contact g + 1, gd_extended_query := True\<rparr>) w;
                       ((cs, winner), w) \<leftarrow> gather (query_extended env caller scratch coin) (actor_indices w) (([], None), w);
                       let w = on_guards (gd_extended_query_update (\<lambda>_. False)) w;
                       w \<leftarrow> each_do (commit_extended env caller) (extended_order coin cs winner) w;
                       let w = foldl (\<lambda>w c. bind_guest (xc_actor c) w) w cs;
                       let w = on_guards (gd_extended_contact_update (\<lambda>n. n - 1)) w;
                       Some (bind_actor saved (restore_contact caller scratch original w)) } })"

section \<open>One sprite of the world\<close>

definition committed_enemy_attack :: "mem \<Rightarrow> nat \<Rightarrow> bool" where
  "committed_enemy_attack r slot =
     (let type = r (0x9e + slot); state = r (0xc2 + slot)
      in if r (0x14c8 + slot) \<noteq> 8 then False
         else if type = 0x26 then state \<noteq> 0
         else (type = 0x91 \<or> type = 0x96) \<and> (state = 1 \<or> state = 2))"

definition sprite_target :: "nat \<Rightarrow> nat \<Rightarrow> World \<Rightarrow> u32" where
  "sprite_target k slot w =
     (let e = entity_at k w; s = m_session (w_machine w)
      in if en_owner e \<noteq> COOP_NO_PLAYER then en_owner e
         else if committed_enemy_attack (w_ram w) slot \<and>
                 (case coop_player s (en_target e) of None \<Rightarrow> False | Some j \<Rightarrow> p_life (players s ! j) = COOP_PLAYING)
         then en_target e
         else coop_nearest_player s (of_nat (slot_x (w_ram w) slot + 8)) (of_nat (slot_y (w_ram w) slot + 8)) False False)"

text \<open>What the update of a sprite means for its owner.\<close>

definition settle_sprite :: "nat \<Rightarrow> nat \<Rightarrow> nat \<Rightarrow> World \<Rightarrow> World option" where
  "settle_sprite k slot i w =
     (let e = entity_at k w; status = w_ram w (0x14c8 + slot)
      in if status = 0 then Some (on_machine (coop_machine_forget_entity (en_id e)) w)
         else if status = 0x0b then (if en_owner e = COOP_NO_PLAYER then claim_carried k i w else Some w)
         else if en_flags e AND (COOP_ENTITY_HELD OR COOP_ENTITY_ATTACHED) \<noteq> 0 then Some (on_machine (release_owner k) w)
         else Some w)"

definition settle_mounts :: "nat \<Rightarrow> nat \<Rightarrow> nat \<Rightarrow> bool \<Rightarrow> bool \<Rightarrow> World \<Rightarrow> World option" where
  "settle_mounts k slot i baby unrelated w =
     (if en_type (entity_at k w) = 0x35 \<and> w_ram w (0x14c8 + slot) \<noteq> 0
      then do { w \<leftarrow> (if unrelated then Some (capture_mount k w) else mount_owner k i (capture_mount k w));
                Some (if baby then bind_mount (actor_mount i w) w else w) }
      else Some (capture_any_mount (actor_mount i w) w))"

definition update_sprite :: "Env \<Rightarrow> nat \<Rightarrow> nat \<Rightarrow> bool \<Rightarrow> bool \<Rightarrow> nat \<Rightarrow> World \<Rightarrow> World option" where
  "update_sprite env k slot yoshi baby first w =
     do { let e = entity_at k w;
          let target = sprite_target k slot w;
          let chosen = (if yoshi then mount_target k w else coop_machine_actor (w_machine w) target);
          let i = (case chosen of Some i \<Rightarrow> i | None \<Rightarrow> first);
          if w_ram w (0x14c8 + slot) = 0x0b \<and> en_owner e = COOP_NO_PLAYER then None
          else
            do { let caller = w_cpu w;
                 let scratch = guest_scratch w;
                 let saved = ac_guest (actor_at i w);
                 let w = bind_guest i w;
                 let loose = (yoshi \<and> en_owner e = COOP_NO_PLAYER);
                 let unrelated = (loose \<and> actor_mount i w \<noteq> None);
                 let w = bind_mount (if yoshi then Some k else actor_mount i w) w;
                 let w = (if unrelated then poke_all [0x72, 0x187a] 0 w else w);
                 let w = (if loose \<and> w_ram w 0x9d = 0 then on_ram (tick_byte 0x14a3) w else w);
                 let w = on_guards (gd_sprite_update Suc) (bind_actor (Some i) w);
                 w \<leftarrow> guest_call env (sv_push_jsr env) (cpu_S caller) 0x018127 w;
                 let w = bind_actor None (on_guards (gd_sprite_update (\<lambda>n. n - 1)) w);
                 (k, w) \<leftarrow> normal_entity env slot False w;
                 let w = on_machine (upd_entity k (\<lambda>e. e\<lparr>en_target := (if en_owner e = COOP_NO_PLAYER \<and>
                           committed_enemy_attack (w_ram w) slot then target else COOP_NO_PLAYER)\<rparr>)) w;
                 w \<leftarrow> settle_mounts k slot i baby unrelated w;
                 w \<leftarrow> capture i (if unrelated then bind_image saved w else w);
                 w \<leftarrow> settle_sprite k slot i w;
                 let w = put_scratch scratch (on_regs (restore_registers caller) w);
                 restore_primary_mount (bind_guest first w) } }"

definition waits_for_rider :: "nat \<Rightarrow> World \<Rightarrow> bool" where
  "waits_for_rider k w \<longleftrightarrow>
     en_type (entity_at k w) = 0x35 \<and> en_owner (entity_at k w) \<noteq> COOP_NO_PLAYER \<and>
     (case coop_player (m_session (w_machine w)) (en_owner (entity_at k w)) of
        None \<Rightarrow> False | Some j \<Rightarrow> p_life (player_at j w) \<noteq> COOP_PLAYING)"

definition run_normal_sprite :: "Env \<Rightarrow> World \<Rightarrow> (bool \<times> World) option" where
  "run_normal_sprite env w =
     (let slot = unat (cpu_X (w_cpu w)) mod 256
      in if slot \<ge> 12 then Some (False, w)
         else if w_ram w (0x14c8 + slot) = 0
         then Some (False, case normal_slot slot w of None \<Rightarrow> w
                     | Some k \<Rightarrow> on_machine (coop_machine_forget_entity (en_id (entity_at k w))) w)
         else
           do { (k, w) \<leftarrow> normal_entity env slot False w;
                (ok, w) \<leftarrow> adopt_placed_egg env k w;
                if \<not> ok then Some (True, w)
                else if waits_for_rider k w then Some (True, on_machine (upd_entity k (en_pending_update (\<lambda>_. []))) w)
                else
                  do { let type = en_type (entity_at k w);
                       first \<leftarrow> primary_actor w;
                       w \<leftarrow> capture first w;
                       w \<leftarrow> update_sprite env k slot (type = 0x35) (type = 0x2d) first w;
                       Some (True, w) } })"

definition prepare_contacts_of :: "nat \<Rightarrow> nat \<Rightarrow> World \<Rightarrow> World option" where
  "prepare_contacts_of first i w =
     (if i = first then Some w
      else let w = bind_guest i w; w = poke8 0x1470 (w_ram w 0x148f) w
           in capture i (poke_all [0x148f, 0x1471, 0x18c2] 0 w))"

definition prepare_world_contacts :: "World \<Rightarrow> World option" where
  "prepare_world_contacts w =
     do { first \<leftarrow> primary_actor w;
          w \<leftarrow> capture first w;
          w \<leftarrow> each_do (prepare_contacts_of first) (actor_indices w) w;
          Some (bind_guest first w) }"

section \<open>Death\<close>

definition queue_event :: "Env \<Rightarrow> CoopEventKind \<Rightarrow> u32 \<Rightarrow> World \<Rightarrow> World option" where
  "queue_event env kind player = report_event env kind player COOP_NO_ENTITY 0 0"

definition time_left :: "mem \<Rightarrow> bool" where
  "time_left r \<longleftrightarrow> r 0xf31 \<noteq> 0 \<or> r 0xf32 \<noteq> 0 \<or> r 0xf33 \<noteq> 0"

definition team_death :: "CoopSession \<Rightarrow> bool" where
  "team_death s \<longleftrightarrow> outcome s = COOP_RETRY \<or> outcome s = COOP_GAME_OVER"

text \<open>The routine that kills the player: the death is an event of the team, and only the pose is kept.\<close>

definition begin_death :: "Env \<Rightarrow> nat \<Rightarrow> nat \<Rightarrow> nat \<Rightarrow> World \<Rightarrow> (nat \<times> World) option" where
  "begin_death env pc i j w =
     do { w \<leftarrow> (if w_timer_had_time w \<and> \<not> time_left (w_ram w) \<and> advancing (m_session (w_machine w))
                then queue_event env COOP_EVENT_TIMEOUT COOP_NO_PLAYER w else Some w);
          if p_life (player_at j w) = COOP_PLAYING \<and> w_ram w 0x71 \<noteq> 9 \<and> advancing (m_session (w_machine w))
          then
            do { w \<leftarrow> queue_event env COOP_EVENT_DEATH (ac_player (actor_at i w)) w;
                 let w = (if pc = 0x00f606 then poke8 0x7d 0x90 w else w);
                 let w = poke8 0x1496 0x30 (poke8 0x71 9 w);
                 Some (0x00f628, poke_all [0x19, 0x188a, 0x1407, 0x140d, 0x1497, 0x1490] 0 w) }
          else Some (0x00f628, w) }"

definition continue_death :: "Env \<Rightarrow> nat \<Rightarrow> nat \<Rightarrow> World \<Rightarrow> (nat \<times> World) option" where
  "continue_death env i j w =
     (let s = m_session (w_machine w); w = poke8 0x13e0 0x3e (poke8 0x19 0 w)
      in if \<not> advancing s \<and> \<not> (team_death s \<and> w_stage_started w \<and> \<not> input_blocked s) then Some (0x00d11c, w)
         else
           let w = (if w_ram w 0x13 AND 3 = 0 then on_ram (tick_byte 0x1496) w else w)
           in if w_ram w 0x1496 \<noteq> 0
              then Some (0x00d108, on_regs (cpu_A_update (\<lambda>a. (a AND 0xff00) OR ucast (w_ram w 0x1496))) w)
              else
                do { w \<leftarrow> (if team_death s then Some (on_machine (on_player j (p_life_update (\<lambda>_. COOP_DEATH_BUBBLE))) w)
                           else queue_event env COOP_EVENT_DEATH_FINISHED (ac_player (actor_at i w)) w);
                     Some (0x00d11c, w) })"

definition death_hook :: "Env \<Rightarrow> nat \<Rightarrow> World \<Rightarrow> (nat \<times> World) option" where
  "death_hook env pc w =
     do { i \<leftarrow> current_actor w;
          j \<leftarrow> player_index i w;
          if pc = 0x00f606 \<or> pc = 0x00f60a then begin_death env pc i j w
          else if pc = 0x00d0b6 then continue_death env i j w
          else Some (0, w) }"

section \<open>The team's camera\<close>

record Bounds =
  bo_left :: int
  bo_right :: int
  bo_top :: int
  bo_bottom :: int
  bo_grounded :: bool
  bo_active :: nat
  bo_focus :: "nat option"

definition extend_bounds :: "World \<Rightarrow> Bounds \<Rightarrow> nat \<Rightarrow> Bounds" where
  "extend_bounds w b i =
     (case player_index i w of
        None \<Rightarrow> b
      | Some j \<Rightarrow>
          let p = player_at j w; half = sint (p_height p) sdiv 2
          in if p_life p \<noteq> COOP_PLAYING \<or> peeked i 0x71 w = 9 then b
             else \<lparr>bo_left = min (bo_left b) (sint (p_x p) - sint (p_half_width p)),
                   bo_right = max (bo_right b) (sint (p_x p) + sint (p_half_width p)),
                   bo_top = min (bo_top b) (sint (p_y p) - half), bo_bottom = max (bo_bottom b) (sint (p_y p) + half),
                   bo_grounded = (bo_grounded b \<or> p_grounded p), bo_active = bo_active b + 1,
                   bo_focus = (case bo_focus b of None \<Rightarrow> Some i | Some f \<Rightarrow> Some f)\<rparr>)"

definition team_bounds :: "World \<Rightarrow> Bounds" where
  "team_bounds w = foldl (extend_bounds w)
     \<lparr>bo_left = INT32_MAX, bo_right = INT32_MIN, bo_top = INT32_MAX, bo_bottom = INT32_MIN, bo_grounded = False,
      bo_active = 0, bo_focus = None\<rparr> (actor_indices w)"

text \<open>The leader of a catch-up takes the place of the whole team.\<close>

definition camera_leader :: "World \<Rightarrow> CoopPlayer option" where
  "camera_leader w =
     (let s = m_session (w_machine w)
      in case coop_player s (c_leader (camera s)) of None \<Rightarrow> None
         | Some j \<Rightarrow> if p_life (players s ! j) = COOP_PLAYING then Some (players s ! j) else None)"

definition focus_place :: "World \<Rightarrow> Bounds \<Rightarrow> nat \<Rightarrow> (nat \<times> int \<times> int) option" where
  "focus_place w b focus =
     (case camera_leader w of
        None \<Rightarrow> Some (focus, (bo_left b + bo_right b) sdiv 2, (bo_top b + bo_bottom b) sdiv 2)
      | Some leader \<Rightarrow>
          do { i \<leftarrow> coop_machine_actor (w_machine w) (p_id leader);
               Some (i, sint (p_x leader), sint (p_y leader)) })"

definition run_team_camera :: "Env \<Rightarrow> World \<Rightarrow> World option" where
  "run_team_camera env w =
     do { first \<leftarrow> primary_actor w;
          w \<leftarrow> capture first w;
          let b = team_bounds w;
          (case bo_focus b of
             None \<Rightarrow> Some (poke_all [0x17bd, 0x17be, 0x17bf, 0x17c0] 0 w)
           | Some focus \<Rightarrow>
               do { (i, x, y) \<leftarrow> focus_place w b focus;
                    let w = bind_guest i w;
                    j \<leftarrow> player_index i w;
                    let proxy = player_at j w;
                    let w = on_machine (coop_machine_focus (word_of_int x) (word_of_int y) (of_nat (bo_active b))) w;
                    let w = on_ram (coop_guest_place_player (proxy\<lparr>p_x := m_focus_x (w_machine w),
                              p_y := m_focus_y (w_machine w), p_grounded := bo_grounded b\<rparr>)) w;
                    let caller = w_cpu w;
                    let scratch = guest_scratch w;
                    w \<leftarrow> guest_call env (sv_push_jsl env) (cpu_S caller) 0x00f6db (on_guards (gd_camera_update Suc) w);
                    let w = on_guards (gd_camera_update (\<lambda>n. n - 1)) w;
                    Some (bind_guest first (put_scratch scratch (on_regs (restore_registers caller) w))) }) }"

end
