(* ===== verification/Sim_Hook.thy ===== *)
theory Sim_Hook
  imports Sim_Contacts
begin

unbundle bit_operations_syntax

text \<open>
  \<^verbatim>\<open>SmwCoopSimulationHook\<close>: what the simulation does at the places of the game's code that
  \<^verbatim>\<open>coop_hooks.def\<close> names.  The function is a sequence of tests on the program counter; each is a
  definition here.  A test that returns gives the place where the game goes on, 0 for here.
\<close>

type_synonym hook = "nat \<Rightarrow> World \<Rightarrow> (nat option \<times> World) option"

abbreviation pass :: "World \<Rightarrow> (nat option \<times> World) option" where
  "pass w \<equiv> Some (None, w)"

abbreviation leave :: "nat \<Rightarrow> World \<Rightarrow> (nat option \<times> World) option" where
  "leave pc w \<equiv> Some (Some pc, w)"

fun run_hooks :: "hook list \<Rightarrow> nat \<Rightarrow> World \<Rightarrow> (nat \<times> World) option" where
  "run_hooks [] pc w = Some (0, w)"
| "run_hooks (h # hs) pc w =
     do { (r, w) \<leftarrow> h pc w;
          case r of Some place \<Rightarrow> Some (place, w) | None \<Rightarrow> run_hooks hs pc w }"

text \<open>A test whose whole body is one operation.\<close>

definition leaving :: "nat \<Rightarrow> World option \<Rightarrow> (nat option \<times> World) option" where
  "leaving place r = map_option (\<lambda>w. (Some place, w)) r"

definition reg_x :: "World \<Rightarrow> nat" where
  "reg_x w = unat (cpu_X (w_cpu w)) mod 256"

definition reg_y :: "World \<Rightarrow> nat" where
  "reg_y w = unat (cpu_Y (w_cpu w)) mod 256"

definition low_A :: "u8 \<Rightarrow> CpuState \<Rightarrow> CpuState" where
  "low_A v = cpu_A_update (\<lambda>a. (a AND 0xff00) OR ucast v)"

section \<open>Entrances\<close>

definition retry_hook :: hook where
  "retry_hook pc w =
     (if pc = 0x05d83e \<and> outcome (m_session (w_machine w)) = COOP_RETRY
      then let w = poke8 0x0f 0 (on_ram (put16 0x1e 0 \<circ> put16 0x1a 0) w)
           in leave 0x05d8a2 (on_regs (\<lambda>c. (low_A (w_ram w 0x13bf) c)\<lparr>cpu_Y := of_nat (unat (w_ram w 0xdd6) div 4)\<rparr>) w)
      else if pc = 0x05d8b7 then leave 0 (on_machine (m_level_update (\<lambda>_. of_nat (rd16 (w_ram w) 0x0e))) w)
      else pass w)"

definition room_hook :: "Env \<Rightarrow> hook" where
  "room_hook env pc w =
     (let g = w_guards w
      in if pc = 0x02a751 \<and> gd_room_load g = 0 then leaving 0x02a772 (load_room_sprites env w)
         else if pc = 0x00fc7a \<and> gd_room_load g \<noteq> 0 \<and> \<not> gd_spawning_mount g then leave 0x00fceb w
         else if pc = 0x00fc98 \<and> gd_spawning_mount g
         then (if reg_x w \<ge> 12 \<or> w_ram w (0x14c8 + reg_x w) \<noteq> 0
               then case free_slot (w_ram w) of None \<Rightarrow> None
                    | Some slot \<Rightarrow> pass (on_regs (cpu_X_update (\<lambda>_. of_nat slot)) w)
               else pass w)
         else if pc = 0x02abf2 \<and> gd_room_sprite g = 0 then leaving 0x02ac5b (carry_through_room env w)
         else pass w)"

text \<open>The other places count only in a frame of a level.\<close>

definition level_hook :: hook where
  "level_hook pc w = (if w_level_frame w then pass w else leave 0 w)"

section \<open>Contacts\<close>

text \<open>The first hit on an enemy in a frame is entered into the ledger, later ones go another way.\<close>

definition damage_once :: "Env \<Rightarrow> nat \<Rightarrow> (World \<Rightarrow> (nat option \<times> World) option) \<Rightarrow> World \<Rightarrow> (nat option \<times> World) option" where
  "damage_once env slot again w =
     do { (k, w) \<leftarrow> normal_entity env slot False w;
          let enemy = en_id (entity_at k w);
          if w_damaged w ! slot = enemy then again w else pass (mark_damaged slot enemy w) }"

definition solid_hook :: "Env \<Rightarrow> hook" where
  "solid_hook env pc w =
     (let g = w_guards w; slot = reg_x w
      in if pc = 0x01b457 \<and> gd_platform g = 0 \<and> w_bound w \<noteq> None \<and> slot < 12 \<and>
            w_ram w (0x9e + slot) \<ge> 0x55 \<and> w_ram w (0x9e + slot) \<le> 0x59
         then do { (occupied, w) \<leftarrow> run_platform_contacts env w; leave (if occupied then 0x01b4b0 else 0x01b4b2) w }
         else if pc = 0x02c79d \<and> gd_chuck g = 0 then leaving 0x02c80f (collect_chuck_contacts env w)
         else if pc = 0x0294f5 \<and> gd_cape g = 0 then leaving 0x02950a (run_cape_contacts env w)
         else if pc = 0x029404 \<and> gd_cape g \<noteq> 0 \<and> slot < 12 then damage_once env slot (leave 0x02950a) w
         else pass w)"

definition egg_hatched :: "Env \<Rightarrow> World \<Rightarrow> World option" where
  "egg_hatched env w =
     (let slot = reg_x w
      in if slot \<ge> 12 then None
         else
           do { (k, w) \<leftarrow> normal_entity env slot False w;
                n \<leftarrow> placed_source_for (w_machine w) (en_id (entity_at k w));
                let source = m_placed_eggs (w_machine w) ! n;
                let roster = length (m_actors (w_machine w));
                if unat (pe_uses source) \<ge> roster then None
                else
                  let w = on_machine (upd_egg n (pe_uses_update (\<lambda>u. u + 1))) w;
                      w = (if pe_load_index source < 128 then poke8 (0x1938 + unat (pe_load_index source)) 1 w else w);
                      w = poke8 (0x161a + slot) 0xff w
                  in Some (on_regs (low_A (if mount_count (w_ram w) slot < roster then 0x2d else 0x78)) w) })"

definition mouth_hook :: "Env \<Rightarrow> hook" where
  "mouth_hook env pc w =
     (let g = w_guards w; r = w_ram w; mouth = reg_x w; slot = reg_y w
      in if pc = 0x02d1ca \<and> gd_collecting_mouths g then leaving 0x02d1f0 (record_body_berry env w)
         else if pc = 0x02baaf \<and> berry_reserved w mouth (joined r 0 8) (joined r 1 9) then leave 0x02babf w
         else if pc = 0x01f78a then map_option (\<lambda>w. (None, w)) (egg_hatched env w)
         else if pc = 0x02ea8a
         then (if mouth \<ge> 12 \<or> slot \<ge> 12 \<or> (r (0x9e + mouth) \<noteq> 0x2d \<and> \<not> (r (0x9e + mouth) = 0x35 \<and> r 0x18e8 \<noteq> 0)) then None
               else if r (0x9e + mouth) = 0x35 then leave 0x02eacd w
               else do { (ok, w) \<leftarrow> mouth_candidate_available env mouth slot w; if ok then pass w else leave 0x02eacd w })
         else if pc = 0x01f58e
         then (if mouth \<ge> 12 \<or> slot \<ge> 12 \<or> r (0x9e + mouth) \<noteq> 0x35 then None
               else do { (ok, w) \<leftarrow> mouth_candidate_available env mouth slot w; if ok then pass w else leave 0x01f609 w })
         else if pc = 0x01f59b \<and> gd_collecting_mouths g \<and> even (unat (r (0x1686 + slot)))
         then leaving 0x01f609 (record_mouth_contact env w)
         else pass w)"

text \<open>A further hit on a boss keeps its puff and its bump.\<close>

definition boss_puff :: "nat \<Rightarrow> World \<Rightarrow> World" where
  "boss_puff projectile = poke8 0x1df9 1 \<circ> poke8 (0x176f + projectile) 15 \<circ> poke8 (0x170b + projectile) 1"

definition fire_hook :: "Env \<Rightarrow> hook" where
  "fire_hook env pc w =
     (let g = w_guards w; slot = reg_x w; projectile = reg_y w
      in if pc = 0x02a3f6 \<and> gd_extended_contact g = 0 then leaving 0x02a468 (collect_extended_contacts env w)
         else if pc = 0x02a40b \<and> gd_extended_query g then leave 0x02a468 (w\<lparr>w_extended_found := True\<rparr>)
         else if (pc = 0x01d3b1 \<or> pc = 0x01fd0a) \<and> gd_boss_fireball g = 0
         then leaving (if pc = 0x01d3b1 then 0x01d40a else 0x01fd4f) (boss_fireball_contacts env pc w)
         else if gd_owned_boss_bank g \<and> (pc = 0x01d3ba \<or> pc = 0x01fd0c) \<and> cpu_Y (w_cpu w) = 10
         then pass (on_regs (cpu_Y_update (\<lambda>_. 9)) w)
         else if (pc = 0x01d3e9 \<or> pc = 0x01fd36) \<and> slot < 12 \<and> projectile < 10
         then damage_once env slot (\<lambda>w. leave (if pc = 0x01d3e9 then 0x01d405 else 0x01fd4a) (boss_puff projectile w)) w
         else if pc = 0x02a0f5 \<and> slot < 12 then damage_once env slot (leave 0x02a143) w
         else if pc = 0x00fea8 \<and> gd_fireball_spawn g = 0 then leaving 0x00feb4 (spawn_owned_fireball env w)
         else if pc = 0x029b0a \<and> gd_extended_call g = 0
         then leaving 0x029b15
                (do { w \<leftarrow> run_owned_fireballs env (on_guards (gd_extended_call_update Suc) w);
                      w \<leftarrow> guest_jsr env 0x029b0a w;
                      Some (on_guards (gd_extended_call_update (\<lambda>n. n - 1)) w) })
         else if pc = 0x00cddd then leave 0x00cddc w
         else if pc = 0x01c5ae \<and> (w_ram w 0x81 \<noteq> 0 \<or> w_ram w 0x7f \<noteq> 0)
         then leave 0x01c5eb (poke8 0x1496 0x18 (poke8 0x71 3 w))
         else pass w)"

definition response_hook :: hook where
  "response_hook pc w =
     (case contact_response_hook pc (reg_x w) w of (place, w) \<Rightarrow> if place \<noteq> 0 then leave place w else pass w)"

definition contact_hook :: "Env \<Rightarrow> hook" where
  "contact_hook env pc w =
     (if (pc = 0x01a7e4 \<or> pc = 0x01c4ac) \<and> gd_contact (w_guards w) = 0
      then do { (taken, w) \<leftarrow> collect_native_contacts env (pc = 0x01c4ac) w;
                if taken then leave (if pc = 0x01a7e4 then 0x01a87c else 0x01c4fa) w else pass w }
      else if pc = 0x01ea70 \<and> gd_mount_draw (w_guards w) = 0 then leave 0x01ea8e w
      else pass w)"

section \<open>Yoshi's sources\<close>

definition terrain_of :: "Env \<Rightarrow> World \<Rightarrow> CoopTerrain" where
  "terrain_of env w = \<lparr>t_ram = w_ram w, t_rom = map (sv_rom env) [0..<0x80000],
     t_session = Some (m_session (w_machine w)), t_entities = []\<rparr>"

definition upd_source :: "nat \<Rightarrow> (CoopYoshiSource \<Rightarrow> CoopYoshiSource) \<Rightarrow> CoopMachine \<Rightarrow> CoopMachine" where
  "upd_source n f m = m\<lparr>m_sources := upd_at n f (m_sources m)\<rparr>"

definition block_base :: "nat \<Rightarrow> nat" where
  "block_base n = n div 16 * 16"

definition grant_source :: "Env \<Rightarrow> World \<Rightarrow> World option" where
  "grant_source env w =
     (let r = w_ram w; m = w_machine w; slot = reg_x w; layer = rd16 r 0x1933;
          x = block_base (rd16 r 0x9a); y = block_base (rd16 r 0x98)
      in if m_level m \<ge> 512 \<or> slot \<ge> 12 then None
         else
           do { tile \<leftarrow> coop_terrain_block (terrain_of env w) layer (int x) (int y);
                (case coop_yoshi_source (sv_alloc env) (m_level m) (of_nat layer) (of_nat x) (of_nat y) (of_nat tile) m of
                   (None, m) \<Rightarrow> None
                 | (Some n, m) \<Rightarrow>
                     let uses = unat (ys_uses (m_sources m ! n)); roster = length (m_actors m);
                         grant = (uses < roster \<and> mount_count r slot < roster);
                         m = (if uses < roster then upd_source n (ys_uses_update (\<lambda>u. u + 1)) m else m)
                     in Some (on_regs (cpu_Y_update (\<lambda>_. if grant then 0 else 1)) (w\<lparr>w_machine := m\<rparr>))) })"

definition open_source :: "World \<Rightarrow> nat option" where
  "open_source w =
     (let r = w_ram w; m = w_machine w
      in find_index (\<lambda>s. ys_level s = m_level m \<and> ys_layer s = of_nat (rd16 r 0x1933) \<and>
           ys_x s = of_nat (block_base (rd16 r 0x0c)) \<and> ys_y s = of_nat (block_base (rd16 r 0x0e)) \<and>
           unat (ys_uses s) < length (m_actors m)) (m_sources m))"

text \<open>The block keeps its tile while some player has not used it.\<close>

definition keep_block :: "nat \<Rightarrow> World \<Rightarrow> World option" where
  "keep_block n w =
     (let r = w_ram w; tile = unat (ys_tile (m_sources (w_machine w) ! n));
          index = rd16 r 0x98 div 16 mod 32 * 16 + rd16 r 0x9a div 16 mod 16;
          lo = rd16 r 0x6b + index; hi = rd16 r 0x6e + index
      in if lo \<ge> 0x10000 \<or> hi \<ge> 0x10000 then None
         else Some (on_regs (cpu_Y_update (\<lambda>_. of_nat (tile * 2)))
                (poke8 (hi + 0x10000) (of_nat (tile div 256)) (poke8 lo (of_nat tile) w))))"

definition source_hook :: "Env \<Rightarrow> hook" where
  "source_hook env pc w =
     (if pc = 0x0289e1 then leaving 0x0289fb (grant_source env w)
      else if (pc = 0x00c0c1 \<or> pc = 0x00c0fb) \<and> (w_ram w 0x9c = 0x0d \<or> w_ram w 0x9c = 0x16)
      then (case open_source w of
              None \<Rightarrow> pass w
            | Some n \<Rightarrow> if pc = 0x00c0c1 then leave 0x00c0c4 w else map_option (\<lambda>w. (None, w)) (keep_block n w))
      else pass w)"

text \<open>A sprite slot that is initialised holds a new entity.\<close>

definition new_sprite :: "Env \<Rightarrow> nat \<Rightarrow> World \<Rightarrow> World option" where
  "new_sprite env slot w =
     do { let grown = (case normal_slot slot w of None \<Rightarrow> False
                       | Some k \<Rightarrow> en_type (entity_at k w) = 0x2d \<and> w_ram w (0x9e + slot) = 0x35);
          let w = (if grown then bind_mount None w else w);
          (k, w) \<leftarrow> normal_entity env slot True w;
          (case w_bound w of
             Some i \<Rightarrow> if w_ram w (0x14c8 + slot) = 0x0b \<and> gd_carried_reward (w_guards w) = 0 then claim_carried k i w else Some w
           | None \<Rightarrow> Some w) }"

definition sprite_hook :: "Env \<Rightarrow> hook" where
  "sprite_hook env pc w =
     (if pc = 0x07f722 \<and> gd_room_sprite (w_guards w) = 0 \<and> reg_x w < 12
      then map_option (\<lambda>w. (None, w)) (new_sprite env (reg_x w) w) else pass w)"

section \<open>Goals\<close>

definition report_exit :: "Env \<Rightarrow> u32 \<Rightarrow> World \<Rightarrow> World option" where
  "report_exit env flags w =
     do { i \<leftarrow> w_bound w; report_event env COOP_EVENT_EXIT (ac_player (actor_at i w)) (of_nat (reg_x w)) 0 flags w }"

definition bonus_entrance :: "World \<Rightarrow> World" where
  "bonus_entrance w =
     on_regs (cpu_Y_update (\<lambda>_. 0x10)) (poke_all [0xdaf, 0xdae, 0xdda, 0x1493] 0 (poke8 0xdb0 0xf0 (poke8 0x1425 0xff w)))"

definition goal_hook :: "Env \<Rightarrow> hook" where
  "goal_hook env pc w =
     (let g = w_guards w
      in if pc = 0x00fb00 \<and> gd_goal_commit g \<and> gd_carried_reward g = 0 then leaving 0x00fb8c (convert_carried_reward env w)
         else if pc = 0x01c0c2 \<and> \<not> gd_goal_query g then leaving 0x01c12c (collect_goal env pc w)
         else if pc = 0x01c0e7 \<and> gd_goal_query g then leaving 0x01c12c (record_goal env w)
         else if pc = 0x018773 \<and> \<not> gd_goal_query g then leaving 0x018788 (collect_goal env pc w)
         else if pc = 0x018778 \<and> gd_goal_query g then leaving 0x018788 (report_exit env 0 w)
         else if pc = 0x01e1c8 then leaving 0x01e23a (collect_keyhole env w)
         else if pc = 0x01e210 \<and> gd_keyhole_query g then leaving 0x01e269 (report_exit env COOP_EVENT_SECRET w)
         else if pc = 0x01e23a \<and> (gd_keyhole_query g \<or> gd_goal_commit g) then leave 0x01e269 w
         else if pc = 0x01c107 \<and> gd_goal_commit g then pass (on_regs (put_carry (w_goal_contact w)) w)
         else if pc = 0x07f252 \<and> gd_goal_commit g then pass (poke8 (0x1594 + reg_x w) (w_goal_height w) w)
         else if pc = 0x02ad22 \<and> gd_frozen_bonus g \<and> w_goal_stars w = 0x50 \<and> w_frozen_score w = 6
         then pass (if reg_y w < 6 \<and> w_ram w (0x16e1 + reg_y w) = 0x0f then w\<lparr>w_frozen_score := reg_y w\<rparr> else w)
         else if pc = 0x02ae38 \<and> gd_settling_bonus g then leave 0x02adc8 w
         else if pc = 0x05cf36 \<and> gd_settling_bonus g then leave 0x05cfe9 w
         else if pc = 0x00c9fe \<and> outcome (m_session (w_machine w)) = COOP_CLEAR \<and> w_ram w 0x1434 \<noteq> 0 \<and>
                 w_ram w 0x1435 = 2 \<and> w_ram w 0x1425 \<noteq> 0
         then pass (bonus_entrance w)
         else if pc = 0x00c915 then map_option (\<lambda>(place, w). (Some place, w)) (follow_victory env w)
         else pass w)"

section \<open>The frame\<close>

definition touch_checkpoint :: "Env \<Rightarrow> World \<Rightarrow> World option" where
  "touch_checkpoint env w =
     do { i \<leftarrow> current_actor w;
          life \<leftarrow> actor_life i w;
          if life = COOP_PLAYING
          then report_event env COOP_EVENT_CHECKPOINT (ac_player (actor_at i w)) COOP_NO_ENTITY
                 (if w_ram w 0x13cd \<noteq> 0 then ucast (w_ram w 0x13bf) + 1 else 0) 0 w
          else Some w }"

text \<open>The room change of the player with precedence counts.\<close>

definition request_room :: "World \<Rightarrow> World option" where
  "request_room w =
     do { i \<leftarrow> current_actor w;
          life \<leftarrow> actor_life i w;
          let player = ac_player (actor_at i w);
          Some (if life = COOP_PLAYING \<and> (w_room_request w = COOP_NO_PLAYER \<or>
                     coop_player_precedes (m_session (w_machine w)) player (w_room_request w))
                then w\<lparr>w_room_request := player\<rparr> else w) }"

definition hold_at_edge :: "World \<Rightarrow> World" where
  "hold_at_edge w =
     (let r = w_ram w; x = int16_of (int (rd16 r 0x94));
          limit = (if odd (unat (r 0x5b)) then 496 else int (unat (r 0x5d)) * 256 - 16)
      in if x < 0 then on_ram (put16 0x94 0) w else if x > limit then on_ram (put16 0x94 limit) w else w)"

definition stage_hook :: "Env \<Rightarrow> hook" where
  "stage_hook env pc w =
     (if pc = 0x00a21b then leave 0x00a242 (party_pause w)
      else if pc = 0x00a28a then map_option (\<lambda>w. (None, w)) (begin_gameplay_stage w)
      else if pc = 0x00f2cd \<and> advancing (m_session (w_machine w)) then map_option (\<lambda>w. (None, w)) (touch_checkpoint env w)
      else if pc = 0x00d273 then leaving 0x00c592 (request_room w)
      else if pc = 0x00f606 \<or> pc = 0x00f60a \<or> pc = 0x00d0b6 then map_option (\<lambda>(place, w). (Some place, w)) (death_hook env pc w)
      else if pc = 0x00e9a1 \<and> w_ram w 0x1411 \<noteq> 0 then leave 0x00e9fb (hold_at_edge w)
      else pass w)"

definition world_hook :: "Env \<Rightarrow> hook" where
  "world_hook env pc w =
     (let g = w_guards w
      in if gd_player g \<noteq> 0 then leave 0 w
         else if pc = 0x00f6db \<and> gd_camera g = 0 then leaving 0x00f628 (run_team_camera env w)
         else if pc = 0x01808c
         then do { w \<leftarrow> prepare_world_contacts w; w \<leftarrow> replenish_placed_eggs env w; pass w }
         else if pc = 0x018127 \<and> gd_sprite g = 0
         then do { (ran, w) \<leftarrow> run_normal_sprite env w; if ran then leave 0x018126 w else pass w }
         else if pc = 0x00e2bd then do { w \<leftarrow> draw_mounts env w; w \<leftarrow> draw_secondary_players env w; pass w }
         else if pc = 0x00c569 then leaving 0x00c592 (run_player_routines env w)
         else pass w)"

definition simulation_hooks :: "Env \<Rightarrow> hook list" where
  "simulation_hooks env =
     [retry_hook, room_hook env, level_hook, solid_hook env, mouth_hook env, fire_hook env, response_hook,
      contact_hook env, source_hook env, sprite_hook env, goal_hook env, stage_hook env, world_hook env]"

definition SmwCoopSimulationHook :: "Env \<Rightarrow> nat \<Rightarrow> World \<Rightarrow> (nat \<times> World) option" where
  "SmwCoopSimulationHook env pc w =
     (if \<not> sv_active env then Some (0, w) else run_hooks (simulation_hooks env) (pc mod 0x800000) w)"

end
