(* ===== verification/Sim_End.thy ===== *)
theory Sim_End
  imports Sim_Hook
begin

unbundle bit_operations_syntax

text \<open>
  \<^verbatim>\<open>SmwCoopSimulationEnd\<close>: the decisions of the session on the frame's events are carried out in the
  game: objects are dropped, a checkpoint or a clear takes effect, players return, the team's death
  ends the attempt.
\<close>

section \<open>Objects, checkpoints\<close>

text \<open>The processor as the routine that is called expects it: 8-bit registers, binary arithmetic.\<close>

definition native_bank :: "Env \<Rightarrow> u8 \<Rightarrow> CpuState \<Rightarrow> CpuState" where
  "native_bank env bank c =
     (sv_p_to_mirrors env (c\<lparr>cpu_P := (cpu_P c OR 0x30) AND 0xf7\<rparr>))\<lparr>cpu_DB := bank, cpu_PB := bank\<rparr>"

definition release_held :: "Env \<Rightarrow> CpuState \<Rightarrow> nat \<Rightarrow> World \<Rightarrow> World option" where
  "release_held env caller slot w =
     do { let input = map (w_ram w) [0x15..<0x19];
          let w = poke8 0x15e9 (of_nat slot) (poke_all [0x18, 0x17, 0x16] 0 (poke8 0x15 4 w));
          let w = on_regs (\<lambda>c. (native_bank env 1 (restore_registers caller c))\<lparr>cpu_D := 0\<rparr>) w;
          let w = on_regs (\<lambda>c. c\<lparr>cpu_X := of_nat slot, cpu_Y := cpu_Y c AND 0xff\<rparr>) w;
          w \<leftarrow> guest_jsr env 0x01a015 w;
          Some (on_ram (poke 0x15 input) w) }"

definition detach_mount :: "CoopAction \<Rightarrow> World \<Rightarrow> World option" where
  "detach_mount action w =
     (case (coop_machine_entity (w_machine w) (a_entity action), coop_machine_actor (w_machine w) (a_player action)) of
        (Some k, Some i) \<Rightarrow>
          let e = entity_at k w
          in if en_flags e = COOP_ENTITY_RIDDEN \<and> en_owner e = a_player action
             then
               let w = on_machine (upd_entity k (\<lambda>e. e\<lparr>en_owner := COOP_NO_PLAYER, en_flags := 0\<rparr>)) w;
                   w = bind_guest i (poke8 (0xc2 + unat (en_slot e)) 0 w)
               in capture i (poke_all [0x188b, 0x187a] 0 w)
             else Some w
      | _ \<Rightarrow> Some w)"

definition drop_object :: "Env \<Rightarrow> CpuState \<Rightarrow> CoopAction \<Rightarrow> World \<Rightarrow> World option" where
  "drop_object env caller action w =
     (case coop_machine_entity (w_machine w) (a_entity action) of
        None \<Rightarrow> Some w
      | Some k \<Rightarrow>
          let e = entity_at k w; slot = unat (en_slot e)
          in if en_owner e \<noteq> a_player action \<or> en_flags e \<noteq> COOP_ENTITY_HELD then Some w
             else
               do { i \<leftarrow> coop_machine_actor (w_machine w) (a_player action);
                    let w = bind_actor (Some i) (bind_guest i w);
                    w \<leftarrow> (if w_ram w (0x14c8 + slot) = 0x0b then release_held env caller slot w else Some w);
                    w \<leftarrow> capture i (poke_all [0x148f, 0x1470] 0 w);
                    Some (case coop_machine_entity (w_machine w) (a_entity action) of
                            None \<Rightarrow> w | Some k \<Rightarrow> on_machine (release_owner k) w) })"

definition apply_drop :: "Env \<Rightarrow> CpuState \<Rightarrow> CoopAction \<Rightarrow> World \<Rightarrow> World option" where
  "apply_drop env caller action w =
     (if a_kind action = COOP_ACTION_DETACH_MOUNT then detach_mount action w
      else if a_kind action = COOP_ACTION_DROP_OBJECT then drop_object env caller action w
      else Some w)"

definition apply_object_drops :: "Env \<Rightarrow> World \<Rightarrow> World option" where
  "apply_object_drops env w =
     do { let caller = w_cpu w;
          let scratch = guest_scratch w;
          let sprite = w_ram w 0x15e9;
          w \<leftarrow> each_do (apply_drop env caller) (actions (m_session (w_machine w))) w;
          let w = on_regs (restore_registers caller) (bind_actor None w);
          let w = poke8 0x15e9 sprite (put_scratch scratch w);
          first \<leftarrow> primary_actor w;
          Some (bind_guest first w) }"

definition checkpoint_actor :: "nat \<Rightarrow> World \<Rightarrow> World option" where
  "checkpoint_actor i w =
     do { j \<leftarrow> player_index i w;
          let p = player_at j w;
          capture i (poke8 0x19 (ucast (power_code (if p_life p = COOP_DYING then COOP_SMALL else p_power p))) (bind_guest i w)) }"

definition has_action :: "CoopActionKind \<Rightarrow> World \<Rightarrow> bool" where
  "has_action kind w \<longleftrightarrow> list_ex (\<lambda>a. a_kind a = kind) (actions (m_session (w_machine w)))"

definition apply_checkpoint :: "World \<Rightarrow> World option" where
  "apply_checkpoint w =
     (if \<not> has_action COOP_ACTION_CHECKPOINT w then Some w
      else
        do { w \<leftarrow> each_do checkpoint_actor (actor_indices w) w;
             first \<leftarrow> primary_actor w;
             Some (bind_guest first w) })"

section \<open>The clear\<close>

definition credit_lives :: "Env \<Rightarrow> World \<Rightarrow> World option" where
  "credit_lives env w =
     (if w_goal_stars w \<noteq> 0x50 then Some w
      else if w_frozen_score w \<ge> 6 then None
      else
        do { let score = w_frozen_score w;
             w \<leftarrow> guest_jsr env 0x02ae03 (on_regs (\<lambda>c. (native_bank env 2 c)\<lparr>cpu_X := of_nat score, cpu_Y := 0x0f\<rparr>) w);
             Some (poke8 (0x16ff + score) 0x29 w) })"

definition credit_star :: "Env \<Rightarrow> nat \<Rightarrow> World \<Rightarrow> (bool \<times> World) option" where
  "credit_star env n w =
     (if w_ram w 0x1900 = 0 then Some (False, w)
      else
        do { w \<leftarrow> guest_jsr env 0x05cf05 (on_regs (\<lambda>c.
                  (sv_p_to_mirrors env (c\<lparr>cpu_P := (cpu_P c OR 0x10) AND 0xd7\<rparr>))
                    \<lparr>cpu_DB := 5, cpu_PB := 5, cpu_X := cpu_X c AND 0xff, cpu_Y := cpu_Y c AND 0xff\<rparr>) w);
             Some (True, w) })"

definition settle_keyhole_bonus :: "Env \<Rightarrow> World \<Rightarrow> World option" where
  "settle_keyhole_bonus env w =
     do { w \<leftarrow> credit_lives env (on_guards (gd_settling_bonus_update (\<lambda>_. True)) w);
          let frame = w_ram w 0x13;
          w \<leftarrow> each_while (credit_star env) [0..<50] (poke8 0x13 (frame AND 0xfc) w);
          let w = on_guards (gd_settling_bonus_update (\<lambda>_. False)) (poke8 0x13 frame w);
          if w_ram w 0x1900 \<noteq> 0 then None else Some w }"

text \<open>The chosen exit's own routine.\<close>

definition run_exit :: "Env \<Rightarrow> CoopAction \<Rightarrow> World \<Rightarrow> (u8 \<times> World) option" where
  "run_exit env exit w =
     (if a_entity exit = COOP_NO_ENTITY then Some (0, w)
      else
        do { let w = poke8 0x15e9 (ucast (a_entity exit)) (on_regs (cpu_X_update (\<lambda>_. ucast (a_entity exit))) w);
             let type = w_ram w (0x9e + unat (a_entity exit));
             if type \<noteq> 0x7b \<and> type \<noteq> 0x4a \<and> type \<noteq> 0x0e then None
             else
               do { w \<leftarrow> guest_jsr env (if type = 0x7b then 0x01c0e7 else if type = 0x4a then 0x018778 else 0x01e210) w;
                    Some (type, w) } })"

text \<open>The reward of a tape that was crossed beside another exit.\<close>

definition run_bonus :: "Env \<Rightarrow> u8 \<Rightarrow> World \<Rightarrow> World option" where
  "run_bonus env type w =
     (if type = 0x7b \<or> \<not> w_goal_contact w then Some w
      else
        do { i \<leftarrow> coop_machine_actor (w_machine w) (w_goal_actor w);
             let goal = unat (w_goal_entity w);
             let w = bind_actor (Some i) (bind_guest i w);
             let w = on_guards (gd_frozen_bonus_update (\<lambda>_. type = 0x0e)) (w\<lparr>w_frozen_score := 6\<rparr>);
             let w = on_regs (\<lambda>c. c\<lparr>cpu_X := of_nat goal, cpu_DB := 1, cpu_PB := 1\<rparr>) w;
             let w = poke8 (0x1602 + goal) (w_ram w (0x1602 + goal) + 1) (poke8 0x15e9 (of_nat goal) w);
             w \<leftarrow> guest_jsr env 0x01c109 w;
             w \<leftarrow> capture i w;
             w \<leftarrow> (if gd_frozen_bonus (w_guards w) then settle_keyhole_bonus env w else Some w);
             Some (on_guards (gd_frozen_bonus_update (\<lambda>_. False)) w) })"

text \<open>The survivor with precedence stands in for a winner that died in the same frame.\<close>

definition clear_anchor :: "nat \<Rightarrow> World \<Rightarrow> nat" where
  "clear_anchor winner w =
     (let precedes = (\<lambda>i j. coop_player_precedes (m_session (w_machine w)) (ac_player (actor_at i w)) (ac_player (actor_at j w)))
      in if actor_life winner w = Some COOP_PLAYING then winner
         else case foldl (\<lambda>best i. if actor_life i w = Some COOP_PLAYING \<and> (case best of None \<Rightarrow> True | Some b \<Rightarrow> precedes i b)
                                   then Some i else best) None (actor_indices w) of
                Some i \<Rightarrow> i | None \<Rightarrow> winner)"

definition revive_at_clear :: "u8 list \<Rightarrow> nat \<Rightarrow> World \<Rightarrow> World option" where
  "revive_at_clear entry i w =
     do { j \<leftarrow> player_index i w;
          let p = player_at j w;
          let returning = (p_life p \<noteq> COOP_PLAYING);
          let power = (if p_life p = COOP_DYING \<or> p_life p = COOP_DEATH_BUBBLE then COOP_SMALL else p_power p);
          let w = bind_image (if returning then entry else ac_guest (actor_at i w)) w;
          let w = put_equipment (p\<lparr>p_power := power\<rparr>) w;
          let w = poke_all [0x1497, 0x1496, 0x1490, 0x78, 0x71] 0 w;
          let w = (if returning
                   then on_machine (on_player j (\<lambda>p. p\<lparr>p_mount := COOP_NO_ENTITY, p_held_object := COOP_NO_ENTITY\<rparr>))
                          (poke_all [0x148f, 0x1471, 0x1470, 0x187a] 0 w)
                   else w);
          capture i (on_machine (on_player j clear_player) w) }"

definition last_exit :: "CoopAction list \<Rightarrow> CoopAction option" where
  "last_exit as = find (\<lambda>a. a_kind a = COOP_ACTION_EXIT) (rev as)"

definition apply_clear :: "Env \<Rightarrow> World \<Rightarrow> World option" where
  "apply_clear env w =
     (case last_exit (actions (m_session (w_machine w))) of
        None \<Rightarrow> Some w
      | Some exit \<Rightarrow>
          if a_entity exit \<noteq> COOP_NO_ENTITY \<and> a_entity exit \<ge> 12 then None
          else
            do { winner \<leftarrow> coop_machine_actor (w_machine w) (a_player exit);
                 let caller = w_cpu w;
                 let scratch = guest_scratch w;
                 let sprite = w_ram w 0x15e9;
                 let w = on_guards (gd_goal_commit_update (\<lambda>_. True)) (bind_actor (Some winner) (bind_guest winner w));
                 let w = on_regs (\<lambda>c. (native_bank env 1 c)\<lparr>cpu_Y := cpu_Y c AND 0xff, cpu_D := 0\<rparr>) w;
                 (type, w) \<leftarrow> run_exit env exit w;
                 w \<leftarrow> capture winner w;
                 w \<leftarrow> run_bonus env type w;
                 let w = bind_actor None (on_guards (gd_goal_commit_update (\<lambda>_. False)) w);
                 let w = poke8 0x15e9 sprite (put_scratch scratch (on_regs (restore_registers caller) w));
                 let entry = ac_guest (actor_at (clear_anchor winner w) w);
                 w \<leftarrow> each_do (revive_at_clear entry) (actor_indices w) w;
                 first \<leftarrow> primary_actor w;
                 Some (bind_guest first w) })"

section \<open>Camera and recovery\<close>

text \<open>The actor comes back with the pose of its anchor and its own equipment.\<close>

definition place_recovered :: "CoopAction \<Rightarrow> World \<Rightarrow> World option" where
  "place_recovered action w =
     (if a_kind action \<noteq> COOP_ACTION_RECOVER then Some w
      else
        do { i \<leftarrow> coop_machine_actor (w_machine w) (a_player action);
             j \<leftarrow> coop_player (m_session (w_machine w)) (a_player action);
             anchor \<leftarrow> coop_machine_actor (w_machine w) (a_value action);
             k \<leftarrow> player_index anchor w;
             let q = player_at k w;
             let star = peeked i 0x1490 w;
             let mount = actor_mount i w;
             let w = bind_mount mount (bind_guest anchor w);
             let w = poke8 0x1490 star (poke8 0x78 0 (poke8 0x188b 0 (poke8 0x187a (if mount \<noteq> None then 1 else 0) w)));
             let w = poke_all [0x148f, 0x1471, 0x1470] 0 w;
             let w = on_machine (on_player j (\<lambda>p. p\<lparr>p_grounded := p_grounded q, p_swimming := p_swimming q,
                       p_behind_fence := p_behind_fence q\<rparr>)) w;
             w \<leftarrow> capture i (on_ram (coop_guest_place_player (player_at j w)) w);
             Some (case mount of None \<Rightarrow> w
                   | Some m \<Rightarrow> put_position (unat (en_slot (entity_at m w))) (rd16 (w_ram w) 0x94) (rd16 (w_ram w) 0x96 + 16) w) })"

definition hide_bubble :: "nat \<Rightarrow> nat \<Rightarrow> World \<Rightarrow> World option" where
  "hide_bubble first i w =
     do { j \<leftarrow> player_index i w;
          let p = player_at j w;
          if p_life p \<noteq> COOP_DEATH_BUBBLE \<and> p_life p \<noteq> COOP_CATCHUP_BUBBLE then Some w
          else
            let w = bind_guest i w;
                w = (if advancing (m_session (w_machine w))
                     then on_ram (\<lambda>r. let r = (if i \<noteq> first then tick_secondary_timers r else r)
                            in if r 0x14 AND 3 = 0 then tick_byte 0x1490 r else r) w
                     else w)
            in capture i (poke8 0x71 0 (poke8 0x78 0xff w)) }"

text \<open>An operation of the session that reports whether it succeeded.\<close>

definition session_step :: "(CoopSession \<Rightarrow> bool \<times> CoopSession) \<Rightarrow> World \<Rightarrow> World option" where
  "session_step f w =
     (case f (m_session (w_machine w)) of (False, s) \<Rightarrow> None | (True, s) \<Rightarrow> Some (on_machine (on_session (\<lambda>_. s)) w))"

definition place_camera :: "Env \<Rightarrow> World \<Rightarrow> World" where
  "place_camera env w =
     (let r = w_ram w; x = int (rd16 r 0x1a)
      in on_machine (on_session (\<lambda>s. s\<lparr>camera := (camera s)\<lparr>
           c_x := word_of_int (x - SmwViewOffset (sv_viewport env) x ((int (unat (r 0x5e)) + 1) * 256)),
           c_y := word_of_int (int16_of (int (rd16 r 0x1c)))\<rparr>\<rparr>)) w)"

definition recovery_terrain :: "Env \<Rightarrow> World \<Rightarrow> CoopTerrain" where
  "recovery_terrain env w = (terrain_of env w)\<lparr>t_entities := m_entities (w_machine w)\<rparr>"

definition recover_and_frame :: "Env \<Rightarrow> World \<Rightarrow> World option" where
  "recover_and_frame env w =
     do { let r = w_ram w;
          let c = camera (m_session (w_machine w));
          let view = (word_of_int (vp_width (sv_viewport env)) :: i32);
          let resized = (c_width c \<noteq> view \<or> c_height c \<noteq> 224);
          let vertical = odd (unat (r 0x5b));
          let screens = (word_of_nat (unat (r 0x5d) * 256) :: i32);
          w \<leftarrow> session_step (coop_camera_frame view 224 (if vertical then 512 else screens) (if vertical then screens else 432)
                  (r 0x1411 = 0)) w;
          let w = place_camera env w;
          let w = (if resized then on_machine coop_machine_refit_view w else w);
          w \<leftarrow> session_step (coop_camera_check_separation (sv_alloc env) resized) w;
          w \<leftarrow> apply_object_drops env w;
          w \<leftarrow> session_step (coop_session_recover (sv_alloc env) (terrain_query (recovery_terrain env w))) w;
          w \<leftarrow> each_do place_recovered (actions (m_session (w_machine w))) w;
          first \<leftarrow> primary_actor w;
          w \<leftarrow> each_do (hide_bubble first) (actor_indices w) w;
          Some (bind_guest first w) }"

section \<open>The end of a frame\<close>

definition scripted_clear :: "Env \<Rightarrow> World \<Rightarrow> World option" where
  "scripted_clear env w =
     (let s = m_session (w_machine w); r = w_ram w
      in if w_end_timer w = 0 \<and> r 0x1493 \<noteq> 0 \<and> outcome s = COOP_CONTINUE
         then report_event env COOP_EVENT_EXIT (if w_scene_request w = COOP_NO_PLAYER then primary s else w_scene_request w)
                COOP_NO_ENTITY 0
                (if r 0x141c \<noteq> 0 \<or> (r 0x13c6 \<noteq> 0 \<and> r 0x13bf = 0x13) then COOP_EVENT_SECRET else 0) w
         else Some w)"

definition leave_room :: "World \<Rightarrow> World option" where
  "leave_room w =
     do { i \<leftarrow> coop_machine_actor (w_machine w) (w_room_request w);
          let w = foldl (\<lambda>w a. poke8 a (peeked i a w) w) w [0x94..<0x98];
          Some (poke8 0x100 0x0f (poke8 0x141a (w_ram w 0x141a + 1) w)) }"

definition kill_survivor :: "nat \<Rightarrow> World \<Rightarrow> World option" where
  "kill_survivor i w =
     do { j \<leftarrow> player_index i w;
          if p_life (player_at j w) \<noteq> COOP_PLAYING then Some w
          else
            let w = on_machine (on_player j (p_life_update (\<lambda>_. COOP_DYING))) (bind_guest i w);
                w = poke8 0x7d 0x90 (poke8 0x1496 0x30 (poke8 0x71 9 w))
            in capture i (poke_all [0x1497, 0x1490, 0x1407, 0x140d, 0x19] 0 w) }"

definition begin_team_death :: "World \<Rightarrow> World option" where
  "begin_team_death w =
     do { w \<leftarrow> each_do kill_survivor (actor_indices w) w;
          first \<leftarrow> primary_actor w;
          Some (poke8 0xdda 0xff (poke8 0x1dfb 9 (bind_guest first w))) }"

text \<open>Nothing that a player owns may be taken into the next attempt.\<close>

function discard_owned :: "nat \<Rightarrow> World \<Rightarrow> World" where
  "discard_owned k w =
     (if k \<ge> length (m_entities (w_machine w)) then w
      else
        let e = entity_at k w
        in if en_owner e = COOP_NO_PLAYER then discard_owned (k + 1) w
           else discard_owned k (on_machine (coop_machine_forget_entity (en_id e))
                  (poke8 ((if en_kind e = COOP_ENTITY_NORMAL then 0x14c8 else 0x170b) + unat (en_slot e)) 0 w)))"
  by pat_completeness auto
termination
proof (relation "measure (\<lambda>(k, w). length (m_entities (w_machine w)) - k)", goal_cases)
  case (3 k w e)
  then show ?case using forget_shrinks [of k "w_machine w"]
    by (auto simp: on_machine_def poke8_def on_ram_def entity_at_def not_le)
qed auto

declare discard_owned.simps [simp del]

definition strip_actor :: "nat \<Rightarrow> World \<Rightarrow> World option" where
  "strip_actor i w =
     (let w = on_machine (upd_actor i (\<lambda>a. a\<lparr>ac_stored_mount := 0, ac_stored_mount_color := 0\<rparr>)) (bind_guest i w)
      in capture i (poke_all [0x1891, 0x13f3, 0x187a, 0x148f, 0x1470] 0 w))"

definition start_over :: "World \<Rightarrow> World" where
  "start_over w =
     (if outcome (m_session (w_machine w)) = COOP_RETRY
      then let a = 0x1ea2 + unat (w_ram w 0x13bf);
               w = (if w_ram w 0x13ce \<noteq> 0 then poke8 a (w_ram w a OR 0x40) w else w)
           in poke8 0x100 0x0f (poke_all [0x1b93, 0x141d, 0x141a] 0 w)
      else poke8 0x100 0x15 (poke8 0x143d 0xff (poke8 0x143c 0xc0 (poke8 0x143b 0x14 (poke8 0x1dfb 10 w)))))"

definition put_lives :: "World \<Rightarrow> World" where
  "put_lives w = poke8 0xdbe (ucast (lives (m_session (w_machine w)) - 1)) w"

definition end_attempt :: "World \<Rightarrow> World option" where
  "end_attempt w =
     do { let w = discard_owned 0 w;
          w \<leftarrow> each_do strip_actor (actor_indices w) w;
          first \<leftarrow> primary_actor w;
          let w = poke8 0xdc1 0 (put_lives (bind_guest first w));
          Some (start_over (poke8 0x0daf 1 (poke8 0x9d 0 w))) }"

definition death_animating :: "World \<Rightarrow> bool" where
  "death_animating w \<longleftrightarrow> list_ex (\<lambda>p. p_life p = COOP_DYING) (players (m_session (w_machine w)))"

text \<open>What the team's outcome does to the game.\<close>

definition team_outcome :: "CoopOutcome \<Rightarrow> World \<Rightarrow> World option" where
  "team_outcome previous w =
     (let s = m_session (w_machine w)
      in if \<not> team_death s
         then Some (if outcome s = COOP_CONTINUE \<and> has_action COOP_ACTION_DEATH w then poke8 0x1df9 0x23 w else w)
         else
           do { w \<leftarrow> (if previous = COOP_CONTINUE then begin_team_death w else Some w);
                let w = put_lives w;
                if death_animating w then Some (poke8 0x9d 1 w) else end_attempt w })"

definition read_counters :: "World \<Rightarrow> World" where
  "read_counters w =
     on_machine (on_session (\<lambda>s. s\<lparr>
       lives := (if outcome s = COOP_CONTINUE \<or> outcome s = COOP_CLEAR then ucast (w_ram w 0xdbe) + 1 else lives s),
       coins := ucast (w_ram w 0xdbf)\<rparr>)) w"

definition SmwCoopSimulationEnd :: "Env \<Rightarrow> World \<Rightarrow> World option" where
  "SmwCoopSimulationEnd env w =
     (if \<not> sv_active env \<or> \<not> w_level_frame w then Some w
      else
        do { first \<leftarrow> primary_actor w;
             w \<leftarrow> capture first w;
             w \<leftarrow> scripted_clear env (read_counters w);
             let previous = outcome (m_session (w_machine w));
             w \<leftarrow> session_step (coop_session_resolve (sv_alloc env)) w;
             w \<leftarrow> apply_object_drops env w;
             w \<leftarrow> apply_checkpoint w;
             w \<leftarrow> apply_clear env w;
             w \<leftarrow> (if outcome (m_session (w_machine w)) \<noteq> COOP_CONTINUE then Some w
                   else if w_room_request w \<noteq> COOP_NO_PLAYER then leave_room w
                   else recover_and_frame env w);
             w \<leftarrow> team_outcome previous w;
             Some ((retire_released_objects w)\<lparr>w_level_frame := False\<rparr>) })"

end
