(* ===== verification/Sim_Guards.thy ===== *)
theory Sim_Guards
  imports Sim_End
begin

text \<open>
  The guards of the simulation are scoped: they say which adapter is on the stack.  When the routines
  of the game leave them alone, so does every operation of the simulation.
\<close>

section \<open>Loops\<close>

lemmas some_conv = Option.bind_eq_Some_conv
lemmas op_simps = Option.bind_eq_Some_conv Let_def
lemmas op_splits = if_split_asm option.split_asm prod.split_asm list.split_asm bool.split_asm

lemma each_keeps:
  assumes "\<And>x w w'. f x w = Some w' \<Longrightarrow> g w' = g w" "each_do f xs w = Some w'"
  shows "g w' = g w"
  using assms(2)
proof (induction xs arbitrary: w)
  case (Cons x xs)
  then obtain v where "f x w = Some v" "each_do f xs v = Some w'" by (auto simp: some_conv)
  with Cons.IH assms(1) show ?case by metis
qed simp

lemma each_while_keeps:
  assumes "\<And>x w b w'. f x w = Some (b, w') \<Longrightarrow> g w' = g w" "each_while f xs w = Some w'"
  shows "g w' = g w"
  using assms(2)
proof (induction xs arbitrary: w)
  case (Cons x xs)
  then obtain b v where v: "f x w = Some (b, v)" "(if b then each_while f xs v else Some v) = Some w'"
    by (auto simp: some_conv)
  with Cons.IH [of v] assms(1) [OF v(1)] show ?case by (cases b) simp_all
qed simp

lemma in_order_keeps:
  assumes "\<And>x w w'. f x w = Some w' \<Longrightarrow> g w' = g w" "in_order f w = Some w'"
  shows "g w' = g w"
proof -
  have "each_ordered f n previous w = Some w' \<Longrightarrow> g w' = g w" for n previous w
  proof (induction n arbitrary: previous w)
    case (Suc n)
    then obtain i v where "f i w = Some v" "each_ordered f n (ac_player (actor_at i w)) v = Some w'"
      by (auto simp: some_conv Let_def)
    with Suc.IH assms(1) show ?case by metis
  qed simp
  with assms(2) show ?thesis by (auto simp: in_order_def)
qed

lemma gather_keeps:
  assumes "\<And>i c w c' w'. f i (c, w) = Some (c', w') \<Longrightarrow> g w' = g w" "gather f is (c, w) = Some (c', w')"
  shows "g w' = g w"
  using assms(2)
proof (induction "is" arbitrary: c w)
  case (Cons i js)
  then obtain d v where "f i (c, w) = Some (d, v)" "gather f js (d, v) = Some (c', w')" by (auto simp: some_conv)
  with Cons.IH assms(1) show ?case by metis
qed simp

section \<open>Steps that leave the guards alone\<close>

lemma guards_steps [simp]:
  "w_guards (on_ram f w) = w_guards w" "w_guards (on_regs h w) = w_guards w"
  "w_guards (on_machine k w) = w_guards w" "w_guards (bind_actor i w) = w_guards w"
  "w_guards (on_guards u w) = u (w_guards w)"
  by (simp_all add: on_ram_def on_regs_def on_machine_def on_guards_def bind_actor_def)

lemma guards_small [simp]:
  "w_guards (poke8 a v w) = w_guards w" "w_guards (poke_all as v w) = w_guards w"
  "w_guards (put_scratch bs w) = w_guards w" "w_guards (bind_image bs w) = w_guards w"
  "w_guards (bind_guest i w) = w_guards w" "w_guards (bind_mount o' w) = w_guards w"
  "w_guards (capture_mount j w) = w_guards w" "w_guards (hide_sprites w) = w_guards w"
  "w_guards (put_oam bs w) = w_guards w" "w_guards (bind_fireball b j w) = w_guards w"
  "w_guards (upd_fireball i j t w) = w_guards w" "w_guards (capture_fireball i j w) = w_guards w"
  "w_guards (put_equipment p w) = w_guards w" "w_guards (put_position s x y w) = w_guards w"
  "w_guards (put_input env p w) = w_guards w" "w_guards (mark_damaged s n w) = w_guards w"
  by (simp_all add: poke8_def poke_all_def put_scratch_def bind_image_def bind_guest_def bind_mount_def
      capture_mount_def hide_sprites_def put_oam_def bind_fireball_def upd_fireball_def capture_fireball_def
      put_equipment_def put_position_def put_input_def mark_damaged_def)

lemma guards_composed [simp]:
  "w_guards (capture_any_mount o' w) = w_guards w" "w_guards (bind_contact i w) = w_guards w"
  "w_guards (restore_contact c bs i w) = w_guards w" "w_guards (hold_transformations w) = w_guards w"
  "w_guards (death_timer i w) = w_guards w" "w_guards (star_palette w) = w_guards w"
  "w_guards (retire_released_objects w) = w_guards w" "w_guards (place_egg s egg w) = w_guards w"
  "w_guards (adopt_level env w) = w_guards w" "w_guards (boss_puff s w) = w_guards w"
  "w_guards (hold_at_edge w) = w_guards w" "w_guards (party_pause w) = w_guards w"
  "w_guards (bonus_entrance w) = w_guards w"
  by (simp_all add: capture_any_mount_def bind_contact_def restore_contact_def hold_transformations_def death_timer_def
      star_palette_def retire_released_objects_def place_egg_def adopt_level_def boss_puff_def hold_at_edge_def
      party_pause_def bonus_entrance_def Let_def split: option.split prod.split)

lemma guards_folds [simp]:
  "w_guards (foldl (\<lambda>w j. bind_fireball (b j w) (s j) w) w js) = w_guards w"
  "w_guards (foldl (\<lambda>w j. capture_fireball i j w) w js) = w_guards w"
  "w_guards (foldl (\<lambda>w c. bind_guest (k c) w) w cs) = w_guards w"
  "w_guards (foldl (\<lambda>w a. poke8 a (v a w) w) w as) = w_guards w"
  subgoal by (induction js arbitrary: w) simp_all
  subgoal by (induction js arbitrary: w) simp_all
  subgoal by (induction cs arbitrary: w) simp_all
  subgoal by (induction as arbitrary: w) simp_all
  done

lemma lend_guards [simp]: "w_guards (fst (foldl (lend_slot i) (w, sh) js)) = w_guards w"
  by (induction js arbitrary: w sh) (simp_all add: lend_slot_def Let_def)

section \<open>Operations\<close>

text \<open>What the routines of the game, the return frames and the bus leave alone.\<close>

definition guests_keep_guards :: "Env \<Rightarrow> bool" where
  "guests_keep_guards env \<longleftrightarrow>
     (\<forall>pc w. w_guards (snd (sv_run env pc w)) = w_guards w) \<and>
     (\<forall>w. w_guards (sv_push_jsr env w) = w_guards w) \<and> (\<forall>w. w_guards (sv_push_jsl env w) = w_guards w) \<and>
     (\<forall>b a v w. w_guards (sv_write8 env b a v w) = w_guards w)"

named_theorems guarded

lemma capture_guards [guarded]: "capture i w = Some w' \<Longrightarrow> w_guards w' = w_guards w"
  by (auto simp: capture_def some_conv)

lemma call_guards [guarded]:
  "guest_call env (sv_push_jsr env) st pc w = Some w' \<Longrightarrow> guests_keep_guards env \<Longrightarrow> w_guards w' = w_guards w"
  "guest_call env (sv_push_jsl env) st pc w = Some w' \<Longrightarrow> guests_keep_guards env \<Longrightarrow> w_guards w' = w_guards w"
  "guest_call env (\<lambda>w. w) st pc w = Some w' \<Longrightarrow> guests_keep_guards env \<Longrightarrow> w_guards w' = w_guards w"
  by (auto simp: guest_call_def guests_keep_guards_def Let_def split: prod.splits if_splits) (metis snd_conv)+

lemma jsr_guards [guarded]:
  "guest_jsr env pc w = Some w' \<Longrightarrow> guests_keep_guards env \<Longrightarrow> w_guards w' = w_guards w"
  unfolding guest_jsr_def by (rule call_guards)

lemma normal_entity_guards [guarded]: "normal_entity env slot r w = Some (k, w') \<Longrightarrow> w_guards w' = w_guards w"
  by (auto simp: normal_entity_def some_conv Let_def split: option.splits prod.splits)

lemma guards_undone [simp]:
  "(\<lambda>n. n - Suc 0) \<circ> Suc = (\<lambda>n. n)" "(\<lambda>n. n - Suc 0) \<circ> (\<lambda>_. Suc m) = (\<lambda>_. m)"
  "gd_player_update (\<lambda>n. n) g = g" "gd_sprite_update (\<lambda>n. n) g = g" "gd_camera_update (\<lambda>n. n) g = g"
  "gd_room_sprite_update (\<lambda>n. n) g = g" "gd_room_load_update (\<lambda>n. n) g = g" "gd_carried_reward_update (\<lambda>n. n) g = g"
  "gd_chuck_update (\<lambda>n. n) g = g" "gd_cape_update (\<lambda>n. n) g = g" "gd_platform_update (\<lambda>n. n) g = g"
  "gd_fireball_spawn_update (\<lambda>n. n) g = g" "gd_extended_call_update (\<lambda>n. n) g = g"
  "gd_mount_draw_update (\<lambda>_. gd_mount_draw g) g = g" "gd_contact_update (\<lambda>_. gd_contact g) g = g"
  "gd_boss_fireball_update (\<lambda>_. gd_boss_fireball g) g = g"
  "gd_extended_contact_update (\<lambda>_. gd_extended_contact g) g = g"
  by (simp_all add: o_def)

lemma guards_cleared [simp]:
  "\<not> gd_spawning_mount g \<Longrightarrow> gd_spawning_mount_update (\<lambda>_. False) g = g"
  "\<not> gd_extended_query g \<Longrightarrow> gd_extended_query_update (\<lambda>_. False) g = g"
  "\<not> gd_collecting_mouths g \<Longrightarrow> gd_collecting_mouths_update (\<lambda>_. False) g = g"
  "\<not> gd_owned_boss_bank g \<Longrightarrow> gd_owned_boss_bank_update (\<lambda>_. False) g = g"
  "\<not> gd_contact_query g \<Longrightarrow> gd_contact_query_update (\<lambda>_. False) g = g"
  "\<not> gd_bounce_only g \<Longrightarrow> gd_bounce_only_update (\<lambda>_. False) g = g"
  "\<not> gd_powerup_query g \<Longrightarrow> gd_powerup_query_update (\<lambda>_. False) g = g"
  "\<not> gd_goal_query g \<Longrightarrow> gd_goal_query_update (\<lambda>_. False) g = g"
  "\<not> gd_keyhole_query g \<Longrightarrow> gd_keyhole_query_update (\<lambda>_. False) g = g"
  by simp_all

lemma guests_keep [simp]:
  assumes "guests_keep_guards env"
  shows "w_guards (sv_push_jsr env w) = w_guards w" "w_guards (sv_push_jsl env w) = w_guards w"
    "w_guards (push_bank env w) = w_guards w"
  using assms by (simp_all add: guests_keep_guards_def push_bank_def)

lemma lend_guarded [guarded]: "foldl (lend_slot i) (w, sh) js = (w', sh') \<Longrightarrow> w_guards w' = w_guards w"
  using lend_guards [of i w sh js] by simp

lemma restore_primary_mount_guards [guarded]:
  "restore_primary_mount w = Some w' \<Longrightarrow> w_guards w' = w_guards w"
  by (auto simp: restore_primary_mount_def op_simps dest!: guarded split: op_splits)

lemma mount_owner_guards [guarded]:
  "mount_owner k i w = Some w' \<Longrightarrow> w_guards w' = w_guards w"
  by (auto simp: mount_owner_def op_simps dest!: guarded split: op_splits)

lemma adopt_mount_guards [guarded]:
  "adopt_mount env l s w = Some w' \<Longrightarrow> guests_keep_guards env \<Longrightarrow> w_guards w' = w_guards w"
  by (auto simp: adopt_mount_def op_simps dest!: guarded split: op_splits)

lemma adopt_mount_loop [guarded]: "each_do (adopt_mount env l) xs w = Some w' \<Longrightarrow> guests_keep_guards env \<Longrightarrow> w_guards w' = w_guards w"
  by (rule each_keeps [of "adopt_mount env l"]) (rule adopt_mount_guards)

lemma adopt_mounts_guards [guarded]:
  "adopt_mounts env w = Some w' \<Longrightarrow> guests_keep_guards env \<Longrightarrow> w_guards w' = w_guards w"
  by (auto simp: adopt_mounts_def op_simps dest!: guarded split: op_splits)

lemma claim_carried_guards [guarded]:
  "claim_carried k i w = Some w' \<Longrightarrow> w_guards w' = w_guards w"
  by (auto simp: claim_carried_def op_simps dest!: guarded split: op_splits)

lemma adopt_placed_egg_guards [guarded]:
  "adopt_placed_egg env k w = Some (b, w') \<Longrightarrow> guests_keep_guards env \<Longrightarrow> w_guards w' = w_guards w"
  by (auto simp: adopt_placed_egg_def op_simps dest!: guarded split: op_splits)

lemma replenish_egg_guards [guarded]:
  "replenish_egg env c bs n w = Some (b, w') \<Longrightarrow> guests_keep_guards env \<Longrightarrow> w_guards w' = w_guards w"
  by (auto simp: replenish_egg_def op_simps dest!: guarded split: op_splits)

lemma replenish_egg_loop [guarded]: "each_while (replenish_egg env c bs) xs w = Some w' \<Longrightarrow> guests_keep_guards env \<Longrightarrow> w_guards w' = w_guards w"
  by (rule each_while_keeps [of "replenish_egg env c bs"]) (rule replenish_egg_guards)

lemma replenish_placed_eggs_guards [guarded]:
  "replenish_placed_eggs env w = Some w' \<Longrightarrow> guests_keep_guards env \<Longrightarrow> w_guards w' = w_guards w"
  by (auto simp: replenish_placed_eggs_def op_simps dest!: guarded split: op_splits)

lemma claim_shot_guards [guarded]:
  "claim_shot i idle sh j w = Some w' \<Longrightarrow> w_guards w' = w_guards w"
  by (auto simp: claim_shot_def op_simps dest!: guarded split: op_splits)

lemma claim_shot_loop [guarded]: "each_do (claim_shot i idle sh) xs w = Some w' \<Longrightarrow> w_guards w' = w_guards w"
  by (rule each_keeps [of "claim_shot i idle sh"]) (rule claim_shot_guards)

lemma spawn_owned_fireball_guards [guarded]:
  assumes "spawn_owned_fireball env w = Some w'" "guests_keep_guards env" shows "w_guards w' = w_guards w"
proof -
  from assms(1) obtain i where i: "current_actor w = Some i" by (auto simp: spawn_owned_fireball_def op_simps)
  obtain v sh where v: "foldl (lend_slot i) (w, []) fireball_slots = (v, sh)" by fastforce
  with assms i show ?thesis by (auto simp: spawn_owned_fireball_def op_simps dest!: guarded)
qed

lemma boss_contact_of_guards [guarded]:
  "boss_contact_of env c bs pc i w = Some w' \<Longrightarrow> guests_keep_guards env \<Longrightarrow> w_guards w' = w_guards w"
  by (auto simp: boss_contact_of_def op_simps dest!: guarded split: op_splits)

lemma boss_contact_of_loop [guarded]: "in_order (boss_contact_of env c bs pc) w = Some w' \<Longrightarrow> guests_keep_guards env \<Longrightarrow> w_guards w' = w_guards w"
  by (rule in_order_keeps [of "boss_contact_of env c bs pc"]) (rule boss_contact_of_guards)

lemma boss_fireball_contacts_guards [guarded]:
  "boss_fireball_contacts env pc w = Some w' \<Longrightarrow> guests_keep_guards env \<Longrightarrow> \<not> gd_owned_boss_bank (w_guards w) \<Longrightarrow> w_guards w' = w_guards w"
  by (auto simp: boss_fireball_contacts_def op_simps dest!: guarded split: op_splits)

lemma run_fireball_guards [guarded]:
  "run_fireball env c bs i j w = Some w' \<Longrightarrow> guests_keep_guards env \<Longrightarrow> w_guards w' = w_guards w"
  by (auto simp: run_fireball_def op_simps dest!: guarded split: op_splits)

lemma run_fireball_loop [guarded]: "each_do (run_fireball env c bs i) xs w = Some w' \<Longrightarrow> guests_keep_guards env \<Longrightarrow> w_guards w' = w_guards w"
  by (rule each_keeps [of "run_fireball env c bs i"]) (rule run_fireball_guards)

lemma run_fireballs_of_guards [guarded]:
  "run_fireballs_of env c bs i w = Some w' \<Longrightarrow> guests_keep_guards env \<Longrightarrow> w_guards w' = w_guards w"
  by (auto simp: run_fireballs_of_def op_simps dest!: guarded split: op_splits)

lemma run_fireballs_of_loop [guarded]: "in_order (run_fireballs_of env c bs) w = Some w' \<Longrightarrow> guests_keep_guards env \<Longrightarrow> w_guards w' = w_guards w"
  by (rule in_order_keeps [of "run_fireballs_of env c bs"]) (rule run_fireballs_of_guards)

lemma run_owned_fireballs_guards [guarded]:
  "run_owned_fireballs env w = Some w' \<Longrightarrow> guests_keep_guards env \<Longrightarrow> w_guards w' = w_guards w"
  by (auto simp: run_owned_fireballs_def op_simps dest!: guarded split: op_splits)

lemma pick_up_all_guards [guarded]: "pick_up_all slots (c, w) = Some (c', w') \<Longrightarrow> w_guards w' = w_guards w"
  by (induction slots arbitrary: c w) (fastforce simp: pick_up_carried_def some_conv split: op_splits)+

lemma put_down_guards [guarded]:
  "put_down env c t w = Some w' \<Longrightarrow> guests_keep_guards env \<Longrightarrow> w_guards w' = w_guards w"
  by (auto simp: put_down_def op_simps dest!: guarded split: op_splits)

lemma put_down_loop [guarded]: "each_do (put_down env c) xs w = Some w' \<Longrightarrow> guests_keep_guards env \<Longrightarrow> w_guards w' = w_guards w"
  by (rule each_keeps [of "put_down env c"]) (rule put_down_guards)

lemma carry_through_room_guards [guarded]:
  "carry_through_room env w = Some w' \<Longrightarrow> guests_keep_guards env \<Longrightarrow> w_guards w' = w_guards w"
  by (auto simp: carry_through_room_def op_simps dest!: guarded split: op_splits)

lemma store_mount_guards [guarded]:
  "store_mount i w = Some w' \<Longrightarrow> w_guards w' = w_guards w"
  by (auto simp: store_mount_def op_simps dest!: guarded split: op_splits)

lemma store_mount_loop [guarded]: "each_do (store_mount) xs w = Some w' \<Longrightarrow> w_guards w' = w_guards w"
  by (rule each_keeps [of "store_mount"]) (rule store_mount_guards)

lemma adopt_campaign_mount_guards [guarded]:
  "adopt_campaign_mount i w = Some w' \<Longrightarrow> w_guards w' = w_guards w"
  by (auto simp: adopt_campaign_mount_def op_simps dest!: guarded split: op_splits)

lemma spawn_stored_mount_guards [guarded]:
  "spawn_stored_mount env c bs st i w = Some w' \<Longrightarrow> guests_keep_guards env \<Longrightarrow> \<not> gd_spawning_mount (w_guards w) \<Longrightarrow> w_guards w' = w_guards w"
  by (auto simp: spawn_stored_mount_def op_simps dest!: guarded split: op_splits)

lemma enter_actor_guards [guarded]:
  "enter_actor env c bs st en al f i w = Some w' \<Longrightarrow> guests_keep_guards env \<Longrightarrow> \<not> gd_spawning_mount (w_guards w) \<Longrightarrow> w_guards w' = w_guards w"
  by (auto simp: enter_actor_def op_simps dest!: guarded split: op_splits)

lemma enter_actor_loop [guarded]:
  "each_do (enter_actor env c bs st en al f) is w = Some w' \<Longrightarrow> guests_keep_guards env \<Longrightarrow>
   \<not> gd_spawning_mount (w_guards w) \<Longrightarrow> w_guards w' = w_guards w"
proof (induction "is" arbitrary: w)
  case (Cons i js)
  then obtain v where v: "enter_actor env c bs st en al f i w = Some v"
    "each_do (enter_actor env c bs st en al f) js v = Some w'" by (auto simp: some_conv)
  with Cons enter_actor_guards [OF v(1)] show ?case by auto
qed simp

lemma load_room_sprites_guards [guarded]:
  "load_room_sprites env w = Some w' \<Longrightarrow> guests_keep_guards env \<Longrightarrow> \<not> gd_spawning_mount (w_guards w) \<Longrightarrow> w_guards w' = w_guards w"
  by (auto simp: load_room_sprites_def op_simps dest!: guarded split: op_splits)

lemma convert_carried_reward_guards [guarded]:
  "convert_carried_reward env w = Some w' \<Longrightarrow> guests_keep_guards env \<Longrightarrow> w_guards w' = w_guards w"
  by (auto simp: convert_carried_reward_def op_simps dest!: guarded split: op_splits)

lemma report_event_guards [guarded]:
  "report_event env k p e v f w = Some w' \<Longrightarrow> w_guards w' = w_guards w"
  by (auto simp: report_event_def op_simps dest!: guarded split: op_splits)

lemma query_goal_guards [guarded]:
  "query_goal env c bs q i w = Some w' \<Longrightarrow> guests_keep_guards env \<Longrightarrow> w_guards w' = w_guards w"
  by (auto simp: query_goal_def op_simps dest!: guarded split: op_splits)

lemma query_goal_loop [guarded]: "each_do (query_goal env c bs q) xs w = Some w' \<Longrightarrow> guests_keep_guards env \<Longrightarrow> w_guards w' = w_guards w"
  by (rule each_keeps [of "query_goal env c bs q"]) (rule query_goal_guards)

lemma collect_goal_guards [guarded]:
  "collect_goal env q w = Some w' \<Longrightarrow> guests_keep_guards env \<Longrightarrow> \<not> gd_goal_query (w_guards w) \<Longrightarrow> w_guards w' = w_guards w"
  by (auto simp: collect_goal_def op_simps dest!: guarded split: op_splits)

lemma record_goal_guards [guarded]:
  "record_goal env w = Some w' \<Longrightarrow> guests_keep_guards env \<Longrightarrow> w_guards w' = w_guards w"
  by (auto simp: record_goal_def op_simps dest!: guarded split: op_splits)

lemma query_keyhole_guards [guarded]:
  "query_keyhole env c bs i w = Some w' \<Longrightarrow> guests_keep_guards env \<Longrightarrow> w_guards w' = w_guards w"
  by (auto simp: query_keyhole_def op_simps dest!: guarded split: op_splits)

lemma query_keyhole_loop [guarded]: "each_do (query_keyhole env c bs) xs w = Some w' \<Longrightarrow> guests_keep_guards env \<Longrightarrow> w_guards w' = w_guards w"
  by (rule each_keeps [of "query_keyhole env c bs"]) (rule query_keyhole_guards)

lemma collect_keyhole_guards [guarded]:
  "collect_keyhole env w = Some w' \<Longrightarrow> guests_keep_guards env \<Longrightarrow> \<not> gd_keyhole_query (w_guards w) \<Longrightarrow> w_guards w' = w_guards w"
  by (auto simp: collect_keyhole_def op_simps dest!: guarded split: op_splits)

lemma follow_victory_guards [guarded]:
  "follow_victory env w = Some (b, w') \<Longrightarrow> guests_keep_guards env \<Longrightarrow> w_guards w' = w_guards w"
  by (auto simp: follow_victory_def op_simps dest!: guarded split: op_splits)

lemma place_actor_guards [guarded]:
  "place_actor en i w = Some w' \<Longrightarrow> w_guards w' = w_guards w"
  by (auto simp: place_actor_def op_simps dest!: guarded split: op_splits)

lemma place_actor_loop [guarded]: "each_do (place_actor en) xs w = Some w' \<Longrightarrow> w_guards w' = w_guards w"
  by (rule each_keeps [of "place_actor en"]) (rule place_actor_guards)

lemma initialize_room_guards [guarded]:
  "initialize_room w = Some w' \<Longrightarrow> w_guards w' = w_guards w"
  by (auto simp: initialize_room_def op_simps dest!: guarded split: op_splits)

lemma begin_frame_guards [guarded]:
  "begin_frame b w = Some w' \<Longrightarrow> w_guards w' = w_guards w"
  by (auto simp: begin_frame_def op_simps dest!: guarded split: op_splits)

lemma begin_gameplay_stage_guards [guarded]:
  "begin_gameplay_stage w = Some w' \<Longrightarrow> w_guards w' = w_guards w"
  by (auto simp: begin_gameplay_stage_def op_simps dest!: guarded split: op_splits)

lemma mouth_candidate_available_guards [guarded]:
  "mouth_candidate_available env m s w = Some (b, w') \<Longrightarrow> w_guards w' = w_guards w"
  by (auto simp: mouth_candidate_available_def op_simps dest!: guarded split: op_splits)

lemma record_body_berry_guards [guarded]:
  "record_body_berry env w = Some w' \<Longrightarrow> w_guards w' = w_guards w"
  by (auto simp: record_body_berry_def op_simps dest!: guarded split: op_splits)

lemma resolve_berry_guards [guarded]:
  "resolve_berry env c n w = Some w' \<Longrightarrow> guests_keep_guards env \<Longrightarrow> w_guards w' = w_guards w"
  by (auto simp: resolve_berry_def op_simps dest!: guarded split: op_splits)

lemma resolve_berry_loop [guarded]: "each_do (resolve_berry env c) xs w = Some w' \<Longrightarrow> guests_keep_guards env \<Longrightarrow> w_guards w' = w_guards w"
  by (rule each_keeps [of "resolve_berry env c"]) (rule resolve_berry_guards)

lemma resolve_body_berries_guards [guarded]:
  "resolve_body_berries env c w = Some w' \<Longrightarrow> guests_keep_guards env \<Longrightarrow> w_guards w' = w_guards w"
  by (auto simp: resolve_body_berries_def op_simps dest!: guarded split: op_splits)

lemma record_mouth_contact_guards [guarded]:
  "record_mouth_contact env w = Some w' \<Longrightarrow> w_guards w' = w_guards w"
  by (auto simp: record_mouth_contact_def op_simps dest!: guarded split: op_splits)

lemma mouth_possible_guards [guarded]:
  "mouth_possible env s c w = Some (b, w') \<Longrightarrow> w_guards w' = w_guards w"
  by (auto simp: mouth_possible_def op_simps dest!: guarded split: op_splits)

lemma mouth_winner_guards [guarded]: "mouth_winner env s cs win w = Some (win', w') \<Longrightarrow> w_guards w' = w_guards w"
  by (induction cs arbitrary: win w) (fastforce simp: some_conv dest!: guarded)+

lemma resolve_mouth_guards [guarded]:
  "resolve_mouth env c s w = Some w' \<Longrightarrow> guests_keep_guards env \<Longrightarrow> w_guards w' = w_guards w"
  by (auto simp: resolve_mouth_def op_simps dest!: guarded split: op_splits)

lemma resolve_mouth_loop [guarded]: "each_do (resolve_mouth env c) xs w = Some w' \<Longrightarrow> guests_keep_guards env \<Longrightarrow> w_guards w' = w_guards w"
  by (rule each_keeps [of "resolve_mouth env c"]) (rule resolve_mouth_guards)

lemma resolve_mouth_contacts_guards [guarded]:
  "resolve_mouth_contacts env c w = Some w' \<Longrightarrow> guests_keep_guards env \<Longrightarrow> w_guards w' = w_guards w"
  by (auto simp: resolve_mouth_contacts_def op_simps dest!: guarded split: op_splits)

lemma draw_mount_guards [guarded]:
  "draw_mount env c bs s w = Some w' \<Longrightarrow> guests_keep_guards env \<Longrightarrow> w_guards w' = w_guards w"
  by (auto simp: draw_mount_def op_simps dest!: guarded split: op_splits)

lemma draw_mount_loop [guarded]: "each_do (draw_mount env c bs) xs w = Some w' \<Longrightarrow> guests_keep_guards env \<Longrightarrow> w_guards w' = w_guards w"
  by (rule each_keeps [of "draw_mount env c bs"]) (rule draw_mount_guards)

lemma draw_mounts_guards [guarded]:
  assumes draw: "draw_mounts env w = Some w'" and keep: "guests_keep_guards env" "\<not> gd_collecting_mouths (w_guards w)"
  shows "w_guards w' = w_guards w"
proof -
  from draw obtain v first where v: "w_guards v = w_guards w"
    and end_: "(if w_ram v 0x187a = 0 then capture first (poke8 0x188b 0 v) else Some v) = Some w'"
    by (simp add: draw_mounts_def op_simps) (use keep in \<open>fastforce dest!: guarded\<close>)
  from end_ have "w_guards w' = w_guards v" by (auto dest: capture_guards split: if_splits)
  with v show ?thesis by simp
qed

lemma draw_player_guards [guarded]:
  "draw_player env c bs f i w = Some w' \<Longrightarrow> guests_keep_guards env \<Longrightarrow> w_guards w' = w_guards w"
  by (auto simp: draw_player_def op_simps dest!: guarded split: op_splits)

lemma draw_player_loop [guarded]: "each_do (draw_player env c bs f) xs w = Some w' \<Longrightarrow> guests_keep_guards env \<Longrightarrow> w_guards w' = w_guards w"
  by (rule each_keeps [of "draw_player env c bs f"]) (rule draw_player_guards)

lemma draw_secondary_players_guards [guarded]:
  "draw_secondary_players env w = Some w' \<Longrightarrow> guests_keep_guards env \<Longrightarrow> w_guards w' = w_guards w"
  by (auto simp: draw_secondary_players_def op_simps dest!: guarded split: op_splits)

lemma run_player_guards [guarded]:
  "run_player env c bs f i w = Some (b, w') \<Longrightarrow> guests_keep_guards env \<Longrightarrow> w_guards w' = w_guards w"
  by (auto simp: run_player_def op_simps dest!: guarded split: op_splits)

lemma run_player_loop [guarded]: "each_while (run_player env c bs f) xs w = Some w' \<Longrightarrow> guests_keep_guards env \<Longrightarrow> w_guards w' = w_guards w"
  by (rule each_while_keeps [of "run_player env c bs f"]) (rule run_player_guards)

lemma run_player_routines_guards [guarded]:
  "run_player_routines env w = Some w' \<Longrightarrow> guests_keep_guards env \<Longrightarrow> w_guards w' = w_guards w"
  by (auto simp: run_player_routines_def op_simps dest!: guarded split: op_splits)

lemma commit_contact_guards [guarded]:
  "commit_contact env s c n en b bo w = Some w' \<Longrightarrow> guests_keep_guards env \<Longrightarrow> \<not> gd_bounce_only (w_guards w) \<Longrightarrow> w_guards w' = w_guards w"
  by (auto simp: commit_contact_def op_simps dest!: guarded split: op_splits)

lemma query_contact_guards [guarded]:
  "query_contact env s c bs cd x y en i (z, w) = Some (z', w') \<Longrightarrow> guests_keep_guards env \<Longrightarrow> w_guards w' = w_guards w"
  by (auto simp: query_contact_def op_simps dest!: guarded split: op_splits)

lemma query_contact_loop [guarded]: "gather (query_contact env s c bs cd x y en) xs (z, w) = Some (z', w') \<Longrightarrow> guests_keep_guards env \<Longrightarrow> w_guards w' = w_guards w"
  by (rule gather_keeps [of "query_contact env s c bs cd x y en"]) (rule query_contact_guards)

lemma bounce_off_guards [guarded]:
  "bounce_off env s c kb wi n w = Some w' \<Longrightarrow> guests_keep_guards env \<Longrightarrow> \<not> gd_bounce_only (w_guards w) \<Longrightarrow> w_guards w' = w_guards w"
  by (auto simp: bounce_off_def op_simps dest!: guarded split: op_splits)

lemma bounce_off_loop [guarded]:
  "each_do (bounce_off env s c kb wi) cs w = Some w' \<Longrightarrow> guests_keep_guards env \<Longrightarrow>
   \<not> gd_bounce_only (w_guards w) \<Longrightarrow> w_guards w' = w_guards w"
proof (induction cs arbitrary: w)
  case (Cons n ns)
  then obtain v where v: "bounce_off env s c kb wi n w = Some v"
    "each_do (bounce_off env s c kb wi) ns v = Some w'" by (auto simp: some_conv)
  with Cons bounce_off_guards [OF v(1)] show ?case by auto
qed simp

lemma side_loop [guarded]:
  "each_do (\<lambda>n. commit_contact env s c n en b bo) cs w = Some w' \<Longrightarrow> guests_keep_guards env \<Longrightarrow>
   \<not> gd_bounce_only (w_guards w) \<Longrightarrow> w_guards w' = w_guards w"
proof (induction cs arbitrary: w)
  case (Cons n ns)
  then obtain v where v: "commit_contact env s c n en b bo w = Some v"
    "each_do (\<lambda>n. commit_contact env s c n en b bo) ns v = Some w'" by (auto simp: some_conv)
  with Cons commit_contact_guards [OF v(1)] show ?case by auto
qed simp

lemma collect_native_contacts_guards [guarded]:
  "collect_native_contacts env p w = Some (b, w') \<Longrightarrow> guests_keep_guards env \<Longrightarrow> \<not> gd_contact_query (w_guards w) \<Longrightarrow> \<not> gd_powerup_query (w_guards w) \<Longrightarrow> \<not> gd_bounce_only (w_guards w) \<Longrightarrow> w_guards w' = w_guards w"
  by (auto simp: collect_native_contacts_def op_simps dest!: guarded split: op_splits)

lemma query_chuck_guards [guarded]:
  "query_chuck env c bs x y i (z, w) = Some (z', w') \<Longrightarrow> guests_keep_guards env \<Longrightarrow> w_guards w' = w_guards w"
  by (auto simp: query_chuck_def op_simps dest!: guarded split: op_splits)

lemma query_chuck_loop [guarded]: "gather (query_chuck env c bs x y) xs (z, w) = Some (z', w') \<Longrightarrow> guests_keep_guards env \<Longrightarrow> w_guards w' = w_guards w"
  by (rule gather_keeps [of "query_chuck env c bs x y"]) (rule query_chuck_guards)

lemma hit_chuck_guards [guarded]:
  "hit_chuck env s c wi n w = Some w' \<Longrightarrow> guests_keep_guards env \<Longrightarrow> w_guards w' = w_guards w"
  by (auto simp: hit_chuck_def op_simps dest!: guarded split: op_splits)

lemma hit_chuck_loop [guarded]: "each_do (hit_chuck env s c wi) xs w = Some w' \<Longrightarrow> guests_keep_guards env \<Longrightarrow> w_guards w' = w_guards w"
  by (rule each_keeps [of "hit_chuck env s c wi"]) (rule hit_chuck_guards)

lemma collect_chuck_contacts_guards [guarded]:
  "collect_chuck_contacts env w = Some w' \<Longrightarrow> guests_keep_guards env \<Longrightarrow> w_guards w' = w_guards w"
  by (auto simp: collect_chuck_contacts_def op_simps dest!: guarded split: op_splits)

lemma cape_contact_guards [guarded]:
  "cape_contact env c bs i w = Some w' \<Longrightarrow> guests_keep_guards env \<Longrightarrow> w_guards w' = w_guards w"
  by (auto simp: cape_contact_def op_simps dest!: guarded split: op_splits)

lemma cape_contact_loop [guarded]: "in_order (cape_contact env c bs) w = Some w' \<Longrightarrow> guests_keep_guards env \<Longrightarrow> w_guards w' = w_guards w"
  by (rule in_order_keeps [of "cape_contact env c bs"]) (rule cape_contact_guards)

lemma run_cape_contacts_guards [guarded]:
  "run_cape_contacts env w = Some w' \<Longrightarrow> guests_keep_guards env \<Longrightarrow> w_guards w' = w_guards w"
  by (auto simp: run_cape_contacts_def op_simps dest!: guarded split: op_splits)

lemma platform_contact_guards [guarded]:
  "platform_contact env c bs i (z, w) = Some (z', w') \<Longrightarrow> guests_keep_guards env \<Longrightarrow> w_guards w' = w_guards w"
  by (auto simp: platform_contact_def op_simps dest!: guarded split: op_splits)

lemma platform_contact_loop [guarded]: "gather (platform_contact env c bs) xs (z, w) = Some (z', w') \<Longrightarrow> guests_keep_guards env \<Longrightarrow> w_guards w' = w_guards w"
  by (rule gather_keeps [of "platform_contact env c bs"]) (rule platform_contact_guards)

lemma run_platform_contacts_guards [guarded]:
  "run_platform_contacts env w = Some (b, w') \<Longrightarrow> guests_keep_guards env \<Longrightarrow> w_guards w' = w_guards w"
  by (auto simp: run_platform_contacts_def op_simps dest!: guarded split: op_splits)

lemma query_extended_guards [guarded]:
  "query_extended env c bs co i (z, w) = Some (z', w') \<Longrightarrow> guests_keep_guards env \<Longrightarrow> w_guards w' = w_guards w"
  by (auto simp: query_extended_def op_simps dest!: guarded split: op_splits)

lemma query_extended_loop [guarded]: "gather (query_extended env c bs co) xs (z, w) = Some (z', w') \<Longrightarrow> guests_keep_guards env \<Longrightarrow> w_guards w' = w_guards w"
  by (rule gather_keeps [of "query_extended env c bs co"]) (rule query_extended_guards)

lemma commit_extended_guards [guarded]:
  "commit_extended env c n w = Some w' \<Longrightarrow> guests_keep_guards env \<Longrightarrow> w_guards w' = w_guards w"
  by (auto simp: commit_extended_def op_simps dest!: guarded split: op_splits)

lemma commit_extended_loop [guarded]: "each_do (commit_extended env c) xs w = Some w' \<Longrightarrow> guests_keep_guards env \<Longrightarrow> w_guards w' = w_guards w"
  by (rule each_keeps [of "commit_extended env c"]) (rule commit_extended_guards)

lemma collect_extended_contacts_guards [guarded]:
  "collect_extended_contacts env w = Some w' \<Longrightarrow> guests_keep_guards env \<Longrightarrow> \<not> gd_extended_query (w_guards w) \<Longrightarrow> w_guards w' = w_guards w"
  by (auto simp: collect_extended_contacts_def op_simps dest!: guarded split: op_splits)

lemma settle_sprite_guards [guarded]:
  "settle_sprite k s i w = Some w' \<Longrightarrow> w_guards w' = w_guards w"
  by (auto simp: settle_sprite_def op_simps dest!: guarded split: op_splits)

lemma settle_mounts_guards [guarded]:
  "settle_mounts k s i b u w = Some w' \<Longrightarrow> w_guards w' = w_guards w"
  by (auto simp: settle_mounts_def op_simps dest!: guarded split: op_splits)

lemma update_sprite_guards [guarded]:
  "update_sprite env k s y b f w = Some w' \<Longrightarrow> guests_keep_guards env \<Longrightarrow> w_guards w' = w_guards w"
  by (auto simp: update_sprite_def op_simps dest!: guarded split: op_splits)

lemma run_normal_sprite_guards [guarded]:
  assumes run: "run_normal_sprite env w = Some (b, w')" and keep: "guests_keep_guards env"
  shows "w_guards w' = w_guards w"
proof (cases "unat (cpu_X (w_cpu w)) mod 256 \<ge> 12 \<or> w_ram w (0x14c8 + unat (cpu_X (w_cpu w)) mod 256) = 0")
  case True
  with run show ?thesis by (auto simp: run_normal_sprite_def Let_def split: if_splits option.splits)
next
  case False
  with run obtain k v ok u
    where k: "normal_entity env (unat (cpu_X (w_cpu w)) mod 256) False w = Some (k, v)"
      and u: "adopt_placed_egg env k v = Some (ok, u)" by (auto simp: run_normal_sprite_def op_simps)
  note same = normal_entity_guards [OF k] adopt_placed_egg_guards [OF u keep]
  consider "\<not> ok \<or> waits_for_rider k u" | "ok" "\<not> waits_for_rider k u" by blast
  then show ?thesis
  proof cases
    case 1
    with run False k u same show ?thesis by (auto simp: run_normal_sprite_def Let_def split: if_splits)
  next
    case 2
    with run False k u same keep show ?thesis by (auto simp: run_normal_sprite_def op_simps dest!: guarded)
  qed
qed

lemma prepare_contacts_of_guards [guarded]:
  "prepare_contacts_of f i w = Some w' \<Longrightarrow> w_guards w' = w_guards w"
  by (auto simp: prepare_contacts_of_def op_simps dest!: guarded split: op_splits)

lemma prepare_contacts_of_loop [guarded]: "each_do (prepare_contacts_of f) xs w = Some w' \<Longrightarrow> w_guards w' = w_guards w"
  by (rule each_keeps [of "prepare_contacts_of f"]) (rule prepare_contacts_of_guards)

lemma prepare_world_contacts_guards [guarded]:
  "prepare_world_contacts w = Some w' \<Longrightarrow> w_guards w' = w_guards w"
  by (auto simp: prepare_world_contacts_def op_simps dest!: guarded split: op_splits)

lemma queue_event_guards [guarded]:
  "queue_event env k p w = Some w' \<Longrightarrow> w_guards w' = w_guards w"
  by (auto simp: queue_event_def op_simps dest!: guarded split: op_splits)

lemma begin_death_guards [guarded]:
  "begin_death env pc i j w = Some (b, w') \<Longrightarrow> w_guards w' = w_guards w"
  by (auto simp: begin_death_def op_simps dest!: guarded split: op_splits)

lemma continue_death_guards [guarded]:
  "continue_death env i j w = Some (b, w') \<Longrightarrow> w_guards w' = w_guards w"
  by (auto simp: continue_death_def op_simps dest!: guarded split: op_splits)

lemma death_hook_guards [guarded]:
  "death_hook env pc w = Some (b, w') \<Longrightarrow> w_guards w' = w_guards w"
  by (auto simp: death_hook_def op_simps dest!: guarded split: op_splits)

lemma run_team_camera_guards [guarded]:
  "run_team_camera env w = Some w' \<Longrightarrow> guests_keep_guards env \<Longrightarrow> w_guards w' = w_guards w"
  by (auto simp: run_team_camera_def op_simps dest!: guarded split: op_splits)

end
