(* ===== verification/Sim_Scopes.thy ===== *)
theory Sim_Scopes
  imports Sim_Guards
begin

text \<open>
  The guards seen from outside: every hook leaves them as it found them, and between the frames none
  is set.
\<close>

section \<open>Hooks\<close>

text \<open>The flags of an adapter are down when its counter is zero, and two adapters that have no counter
are not entered again from within.\<close>

definition settled :: "nat \<Rightarrow> Guards \<Rightarrow> bool" where
  "settled pc g \<longleftrightarrow>
     (gd_contact g = 0 \<longrightarrow> \<not> gd_contact_query g \<and> \<not> gd_powerup_query g \<and> \<not> gd_bounce_only g) \<and>
     (gd_extended_contact g = 0 \<longrightarrow> \<not> gd_extended_query g) \<and> (gd_boss_fireball g = 0 \<longrightarrow> \<not> gd_owned_boss_bank g) \<and>
     (gd_room_load g = 0 \<longrightarrow> \<not> gd_spawning_mount g) \<and> (pc = 0x00e2bd \<longrightarrow> \<not> gd_collecting_mouths g) \<and>
     (pc = 0x01e1c8 \<longrightarrow> \<not> gd_keyhole_query g)"

lemma leaving_guards: "leaving place r = Some (q, w') \<Longrightarrow> r = Some w'"
  by (auto simp: leaving_def)

lemma damage_once_guards [guarded]:
  assumes "damage_once env slot again w = Some (r, w')"
    and again: "\<And>v. again v = Some (r, w') \<Longrightarrow> w_guards w' = w_guards v"
  shows "w_guards w' = w_guards w"
proof -
  from assms(1) obtain k v where k: "normal_entity env slot False w = Some (k, v)"
    and v: "again v = Some (r, w') \<or> w' = mark_damaged slot (en_id (entity_at k v)) v"
    by (cases "normal_entity env slot False w") (auto simp: damage_once_def Let_def split: if_split_asm)
  from v again have "w_guards w' = w_guards v" by auto
  with normal_entity_guards [OF k] show ?thesis by simp
qed

lemma retry_hook_guards: "retry_hook pc w = Some (r, w') \<Longrightarrow> w_guards w' = w_guards w"
  by (auto simp: retry_hook_def op_simps split: op_splits)

lemma room_hook_guards:
  "room_hook env pc w = Some (r, w') \<Longrightarrow> guests_keep_guards env \<Longrightarrow> settled pc (w_guards w) \<Longrightarrow> w_guards w' = w_guards w"
  by (simp add: room_hook_def Let_def settled_def split: if_split_asm option.split_asm)
    (auto dest!: leaving_guards load_room_sprites_guards carry_through_room_guards)

lemma level_hook_guards: "level_hook pc w = Some (r, w') \<Longrightarrow> w_guards w' = w_guards w"
  by (auto simp: level_hook_def split: op_splits)

lemma solid_hook_guards:
  "solid_hook env pc w = Some (r, w') \<Longrightarrow> guests_keep_guards env \<Longrightarrow> w_guards w' = w_guards w"
  by (auto simp: solid_hook_def op_simps dest!: leaving_guards guarded split: op_splits)

lemma egg_hatched_guards [guarded]: "egg_hatched env w = Some w' \<Longrightarrow> w_guards w' = w_guards w"
  by (auto simp: egg_hatched_def op_simps dest!: guarded split: op_splits)

lemma mouth_hook_guards: "mouth_hook env pc w = Some (r, w') \<Longrightarrow> w_guards w' = w_guards w"
  by (auto simp: mouth_hook_def op_simps dest!: leaving_guards guarded split: op_splits)

lemma fire_hook_guards:
  "fire_hook env pc w = Some (r, w') \<Longrightarrow> guests_keep_guards env \<Longrightarrow> settled pc (w_guards w) \<Longrightarrow> w_guards w' = w_guards w"
  by (auto simp: fire_hook_def op_simps settled_def dest!: leaving_guards guarded split: op_splits)

lemma response_hook_guards: "response_hook pc w = Some (r, w') \<Longrightarrow> w_guards w' = w_guards w"
  by (auto simp: response_hook_def contact_response_hook_def Let_def split: op_splits)

lemma contact_hook_guards:
  "contact_hook env pc w = Some (r, w') \<Longrightarrow> guests_keep_guards env \<Longrightarrow> settled pc (w_guards w) \<Longrightarrow> w_guards w' = w_guards w"
  by (auto simp: contact_hook_def op_simps settled_def dest!: guarded split: op_splits)

lemma grant_source_guards [guarded]:
  assumes "grant_source env w = Some w'" shows "w_guards w' = w_guards w"
proof -
  let ?tile = "coop_terrain_block (terrain_of env w) (rd16 (w_ram w) 0x1933)
      (int (block_base (rd16 (w_ram w) 0x9a))) (int (block_base (rd16 (w_ram w) 0x98)))"
  from assms have "?tile \<noteq> None" by (cases ?tile) (simp_all add: grant_source_def Let_def split: if_split_asm)
  with assms show ?thesis by (auto simp: grant_source_def Let_def split: op_splits)
qed

lemma source_hook_guards: "source_hook env pc w = Some (r, w') \<Longrightarrow> w_guards w' = w_guards w"
  by (auto simp: source_hook_def keep_block_def op_simps dest!: leaving_guards guarded split: op_splits)

lemma sprite_hook_guards: "sprite_hook env pc w = Some (r, w') \<Longrightarrow> w_guards w' = w_guards w"
  by (auto simp: sprite_hook_def new_sprite_def op_simps dest!: guarded split: op_splits)

lemma report_exit_guards [guarded]: "report_exit env fl w = Some w' \<Longrightarrow> w_guards w' = w_guards w"
  by (auto simp: report_exit_def op_simps dest!: guarded)

lemma goal_hook_guards:
  "goal_hook env pc w = Some (r, w') \<Longrightarrow> guests_keep_guards env \<Longrightarrow> settled pc (w_guards w) \<Longrightarrow> w_guards w' = w_guards w"
  by (auto simp: goal_hook_def op_simps settled_def dest!: leaving_guards guarded split: op_splits)

lemma stage_hook_guards: "stage_hook env pc w = Some (r, w') \<Longrightarrow> w_guards w' = w_guards w"
  by (auto simp: stage_hook_def touch_checkpoint_def request_room_def op_simps dest!: leaving_guards guarded split: op_splits)

lemma world_hook_guards:
  "world_hook env pc w = Some (r, w') \<Longrightarrow> guests_keep_guards env \<Longrightarrow> settled pc (w_guards w) \<Longrightarrow> w_guards w' = w_guards w"
  by (auto simp: world_hook_def op_simps settled_def dest!: leaving_guards guarded split: op_splits)


lemma run_hooks_guards:
  assumes "\<And>h r w w'. h \<in> set hs \<Longrightarrow> h pc w = Some (r, w') \<Longrightarrow> settled pc (w_guards w) \<Longrightarrow> w_guards w' = w_guards w"
    and "run_hooks hs pc w = Some (place, w')" "settled pc (w_guards w)"
  shows "w_guards w' = w_guards w"
  using assms
proof (induction hs arbitrary: w)
  case (Cons h hs)
  then obtain r v where v: "h pc w = Some (r, v)"
    and rest: "(case r of Some place \<Rightarrow> Some (place, v) | None \<Rightarrow> run_hooks hs pc v) = Some (place, w')"
    by (auto simp: op_simps)
  from v Cons.prems have same: "w_guards v = w_guards w" by auto
  with rest Cons.IH [of v] Cons.prems show ?case by (cases r) auto
qed simp

lemma hook_guards:
  assumes "h \<in> set (simulation_hooks env)" "h pc w = Some (r, w')" "guests_keep_guards env" "settled pc (w_guards w)"
  shows "w_guards w' = w_guards w"
  using assms(1) unfolding simulation_hooks_def list.set
proof (elim insertE emptyE)
  assume "h = retry_hook" with assms show ?thesis by (blast dest: retry_hook_guards)
next
  assume "h = room_hook env" with assms show ?thesis by (blast dest: room_hook_guards)
next
  assume "h = level_hook" with assms show ?thesis by (blast dest: level_hook_guards)
next
  assume "h = solid_hook env" with assms show ?thesis by (blast dest: solid_hook_guards)
next
  assume "h = mouth_hook env" with assms show ?thesis by (blast dest: mouth_hook_guards)
next
  assume "h = fire_hook env" with assms show ?thesis by (blast dest: fire_hook_guards)
next
  assume "h = response_hook" with assms show ?thesis by (blast dest: response_hook_guards)
next
  assume "h = contact_hook env" with assms show ?thesis by (blast dest: contact_hook_guards)
next
  assume "h = source_hook env" with assms show ?thesis by (blast dest: source_hook_guards)
next
  assume "h = sprite_hook env" with assms show ?thesis by (blast dest: sprite_hook_guards)
next
  assume "h = goal_hook env" with assms show ?thesis by (blast dest: goal_hook_guards)
next
  assume "h = stage_hook env" with assms show ?thesis by (blast dest: stage_hook_guards)
next
  assume "h = world_hook env" with assms show ?thesis by (blast dest: world_hook_guards)
qed

lemma hooks_guards:
  assumes hook: "SmwCoopSimulationHook env pc w = Some (place, w')" and keep: "guests_keep_guards env"
    and settled: "settled (pc mod 0x800000) (w_guards w)"
  shows "w_guards w' = w_guards w"
proof (cases "sv_active env")
  case True
  with hook have "run_hooks (simulation_hooks env) (pc mod 0x800000) w = Some (place, w')"
    by (simp add: SmwCoopSimulationHook_def)
  from run_hooks_guards [OF _ this settled] hook_guards [OF _ _ keep] show ?thesis by blast
qed (use hook in \<open>simp add: SmwCoopSimulationHook_def\<close>)

section \<open>The end of a frame\<close>

lemma end_cleared [simp]:
  "\<not> gd_goal_commit g \<Longrightarrow> gd_goal_commit_update (\<lambda>_. False) g = g"
  "\<not> gd_frozen_bonus g \<Longrightarrow> gd_frozen_bonus_update (\<lambda>_. False) g = g"
  "\<not> gd_settling_bonus g \<Longrightarrow> gd_settling_bonus_update (\<lambda>_. False) g = g"
  by simp_all

lemma discard_guards [simp]: "w_guards (discard_owned k w) = w_guards w"
  by (induction k w rule: discard_owned.induct) (subst discard_owned.simps, simp add: Let_def)

lemma end_small [simp]:
  "w_guards (put_lives w) = w_guards w" "w_guards (start_over w) = w_guards w" "w_guards (place_camera env w) = w_guards w"
  "w_guards (read_counters w) = w_guards w"
  by (simp_all add: put_lives_def start_over_def place_camera_def read_counters_def Let_def)

lemma release_held_guards [guarded]:
  "release_held env c s w = Some w' \<Longrightarrow> guests_keep_guards env \<Longrightarrow> w_guards w' = w_guards w"
  by (auto simp: release_held_def op_simps dest!: guarded split: op_splits)

lemma detach_mount_guards [guarded]:
  "detach_mount a w = Some w' \<Longrightarrow> w_guards w' = w_guards w"
  by (auto simp: detach_mount_def op_simps dest!: guarded split: op_splits)

lemma drop_object_guards [guarded]:
  "drop_object env c a w = Some w' \<Longrightarrow> guests_keep_guards env \<Longrightarrow> w_guards w' = w_guards w"
  by (auto simp: drop_object_def op_simps dest!: guarded split: op_splits)

lemma apply_drop_guards [guarded]:
  "apply_drop env c a w = Some w' \<Longrightarrow> guests_keep_guards env \<Longrightarrow> w_guards w' = w_guards w"
  by (auto simp: apply_drop_def op_simps dest!: guarded split: op_splits)

lemma apply_drop_loop [guarded]: "each_do (apply_drop env c) xs w = Some w' \<Longrightarrow> guests_keep_guards env \<Longrightarrow> w_guards w' = w_guards w"
  by (rule each_keeps [of "apply_drop env c"]) (rule apply_drop_guards)

lemma apply_object_drops_guards [guarded]:
  "apply_object_drops env w = Some w' \<Longrightarrow> guests_keep_guards env \<Longrightarrow> w_guards w' = w_guards w"
  by (auto simp: apply_object_drops_def op_simps dest!: guarded split: op_splits)

lemma checkpoint_actor_guards [guarded]:
  "checkpoint_actor i w = Some w' \<Longrightarrow> w_guards w' = w_guards w"
  by (auto simp: checkpoint_actor_def op_simps dest!: guarded split: op_splits)

lemma checkpoint_actor_loop [guarded]: "each_do (checkpoint_actor) xs w = Some w' \<Longrightarrow> w_guards w' = w_guards w"
  by (rule each_keeps [of "checkpoint_actor"]) (rule checkpoint_actor_guards)

lemma apply_checkpoint_guards [guarded]:
  "apply_checkpoint w = Some w' \<Longrightarrow> w_guards w' = w_guards w"
  by (auto simp: apply_checkpoint_def op_simps dest!: guarded split: op_splits)

lemma credit_lives_guards [guarded]:
  "credit_lives env w = Some w' \<Longrightarrow> guests_keep_guards env \<Longrightarrow> w_guards w' = w_guards w"
  by (auto simp: credit_lives_def op_simps dest!: guarded split: op_splits)

lemma credit_star_guards [guarded]:
  "credit_star env n w = Some (b, w') \<Longrightarrow> guests_keep_guards env \<Longrightarrow> w_guards w' = w_guards w"
  by (auto simp: credit_star_def op_simps dest!: guarded split: op_splits)

lemma credit_star_loop [guarded]: "each_while (credit_star env) xs w = Some w' \<Longrightarrow> guests_keep_guards env \<Longrightarrow> w_guards w' = w_guards w"
  by (rule each_while_keeps [of "credit_star env"]) (rule credit_star_guards)

lemma settle_keyhole_bonus_guards [guarded]:
  "settle_keyhole_bonus env w = Some w' \<Longrightarrow> guests_keep_guards env \<Longrightarrow> \<not> gd_settling_bonus (w_guards w) \<Longrightarrow> w_guards w' = w_guards w"
  by (auto simp: settle_keyhole_bonus_def op_simps dest!: guarded split: op_splits)

lemma run_exit_guards [guarded]:
  "run_exit env a w = Some (b, w') \<Longrightarrow> guests_keep_guards env \<Longrightarrow> w_guards w' = w_guards w"
  by (auto simp: run_exit_def op_simps dest!: guarded split: op_splits)

lemma run_bonus_guards [guarded]:
  "run_bonus env t w = Some w' \<Longrightarrow> guests_keep_guards env \<Longrightarrow> \<not> gd_settling_bonus (w_guards w) \<Longrightarrow> \<not> gd_frozen_bonus (w_guards w) \<Longrightarrow> w_guards w' = w_guards w"
  by (auto simp: run_bonus_def op_simps dest!: guarded split: op_splits)

lemma revive_at_clear_guards [guarded]:
  "revive_at_clear en i w = Some w' \<Longrightarrow> w_guards w' = w_guards w"
  by (auto simp: revive_at_clear_def op_simps dest!: guarded split: op_splits)

lemma revive_at_clear_loop [guarded]: "each_do (revive_at_clear en) xs w = Some w' \<Longrightarrow> w_guards w' = w_guards w"
  by (rule each_keeps [of "revive_at_clear en"]) (rule revive_at_clear_guards)

lemma apply_clear_guards [guarded]:
  "apply_clear env w = Some w' \<Longrightarrow> guests_keep_guards env \<Longrightarrow> \<not> gd_goal_commit (w_guards w) \<Longrightarrow> \<not> gd_settling_bonus (w_guards w) \<Longrightarrow> \<not> gd_frozen_bonus (w_guards w) \<Longrightarrow> w_guards w' = w_guards w"
  by (auto simp: apply_clear_def op_simps dest!: guarded split: op_splits)

lemma place_recovered_guards [guarded]:
  "place_recovered a w = Some w' \<Longrightarrow> w_guards w' = w_guards w"
  by (auto simp: place_recovered_def op_simps dest!: guarded split: op_splits)

lemma place_recovered_loop [guarded]: "each_do (place_recovered) xs w = Some w' \<Longrightarrow> w_guards w' = w_guards w"
  by (rule each_keeps [of "place_recovered"]) (rule place_recovered_guards)

lemma hide_bubble_guards [guarded]:
  "hide_bubble f i w = Some w' \<Longrightarrow> w_guards w' = w_guards w"
  by (auto simp: hide_bubble_def op_simps dest!: guarded split: op_splits)

lemma hide_bubble_loop [guarded]: "each_do (hide_bubble f) xs w = Some w' \<Longrightarrow> w_guards w' = w_guards w"
  by (rule each_keeps [of "hide_bubble f"]) (rule hide_bubble_guards)

lemma session_step_guards [guarded]:
  "session_step f w = Some w' \<Longrightarrow> w_guards w' = w_guards w"
  by (auto simp: session_step_def op_simps dest!: guarded split: op_splits)

lemma recover_and_frame_guards [guarded]:
  "recover_and_frame env w = Some w' \<Longrightarrow> guests_keep_guards env \<Longrightarrow> w_guards w' = w_guards w"
  by (auto simp: recover_and_frame_def op_simps dest!: guarded split: op_splits)

lemma scripted_clear_guards [guarded]:
  "scripted_clear env w = Some w' \<Longrightarrow> w_guards w' = w_guards w"
  by (auto simp: scripted_clear_def op_simps dest!: guarded split: op_splits)

lemma leave_room_guards [guarded]:
  "leave_room w = Some w' \<Longrightarrow> w_guards w' = w_guards w"
  by (auto simp: leave_room_def op_simps dest!: guarded split: op_splits)

lemma kill_survivor_guards [guarded]:
  "kill_survivor i w = Some w' \<Longrightarrow> w_guards w' = w_guards w"
  by (auto simp: kill_survivor_def op_simps dest!: guarded split: op_splits)

lemma kill_survivor_loop [guarded]: "each_do (kill_survivor) xs w = Some w' \<Longrightarrow> w_guards w' = w_guards w"
  by (rule each_keeps [of "kill_survivor"]) (rule kill_survivor_guards)

lemma begin_team_death_guards [guarded]:
  "begin_team_death w = Some w' \<Longrightarrow> w_guards w' = w_guards w"
  by (auto simp: begin_team_death_def op_simps dest!: guarded split: op_splits)

lemma strip_actor_guards [guarded]:
  "strip_actor i w = Some w' \<Longrightarrow> w_guards w' = w_guards w"
  by (auto simp: strip_actor_def op_simps dest!: guarded split: op_splits)

lemma strip_actor_loop [guarded]: "each_do (strip_actor) xs w = Some w' \<Longrightarrow> w_guards w' = w_guards w"
  by (rule each_keeps [of "strip_actor"]) (rule strip_actor_guards)

lemma end_attempt_guards [guarded]:
  "end_attempt w = Some w' \<Longrightarrow> w_guards w' = w_guards w"
  by (auto simp: end_attempt_def op_simps dest!: guarded split: op_splits)

lemma team_outcome_guards [guarded]:
  "team_outcome p w = Some w' \<Longrightarrow> w_guards w' = w_guards w"
  by (auto simp: team_outcome_def op_simps dest!: guarded split: op_splits)

section \<open>Frames\<close>

lemma fold_guards: "(\<And>w x. w_guards (f w x) = w_guards w) \<Longrightarrow> w_guards (foldl f w xs) = w_guards w"
  by (induction xs arbitrary: w) simp_all

lemma begin_small [simp]:
  "w_guards (share_buttons env shared w) = w_guards w" "w_guards (adopt_fireball_banks w) = w_guards w"
  subgoal by (simp add: share_buttons_def Let_def)
  subgoal by (auto simp: adopt_fireball_banks_def capture_fireball_def upd_fireball_def intro!: fold_guards)
  done

lemma read_pads_guards [guarded]: "read_pads env is (b, w) = Some (b', w') \<Longrightarrow> w_guards w' = w_guards w"
  by (induction "is" arbitrary: b w) (fastforce simp: read_pad_def op_simps split: op_splits)+

text \<open>No adapter runs.\<close>

definition no_adapter :: "Guards \<Rightarrow> bool" where
  "no_adapter g \<longleftrightarrow>
     gd_player g = 0 \<and> gd_sprite g = 0 \<and> gd_camera g = 0 \<and> gd_room_sprite g = 0 \<and> gd_room_load g = 0 \<and>
     gd_carried_reward g = 0 \<and> gd_mount_draw g = 0 \<and> gd_contact g = 0 \<and> gd_chuck g = 0 \<and> gd_cape g = 0 \<and>
     gd_platform g = 0 \<and> gd_fireball_spawn g = 0 \<and> gd_extended_call g = 0 \<and> gd_boss_fireball g = 0 \<and>
     gd_extended_contact g = 0 \<and> \<not> gd_spawning_mount g \<and> \<not> gd_extended_query g \<and> \<not> gd_collecting_mouths g \<and>
     \<not> gd_owned_boss_bank g \<and> \<not> gd_contact_query g \<and> \<not> gd_bounce_only g \<and> \<not> gd_powerup_query g \<and>
     \<not> gd_goal_query g \<and> \<not> gd_goal_commit g \<and> \<not> gd_keyhole_query g \<and> \<not> gd_frozen_bonus g \<and> \<not> gd_settling_bonus g"

lemma no_adapter_settled: "no_adapter g \<Longrightarrow> settled pc g"
  by (simp add: no_adapter_def settled_def)

lemma fresh_frame_guards: "no_adapter (w_guards w) \<Longrightarrow> no_adapter (w_guards (fresh_frame w))"
  by (simp add: fresh_frame_def no_adapter_def)

lemma SmwCoopSimulationBegin_guards:
  "SmwCoopSimulationBegin env w = Some w' \<Longrightarrow> guests_keep_guards env \<Longrightarrow> w_guards w' = w_guards (fresh_frame w)"
  by (auto simp: SmwCoopSimulationBegin_def op_simps dest!: guarded split: op_splits)

lemma SmwCoopSimulationEnd_guards:
  "SmwCoopSimulationEnd env w = Some w' \<Longrightarrow> guests_keep_guards env \<Longrightarrow> no_adapter (w_guards w) \<Longrightarrow> w_guards w' = w_guards w"
  by (auto simp: SmwCoopSimulationEnd_def no_adapter_def op_simps dest!: guarded split: op_splits)

text \<open>A frame from outside: the simulation begins and ends it, the game runs its own code, which may do
anything to the state but the guards, and comes to the hooks.\<close>

inductive frame_step :: "Env \<Rightarrow> World \<Rightarrow> World \<Rightarrow> bool" for env where
  begins: "SmwCoopSimulationBegin env w = Some w' \<Longrightarrow> frame_step env w w'"
| game: "w_guards w' = w_guards w \<Longrightarrow> frame_step env w w'"
| hook: "SmwCoopSimulationHook env pc w = Some (place, w') \<Longrightarrow> frame_step env w w'"
| ends: "SmwCoopSimulationEnd env w = Some w' \<Longrightarrow> frame_step env w w'"

lemma frame_step_guards:
  "frame_step env w w' \<Longrightarrow> guests_keep_guards env \<Longrightarrow> no_adapter (w_guards w) \<Longrightarrow> no_adapter (w_guards w')"
proof (induction rule: frame_step.induct)
  case (begins w w')
  then show ?case using SmwCoopSimulationBegin_guards fresh_frame_guards by metis
next
  case (hook pc w place w')
  then show ?case using hooks_guards no_adapter_settled by metis
next
  case (ends w w')
  then show ?case using SmwCoopSimulationEnd_guards by metis
qed simp


end
