(* ===== verification/Sim_Order.thy ===== *)
theory Sim_Order
  imports Sim_End Coop_Machine_Facts
begin

text \<open>
  The order of precedence in the simulation: the loop that looks for the next actor after each run
  visits the actors in the order of precedence, and the winner of a contact is the same whatever the
  order of the queries.
\<close>

section \<open>The roster\<close>

text \<open>Who is on the roster, and who comes first.\<close>

definition roster :: "World \<Rightarrow> u32 \<times> u32 list" where
  "roster w = (primary (m_session (w_machine w)), map ac_player (m_actors (w_machine w)))"

text \<open>The key of an actor: the primary player's is least, the others follow by identity.\<close>

definition order_key :: "u32 \<times> u32 list \<Rightarrow> nat \<Rightarrow> nat" where
  "order_key r i = (if snd r ! i = fst r then 0 else Suc (unat (snd r ! i)))"

definition ranked_actors :: "u32 \<times> u32 list \<Rightarrow> nat list" where
  "ranked_actors r = sort_key (order_key r) [0..<length (snd r)]"

text \<open>Players have an identity each, and none has the one that stands for no player.\<close>

definition proper_roster :: "u32 \<times> u32 list \<Rightarrow> bool" where
  "proper_roster r \<longleftrightarrow> distinct (snd r) \<and> COOP_NO_PLAYER \<notin> set (snd r)"

lemma roster_player:
  assumes "i < length (snd (roster w))"
  shows "ac_player (actor_at i w) = snd (roster w) ! i" "ac_player (m_actors (w_machine w) ! i) = snd (roster w) ! i"
  using assms by (simp_all add: roster_def actor_at_def)

lemma precedes_key:
  "i < length (snd (roster w)) \<Longrightarrow> j < length (snd (roster w)) \<Longrightarrow>
   coop_player_precedes (m_session (w_machine w)) (snd (roster w) ! i) (snd (roster w) ! j) \<longleftrightarrow>
     order_key (roster w) i < order_key (roster w) j"
  by (simp add: precedes_rank rank_def order_key_def roster_def)

lemma ranked_set [simp]: "set (ranked_actors r) = {..<length (snd r)}" "length (ranked_actors r) = length (snd r)"
  "distinct (ranked_actors r)"
  by (auto simp: ranked_actors_def)

lemma ranked_strict:
  assumes "proper_roster r" shows "sorted_wrt (\<lambda>i j. order_key r i < order_key r j) (ranked_actors r)"
proof -
  have "inj_on (order_key r) (set (ranked_actors r))"
    using assms by (auto simp: inj_on_def order_key_def proper_roster_def nth_eq_iff_index_eq split: if_splits)
      (metis nth_eq_iff_index_eq word_unat_eq_iff)+
  then have "distinct (map (order_key r) (ranked_actors r))" by (simp add: distinct_map)
  moreover have "sorted (map (order_key r) (ranked_actors r))" by (simp add: ranked_actors_def)
  ultimately have "sorted_wrt (<) (map (order_key r) (ranked_actors r))" by (simp add: strict_sorted_iff)
  then show ?thesis by (simp add: sorted_wrt_map)
qed

lemma choose_least:
  assumes "x \<in> set xs \<or> acc = Some x" "P x" "\<forall>y \<in> set xs. P y \<and> y \<noteq> x \<longrightarrow> before x y \<and> \<not> before y x"
    "acc = None \<or> acc = Some x \<or> (\<exists>a. acc = Some a \<and> before x a)"
  shows "foldl (\<lambda>best i. if \<not> P i then best
      else case best of None \<Rightarrow> Some i | Some j \<Rightarrow> if before i j then Some i else best) acc xs = Some x"
  using assms(1,3,4)
proof (induction xs arbitrary: acc)
  case (Cons y ys)
  show ?case
  proof (cases "y = x \<or> \<not> P y")
    case True
    then show ?thesis using Cons assms(2) by (auto split: option.split)
  next
    case False
    then show ?thesis using Cons assms(2) by (auto split: option.split)
  qed
qed simp

section \<open>The next actor\<close>

lemma next_ordered_actor_step:
  assumes "proper_roster (roster w)" "ranked_actors (roster w) = xs @ i # ys"
    and "previous = (if xs = [] then COOP_NO_PLAYER else snd (roster w) ! last xs)"
  shows "next_ordered_actor previous (w_machine w) = Some i"
proof -
  let ?r = "roster w"
  let ?key = "order_key ?r"
  let ?P = "\<lambda>j. previous = COOP_NO_PLAYER \<or> coop_player_precedes (m_session (w_machine w)) previous (ac_player (m_actors (w_machine w) ! j))"
  have strict: "sorted_wrt (\<lambda>i j. ?key i < ?key j) (xs @ i # ys)" using ranked_strict [OF assms(1)] assms(2) by simp
  have range: "set (xs @ i # ys) = {..<length (snd ?r)}" using ranked_set(1) [of ?r] assms(2) by simp
  have P: "?P j \<longleftrightarrow> xs = [] \<or> ?key (last xs) < ?key j" if "j < length (snd ?r)" for j
  proof (cases "xs = []")
    case False
    then have "last xs \<in> set (xs @ i # ys)" by simp
    then have l: "last xs < length (snd ?r)" unfolding range by simp
    then have "previous \<noteq> COOP_NO_PLAYER" using assms(1,3) False by (metis nth_mem proper_roster_def)
    then show ?thesis using False l that assms(3) by (simp add: precedes_key roster_player)
  qed (use assms(3) in simp)
  have "i \<in> set (xs @ i # ys)" by simp
  then have i: "i < length (snd ?r)" unfolding range by simp
  have after: "?key x < ?key i" if "x \<in> set xs" for x using strict that by (simp add: sorted_wrt_append)
  have Pi: "?P i" unfolding P [OF i] using after [of "last xs"] by (cases "xs = []") simp_all
  have least: "\<forall>y \<in> set [0..<length (snd ?r)]. ?P y \<and> y \<noteq> i \<longrightarrow> ?key i < ?key y"
  proof (intro ballI impI)
    fix y assume y: "y \<in> set [0..<length (snd ?r)]" "?P y \<and> y \<noteq> i"
    then have "y \<in> set (xs @ i # ys)" unfolding range by simp
    with y have "y \<in> set xs \<union> set ys" by auto
    moreover have "y \<notin> set xs"
    proof
      assume m: "y \<in> set xs"
      then have "?key (last xs) < ?key y" using P [of y] y by auto
      moreover have "?key y \<le> ?key (last xs)"
      proof -
        from m obtain zs z where "xs = zs @ [z]" by (cases xs rule: rev_cases) auto
        with m strict show ?thesis by (auto simp: sorted_wrt_append)
      qed
      ultimately show False by simp
    qed
    ultimately show "?key i < ?key y" using strict by (auto simp: sorted_wrt_append)
  qed
  have before: "coop_player_precedes (m_session (w_machine w)) (ac_player (m_actors (w_machine w) ! x)) (ac_player (m_actors (w_machine w) ! y))
      \<longleftrightarrow> ?key x < ?key y" if "x < length (snd ?r)" "y < length (snd ?r)" for x y
    using that by (simp add: roster_player precedes_key)
  have "i \<in> set [0..<length (snd ?r)]" using i by simp
  then have "foldl (\<lambda>best k. if \<not> ?P k then best
      else case best of None \<Rightarrow> Some k
        | Some j \<Rightarrow> if coop_player_precedes (m_session (w_machine w)) (ac_player (m_actors (w_machine w) ! k)) (ac_player (m_actors (w_machine w) ! j))
            then Some k else best) None [0..<length (snd ?r)] = Some i"
    using Pi least i by (intro choose_least [where P = ?P]) (auto simp: before)
  then show ?thesis by (simp add: next_ordered_actor_def Let_def roster_def)
qed

lemma each_ordered_ranked:
  assumes "proper_roster r" "\<And>i w w'. f i w = Some w' \<Longrightarrow> roster w = r \<Longrightarrow> roster w' = r"
  shows "ranked_actors r = xs @ ys \<Longrightarrow> roster w = r \<Longrightarrow>
    each_ordered f (length ys) (if xs = [] then COOP_NO_PLAYER else snd r ! last xs) w = each_do f ys w"
proof (induction ys arbitrary: xs w)
  case (Cons i ys)
  let ?previous = "if xs = [] then COOP_NO_PLAYER else snd r ! last xs"
  have next_: "next_ordered_actor ?previous (w_machine w) = Some i"
    using assms(1) Cons.prems by (intro next_ordered_actor_step [of w xs i ys]) simp_all
  have "i \<in> set (ranked_actors r)" using Cons.prems(1) by simp
  then have "ac_player (actor_at i w) = snd r ! i" using roster_player(1) [of i w] Cons.prems(2) by simp
  moreover have "each_ordered f (length ys) (snd r ! i) v = each_do f ys v" if "f i w = Some v" for v
    using Cons.IH [of "xs @ [i]" v] Cons.prems assms(2) [OF that] by simp
  ultimately show ?case by (cases "f i w") (simp_all add: next_)
qed simp

lemma in_order_ranked:
  assumes "proper_roster (roster w)" "\<And>i u u'. f i u = Some u' \<Longrightarrow> roster u' = roster u"
  shows "in_order f w = each_do f (ranked_actors (roster w)) w"
proof -
  have "each_ordered f (length (ranked_actors (roster w))) COOP_NO_PLAYER w = each_do f (ranked_actors (roster w)) w"
    using each_ordered_ranked [OF assms(1), of f "[]" "ranked_actors (roster w)" w] assms(2) by simp
  then show ?thesis by (simp add: in_order_def roster_def)
qed

section \<open>The winner of a contact\<close>

definition guests_keep_roster :: "Env \<Rightarrow> bool" where
  "guests_keep_roster env \<longleftrightarrow>
     (\<forall>pc w. roster (snd (sv_run env pc w)) = roster w) \<and> (\<forall>w. roster (sv_push_jsr env w) = roster w)"

text \<open>The contacts that only one player can have: all but side hits and bounces.\<close>

definition contested :: "NativeContact \<Rightarrow> bool" where
  "contested c \<longleftrightarrow> nc_kind c \<noteq> CONTACT_SIDE \<and> nc_kind c \<noteq> CONTACT_BOUNCE"

definition contact_key :: "u32 \<times> u32 list \<Rightarrow> NativeContact \<Rightarrow> nat \<times> u64 \<times> nat" where
  "contact_key r c = (if nc_kind c = CONTACT_PICKUP then 0 else 1, nc_distance c, order_key r (nc_actor c))"

definition ahead :: "u32 \<times> u32 list \<Rightarrow> NativeContact \<Rightarrow> NativeContact \<Rightarrow> bool" where
  "ahead r c b \<longleftrightarrow> contact_key r c < contact_key r b"

interpretation contact_selection: selection "ahead r" for r
  by (rule selection_key [where key = "contact_key r"]) (simp add: ahead_def)

lemma contact_wins_ahead:
  assumes "nc_actor c < length (snd (roster w))" "nc_actor b < length (snd (roster w))"
  shows "contact_wins w c (Some b) \<longleftrightarrow> ahead (roster w) c b"
  using assms by (auto simp: contact_wins_def ahead_def contact_key_def less_prod_simp roster_player precedes_key)

lemma pick_snoc:
  "pick better acc (xs @ [x]) =
     (case pick better acc xs of None \<Rightarrow> Some x | Some y \<Rightarrow> if better x y then Some x else Some y)"
  by (induction xs arbitrary: acc) simp_all

lemma roster_steps [simp]:
  "roster (on_ram f w) = roster w" "roster (on_regs h w) = roster w" "roster (on_guards u w) = roster w"
  "roster (bind_actor i w) = roster w" "roster (poke8 a v w) = roster w" "roster (put_scratch bs w) = roster w"
  "roster (bind_contact k w) = roster w" "roster (w\<lparr>w_queried_contact := q\<rparr>) = roster w"
  by (simp_all add: roster_def on_ram_def on_regs_def on_guards_def bind_actor_def poke8_def put_scratch_def bind_contact_def
      bind_guest_def bind_image_def bind_mount_def Let_def)

lemma roster_capture: "capture i w = Some w' \<Longrightarrow> roster w' = roster w"
  by (auto simp: capture_def Option.bind_eq_Some_conv roster_def on_machine_def on_player_def on_session_def upd_player_def
      upd_actor_def map_upd_at_same)

lemma roster_jsr: "guests_keep_roster env \<Longrightarrow> guest_jsr env pc w = Some w' \<Longrightarrow> roster w' = roster w"
  by (auto simp: guest_jsr_def guest_call_def guests_keep_roster_def Let_def split: prod.split_asm if_split_asm) (metis snd_conv)

text \<open>What the queries have found so far.\<close>

definition contacts_ok :: "u32 \<times> u32 list \<Rightarrow> contacts \<times> World \<Rightarrow> bool" where
  "contacts_ok r = (\<lambda>((cs, winner), w). roster w = r \<and> (\<forall>c \<in> set cs. nc_actor c < length (snd r)) \<and>
     winner = pick (ahead r) None (filter contested cs))"

lemma query_contact_ok:
  assumes "guests_keep_roster env" "contacts_ok r st" "i < length (snd r)"
    and "query_contact env slot caller scratch cooldown x y entry i st = Some st'"
  shows "contacts_ok r st'"
proof -
  obtain cs winner w where st: "st = ((cs, winner), w)" by (metis prod.collapse)
  obtain j where j: "player_index i w = Some j" using assms(4) by (auto simp: st query_contact_def Option.bind_eq_Some_conv)
  show ?thesis
  proof (cases "p_life (player_at j w) = COOP_PLAYING")
    case False
    with assms(2,4) j show ?thesis by (simp add: st query_contact_def)
  next
    case True
    with assms(4) j obtain u v where u: "guest_jsr env entry ((bind_contact i (put_scratch scratch (on_regs (restore_registers caller) w)))
        \<lparr>w_queried_contact := CONTACT_NONE\<rparr>) = Some u"
      and v: "capture i (poke8 (0x154c + slot) cooldown u) = Some v"
      by (auto simp: st query_contact_def Option.bind_eq_Some_conv Let_def)
    from roster_jsr [OF assms(1) u] roster_capture [OF v] assms(2) have rv: "roster v = r" by (simp add: st contacts_ok_def)
    let ?c = "\<lparr>nc_actor = i, nc_kind = w_queried_contact v, nc_distance = squared x y (player_at j v), nc_scratch = guest_scratch v\<rparr>"
    have wins: "contact_wins v ?c winner = (case winner of None \<Rightarrow> True | Some b \<Rightarrow> ahead r ?c b)"
    proof (cases winner)
      case (Some b)
      then have "pick (ahead r) None (filter contested cs) = Some b" using assms(2) by (simp add: st contacts_ok_def)
      from contact_selection.pick_best [OF this] have "nc_actor b < length (snd r)" using assms(2) by (auto simp: st contacts_ok_def)
      then show ?thesis using Some contact_wins_ahead [of ?c v b] rv assms(3) by simp
    qed (simp add: contact_wins_def)
    have st': "st' = (if w_queried_contact v = CONTACT_NONE then ((cs, winner), v)
        else if \<not> contested ?c then ((cs @ [?c], winner), v)
        else ((cs @ [?c], if contact_wins v ?c winner then Some ?c else winner), v))"
      using assms(4) j True u v by (auto simp: st query_contact_def Let_def contested_def split: if_split_asm)
    show ?thesis
      using assms(2,3) rv wins by (auto simp: st' st contacts_ok_def pick_snoc split: option.split)
  qed
qed

lemma gather_ok:
  "gather (query_contact env slot caller scratch cooldown x y entry) is st = Some st' \<Longrightarrow> guests_keep_roster env \<Longrightarrow>
   contacts_ok r st \<Longrightarrow> \<forall>i \<in> set is. i < length (snd r) \<Longrightarrow> contacts_ok r st'"
proof (induction "is" arbitrary: st)
  case (Cons i js)
  then obtain v where v: "query_contact env slot caller scratch cooldown x y entry i st = Some v"
    "gather (query_contact env slot caller scratch cooldown x y entry) js v = Some st'" by (auto simp: Option.bind_eq_Some_conv)
  from Cons.prems(2-4) have "contacts_ok r v" by (intro query_contact_ok [OF _ _ _ v(1)]) simp_all
  with Cons.IH [OF v(2)] Cons.prems(2,4) show ?case by simp
qed simp

text \<open>
  C12. The loops over the actors in the order of precedence, which search for the next actor after every
  run, do exactly what one pass over the sorted roster does: every actor once, the primary player
  first, then by identity, as long as a run does not change the roster.\<close>

theorem in_order_sorted:
  assumes "proper_roster (roster w)" "\<forall>i u u'. f i u = Some u' \<longrightarrow> roster u' = roster u"
  shows "in_order f w = each_do f (ranked_actors (roster w)) w"
  using in_order_ranked [OF assms(1)] assms(2) by blast

text \<open>
  C7. Of all players whom a query finds in contact with an enemy or an item, the one that gets it
  grabs it if anybody does, is nearest among those, and precedes the others at the same distance;
  nobody gets it only if all contacts are side hits and bounces.\<close>

theorem contact_winner_best:
  assumes "guests_keep_roster env"
    and "gather (query_contact env slot caller scratch cooldown x y entry) (actor_indices w) (([], None), w) = Some ((cs, winner), w')"
  shows "case winner of
      None \<Rightarrow> \<forall>c \<in> set cs. \<not> contested c
    | Some b \<Rightarrow> b \<in> set cs \<and> contested b \<and> (\<forall>c \<in> set cs. contested c \<longrightarrow> contact_key (roster w) b \<le> contact_key (roster w) c)"
proof -
  have "contacts_ok (roster w) (([], None), w)" by (simp add: contacts_ok_def)
  from gather_ok [OF assms(2,1) this] have ok: "contacts_ok (roster w) ((cs, winner), w')"
    by (simp add: actor_indices_def roster_def)
  then have winner: "pick (ahead (roster w)) None (filter contested cs) = winner" by (simp add: contacts_ok_def)
  show ?thesis
  proof (cases winner)
    case None
    with winner contact_selection.pick_None show ?thesis by (auto simp: filter_empty_conv)
  next
    case (Some b)
    with winner contact_selection.pick_best [of "roster w" "filter contested cs" b] show ?thesis
      by (auto simp: ahead_def not_less)
  qed
qed

end
