(* ===== verification/Sim_Removal.thy ===== *)
theory Sim_Removal
  imports Sim_End Coop_Machine_Facts
begin

unbundle bit_operations_syntax

text \<open>
  The two loops that remove entities while they go over the table: the end of an attempt removes what
  players own, the end of a frame what the game has freed.  Each steps back over the element that
  took the removed one's place.
\<close>

lemma forget_here:
  assumes "i < length (m_entities m)" "distinct (map en_id (m_entities m))"
  shows "m_entities (coop_machine_forget_entity (en_id (m_entities m ! i)) m) = swap_remove i (m_entities m)"
proof -
  from assms(1) obtain k where k: "coop_machine_entity m (en_id (m_entities m ! i)) = Some k"
    by (cases "coop_machine_entity m (en_id (m_entities m ! i))") (auto simp: coop_machine_entity_def find_index_None)
  with entity_index [OF k] assms have "k = i" by (auto simp: distinct_conv_nth)
  with k show ?thesis by (simp add: coop_machine_forget_entity_def)
qed

lemma forget_length:
  assumes "i < length (m_entities m)"
  shows "length (m_entities (coop_machine_forget_entity (en_id (m_entities m ! i)) m)) = length (m_entities m) - 1"
proof -
  from assms obtain k where "coop_machine_entity m (en_id (m_entities m ! i)) = Some k"
    by (cases "coop_machine_entity m (en_id (m_entities m ! i))") (auto simp: coop_machine_entity_def find_index_None)
  then show ?thesis by (simp add: coop_machine_forget_entity_def swap_remove_def)
qed

lemma swap_remove_before: "j < i \<Longrightarrow> i < length xs \<Longrightarrow> swap_remove i xs ! j = xs ! j"
  by (simp add: swap_remove_def nth_butlast)

section \<open>The end of an attempt\<close>

text \<open>One round of the loop, over the counter and the state.\<close>

definition discard_round :: "nat \<times> World \<Rightarrow> nat \<times> World" where
  "discard_round = (\<lambda>(k, w).
     let e = entity_at k w
     in if en_owner e = COOP_NO_PLAYER then (k + 1, w)
        else (k, on_machine (coop_machine_forget_entity (en_id e))
                (poke8 ((if en_kind e = COOP_ENTITY_NORMAL then 0x14c8 else 0x170b) + unat (en_slot e)) 0 w)))"

lemma machine_poke [simp]: "w_machine (poke8 a v w) = w_machine w" "w_machine (on_machine f w) = f (w_machine w)"
  by (simp_all add: poke8_def on_ram_def on_machine_def)

lemma entity_poke [simp]: "entity_at k (poke8 a v w) = entity_at k w"
  by (simp add: entity_at_def)

lemma discard_rounds:
  "(discard_round ^^ (length (m_entities (w_machine w)) - k)) (k, w) =
     (if k < length (m_entities (w_machine w)) then length (m_entities (w_machine (discard_owned k w))) else k, discard_owned k w)"
proof (induction k w rule: discard_owned.induct)
  case (1 k w)
  show ?case
  proof (cases "k < length (m_entities (w_machine w))")
    case False
    then show ?thesis by (subst (2) discard_owned.simps) (simp add: discard_owned.simps [of k w])
  next
    case True
    then have n: "length (m_entities (w_machine w)) - k = Suc (length (m_entities (w_machine w)) - Suc k)" by simp
    let ?e = "entity_at k w"
    let ?v = "on_machine (coop_machine_forget_entity (en_id ?e))
      (poke8 ((if en_kind ?e = COOP_ENTITY_NORMAL then 0x14c8 else 0x170b) + unat (en_slot ?e)) 0 w)"
    show ?thesis
    proof (cases "en_owner ?e = COOP_NO_PLAYER")
      case owned: True
      have "discard_owned k w = discard_owned (k + 1) w" using True owned by (subst discard_owned.simps) (simp add: Let_def)
      moreover have "discard_round (k, w) = (k + 1, w)" using owned by (simp add: discard_round_def Let_def)
      ultimately show ?thesis using 1(1) [OF _ refl] True owned
        by (auto simp: n funpow_Suc_right discard_owned.simps simp del: funpow.simps)
    next
      case other: False
      have "discard_owned k w = discard_owned k ?v" using True other by (subst discard_owned.simps) (simp add: Let_def)
      moreover have "discard_round (k, w) = (k, ?v)" using other by (simp add: discard_round_def Let_def)
      moreover have "length (m_entities (w_machine ?v)) = length (m_entities (w_machine w)) - 1"
        using forget_length [of k "w_machine w"] True by (simp add: entity_at_def)
      ultimately show ?thesis using 1(2) [OF _ refl] True other
        by (auto simp: n funpow_Suc_right discard_owned.simps simp del: funpow.simps)
    qed
  qed
qed

text \<open>What the whole loop leaves: the entities that nobody owns.\<close>

lemma discard_keeps_ok: "machine_ok (w_machine w) \<Longrightarrow> machine_ok (w_machine (discard_owned k w))"
proof (induction k w rule: discard_owned.induct)
  case (1 k w)
  then show ?case by (subst discard_owned.simps) (auto simp: Let_def forget_keeps)
qed

lemma discard_entities:
  assumes "machine_ok (w_machine w)" "\<forall>j < k. j < length (m_entities (w_machine w)) \<longrightarrow> en_owner (m_entities (w_machine w) ! j) = COOP_NO_PLAYER"
  shows "set (m_entities (w_machine (discard_owned k w))) = {e \<in> set (m_entities (w_machine w)). en_owner e = COOP_NO_PLAYER}"
  using assms
proof (induction k w rule: discard_owned.induct)
  case (1 k w)
  let ?es = "m_entities (w_machine w)"
  show ?case
  proof (cases "k < length ?es")
    case False
    with 1(4) show ?thesis by (subst discard_owned.simps) (auto simp: in_set_conv_nth)
  next
    case True
    let ?e = "entity_at k w"
    show ?thesis
    proof (cases "en_owner ?e = COOP_NO_PLAYER")
      case owned: True
      have "\<forall>j < k + 1. j < length ?es \<longrightarrow> en_owner (?es ! j) = COOP_NO_PLAYER"
        using 1(4) owned by (auto simp: less_Suc_eq entity_at_def)
      with 1(1) [OF _ refl] True owned 1(3) show ?thesis by (subst discard_owned.simps) (simp add: Let_def)
    next
      case other: False
      let ?m = "coop_machine_forget_entity (en_id ?e) (w_machine w)"
      have d: "distinct (map en_id ?es)" using 1(3) by (rule ok_distinct)
      have es: "m_entities ?m = swap_remove k ?es" using forget_here [OF True d] by (simp add: entity_at_def)
      have "\<forall>j < k. j < length (m_entities ?m) \<longrightarrow> en_owner (m_entities ?m ! j) = COOP_NO_PLAYER"
        using 1(4) True by (simp add: es swap_remove_before length_swap_remove)
      moreover have "{e \<in> set (m_entities ?m). en_owner e = COOP_NO_PLAYER} = {e \<in> set ?es. en_owner e = COOP_NO_PLAYER}"
        unfolding es set_swap_remove [OF True] using other by (auto simp: entity_at_def)
      moreover have "discard_owned k w = discard_owned k (on_machine (coop_machine_forget_entity (en_id ?e))
          (poke8 ((if en_kind ?e = COOP_ENTITY_NORMAL then 0x14c8 else 0x170b) + unat (en_slot ?e)) 0 w))"
        using True other by (subst discard_owned.simps) (simp add: Let_def)
      ultimately show ?thesis using 1(2) [OF _ refl] True other forget_keeps [OF 1(3)] by simp
    qed
  qed
qed

section \<open>The actors after an attempt\<close>

lemma read_player_links:
  "coop_guest_read_player p r = Some q \<Longrightarrow> p_held_object q = p_held_object p \<and> p_mount q = p_mount p"
  by (auto simp: coop_guest_read_player_def Let_def split: option.split_asm)

lemma links_upd_player:
  assumes "links_live m" "p_held_object (f p) = p_held_object p" "p_mount (f p) = p_mount p" "p = players (m_session m) ! j"
    "j < length (players (m_session m))"
  shows "links_live (on_player j f m)"
  using assms by (auto simp: links_live_def on_player_def on_session_def upd_player_def upd_at_def live_def
      dest!: set_update_subset_insert [THEN subsetD] split: if_splits)

lemma strip_actor_machine:
  assumes "strip_actor i w = Some w'" "machine_ok (w_machine w)"
  shows "machine_ok (w_machine w') \<and> m_entities (w_machine w') = m_entities (w_machine w)"
proof -
  define v where "v = poke_all [0x1891, 0x13f3, 0x187a, 0x148f, 0x1470] 0
    (on_machine (upd_actor i (\<lambda>a. a\<lparr>ac_stored_mount := 0, ac_stored_mount_color := 0\<rparr>)) (bind_guest i w))"
  have v: "w_machine v = upd_actor i (\<lambda>a. a\<lparr>ac_stored_mount := 0, ac_stored_mount_color := 0\<rparr>) (w_machine w)"
    by (simp add: v_def poke_all_def on_ram_def on_machine_def bind_guest_def bind_image_def)
  from assms(1) have "capture i v = Some w'" by (simp add: strip_actor_def v_def Let_def)
  then obtain j p where j: "player_index i v = Some j" and p: "coop_guest_read_player (player_at j v) (w_ram v) = Some p"
    and w': "w' = on_machine (on_player j (\<lambda>_. p) \<circ> upd_actor i (ac_guest_update (\<lambda>_. coop_guest_capture (w_ram v)))) v"
    by (auto simp: capture_def Option.bind_eq_Some_conv)
  from j have less: "j < length (players (m_session (w_machine v)))"
    by (auto simp: player_index_def coop_player_def)
  let ?m = "upd_actor i (ac_guest_update (\<lambda>_. coop_guest_capture (w_ram v))) (w_machine v)"
  have same: "m_session ?m = m_session (w_machine w)" "m_entities ?m = m_entities (w_machine w)" "m_sources ?m = m_sources (w_machine w)"
    "m_placed_eggs ?m = m_placed_eggs (w_machine w)" "m_next_entity ?m = m_next_entity (w_machine w)"
    by (simp_all add: upd_actor_def v)
  have "links_live ?m" using assms(2) by (simp add: machine_ok_def links_live_def live_def same)
  then have "links_live (on_player j (\<lambda>_. p) ?m)"
    using read_player_links [OF p] less by (intro links_upd_player [OF _ _ _ refl]) (simp_all add: same v player_at_def upd_actor_def)
  with assms(2) same show ?thesis
    by (simp add: w' machine_ok_def entity_table_def on_player_def on_session_def)
qed

lemma strip_all_machine:
  "each_do strip_actor is w = Some w' \<Longrightarrow> machine_ok (w_machine w) \<Longrightarrow>
   machine_ok (w_machine w') \<and> m_entities (w_machine w') = m_entities (w_machine w)"
proof (induction "is" arbitrary: w)
  case (Cons i js)
  then obtain v where "strip_actor i w = Some v" "each_do strip_actor js v = Some w'"
    by (auto simp: Option.bind_eq_Some_conv)
  with Cons strip_actor_machine show ?case by metis
qed simp

lemma end_attempt_machine:
  assumes "end_attempt w = Some w'" "machine_ok (w_machine w)"
  shows "machine_ok (w_machine w') \<and> m_entities (w_machine w') = m_entities (w_machine (discard_owned 0 w))"
proof -
  from assms(1) obtain v where v: "each_do strip_actor (actor_indices (discard_owned 0 w)) (discard_owned 0 w) = Some v"
    and w': "w_machine w' = w_machine v"
    by (auto simp: end_attempt_def Let_def Option.bind_eq_Some_conv start_over_def put_lives_def poke_all_def on_ram_def poke8_def
        bind_guest_def bind_image_def)
  from strip_all_machine [OF v discard_keeps_ok [OF assms(2)]] show ?thesis by (simp add: w')
qed

section \<open>The end of a frame\<close>

text \<open>An entity that the game has not freed, and that nobody holds unless the game says it is carried.\<close>

definition settled_entity :: "mem \<Rightarrow> CoopEntity \<Rightarrow> bool" where
  "settled_entity r e \<longleftrightarrow> en_kind e = COOP_ENTITY_NORMAL \<longrightarrow>
     r (0x14c8 + unat (en_slot e)) \<noteq> 0 \<and>
     (r (0x14c8 + unat (en_slot e)) \<noteq> 0x0b \<longrightarrow> en_flags e AND (COOP_ENTITY_HELD OR COOP_ENTITY_ATTACHED) = 0)"

text \<open>What does not change when an entity is let go.\<close>

definition kept_entity :: "CoopEntity \<Rightarrow> CoopEntity \<Rightarrow> bool" where
  "kept_entity d e \<longleftrightarrow> en_id d = en_id e \<and> en_kind d = en_kind e \<and> en_slot d = en_slot e \<and> en_type d = en_type e"

lemma release_owner_entities:
  "m_entities (release_owner i m) = upd_at i (\<lambda>e. e\<lparr>en_owner := COOP_NO_PLAYER, en_flags := 0\<rparr>) (m_entities m)"
  by (simp add: release_owner_def Let_def upd_entity_def on_player_def on_session_def split: option.split)

lemma release_owner_keeps:
  assumes "machine_ok m" "i < length (m_entities m)" shows "machine_ok (release_owner i m)"
proof -
  let ?e = "m_entities m ! i"
  let ?es = "upd_at i (\<lambda>e. e\<lparr>en_owner := COOP_NO_PLAYER, en_flags := 0\<rparr>) (m_entities m)"
  have maps: "map en_id ?es = map en_id (m_entities m)" "map place_of ?es = map place_of (m_entities m)"
    using assms(2) by (simp_all add: upd_at_def map_update place_of_def list_update_same_conv)
  have ids: "live (release_owner i m) j = live m j" for j
    using arg_cong [OF maps(1), of set] by (simp add: live_def release_owner_entities)
  have rest: "m_sources (release_owner i m) = m_sources m" "m_placed_eggs (release_owner i m) = m_placed_eggs m"
    "m_next_entity (release_owner i m) = m_next_entity m"
    by (simp_all add: release_owner_def Let_def upd_entity_def on_player_def on_session_def split: option.split)
  have table: "entity_table (release_owner i m)"
  proof -
    have "\<forall>e \<in> set ?es. \<exists>d \<in> set (m_entities m). kept_entity e d"
      using assms(2) by (auto simp: upd_at_def kept_entity_def place_of_def dest!: set_update_subset_insert [THEN subsetD])
    then show ?thesis using assms(1)
      unfolding entity_table_def machine_ok_def release_owner_entities maps rest kept_entity_def by metis
  qed
  have "links_live (release_owner i m)"
  proof -
    have "\<forall>p \<in> set (players (m_session (release_owner i m))). \<exists>q \<in> set (players (m_session m)).
        (p_held_object p = p_held_object q \<or> p_held_object p = COOP_NO_ENTITY) \<and> p_mount p = p_mount q"
      by (auto simp: release_owner_def Let_def upd_entity_def on_player_def on_session_def upd_player_def upd_at_def let_go_def
          coop_player_def split: option.split dest!: set_update_subset_insert [THEN subsetD] find_index_less
          intro: nth_mem)
    then show ?thesis using assms(1) unfolding machine_ok_def links_live_def ids rest by metis
  qed
  with table assms(1) show ?thesis by (simp add: machine_ok_def rest)
qed

lemma retire_keeps_ok: "machine_ok m \<Longrightarrow> machine_ok (retire_from r i m)"
proof (induction r i m rule: retire_from.induct)
  case (1 r i m)
  then show ?case by (subst retire_from.simps) (auto simp: Let_def forget_keeps release_owner_keeps not_le)
qed

text \<open>The entities that are still in the game before the loop, and what the loop makes of them.\<close>

definition in_game :: "mem \<Rightarrow> CoopEntity \<Rightarrow> bool" where
  "in_game r e \<longleftrightarrow> en_kind e = COOP_ENTITY_NORMAL \<longrightarrow> r (0x14c8 + unat (en_slot e)) \<noteq> 0"

lemma settled_in_game: "settled_entity r e \<Longrightarrow> in_game r e"
  by (simp add: settled_entity_def in_game_def)

lemma in_game_ids:
  "(\<exists>e \<in> set es. en_id e = j \<and> in_game r e) \<longleftrightarrow> (j, True) \<in> set (map (\<lambda>e. (en_id e, in_game r e)) es)"
  by (auto simp: image_iff)

lemma retire_entities:
  assumes "machine_ok m" "\<forall>j < i. j < length (m_entities m) \<longrightarrow> settled_entity r (m_entities m ! j)"
  shows "(\<forall>e \<in> set (m_entities (retire_from r i m)). settled_entity r e) \<and>
    (\<forall>j. live (retire_from r i m) j \<longleftrightarrow> (\<exists>e \<in> set (m_entities m). en_id e = j \<and> in_game r e))"
  using assms
proof (induction "length (m_entities m) - i" arbitrary: i m rule: less_induct)
  case less
  let ?es = "m_entities m"
  show ?case
  proof (cases "i < length ?es")
    case False
    with less(3) have "\<forall>e \<in> set ?es. settled_entity r e" by (auto simp: in_set_conv_nth)
    with False show ?thesis using settled_in_game by (subst (1 2) retire_from.simps) (auto simp: live_def)
  next
    case True
    let ?e = "?es ! i"
    consider (settled) "settled_entity r ?e" | (freed) "\<not> in_game r ?e" | (dropped) "in_game r ?e" "\<not> settled_entity r ?e" by blast
    then show ?thesis
    proof cases
      case settled
      then have "retire_from r i m = retire_from r (i + 1) m"
        using True by (subst retire_from.simps) (auto simp: Let_def settled_entity_def)
      moreover have "\<forall>j < i + 1. j < length ?es \<longrightarrow> settled_entity r (?es ! j)" using less(3) settled by (auto simp: less_Suc_eq)
      moreover have "length ?es - (i + 1) < length ?es - i" using True by simp
      ultimately show ?thesis using less(1) [OF _ less(2)] by metis
    next
      case freed
      let ?m = "coop_machine_forget_entity (en_id ?e) m"
      have es: "m_entities ?m = swap_remove i ?es" using forget_here [OF True ok_distinct [OF less(2)]] .
      from freed have "retire_from r i m = retire_from r i ?m"
        using True by (subst retire_from.simps) (auto simp: Let_def in_game_def)
      moreover have "\<forall>j < i. j < length (m_entities ?m) \<longrightarrow> settled_entity r (m_entities ?m ! j)"
        using less(3) True by (simp add: es swap_remove_before length_swap_remove)
      moreover have "(\<exists>e \<in> set (m_entities ?m). en_id e = j \<and> in_game r e) \<longleftrightarrow> (\<exists>e \<in> set ?es. en_id e = j \<and> in_game r e)" for j
        unfolding es set_swap_remove [OF True] using freed by auto
      ultimately show ?thesis using less(1) [of ?m i] forget_keeps [OF less(2), of "en_id ?e"] True
        by (simp add: es length_swap_remove)
    next
      case dropped
      let ?m = "release_owner i m"
      have es: "m_entities ?m = ?es[i := ?e\<lparr>en_owner := COOP_NO_PLAYER, en_flags := 0\<rparr>]"
        by (simp add: release_owner_entities upd_at_def)
      from dropped have "retire_from r i m = retire_from r (i + 1) ?m"
        using True by (subst retire_from.simps) (auto simp: Let_def in_game_def settled_entity_def)
      moreover have "\<forall>j < i + 1. j < length (m_entities ?m) \<longrightarrow> settled_entity r (m_entities ?m ! j)"
        using less(3) True dropped by (auto simp: es less_Suc_eq settled_entity_def in_game_def)
      moreover have "map (\<lambda>e. (en_id e, in_game r e)) (m_entities ?m) = map (\<lambda>e. (en_id e, in_game r e)) ?es"
        using True by (simp add: es map_update in_game_def list_update_same_conv)
      then have "(\<exists>e \<in> set (m_entities ?m). en_id e = j \<and> in_game r e) \<longleftrightarrow> (\<exists>e \<in> set ?es. en_id e = j \<and> in_game r e)" for j
        unfolding in_game_ids by (rule arg_cong)
      moreover have "length (m_entities ?m) - (i + 1) < length ?es - i" using True by (simp add: es)
      ultimately show ?thesis using less(1) [OF _ release_owner_keeps [OF less(2) True]] by metis
    qed
  qed
qed

section \<open>Properties\<close>

text \<open>
  C9. The loop at the end of an attempt ends after exactly one round for every entity of the table,
  although it does not advance over an element that it removes, and its counter is then the number of
  entities that are left.\<close>

theorem discard_loop_ends:
  "(discard_round ^^ length (m_entities (w_machine w))) (0, w) =
     (length (m_entities (w_machine (discard_owned 0 w))), discard_owned 0 w)"
  using discard_rounds [of w 0] by (cases "m_entities (w_machine w) = []") (simp_all add: discard_owned.simps [of 0 w])

text \<open>
  C10. When the team's attempt is over, exactly the entities that no player owns are still in the table,
  unchanged, and the table keeps its invariant, so no player holds or rides what was removed.\<close>

theorem nothing_owned_survives:
  assumes "end_attempt w = Some w'" "machine_ok (w_machine w)"
  shows "machine_ok (w_machine w') \<and>
    set (m_entities (w_machine w')) = {e \<in> set (m_entities (w_machine w)). en_owner e = COOP_NO_PLAYER}"
  using end_attempt_machine [OF assms] discard_entities [OF assms(2), of 0] by simp

text \<open>
  C11. At the end of a frame the entities whose sprite the game has freed are gone, all others are
  still there, and a player holds an entity only while the game says that the sprite is carried.\<close>

theorem released_objects_retired:
  assumes "machine_ok (w_machine w)"
  shows "machine_ok (w_machine (retire_released_objects w)) \<and>
    (\<forall>e \<in> set (m_entities (w_machine (retire_released_objects w))). settled_entity (w_ram w) e) \<and>
    (\<forall>j. live (w_machine (retire_released_objects w)) j \<longleftrightarrow>
       (\<exists>e \<in> set (m_entities (w_machine w)). en_id e = j \<and> in_game (w_ram w) e))"
  using retire_entities [OF assms, of 0] retire_keeps_ok [OF assms] by (simp add: retire_released_objects_def)

end
