(* ===== verification/Sim_Adapters.thy ===== *)
theory Sim_Adapters
  imports Sim_End
begin

unbundle bit_operations_syntax

text \<open>
  What an adapter gives back: the routine that the game was about to call is replaced by one run for
  every player, and behind it the processor and the scratch memory are those of the caller.
\<close>

lemmas adapter_simps = Option.bind_eq_Some_conv Let_def
lemmas adapter_splits = if_split_asm option.split_asm prod.split_asm bool.split_asm

section \<open>Scratch memory\<close>

definition scratch_kept :: "mem \<Rightarrow> mem \<Rightarrow> bool" where
  "scratch_kept r r' \<longleftrightarrow> (\<forall>a < 16. r' a = r a)"

lemma guest_scratch_eq: "guest_scratch w' = guest_scratch w \<longleftrightarrow> scratch_kept (w_ram w) (w_ram w')"
  by (auto simp: guest_scratch_def scratch_kept_def)

lemma guest_scratch_length [simp]: "length (guest_scratch w) = 16"
  by (simp add: guest_scratch_def)

lemma scratch_put_back [simp]: "length bs = 16 \<Longrightarrow> guest_scratch (put_scratch bs w) = bs"
  by (rule nth_equalityI) (simp_all add: guest_scratch_def put_scratch_def on_ram_def poke_def)

lemma scratch_ram: "(\<And>r a. a < 16 \<Longrightarrow> f r a = r a) \<Longrightarrow> guest_scratch (on_ram f w) = guest_scratch w"
  by (simp add: guest_scratch_eq scratch_kept_def on_ram_def)

lemma scratch_steps [simp]:
  "guest_scratch (on_regs h w) = guest_scratch w" "guest_scratch (on_machine k w) = guest_scratch w"
  "guest_scratch (on_guards u w) = guest_scratch w" "guest_scratch (bind_actor i w) = guest_scratch w"
  by (simp_all add: guest_scratch_def on_regs_def on_machine_def on_guards_def bind_actor_def)

lemma scratch_poke [simp]: "a \<ge> 16 \<Longrightarrow> guest_scratch (poke8 a v w) = guest_scratch w"
  by (simp add: poke8_def scratch_ram)

lemma scratch_bind_image [simp]: "guest_scratch (bind_image bytes w) = guest_scratch w"
proof -
  have "coop_guest_bind bytes r a = r a" if "a < 16" for r a
    using that unfolding coop_guest_bind_def by (subst bind_outside) (auto simp: Coop_Guest.fields_def in_field_def)
  then show ?thesis unfolding bind_image_def by (rule scratch_ram)
qed

lemma scratch_bind_guest [simp]: "guest_scratch (bind_guest i w) = guest_scratch w"
  by (simp add: bind_guest_def)

lemma foldl_elsewhere: "\<forall>i \<in> set is. g i \<noteq> a \<Longrightarrow> foldl (\<lambda>r i. r(g i := v i)) (r :: mem) is a = r a"
  by (induction "is" arbitrary: r) auto

lemma mount_fields_high: "i < COOP_MOUNT_BYTES \<Longrightarrow> mount_fields ! i \<ge> 16"
proof -
  have "list_all (\<lambda>a. a \<ge> 16) mount_fields" "length mount_fields = COOP_MOUNT_BYTES"
    by (simp_all add: mount_fields_def COOP_MOUNT_BYTES_def)
  then show "i < COOP_MOUNT_BYTES \<Longrightarrow> mount_fields ! i \<ge> 16" by (simp add: list_all_length)
qed

lemma scratch_bind_mount [simp]: "guest_scratch (bind_mount k w) = guest_scratch w"
proof -
  have "coop_mount_bind e r a = r a" if "a < 16" for e r a
    using that mount_fields_high unfolding coop_mount_bind_def
    by (simp add: Let_def) (subst foldl_elsewhere, auto, force)
  then show ?thesis unfolding bind_mount_def by (rule scratch_ram)
qed

lemma scratch_oam [simp]: "guest_scratch (put_oam bs w) = guest_scratch w"
  unfolding put_oam_def by (rule scratch_ram) (simp add: poke_def)

section \<open>Registers\<close>

lemma registers_steps [simp]:
  "w_cpu (on_ram f w) = w_cpu w" "w_cpu (on_regs h w) = h (w_cpu w)" "w_cpu (on_machine k w) = w_cpu w"
  "w_cpu (on_guards u w) = w_cpu w" "w_cpu (bind_actor i w) = w_cpu w"
  by (simp_all add: on_ram_def on_regs_def on_machine_def on_guards_def bind_actor_def)

lemma registers_small [simp]:
  "w_cpu (poke8 a v w) = w_cpu w" "w_cpu (put_scratch bs w) = w_cpu w" "w_cpu (bind_guest i w) = w_cpu w"
  "w_cpu (bind_mount k w) = w_cpu w" "w_cpu (put_oam bs w) = w_cpu w" "w_cpu (poke_all as v w) = w_cpu w"
  by (simp_all add: poke8_def put_scratch_def bind_guest_def bind_image_def bind_mount_def put_oam_def poke_all_def)

lemma restore_again [simp]:
  "restore_registers c (restore_registers c d) = restore_registers c d" "restore_registers c c = c"
  by (simp_all add: restore_registers_def)

section \<open>Adapters\<close>

text \<open>The processor is the caller's but for the clocks and the open bus.\<close>

definition caller_back :: "World \<Rightarrow> World \<Rightarrow> bool" where
  "caller_back w w' \<longleftrightarrow> w_cpu w' = restore_registers (w_cpu w) (w_cpu w') \<and> guest_scratch w' = guest_scratch w"

lemma capture_back [simp]:
  assumes "capture i w = Some w'" shows "w_cpu w' = w_cpu w" "w_ram w' = w_ram w" "guest_scratch w' = guest_scratch w"
  using assms by (auto simp: capture_def adapter_simps on_machine_def guest_scratch_def)

lemma capture_any_back [simp]:
  "w_cpu (capture_any_mount k w) = w_cpu w" "guest_scratch (capture_any_mount k w) = guest_scratch w"
  by (simp_all add: capture_any_mount_def capture_mount_def split: option.split)

lemma restore_mount_back [simp]:
  assumes "restore_primary_mount w = Some w'" shows "w_cpu w' = w_cpu w" "guest_scratch w' = guest_scratch w"
  using assms by (auto simp: restore_primary_mount_def adapter_simps split: if_split_asm)

lemma restore_contact_back [simp]:
  assumes "length bs = 16"
  shows "w_cpu (restore_contact c bs i w) = restore_registers c (w_cpu w)" "guest_scratch (restore_contact c bs i w) = bs"
  using assms by (simp_all add: restore_contact_def Let_def)

lemma death_timer_back [simp]: "w_cpu (death_timer i w) = w_cpu w" "guest_scratch (death_timer i w) = guest_scratch w"
  by (simp_all add: death_timer_def)

named_theorems given_back

lemma run_player_routines_back [given_back]: "run_player_routines env w = Some w' \<Longrightarrow> caller_back w w'"
  by (auto simp: run_player_routines_def adapter_simps caller_back_def)

lemma draw_secondary_players_back [given_back]: "draw_secondary_players env w = Some w' \<Longrightarrow> caller_back w w'"
  by (auto simp: draw_secondary_players_def adapter_simps caller_back_def)

lemma run_owned_fireballs_back [given_back]: "run_owned_fireballs env w = Some w' \<Longrightarrow> caller_back w w'"
  by (auto simp: run_owned_fireballs_def adapter_simps caller_back_def)

lemma collect_goal_back [given_back]: "collect_goal env q w = Some w' \<Longrightarrow> caller_back w w'"
  by (auto simp: collect_goal_def adapter_simps caller_back_def split: if_split_asm)

lemma collect_keyhole_back [given_back]: "collect_keyhole env w = Some w' \<Longrightarrow> caller_back w w'"
  by (auto simp: collect_keyhole_def adapter_simps caller_back_def split: if_split_asm)

lemma collect_native_contacts_back [given_back]: "collect_native_contacts env p w = Some (taken, w') \<Longrightarrow> caller_back w w'"
  by (auto simp: collect_native_contacts_def adapter_simps caller_back_def split: adapter_splits)

lemma collect_chuck_contacts_back [given_back]: "collect_chuck_contacts env w = Some w' \<Longrightarrow> caller_back w w'"
  by (auto simp: collect_chuck_contacts_def adapter_simps caller_back_def split: adapter_splits)

lemma run_cape_contacts_back [given_back]: "run_cape_contacts env w = Some w' \<Longrightarrow> caller_back w w'"
  by (auto simp: run_cape_contacts_def adapter_simps caller_back_def)

lemma collect_extended_contacts_back [given_back]: "collect_extended_contacts env w = Some w' \<Longrightarrow> caller_back w w'"
  by (auto simp: collect_extended_contacts_def adapter_simps caller_back_def split: adapter_splits)

lemma scratch_place [simp]: "guest_scratch (on_ram (coop_guest_place_player p) w) = guest_scratch w"
  by (rule scratch_ram) (simp add: coop_guest_place_player_def Let_def put16_def set8_def poke_def)

lemma scratch_poke_all [simp]:
  assumes "\<forall>a \<in> set as. a \<ge> 16" shows "guest_scratch (poke_all as v w) = guest_scratch w"
proof -
  have "foldl (\<lambda>r a. r(a := v)) r as a = r a" if "a < 16" for r :: mem and a
    using assms that by (intro foldl_elsewhere [of as "\<lambda>i. i" a "\<lambda>i. v" r, simplified]) auto
  then show ?thesis unfolding poke_all_def by (rule scratch_ram)
qed

lemma run_team_camera_back [given_back]: "run_team_camera env w = Some w' \<Longrightarrow> caller_back w w'"
  by (auto simp: run_team_camera_def adapter_simps caller_back_def split: adapter_splits)

lemma draw_mounts_back [given_back]:
  assumes "draw_mounts env w = Some w'" shows "caller_back w w'"
proof -
  from assms obtain v u first where v: "restore_primary_mount v = Some u"
    and "w_cpu v = restore_registers (w_cpu w) (w_cpu v)" "guest_scratch v = guest_scratch w"
    and last: "(if w_ram u 0x187a = 0 then capture first (poke8 0x188b 0 u) else Some u) = Some w'"
    by (auto simp: draw_mounts_def adapter_simps)
  with restore_mount_back [OF v] show ?thesis by (auto simp: caller_back_def split: if_split_asm)
qed

lemma normal_entity_back:
  "normal_entity env slot reset w = Some (k, w') \<Longrightarrow> w_cpu w' = w_cpu w \<and> w_ram w' = w_ram w \<and> guest_scratch w' = guest_scratch w"
  by (auto simp: normal_entity_def adapter_simps on_machine_def guest_scratch_def split: adapter_splits)

lemma adopt_placed_egg_back:
  "adopt_placed_egg env k w = Some (ok, w') \<Longrightarrow> w_cpu w' = w_cpu w \<and> guest_scratch w' = guest_scratch w"
  by (auto simp: adopt_placed_egg_def Let_def on_machine_def poke8_def on_ram_def guest_scratch_def split: adapter_splits)

lemma update_sprite_back:
  "update_sprite env k slot yoshi baby first w = Some w' \<Longrightarrow> caller_back w w'"
  by (auto simp: update_sprite_def adapter_simps caller_back_def split: adapter_splits)

lemma caller_back_trans:
  "w_cpu v = w_cpu w \<Longrightarrow> guest_scratch v = guest_scratch w \<Longrightarrow> caller_back v w' \<Longrightarrow> caller_back w w'"
  by (simp add: caller_back_def)

lemma run_normal_sprite_back [given_back]:
  assumes run: "run_normal_sprite env w = Some (b, w')" shows "caller_back w w'"
proof (cases "unat (cpu_X (w_cpu w)) mod 256 \<ge> 12 \<or> w_ram w (0x14c8 + unat (cpu_X (w_cpu w)) mod 256) = 0")
  case True
  with run show ?thesis by (auto simp: run_normal_sprite_def Let_def caller_back_def split: if_splits option.splits)
next
  case False
  with run obtain k v ok u
    where k: "normal_entity env (unat (cpu_X (w_cpu w)) mod 256) False w = Some (k, v)"
      and u: "adopt_placed_egg env k v = Some (ok, u)" by (auto simp: run_normal_sprite_def adapter_simps)
  note same = normal_entity_back [OF k] adopt_placed_egg_back [OF u]
  consider "\<not> ok \<or> waits_for_rider k u" | "ok" "\<not> waits_for_rider k u" by blast
  then show ?thesis
  proof cases
    case 1
    with run False k u same show ?thesis by (auto simp: run_normal_sprite_def caller_back_def Let_def split: if_splits)
  next
    case 2
    with run False k u obtain first z where z: "capture first u = Some z"
      "update_sprite env k (unat (cpu_X (w_cpu w)) mod 256) (en_type (entity_at k u) = 0x35) (en_type (entity_at k u) = 0x2d) first z = Some w'"
      by (auto simp: run_normal_sprite_def adapter_simps)
    with same show ?thesis by (auto intro: caller_back_trans [OF _ _ update_sprite_back [OF z(2)]])
  qed
qed

declare capture_back [simp del] restore_mount_back [simp del]

lemma caller_back_self [simp]: "caller_back w w"
  by (simp add: caller_back_def)

text \<open>Cases of a branch, for the long chains of tests.\<close>

lemma if_SomeE:
  "(if c then a else b) = Some x \<Longrightarrow> (c \<Longrightarrow> a = Some x \<Longrightarrow> P) \<Longrightarrow> (\<not> c \<Longrightarrow> b = Some x \<Longrightarrow> P) \<Longrightarrow> P"
  by (cases c) auto

lemma capture_given: "capture i w = Some w' \<Longrightarrow> w_cpu w' = w_cpu w \<and> w_ram w' = w_ram w \<and> guest_scratch w' = guest_scratch w"
  using capture_back by blast

section \<open>The other hooks\<close>

lemma restore_trans [simp]: "restore_registers (restore_registers c d) e = restore_registers c e"
  by (simp add: restore_registers_def)

lemma caller_back_chain: "caller_back w v \<Longrightarrow> caller_back v w' \<Longrightarrow> caller_back w w'"
  unfolding caller_back_def by (metis restore_trans)

lemma caller_back_same [intro]:
  "w_cpu w' = w_cpu w \<Longrightarrow> guest_scratch w' = guest_scratch w \<Longrightarrow> caller_back w w'"
  by (simp add: caller_back_def)

lemma normal_entity_given [given_back]: "normal_entity env slot reset w = Some (k, w') \<Longrightarrow> caller_back w w'"
  by (auto dest: normal_entity_back)

lemma scratch_fields [simp]:
  "guest_scratch (w\<lparr>w_queried_contact := q\<rparr>) = guest_scratch w"
  "guest_scratch (w\<lparr>w_extended_found := b\<rparr>) = guest_scratch w"
  "guest_scratch (w\<lparr>w_room_request := p\<rparr>) = guest_scratch w"
  "guest_scratch (w\<lparr>w_frozen_score := n\<rparr>) = guest_scratch w"
  "guest_scratch (w\<lparr>w_damaged := ds\<rparr>) = guest_scratch w"
  "guest_scratch (w\<lparr>w_machine := m\<rparr>) = guest_scratch w"
  "guest_scratch (w\<lparr>w_mouths := cs, w_mouth_capacity := n\<rparr>) = guest_scratch w"
  "guest_scratch (w\<lparr>w_mouth_capacity := n, w_mouths := cs\<rparr>) = guest_scratch w"
  "guest_scratch (w\<lparr>w_berry_capacity := n, w_berries := bs\<rparr>) = guest_scratch w"
  "guest_scratch (w\<lparr>w_stage_started := b\<rparr>) = guest_scratch w"
  by (simp_all add: guest_scratch_def)

lemma report_event_back [given_back]: "report_event env kind p e v f w = Some w' \<Longrightarrow> caller_back w w'"
  by (auto simp: report_event_def split: prod.split_asm bool.split_asm)

lemma damage_once_back:
  assumes "damage_once env slot again w = Some (r, w')" "\<And>v. again v = Some (r, w') \<Longrightarrow> caller_back v w'"
  shows "caller_back w w'"
proof -
  from assms(1) obtain k v where v: "normal_entity env slot False w = Some (k, v)"
    and r: "again v = Some (r, w') \<or> w' = mark_damaged slot (en_id (entity_at k v)) v"
    by (auto simp: damage_once_def adapter_simps split: if_split_asm)
  have "caller_back v w'" using r assms(2) [of v] by (auto simp: mark_damaged_def caller_back_def)
  then show ?thesis using normal_entity_back [OF v] by (simp add: caller_back_def)
qed

lemma damage_leave_back:
  "damage_once env slot (leave p) w = Some (r, w') \<Longrightarrow> caller_back w w'"
  "damage_once env slot (\<lambda>w. leave p (boss_puff q w)) w = Some (r, w') \<Longrightarrow> caller_back w w'"
  by (erule damage_once_back, auto simp: boss_puff_def)+

lemma mouth_available_back [given_back]:
  "mouth_candidate_available env mouth slot w = Some (ok, w') \<Longrightarrow> caller_back w w'"
  by (auto simp: mouth_candidate_available_def adapter_simps caller_back_def dest!: normal_entity_back)

lemma record_body_berry_back [given_back]: "record_body_berry env w = Some w' \<Longrightarrow> caller_back w w'"
  by (auto simp: record_body_berry_def adapter_simps caller_back_def split: if_split_asm dest!: normal_entity_back)

lemma record_mouth_contact_back [given_back]:
  assumes "record_mouth_contact env w = Some w'" shows "caller_back w w'"
proof -
  obtain mouth slot k v n u where v: "normal_entity env mouth False w = Some (k, v)"
    and u: "normal_entity env slot False v = Some (n, u)"
    and w': "w' = u \<or> (\<exists>c cs. w' = u\<lparr>w_mouth_capacity := c, w_mouths := cs\<rparr>)"
  proof -
    note run = assms [unfolded record_mouth_contact_def Let_def]
    show thesis
    proof (rule if_SomeE [OF run], goal_cases)
      case 2
      from 2(2) obtain k v n u where *: "normal_entity env (unat (cpu_X (w_cpu w)) mod 256) False w = Some (k, v)"
        "normal_entity env (unat (cpu_Y (w_cpu w)) mod 256) False v = Some (n, u)"
        and last: "(if list_ex (\<lambda>c. mc_mount c = en_id (entity_at k v) \<and> mc_object c = en_id (entity_at n u)) (w_mouths u)
           then Some u
           else do { capacity \<leftarrow> contact_capacity (sv_alloc env) (sv_mouth_bytes env) 16 (length (w_mouths u)) (w_mouth_capacity u);
                     i \<leftarrow> w_bound u;
                     j \<leftarrow> player_index i u;
                     Some (u\<lparr>w_mouth_capacity := capacity,
                       w_mouths := w_mouths u @ [\<lparr>mc_mount = en_id (entity_at k v), mc_object = en_id (entity_at n u), mc_actor = ac_player (actor_at i u),
                         mc_distance = squared (int (joined (w_ram u) 4 10 + unat (w_ram u 6) div 2))
                            (int (joined (w_ram u) 5 11 + unat (w_ram u 7) div 2)) (player_at j u),
                         mc_cpu = w_cpu u, mc_scratch = guest_scratch u\<rparr>]\<rparr>) }) = Some w'"
        by (auto simp only: Option.bind_eq_Some_conv prod.case split_paired_all)
      have "w' = u \<or> (\<exists>c cs. w' = u\<lparr>w_mouth_capacity := c, w_mouths := cs\<rparr>)"
        by (rule if_SomeE [OF last]) (auto simp only: Option.bind_eq_Some_conv option.inject)
      with * show ?case by (rule that)
    qed simp
  qed
  have "w_cpu w' = w_cpu u \<and> guest_scratch w' = guest_scratch u" using w' by auto
  with normal_entity_back [OF v] normal_entity_back [OF u] show ?thesis by (simp add: caller_back_def)
qed

lemma response_back: "contact_response_hook pc slot w = (place, w') \<Longrightarrow> caller_back w w'"
  by (auto simp: contact_response_hook_def Let_def split: if_split_asm option.split_asm)

lemma claim_carried_back [given_back]: "claim_carried k i w = Some w' \<Longrightarrow> caller_back w w'"
  by (auto simp: claim_carried_def adapter_simps split: if_split_asm)

lemma new_sprite_back [given_back]:
  assumes "new_sprite env slot w = Some w'" shows "caller_back w w'"
proof -
  define b where "b = (case normal_slot slot w of None \<Rightarrow> False
    | Some k \<Rightarrow> en_type (entity_at k w) = 0x2d \<and> w_ram w (0x9e + slot) = 0x35)"
  have "new_sprite env slot w =
    do { (k, w) \<leftarrow> normal_entity env slot True (if b then bind_mount None w else w);
         (case w_bound w of
            Some i \<Rightarrow> if w_ram w (0x14c8 + slot) = 0x0b \<and> gd_carried_reward (w_guards w) = 0 then claim_carried k i w else Some w
          | None \<Rightarrow> Some w) }"
    unfolding new_sprite_def Let_def b_def ..
  with assms obtain k v where v: "normal_entity env slot True (if b then bind_mount None w else w) = Some (k, v)"
    and w': "(case w_bound v of
            Some i \<Rightarrow> if w_ram v (0x14c8 + slot) = 0x0b \<and> gd_carried_reward (w_guards v) = 0 then claim_carried k i v else Some v
          | None \<Rightarrow> Some v) = Some w'"
    by (fastforce simp only: Option.bind_eq_Some_conv prod.case)
  have "caller_back v w'"
  proof (cases "w_bound v")
    case None
    with w' show ?thesis by simp
  next
    case (Some i)
    with w' claim_carried_back [of k i v w'] show ?thesis
      by (cases "w_ram v (0x14c8 + slot) = 0x0b \<and> gd_carried_reward (w_guards v) = 0") simp_all
  qed
  then show ?thesis using normal_entity_back [OF v] by (cases b) (simp_all add: caller_back_def)
qed

lemma record_goal_back [given_back]:
  assumes "record_goal env w = Some w'" shows "caller_back w w'"
proof -
  let ?stop = "unat (cpu_X (w_cpu w)) mod 256 \<ge> 12 \<or>
      w_ram w (0x167a + unat (cpu_X (w_cpu w)) mod 256) AND 0x80 = 0"
  have "\<not> ?stop"
  proof
    assume ?stop
    then have "record_goal env w = None" unfolding record_goal_def Let_def by (rule if_P)
    with assms show False by simp
  qed
  with assms obtain u where "w' = put_scratch (guest_scratch w) (on_regs (restore_registers (w_cpu w)) u)"
    unfolding record_goal_def Let_def by (simp only: if_False Option.bind_eq_Some_conv) (elim exE conjE, simp only: option.inject, blast)
  then show ?thesis by (simp add: caller_back_def)
qed

lemma report_exit_back [given_back]: "report_exit env flags w = Some w' \<Longrightarrow> caller_back w w'"
  by (auto simp: report_exit_def adapter_simps dest: report_event_back)

lemma request_room_back [given_back]: "request_room w = Some w' \<Longrightarrow> caller_back w w'"
  by (auto simp: request_room_def adapter_simps split: if_split_asm)

lemma touch_checkpoint_back [given_back]: "touch_checkpoint env w = Some w' \<Longrightarrow> caller_back w w'"
  by (auto simp: touch_checkpoint_def adapter_simps split: if_split_asm dest: report_event_back)

lemma party_pause_back [simp]: "caller_back w (party_pause w)"
  by (auto simp: party_pause_def Let_def)

lemma begin_stage_back [given_back]: "begin_gameplay_stage w = Some w' \<Longrightarrow> caller_back w w'"
  by (auto simp: begin_gameplay_stage_def begin_frame_def hold_transformations_def Let_def
      split: if_split_asm prod.split_asm bool.split_asm)

lemma begin_death_back [given_back]:
  assumes "begin_death env pc i j w = Some (place, w')" shows "caller_back w w'"
proof -
  obtain v where v: "(if w_timer_had_time w \<and> \<not> time_left (w_ram w) \<and> advancing (m_session (w_machine w))
      then queue_event env COOP_EVENT_TIMEOUT COOP_NO_PLAYER w else Some w) = Some v"
    and rest: "(if p_life (player_at j v) = COOP_PLAYING \<and> w_ram v 0x71 \<noteq> 9 \<and> advancing (m_session (w_machine v))
          then
            do { w \<leftarrow> queue_event env COOP_EVENT_DEATH (ac_player (actor_at i v)) v;
                 let w = (if pc = 0x00f606 then poke8 0x7d 0x90 w else w);
                 let w = poke8 0x1496 0x30 (poke8 0x71 9 w);
                 Some (0x00f628, poke_all [0x19, 0x188a, 0x1407, 0x140d, 0x1497, 0x1490] 0 w) }
          else Some (0x00f628, v)) = Some (place, w')"
    using assms unfolding begin_death_def Option.bind_eq_Some_conv by blast
  have "caller_back w v" using v report_event_back by (auto simp: queue_event_def split: if_split_asm)
  moreover have "caller_back v w'"
  proof (cases "p_life (player_at j v) = COOP_PLAYING \<and> w_ram v 0x71 \<noteq> 9 \<and> advancing (m_session (w_machine v))")
    case False
    with rest show ?thesis by auto
  next
    case True
    with rest obtain u where "report_event env COOP_EVENT_DEATH (ac_player (actor_at i v)) COOP_NO_ENTITY 0 0 v = Some u"
      "w' = poke_all [0x19, 0x188a, 0x1407, 0x140d, 0x1497, 0x1490] 0
         (poke8 0x1496 0x30 (poke8 0x71 9 (if pc = 0x00f606 then poke8 0x7d 0x90 u else u)))"
      by (auto simp: queue_event_def adapter_simps)
    with report_event_back [of env COOP_EVENT_DEATH] show ?thesis by (auto simp: caller_back_def)
  qed
  ultimately show ?thesis by (rule caller_back_chain)
qed

text \<open>Loops whose body gives the caller's registers and scratch memory back, or puts saved ones back.\<close>

lemma each_back:
  "each_do f xs w = Some w' \<Longrightarrow> (\<And>x v u. f x v = Some u \<Longrightarrow> caller_back v u) \<Longrightarrow> caller_back w w'"
proof (induction xs arbitrary: w)
  case (Cons x xs)
  then obtain v where "f x w = Some v" "each_do f xs v = Some w'" by (auto simp: Option.bind_eq_Some_conv)
  with Cons show ?case by (blast intro: caller_back_chain)
qed simp

lemma each_while_back:
  assumes "each_while f xs w = Some w'" "\<And>x v go u. f x v = Some (go, u) \<Longrightarrow> P v \<Longrightarrow> P u" "P w"
  shows "P w'"
  using assms
proof (induction xs arbitrary: w)
  case (Cons x xs)
  then obtain go v where v: "f x w = Some (go, v)" "(if go then each_while f xs v else Some v) = Some w'"
    by (auto simp: Option.bind_eq_Some_conv)
  with Cons show ?case by (cases go) auto
qed simp

lemma prepare_contacts_of_back: "prepare_contacts_of first i w = Some w' \<Longrightarrow> caller_back w w'"
  by (auto simp: prepare_contacts_of_def Let_def caller_back_def split: if_split_asm dest!: capture_given)

lemma prepare_world_contacts_back [given_back]:
  assumes "prepare_world_contacts w = Some w'" shows "caller_back w w'"
proof -
  from assms obtain first v u where v: "capture first w = Some v"
    and u: "each_do (prepare_contacts_of first) (actor_indices v) v = Some u" and w': "w' = bind_guest first u"
    by (auto simp: prepare_world_contacts_def Option.bind_eq_Some_conv)
  have "caller_back w v" using capture_given [OF v] by (simp add: caller_back_def)
  moreover have "caller_back v u" using each_back [OF u] prepare_contacts_of_back by blast
  ultimately have "caller_back w u" by (rule caller_back_chain)
  then show ?thesis by (simp add: w' caller_back_def)
qed

lemma replenish_egg_back:
  assumes "replenish_egg env caller scratch n w = Some (go, w')" "length scratch = 16"
  shows "w' = w \<or> (w_cpu w' = restore_registers caller (w_cpu w') \<and> guest_scratch w' = scratch)"
proof -
  consider "w' = w" | u where "w' = put_scratch scratch (on_regs (restore_registers caller) u)"
    using assms(1) unfolding replenish_egg_def Let_def
    by (auto simp only: Option.bind_eq_Some_conv split: if_split_asm option.split_asm prod.split_asm)
  then show ?thesis by cases (simp_all add: assms(2))
qed

lemma replenish_back [given_back]:
  assumes "replenish_placed_eggs env w = Some w'" shows "caller_back w w'"
proof -
  consider "w' = w" | "each_while (replenish_egg env (w_cpu w) (guest_scratch w))
      [0..<length (m_placed_eggs (w_machine w))] w = Some w'"
  proof (rule if_SomeE [OF assms [unfolded replenish_placed_eggs_def Let_def]], goal_cases)
    case 1
    show ?case by (rule that(1) [OF option.inject [THEN iffD1, OF 1(4), symmetric]])
  next
    case 2
    then show ?case by (intro that(2))
  qed
  then show ?thesis
  proof cases
    case 2
    show ?thesis
      by (rule each_while_back [OF 2]) (auto simp: caller_back_def dest!: replenish_egg_back)
  qed simp
qed

section \<open>Every hook\<close>

text \<open>
  The places whose hook answers the game in a register or in the scratch memory, or leaves the processor as
  one of the game's own routines left it: the retry and the loading of a room (\<^verbatim>\<open>0x05d83e\<close>,
  \<^verbatim>\<open>0x02a751\<close>, \<^verbatim>\<open>0x00fc98\<close>, \<^verbatim>\<open>0x02abf2\<close>), the platforms (carry, \<^verbatim>\<open>0x01b457\<close>), a hatching
  egg (\<^verbatim>\<open>0x01f78a\<close>), the fireballs, which end with a run of the game's routine (\<^verbatim>\<open>0x01d3b1\<close>,
  \<^verbatim>\<open>0x01fd0a\<close>, \<^verbatim>\<open>0x00fea8\<close>, \<^verbatim>\<open>0x029b0a\<close>) or move the slot that is searched first
  (\<^verbatim>\<open>0x01d3ba\<close>, \<^verbatim>\<open>0x01fd0c\<close>), the blocks with a Yoshi (\<^verbatim>\<open>0x0289e1\<close>,
  \<^verbatim>\<open>0x00c0fb\<close>), the goals and the victory (\<^verbatim>\<open>0x00fb00\<close>, \<^verbatim>\<open>0x01c107\<close>, \<^verbatim>\<open>0x00c9fe\<close>,
  \<^verbatim>\<open>0x00c915\<close>), and the timer of a dying player (\<^verbatim>\<open>0x00d0b6\<close>).
\<close>

definition answering_places :: "nat list" where
  "answering_places = [0x05d83e, 0x02a751, 0x00fc98, 0x02abf2, 0x01b457, 0x01f78a,
     0x01d3b1, 0x01fd0a, 0x01d3ba, 0x01fd0c, 0x00fea8, 0x029b0a, 0x0289e1, 0x00c0fb,
     0x00fb00, 0x01c107, 0x00c9fe, 0x00c915, 0x00d0b6]"

lemmas hook_defs = SmwCoopSimulationHook_def simulation_hooks_def retry_hook_def room_hook_def level_hook_def solid_hook_def
  mouth_hook_def fire_hook_def response_hook_def contact_response_hook_def query_kind_def contact_hook_def source_hook_def
  sprite_hook_def goal_hook_def stage_hook_def world_hook_def

definition gives_back :: "hook \<Rightarrow> bool" where
  "gives_back h \<longleftrightarrow> (\<forall>pc w r w'. pc \<notin> set answering_places \<longrightarrow> h pc w = Some (r, w') \<longrightarrow> caller_back w w')"

lemma leaving_Some: "leaving p r = Some (q, v) \<Longrightarrow> r = Some v"
  by (auto simp: leaving_def)

lemma retry_gives: "gives_back retry_hook"
  by (auto simp: gives_back_def retry_hook_def Let_def answering_places_def split: if_split_asm)

lemma room_gives: "gives_back (room_hook env)"
  by (auto simp: gives_back_def room_hook_def Let_def answering_places_def split: if_split_asm)

lemma level_gives: "gives_back level_hook"
  by (auto simp: gives_back_def level_hook_def split: if_split_asm)

lemma solid_gives: "gives_back (solid_hook env)"
  unfolding gives_back_def solid_hook_def Let_def answering_places_def
  by (auto split: if_split_asm dest!: leaving_Some dest: damage_leave_back given_back)

lemma mouth_gives: "gives_back (mouth_hook env)"
  unfolding gives_back_def mouth_hook_def Let_def
  by (intro allI impI, elim if_SomeE)
    (auto simp: answering_places_def Option.bind_eq_Some_conv split: if_split_asm dest!: leaving_Some dest: given_back)

lemma fire_gives: "gives_back (fire_hook env)"
  unfolding gives_back_def fire_hook_def Let_def
  by (intro allI impI, elim if_SomeE)
    (auto simp: answering_places_def dest!: leaving_Some dest: damage_leave_back given_back)

lemma response_gives: "gives_back response_hook"
  unfolding gives_back_def response_hook_def
  by (auto split: if_split_asm prod.split_asm dest: response_back)

lemma contact_gives: "gives_back (contact_hook env)"
  unfolding gives_back_def contact_hook_def
  by (auto simp: adapter_simps split: if_split_asm dest: given_back)

lemma source_gives: "gives_back (source_hook env)"
  unfolding gives_back_def source_hook_def answering_places_def
  by (auto split: if_split_asm option.split_asm)

lemma sprite_gives: "gives_back (sprite_hook env)"
  unfolding gives_back_def sprite_hook_def
  by (auto split: if_split_asm dest: given_back)

lemma goal_gives: "gives_back (goal_hook env)"
  unfolding gives_back_def goal_hook_def Let_def
  by (intro allI impI, elim if_SomeE)
    (auto simp: answering_places_def split: if_split_asm dest!: leaving_Some dest: given_back)

lemma hold_at_edge_back [simp]: "caller_back w (hold_at_edge w)"
proof -
  have "guest_scratch (on_ram (put16 0x94 v) w) = guest_scratch w" for v
    by (rule scratch_ram) (simp add: put16_def)
  then show ?thesis by (simp add: hold_at_edge_def Let_def caller_back_def)
qed

lemma stage_gives: "gives_back (stage_hook env)"
  unfolding gives_back_def stage_hook_def
  by (intro allI impI, elim if_SomeE)
    (auto simp: answering_places_def death_hook_def Option.bind_eq_Some_conv
      dest!: leaving_Some dest: given_back)

lemma world_gives: "gives_back (world_hook env)"
  unfolding gives_back_def world_hook_def Let_def
  by (intro allI impI, elim if_SomeE)
    (auto simp: Option.bind_eq_Some_conv split: if_split_asm dest!: leaving_Some dest: given_back intro: caller_back_chain)

lemma run_hooks_back:
  assumes "list_all gives_back hs" "run_hooks hs pc w = Some (place, w')" "pc \<notin> set answering_places"
  shows "caller_back w w'"
  using assms
proof (induction hs arbitrary: w)
  case (Cons h hs)
  from Cons.prems(2) obtain r v where v: "h pc w = Some (r, v)"
    and rest: "(case r of Some place \<Rightarrow> Some (place, v) | None \<Rightarrow> run_hooks hs pc v) = Some (place, w')"
    by (auto simp: Option.bind_eq_Some_conv)
  have "caller_back w v" using Cons.prems(1,3) v by (auto simp: gives_back_def)
  moreover have "caller_back v w'" using rest Cons by (cases r) auto
  ultimately show ?case by (rule caller_back_chain)
qed simp

lemma all_give_back: "list_all gives_back (simulation_hooks env)"
  by (simp add: simulation_hooks_def retry_gives room_gives level_gives solid_gives mouth_gives fire_gives
      response_gives contact_gives source_gives sprite_gives goal_gives stage_gives world_gives)


end
