(* ===== verification/Coop_Resolve_Facts.thy ===== *)
theory Coop_Resolve_Facts
  imports Coop_Resolve Coop_Roster
begin

text \<open>
  What \<open>coop_session_resolve\<close> promises: the frame contracts of its loops as interpretations of the
  locales of \<^verbatim>\<open>Coop_Resolve\<close>, and from them the properties of the whole operation.
\<close>

section \<open>The frame contracts\<close>

interpretation fail: lethal_effects alloc "\<lambda>s t. failed s \<longrightarrow> failed t" for alloc
  by unfold_locales (auto simp: emit_failed_mono)

interpretation queue: lethal_effects alloc "\<lambda>s t. \<exists>xs. actions t = actions s @ xs" for alloc
proof unfold_locales
  fix k p ent v s
  show "\<exists>xs. actions (emit alloc k p ent v s) = actions s @ xs"
    using emit_actions [of alloc k p ent v s] by auto
qed force+

interpretation scalars: lethal_effects alloc
  "\<lambda>s t. lives t = lives s \<and> outcome t = outcome s \<and> primary t = primary s \<and>
         ticks_per_second t = ticks_per_second s \<and> events t = events s \<and>
         advancing t = advancing s \<and> resolved t = resolved s \<and> camera t = camera s" for alloc
  by unfold_locales auto

interpretation cycle: lethal_effects alloc "roster_le death_life" for alloc
proof unfold_locales
  show "roster_le death_life s (emit alloc k p ent v s)" for k p ent v s
    by (rule roster_le_same_players) simp_all
  show "roster_le death_life s (s\<lparr>checkpoint := c, players := map checkpoint_player (players s)\<rparr>)" for s c
    by (rule roster_le_map [where f = checkpoint_player]) (simp_all add: checkpoint_player_def Let_def)
  show "roster_le death_life s (upd_player i (finish_death hz) s)"
    if "i < length (players s)" "p_life (players s ! i) = COOP_DYING" for s i hz
    using that by (intro roster_le_upd) (auto simp: finish_death_def life_at_def death_life_star)
  show "roster_le death_life s (upd_player i dead_player s)"
    if "i < length (players s)" "p_life (players s ! i) = COOP_PLAYING" for s i
    using that by (intro roster_le_upd) (auto simp: dead_player_def life_at_def death_life_star)
qed (auto intro!: roster_le_upd simp: hurt_player_def life_at_def intro: roster_le_trans)

definition is_playing :: "CoopSession \<Rightarrow> u32 \<Rightarrow> bool" where
  "is_playing s a =
     (case coop_player s a of None \<Rightarrow> False | Some i \<Rightarrow> p_life (players s ! i) = COOP_PLAYING)"

lemma is_playing_same:
  assumes "ids t = ids s"
    and "\<And>i. i < length (players s) \<Longrightarrow> (life_at t i = COOP_PLAYING) = (life_at s i = COOP_PLAYING)"
  shows "is_playing t = is_playing s"
  using coop_player_cong [OF assms(1)] assms(2)
  by (auto simp: is_playing_def fun_eq_iff life_at_def split: option.split dest: coop_player_SomeD)

lemma is_playing_emit [simp]: "is_playing (emit alloc k p ent v s) = is_playing s"
  by (rule is_playing_same) (simp_all add: ids_def life_at_def)

lemma is_playing_upd:
  assumes "\<And>p. p_id (f p) = p_id p"
    and "i < length (players s) \<Longrightarrow>
      (p_life (f (players s ! i)) = COOP_PLAYING) = (life_at s i = COOP_PLAYING)"
  shows "is_playing (upd_player i f s) = is_playing s"
proof (rule is_playing_same)
  show "ids (upd_player i f s) = ids s"
    by (simp add: ids_def map_upd_at_same assms(1))
next
  fix j
  assume "j < length (players s)"
  then show "(life_at (upd_player i f s) j = COOP_PLAYING) = (life_at s j = COOP_PLAYING)"
    using assms(2) by (cases "j = i") (auto simp: life_at_def)
qed

interpretation playing: event_effects alloc "\<lambda>s t. is_playing t = is_playing s" for alloc
proof unfold_locales
  show "is_playing (s\<lparr>checkpoint := c, players := map checkpoint_player (players s)\<rparr>) = is_playing s" for s c
    by (rule is_playing_same)
      (simp_all add: ids_def life_at_def checkpoint_player_def Let_def comp_def)
qed (auto intro!: is_playing_upd simp: hurt_player_def finish_death_def life_at_def)

section \<open>One resolved frame\<close>

text \<open>
  \<open>runs s\<close>: no early return of \<open>coop_session_resolve\<close> applies.  The intermediate sessions of such
  a run get names: after the lethal hits, and after the third loop.
\<close>

definition runs :: "CoopSession \<Rightarrow> bool" where
  "runs s \<longleftrightarrow> \<not> failed s \<and> outcome s = COOP_CONTINUE \<and> \<not> resolved s \<and>
     (advancing s \<or> events s \<noteq> [])"

definition after_lethal :: "allocator \<Rightarrow> CoopSession \<Rightarrow> CoopSession" where
  "after_lethal alloc s =
     foldl (lethal_step alloc) (s\<lparr>resolved := True, events := sort_events (events s)\<rparr>)
       (sort_events (events s))"

definition after_loop :: "allocator \<Rightarrow> CoopSession \<Rightarrow> CoopSession" where
  "after_loop alloc s = process alloc False False (sort_events (events s)) (after_lethal alloc s)"

definition frame_terminal :: "CoopSession \<Rightarrow> CoopEvent option \<times> bool \<times> u32" where
  "frame_terminal s =
     terminal_events (s\<lparr>resolved := True, events := sort_events (events s)\<rparr>) (sort_events (events s))"

lemma resolve_runs:
  "runs s \<Longrightarrow> coop_session_resolve alloc s =
     (\<not> failed (conclude alloc (frame_terminal s) (after_loop alloc s)),
      conclude alloc (frame_terminal s) (after_loop alloc s))"
  by (simp add: runs_def coop_session_resolve_def Let_def after_lethal_def after_loop_def
      frame_terminal_def) blast

lemma conclude_frame [simp]:
  "players (conclude alloc t s) = players s"
  "ids (conclude alloc t s) = ids s"
  "primary (conclude alloc t s) = primary s"
  "ticks_per_second (conclude alloc t s) = ticks_per_second s"
  by (auto simp: conclude_def Let_def ids_def split: prod.split option.split)

lemma after_lethal_scalars:
  "lives (after_lethal alloc s) = lives s" "outcome (after_lethal alloc s) = outcome s"
  "primary (after_lethal alloc s) = primary s"
  using scalars.R_lethal [of alloc _ "sort_events (events s)"] by (auto simp: after_lethal_def)

lemma after_loop_scalars:
  "lives (after_loop alloc s) = lives s" "outcome (after_loop alloc s) = outcome s"
  "primary (after_loop alloc s) = primary s"
  using scalars.R_process [where s = "after_lethal alloc s" and alloc = alloc and sw = False
      and ck = False and es = "sort_events (events s)"]
  by (auto simp: after_loop_def after_lethal_scalars)

section \<open>Terminal events\<close>

lemma terminal_step_apply:
  "terminal_step s (x, t, g) e =
     (if e_kind e = COOP_EVENT_EXIT
      then (case x of None \<Rightarrow> Some e | Some y \<Rightarrow> if better_exit s e y then Some e else Some y,
            t, max g (e_value e))
      else (x, t \<or> e_kind e = COOP_EVENT_TIMEOUT, g))"
  by (cases "g < e_value e")
    (simp_all add: terminal_step_def max_absorb1 max_absorb2 not_less less_imp_le leD)

lemma terminal_foldl:
  "foldl (terminal_step s) (x, t, g) es =
     (pick (better_exit s) x (filter (\<lambda>e. e_kind e = COOP_EVENT_EXIT) es),
      t \<or> (\<exists>e \<in> set es. e_kind e = COOP_EVENT_TIMEOUT),
      foldl max g (map e_value (filter (\<lambda>e. e_kind e = COOP_EVENT_EXIT) es)))"
proof (induction es arbitrary: x t g)
  case Nil
  then show ?case by simp
next
  case (Cons e es)
  show ?case
    by (auto simp: terminal_step_apply Cons.IH split: option.split)
qed

lemma foldl_max_set:
  fixes g :: u32
  shows "foldl max g xs \<in> insert g (set xs) \<and> (\<forall>x \<in> insert g (set xs). x \<le> foldl max g xs)"
proof (induction xs arbitrary: g)
  case Nil
  then show ?case by simp
next
  case (Cons x xs)
  from Cons [of "max g x"] show ?case by (auto simp: max_def split: if_splits)
qed

text \<open>The choice between exits: secret exits first, then the player of highest precedence.\<close>

interpretation exit_choice: selection "better_exit s" for s
proof (rule selection_key [where key = "\<lambda>e. (- uint (secret e), rank s (e_player e))"])
  show "better_exit s x y \<longleftrightarrow>
      (- uint (secret x), rank s (e_player x)) < (- uint (secret y), rank s (e_player y))" for x y
    by (auto simp: better_exit_def precedes_rank less_prod_simp word_less_def word_uint_eq_iff)
qed

lemma better_exit_cong: "primary s = primary t \<Longrightarrow> better_exit s = better_exit t"
  by (auto simp: better_exit_def fun_eq_iff coop_player_precedes_def)

lemma frame_terminal_eq:
  "frame_terminal s =
     (pick (better_exit s) None (filter (\<lambda>e. e_kind e = COOP_EVENT_EXIT) (sort_events (events s))),
      \<exists>e \<in> set (events s). e_kind e = COOP_EVENT_TIMEOUT,
      foldl max 0 (map e_value (filter (\<lambda>e. e_kind e = COOP_EVENT_EXIT) (sort_events (events s)))))"
proof -
  have "better_exit (s\<lparr>resolved := True, events := sort_events (events s)\<rparr>) = better_exit s"
    by (rule better_exit_cong) simp
  then show ?thesis
    by (simp add: frame_terminal_def terminal_events_def terminal_foldl)
qed

lemma frame_exit_None:
  "fst (frame_terminal s) = None \<longleftrightarrow> (\<forall>e \<in> set (events s). e_kind e \<noteq> COOP_EVENT_EXIT)"
  by (simp add: frame_terminal_eq exit_choice.pick_None filter_empty_conv)

section \<open>The life cycle over a resolved frame\<close>

lemma resolve_early:
  "\<not> runs s \<Longrightarrow> snd (coop_session_resolve alloc s) = s"
  by (auto simp: runs_def coop_session_resolve_def)

lemma resolve_cycle: "roster_le death_life s (snd (coop_session_resolve alloc s))"
proof (cases "runs s")
  case False
  then show ?thesis by (simp add: resolve_early)
next
  case True
  let ?s1 = "s\<lparr>resolved := True, events := sort_events (events s)\<rparr>"
  have "roster_le death_life s ?s1" by (rule roster_le_same_players) simp_all
  moreover have "roster_le death_life ?s1 (after_lethal alloc s)"
    unfolding after_lethal_def by (rule cycle.R_lethal)
  moreover have "roster_le death_life (after_lethal alloc s) (after_loop alloc s)"
    unfolding after_loop_def by (rule cycle.R_process)
  moreover have "roster_le death_life (after_loop alloc s)
      (conclude alloc (frame_terminal s) (after_loop alloc s))"
    by (rule roster_le_same_players) simp_all
  ultimately show ?thesis
    using True by (simp add: resolve_runs) (blast intro: roster_le_trans)
qed

interpretation resolve_op: roster_op "\<lambda>s. snd (coop_session_resolve alloc s)" death_life for alloc
  by unfold_locales (auto simp: resolve_cycle intro: life_step.intros)

section \<open>Who is playing after the lethal hits\<close>

lemma die_ids [simp]: "ids (die alloc i s) = ids s"
  by (auto simp: die_def Let_def ids_def map_upd_at_same dead_player_def)

lemma die_players:
  "players (die alloc i s) =
     (if p_life (players s ! i) = COOP_PLAYING then upd_at i dead_player (players s) else players s)"
  by (auto simp: die_def Let_def)

lemma lethal_step_ids [simp]: "ids (lethal_step alloc s e) = ids s"
  by (auto simp: lethal_step_def split: option.split)

lemma is_playing_lethal_step:
  "is_playing (lethal_step alloc s e) a \<longleftrightarrow>
     is_playing s a \<and> \<not> (lethal_event e \<and> e_player e = a)"
proof (cases "coop_player s (e_player e)")
  case None
  then show ?thesis by (auto simp: lethal_step_def is_playing_def)
next
  case (Some i)
  then have i: "i < length (players s)" "p_id (players s ! i) = e_player e"
    by (auto dest: coop_player_SomeD)
  have same: "coop_player (die alloc i s) a = coop_player s a" by (rule coop_player_cong) simp
  show ?thesis
  proof (cases "lethal_event e")
    case False
    with Some show ?thesis by (simp add: lethal_step_def)
  next
    case True
    have "is_playing (die alloc i s) a \<longleftrightarrow> is_playing s a \<and> e_player e \<noteq> a"
    proof (cases "coop_player s a")
      case None
      with same show ?thesis by (simp add: is_playing_def)
    next
      case (Some j)
      then have j: "j < length (players s)" "p_id (players s ! j) = a"
        by (auto dest: coop_player_SomeD)
      have "e_player e = a \<longleftrightarrow> j = i" using Some \<open>coop_player s (e_player e) = Some i\<close> j i by auto
      with Some same i show ?thesis
        by (cases "j = i") (auto simp: is_playing_def die_players dead_player_def)
    qed
    with Some True show ?thesis by (simp add: lethal_step_def)
  qed
qed

lemma is_playing_lethal:
  "is_playing (foldl (lethal_step alloc) s es) a \<longleftrightarrow>
     is_playing s a \<and> \<not> (\<exists>e \<in> set es. lethal_event e \<and> e_player e = a)"
  by (induction es arbitrary: s) (auto simp: is_playing_lethal_step)

lemma is_playing_sorted [simp]:
  "is_playing (s\<lparr>resolved := r, events := es\<rparr>) = is_playing s"
  by (rule is_playing_same) (simp_all add: ids_def life_at_def)

text \<open>The players that act on the world this frame: playing, and not hit by anything lethal.\<close>

definition survives :: "CoopSession \<Rightarrow> u32 \<Rightarrow> bool" where
  "survives s a \<longleftrightarrow> is_playing s a \<and> \<not> (\<exists>e \<in> set (events s). lethal_event e \<and> e_player e = a)"

lemma is_playing_after_lethal: "is_playing (after_lethal alloc s) a \<longleftrightarrow> survives s a"
  by (simp add: after_lethal_def is_playing_lethal survives_def)

lemma is_playing_after_loop: "is_playing (after_loop alloc s) a \<longleftrightarrow> survives s a"
  using playing.R_process [where s = "after_lethal alloc s" and alloc = alloc]
  by (simp add: after_loop_def is_playing_after_lethal)

lemma is_playing_resolve:
  assumes "runs s"
  shows "is_playing (snd (coop_session_resolve alloc s)) a \<longleftrightarrow> survives s a"
proof -
  have "is_playing (conclude alloc t u) = is_playing u" for t u
    by (rule is_playing_same) (simp_all add: life_at_def)
  then show ?thesis using assms by (simp add: resolve_runs is_playing_after_loop)
qed

section \<open>Contacts\<close>

interpretation contact_choice: selection "better_contact s" for s
proof (rule selection_key [where key = "\<lambda>e. (e_distance_squared e, rank s (e_player e))"])
  show "better_contact s x y \<longleftrightarrow>
      (e_distance_squared x, rank s (e_player x)) < (e_distance_squared y, rank s (e_player y))" for x y
    by (auto simp: better_contact_def precedes_rank less_prod_simp)
qed

lemma better_contact_cong: "primary s = primary t \<Longrightarrow> better_contact s = better_contact t"
  by (auto simp: better_contact_def fun_eq_iff coop_player_precedes_def)

definition bounces :: "CoopEvent \<Rightarrow> CoopEvent \<Rightarrow> u32 \<Rightarrow> bool" where
  "bounces e v b \<longleftrightarrow> e_kind e = COOP_EVENT_ENEMY_CONTACT \<and> e_flags v AND COOP_EVENT_STOMP \<noteq> 0 \<and>
     b \<noteq> e_player v"

lemma contact_step_apply:
  "contact_step alloc e (w, b, s) v =
     (if is_playing s (e_player v)
      then (case w of None \<Rightarrow> Some v | Some u \<Rightarrow> if better_contact s v u then Some v else Some u,
            if bounces e v b then e_player v else b,
            if bounces e v b
            then emit alloc COOP_ACTION_STOMP_BOUNCE (e_player v) (e_entity v) 0 s else s)
      else (w, b, s))"
  by (auto simp: contact_step_def is_playing_def bounces_def Let_def split: option.split)

lemma contact_foldl:
  assumes "foldl (contact_step alloc e) (w, b, s) grp = (w', b', s')"
  shows "w' = pick (better_contact s) w (filter (\<lambda>v. is_playing s (e_player v)) grp) \<and>
         (e_kind e \<noteq> COOP_EVENT_ENEMY_CONTACT \<longrightarrow> s' = s)"
  using assms
proof (induction grp arbitrary: w b s)
  case Nil
  then show ?case by simp
next
  case (Cons v grp)
  obtain w1 b1 s1 where st: "contact_step alloc e (w, b, s) v = (w1, b1, s1)"
    by (metis prod_cases3)
  with Cons.prems have "foldl (contact_step alloc e) (w1, b1, s1) grp = (w', b', s')" by simp
  from Cons.IH [OF this]
  have w': "w' = pick (better_contact s1) w1 (filter (\<lambda>v. is_playing s1 (e_player v)) grp)"
    and s': "e_kind e \<noteq> COOP_EVENT_ENEMY_CONTACT \<longrightarrow> s' = s1" by auto
  have s1: "primary s1 = primary s" "is_playing s1 = is_playing s"
    "e_kind e \<noteq> COOP_EVENT_ENEMY_CONTACT \<Longrightarrow> s1 = s"
    using st by (auto simp: contact_step_apply bounces_def split: if_splits)
  have "w1 = (if is_playing s (e_player v)
      then (case w of None \<Rightarrow> Some v | Some u \<Rightarrow> if better_contact s v u then Some v else Some u)
      else w)"
    using st by (simp add: contact_step_apply split: if_splits)
  with w' s' s1 show ?case by (simp add: better_contact_cong [OF s1(1)])
qed

definition pickup_action :: "CoopEvent \<Rightarrow> CoopAction" where
  "pickup_action w = \<lparr>a_kind = COOP_ACTION_PICKUP, a_player = e_player w,
     a_entity = e_entity w, a_value = e_value w\<rparr>"

definition picks :: "u32 \<Rightarrow> CoopSession \<Rightarrow> CoopAction list" where
  "picks n s = filter (\<lambda>a. a_kind a = COOP_ACTION_PICKUP \<and> a_entity a = n) (actions s)"

definition pick_events :: "CoopSession \<Rightarrow> u32 \<Rightarrow> CoopEvent list \<Rightarrow> CoopEvent list" where
  "pick_events s n es = filter (\<lambda>v. e_kind v = COOP_EVENT_PICKUP \<and> e_entity v = n \<and>
     is_playing s (e_player v)) es"

lemma picks_emit_other: "k \<noteq> COOP_ACTION_PICKUP \<Longrightarrow> picks n (emit alloc k p ent v s) = picks n s"
  using emit_actions [of alloc k p ent v s] by (auto simp: picks_def)

lemma picks_upd [simp]: "picks n (upd_player i f s) = picks n s"
  by (simp add: picks_def)

lemma picks_reach: "picks n (reach_checkpoint alloc e s) = picks n s"
  by (simp add: reach_checkpoint_def picks_emit_other) (simp add: picks_def)

lemma picks_damage: "picks n (damage alloc e pi s) = picks n s"
  by (simp add: damage_def Let_def picks_emit_other split: option.split)

lemma picks_death_finished: "picks n (death_finished pi s) = picks n s"
  by (cases pi) (simp_all add: death_finished_def)

lemma picks_contact_enemy:
  assumes "e_kind e = COOP_EVENT_ENEMY_CONTACT"
  shows "picks n (contact_group alloc e grp s) = picks n s"
proof -
  have "picks n (snd (snd (foldl (contact_step alloc e) (w, b, s) grp))) = picks n s" for w b
  proof (induction grp arbitrary: w b s)
    case (Cons v grp)
    obtain w1 b1 s1 where st: "contact_step alloc e (w, b, s) v = (w1, b1, s1)"
      by (metis prod_cases3)
    then have "picks n s1 = picks n s"
      by (auto simp: contact_step_apply picks_emit_other split: if_splits)
    with Cons st show ?case by simp
  qed simp
  from this [of None COOP_NO_PLAYER] assms show ?thesis
    by (auto simp: contact_group_def picks_emit_other split: prod.split option.split)
qed

lemma picks_contact_pickup:
  assumes k: "e_kind e = COOP_EVENT_PICKUP"
    and ok: "\<not> failed (contact_group alloc e grp s)"
    and same: "\<And>v. v \<in> set grp \<Longrightarrow> same_group e v"
  shows "picks n (contact_group alloc e grp s) = picks n s @
     (case pick (better_contact s) None (pick_events s n grp) of None \<Rightarrow> []
      | Some w \<Rightarrow> [pickup_action w])"
proof -
  obtain w b s1 where f: "foldl (contact_step alloc e) (None, COOP_NO_PLAYER, s) grp = (w, b, s1)"
    by (metis prod_cases3)
  from contact_foldl [OF f] k
  have w: "w = pick (better_contact s) None (filter (\<lambda>v. is_playing s (e_player v)) grp)"
    and s1: "s1 = s" by auto
  have grp: "contact_group alloc e grp s =
      (case w of None \<Rightarrow> s
       | Some u \<Rightarrow> emit alloc COOP_ACTION_PICKUP (e_player u) (e_entity u) (e_value u) s)"
    using f s1 k by (simp add: contact_group_def split: option.split)
  have ent: "e_entity u = e_entity e" if "w = Some u" for u
    using contact_choice.pick_best [of s "filter (\<lambda>v. is_playing s (e_player v)) grp" u] that w same
    by (auto simp: same_group_def)
  have acts: "actions (contact_group alloc e grp s) = actions s @ [pickup_action u]" if "w = Some u" for u
    using that ok emit_ok [of alloc COOP_ACTION_PICKUP "e_player u" "e_entity u" "e_value u" s]
    by (simp add: grp pickup_action_def)
  have w': "pick (better_contact s) None (pick_events s n grp) = (if e_entity e = n then w else None)"
  proof (cases "e_entity e = n")
    case True
    then have "pick_events s n grp = filter (\<lambda>v. is_playing s (e_player v)) grp"
      unfolding pick_events_def using same k
      by (intro filter_cong) (auto simp: same_group_def)
    with True w show ?thesis by simp
  next
    case False
    then have "pick_events s n grp = []"
      unfolding pick_events_def using same
      by (auto simp: filter_empty_conv same_group_def)
    with False show ?thesis by simp
  qed
  show ?thesis
  proof (cases w)
    case None
    then show ?thesis by (simp add: w' grp)
  next
    case (Some u)
    then show ?thesis
      using acts [OF Some] ent [OF Some]
      by (simp add: w' picks_def pickup_action_def)
  qed
qed

lemma contact_group_frame [simp]:
  "primary (contact_group alloc e grp s) = primary s"
  "is_playing (contact_group alloc e grp s) = is_playing s"
  using scalars.R_contact [where s = s and alloc = alloc and e = e and grp = grp]
    playing.R_contact [where s = s and alloc = alloc and e = e and grp = grp]
  by auto

lemma not_failed_process:
  "\<not> failed (process alloc sw ck es s) \<Longrightarrow> \<not> failed s"
  using fail.R_process [where s = s and alloc = alloc and sw = sw and ck = ck and es = es] by auto

text \<open>In a sorted list the events of one kind and entity are adjacent.\<close>

lemma sorted_group:
  assumes "sorted (map event_key (e # es))" "v \<in> set (dropWhile (same_group e) es)"
  shows "\<not> same_group e v"
proof -
  define gk :: "CoopEvent \<Rightarrow> u32 \<times> u32" where "gk = (\<lambda>v. (kind_code (e_kind v), e_entity v))"
  have le: "gk a \<le> gk b" if "event_key a \<le> event_key b" for a b
    using that by (auto simp: gk_def event_key_def less_eq_prod_simp)
  have eq: "same_group e v \<longleftrightarrow> gk v = gk e" for v
    by (simp add: same_group_def gk_def)
  obtain f fs where d: "dropWhile (same_group e) es = f # fs"
    using assms(2) by (cases "dropWhile (same_group e) es") auto
  have "\<not> same_group e f" using d by (metis hd_dropWhile list.distinct(1) list.sel(1))
  moreover have "f \<in> set es" using d by (metis set_dropWhileD list.set_intros(1))
  ultimately have "gk e < gk f"
    using assms(1) le [of e f] by (auto simp: eq order.strict_iff_order)
  moreover have "gk f \<le> gk v"
  proof -
    have "sorted (map event_key (dropWhile (same_group e) es))"
      using assms(1) by (simp add: sorted_map_dropWhile)
    then show ?thesis using assms(2) d le by auto
  qed
  ultimately show ?thesis by (auto simp: eq)
qed

lemma sorted_rest:
  "sorted (map event_key (e # es)) \<Longrightarrow> sorted (map event_key (dropWhile P es))"
  by (simp add: sorted_map_dropWhile)

definition pick_result :: "CoopSession \<Rightarrow> u32 \<Rightarrow> CoopEvent list \<Rightarrow> CoopAction list" where
  "pick_result s n es =
     (case pick (better_contact s) None (pick_events s n es) of None \<Rightarrow> []
      | Some w \<Rightarrow> [pickup_action w])"

lemma pick_events_append: "pick_events s n (xs @ ys) = pick_events s n xs @ pick_events s n ys"
  by (simp add: pick_events_def)

lemma pick_result_cong:
  "primary s = primary t \<Longrightarrow> is_playing s = is_playing t \<Longrightarrow> pick_result s n es = pick_result t n es"
  by (simp add: pick_result_def pick_events_def better_contact_cong [of s t])

lemma pick_result_skip:
  "e_kind e \<noteq> COOP_EVENT_PICKUP \<Longrightarrow> pick_result s n (e # es) = pick_result s n es"
  by (simp add: pick_result_def pick_events_def)

lemma pick_result_effect [simp]:
  "pick_result (emit alloc k p ent v s) n es = pick_result s n es"
  "pick_result (reach_checkpoint alloc e s) n es = pick_result s n es"
  "pick_result (damage alloc e (coop_player s (e_player e)) s) n es = pick_result s n es"
  "pick_result (death_finished (coop_player s a) s) n es = pick_result s n es"
  "pick_result (contact_group alloc e grp s) n es = pick_result s n es"
  using scalars.R_damage [where s = s and alloc = alloc and e = e] scalars.R_death_finished [where s = s and a = a] scalars.R_reach [where s = s and alloc = alloc and e = e]
    playing.R_damage [where s = s and alloc = alloc and e = e] playing.R_death_finished [where s = s and a = a] playing.R_reach [where s = s and alloc = alloc and e = e]
  by (auto intro!: pick_result_cong)

lemma pick_result_enemy:
  assumes "e_kind e = COOP_EVENT_ENEMY_CONTACT"
  shows "pick_result s n (e # es) = pick_result s n (dropWhile (same_group e) es)"
proof -
  have "pick_events s n (takeWhile (same_group e) es) = []"
    using assms by (auto simp: pick_events_def filter_empty_conv same_group_def dest!: set_takeWhileD)
  then have "pick_events s n es = pick_events s n (dropWhile (same_group e) es)"
    using pick_events_append [of s n "takeWhile (same_group e) es" "dropWhile (same_group e) es"]
    by simp
  with assms show ?thesis by (simp add: pick_result_def pick_events_def)
qed

text \<open>A group of one entity settles that entity: nothing is left for it, and it is all there is.\<close>

lemma pick_result_group:
  assumes "sorted (map event_key (e # es))" "e_kind e = COOP_EVENT_PICKUP"
  shows "pick_result s n (e # takeWhile (same_group e) es) @
         pick_result s n (dropWhile (same_group e) es) = pick_result s n (e # es)"
proof -
  let ?g = "e # takeWhile (same_group e) es" and ?d = "dropWhile (same_group e) es"
  have split: "pick_events s n (e # es) = pick_events s n ?g @ pick_events s n ?d"
    using pick_events_append [of s n ?g ?d] by simp
  have g: "v \<in> set ?g \<Longrightarrow> same_group e v" for v
    by (auto simp: same_group_def dest!: set_takeWhileD)
  show ?thesis
  proof (cases "e_entity e = n")
    case True
    have "\<not> (e_kind v = COOP_EVENT_PICKUP \<and> e_entity v = n)" if "v \<in> set ?d" for v
      using sorted_group [OF assms(1) that] True assms(2) by (simp add: same_group_def)
    then have "pick_events s n ?d = []" by (auto simp: pick_events_def filter_empty_conv)
    with split show ?thesis by (simp add: pick_result_def)
  next
    case False
    then have "\<not> (e_kind v = COOP_EVENT_PICKUP \<and> e_entity v = n)" if "v \<in> set ?g" for v
      using g [OF that] by (simp add: same_group_def)
    then have "pick_events s n ?g = []" by (simp only: pick_events_def filter_empty_conv) blast
    with split show ?thesis by (simp add: pick_result_def)
  qed
qed

lemma process_picks:
  "sorted (map event_key es) \<Longrightarrow> \<not> failed (process alloc sw ck es s) \<Longrightarrow>
     picks n (process alloc sw ck es s) = picks n s @ pick_result s n es"
proof (induction alloc sw ck es s rule: process.induct)
  case (1 alloc sw ck s)
  show ?case by (simp add: pick_result_def pick_events_def)
next
  case (2 alloc sw ck e es s)
  have rest: "sorted (map event_key es)" "sorted (map event_key (dropWhile (same_group e) es))"
    using "2.prems"(1) sorted_rest [of e es] by auto
  show ?case
  proof (cases "e_kind e")
    case COOP_EVENT_PICKUP
    let ?t = "contact_group alloc e (e # takeWhile (same_group e) es) s"
    from "2.prems"(2) COOP_EVENT_PICKUP
    have nf: "\<not> failed (process alloc sw ck (dropWhile (same_group e) es) ?t)" by simp
    have "picks n (process alloc sw ck (dropWhile (same_group e) es) ?t) =
        picks n ?t @ pick_result ?t n (dropWhile (same_group e) es)"
      using "2.IH"(1) [OF refl COOP_EVENT_PICKUP rest(2) nf] .
    moreover have "picks n ?t = picks n s @ pick_result s n (e # takeWhile (same_group e) es)"
      unfolding pick_result_def
      by (rule picks_contact_pickup [OF COOP_EVENT_PICKUP not_failed_process [OF nf]])
        (auto simp: same_group_def dest!: set_takeWhileD)
    ultimately show ?thesis
      using COOP_EVENT_PICKUP pick_result_group [OF "2.prems"(1) COOP_EVENT_PICKUP] by simp
  next
    case COOP_EVENT_ENEMY_CONTACT
    let ?t = "contact_group alloc e (e # takeWhile (same_group e) es) s"
    from COOP_EVENT_ENEMY_CONTACT "2.IH"(2) [OF refl _ rest(2)] "2.prems"(2) show ?thesis
      by (simp add: picks_contact_enemy pick_result_enemy)
  next
    case COOP_EVENT_ON_OFF
    with "2.IH"(3) [OF refl _ rest(1)] "2.prems"(2) show ?thesis
      by (simp add: pick_result_skip picks_emit_other split: if_splits)
  next
    case COOP_EVENT_CHECKPOINT
    with "2.IH"(4) [OF refl _ rest(1)] "2.prems"(2) show ?thesis
      by (simp add: pick_result_skip picks_reach split: if_splits)
  next
    case COOP_EVENT_DAMAGE
    with "2.IH"(5) [OF refl _ rest(1)] "2.prems"(2) show ?thesis
      by (simp add: pick_result_skip picks_damage)
  next
    case COOP_EVENT_DEATH
    with "2.IH"(6) [OF refl _ rest(1)] "2.prems"(2) show ?thesis by (simp add: pick_result_skip)
  next
    case COOP_EVENT_DEATH_FINISHED
    with "2.IH"(7) [OF refl _ rest(1)] "2.prems"(2) show ?thesis
      by (simp add: pick_result_skip picks_death_finished)
  next
    case COOP_EVENT_TIMEOUT
    with "2.IH"(8) [OF refl _ rest(1)] "2.prems"(2) show ?thesis by (simp add: pick_result_skip)
  next
    case COOP_EVENT_EXIT
    with "2.IH"(9) [OF refl _ rest(1)] "2.prems"(2) show ?thesis by (simp add: pick_result_skip)
  qed
qed

section \<open>Protection\<close>

text \<open>
  \<open>hits a s\<close> counts the queued damage of player \<open>a\<close>; \<open>shielded\<close> players are those the branch for
  damage passes over: absent, under a star, or protected since an earlier hit.
\<close>

definition hits :: "u32 \<Rightarrow> CoopSession \<Rightarrow> nat" where
  "hits a s = length (filter (\<lambda>x. a_kind x = COOP_ACTION_DAMAGE \<and> a_player x = a) (actions s))"

definition shielded :: "u32 \<Rightarrow> CoopSession \<Rightarrow> bool" where
  "shielded a s =
     (case coop_player s a of None \<Rightarrow> True
      | Some i \<Rightarrow> p_star_ticks (players s ! i) \<noteq> 0 \<or> p_protection_ticks (players s ! i) \<noteq> 0)"

definition at_most_one_hit :: "u32 \<Rightarrow> CoopSession \<Rightarrow> CoopSession \<Rightarrow> bool" where
  "at_most_one_hit a s t \<longleftrightarrow>
     ticks_per_second t = ticks_per_second s \<and>
     (0 < ticks_per_second s \<and> ticks_per_second s \<le> 1000 \<longrightarrow>
       (if shielded a s then shielded a t \<and> hits a t = hits a s
        else hits a t = hits a s \<or> (shielded a t \<and> hits a t = Suc (hits a s))))"

lemma hits_emit_other: "k \<noteq> COOP_ACTION_DAMAGE \<Longrightarrow> hits a (emit alloc k p ent v s) = hits a s"
  using emit_actions [of alloc k p ent v s] by (auto simp: hits_def)

lemma hits_emit: "hits a (emit alloc k p ent v s) \<in> {hits a s, Suc (hits a s)}"
  using emit_actions [of alloc k p ent v s] by (auto simp: hits_def)

lemma hits_emit_player: "p \<noteq> a \<Longrightarrow> hits a (emit alloc k p ent v s) = hits a s"
  using emit_actions [of alloc k p ent v s] by (auto simp: hits_def)

lemma hits_upd [simp]: "hits a (upd_player i f s) = hits a s"
  by (simp add: hits_def)

lemma shielded_same:
  assumes "ids t = ids s"
    and "\<And>i. coop_player s a = Some i \<Longrightarrow>
      p_star_ticks (players t ! i) = p_star_ticks (players s ! i) \<and>
      p_protection_ticks (players t ! i) = p_protection_ticks (players s ! i)"
  shows "shielded a t = shielded a s"
  using coop_player_cong [OF assms(1), of a] assms(2) by (auto simp: shielded_def split: option.split)

lemma shielded_emit [simp]: "shielded a (emit alloc k p ent v s) = shielded a s"
  by (rule shielded_same) (simp_all add: ids_def)

lemma hz_protects:
  fixes hz :: u32
  assumes "0 < hz" "hz \<le> 1000"
  shows "hz * 2 \<noteq> 0"
proof -
  have "unat hz \<noteq> 0" "unat hz \<le> 1000"
    using assms by (simp_all add: word_less_nat_alt word_le_nat_alt)
  then have "unat (hz * 2) \<noteq> 0" by (simp add: unat_word_ariths)
  then show ?thesis by auto
qed

lemma damage_cases:
  obtains (same) "damage alloc e (coop_player s (e_player e)) s = s"
  | (hit) i s1 where "coop_player s (e_player e) = Some i"
      "\<not> shielded (e_player e) s" "players s1 = players s \<or> players s1 = upd_at i (p_reserve_update (\<lambda>_. 0)) (players s)"
      "\<And>a. hits a s1 = hits a s" "ticks_per_second s1 = ticks_per_second s"
      "damage alloc e (coop_player s (e_player e)) s =
         emit alloc COOP_ACTION_DAMAGE (e_player e) COOP_NO_ENTITY 0
           (upd_player i (hurt_player (ticks_per_second s)) s1)"
proof (cases "coop_player s (e_player e)")
  case None
  then show ?thesis using same by (simp add: damage_def)
next
  case (Some i)
  then have id: "p_id (players s ! i) = e_player e" by (auto dest: coop_player_SomeD)
  let ?p = "players s ! i"
  let ?s1 = "if p_reserve ?p \<noteq> 0
     then upd_player i (p_reserve_update (\<lambda>_. 0))
            (emit alloc COOP_ACTION_DROP_RESERVE (p_id ?p) COOP_NO_ENTITY (p_reserve ?p) s) else s"
  show ?thesis
  proof (cases "p_life ?p \<noteq> COOP_PLAYING \<or> p_star_ticks ?p \<noteq> 0 \<or> p_protection_ticks ?p \<noteq> 0 \<or>
      e_flags e AND COOP_EVENT_LETHAL \<noteq> 0")
    case True
    with Some show ?thesis using same by (auto simp: damage_def Let_def)
  next
    case False
    then have "\<not> shielded (e_player e) s" using Some by (simp add: shielded_def)
    moreover have "players ?s1 = players s \<or> players ?s1 = upd_at i (p_reserve_update (\<lambda>_. 0)) (players s)"
      "\<And>a. hits a ?s1 = hits a s" "ticks_per_second ?s1 = ticks_per_second s"
      by (auto simp: hits_emit_other)
    moreover have "damage alloc e (coop_player s (e_player e)) s =
        emit alloc COOP_ACTION_DAMAGE (e_player e) COOP_NO_ENTITY 0
          (upd_player i (hurt_player (ticks_per_second s)) ?s1)"
      using False Some id by (simp add: damage_def Let_def)
    ultimately show ?thesis using Some hit by blast
  qed
qed

lemma damage_at_most_one: "at_most_one_hit a s (damage alloc e (coop_player s (e_player e)) s)"
proof (cases alloc e s rule: damage_cases)
  case same
  then show ?thesis by (simp add: at_most_one_hit_def)
next
  case (hit i s1)
  let ?t = "upd_player i (hurt_player (ticks_per_second s)) s1"
  have i: "i < length (players s)" "p_id (players s ! i) = e_player e"
    using hit(1) by (auto dest: coop_player_SomeD)
  have ids: "ids ?t = ids s"
    using hit(3) by (auto simp: ids_def map_upd_at_same hurt_player_def)
  show ?thesis
  proof (cases "a = e_player e")
    case True
    have "coop_player ?t a = Some i" using hit(1) True coop_player_cong [OF ids] by simp
    then have "shielded a ?t" if "0 < ticks_per_second s" "ticks_per_second s \<le> 1000"
      using hit(3) i hz_protects [OF that] by (auto simp: shielded_def hurt_player_def)
    then show ?thesis
      using hit True hits_emit [of a alloc COOP_ACTION_DAMAGE a COOP_NO_ENTITY 0 ?t]
      by (auto simp: at_most_one_hit_def)
  next
    case False
    have "shielded a ?t = shielded a s"
    proof (rule shielded_same [OF ids])
      fix j
      assume "coop_player s a = Some j"
      then have "j \<noteq> i" using i False by (auto dest: coop_player_SomeD)
      then show "p_star_ticks (players ?t ! j) = p_star_ticks (players s ! j) \<and>
          p_protection_ticks (players ?t ! j) = p_protection_ticks (players s ! j)"
        using hit(3) by auto
    qed
    then show ?thesis
      using hit False by (auto simp: at_most_one_hit_def hits_emit_player)
  qed
qed

interpretation one_hit: loop_contract alloc "at_most_one_hit a" for alloc a
proof unfold_locales
  show "at_most_one_hit a s s" for s by (simp add: at_most_one_hit_def)
  show "at_most_one_hit a s t \<Longrightarrow> at_most_one_hit a t u \<Longrightarrow> at_most_one_hit a s u" for s t u
    by (auto simp: at_most_one_hit_def split: if_splits)
  show "at_most_one_hit a s (emit alloc k p ent v s)"
    if "k \<in> {COOP_ACTION_PICKUP, COOP_ACTION_ENEMY_DAMAGE, COOP_ACTION_STOMP_BOUNCE, COOP_ACTION_ON_OFF}"
    for s k p ent v
    using that by (auto simp: at_most_one_hit_def hits_emit_other)
  show "at_most_one_hit a s (reach_checkpoint alloc e s)" for s e
  proof -
    have "shielded a (reach_checkpoint alloc e s) = shielded a s"
      by (rule shielded_same)
        (auto simp: reach_checkpoint_def ids_def comp_def checkpoint_player_def Let_def
          dest: coop_player_SomeD)
    moreover have "hits a (reach_checkpoint alloc e s) = hits a s"
      by (simp add: reach_checkpoint_def hits_emit_other) (simp add: hits_def)
    ultimately show ?thesis by (simp add: at_most_one_hit_def reach_checkpoint_def)
  qed
  show "at_most_one_hit a s (damage alloc e (coop_player s (e_player e)) s)" for s e
    by (rule damage_at_most_one)
  show "at_most_one_hit a s (death_finished (coop_player s b) s)" for s b
  proof (cases "coop_player s b")
    case None
    then show ?thesis by (simp add: death_finished_def at_most_one_hit_def)
  next
    case (Some i)
    have "shielded a (upd_player i (finish_death hz) s) = shielded a s" for hz
      by (rule shielded_same)
        (simp_all add: ids_def map_upd_at_same upd_at_field finish_death_def)
    with Some show ?thesis by (simp add: death_finished_alt at_most_one_hit_def)
  qed
qed

section \<open>What the lethal hits queue\<close>

lemma die_queue:
  "picks n (die alloc i s) = picks n s" "hits a (die alloc i s) = hits a s"
  by (simp_all add: die_def Let_def picks_emit_other hits_emit_other)

lemma lethal_queue:
  "picks n (foldl (lethal_step alloc) s es) = picks n s"
  "hits a (foldl (lethal_step alloc) s es) = hits a s"
  by (induction es arbitrary: s) (auto simp: lethal_step_def die_queue split: option.split)

lemma picks_after_lethal: "picks n (after_lethal alloc s) = picks n s"
  by (simp add: after_lethal_def lethal_queue) (simp add: picks_def)

lemma hits_after_lethal: "hits a (after_lethal alloc s) = hits a s"
  by (simp add: after_lethal_def lethal_queue) (simp add: hits_def)

lemma after_lethal_hz: "ticks_per_second (after_lethal alloc s) = ticks_per_second s"
  using scalars.R_lethal [of alloc _ "sort_events (events s)"] by (auto simp: after_lethal_def)

lemma shielded_lethal:
  "\<forall>e \<in> set es. lethal_event e \<longrightarrow> e_player e \<noteq> a \<Longrightarrow>
     shielded a (foldl (lethal_step alloc) s es) = shielded a s"
proof (induction es arbitrary: s)
  case Nil
  then show ?case by simp
next
  case (Cons e es)
  have "shielded a (lethal_step alloc s e) = shielded a s"
  proof (rule shielded_same)
    show "ids (lethal_step alloc s e) = ids s" by simp
    fix j
    assume "coop_player s a = Some j"
    then have "p_id (players s ! j) = a" by (auto dest: coop_player_SomeD)
    then have "k \<noteq> j" if "coop_player s (e_player e) = Some k" "lethal_event e" for k
      using that Cons.prems coop_player_SomeD [OF that(1)] by auto
    then show "p_star_ticks (players (lethal_step alloc s e) ! j) = p_star_ticks (players s ! j) \<and>
        p_protection_ticks (players (lethal_step alloc s e) ! j) = p_protection_ticks (players s ! j)"
      by (auto simp: lethal_step_def die_players split: option.split)
  qed
  with Cons show ?case by simp
qed

lemma shielded_after_lethal: "survives s a \<Longrightarrow> shielded a (after_lethal alloc s) = shielded a s"
proof -
  assume "survives s a"
  then have "shielded a (after_lethal alloc s) =
      shielded a (s\<lparr>resolved := True, events := sort_events (events s)\<rparr>)"
    unfolding after_lethal_def by (intro shielded_lethal) (auto simp: survives_def)
  also have "\<dots> = shielded a s" by (rule shielded_same) (simp_all add: ids_def)
  finally show ?thesis .
qed

section \<open>What the dying lose\<close>

text \<open>
  \<open>losses\<close>: the actions that take an object, a mount or the life from player \<open>a\<close>, in the order
  queued; \<open>parting\<close>: those that \<open>die\<close> queues for a player, from what the player has.
\<close>

definition losses :: "u32 \<Rightarrow> CoopSession \<Rightarrow> CoopAction list" where
  "losses a s = filter (\<lambda>x. a_player x = a \<and>
     a_kind x \<in> {COOP_ACTION_DROP_OBJECT, COOP_ACTION_DETACH_MOUNT, COOP_ACTION_DEATH}) (actions s)"

definition loss :: "CoopActionKind \<Rightarrow> u32 \<Rightarrow> u32 \<Rightarrow> CoopAction" where
  "loss k a ent = \<lparr>a_kind = k, a_player = a, a_entity = ent, a_value = 0\<rparr>"

definition parting :: "CoopPlayer \<Rightarrow> CoopAction list" where
  "parting p =
     (if p_held_object p \<noteq> COOP_NO_ENTITY
      then [loss COOP_ACTION_DROP_OBJECT (p_id p) (p_held_object p)] else []) @
     (if p_mount p \<noteq> COOP_NO_ENTITY
      then [loss COOP_ACTION_DETACH_MOUNT (p_id p) (p_mount p)] else []) @
     [loss COOP_ACTION_DEATH (p_id p) COOP_NO_ENTITY]"

definition dies :: "CoopSession \<Rightarrow> u32 \<Rightarrow> bool" where
  "dies s a \<longleftrightarrow> is_playing s a \<and> (\<exists>e \<in> set (events s). lethal_event e \<and> e_player e = a)"

definition belongings :: "CoopSession \<Rightarrow> (u32 \<times> u32) list" where
  "belongings s = map (\<lambda>p. (p_held_object p, p_mount p)) (players s)"

lemma losses_emit_other:
  "k \<notin> {COOP_ACTION_DROP_OBJECT, COOP_ACTION_DETACH_MOUNT, COOP_ACTION_DEATH} \<or> p \<noteq> a \<Longrightarrow>
     losses a (emit alloc k p ent v s) = losses a s"
  using emit_actions [of alloc k p ent v s] by (auto simp: losses_def)

lemma losses_emit:
  assumes "\<not> failed (emit alloc k a ent 0 s)"
    and "k \<in> {COOP_ACTION_DROP_OBJECT, COOP_ACTION_DETACH_MOUNT, COOP_ACTION_DEATH}"
  shows "losses a (emit alloc k a ent 0 s) = losses a s @ [loss k a ent]"
  using emit_ok [OF assms(1)] assms(2) by (auto simp: losses_def loss_def)

lemma losses_upd [simp]: "losses a (upd_player i f s) = losses a s"
  by (simp add: losses_def)

definition keeps_belongings :: "CoopSession \<Rightarrow> CoopSession \<Rightarrow> bool" where
  "keeps_belongings s t \<longleftrightarrow> (\<forall>a. losses a t = losses a s) \<and> belongings t = belongings s"

lemma belongings_emit [simp]: "belongings (emit alloc k p ent v s) = belongings s"
  by (simp add: belongings_def)

lemma belongings_upd:
  assumes "\<And>p. p_held_object (f p) = p_held_object p" "\<And>p. p_mount (f p) = p_mount p"
  shows "belongings (upd_player i f s) = belongings s"
  by (simp add: belongings_def map_upd_at_same assms)

interpretation loop_keeps: loop_contract alloc keeps_belongings for alloc
proof unfold_locales
  show "keeps_belongings s s" for s by (simp add: keeps_belongings_def)
  show "keeps_belongings s t \<Longrightarrow> keeps_belongings t u \<Longrightarrow> keeps_belongings s u" for s t u
    by (simp add: keeps_belongings_def)
  show "keeps_belongings s (emit alloc k p ent v s)"
    if "k \<in> {COOP_ACTION_PICKUP, COOP_ACTION_ENEMY_DAMAGE, COOP_ACTION_STOMP_BOUNCE, COOP_ACTION_ON_OFF}"
    for s k p ent v
    using that by (auto simp: keeps_belongings_def losses_emit_other)
  show "keeps_belongings s (reach_checkpoint alloc e s)" for s e
    by (auto simp: keeps_belongings_def reach_checkpoint_def losses_emit_other)
      (simp_all add: losses_def belongings_def checkpoint_player_def Let_def comp_def)
  show "keeps_belongings s (damage alloc e (coop_player s (e_player e)) s)" for s e
    by (auto simp: keeps_belongings_def damage_def Let_def losses_emit_other belongings_upd
        hurt_player_def split: option.split)
  show "keeps_belongings s (death_finished (coop_player s b) s)" for s b
    by (cases "coop_player s b")
      (auto simp: keeps_belongings_def death_finished_alt death_finished_def belongings_upd finish_death_def)
qed

lemma die_losses:
  assumes "p_life (players s ! i) = COOP_PLAYING" "\<not> failed (die alloc i s)"
  shows "losses a (die alloc i s) =
     losses a s @ (if p_id (players s ! i) = a then parting (players s ! i) else [])"
proof -
  define p where "p = players s ! i"
  define s1 where "s1 = (if p_held_object p \<noteq> COOP_NO_ENTITY
      then emit alloc COOP_ACTION_DROP_OBJECT (p_id p) (p_held_object p) 0 s else s)"
  define s2 where "s2 = (if p_mount p \<noteq> COOP_NO_ENTITY
      then emit alloc COOP_ACTION_DETACH_MOUNT (p_id p) (p_mount p) 0 s1 else s1)"
  have die: "die alloc i s =
      emit alloc COOP_ACTION_DEATH (p_id p) COOP_NO_ENTITY 0 (upd_player i dead_player s2)"
    using assms(1) by (simp add: die_def Let_def p_def s1_def s2_def)
  with assms(2) have "\<not> failed s2" using emit_ok by fastforce
  then have "\<not> failed s1" by (auto simp: s2_def dest: emit_ok split: if_splits)
  show ?thesis
  proof (cases "p_id p = a")
    case False
    then show ?thesis by (simp add: die losses_emit_other s2_def s1_def p_def [symmetric])
  next
    case True
    have "losses a (die alloc i s) = losses a s2 @ [loss COOP_ACTION_DEATH a COOP_NO_ENTITY]"
      using assms(2) True by (simp add: die losses_emit)
    moreover have "losses a s2 = losses a s1 @ (if p_mount p \<noteq> COOP_NO_ENTITY
        then [loss COOP_ACTION_DETACH_MOUNT a (p_mount p)] else [])"
      using \<open>\<not> failed s2\<close> True by (cases "p_mount p = COOP_NO_ENTITY") (simp_all add: s2_def losses_emit)
    moreover have "losses a s1 = losses a s @ (if p_held_object p \<noteq> COOP_NO_ENTITY
        then [loss COOP_ACTION_DROP_OBJECT a (p_held_object p)] else [])"
      using \<open>\<not> failed s1\<close> True by (cases "p_held_object p = COOP_NO_ENTITY") (simp_all add: s1_def losses_emit)
    ultimately show ?thesis using True by (simp add: parting_def p_def [symmetric])
  qed
qed

definition hit_lethally :: "CoopEvent list \<Rightarrow> CoopSession \<Rightarrow> u32 \<Rightarrow> bool" where
  "hit_lethally es s a \<longleftrightarrow> is_playing s a \<and> (\<exists>e \<in> set es. lethal_event e \<and> e_player e = a)"

lemma lethal_step_player:
  assumes "coop_player s a = Some i"
  shows "players (lethal_step alloc s e) ! i =
     (if is_playing s a \<and> lethal_event e \<and> e_player e = a then dead_player (players s ! i)
      else players s ! i)"
proof -
  have i: "i < length (players s)" "p_id (players s ! i) = a"
    using assms by (auto dest: coop_player_SomeD)
  show ?thesis
  proof (cases "coop_player s (e_player e)")
    case None
    with assms show ?thesis by (auto simp: lethal_step_def)
  next
    case (Some j)
    then have "j = i \<longleftrightarrow> e_player e = a"
      using assms i by (auto dest: coop_player_SomeD)
    with Some assms i show ?thesis
      by (auto simp: lethal_step_def die_players is_playing_def)
  qed
qed

lemma lethal_step_losses:
  assumes "coop_player s a = Some i" "\<not> failed (lethal_step alloc s e)"
  shows "losses a (lethal_step alloc s e) = losses a s @
     (if is_playing s a \<and> lethal_event e \<and> e_player e = a then parting (players s ! i) else [])"
proof (cases "coop_player s (e_player e)")
  case None
  with assms show ?thesis by (auto simp: lethal_step_def)
next
  case (Some j)
  then have j: "p_id (players s ! j) = e_player e" "e_player e = a \<Longrightarrow> j = i"
    using assms(1) by (auto dest: coop_player_SomeD)
  show ?thesis
  proof (cases "lethal_event e \<and> p_life (players s ! j) = COOP_PLAYING")
    case False
    with Some j assms show ?thesis by (auto simp: lethal_step_def die_def is_playing_def)
  next
    case True
    with Some assms(2) have "\<not> failed (die alloc j s)" by (simp add: lethal_step_def)
    with True Some j assms(1) show ?thesis
      by (auto simp: lethal_step_def die_losses is_playing_def)
  qed
qed

lemma lethal_fold_player:
  assumes "coop_player s a = Some i"
  shows "players (foldl (lethal_step alloc) s es) ! i =
     (if hit_lethally es s a then dead_player (players s ! i) else players s ! i)"
  using assms
proof (induction es arbitrary: s)
  case (Cons e es)
  have "coop_player (lethal_step alloc s e) a = Some i"
    using Cons.prems coop_player_cong [of "lethal_step alloc s e" s] by simp
  from Cons.IH [OF this] Cons.prems show ?case
    by (auto simp: hit_lethally_def lethal_step_player is_playing_lethal_step)
qed (simp add: hit_lethally_def)

lemma lethal_fold_losses:
  assumes "coop_player s a = Some i" "\<not> failed (foldl (lethal_step alloc) s es)"
  shows "losses a (foldl (lethal_step alloc) s es) =
     losses a s @ (if hit_lethally es s a then parting (players s ! i) else [])"
  using assms
proof (induction es arbitrary: s)
  case (Cons e es)
  let ?s = "lethal_step alloc s e"
  have c: "coop_player ?s a = Some i"
    using Cons.prems(1) coop_player_cong [of ?s s] by simp
  have "\<not> failed ?s" using Cons.prems(2) fail.R_lethal [where s = ?s and es = es and alloc = alloc] by auto
  with Cons.IH [OF c] Cons.prems show ?case
    by (auto simp: hit_lethally_def lethal_step_losses lethal_step_player is_playing_lethal_step)
qed (simp add: hit_lethally_def)

lemma lethal_fold_ids: "ids (foldl (lethal_step alloc) s es) = ids s"
  by (induction es arbitrary: s) simp_all

lemma conclude_losses: "losses a (conclude alloc f s) = losses a s"
  by (auto simp: conclude_def Let_def losses_emit_other split: prod.split option.split)
    (simp_all add: losses_def)

lemma conclude_failed: "failed s \<Longrightarrow> failed (conclude alloc f s)"
  by (auto simp: conclude_def Let_def emit_failed_mono split: prod.split option.split)

lemma resolve_belongings:
  assumes "runs s" "coop_session_resolve alloc s = (ok, t)" "coop_player s a = Some i"
  shows "(p_held_object (players t ! i), p_mount (players t ! i)) =
      (if dies s a then (COOP_NO_ENTITY, COOP_NO_ENTITY)
       else (p_held_object (players s ! i), p_mount (players s ! i))) \<and>
    (ok \<longrightarrow> losses a t = losses a s @ (if dies s a then parting (players s ! i) else []))"
proof -
  let ?s = "s\<lparr>resolved := True, events := sort_events (events s)\<rparr>"
  have t: "t = conclude alloc (frame_terminal s) (after_loop alloc s)" "ok = (\<not> failed t)"
    using assms(1,2) by (auto simp: resolve_runs)
  have c: "coop_player ?s a = Some i"
    using assms(3) coop_player_cong [of ?s s a] by (simp add: ids_def)
  have hit: "hit_lethally (sort_events (events s)) ?s a = dies s a"
    by (simp add: hit_lethally_def dies_def)
  have kept: "keeps_belongings (after_lethal alloc s) (after_loop alloc s)"
    unfolding after_loop_def by (rule loop_keeps.R_process)
  have i: "i < length (players s)" using assms(3) by (auto dest: coop_player_SomeD)
  have len: "length (players (after_lethal alloc s)) = length (players s)"
  proof -
    have "ids (after_lethal alloc s) = ids ?s"
      unfolding after_lethal_def by (rule lethal_fold_ids)
    then show ?thesis by (simp add: ids_def) (metis length_map)
  qed
  have at: "players (after_lethal alloc s) ! i =
      (if dies s a then dead_player (players s ! i) else players s ! i)"
    using lethal_fold_player [OF c, of alloc "sort_events (events s)"] hit
    by (simp add: after_lethal_def)
  have "(p_held_object (players t ! i), p_mount (players t ! i)) = belongings (after_loop alloc s) ! i"
    using i kept len unfolding keeps_belongings_def
    by (metis (no_types, lifting) belongings_def conclude_frame(1) length_map nth_map t(1))
  also have "\<dots> = belongings (after_lethal alloc s) ! i" using kept by (simp add: keeps_belongings_def)
  also have "\<dots> = (p_held_object (players (after_lethal alloc s) ! i),
      p_mount (players (after_lethal alloc s) ! i))"
    using i len by (simp add: belongings_def)
  finally have b: "(p_held_object (players t ! i), p_mount (players t ! i)) =
      (if dies s a then (COOP_NO_ENTITY, COOP_NO_ENTITY)
       else (p_held_object (players s ! i), p_mount (players s ! i)))"
    by (simp add: at dead_player_def)
  have "losses a t = losses a s @ (if dies s a then parting (players s ! i) else [])" if ok
  proof -
    have nf: "\<not> failed (after_loop alloc s)" using that t conclude_failed by blast
    then have "\<not> failed (after_lethal alloc s)"
      using fail.R_process [where s = "after_lethal alloc s" and alloc = alloc] by (auto simp: after_loop_def)
    then have "losses a (after_lethal alloc s) =
        losses a ?s @ (if dies s a then parting (players s ! i) else [])"
      using lethal_fold_losses [OF c, of alloc "sort_events (events s)"] hit
      by (simp add: after_lethal_def)
    moreover have "losses a ?s = losses a s" by (simp add: losses_def)
    ultimately show ?thesis
      using kept by (simp add: t(1) conclude_losses keeps_belongings_def)
  qed
  with b show ?thesis by blast
qed

section \<open>The properties of a resolved frame\<close>

text \<open>C1. The outcome of a frame does not depend on the order in which its events were reported.\<close>

theorem resolve_order_independent:
  assumes "runs s" "mset es = mset (events s)"
  shows "coop_session_resolve alloc (s\<lparr>events := es\<rparr>) = coop_session_resolve alloc s"
proof -
  let ?s' = "s\<lparr>events := es\<rparr>"
  have "es = [] \<longleftrightarrow> events s = []" using assms(2) by (metis mset_zero_iff_right)
  with assms(1) have "runs ?s'" by (simp add: runs_def)
  have eq: "sort_events es = sort_events (events s)" using assms(2) by (rule sort_events_perm)
  then have "after_lethal alloc ?s' = after_lethal alloc s" "frame_terminal ?s' = frame_terminal s"
    by (simp_all add: after_lethal_def frame_terminal_def)
  with eq have "after_loop alloc ?s' = after_loop alloc s" by (simp add: after_loop_def)
  with \<open>frame_terminal ?s' = frame_terminal s\<close> show ?thesis
    using assms(1) \<open>runs ?s'\<close> by (simp add: resolve_runs)
qed

text \<open>
  C2. A valid clear wins over deaths and timeout and costs no life; otherwise a timeout, or nobody
  left playing, costs one life and is a retry or, without lives left, the end of the game.
\<close>

theorem resolve_outcome:
  assumes "runs s" "t = snd (coop_session_resolve alloc s)"
  shows "if \<exists>e \<in> set (events s). e_kind e = COOP_EVENT_EXIT
         then outcome t = COOP_CLEAR \<and> lives t = lives s
         else if (\<exists>e \<in> set (events s). e_kind e = COOP_EVENT_TIMEOUT) \<or> coop_active_count t = 0
         then lives t = (if lives s = 0 then 0 else lives s - 1) \<and>
              outcome t = (if lives s > 1 then COOP_RETRY else COOP_GAME_OVER)
         else outcome t = COOP_CONTINUE \<and> lives t = lives s"
proof -
  let ?u = "after_loop alloc s"
  have t: "t = conclude alloc (frame_terminal s) ?u" using assms by (simp add: resolve_runs)
  have active: "coop_active_count t = coop_active_count ?u" by (simp add: t coop_active_count_def)
  have u: "lives ?u = lives s" "outcome ?u = COOP_CONTINUE"
    using assms(1) by (simp_all add: after_loop_scalars runs_def)
  have gt1: "lives s > 1 \<longleftrightarrow> lives s \<noteq> 0 \<and> lives s - 1 \<noteq> 0" by unat_arith
  show ?thesis
  proof (cases "\<exists>e \<in> set (events s). e_kind e = COOP_EVENT_EXIT")
    case True
    then obtain x where "fst (frame_terminal s) = Some x" using frame_exit_None [of s] by fastforce
    with True u show ?thesis by (cases "frame_terminal s") (simp add: t conclude_def)
  next
    case False
    then have "fst (frame_terminal s) = None" by (simp add: frame_exit_None)
    then obtain g where f: "frame_terminal s =
        (None, \<exists>e \<in> set (events s). e_kind e = COOP_EVENT_TIMEOUT, g)"
      by (simp add: frame_terminal_eq)
    have "t = conclude alloc (None, \<exists>e \<in> set (events s). e_kind e = COOP_EVENT_TIMEOUT, g) ?u"
      by (simp only: t f)
    with False u gt1 show ?thesis unfolding active by (auto simp: conclude_def Let_def)
  qed
qed

text \<open>
  When the frame is cleared, its last action is the exit of highest priority among the exits
  reached (secret before ordinary, then player precedence), with the largest goal value in bits 8
  and up.
\<close>

lemma resolve_exit_action:
  assumes "runs s" "coop_session_resolve alloc s = (True, t)"
    and "\<exists>e \<in> set (events s). e_kind e = COOP_EVENT_EXIT"
  shows "\<exists>x g. x \<in> set (events s) \<and> e_kind x = COOP_EVENT_EXIT \<and>
     (\<forall>e \<in> set (events s). e_kind e = COOP_EVENT_EXIT \<longrightarrow> \<not> better_exit s e x \<and> e_value e \<le> g) \<and>
     (\<exists>e \<in> set (events s). e_kind e = COOP_EVENT_EXIT \<and> e_value e = g) \<and>
     last (actions t) = \<lparr>a_kind = COOP_ACTION_EXIT, a_player = e_player x, a_entity = e_entity x,
                         a_value = secret x OR push_bit 8 g\<rparr>"
proof -
  let ?xs = "filter (\<lambda>e. e_kind e = COOP_EVENT_EXIT) (sort_events (events s))"
  define g where "g = foldl max 0 (map e_value ?xs)"
  obtain x where x: "pick (better_exit s) None ?xs = Some x"
    using assms(3) frame_exit_None [of s] by (fastforce simp: frame_terminal_eq)
  note best = exit_choice.pick_best [OF x]
  have ok: "\<not> failed t" and t: "t = conclude alloc (frame_terminal s) (after_loop alloc s)"
    using assms(1,2) by (auto simp: resolve_runs)
  have "t = emit alloc COOP_ACTION_EXIT (e_player x) (e_entity x) (secret x OR push_bit 8 g)
      ((after_loop alloc s)\<lparr>outcome := COOP_CLEAR\<rparr>)"
    unfolding t by (simp add: frame_terminal_eq x conclude_def g_def)
  with ok have "last (actions t) = \<lparr>a_kind = COOP_ACTION_EXIT, a_player = e_player x,
      a_entity = e_entity x, a_value = secret x OR push_bit 8 g\<rparr>"
    using emit_ok by fastforce
  moreover have "\<exists>e \<in> set (events s). e_kind e = COOP_EVENT_EXIT \<and> e_value e = g"
  proof (cases "g = 0")
    case True
    then show ?thesis
      using foldl_max_set [of 0 "map e_value ?xs"] assms(3) unfolding g_def [symmetric]
      by force
  next
    case False
    then show ?thesis
      using foldl_max_set [of 0 "map e_value ?xs"] unfolding g_def [symmetric] by auto
  qed
  moreover have "\<forall>e \<in> set (events s). e_kind e = COOP_EVENT_EXIT \<longrightarrow>
      \<not> better_exit s e x \<and> e_value e \<le> g"
    using best foldl_max_set [of 0 "map e_value ?xs"] unfolding g_def [symmetric] by auto
  ultimately show ?thesis using best by auto
qed

text \<open>
  C3. Exactly the playing players for which a death or lethal damage is reported (\<open>dies\<close>) begin to
  die in a frame, and everybody only moves forward along playing, dying, death bubble.  Who dies ends the frame
  without a held object and without a mount, all others keep theirs; and when the frame is resolved, the
  actions that drop an object, detach a mount or report a death are exactly one group for each player who dies,
  naming the object and the mount it had, and none for anybody else.
\<close>

theorem resolve_deaths:
  assumes "runs s" "coop_session_resolve alloc s = (ok, t)"
  shows "roster_le death_life s t \<and>
     (\<forall>a. is_playing t a \<longleftrightarrow> is_playing s a \<and> \<not> dies s a) \<and>
     (\<forall>a i. coop_player s a = Some i \<longrightarrow>
        (p_held_object (players t ! i), p_mount (players t ! i)) =
          (if dies s a then (COOP_NO_ENTITY, COOP_NO_ENTITY)
           else (p_held_object (players s ! i), p_mount (players s ! i))) \<and>
        (ok \<longrightarrow> losses a t = losses a s @ (if dies s a then parting (players s ! i) else [])))"
  using resolve_cycle [of s alloc] is_playing_resolve [OF assms(1), of alloc] assms(2)
    resolve_belongings [OF assms]
  by (auto simp: survives_def dies_def)

text \<open>
  Of the pickups reported for one entity exactly one is granted, to a closest toucher that is
  still playing (ties by precedence); none is granted when no toucher is playing.
\<close>

lemma resolve_pickup_once:
  assumes "runs s" "coop_session_resolve alloc s = (True, t)" "actions s = []"
  shows "let touch = {v \<in> set (events s). e_kind v = COOP_EVENT_PICKUP \<and> e_entity v = n \<and>
                                          survives s (e_player v)}
         in if touch = {} then picks n t = []
            else \<exists>w \<in> touch. picks n t = [pickup_action w] \<and> (\<forall>v \<in> touch. \<not> better_contact s v w)"
proof -
  let ?es = "sort_events (events s)" and ?s2 = "after_lethal alloc s"
  have ok: "\<not> failed t" and t: "t = conclude alloc (frame_terminal s) (after_loop alloc s)"
    using assms(1,2) by (auto simp: resolve_runs)
  have "picks n t = picks n (after_loop alloc s)"
    unfolding t by (auto simp: conclude_def Let_def picks_emit_other split: prod.split option.split)
      (simp_all add: picks_def)
  moreover have "\<not> failed (after_loop alloc s)"
    using ok unfolding t
    by (auto simp: conclude_def Let_def split: prod.splits option.splits if_splits dest!: emit_ok)
  then have "picks n (after_loop alloc s) = picks n ?s2 @ pick_result ?s2 n ?es"
    unfolding after_loop_def by (intro process_picks sorted_sort_events)
  moreover have "picks n ?s2 = []" using assms(3) by (simp add: picks_after_lethal) (simp add: picks_def)
  ultimately have r: "picks n t = pick_result s' n ?es" if "s' = ?s2" for s' using that by simp
  have pe: "pick_events ?s2 n ?es = filter (\<lambda>v. e_kind v = COOP_EVENT_PICKUP \<and> e_entity v = n \<and>
      survives s (e_player v)) ?es"
    by (simp add: pick_events_def is_playing_after_lethal)
  have bc: "better_contact ?s2 = better_contact s"
    by (rule better_contact_cong) (simp add: after_lethal_scalars)
  show ?thesis
  proof (cases "pick (better_contact s) None (pick_events ?s2 n ?es)")
    case None
    then have "pick_events ?s2 n ?es = []" by (simp add: contact_choice.pick_None)
    with None r [OF refl] show ?thesis
      by (auto simp: Let_def pick_result_def bc pe filter_empty_conv)
  next
    case (Some w)
    with r [OF refl] contact_choice.pick_best [OF Some] show ?thesis
      by (auto simp: Let_def pick_result_def bc pe)
  qed
qed

text \<open>
  However many hits are reported, a player is damaged at most once in a frame, and not at all
  under a star or while protected (for a player that no lethal event reaches).
\<close>

lemma resolve_damage_once:
  assumes "runs s" "t = snd (coop_session_resolve alloc s)" "actions s = []"
    and "0 < ticks_per_second s" "ticks_per_second s \<le> 1000"
  shows "hits a t \<le> 1 \<and> (survives s a \<and> shielded a s \<longrightarrow> hits a t = 0)"
proof -
  let ?s2 = "after_lethal alloc s" and ?u = "after_loop alloc s"
  have "hits a t = hits a ?u"
    using assms(1,2) by (auto simp: resolve_runs conclude_def Let_def hits_emit_other
        split: prod.split option.split) (simp_all add: hits_def)
  moreover have "at_most_one_hit a ?s2 ?u"
    unfolding after_loop_def by (rule one_hit.R_process)
  moreover have "hits a ?s2 = 0" using assms(3) by (simp add: hits_after_lethal) (simp add: hits_def)
  moreover have "ticks_per_second ?s2 = ticks_per_second s" by (simp add: after_lethal_hz)
  moreover have "survives s a \<Longrightarrow> shielded a ?s2 = shielded a s" by (rule shielded_after_lethal)
  ultimately show ?thesis
    using assms(4,5) by (auto simp: at_most_one_hit_def split: if_splits)
qed

end
