(* ===== verification/Witnesses.thy ===== *)
theory Witnesses
  imports Coop_Resolve_Facts Coop_Terrain Coop_Machine_Facts Coop_State_Facts
begin

text \<open>
  Concrete sessions, machines, memories and buffers on which the hypotheses of the properties hold:
  each witness applies its property to one of them.
\<close>

section \<open>Two players\<close>

definition duo :: CoopSession where
  "duo = zero_session\<lparr>players := [new_player 0, new_player 1], ticks_per_second := 60, lives := 5,
     advancing := True, action_capacity := 16, event_capacity := 16\<rparr>"

definition report :: "CoopEventKind \<Rightarrow> u32 \<Rightarrow> CoopEvent" where
  "report k p = \<lparr>e_kind = k, e_player = p, e_entity = 7, e_value = 3, e_flags = 1, e_distance_squared = 0\<rparr>"

definition reported :: "CoopEventKind \<Rightarrow> u32 \<Rightarrow> CoopSession" where
  "reported k p = duo\<lparr>events := [report k p]\<rparr>"

definition everything :: allocator where
  "everything = (\<lambda>n. True)"

lemma duo_simps [simp]: "players duo = [new_player 0, new_player 1]" "ticks_per_second duo = 60"
  "\<not> failed duo" "outcome duo = COOP_CONTINUE" "\<not> resolved duo" "advancing duo" "actions duo = []"
  "action_capacity duo = 16" "event_capacity duo = 16" "lives duo = 5" "primary duo = 0"
  "camera duo = zero_camera" "events duo = []"
  by (simp_all add: duo_def zero_session_def)

lemma reported_runs: "runs (reported k p)"
  by (simp add: runs_def reported_def)

lemmas frame_eval = coop_session_resolve_def reported_def report_def Let_def sort_events_def
  terminal_events_def terminal_step_def lethal_step_def lethal_event_def coop_player_def emit_def
  SIZE_MAX_def conclude_def new_player_def zero_player_def contact_group_def contact_step_def
  coop_active_count_def everything_def

lemma exit_ok: "fst (coop_session_resolve everything (reported COOP_EVENT_EXIT 1))"
  by (simp add: frame_eval)

lemma pickup_ok: "fst (coop_session_resolve everything (reported COOP_EVENT_PICKUP 1))"
  by (simp add: frame_eval)

lemma with_result: "fst p \<Longrightarrow> \<exists>t. p = (True, t)"
  by (cases p) simp

theorem resolve_order_independent_witness:
  "coop_session_resolve everything (duo\<lparr>events := [report COOP_EVENT_EXIT 1, report COOP_EVENT_DEATH 0]\<rparr>) =
   coop_session_resolve everything (duo\<lparr>events := [report COOP_EVENT_DEATH 0, report COOP_EVENT_EXIT 1]\<rparr>)"
  using resolve_order_independent [of "duo\<lparr>events := [report COOP_EVENT_DEATH 0, report COOP_EVENT_EXIT 1]\<rparr>"
      "[report COOP_EVENT_EXIT 1, report COOP_EVENT_DEATH 0]" everything]
  by (simp add: runs_def)

theorem resolve_outcome_witness:
  "outcome (snd (coop_session_resolve everything (reported COOP_EVENT_EXIT 1))) = COOP_CLEAR"
  using resolve_outcome [of "reported COOP_EVENT_EXIT 1" "snd (coop_session_resolve everything (reported COOP_EVENT_EXIT 1))"
      everything] reported_runs
  by (simp add: reported_def report_def)

lemma resolve_exit_action_witness:
  "\<exists>t. coop_session_resolve everything (reported COOP_EVENT_EXIT 1) = (True, t) \<and>
     a_kind (last (actions t)) = COOP_ACTION_EXIT"
proof -
  obtain t where t: "coop_session_resolve everything (reported COOP_EVENT_EXIT 1) = (True, t)"
    using with_result [OF exit_ok] by blast
  have "\<exists>e \<in> set (events (reported COOP_EVENT_EXIT 1)). e_kind e = COOP_EVENT_EXIT"
    by (simp add: reported_def report_def)
  from resolve_exit_action [OF reported_runs t this] t show ?thesis by auto
qed

text \<open>Player 1 dies with an object in its hands and on a mount.\<close>

definition burdened :: CoopSession where
  "burdened = (reported COOP_EVENT_DEATH 1)\<lparr>players :=
     [new_player 0, (new_player 1)\<lparr>p_held_object := 7, p_mount := 9\<rparr>]\<rparr>"

theorem resolve_deaths_witness:
  "\<exists>t. coop_session_resolve everything burdened = (True, t) \<and> \<not> is_playing t 1 \<and> is_playing t 0 \<and>
     p_held_object (players t ! 1) = COOP_NO_ENTITY \<and> losses 0 t = [] \<and>
     losses 1 t = [loss COOP_ACTION_DROP_OBJECT 1 7, loss COOP_ACTION_DETACH_MOUNT 1 9,
                   loss COOP_ACTION_DEATH 1 COOP_NO_ENTITY]"
proof -
  have s: "runs burdened" "coop_player burdened 0 = Some 0" "coop_player burdened 1 = Some 1"
    "losses 0 burdened = []" "losses 1 burdened = []"
    by (simp_all add: runs_def burdened_def reported_def coop_player_def losses_def new_player_def)
  have d: "dies burdened 1" "is_playing burdened 0" "\<not> dies burdened 0"
    by (simp_all add: dies_def is_playing_def lethal_event_def burdened_def reported_def report_def
        coop_player_def new_player_def zero_player_def)
  have "fst (coop_session_resolve everything burdened)"
    by (simp add: burdened_def frame_eval die_def upd_player_def upd_at_def COOP_NO_ENTITY_def dead_player_def)
  then obtain t where t: "coop_session_resolve everything burdened = (True, t)"
    using with_result by blast
  note r = resolve_deaths [OF s(1) t]
  have alive: "\<not> is_playing t 1" "is_playing t 0"
    using r d by blast+
  have each: "coop_player burdened a = Some i \<Longrightarrow>
      (p_held_object (players t ! i), p_mount (players t ! i)) =
        (if dies burdened a then (COOP_NO_ENTITY, COOP_NO_ENTITY)
         else (p_held_object (players burdened ! i), p_mount (players burdened ! i))) \<and>
      losses a t = losses a burdened @ (if dies burdened a then parting (players burdened ! i) else [])" for a i
    using r by blast
  have one: "p_held_object (players t ! 1) = COOP_NO_ENTITY"
      "losses 1 t = losses 1 burdened @ parting (players burdened ! 1)"
    and zero: "losses 0 t = losses 0 burdened"
    using each [OF s(2)] each [OF s(3)] d(1,3) by simp_all
  have "parting (players burdened ! 1) = [loss COOP_ACTION_DROP_OBJECT 1 7, loss COOP_ACTION_DETACH_MOUNT 1 9,
      loss COOP_ACTION_DEATH 1 COOP_NO_ENTITY]"
    by (simp add: parting_def burdened_def new_player_def COOP_NO_ENTITY_def)
  with alive one zero s t show ?thesis by simp
qed

lemma resolve_pickup_once_witness:
  "\<exists>t. coop_session_resolve everything (reported COOP_EVENT_PICKUP 1) = (True, t) \<and>
     picks 7 t = [pickup_action (report COOP_EVENT_PICKUP 1)]"
proof -
  obtain t where t: "coop_session_resolve everything (reported COOP_EVENT_PICKUP 1) = (True, t)"
    using with_result [OF pickup_ok] by blast
  have a: "actions (reported COOP_EVENT_PICKUP 1) = []" by (simp add: reported_def)
  have touch: "{v \<in> set (events (reported COOP_EVENT_PICKUP 1)). e_kind v = COOP_EVENT_PICKUP \<and> e_entity v = 7 \<and>
      survives (reported COOP_EVENT_PICKUP 1) (e_player v)} = {report COOP_EVENT_PICKUP 1}"
    by (auto simp: reported_def report_def survives_def lethal_event_def is_playing_def coop_player_def
        new_player_def zero_player_def)
  from resolve_pickup_once [OF reported_runs t a, of 7] touch t show ?thesis by (simp add: Let_def)
qed

lemma resolve_damage_once_witness:
  "hits 1 (snd (coop_session_resolve everything (reported COOP_EVENT_DAMAGE 1))) \<le> 1"
  using resolve_damage_once [of "reported COOP_EVENT_DAMAGE 1"
      "snd (coop_session_resolve everything (reported COOP_EVENT_DAMAGE 1))" everything 1] reported_runs
  by (simp add: reported_def)

section \<open>Views\<close>

text \<open>The two players at two places.\<close>

definition duo_at :: "i32 \<Rightarrow> i32 \<Rightarrow> CoopSession" where
  "duo_at x1 x2 = duo\<lparr>players := [(new_player 0)\<lparr>p_x := x1, p_y := 100\<rparr>, (new_player 1)\<lparr>p_x := x2, p_y := 100\<rparr>]\<rparr>"

lemmas view_eval = coop_camera_frame_def Let_def duo_at_def coop_active_count_def new_player_def
  zero_player_def sized_camera_def zero_camera_def

lemma duo_at_ok: "fst (coop_camera_frame 256 224 5120 432 False (duo_at x1 x2))" "coop_active_count (duo_at x1 x2) > 0"
  by (simp_all add: view_eval)

lemma duo_at_box:
  "bounding_box (duo_at 100 1000) = (92, 1008, 92, 108)" "bounding_box (duo_at 100 200) = (92, 208, 92, 108)"
  by (simp_all add: bounding_box_def playing_players_def duo_at_def new_player_def zero_player_def bounds_step_def
      left_edge_def right_edge_def top_edge_def bottom_edge_def INT32_MAX_def INT32_MIN_def signed_divide_int_def)

theorem camera_view_in_room_witness:
  "\<exists>t. coop_camera_frame 256 224 5120 432 False (duo_at 100 1000) = (True, t) \<and> sint (c_x (camera t)) \<le> 4864"
proof -
  obtain t where t: "coop_camera_frame 256 224 5120 432 False (duo_at 100 1000) = (True, t)"
    using with_result [OF duo_at_ok(1)] by blast
  from camera_view_in_room [OF t duo_at_ok(2)] t show ?thesis by simp
qed


text \<open>Player 1 completes its second outside the view, with an object in its hands.\<close>

definition straggling :: CoopSession where
  "straggling = duo\<lparr>players := [new_player 0, (new_player 1)\<lparr>p_x := 1000, p_separation_ticks := 59, p_held_object := 7\<rparr>],
     camera := zero_camera\<lparr>c_width := 256, c_height := 224, c_leader := 0\<rparr>\<rparr>"

theorem catchup_rule_witness:
  "\<exists>t. coop_camera_check_separation everything False straggling = (True, t) \<and>
     p_life (players t ! 1) = COOP_CATCHUP_BUBBLE \<and> p_recovery_ticks (players t ! 1) = 30 \<and>
     actions t = [loss COOP_ACTION_DROP_OBJECT 1 7]"
proof -
  note eval = straggling_def coop_active_count_def new_player_def zero_player_def outside_view_def left_edge_def
    right_edge_def top_edge_def bottom_edge_def signed_divide_int_def zero_camera_def
  have "fst (coop_camera_check_separation everything False straggling)"
    by (simp add: coop_camera_check_separation_def Let_def separation_step_def upd_player_def upd_at_def emit_def
        everything_def SIZE_MAX_def COOP_NO_ENTITY_def eval)
  then obtain t where t: "coop_camera_check_separation everything False straggling = (True, t)"
    using with_result by blast
  have o: "overdue straggling (players straggling ! 1)" "\<not> overdue straggling (players straggling ! 0)"
    by (simp_all add: overdue_def eval)
  have c: "coop_active_count straggling = 2" by (simp add: eval)
  have b: "bubbled False straggling 1" "\<not> bubbled False straggling 0"
    using o c by (simp_all add: bubbled_def others_left_def overdue_before_def) (simp add: eval)
  have p: "length (players straggling) = 2" "advancing straggling" "outcome straggling = COOP_CONTINUE"
    "\<not> c_autoscroll (camera straggling)" "actions straggling = []"
    by (simp_all add: eval)
  have "players t = map (separated False straggling) [0..<2]"
    "actions t = concat (map (bubble_drop False straggling) [0..<2])"
    using catchup_rule [OF t] p by simp_all
  moreover have "separated False straggling 1 = strand_player 60 (players straggling ! 1)"
    using b(1) o(1) by (simp add: separated_def Let_def bubbled_def overdue_def) (simp add: eval)
  moreover have "bubble_drop False straggling 1 = [loss COOP_ACTION_DROP_OBJECT 1 7]"
    "bubble_drop False straggling 0 = []"
    using b by (simp_all add: bubble_drop_def loss_def) (simp add: eval COOP_NO_ENTITY_def)
  ultimately show ?thesis using t by (simp add: strand_player_def upt_rec)
qed

section \<open>A returning player\<close>

text \<open>Player 0 plays in water; player 1 waits in a bubble whose time is over.\<close>

definition swimmer :: CoopPlayer where
  "swimmer = (new_player 0)\<lparr>p_x := 200, p_y := 200, p_swimming := True\<rparr>"

definition waiting :: CoopPlayer where
  "waiting = (new_player 1)\<lparr>p_life := COOP_CATCHUP_BUBBLE\<rparr>"

definition rescue :: CoopSession where
  "rescue = duo\<lparr>players := [swimmer, waiting]\<rparr>"

text \<open>A level without collision layers, sprites or other bodies.\<close>

definition open_water :: CoopTerrain where
  "open_water = \<lparr>t_ram = (\<lambda>a. if a = 0x5b then 0x40 else 0), t_rom = [], t_session = None, t_entities = []\<rparr>"

lemma rescue_simps [simp]: "players rescue = [swimmer, waiting]" "primary rescue = 0" "\<not> failed rescue"
  "advancing rescue" "outcome rescue = COOP_CONTINUE" "ticks_per_second rescue = 60"
  "actions rescue = []" "action_capacity rescue = 16"
  by (simp_all add: rescue_def)

lemma rescue_named: "named_roster rescue"
  by (simp add: named_roster_def ids_def swimmer_def waiting_def new_player_def COOP_NO_PLAYER_def)

lemma swimmer_life [simp]: "p_life swimmer = COOP_PLAYING" "p_life waiting = COOP_CATCHUP_BUBBLE"
  by (simp_all add: swimmer_def waiting_def new_player_def zero_player_def)

lemma rescue_playing: "playing_players rescue = [swimmer]"
  by (simp add: playing_players_def)

lemma water_answer:
  "players s = players rescue \<Longrightarrow> terrain_query open_water s waiting swimmer = Some (224, 202)"
  by (simp add: terrain_query_def coop_terrain_safe_def offsets_def safe_at_def Let_def body_height_def
      body_clearance_def body_half_def waiting_def swimmer_def new_player_def zero_player_def
      COOP_NO_ENTITY_def open_water_def signed_divide_int_def layer_step_def layer_active_def upt_rec
      clear_of_sprites_def touches_def)

lemma rescue_ids [simp]: "p_id swimmer = 0" "p_id waiting = 1" "p_recovery_ticks waiting = 0"
  "p_held_object waiting = COOP_NO_ENTITY"
  by (simp_all add: swimmer_def waiting_def new_player_def zero_player_def)

definition rescued :: CoopSession where
  "rescued = snd (coop_session_recover everything (terrain_query open_water) rescue)"

lemma rescue_runs: "coop_session_recover everything (terrain_query open_water) rescue = (True, rescued)"
  and rescued_players: "players rescued = [swimmer, revive_player 60 224 202 waiting]"
   by (simp_all add: rescued_def coop_session_recover_def Let_def recover_step_def best_anchor_def anchor_step_def
     coop_player_def emit_def rescue_playing water_answer upd_player_def upd_at_def everything_def SIZE_MAX_def COOP_NO_PLAYER_def)

theorem recovery_spec_witness:
  "\<exists>x y. players rescued ! 1 = revive_player 60 x y waiting"
proof -
  have "returnable waiting" by (simp add: returnable_def)
  moreover have "recovery_at everything (terrain_query open_water) rescue 1 = rescue"
    by (simp add: recovery_at_def recover_step_def)
  moreover have "terrain_query open_water rescue waiting swimmer \<noteq> None"
    by (simp add: water_answer)
  ultimately show ?thesis
    using recovery_spec [OF rescue_runs _ _ rescue_named, of 1] by (auto simp: Let_def rescue_playing)
qed

theorem recovery_never_overlaps_witness:
  "terrain_clear waiting (p_x (players rescued ! 1)) (p_y (players rescued ! 1)) swimmer"
  using recovery_never_overlaps [OF rescue_runs _ _ rescue_named, of 1 0]
  by (simp add: rescued_players life_at_def)


theorem body_clear_exact_witness: "\<not> body_clear open_water 0 (- 1) 3 0 1 True"
proof -
  have "\<not> pixel_clear open_water 0 True (- 1) 0" by (simp add: pixel_clear_def coop_terrain_block_def)
  moreover have "(- 1 :: int) \<le> - 1 \<and> (- 1 :: int) \<le> 3 \<and> (0 :: int) \<le> 0 \<and> (0 :: int) < 1" by simp
  ultimately show ?thesis using body_clear_exact [of open_water 0 "- 1" 3 0 1 True] by blast
qed

section \<open>Buttons, places and machines\<close>

lemma input_latch_witness:
  "\<not> bit (p_pressed_input (coop_player_input 1 1 ((coop_player_input 1 1 waiting)\<lparr>p_life := COOP_PLAYING\<rparr>))) 0"
  using input_latch [of waiting 1 0 1 "[1]"] by (simp add: Let_def)

definition arena :: CoopMachine where
  "arena = zero_machine\<lparr>m_session := duo, m_next_entity := 1, m_entity_capacity := 16\<rparr>"

lemma arena_ok: "machine_ok arena"
  by (simp add: machine_ok_def arena_def zero_machine_def entity_table_def links_live_def new_player_def
      zero_player_def)

definition egged :: CoopMachine where
  "egged = arena\<lparr>m_entities := [new_entity 1 COOP_ENTITY_NORMAL 3 0x2c], m_next_entity := 2\<rparr>"

lemma arena_spawn: "coop_machine_spawn_entity everything COOP_ENTITY_NORMAL 3 0x2c arena = (Some 0, egged)"
  by (simp add: coop_machine_spawn_entity_def Let_def arena_def egged_def zero_machine_def entity_slot_valid_def
      COOP_ENTITY_NORMAL_def COOP_NO_ENTITY_def coop_machine_entity_slot_def)

lemma spawn_entity_spec_witness:
  "machine_ok egged \<and> coop_machine_entity_slot egged COOP_ENTITY_NORMAL 3 = Some 0"
  using spawn_entity_spec [OF arena_ok arena_spawn] by (auto simp: Let_def)


definition looking :: CoopMachine where
  "looking = arena\<lparr>m_focus_x := 100, m_focus_y := 50, m_focus_initialized := True, m_focus_count := 2\<rparr>"

lemma looking_simps [simp]: "m_focus_x looking = 100" "m_focus_y looking = 50" "m_focus_initialized looking"
  "m_focus_count looking = 2" "following 2 looking"
  by (simp_all add: looking_def arena_def zero_machine_def following_def)


text \<open>A Yoshi in slot 0 with a sprite of slot 5 in its mouth.\<close>

definition mouthful :: mem where
  "mouthful = (\<lambda>a. if a = 0x14c8 then 8 else if a = 0x9e then 0x35 else if a = 0x160e then 5
     else if 0x160e < a \<and> a < 0x161a then 0xff else 0)"

lemma mouthful_eating: "eating mouthful 0"
  by (simp add: eating_def coop_mount_mouth_active_def food_of_def mouthful_def)

lemma mouthful_active: "coop_mount_mouth_active mouthful s \<longleftrightarrow> s = 0"
  by (auto simp: coop_mount_mouth_active_def mouthful_def Let_def)

lemma mouthful_rest: "0 \<notin> set ss \<Longrightarrow> foldl (mouth_step arena mouthful) (Some r) ss = Some r"
  by (induction ss) (auto simp: mouth_step_def mouthful_active)

lemma mouthful_valid: "coop_machine_mouths_valid arena mouthful"
proof -
  have "mouth_step arena mouthful (Some (replicate 12 False)) 0 \<noteq> None"
    by (simp add: mouth_step_def mouthful_active Let_def) (simp add: mouthful_def arena_def zero_machine_def)
  then obtain r where "mouth_step arena mouthful (Some (replicate 12 False)) 0 = Some r" by blast
  then have "foldl (mouth_step arena mouthful) (Some (replicate 12 False)) [0..<12] = Some r"
    using mouthful_rest [of "[Suc 0..<12]" r] by (simp add: upt_conv_Cons)
  then show ?thesis
    by (simp add: coop_machine_mouths_valid_def berries_distinct_def arena_def zero_machine_def)
qed

section \<open>Saved sessions\<close>

lemma duo_valid: "valid duo"
  by (simp add: valid_def coop_player_def player_valid_def player_clash_def duo_def zero_session_def
      zero_camera_def new_player_def zero_player_def COOP_NO_PLAYER_def COOP_NO_ENTITY_def)

lemma duo_size: "coop_session_save_size duo = 332"
  by (simp add: coop_session_save_size_def encoded_size_def HEADER_SIZE_def PLAYER_SIZE_def EVENT_SIZE_def
      ACTION_SIZE_def SIZE_MAX_def COOP_NO_PLAYER_def)

lemma session_load_transactional_witness:
  "valid (duo\<lparr>event_capacity := 0, action_capacity := 0\<rparr>)"
proof -
  have "coop_session_load everything (sealed (session_image duo)) zero_session =
      (True, duo\<lparr>event_capacity := 0, action_capacity := 0\<rparr>)"
    using load_image [OF duo_valid, of everything zero_session] by (simp add: duo_size everything_def)
  from session_load_transactional [OF this] show ?thesis by simp
qed

end
