(* ===== verification/Coop_Storage.thy ===== *)
theory Coop_Storage
  imports Prelude
begin

text \<open>
  The save-file queue of \<^verbatim>\<open>src/mods/coop/coop_storage.c\<close>: the main thread copies the cartridge's SRAM
  into a queue, a worker thread writes the copies in order, and the main thread joins it, retries
  the newest failed copy of each path and keeps the queue when that fails too.

  The linked list is a list of images and a pointer into it is an index.  \<open>save\<close> stands for
  \<^verbatim>\<open>RtlWriteSramImage\<close> and acts on an abstract world, \<open>content\<close> reads a file of the world.  The mutex
  makes each of the worker's locked regions one step.
\<close>

section \<open>The queue and its two threads\<close>

record StorageImage =
  im_path :: string
  im_bytes :: "u8 list"
  im_success :: bool

text \<open>Where the worker is: in front of the test of \<open>pending\<close>, writing an image, or returned.\<close>

datatype Worker = Looking | Writing nat | Returned

record Storage =
  sg_images :: "StorageImage list"
  sg_pending :: "nat option"
  sg_worker :: "Worker option"
  sg_stopping :: bool

type_synonym 'w writer = "string \<Rightarrow> u8 list \<Rightarrow> 'w \<Rightarrow> bool \<times> 'w"

definition empty_storage :: Storage where
  "empty_storage = \<lparr>sg_images = [], sg_pending = None, sg_worker = None, sg_stopping = False\<rparr>"

definition next_image :: "Storage \<Rightarrow> nat \<Rightarrow> nat option" where
  "next_image s k = (if Suc k < length (sg_images s) then Some (Suc k) else None)"

definition write_image :: "'w writer \<Rightarrow> nat \<Rightarrow> StorageImage list \<times> 'w \<Rightarrow> StorageImage list \<times> 'w" where
  "write_image save k = (\<lambda>(images, w).
     case save (im_path (images ! k)) (im_bytes (images ! k)) w of
       (ok, w') \<Rightarrow> (upd_at k (im_success_update (\<lambda>_. ok)) images, w'))"

text \<open>One step of \<open>storage_worker\<close>; None when it waits for the condition or has no step to make.\<close>

definition storage_worker :: "'w writer \<Rightarrow> Storage \<times> 'w \<Rightarrow> (Storage \<times> 'w) option" where
  "storage_worker save = (\<lambda>(s, w).
     case sg_worker s of
       Some Looking \<Rightarrow>
         (case sg_pending s of
            None \<Rightarrow> if sg_stopping s then Some (s\<lparr>sg_worker := Some Returned\<rparr>, w) else None
          | Some k \<Rightarrow> Some (s\<lparr>sg_worker := Some (Writing k), sg_pending := next_image s k\<rparr>, w))
     | Some (Writing k) \<Rightarrow>
         (case write_image save k (sg_images s, w) of
            (images, w') \<Rightarrow> Some (s\<lparr>sg_images := images, sg_worker := Some Looking\<rparr>, w'))
     | _ \<Rightarrow> None)"

text \<open>\<open>SDL_WaitThread\<close>: the main thread is blocked while the worker runs to its end.\<close>

definition work_left :: "Storage \<Rightarrow> nat" where
  "work_left s = 2 * (case sg_pending s of None \<Rightarrow> 0 | Some k \<Rightarrow> Suc (length (sg_images s) - k)) +
     (case sg_worker s of Some (Writing k) \<Rightarrow> 2 | Some Looking \<Rightarrow> 1 | _ \<Rightarrow> 0)"

lemma worker_work_left: "storage_worker save (s, w) = Some (s', w') \<Longrightarrow> work_left s' < work_left s"
  by (auto simp: storage_worker_def work_left_def next_image_def write_image_def
      split: option.splits Worker.splits prod.splits if_splits)

function join_worker :: "'w writer \<Rightarrow> Storage \<times> 'w \<Rightarrow> Storage \<times> 'w" where
  "join_worker save st = (case storage_worker save st of None \<Rightarrow> st | Some st' \<Rightarrow> join_worker save st')"
  by pat_completeness auto
termination
  by (relation "measure (\<lambda>(save, s, w). work_left s)") (auto simp: worker_work_left)

declare join_worker.simps [simp del]

definition wait_worker :: "'w writer \<Rightarrow> Storage \<times> 'w \<Rightarrow> Storage \<times> 'w" where
  "wait_worker save = (\<lambda>(s, w).
     if sg_worker s = None then (s, w)
     else case join_worker save (s\<lparr>sg_stopping := True\<rparr>, w) of (s', w') \<Rightarrow> (s'\<lparr>sg_worker := None\<rparr>, w'))"

definition start_worker :: "bool \<Rightarrow> Storage \<Rightarrow> Storage option" where
  "start_worker threads s =
     (if sg_worker s \<noteq> None then Some s
      else if \<not> threads then None
      else Some (s\<lparr>sg_stopping := False, sg_worker := Some Looking\<rparr>))"

definition release_images :: "Storage \<Rightarrow> Storage" where
  "release_images s = s\<lparr>sg_images := [], sg_pending := None\<rparr>"

section \<open>The services of the main thread\<close>

definition SIZEOF_STORAGE_IMAGE :: nat where
  "SIZEOF_STORAGE_IMAGE = 152"

text \<open>\<open>sram\<close> is the cartridge's SRAM, \<open>path\<close> the file it is saved to; \<open>threads\<close> whether SDL can start a thread.\<close>

definition SmwCoopQueueStorage ::
  "allocator \<Rightarrow> bool \<Rightarrow> string \<Rightarrow> u8 list \<Rightarrow> Storage \<Rightarrow> bool \<times> Storage" where
  "SmwCoopQueueStorage alloc threads path sram s =
     (if sram = [] then (True, s)
      else if length sram > SIZE_MAX - SIZEOF_STORAGE_IMAGE then (False, s)
      else if \<not> alloc (SIZEOF_STORAGE_IMAGE + length sram) then (False, s)
      else
        case start_worker threads s of None \<Rightarrow> (False, s)
        | Some s1 \<Rightarrow>
            (True, s1\<lparr>sg_images := sg_images s1 @ [\<lparr>im_path = path, im_bytes = sram, im_success = False\<rparr>],
               sg_pending := (case sg_pending s1 of None \<Rightarrow> Some (length (sg_images s1)) | Some k \<Rightarrow> Some k)\<rparr>))"

text \<open>\<open>SmwCoopReadQueuedStorage\<close>: the newest image of the path; None when there is none.  An image of
  another size ends the program, the outer None.\<close>

definition latest_image :: "string \<Rightarrow> StorageImage list \<Rightarrow> StorageImage option" where
  "latest_image path images = foldl (\<lambda>latest im. if im_path im = path then Some im else latest) None images"

definition SmwCoopReadQueuedStorage :: "string \<Rightarrow> u8 list \<Rightarrow> Storage \<Rightarrow> u8 list option option" where
  "SmwCoopReadQueuedStorage path sram s =
     (case latest_image path (sg_images s) of
        None \<Rightarrow> Some None
      | Some im \<Rightarrow> if length (im_bytes im) \<noteq> length sram then None else Some (Some (im_bytes im)))"

definition superseded :: "StorageImage list \<Rightarrow> nat \<Rightarrow> bool" where
  "superseded images i \<longleftrightarrow> (\<exists>j \<in> set [Suc i..<length images]. im_path (images ! i) = im_path (images ! j))"

definition retry_step ::
  "'w writer \<Rightarrow> bool \<times> StorageImage list \<times> 'w \<Rightarrow> nat \<Rightarrow> bool \<times> StorageImage list \<times> 'w" where
  "retry_step save = (\<lambda>(ok, images, w) i.
     if superseded images i \<or> im_success (images ! i) then (ok, images, w)
     else case write_image save i (images, w) of
       (images', w') \<Rightarrow> (ok \<and> im_success (images' ! i), images', w'))"

definition SmwCoopFinishStorage :: "'w writer \<Rightarrow> Storage \<times> 'w \<Rightarrow> bool \<times> Storage \<times> 'w" where
  "SmwCoopFinishStorage save st =
     (case wait_worker save st of (s, w) \<Rightarrow>
      case foldl (retry_step save) (True, sg_images s, w) [0..<length (sg_images s)] of
        (ok, images, w') \<Rightarrow>
          (ok, (if ok then release_images (s\<lparr>sg_images := images\<rparr>) else s\<lparr>sg_images := images\<rparr>), w'))"

text \<open>
  \<open>SmwCoopStorageShutdown\<close>: the user's answers are the list \<open>answers\<close>, the success of queueing in
  the successive rounds the list's first components.  None: the program died; the inner None: it
  still waits for an answer.
\<close>

datatype Answer = NotShown | Retry | QuitWithoutSaving

fun SmwCoopStorageShutdown ::
  "'w writer \<Rightarrow> (Storage \<Rightarrow> bool \<times> Storage) \<Rightarrow> bool \<Rightarrow> Answer list \<Rightarrow> Storage \<times> 'w \<Rightarrow>
   (Storage \<times> 'w) option option" where
  "SmwCoopStorageShutdown save queue capture_current answers (s, w) =
     (let (queued, s1) = (if \<not> capture_current then (True, s) else queue s);
          capture = (capture_current \<and> \<not> queued);
          (finished, s2, w2) = (if queued then SmwCoopFinishStorage save (s1, w) else (False, s1, w))
      in if finished then Some (Some (s2, w2))
         else case answers of
           [] \<Rightarrow> Some None
         | NotShown # rest \<Rightarrow> None
         | QuitWithoutSaving # rest \<Rightarrow>
             (case wait_worker save (s2, w2) of (s3, w3) \<Rightarrow> Some (Some (release_images s3, w3)))
         | Retry # rest \<Rightarrow> SmwCoopStorageShutdown save queue capture rest (s2, w2))"


section \<open>What a completed flush guarantees\<close>

text \<open>What the code relies on of \<^verbatim>\<open>RtlWriteSramImage\<close>: a write that succeeds leaves the bytes in the
file, and no write touches another file.\<close>

definition lawful_writer :: "'w writer \<Rightarrow> ('w \<Rightarrow> string \<Rightarrow> u8 list option) \<Rightarrow> bool" where
  "lawful_writer save content \<longleftrightarrow> (\<forall>p b w.
     (fst (save p b w) \<longrightarrow> content (snd (save p b w)) p = Some b) \<and>
     (\<forall>q. q \<noteq> p \<longrightarrow> content (snd (save p b w)) q = content w q))"

definition all_written :: "('w \<Rightarrow> string \<Rightarrow> u8 list option) \<Rightarrow> 'w \<Rightarrow> StorageImage list \<Rightarrow> bool" where
  "all_written content w images \<longleftrightarrow> (\<forall>i < length images.
     im_success (images ! i) \<and> \<not> superseded images i \<longrightarrow>
     content w (im_path (images ! i)) = Some (im_bytes (images ! i)))"

definition same_data :: "StorageImage list \<Rightarrow> StorageImage list \<Rightarrow> bool" where
  "same_data xs ys \<longleftrightarrow> map (\<lambda>im. (im_path im, im_bytes im)) xs = map (\<lambda>im. (im_path im, im_bytes im)) ys"

lemma same_data_length: "same_data xs ys \<Longrightarrow> length xs = length ys"
  unfolding same_data_def by (rule map_eq_imp_length_eq)

lemma same_data_nth:
  assumes "same_data xs ys" "i < length ys"
  shows "im_path (xs ! i) = im_path (ys ! i)" "im_bytes (xs ! i) = im_bytes (ys ! i)"
proof -
  have "map (\<lambda>im. (im_path im, im_bytes im)) xs ! i = map (\<lambda>im. (im_path im, im_bytes im)) ys ! i"
    using assms(1) by (simp add: same_data_def)
  then show "im_path (xs ! i) = im_path (ys ! i)" "im_bytes (xs ! i) = im_bytes (ys ! i)"
    using assms(2) same_data_length [OF assms(1)] by simp_all
qed

lemma same_data_refl [simp]: "same_data xs xs"
  by (simp add: same_data_def)

lemma same_data_trans: "same_data xs ys \<Longrightarrow> same_data ys zs \<Longrightarrow> same_data xs zs"
  by (simp add: same_data_def)

lemma superseded_iff: "superseded images i \<longleftrightarrow> (\<exists>j. i < j \<and> j < length images \<and> im_path (images ! i) = im_path (images ! j))"
  by (simp add: superseded_def Bex_def Suc_le_eq conj_assoc)

lemma superseded_same_data:
  assumes "same_data xs ys" "i < length ys"
  shows "superseded xs i = superseded ys i"
  using same_data_nth [OF assms(1)] assms(2) same_data_length [OF assms(1)] by (auto simp: superseded_iff)

lemma same_data_success: "same_data (upd_at i (im_success_update f) xs) xs"
  by (simp add: same_data_def map_upd_at_same)

lemma written_snoc:
  assumes "lawful_writer save content" "all_written content w images" "save p b w = (ok, w')"
  shows "all_written content w' (images @ [\<lparr>im_path = p, im_bytes = b, im_success = ok\<rparr>])"
proof -
  let ?x = "\<lparr>im_path = p, im_bytes = b, im_success = ok\<rparr>"
  have law: "ok \<longrightarrow> content w' p = Some b" "\<forall>q. q \<noteq> p \<longrightarrow> content w' q = content w q"
    using assms(1,3) unfolding lawful_writer_def by (metis fst_conv snd_conv)+
  have "content w' (im_path ((images @ [?x]) ! i)) = Some (im_bytes ((images @ [?x]) ! i))"
    if i: "i < Suc (length images)" "im_success ((images @ [?x]) ! i)" "\<not> superseded (images @ [?x]) i" for i
  proof (cases "i = length images")
    case True
    then show ?thesis using i law by simp
  next
    case False
    with i(1) have l: "i < length images" by simp
    have later: "im_path (images ! i) \<noteq> im_path ((images @ [?x]) ! j)" if "i < j" "j < Suc (length images)" for j
      using i(3) l that by (auto simp: superseded_iff nth_append)
    have "im_path (images ! i) \<noteq> p"
      using later [of "length images"] l by simp
    moreover have "\<not> superseded images i"
      using later by (fastforce simp: superseded_iff nth_append)
    ultimately show ?thesis using assms(2) i(2) l law by (simp add: all_written_def nth_append)
  qed
  then show ?thesis by (simp add: all_written_def)
qed

text \<open>How far the worker is: the images it has taken, and those whose save is over.\<close>

definition taken :: "Storage \<Rightarrow> nat" where
  "taken s = (case sg_pending s of None \<Rightarrow> length (sg_images s) | Some k \<Rightarrow> k)"

definition finished_images :: "Storage \<Rightarrow> nat" where
  "finished_images s = (case sg_worker s of Some (Writing k) \<Rightarrow> k | _ \<Rightarrow> taken s)"

definition storage_inv :: "('w \<Rightarrow> string \<Rightarrow> u8 list option) \<Rightarrow> Storage \<times> 'w \<Rightarrow> bool" where
  "storage_inv content = (\<lambda>(s, w).
     (\<forall>k. sg_pending s = Some k \<longrightarrow> k < length (sg_images s)) \<and>
     (\<forall>k. sg_worker s = Some (Writing k) \<longrightarrow> k < length (sg_images s) \<and> taken s = Suc k) \<and>
     (sg_worker s \<in> {None, Some Returned} \<longrightarrow> sg_pending s = None) \<and>
     all_written content w (take (finished_images s) (sg_images s)))"

lemma write_image_simps:
  assumes "save (im_path (images ! k)) (im_bytes (images ! k)) w = (ok, w')"
  shows "write_image save k (images, w) = (upd_at k (im_success_update (\<lambda>_. ok)) images, w')"
  using assms by (simp add: write_image_def)

lemma take_Suc_upd:
  assumes "k < length images"
  shows "take (Suc k) (upd_at k (im_success_update (\<lambda>_. ok)) images) =
    take k images @ [\<lparr>im_path = im_path (images ! k), im_bytes = im_bytes (images ! k), im_success = ok\<rparr>]"
  using assms by (simp add: take_Suc_conv_app_nth upd_at_def)

lemma worker_keeps:
  assumes "lawful_writer save content" "storage_inv content (s, w)" "storage_worker save (s, w) = Some (s', w')"
  shows "storage_inv content (s', w') \<and> same_data (sg_images s') (sg_images s)"
proof (cases "sg_worker s")
  case None
  with assms(3) show ?thesis by (simp add: storage_worker_def)
next
  case (Some wk)
  show ?thesis
  proof (cases wk)
    case Looking
    with Some assms(2,3) show ?thesis
      by (auto simp: storage_worker_def storage_inv_def taken_def finished_images_def next_image_def
          split: option.splits if_splits)
  next
    case (Writing k)
    obtain ok w1 where wr: "save (im_path (sg_images s ! k)) (im_bytes (sg_images s ! k)) w = (ok, w1)"
      by (cases "save (im_path (sg_images s ! k)) (im_bytes (sg_images s ! k)) w")
    let ?images = "upd_at k (im_success_update (\<lambda>_. ok)) (sg_images s)"
    have s': "s' = s\<lparr>sg_images := ?images, sg_worker := Some Looking\<rparr>" "w' = w1"
      using assms(3) Some Writing by (simp_all add: storage_worker_def write_image_def wr)
    have k: "k < length (sg_images s)" "taken s = Suc k" "all_written content w (take k (sg_images s))"
      using assms(2) Some Writing by (simp_all add: storage_inv_def finished_images_def)
    have "all_written content w1 (take (Suc k) ?images)"
      unfolding take_Suc_upd [OF k(1)] by (rule written_snoc [OF assms(1) k(3) wr])
    moreover have "taken s' = Suc k" using k(2) by (simp add: s' taken_def split: option.splits)
    ultimately show ?thesis
      using assms(2) by (simp add: s' storage_inv_def finished_images_def same_data_success)
  next
    case Returned
    with Some assms(3) show ?thesis by (simp add: storage_worker_def)
  qed
qed

lemma join_keeps:
  "lawful_writer save content \<Longrightarrow> storage_inv content st \<Longrightarrow> storage_inv content (join_worker save st) \<and>
     same_data (sg_images (fst (join_worker save st))) (sg_images (fst st)) \<and>
     storage_worker save (join_worker save st) = None"
proof (induction save st rule: join_worker.induct)
  case (1 save st)
  show ?case
  proof (cases "storage_worker save st")
    case None
    with 1(3) show ?thesis by (simp add: join_worker.simps [of save st])
  next
    case (Some st')
    have "storage_inv content st' \<and> same_data (sg_images (fst st')) (sg_images (fst st))"
      using worker_keeps [of save content "fst st" "snd st" "fst st'" "snd st'"] 1(2,3) Some by simp
    with 1(1) [OF Some 1(2)] Some show ?thesis
      using same_data_trans [of "sg_images (fst (join_worker save st'))" "sg_images (fst st')" "sg_images (fst st)"]
      by (simp add: join_worker.simps [of save st])
  qed
qed


lemma worker_stopping: "storage_worker save (s, w) = Some (s', w') \<Longrightarrow> sg_stopping s' = sg_stopping s"
  by (auto simp: storage_worker_def split: option.splits Worker.splits prod.splits if_splits)

lemma join_stopping: "sg_stopping (fst (join_worker save st)) = sg_stopping (fst st)"
proof (induction save st rule: join_worker.induct)
  case (1 save st)
  show ?case
  proof (cases "storage_worker save st")
    case None
    then show ?thesis by (simp add: join_worker.simps [of save st])
  next
    case (Some st')
    with 1 [OF Some] worker_stopping [of save "fst st" "snd st" "fst st'" "snd st'"]
    show ?thesis by (simp add: join_worker.simps [of save st])
  qed
qed

lemma inv_stopping: "storage_inv content (s\<lparr>sg_stopping := b\<rparr>, w) = storage_inv content (s, w)"
proof -
  have "taken (s\<lparr>sg_stopping := b\<rparr>) = taken s" "finished_images (s\<lparr>sg_stopping := b\<rparr>) = finished_images s"
    by (simp_all add: taken_def finished_images_def cong: option.case_cong Worker.case_cong)
  then show ?thesis by (simp add: storage_inv_def)
qed

lemma wait_keeps:
  assumes "lawful_writer save content" "storage_inv content (s, w)" "wait_worker save (s, w) = (s', w')"
  shows "sg_worker s' = None \<and> sg_pending s' = None \<and> same_data (sg_images s') (sg_images s) \<and>
    all_written content w' (sg_images s')"
proof (cases "sg_worker s = None")
  case True
  with assms(2,3) show ?thesis
    by (auto simp: wait_worker_def storage_inv_def finished_images_def taken_def split: option.splits)
next
  case False
  obtain s1 w1 where j: "join_worker save (s\<lparr>sg_stopping := True\<rparr>, w) = (s1, w1)"
    by (cases "join_worker save (s\<lparr>sg_stopping := True\<rparr>, w)")
  have s': "s' = s1\<lparr>sg_worker := None\<rparr>" "w' = w1" using assms(3) False j by (simp_all add: wait_worker_def)
  have "storage_inv content (s\<lparr>sg_stopping := True\<rparr>, w)"
    using assms(2) by (simp add: inv_stopping)
  from join_keeps [OF assms(1) this] j
  have k: "storage_inv content (s1, w1)" "same_data (sg_images s1) (sg_images s)" "storage_worker save (s1, w1) = None"
    by simp_all
  have stop: "sg_stopping s1"
    using join_stopping [of save "(s\<lparr>sg_stopping := True\<rparr>, w)"] j by simp
  have "sg_pending s1 = None \<and> (\<forall>k. sg_worker s1 \<noteq> Some (Writing k))"
    using k(1,3) stop by (auto simp: storage_worker_def storage_inv_def split: option.splits Worker.splits prod.splits)
  then show ?thesis
    using k(1,2) by (auto simp: s' storage_inv_def finished_images_def taken_def split: option.splits Worker.splits)
qed

text \<open>The retries.\<close>

definition retry_inv :: "('w \<Rightarrow> string \<Rightarrow> u8 list option) \<Rightarrow> StorageImage list \<Rightarrow> nat \<Rightarrow>
    bool \<times> StorageImage list \<times> 'w \<Rightarrow> bool" where
  "retry_inv content images n = (\<lambda>(ok, images', w).
     same_data images' images \<and> all_written content w images' \<and>
     (ok \<longrightarrow> (\<forall>i < n. superseded images i \<or> im_success (images' ! i))))"

lemma retry_keeps:
  assumes "lawful_writer save content" "retry_inv content images n st" "n < length images"
  shows "retry_inv content images (Suc n) (retry_step save st n)"
proof -
  obtain ok im w where st: "st = (ok, im, w)" by (cases st)
  have inv: "same_data im images" "all_written content w im"
    "ok \<longrightarrow> (\<forall>i < n. superseded images i \<or> im_success (im ! i))"
    using assms(2) by (simp_all add: st retry_inv_def)
  have sup: "superseded im i = superseded images i" if "i < length images" for i
    by (rule superseded_same_data [OF inv(1) that])
  show ?thesis
  proof (cases "superseded im n \<or> im_success (im ! n)")
    case True
    with inv sup [OF assms(3)] show ?thesis by (auto simp: st retry_step_def retry_inv_def less_Suc_eq)
  next
    case False
    obtain ok' w' where wr: "save (im_path (im ! n)) (im_bytes (im ! n)) w = (ok', w')"
      by (cases "save (im_path (im ! n)) (im_bytes (im ! n)) w")
    have law: "ok' \<longrightarrow> content w' (im_path (im ! n)) = Some (im_bytes (im ! n))"
      "\<forall>q. q \<noteq> im_path (im ! n) \<longrightarrow> content w' q = content w q"
      using assms(1) wr unfolding lawful_writer_def by (metis fst_conv snd_conv)+
    let ?im = "upd_at n (im_success_update (\<lambda>_. ok')) im"
    have len: "length im = length images" by (rule same_data_length [OF inv(1)])
    have r: "retry_step save st n = (ok \<and> ok', ?im, w')"
      using False wr assms(3) len by (simp add: st retry_step_def write_image_def)
    have sd: "same_data ?im im" by (rule same_data_success)
    have "content w' (im_path (?im ! i)) = Some (im_bytes (?im ! i))"
      if i: "i < length im" "im_success (?im ! i)" "\<not> superseded ?im i" for i
    proof (cases "i = n")
      case True
      with i law len assms(3) show ?thesis by simp
    next
      case ne: False
      have ns: "\<not> superseded im i" using i(3) superseded_same_data [OF sd i(1)] by simp
      have "im_path (im ! i) \<noteq> im_path (im ! n)"
      proof (cases "i < n")
        case True
        with ns assms(3) len show ?thesis by (auto simp: superseded_iff)
      next
        case ge: False
        with ne have "n < i" by simp
        with False i(1) show ?thesis by (auto simp: superseded_iff)
      qed
      with ne i(2) ns inv(2) i(1) law show ?thesis by (simp add: all_written_def)
    qed
    then have "all_written content w' ?im" by (simp add: all_written_def)
    moreover have "same_data ?im images" using sd inv(1) by (rule same_data_trans)
    moreover have "superseded images i \<or> im_success (?im ! i)" if "ok \<and> ok'" "i < Suc n" for i
      using that inv(3) assms(3) len by (cases "i = n") (auto simp: less_Suc_eq)
    ultimately show ?thesis by (simp add: r retry_inv_def)
  qed
qed

lemma retries_keep:
  assumes "lawful_writer save content" "all_written content w images"
  shows "n \<le> length images \<Longrightarrow> retry_inv content images n (foldl (retry_step save) (True, images, w) [0..<n])"
proof (induction n)
  case 0
  with assms(2) show ?case by (simp add: retry_inv_def)
next
  case (Suc n)
  with retry_keeps [OF assms(1), of images n] show ?case by simp
qed


text \<open>
  The program: the main thread queues images and flushes, the worker runs in between, in any
  interleaving.
\<close>

inductive storage_step :: "'w writer \<Rightarrow> Storage \<times> 'w \<Rightarrow> Storage \<times> 'w \<Rightarrow> bool" for save where
  queue: "SmwCoopQueueStorage alloc threads path sram s = (r, s') \<Longrightarrow> storage_step save (s, w) (s', w)"
| work: "storage_worker save st = Some st' \<Longrightarrow> storage_step save st st'"
| flush: "SmwCoopFinishStorage save st = (ok, st') \<Longrightarrow> storage_step save st st'"

lemma queue_cases:
  assumes "SmwCoopQueueStorage alloc threads path sram s = (r, s')"
  obtains "s' = s" | s1 where "start_worker threads s = Some s1"
    "s' = s1\<lparr>sg_images := sg_images s1 @ [\<lparr>im_path = path, im_bytes = sram, im_success = False\<rparr>],
       sg_pending := (case sg_pending s1 of None \<Rightarrow> Some (length (sg_images s1)) | Some k \<Rightarrow> Some k)\<rparr>"
  using assms by (auto simp: SmwCoopQueueStorage_def split: if_splits option.splits)

lemma start_keeps:
  assumes "storage_inv content (s, w)" "start_worker threads s = Some s1"
  shows "storage_inv content (s1, w) \<and> sg_worker s1 \<noteq> None \<and> sg_images s1 = sg_images s"
  using assms by (auto simp: start_worker_def storage_inv_def finished_images_def taken_def
      split: if_splits option.splits Worker.splits)

lemma append_storage:
  assumes "storage_inv content (s, w)" "sg_worker s \<notin> {None, Some Returned}"
  shows "storage_inv content (s\<lparr>sg_images := sg_images s @ [im],
     sg_pending := (case sg_pending s of None \<Rightarrow> Some (length (sg_images s)) | Some k \<Rightarrow> Some k)\<rparr>, w)"
  using assms by (auto simp: storage_inv_def finished_images_def taken_def split: option.splits Worker.splits)

lemma finish_keeps:
  assumes "lawful_writer save content" "storage_inv content (s, w)"
    and "SmwCoopFinishStorage save (s, w) = (ok, s', w')"
  shows "sg_worker s' = None \<and> sg_pending s' = None \<and> all_written content w' (sg_images s') \<and>
    (if ok then sg_images s' = [] \<and> (\<forall>i < length (sg_images s). \<not> superseded (sg_images s) i \<longrightarrow>
        content w' (im_path (sg_images s ! i)) = Some (im_bytes (sg_images s ! i)))
     else same_data (sg_images s') (sg_images s))"
proof -
  obtain s1 w1 where wt: "wait_worker save (s, w) = (s1, w1)" by (cases "wait_worker save (s, w)")
  obtain ok2 im w2 where f: "foldl (retry_step save) (True, sg_images s1, w1) [0..<length (sg_images s1)] = (ok2, im, w2)"
    by (cases "foldl (retry_step save) (True, sg_images s1, w1) [0..<length (sg_images s1)]")
  have e: "ok2 = ok" "w2 = w'"
    "s' = (if ok then release_images (s1\<lparr>sg_images := im\<rparr>) else s1\<lparr>sg_images := im\<rparr>)"
    using assms(3) wt f by (auto simp: SmwCoopFinishStorage_def)
  have w: "sg_worker s1 = None" "sg_pending s1 = None" "same_data (sg_images s1) (sg_images s)"
    "all_written content w1 (sg_images s1)"
    using wait_keeps [OF assms(1,2) wt] by simp_all
  have r: "same_data im (sg_images s1)" "all_written content w' im"
    "ok \<longrightarrow> (\<forall>i < length (sg_images s1). superseded (sg_images s1) i \<or> im_success (im ! i))"
    using retries_keep [OF assms(1) w(4) order_refl] f e by (simp_all add: retry_inv_def)
  have sd: "same_data im (sg_images s)" using r(1) w(3) by (rule same_data_trans)
  have len: "length (sg_images s1) = length (sg_images s)" "length im = length (sg_images s)"
    using same_data_length [OF w(3)] same_data_length [OF sd] by simp_all
  have "content w' (im_path (sg_images s ! i)) = Some (im_bytes (sg_images s ! i))"
    if "ok" "i < length (sg_images s)" "\<not> superseded (sg_images s) i" for i
  proof -
    have "im_success (im ! i)" using r(3) that len superseded_same_data [OF w(3), of i] by auto
    moreover have "\<not> superseded im i" using that superseded_same_data [OF sd, of i] by simp
    ultimately have "content w' (im_path (im ! i)) = Some (im_bytes (im ! i))"
      using r(2) that(2) len by (simp add: all_written_def)
    then show ?thesis using same_data_nth [OF sd that(2)] by simp
  qed
  then show ?thesis using w sd r e by (auto simp: release_images_def all_written_def)
qed

lemma storage_step_keeps:
  assumes "lawful_writer save content" "storage_inv content st" "sg_worker (fst st) \<noteq> Some Returned"
    and "\<not> (sg_worker (fst st) \<noteq> None \<and> sg_stopping (fst st))" "storage_step save st st'"
  shows "storage_inv content st' \<and> sg_worker (fst st') \<noteq> Some Returned \<and>
    \<not> (sg_worker (fst st') \<noteq> None \<and> sg_stopping (fst st'))"
  using assms(5)
proof cases
  case (queue alloc threads path sram s r s' w)
  show ?thesis using queue(3)
  proof (cases rule: queue_cases)
    case 1
    with assms(2-4) queue show ?thesis by simp
  next
    case (2 s1)
    have k: "storage_inv content (s1, w)" "sg_worker s1 \<noteq> None"
      using start_keeps [OF _ 2(1), of content w] assms(2) queue by simp_all
    have "sg_worker s1 \<noteq> Some Returned \<and> \<not> sg_stopping s1"
      using 2(1) assms(3,4) queue by (auto simp: start_worker_def split: if_splits)
    with append_storage [OF k(1)] k(2) queue 2(2) show ?thesis by simp
  qed
next
  case work
  have "storage_inv content st'"
    using worker_keeps [of save content "fst st" "snd st" "fst st'" "snd st'"] assms(1,2) work by simp
  moreover have "sg_worker (fst st') \<noteq> Some Returned \<and> \<not> sg_stopping (fst st')"
    using work assms(4) by (cases st) (auto simp: storage_worker_def split: option.splits Worker.splits prod.splits)
  ultimately show ?thesis by simp
next
  case (flush ok)
  have "sg_worker (fst st') = None \<and> sg_pending (fst st') = None \<and> all_written content (snd st') (sg_images (fst st'))"
    using finish_keeps [of save content "fst st" "snd st" ok "fst st'" "snd st'"] assms(1,2) flush by simp
  then show ?thesis by (cases st') (simp add: storage_inv_def finished_images_def taken_def)
qed

lemma storage_reachable:
  assumes "lawful_writer save content" "(storage_step save)\<^sup>*\<^sup>* (empty_storage, w0) st"
  shows "storage_inv content st"
proof -
  have "storage_inv content st \<and> sg_worker (fst st) \<noteq> Some Returned \<and>
      \<not> (sg_worker (fst st) \<noteq> None \<and> sg_stopping (fst st))"
    using assms(2)
  proof (induction rule: rtranclp_induct)
    case base
    show ?case by (simp add: storage_inv_def empty_storage_def finished_images_def taken_def all_written_def)
  next
    case (step st st')
    with storage_step_keeps [OF assms(1), of st st'] show ?case by blast
  qed
  then show ?thesis by blast
qed

lemma latest_image_Some:
  assumes "latest_image path images = Some im"
  shows "\<exists>i < length images. images ! i = im \<and> im_path im = path \<and> \<not> superseded images i"
  using assms
proof (induction images rule: rev_induct)
  case Nil
  then show ?case by (simp add: latest_image_def)
next
  case (snoc x xs)
  show ?case
  proof (cases "im_path x = path")
    case True
    with snoc.prems have "im = x" by (simp add: latest_image_def)
    with True show ?thesis by (intro exI [of _ "length xs"]) (simp add: superseded_iff nth_append)
  next
    case False
    with snoc.prems have "latest_image path xs = Some im" by (simp add: latest_image_def)
    with snoc.IH obtain i where "i < length xs" "xs ! i = im" "im_path im = path" "\<not> superseded xs i" by blast
    with False show ?thesis
      by (intro exI [of _ i]) (auto simp: superseded_iff nth_append less_Suc_eq)
  qed
qed

text \<open>
  C24. Whatever the interleaving of queueing, flushing and the worker thread, a flush that reports
  success leaves in every queued path's file exactly the newest image queued for it, and empties
  the queue; a flush that reports failure keeps every image for the next attempt.  In both cases
  the worker has been joined.
\<close>

theorem finish_storage_durable:
  assumes "lawful_writer save content" "(storage_step save)\<^sup>*\<^sup>* (empty_storage, w0) (s, w)"
    and "SmwCoopFinishStorage save (s, w) = (ok, s', w')"
  shows "sg_worker s' = None \<and>
    (if ok then sg_images s' = [] \<and>
       (\<forall>path im. latest_image path (sg_images s) = Some im \<longrightarrow> content w' path = Some (im_bytes im))
     else map im_path (sg_images s') = map im_path (sg_images s) \<and>
       map im_bytes (sg_images s') = map im_bytes (sg_images s))"
proof -
  note k = finish_keeps [OF assms(1) storage_reachable [OF assms(1,2)] assms(3)]
  have "content w' path = Some (im_bytes im)" if "ok" "latest_image path (sg_images s) = Some im" for path im
    using k that(1) latest_image_Some [OF that(2)] by auto
  moreover have "map im_path xs = map im_path ys \<and> map im_bytes xs = map im_bytes ys" if "same_data xs ys" for xs ys
    using same_data_nth [OF that] same_data_length [OF that] by (auto intro: nth_equalityI)
  ultimately show ?thesis using k by auto
qed

end
