(* ===== verification/Mod_Audio.thy ===== *)
theory Mod_Audio
  imports Prelude
begin

text \<open>
  The sound effects of mods, \<^verbatim>\<open>src/mod_audio.c\<close>: a table of registered PCM clips with a byte budget,
  eight voices that play them, and the mixer.  The lock around each operation makes it one step.

  A clip's samples, \<open>int16_t\<close> values in C, are 16-bit words read by \<open>sint\<close>.  Reading a sample beyond
  the end of an array is None, so that the mixer's result says whether it stays in bounds.
\<close>

section \<open>Clips and voices\<close>

definition SNES_MOD_AUDIO_MAX_CLIPS :: nat where
  "SNES_MOD_AUDIO_MAX_CLIPS = 64"

definition SNES_MOD_AUDIO_MAX_VOICES :: nat where
  "SNES_MOD_AUDIO_MAX_VOICES = 8"

definition SNES_MOD_AUDIO_MAX_TOTAL_BYTES :: nat where
  "SNES_MOD_AUDIO_MAX_TOTAL_BYTES = 16 * 1024 * 1024"

definition SNES_MOD_AUDIO_CLIP_INVALID :: int where
  "SNES_MOD_AUDIO_CLIP_INVALID = 0"

record ClipSlot =
  cs_samples :: "u16 list"
  cs_frame_count :: u32
  cs_sample_rate :: u32
  cs_channels :: u32

record Voice =
  vo_clip :: int
  vo_phase :: u64
  vo_gain :: int

record ModAudio =
  ma_clips :: "ClipSlot option list"
  ma_voices :: "Voice list"
  ma_cursor :: nat
  ma_bytes :: nat

definition zero_voice :: Voice where
  "zero_voice = \<lparr>vo_clip = 0, vo_phase = 0, vo_gain = 0\<rparr>"

definition silent_audio :: ModAudio where
  "silent_audio = \<lparr>ma_clips = replicate SNES_MOD_AUDIO_MAX_CLIPS None,
     ma_voices = replicate SNES_MOD_AUDIO_MAX_VOICES zero_voice, ma_cursor = 0, ma_bytes = 0\<rparr>"

definition clip_slot :: "ModAudio \<Rightarrow> int \<Rightarrow> ClipSlot option" where
  "clip_slot m clip =
     (if clip \<le> 0 \<or> clip > int SNES_MOD_AUDIO_MAX_CLIPS then None else ma_clips m ! (nat clip - 1))"

text \<open>The bytes of a clip of \<open>n\<close> frames.\<close>

definition clip_bytes :: "u32 \<Rightarrow> u32 \<Rightarrow> nat" where
  "clip_bytes frame_count channels = unat frame_count * unat channels * 2"

text \<open>\<open>samples\<close> is the caller's memory from the pointer on; the call copies what it needs of it.\<close>

definition snes_mod_audio_register_pcm_s16 ::
  "allocator \<Rightarrow> (nat \<Rightarrow> u16) \<Rightarrow> u32 \<Rightarrow> u32 \<Rightarrow> u32 \<Rightarrow> ModAudio \<Rightarrow> int \<times> ModAudio" where
  "snes_mod_audio_register_pcm_s16 alloc samples frame_count sample_rate channels m =
     (if frame_count = 0 \<or> sample_rate < 8000 \<or> sample_rate > 192000 \<or> (channels \<noteq> 1 \<and> channels \<noteq> 2) \<or>
         unat frame_count > SIZE_MAX div (unat channels * 2)
      then (SNES_MOD_AUDIO_CLIP_INVALID, m)
      else
        let bytes = clip_bytes frame_count channels
        in if bytes > SNES_MOD_AUDIO_MAX_TOTAL_BYTES \<or> ma_bytes m > SNES_MOD_AUDIO_MAX_TOTAL_BYTES - bytes
           then (SNES_MOD_AUDIO_CLIP_INVALID, m)
           else case find_index (\<lambda>s. s = None) (ma_clips m) of
             None \<Rightarrow> (SNES_MOD_AUDIO_CLIP_INVALID, m)
           | Some index \<Rightarrow>
               if \<not> alloc bytes then (SNES_MOD_AUDIO_CLIP_INVALID, m)
               else (int index + 1,
                 m\<lparr>ma_clips := (ma_clips m)[index := Some \<lparr>
                     cs_samples = map samples [0..<unat frame_count * unat channels],
                     cs_frame_count = frame_count, cs_sample_rate = sample_rate, cs_channels = channels\<rparr>],
                   ma_bytes := ma_bytes m + bytes\<rparr>))"

definition snes_mod_audio_unregister :: "int \<Rightarrow> ModAudio \<Rightarrow> ModAudio" where
  "snes_mod_audio_unregister clip m =
     (case clip_slot m clip of None \<Rightarrow> m
      | Some slot \<Rightarrow>
          m\<lparr>ma_voices := map (\<lambda>v. if vo_clip v = clip then zero_voice else v) (ma_voices m),
            ma_bytes := ma_bytes m - clip_bytes (cs_frame_count slot) (cs_channels slot),
            ma_clips := (ma_clips m)[nat clip - 1 := None]\<rparr>)"

definition snes_mod_audio_play :: "int \<Rightarrow> int \<Rightarrow> ModAudio \<Rightarrow> bool \<times> ModAudio" where
  "snes_mod_audio_play clip gain_percent m =
     (case clip_slot m clip of None \<Rightarrow> (False, m)
      | Some slot \<Rightarrow>
          let gain1 = (if gain_percent < 0 then 0 else gain_percent);
              gain = (if gain1 > 200 then 200 else gain1);
              voice = \<lparr>vo_clip = clip, vo_phase = 0, vo_gain = gain\<rparr>
          in case find_index (\<lambda>v. vo_clip v = SNES_MOD_AUDIO_CLIP_INVALID) (ma_voices m) of
               Some index \<Rightarrow> (True, m\<lparr>ma_voices := (ma_voices m)[index := voice]\<rparr>)
             | None \<Rightarrow> (True, m\<lparr>ma_voices := (ma_voices m)[ma_cursor m := voice],
                             ma_cursor := (ma_cursor m + 1) mod SNES_MOD_AUDIO_MAX_VOICES\<rparr>))"

definition snes_mod_audio_stop_all :: "ModAudio \<Rightarrow> ModAudio" where
  "snes_mod_audio_stop_all m =
     m\<lparr>ma_voices := replicate SNES_MOD_AUDIO_MAX_VOICES zero_voice, ma_cursor := 0\<rparr>"

section \<open>The mixer\<close>

definition clamp_s16 :: "int \<Rightarrow> u16" where
  "clamp_s16 v = (if v > 32767 then 32767 else if v < - 32768 then word_of_int (- 32768) else word_of_int v)"

definition array_read :: "u16 list \<Rightarrow> nat \<Rightarrow> int option" where
  "array_read xs i = (if i < length xs then Some (sint (xs ! i)) else None)"

text \<open>The value between two neighbouring samples; C's division truncates.\<close>

definition between :: "int \<Rightarrow> int \<Rightarrow> u32 \<Rightarrow> int" where
  "between s0 s1 fraction = s0 + ((s1 - s0) * int (unat fraction)) sdiv 4294967296"

definition interpolated_sample :: "ClipSlot \<Rightarrow> u32 \<Rightarrow> u32 \<Rightarrow> u32 \<Rightarrow> int option" where
  "interpolated_sample slot frame fraction channel =
     (let source_channel = (if cs_channels slot = 1 then 0 else channel);
          at = unat frame * unat (cs_channels slot) + unat source_channel
      in case array_read (cs_samples slot) at of None \<Rightarrow> None
         | Some s0 \<Rightarrow>
             (case (if frame + 1 < cs_frame_count slot
                    then array_read (cs_samples slot) (at + unat (cs_channels slot)) else Some s0) of
                None \<Rightarrow> None
              | Some s1 \<Rightarrow> Some (between s0 s1 fraction)))"

definition sample_for_output :: "ClipSlot \<Rightarrow> u32 \<Rightarrow> u32 \<Rightarrow> u32 \<Rightarrow> u32 \<Rightarrow> int option" where
  "sample_for_output slot frame fraction output_channel output_channels =
     (if output_channels = 1 \<and> cs_channels slot = 2 then
        (case (interpolated_sample slot frame fraction 0, interpolated_sample slot frame fraction 1) of
           (Some left, Some right) \<Rightarrow> Some ((left + right) sdiv 2)
         | _ \<Rightarrow> None)
      else interpolated_sample slot frame fraction output_channel)"

definition advance_voice :: "ClipSlot \<Rightarrow> u32 \<Rightarrow> Voice \<Rightarrow> Voice" where
  "advance_voice slot output_rate v =
     (let step = push_bit 32 (ucast (cs_sample_rate slot)) div ucast output_rate;
          v1 = (if vo_phase v > 0xFFFFFFFFFFFFFFFF - step then zero_voice
                else v\<lparr>vo_phase := vo_phase v + step\<rparr>)
      in if vo_clip v1 \<noteq> SNES_MOD_AUDIO_CLIP_INVALID \<and>
            drop_bit 32 (vo_phase v1) \<ge> ucast (cs_frame_count slot) then zero_voice else v1)"

text \<open>The body of the loop over the voices: \<open>mixed\<close> has one sum for each output channel.\<close>

definition mix_voice :: "ModAudio \<Rightarrow> u32 \<Rightarrow> u32 \<Rightarrow> int list \<Rightarrow> Voice \<Rightarrow> (int list \<times> Voice) option" where
  "mix_voice m output_rate output_channels mixed v =
     (if vo_clip v = SNES_MOD_AUDIO_CLIP_INVALID then Some (mixed, v)
      else
        let source_frame = ucast (drop_bit 32 (vo_phase v)) :: u32
        in case clip_slot m (vo_clip v) of None \<Rightarrow> Some (mixed, zero_voice)
           | Some slot \<Rightarrow>
               if source_frame \<ge> cs_frame_count slot then Some (mixed, zero_voice)
               else
                 let fraction = ucast (vo_phase v) :: u32;
                     samples = map (\<lambda>c. sample_for_output slot source_frame fraction (of_nat c) output_channels)
                                   [0..<unat output_channels]
                 in if None \<in> set samples then None
                    else Some (map2 (\<lambda>x s. x + (the s * vo_gain v) sdiv 100) mixed samples,
                               advance_voice slot output_rate v))"

fun mix_voices :: "ModAudio \<Rightarrow> u32 \<Rightarrow> u32 \<Rightarrow> int list \<Rightarrow> Voice list \<Rightarrow> (int list \<times> Voice list) option" where
  "mix_voices m rate channels mixed [] = Some (mixed, [])"
| "mix_voices m rate channels mixed (v # vs) =
     (case mix_voice m rate channels mixed v of None \<Rightarrow> None
      | Some (mixed1, v1) \<Rightarrow>
          (case mix_voices m rate channels mixed1 vs of None \<Rightarrow> None
           | Some (mixed2, vs1) \<Rightarrow> Some (mixed2, v1 # vs1)))"

definition mix_frame ::
  "u32 \<Rightarrow> u32 \<Rightarrow> nat \<Rightarrow> (u16 list \<times> ModAudio) option \<Rightarrow> (u16 list \<times> ModAudio) option" where
  "mix_frame rate channels frame st =
     (case st of None \<Rightarrow> None
      | Some (dst, m) \<Rightarrow>
          let n = unat channels; inputs = map (\<lambda>c. array_read dst (frame * n + c)) [0..<n]
          in if None \<in> set inputs then None
             else case mix_voices m rate channels (map the inputs) (ma_voices m) of None \<Rightarrow> None
               | Some (mixed, vs) \<Rightarrow>
                   Some (foldl (\<lambda>d c. d[frame * n + c := clamp_s16 (mixed ! c)]) dst [0..<n],
                         m\<lparr>ma_voices := vs\<rparr>))"

text \<open>\<open>frame_count\<close> is a C \<open>int\<close>; the result is the buffer and the state after the call.\<close>

definition snes_mod_audio_mix ::
  "u16 list \<Rightarrow> int \<Rightarrow> u32 \<Rightarrow> u32 \<Rightarrow> ModAudio \<Rightarrow> (u16 list \<times> ModAudio) option" where
  "snes_mod_audio_mix dst frame_count rate channels m =
     (if frame_count \<le> 0 \<or> rate < 8000 \<or> rate > 192000 \<or> (channels \<noteq> 1 \<and> channels \<noteq> 2)
      then Some (dst, m)
      else fold (mix_frame rate channels) [0..<nat frame_count] (Some (dst, m)))"


section \<open>The invariant of the clip table\<close>

definition slot_bytes :: "ClipSlot option \<Rightarrow> nat" where
  "slot_bytes c = (case c of None \<Rightarrow> 0 | Some s \<Rightarrow> clip_bytes (cs_frame_count s) (cs_channels s))"

definition clip_ok :: "ClipSlot \<Rightarrow> bool" where
  "clip_ok s \<longleftrightarrow> (cs_channels s = 1 \<or> cs_channels s = 2) \<and> cs_frame_count s \<noteq> 0 \<and>
     length (cs_samples s) = unat (cs_frame_count s) * unat (cs_channels s)"

definition audio_ok :: "ModAudio \<Rightarrow> bool" where
  "audio_ok m \<longleftrightarrow> length (ma_clips m) = SNES_MOD_AUDIO_MAX_CLIPS \<and>
     length (ma_voices m) = SNES_MOD_AUDIO_MAX_VOICES \<and> ma_cursor m < SNES_MOD_AUDIO_MAX_VOICES \<and>
     ma_bytes m = sum_list (map slot_bytes (ma_clips m)) \<and> ma_bytes m \<le> SNES_MOD_AUDIO_MAX_TOTAL_BYTES \<and>
     (\<forall>s. Some s \<in> set (ma_clips m) \<longrightarrow> clip_ok s) \<and>
     (\<forall>v \<in> set (ma_voices m). vo_clip v = SNES_MOD_AUDIO_CLIP_INVALID \<or> clip_slot m (vo_clip v) \<noteq> None)"

text \<open>Every operation keeps the invariant.\<close>

locale audio_op =
  fixes op :: "ModAudio \<Rightarrow> ModAudio"
  assumes keeps: "audio_ok m \<Longrightarrow> audio_ok (op m)"
begin

lemma repeated: "audio_ok m \<Longrightarrow> audio_ok ((op ^^ n) m)"
  by (induction n) (simp_all add: keeps)

end

lemma sum_list_replace:
  assumes "i < length xs"
  shows "sum_list (map f (xs[i := x])) + (f (xs ! i) :: nat) = sum_list (map f xs) + f x"
  using assms
proof (induction xs arbitrary: i)
  case Nil
  then show ?case by simp
next
  case (Cons y ys)
  then show ?case by (cases i) auto
qed

lemma clip_slot_nth:
  assumes "clip_slot m clip = Some s" "length (ma_clips m) = SNES_MOD_AUDIO_MAX_CLIPS"
  shows "nat clip - 1 < length (ma_clips m)" "ma_clips m ! (nat clip - 1) = Some s" "clip > 0"
    "Some s \<in> set (ma_clips m)"
proof -
  show i: "nat clip - 1 < length (ma_clips m)" and e: "ma_clips m ! (nat clip - 1) = Some s" and "clip > 0"
    using assms by (auto simp: clip_slot_def SNES_MOD_AUDIO_MAX_CLIPS_def split: if_splits)
  show "Some s \<in> set (ma_clips m)" using nth_mem [OF i] e by simp
qed

text \<open>Storing a clip or emptying a slot.\<close>

lemma store_clip:
  assumes "audio_ok m" "i < length (ma_clips m)" "\<forall>s. c = Some s \<longrightarrow> clip_ok s"
    and "bytes + slot_bytes (ma_clips m ! i) = ma_bytes m + slot_bytes c"
    and "bytes \<le> SNES_MOD_AUDIO_MAX_TOTAL_BYTES" "length vs = SNES_MOD_AUDIO_MAX_VOICES"
    and "\<forall>v \<in> set vs. vo_clip v = SNES_MOD_AUDIO_CLIP_INVALID \<or> (clip_slot m (vo_clip v) \<noteq> None \<and>
           (c = None \<longrightarrow> nat (vo_clip v) - 1 \<noteq> i))"
  shows "audio_ok (m\<lparr>ma_clips := (ma_clips m)[i := c], ma_bytes := bytes, ma_voices := vs\<rparr>)"
proof -
  let ?m = "m\<lparr>ma_clips := (ma_clips m)[i := c], ma_bytes := bytes, ma_voices := vs\<rparr>"
  have "bytes = sum_list (map slot_bytes ((ma_clips m)[i := c]))"
    using sum_list_replace [OF assms(2), of slot_bytes c] assms(1,4) by (simp add: audio_ok_def)
  moreover have "Some s \<in> set ((ma_clips m)[i := c]) \<Longrightarrow> clip_ok s" for s
    using set_update_subset_insert [of "ma_clips m" i c] assms(1,3) by (auto simp: audio_ok_def)
  moreover have "clip_slot ?m clip \<noteq> None" if "clip_slot m clip \<noteq> None" "c = None \<longrightarrow> nat clip - 1 \<noteq> i" for clip
    using that assms(2) by (cases "nat clip - 1 = i") (auto simp: clip_slot_def split: if_splits)
  ultimately show ?thesis using assms by (auto simp: audio_ok_def)
qed

lemma register_keeps:
  assumes "audio_ok m"
  shows "audio_ok (snd (snes_mod_audio_register_pcm_s16 alloc samples frame_count sample_rate channels m))"
proof -
  let ?bytes = "clip_bytes frame_count channels"
  let ?c = "\<lparr>cs_samples = map samples [0..<unat frame_count * unat channels], cs_frame_count = frame_count,
    cs_sample_rate = sample_rate, cs_channels = channels\<rparr>"
  have "audio_ok (m\<lparr>ma_clips := (ma_clips m)[i := Some ?c], ma_bytes := ma_bytes m + ?bytes\<rparr>)"
    if i: "find_index (\<lambda>s. s = None) (ma_clips m) = Some i"
      and b: "?bytes \<le> SNES_MOD_AUDIO_MAX_TOTAL_BYTES" "ma_bytes m \<le> SNES_MOD_AUDIO_MAX_TOTAL_BYTES - ?bytes"
      and c: "frame_count \<noteq> 0" "channels = 1 \<or> channels = 2" for i
  proof -
    have n: "i < length (ma_clips m)" "ma_clips m ! i = None" using find_index_Some [OF i] by simp_all
    have "audio_ok (m\<lparr>ma_clips := (ma_clips m)[i := Some ?c], ma_bytes := ma_bytes m + ?bytes,
        ma_voices := ma_voices m\<rparr>)"
      by (rule store_clip [OF assms(1) n(1)])
        (use n b c assms in \<open>auto simp: clip_ok_def slot_bytes_def audio_ok_def\<close>)
    then show ?thesis by simp
  qed
  then show ?thesis using assms(1)
    by (auto simp: snes_mod_audio_register_pcm_s16_def Let_def not_less split: option.split)
qed

interpretation register_op:
  audio_op "\<lambda>m. snd (snes_mod_audio_register_pcm_s16 alloc samples frame_count sample_rate channels m)"
  for alloc samples frame_count sample_rate channels
  by unfold_locales (rule register_keeps)

lemma unregister_keeps: "audio_ok m \<Longrightarrow> audio_ok (snes_mod_audio_unregister clip m)"
proof (cases "clip_slot m clip")
  case None
  then show "audio_ok m \<Longrightarrow> ?thesis" by (simp add: snes_mod_audio_unregister_def)
next
  case (Some s)
  assume ok: "audio_ok m"
  note n = clip_slot_nth [OF Some] 
  have len: "length (ma_clips m) = SNES_MOD_AUDIO_MAX_CLIPS" using ok by (simp add: audio_ok_def)
  have le: "clip_bytes (cs_frame_count s) (cs_channels s) \<le> ma_bytes m"
    using member_le_sum_list [of "slot_bytes (Some s)" "map slot_bytes (ma_clips m)"] imageI [OF n(4) [OF len], of slot_bytes] ok
    by (simp add: audio_ok_def slot_bytes_def)
  have keep: "nat (vo_clip v) - 1 \<noteq> nat clip - 1" if "clip_slot m (vo_clip v) \<noteq> None" "vo_clip v \<noteq> clip" for v
    using that n(3) [OF len] by (auto simp: clip_slot_def split: if_splits)
  have "audio_ok (m\<lparr>ma_clips := (ma_clips m)[nat clip - 1 := None],
      ma_bytes := ma_bytes m - clip_bytes (cs_frame_count s) (cs_channels s),
      ma_voices := map (\<lambda>v. if vo_clip v = clip then zero_voice else v) (ma_voices m)\<rparr>)"
  proof (rule store_clip [OF ok n(1) [OF len]])
    show "\<forall>v \<in> set (map (\<lambda>v. if vo_clip v = clip then zero_voice else v) (ma_voices m)).
        vo_clip v = SNES_MOD_AUDIO_CLIP_INVALID \<or>
        clip_slot m (vo_clip v) \<noteq> None \<and> (None = None \<longrightarrow> nat (vo_clip v) - 1 \<noteq> nat clip - 1)"
    proof
      fix v
      assume "v \<in> set (map (\<lambda>v. if vo_clip v = clip then zero_voice else v) (ma_voices m))"
      then consider "v = zero_voice" | "v \<in> set (ma_voices m)" "vo_clip v \<noteq> clip" by auto
      then show "vo_clip v = SNES_MOD_AUDIO_CLIP_INVALID \<or>
          clip_slot m (vo_clip v) \<noteq> None \<and> (None = None \<longrightarrow> nat (vo_clip v) - 1 \<noteq> nat clip - 1)"
      proof cases
        case 1
        then show ?thesis by (simp add: zero_voice_def SNES_MOD_AUDIO_CLIP_INVALID_def)
      next
        case 2
        then show ?thesis using ok keep [of v] unfolding audio_ok_def by blast
      qed
    qed
    have b: "ma_bytes m \<le> SNES_MOD_AUDIO_MAX_TOTAL_BYTES" using ok by (simp add: audio_ok_def)
    show "ma_bytes m - clip_bytes (cs_frame_count s) (cs_channels s) \<le> SNES_MOD_AUDIO_MAX_TOTAL_BYTES"
      by (rule le_trans [OF diff_le_self b])
  qed (use n(2) [OF len] le ok in \<open>simp_all add: slot_bytes_def audio_ok_def\<close>)
  moreover have "snes_mod_audio_unregister clip m = m\<lparr>ma_clips := (ma_clips m)[nat clip - 1 := None],
      ma_bytes := ma_bytes m - clip_bytes (cs_frame_count s) (cs_channels s),
      ma_voices := map (\<lambda>v. if vo_clip v = clip then zero_voice else v) (ma_voices m)\<rparr>"
    using Some by (simp add: snes_mod_audio_unregister_def)
  ultimately show ?thesis by simp
qed

interpretation unregister_op: audio_op "snes_mod_audio_unregister clip" for clip
  by unfold_locales (rule unregister_keeps)

lemma set_voices:
  assumes "audio_ok m" "length vs = SNES_MOD_AUDIO_MAX_VOICES" "cursor < SNES_MOD_AUDIO_MAX_VOICES"
    and "\<forall>v \<in> set vs. vo_clip v = SNES_MOD_AUDIO_CLIP_INVALID \<or> clip_slot m (vo_clip v) \<noteq> None"
  shows "audio_ok (m\<lparr>ma_voices := vs, ma_cursor := cursor\<rparr>)"
  using assms by (auto simp: audio_ok_def clip_slot_def)

lemma play_keeps: "audio_ok m \<Longrightarrow> audio_ok (snd (snes_mod_audio_play clip gain m))"
proof -
  assume ok: "audio_ok m"
  have one: "audio_ok (m\<lparr>ma_voices := (ma_voices m)[i := v], ma_cursor := cursor\<rparr>)"
    if "clip_slot m (vo_clip v) \<noteq> None" "cursor < SNES_MOD_AUDIO_MAX_VOICES" for i v cursor
  proof (rule set_voices [OF ok _ that(2)])
    show "\<forall>v' \<in> set ((ma_voices m)[i := v]). vo_clip v' = SNES_MOD_AUDIO_CLIP_INVALID \<or> clip_slot m (vo_clip v') \<noteq> None"
      using set_update_subset_insert [of "ma_voices m" i v] ok that(1) by (auto simp: audio_ok_def)
  qed (use ok in \<open>simp add: audio_ok_def\<close>)
  have same: "m\<lparr>ma_voices := vs\<rparr> = m\<lparr>ma_voices := vs, ma_cursor := ma_cursor m\<rparr>" for vs by simp
  have cursor: "ma_cursor m < SNES_MOD_AUDIO_MAX_VOICES" "n mod SNES_MOD_AUDIO_MAX_VOICES < SNES_MOD_AUDIO_MAX_VOICES" for n
    using ok by (simp_all add: audio_ok_def SNES_MOD_AUDIO_MAX_VOICES_def)
  show ?thesis
    unfolding snes_mod_audio_play_def Let_def
    by (auto simp: ok split: option.split intro!: one one [of _ "ma_cursor m", simplified] cursor)
qed

interpretation play_op: audio_op "\<lambda>m. snd (snes_mod_audio_play clip gain m)" for clip gain
  by unfold_locales (rule play_keeps)

lemma stop_keeps: "audio_ok m \<Longrightarrow> audio_ok (snes_mod_audio_stop_all m)"
  unfolding snes_mod_audio_stop_all_def
  by (rule set_voices) (auto simp: zero_voice_def SNES_MOD_AUDIO_CLIP_INVALID_def SNES_MOD_AUDIO_MAX_VOICES_def)

interpretation stop_op: audio_op snes_mod_audio_stop_all
  by unfold_locales (rule stop_keeps)


section \<open>The mixer stays in bounds\<close>

lemma between_bounds: "min s0 s1 \<le> between s0 s1 f \<and> between s0 s1 f \<le> max s0 s1"
proof -
  let ?f = "int (unat f)"
  have f: "0 \<le> ?f" "?f < 4294967296" using unsigned_less [of f, where 'a = int] by simp_all
  have pos: "0 \<le> (d * ?f) sdiv 4294967296 \<and> (d * ?f) sdiv 4294967296 \<le> d" if "0 \<le> d" for d
  proof -
    have "d * ?f \<le> d * 4294967296" using f that by (intro mult_left_mono) auto
    then have "(d * ?f) div 4294967296 \<le> (d * 4294967296) div 4294967296" by (intro zdiv_mono1) auto
    moreover have "0 \<le> (d * ?f) div 4294967296"
      using f that by (simp add: pos_imp_zdiv_nonneg_iff)
    ultimately show ?thesis using f that by (simp add: signed_divide_int_def sgn_if)
  qed
  show ?thesis
  proof (cases "s0 \<le> s1")
    case True
    with pos [of "s1 - s0"] show ?thesis by (simp add: between_def)
  next
    case False
    have "((s1 - s0) * ?f) sdiv 4294967296 = - (((s0 - s1) * ?f) sdiv 4294967296)"
    proof -
      have e: "(s1 - s0) * ?f = - ((s0 - s1) * ?f)" by (simp add: algebra_simps)
      show ?thesis unfolding e signed_divide_int_def abs_minus sgn_minus by simp
    qed
    with pos [of "s0 - s1"] False show ?thesis by (simp add: between_def)
  qed
qed

lemma frame_in_clip:
  assumes "clip_ok s" "frame < cs_frame_count s" "c < cs_channels s \<or> cs_channels s = 1"
  shows "\<exists>v. interpolated_sample s frame fraction c = Some v"
proof -
  let ?n = "unat (cs_channels s)" and ?c = "unat (if cs_channels s = 1 then 0 else c)"
  have c: "?c < ?n" using assms(1,3) by (auto simp: clip_ok_def word_less_nat_alt)
  have len: "length (cs_samples s) = unat (cs_frame_count s) * ?n" using assms(1) by (simp add: clip_ok_def)
  have at: "k * ?n + ?c < length (cs_samples s)" if "k < unat (cs_frame_count s)" for k
  proof -
    have "k * ?n + ?c < (k + 1) * ?n" using c by simp
    also have "\<dots> \<le> unat (cs_frame_count s) * ?n" using that by (intro mult_le_mono1) simp
    finally show ?thesis by (simp add: len)
  qed
  have f: "unat frame < unat (cs_frame_count s)" using assms(2) by (simp add: word_less_nat_alt)
  have "unat frame * ?n + ?c + ?n < length (cs_samples s)" if "frame + 1 < cs_frame_count s"
  proof -
    have "frame + 1 \<noteq> 0" using assms(2) by (metis add_diff_cancel_right' diff_0 not_less word_n1_ge)
    then have "unat (frame + 1) = unat frame + 1" by (metis Suc_eq_plus1 add.commute unatSuc)
    then have "unat frame + 1 < unat (cs_frame_count s)" using that by (simp add: word_less_nat_alt)
    from at [OF this] show ?thesis by (simp add: algebra_simps)
  qed
  with at [OF f] show ?thesis
    by (auto simp: interpolated_sample_def array_read_def Let_def ac_simps)
qed


lemma advance_clip: "vo_clip (advance_voice slot rate v) \<in> {vo_clip v, SNES_MOD_AUDIO_CLIP_INVALID}"
  by (simp add: advance_voice_def Let_def zero_voice_def SNES_MOD_AUDIO_CLIP_INVALID_def)

lemma mix_voice_ok:
  assumes "audio_ok m" "channels = 1 \<or> channels = 2" "length mixed = unat channels"
    and "vo_clip v = SNES_MOD_AUDIO_CLIP_INVALID \<or> clip_slot m (vo_clip v) \<noteq> None"
  shows "\<exists>mixed' v'. mix_voice m rate channels mixed v = Some (mixed', v') \<and> length mixed' = unat channels \<and>
    vo_clip v' \<in> {vo_clip v, SNES_MOD_AUDIO_CLIP_INVALID}"
proof (cases "vo_clip v = SNES_MOD_AUDIO_CLIP_INVALID")
  case True
  with assms show ?thesis by (simp add: mix_voice_def)
next
  case False
  let ?frame = "ucast (drop_bit 32 (vo_phase v)) :: u32" and ?fraction = "ucast (vo_phase v) :: u32"
  obtain s where s: "clip_slot m (vo_clip v) = Some s" using False assms(4) by auto
  have ok: "clip_ok s" using clip_slot_nth(4) [OF s] assms(1) by (auto simp: audio_ok_def)
  show ?thesis
  proof (cases "?frame \<ge> cs_frame_count s")
    case True
    with False s assms show ?thesis by (simp add: mix_voice_def Let_def zero_voice_def SNES_MOD_AUDIO_CLIP_INVALID_def)
  next
    case less: False
    then have f: "?frame < cs_frame_count s" by simp
    have read: "interpolated_sample s ?frame ?fraction c \<noteq> None" if "c < cs_channels s \<or> cs_channels s = 1" for c
      using frame_in_clip [OF ok f that] by auto
    have "sample_for_output s ?frame ?fraction (of_nat c) channels \<noteq> None" if "c < unat channels" for c
    proof (cases "channels = 1 \<and> cs_channels s = 2")
      case True
      then show ?thesis using read [of 0] read [of 1] by (auto simp: sample_for_output_def)
    next
      case other: False
      have "c = 0 \<or> c = 1 \<and> channels = 2" using that assms(2) by auto
      with ok other assms(2) have "of_nat c < cs_channels s \<or> cs_channels s = 1" by (auto simp: clip_ok_def)
      with other read show ?thesis by (auto simp: sample_for_output_def)
    qed
    then have "None \<notin> set (map (\<lambda>c. sample_for_output s ?frame ?fraction (of_nat c) channels) [0..<unat channels])"
      by force
    with False s less assms(3) advance_clip [of s rate v] show ?thesis by (simp add: mix_voice_def Let_def)
  qed
qed

lemma mix_voices_ok:
  assumes "audio_ok m" "channels = 1 \<or> channels = 2"
  shows "length mixed = unat channels \<Longrightarrow>
    (\<forall>v \<in> set vs. vo_clip v = SNES_MOD_AUDIO_CLIP_INVALID \<or> clip_slot m (vo_clip v) \<noteq> None) \<Longrightarrow>
    \<exists>mixed' vs'. mix_voices m rate channels mixed vs = Some (mixed', vs') \<and> length mixed' = unat channels \<and>
      length vs' = length vs \<and>
      (\<forall>v \<in> set vs'. vo_clip v = SNES_MOD_AUDIO_CLIP_INVALID \<or> clip_slot m (vo_clip v) \<noteq> None)"
proof (induction vs arbitrary: mixed)
  case Nil
  then show ?case by simp
next
  case (Cons v vs)
  from Cons.prems have v: "vo_clip v = SNES_MOD_AUDIO_CLIP_INVALID \<or> clip_slot m (vo_clip v) \<noteq> None" by simp
  obtain mixed1 v1 where 1: "mix_voice m rate channels mixed v = Some (mixed1, v1)" "length mixed1 = unat channels"
    "vo_clip v1 \<in> {vo_clip v, SNES_MOD_AUDIO_CLIP_INVALID}"
    using mix_voice_ok [OF assms Cons.prems(1) v, of rate] by blast
  from Cons.IH [OF 1(2)] Cons.prems(2) obtain mixed2 vs1 where 2:
    "mix_voices m rate channels mixed1 vs = Some (mixed2, vs1)" "length mixed2 = unat channels"
    "length vs1 = length vs"
    "\<forall>v \<in> set vs1. vo_clip v = SNES_MOD_AUDIO_CLIP_INVALID \<or> clip_slot m (vo_clip v) \<noteq> None" by auto
  have "vo_clip v1 = SNES_MOD_AUDIO_CLIP_INVALID \<or> clip_slot m (vo_clip v1) \<noteq> None"
    using 1(3) v by (elim insertE) simp_all
  with 1 2 show ?case by (simp del: not_None_eq)
qed

text \<open>The samples of a frame.\<close>

definition written_only :: "nat set \<Rightarrow> u16 list \<Rightarrow> u16 list \<Rightarrow> bool" where
  "written_only is d d' \<longleftrightarrow> length d' = length d \<and> (\<forall>i. i \<notin> is \<longrightarrow> d' ! i = d ! i)"

lemma store_samples: "written_only (at ` set cs) d (foldl (\<lambda>d c. d[at c := f c]) d cs)"
proof (induction cs rule: rev_induct)
  case Nil
  then show ?case by (simp add: written_only_def)
next
  case (snoc c cs)
  then show ?case by (auto simp: written_only_def nth_list_update)
qed

lemma mix_frame_ok:
  assumes "audio_ok m" "channels = 1 \<or> channels = 2" "(frame + 1) * unat channels \<le> length dst"
  shows "\<exists>dst' m'. mix_frame rate channels frame (Some (dst, m)) = Some (dst', m') \<and> audio_ok m' \<and>
    ma_clips m' = ma_clips m \<and> written_only {..<(frame + 1) * unat channels} dst dst'"
proof -
  let ?n = "unat channels"
  have "frame * ?n + c < length dst" if "c < ?n" for c using assms(3) that by (simp add: algebra_simps)
  then have "None \<notin> set (map (\<lambda>c. array_read dst (frame * ?n + c)) [0..<?n])"
    by (force simp: array_read_def)
  moreover obtain mixed vs where v: "mix_voices m rate channels
      (map the (map (\<lambda>c. array_read dst (frame * ?n + c)) [0..<?n])) (ma_voices m) = Some (mixed, vs)"
    "length vs = length (ma_voices m)"
    "\<forall>v \<in> set vs. vo_clip v = SNES_MOD_AUDIO_CLIP_INVALID \<or> clip_slot m (vo_clip v) \<noteq> None"
    using mix_voices_ok [OF assms(1,2), of "map the (map (\<lambda>c. array_read dst (frame * ?n + c)) [0..<?n])" "ma_voices m" rate]
      assms(1) by (auto simp: audio_ok_def)
  moreover have "audio_ok (m\<lparr>ma_voices := vs, ma_cursor := ma_cursor m\<rparr>)"
    by (rule set_voices [OF assms(1) _ _ v(3)]) (use v(2) assms(1) in \<open>simp_all add: audio_ok_def\<close>)
  moreover have "written_only {..<(frame + 1) * ?n} dst
      (foldl (\<lambda>d c. d[frame * ?n + c := clamp_s16 (mixed ! c)]) dst [0..<?n])"
    using store_samples [of "\<lambda>c. frame * ?n + c" "[0..<?n]" dst "\<lambda>c. clamp_s16 (mixed ! c)"]
    by (auto simp: written_only_def image_iff not_less)
  ultimately show ?thesis by (simp add: mix_frame_def Let_def)
qed


lemma written_only_trans:
  "written_only is d d1 \<Longrightarrow> written_only js d1 d2 \<Longrightarrow> is \<subseteq> ks \<Longrightarrow> js \<subseteq> ks \<Longrightarrow> written_only ks d d2"
  unfolding written_only_def by (metis subsetD)

lemma mix_ok:
  assumes "audio_ok m" "nat frame_count * unat channels \<le> length dst"
  shows "\<exists>dst' m'. snes_mod_audio_mix dst frame_count rate channels m = Some (dst', m') \<and> audio_ok m' \<and>
    ma_clips m' = ma_clips m \<and> written_only {..<nat frame_count * unat channels} dst dst'"
proof (cases "frame_count \<le> 0 \<or> rate < 8000 \<or> rate > 192000 \<or> (channels \<noteq> 1 \<and> channels \<noteq> 2)")
  case True
  then show ?thesis using assms(1) by (simp add: snes_mod_audio_mix_def written_only_def)
next
  case False
  then have ch: "channels = 1 \<or> channels = 2" by blast
  have "\<exists>dst' m'. fold (mix_frame rate channels) [0..<n] (Some (dst, m)) = Some (dst', m') \<and> audio_ok m' \<and>
    ma_clips m' = ma_clips m \<and> written_only {..<n * unat channels} dst dst'"
    if "n * unat channels \<le> length dst" for n
    using that
  proof (induction n)
    case 0
    with assms(1) show ?case by (simp add: written_only_def)
  next
    case (Suc n)
    then obtain d1 m1 where 1: "fold (mix_frame rate channels) [0..<n] (Some (dst, m)) = Some (d1, m1)" "audio_ok m1"
      "ma_clips m1 = ma_clips m" "written_only {..<n * unat channels} dst d1" by auto
    have "(n + 1) * unat channels \<le> length d1" using Suc.prems 1(4) by (simp add: written_only_def)
    from mix_frame_ok [OF 1(2) ch this] obtain d2 m2 where 2:
      "mix_frame rate channels n (Some (d1, m1)) = Some (d2, m2)" "audio_ok m2" "ma_clips m2 = ma_clips m1"
      "written_only {..<(n + 1) * unat channels} d1 d2" by blast
    have "written_only {..<Suc n * unat channels} dst d2"
      by (rule written_only_trans [OF 1(4) 2(4)]) auto
    with 1 2 show ?case by simp
  qed
  moreover have "snes_mod_audio_mix dst frame_count rate channels m =
      fold (mix_frame rate channels) [0..<nat frame_count] (Some (dst, m))"
    using False by (auto simp: snes_mod_audio_mix_def)
  ultimately show ?thesis using assms(2) by simp
qed

section \<open>The properties\<close>

inductive audio_step :: "ModAudio \<Rightarrow> ModAudio \<Rightarrow> bool" where
  register: "snes_mod_audio_register_pcm_s16 alloc samples frame_count rate channels m = (clip, m') \<Longrightarrow>
    audio_step m m'"
| unregister: "audio_step m (snes_mod_audio_unregister clip m)"
| play: "snes_mod_audio_play clip gain m = (ok, m') \<Longrightarrow> audio_step m m'"
| stop_all: "audio_step m (snes_mod_audio_stop_all m)"
| mix: "nat frame_count * unat channels \<le> length dst \<Longrightarrow>
    snes_mod_audio_mix dst frame_count rate channels m = Some (dst', m') \<Longrightarrow> audio_step m m'"

lemma silent_ok: "audio_ok silent_audio"
  by (simp add: audio_ok_def silent_audio_def SNES_MOD_AUDIO_MAX_VOICES_def zero_voice_def
      SNES_MOD_AUDIO_CLIP_INVALID_def sum_list_replicate slot_bytes_def)

lemma audio_step_keeps: "audio_step m m' \<Longrightarrow> audio_ok m \<Longrightarrow> audio_ok m'"
proof (induction rule: audio_step.induct)
  case (register alloc samples frame_count rate channels m clip m')
  then show ?case using register_op.keeps [of m alloc samples frame_count rate channels] by simp
next
  case (unregister m clip)
  then show ?case by (rule unregister_op.keeps)
next
  case (play clip gain m ok m')
  then show ?case using play_op.keeps [of m clip gain] by simp
next
  case (stop_all m)
  then show ?case by (rule stop_op.keeps)
next
  case (mix frame_count channels dst rate m dst' m')
  then show ?case using mix_ok [of m frame_count channels dst rate] by auto
qed

lemma audio_reachable: "audio_step\<^sup>*\<^sup>* silent_audio m \<Longrightarrow> audio_ok m"
  by (induction rule: rtranclp_induct) (auto intro: silent_ok audio_step_keeps)

text \<open>
  C25. In every state that any sequence of registering, unregistering, playing, stopping and mixing
  reaches, the byte counter is exactly the sum of the registered clips' sizes and within the 16 MiB
  budget, there are 64 slots and 8 voices, and every voice that sounds names a registered clip: an
  unregistered clip is never heard again.
\<close>

theorem audio_accounting:
  assumes "audio_step\<^sup>*\<^sup>* silent_audio m"
  shows "ma_bytes m = sum_list (map slot_bytes (ma_clips m)) \<and>
    ma_bytes m \<le> 16777216 \<and> length (ma_clips m) = 64 \<and> length (ma_voices m) = 8 \<and>
    (\<forall>v \<in> set (ma_voices m). vo_clip v \<noteq> 0 \<longrightarrow> clip_slot m (vo_clip v) \<noteq> None)"
  using audio_reachable [OF assms]
  by (auto simp: audio_ok_def SNES_MOD_AUDIO_MAX_TOTAL_BYTES_def SNES_MOD_AUDIO_MAX_CLIPS_def
      SNES_MOD_AUDIO_MAX_VOICES_def SNES_MOD_AUDIO_CLIP_INVALID_def)

text \<open>
  In a reachable state the mixer never reads outside a clip or the caller's buffer, whatever the
  output rate and the number of channels, provided the buffer holds the requested frames; it keeps
  the clips and writes no sample beyond the requested frames.
\<close>

lemma mix_in_bounds:
  assumes "audio_step\<^sup>*\<^sup>* silent_audio m" "nat frame_count * unat channels \<le> length dst"
  shows "\<exists>dst' m'. snes_mod_audio_mix dst frame_count rate channels m = Some (dst', m') \<and>
    ma_clips m' = ma_clips m \<and> length dst' = length dst \<and>
    drop (nat frame_count * unat channels) dst' = drop (nat frame_count * unat channels) dst"
proof -
  obtain d m' where d: "snes_mod_audio_mix dst frame_count rate channels m = Some (d, m')"
    "ma_clips m' = ma_clips m" "written_only {..<nat frame_count * unat channels} dst d"
    using mix_ok [OF audio_reachable [OF assms(1)] assms(2), of rate] by blast
  have "drop (nat frame_count * unat channels) d = drop (nat frame_count * unat channels) dst"
    using d(3) by (intro nth_equalityI) (auto simp: written_only_def)
  with d show ?thesis by (auto simp: written_only_def)
qed

text \<open>
  An interpolated sample lies between the two neighbouring samples of its channel, so that
  resampling never overshoots; at the clip's last frame, or without a fraction, it is the sample.
\<close>

lemma interpolation_between:
  assumes "interpolated_sample slot frame fraction channel = Some v"
  shows "\<exists>s0 s1. array_read (cs_samples slot)
       (unat frame * unat (cs_channels slot) + unat (if cs_channels slot = 1 then 0 else channel)) = Some s0 \<and>
    (if frame + 1 < cs_frame_count slot
     then array_read (cs_samples slot)
       (unat frame * unat (cs_channels slot) + unat (if cs_channels slot = 1 then 0 else channel) +
        unat (cs_channels slot)) = Some s1
     else s1 = s0) \<and>
    min s0 s1 \<le> v \<and> v \<le> max s0 s1 \<and> (fraction = 0 \<longrightarrow> v = s0)"
proof -
  have z: "between s0 s1 0 = s0" "between s0 s0 f = s0" for s0 s1 f by (simp_all add: between_def)
  let ?at = "unat frame * unat (cs_channels slot) + unat (if cs_channels slot = 1 then 0 else channel)"
  obtain s0 where s0: "array_read (cs_samples slot) ?at = Some s0"
    using assms by (auto simp: interpolated_sample_def Let_def split: option.splits)
  show ?thesis
  proof (cases "frame + 1 < cs_frame_count slot")
    case True
    then obtain s1 where s1: "array_read (cs_samples slot) (?at + unat (cs_channels slot)) = Some s1"
      "v = between s0 s1 fraction"
      using assms s0 by (auto simp: interpolated_sample_def Let_def split: option.splits)
    with s0 True between_bounds [of s0 s1 fraction] show ?thesis by (auto simp: z)
  next
    case False
    then have "v = s0" using assms s0 by (simp add: interpolated_sample_def Let_def z)
    with s0 False show ?thesis by simp
  qed
qed

end
