(* ===== verification/Config_Keys.thy ===== *)
theory Config_Keys
  imports Prelude
begin

text \<open>
  The key bindings of \<^verbatim>\<open>src/config.c\<close>: the hash table from keys with modifiers to commands, the
  chains from gamepad buttons to commands with modifier buttons, the defaults and the parsing of
  binding lists.

  A link of a chain, a \<open>uint16 *\<close> in C, is a place: the head of a chain or the \<open>next\<close> field of an
  entry.  The walks along a chain are partial functions, so that a cyclic chain would be a walk that
  does not return; that none exists is proved.  SDL's numbers and the string functions of the
  framework are parameters.
\<close>

section \<open>Commands and buttons\<close>

definition kKeys_Null :: nat where "kKeys_Null = 0"
definition kKeys_Controls :: nat where "kKeys_Controls = 1"
definition kKeys_ControlsP2 :: nat where "kKeys_ControlsP2 = 13"
definition kKeys_Load :: nat where "kKeys_Load = 25"
definition kKeys_Save :: nat where "kKeys_Save = 45"
definition kKeys_Fullscreen :: nat where "kKeys_Fullscreen = 65"
definition kKeys_Total :: nat where "kKeys_Total = 76"

definition kKeyMod_ScanCode :: nat where "kKeyMod_ScanCode = 0x200"
definition kKeyMod_Alt :: nat where "kKeyMod_Alt = 0x400"
definition kKeyMod_Shift :: nat where "kKeyMod_Shift = 0x800"
definition kKeyMod_Ctrl :: nat where "kKeyMod_Ctrl = 0x1000"

datatype GamepadBtn =
    kGamepadBtn_A | kGamepadBtn_B | kGamepadBtn_X | kGamepadBtn_Y | kGamepadBtn_Back | kGamepadBtn_Guide
  | kGamepadBtn_Start | kGamepadBtn_L3 | kGamepadBtn_R3 | kGamepadBtn_L1 | kGamepadBtn_R1
  | kGamepadBtn_DpadUp | kGamepadBtn_DpadDown | kGamepadBtn_DpadLeft | kGamepadBtn_DpadRight
  | kGamepadBtn_L2 | kGamepadBtn_R2

fun button_number :: "GamepadBtn \<Rightarrow> nat" where
  "button_number kGamepadBtn_A = 0"
| "button_number kGamepadBtn_B = 1"
| "button_number kGamepadBtn_X = 2"
| "button_number kGamepadBtn_Y = 3"
| "button_number kGamepadBtn_Back = 4"
| "button_number kGamepadBtn_Guide = 5"
| "button_number kGamepadBtn_Start = 6"
| "button_number kGamepadBtn_L3 = 7"
| "button_number kGamepadBtn_R3 = 8"
| "button_number kGamepadBtn_L1 = 9"
| "button_number kGamepadBtn_R1 = 10"
| "button_number kGamepadBtn_DpadUp = 11"
| "button_number kGamepadBtn_DpadDown = 12"
| "button_number kGamepadBtn_DpadLeft = 13"
| "button_number kGamepadBtn_DpadRight = 14"
| "button_number kGamepadBtn_L2 = 15"
| "button_number kGamepadBtn_R2 = 16"

definition kGamepadBtn_Count :: nat where "kGamepadBtn_Count = 17"

text \<open>How a call ends that does not return: the program stops, or memory outside an array is written.\<close>

datatype fault = Died | OutOfBounds

section \<open>The keyboard map\<close>

record KeyMapHashEnt =
  he_key :: u16
  he_cmd :: u16
  he_next :: u16

record KeyMap =
  km_first :: "u16 list"
  km_hash :: "KeyMapHashEnt list"
  km_capacity :: nat
  km_keyboard_controls :: u8

datatype Link = First nat | Next nat

definition empty_keymap :: KeyMap where
  "empty_keymap = \<lparr>km_first = replicate 255 0, km_hash = [], km_capacity = 0, km_keyboard_controls = 0\<rparr>"

text \<open>
  The walk of \<open>KeyMapHash_Add\<close> from the link \<open>l\<close> with value \<open>cur\<close>: None does not return, Some None
  found the key, otherwise the link at the end of the chain.
\<close>

partial_function (option) chain_end :: "KeyMapHashEnt list \<Rightarrow> u16 \<Rightarrow> Link \<Rightarrow> u16 \<Rightarrow> Link option option" where
  "chain_end hash key l cur =
     (if cur = 0 then Some (Some l)
      else let ent = hash ! (unat cur - 1)
           in if he_key ent = key then Some None
              else chain_end hash key (Next (unat cur - 1)) (he_next ent))"

definition set_link :: "Link \<Rightarrow> u16 \<Rightarrow> KeyMap \<Rightarrow> KeyMap" where
  "set_link l v m =
     (case l of First j \<Rightarrow> m\<lparr>km_first := (km_first m)[j := v]\<rparr>
      | Next k \<Rightarrow> m\<lparr>km_hash := upd_at k (he_next_update (\<lambda>_. v)) (km_hash m)\<rparr>)"

definition claim_keyboard :: "u16 \<Rightarrow> KeyMap \<Rightarrow> KeyMap" where
  "claim_keyboard cmd m =
     (if cmd = of_nat kKeys_Controls then m\<lparr>km_keyboard_controls := km_keyboard_controls m OR 1\<rparr>
      else if cmd = of_nat kKeys_ControlsP2 then m\<lparr>km_keyboard_controls := km_keyboard_controls m OR 2\<rparr>
      else m)"

text \<open>
  \<open>KeyMapHash_Add\<close>.  The entry is appended before the search for a duplicate, so a duplicate leaves
  an entry behind that no chain reaches.
\<close>

definition KeyMapHash_Add :: "u16 \<Rightarrow> u16 \<Rightarrow> KeyMap \<Rightarrow> (fault + (bool \<times> KeyMap)) option" where
  "KeyMapHash_Add key cmd m =
     (if key = 0 then Some (Inr (False, m))
      else
        let m1 = claim_keyboard cmd m; i = length (km_hash m1)
        in if i mod 256 = 0 \<and> i > 10000 then Some (Inl Died)
           else
             let cap = (if i mod 256 = 0 then i + 256 else km_capacity m1)
             in if i \<ge> cap then Some (Inl OutOfBounds)
                else
                  let m2 = m1\<lparr>km_hash := km_hash m1 @ [\<lparr>he_key = key, he_cmd = cmd, he_next = 0\<rparr>],
                              km_capacity := cap\<rparr>;
                      j = unat key mod 255
                  in case chain_end (km_hash m2) key (First j) (km_first m2 ! j) of
                       None \<Rightarrow> None
                     | Some None \<Rightarrow> Some (Inr (False, m2))
                     | Some (Some l) \<Rightarrow> Some (Inr (True, set_link l (of_nat (i + 1)) m2)))"

partial_function (option) chain_find :: "KeyMapHashEnt list \<Rightarrow> u16 \<Rightarrow> u16 \<Rightarrow> u16 option" where
  "chain_find hash key i =
     (if i = 0 then Some 0
      else let ent = hash ! (unat i - 1)
           in if he_key ent = key then Some (he_cmd ent) else chain_find hash key (he_next ent))"

definition KeyMapHash_Find :: "u16 \<Rightarrow> KeyMap \<Rightarrow> u16 option" where
  "KeyMapHash_Find key m = chain_find (km_hash m) key (km_first m ! (unat key mod 255))"

section \<open>Keys of SDL\<close>

datatype SdlKey =
    SDLK_UP | SDLK_DOWN | SDLK_LEFT | SDLK_RIGHT | SDLK_RSHIFT | SDLK_LSHIFT | SDLK_RETURN | SDLK_TAB
  | SDLK_LALT | SDLK_RALT | SDLK_LCTRL | SDLK_RCTRL | SDLK_LETTER char | SDLK_F nat

record Sdl =
  sdl_code :: "SdlKey \<Rightarrow> u32"
  sdl_scancode_mask :: u32
  sdl_kmod_alt :: u32
  sdl_kmod_ctrl :: u32
  sdl_kmod_shift :: u32
  sdl_from_name :: "string \<Rightarrow> u32 option"

definition remap_keycode :: "Sdl \<Rightarrow> u32 \<Rightarrow> nat" where
  "remap_keycode sdl key =
     (if key AND sdl_scancode_mask sdl \<noteq> 0 then kKeyMod_ScanCode else 0) OR
     unat (key AND of_nat (kKeyMod_ScanCode - 1))"

definition FindCmdForSdlKey :: "Sdl \<Rightarrow> u32 \<Rightarrow> u32 \<Rightarrow> KeyMap \<Rightarrow> u16 option" where
  "FindCmdForSdlKey sdl code modi m =
     (if code AND NOT (sdl_scancode_mask sdl OR 0x1ff) \<noteq> 0 then Some 0
      else
        let c = sdl_code sdl;
            k0 = (if code \<noteq> c SDLK_LALT \<and> code \<noteq> c SDLK_RALT \<and> modi AND sdl_kmod_alt sdl \<noteq> 0
                  then kKeyMod_Alt else 0);
            k1 = k0 OR (if code \<noteq> c SDLK_LCTRL \<and> code \<noteq> c SDLK_RCTRL \<and> modi AND sdl_kmod_ctrl sdl \<noteq> 0
                  then kKeyMod_Ctrl else 0);
            k2 = k1 OR (if code \<noteq> c SDLK_LSHIFT \<and> code \<noteq> c SDLK_RSHIFT \<and> modi AND sdl_kmod_shift sdl \<noteq> 0
                  then kKeyMod_Shift else 0)
        in KeyMapHash_Find (of_nat (k2 OR remap_keycode sdl code)) m)"

text \<open>\<open>kDefaultKbdControls\<close>: the key of each command, 0 for none.\<close>

definition kDefaultKbdControls :: "Sdl \<Rightarrow> u16 list" where
  "kDefaultKbdControls sdl =
     (let K = (\<lambda>k. of_nat (remap_keycode sdl (sdl_code sdl k)) :: u16);
          S = (\<lambda>k. K k OR of_nat kKeyMod_Shift); A = (\<lambda>k. K k OR of_nat kKeyMod_Alt);
          C = (\<lambda>k. K k OR of_nat kKeyMod_Ctrl); L = SDLK_LETTER
      in [0] @
         [K SDLK_UP, K SDLK_DOWN, K SDLK_LEFT, K SDLK_RIGHT, K SDLK_RSHIFT, K SDLK_RETURN, K (L CHR ''x''),
          K (L CHR ''z''), K (L CHR ''s''), K (L CHR ''a''), K (L CHR ''c''), K (L CHR ''v'')] @
         replicate 12 0 @
         map (\<lambda>i. K (SDLK_F i)) [1..<11] @ replicate 10 0 @
         map (\<lambda>i. S (SDLK_F i)) [1..<11] @ replicate 10 0 @
         [A SDLK_RETURN, C (L CHR ''r''), S (L CHR ''p''), K (L CHR ''p''), K SDLK_TAB, 0, 0,
          K (L CHR ''f''), K (L CHR ''r'')] @ [0, 0])"

section \<open>The gamepad map\<close>

record GamepadMapEnt =
  ge_modifiers :: u32
  ge_cmd :: u16
  ge_next :: u16

record JoyMap =
  jm_first :: "u16 list"
  jm_ents :: "GamepadMapEnt list"
  jm_capacity :: nat

definition empty_joymap :: JoyMap where
  "empty_joymap = \<lparr>jm_first = replicate (kGamepadBtn_Count * 2) 0, jm_ents = [], jm_capacity = 0\<rparr>"

function CountBits32 :: "u32 \<Rightarrow> nat" where
  "CountBits32 n = (if n = 0 then 0 else Suc (CountBits32 (n AND (n - 1))))"
  by pat_completeness auto
termination
proof (relation "measure unat")
  fix n :: u32
  assume n: "n \<noteq> 0"
  have "unat (n AND (n - 1)) \<le> unat (n - 1)" by (simp add: word_and_le1 flip: word_le_nat_alt)
  also have "\<dots> < unat n" using n by (simp add: unat_minus_one unsigned_eq_0_iff flip: neq0_conv)
  finally show "(n AND (n - 1), n) \<in> measure unat" by simp
qed simp

declare CountBits32.simps [simp del]

text \<open>The place of a new entry: behind every entry with more modifiers.\<close>

partial_function (option) insert_place :: "GamepadMapEnt list \<Rightarrow> nat \<Rightarrow> Link \<Rightarrow> u16 \<Rightarrow> (Link \<times> u16) option" where
  "insert_place ents cb l cur =
     (if cur \<noteq> 0 \<and> cb < CountBits32 (ge_modifiers (ents ! (unat cur - 1)))
      then insert_place ents cb (Next (unat cur - 1)) (ge_next (ents ! (unat cur - 1)))
      else Some (l, cur))"

definition set_joy_link :: "Link \<Rightarrow> u16 \<Rightarrow> JoyMap \<Rightarrow> JoyMap" where
  "set_joy_link l v m =
     (case l of First j \<Rightarrow> m\<lparr>jm_first := (jm_first m)[j := v]\<rparr>
      | Next k \<Rightarrow> m\<lparr>jm_ents := upd_at k (ge_next_update (\<lambda>_. v)) (jm_ents m)\<rparr>)"

definition GamepadMap_Add :: "nat \<Rightarrow> u32 \<Rightarrow> u16 \<Rightarrow> JoyMap \<Rightarrow> (fault + JoyMap) option" where
  "GamepadMap_Add button modifiers cmd m =
     (let size = length (jm_ents m)
      in if size mod 256 = 0 \<and> size > 1000 then Some (Inl Died)
         else
           let cap = (if size mod 256 = 0 then size + 64 else jm_capacity m)
           in case insert_place (jm_ents m) (CountBits32 modifiers) (First button) (jm_first m ! button) of
                None \<Rightarrow> None
              | Some (l, cur) \<Rightarrow>
                  if size \<ge> cap then Some (Inl OutOfBounds)
                  else Some (Inr (set_joy_link l (of_nat (size + 1))
                         (m\<lparr>jm_ents := jm_ents m @ [\<lparr>ge_modifiers = modifiers, ge_cmd = cmd, ge_next = cur\<rparr>],
                            jm_capacity := cap\<rparr>))))"

partial_function (option) joy_find :: "GamepadMapEnt list \<Rightarrow> u32 \<Rightarrow> u16 \<Rightarrow> u16 option" where
  "joy_find ents modifiers e =
     (if e = 0 then Some 0
      else let ent = ents ! (unat e - 1)
           in if modifiers AND ge_modifiers ent = ge_modifiers ent then Some (ge_cmd ent)
              else joy_find ents modifiers (ge_next ent))"

definition FindCmdForGamepadButton :: "nat \<Rightarrow> u32 \<Rightarrow> JoyMap \<Rightarrow> u16 option" where
  "FindCmdForGamepadButton button modifiers m = joy_find (jm_ents m) modifiers (jm_first m ! button)"


section \<open>Chains\<close>

text \<open>\<open>path\<close>: from the link value \<open>cur\<close> the chain visits exactly the entries \<open>ks\<close>.\<close>

fun path :: "('e \<Rightarrow> u16) \<Rightarrow> 'e list \<Rightarrow> u16 \<Rightarrow> nat list \<Rightarrow> bool" where
  "path nxt ents cur [] = (cur = 0)"
| "path nxt ents cur (k # ks) = (unat cur = Suc k \<and> k < length ents \<and> path nxt ents (nxt (ents ! k)) ks)"

definition link_at :: "Link \<Rightarrow> nat list \<Rightarrow> Link" where
  "link_at l xs = (if xs = [] then l else Next (last xs))"

definition value_at :: "('e \<Rightarrow> u16) \<Rightarrow> 'e list \<Rightarrow> u16 \<Rightarrow> nat list \<Rightarrow> u16" where
  "value_at nxt ents cur xs = (if xs = [] then cur else nxt (ents ! last xs))"

definition chained :: "('e \<Rightarrow> u16) \<Rightarrow> u16 list \<Rightarrow> 'e list \<Rightarrow> nat list list \<Rightarrow> bool" where
  "chained nxt heads ents css \<longleftrightarrow> length css = length heads \<and>
     (\<forall>j < length heads. path nxt ents (heads ! j) (css ! j)) \<and>
     (\<forall>j < length heads. distinct (css ! j) \<and>
        (\<forall>i < length heads. i \<noteq> j \<longrightarrow> set (css ! i) \<inter> set (css ! j) = {}))"

lemma path_end: "path nxt ents cur ks \<Longrightarrow> value_at nxt ents cur ks = 0"
proof (induction ks arbitrary: cur)
  case Nil
  then show ?case by (simp add: value_at_def)
next
  case (Cons k ks)
  then show ?case by (cases ks) (auto simp: value_at_def)
qed

lemma path_less: "path nxt ents cur ks \<Longrightarrow> k \<in> set ks \<Longrightarrow> k < length ents"
  by (induction ks arbitrary: cur) auto

lemma path_cong:
  "(\<And>k. k \<in> set ks \<Longrightarrow> nxt (ents' ! k) = nxt (ents ! k)) \<Longrightarrow> length ents \<le> length ents' \<Longrightarrow>
     path nxt ents cur ks \<Longrightarrow> path nxt ents' cur ks"
  by (induction ks arbitrary: cur) auto

text \<open>Entries whose \<open>next\<close> field can be stored and read back.\<close>

locale linked_entries =
  fixes nxt :: "'e \<Rightarrow> u16"
    and store :: "u16 \<Rightarrow> 'e \<Rightarrow> 'e"
  assumes nxt_store: "nxt (store v e) = v"
begin

lemma nxt_upd: "k < length ents \<Longrightarrow> nxt (upd_at k (store v) ents ! m) = (if m = k then v else nxt (ents ! m))"
  by (simp add: nth_upd_at nxt_store)

text \<open>The chain with a new entry \<open>n\<close> between \<open>xs\<close> and \<open>ys\<close>.\<close>

lemma path_insert:
  assumes "path nxt ents cur (xs @ ys)" "distinct (xs @ ys)" "n = length ents" "n < 65535"
    and "nxt e = value_at nxt ents cur xs"
  shows "xs = [] \<Longrightarrow> path nxt (ents @ [e]) (of_nat (n + 1)) (n # ys)"
    and "xs \<noteq> [] \<Longrightarrow> path nxt (upd_at (last xs) (store (of_nat (n + 1))) (ents @ [e])) cur (xs @ n # ys)"
proof -
  have u: "unat (of_nat (n + 1) :: u16) = Suc n"
    using assms(4) by (simp add: unsigned_of_nat take_bit_nat_eq_self del: of_nat_Suc of_nat_add)
  have less: "k < n" if "k \<in> set (xs @ ys)" for k using path_less [OF assms(1) that] assms(3) by simp
  show "path nxt (ents @ [e]) (of_nat (n + 1)) (n # ys)" if "xs = []"
  proof -
    have "path nxt (ents @ [e]) cur ys"
      by (rule path_cong [of ys nxt "ents @ [e]" ents]) (use assms(1) that less in \<open>auto simp: nth_append assms(3)\<close>)
    then show ?thesis using that u assms(3,5) by (simp add: value_at_def)
  qed
  show "path nxt (upd_at (last xs) (store (of_nat (n + 1))) (ents @ [e])) cur (xs @ n # ys)" if "xs \<noteq> []"
    using assms(1,2,5) that
  proof (induction xs arbitrary: cur)
    case Nil
    then show ?case by simp
  next
    case (Cons x xs)
    let ?ents = "upd_at (last (x # xs)) (store (of_nat (n + 1))) (ents @ [e])"
    have len: "length ?ents = Suc n" using assms(3) by simp
    have x: "unat cur = Suc x" "x < n" "path nxt ents (nxt (ents ! x)) (xs @ ys)"
      using Cons.prems(1) assms(3) by simp_all
    show ?case
    proof (cases "xs = []")
      case True
      have "path nxt ?ents (nxt (ents ! x)) ys"
        by (rule path_cong [of ys nxt _ ents])
          (use x Cons.prems(2) True path_less [OF x(3)] assms(3) in \<open>auto simp: nth_append nth_upd_at\<close>)
      moreover have "nxt (?ents ! x) = of_nat (n + 1)"
        using True x(2) assms(3) by (simp add: nxt_upd nxt_store)
      moreover have "nxt (?ents ! n) = nxt (ents ! x)"
        using True x(2) assms(3) Cons.prems(3) by (simp add: nxt_upd value_at_def)
      ultimately show ?thesis using True x u len by simp
    next
      case False
      have "last xs \<noteq> x" using Cons.prems(2) False by auto
      then have "nxt (?ents ! x) = nxt (ents ! x)"
        using x(2) assms(3) False by (simp add: nxt_upd nth_append) 
      moreover have "path nxt ?ents (nxt (ents ! x)) (xs @ n # ys)"
        using Cons.IH [OF x(3)] Cons.prems(2,3) False by (simp add: value_at_def)
      ultimately show ?thesis using x len by simp
    qed
  qed
qed

end

interpretation key_entries: linked_entries he_next "\<lambda>v. he_next_update (\<lambda>_. v)"
  by unfold_locales simp

interpretation joy_entries: linked_entries ge_next "\<lambda>v. ge_next_update (\<lambda>_. v)"
  by unfold_locales simp


text \<open>Inserting the entry into chain \<open>j\<close> leaves the other chains alone.\<close>

context linked_entries begin

lemma chained_insert:
  assumes "chained nxt heads ents css" "j < length heads" "css ! j = xs @ ys"
    and "n = length ents" "n < 65535" "nxt e = value_at nxt ents (heads ! j) xs"
  shows "chained nxt (if xs = [] then heads[j := of_nat (n + 1)] else heads)
     (if xs = [] then ents @ [e] else upd_at (last xs) (store (of_nat (n + 1))) (ents @ [e]))
     (css[j := xs @ n # ys])"
proof -
  define H where "H = (if xs = [] then heads[j := of_nat (n + 1)] else heads)"
  define E where "E = (if xs = [] then ents @ [e] else upd_at (last xs) (store (of_nat (n + 1))) (ents @ [e]))"
  define D where "D = css[j := xs @ n # ys]"
  have len: "length css = length heads" and p: "\<And>i. i < length heads \<Longrightarrow> path nxt ents (heads ! i) (css ! i)"
    and d: "\<And>i. i < length heads \<Longrightarrow> distinct (css ! i)"
    and dj: "\<And>i k. i < length heads \<Longrightarrow> k < length heads \<Longrightarrow> k \<noteq> i \<Longrightarrow> set (css ! k) \<inter> set (css ! i) = {}"
    using assms(1) by (simp_all add: chained_def)
  have pj: "path nxt ents (heads ! j) (xs @ ys)" and dd: "distinct (xs @ ys)"
    using p [OF assms(2)] d [OF assms(2)] assms(3) by simp_all
  note ins = path_insert [OF pj dd assms(4,5,6)]
  have less: "k < n" if "i < length heads" "k \<in> set (css ! i)" for i k
    using path_less [OF p [OF that(1)] that(2)] assms(4) by simp
  have other: "path nxt E (heads ! i) (css ! i)" if "i < length heads" "i \<noteq> j" for i
  proof (rule path_cong [OF _ _ p [OF that(1)]])
    fix k
    assume k: "k \<in> set (css ! i)"
    have "k \<noteq> last xs" if "xs \<noteq> []"
      using dj [of j i] \<open>i < length heads\<close> \<open>i \<noteq> j\<close> assms(2,3) k that by auto
    then show "nxt (E ! k) = nxt (ents ! k)"
      using less [OF that(1) k] assms(4) by (simp add: E_def nth_append)
  qed (simp add: E_def)
  have "path nxt E (H ! i) (D ! i)" if "i < length heads" for i
    using that other [OF that] ins assms(2) len by (cases "i = j") (auto simp: H_def E_def D_def)
  moreover have "distinct (D ! i)" if "i < length heads" for i
    using that d [OF that] dd less [OF assms(2)] assms(3) len by (cases "i = j") (force simp: D_def)+
  moreover have "set (D ! k) \<inter> set (D ! i) = {}"
    if "i < length heads" "k < length heads" "k \<noteq> i" for i k
    using that dj [OF that] dj [of j k] dj [of j i] less [of i n] less [of k n] assms(2,3) len
    by (cases "i = j"; cases "k = j") (auto simp: D_def)
  moreover have "length H = length heads" "length D = length heads" using len by (simp_all add: H_def D_def)
  ultimately have "chained nxt H E D" by (simp add: chained_def)
  then show ?thesis by (simp only: H_def E_def D_def)
qed

end

section \<open>The walks\<close>

lemma chain_end_path:
  "path he_next hash cur ks \<Longrightarrow> chain_end hash key l cur =
     Some (if key \<in> (\<lambda>k. he_key (hash ! k)) ` set ks then None else Some (link_at l ks))"
proof (induction ks arbitrary: l cur)
  case Nil
  then show ?case by (simp add: chain_end.simps link_at_def)
next
  case (Cons k ks)
  then have "cur \<noteq> 0" by auto
  with Cons show ?case by (simp add: chain_end.simps [of hash key l cur] Let_def link_at_def)
qed

lemma chain_find_path:
  "path he_next hash cur ks \<Longrightarrow> chain_find hash key cur =
     Some (case map_of (map (\<lambda>k. (he_key (hash ! k), he_cmd (hash ! k))) ks) key of None \<Rightarrow> 0 | Some c \<Rightarrow> c)"
proof (induction ks arbitrary: cur)
  case Nil
  then show ?case by (simp add: chain_find.simps)
next
  case (Cons k ks)
  then have "cur \<noteq> 0" by auto
  with Cons show ?case by (simp add: chain_find.simps [of hash key cur] Let_def)
qed

definition more_bits :: "GamepadMapEnt list \<Rightarrow> nat \<Rightarrow> nat \<Rightarrow> bool" where
  "more_bits ents cb k \<longleftrightarrow> cb < CountBits32 (ge_modifiers (ents ! k))"

lemma insert_place_path:
  "path ge_next ents cur ks \<Longrightarrow> insert_place ents cb l cur =
     Some (link_at l (takeWhile (more_bits ents cb) ks), value_at ge_next ents cur (takeWhile (more_bits ents cb) ks))"
proof (induction ks arbitrary: l cur)
  case Nil
  then show ?case by (simp add: insert_place.simps link_at_def value_at_def)
next
  case (Cons k ks)
  then have "cur \<noteq> 0" by auto
  with Cons show ?case
    by (simp add: insert_place.simps [of ents cb l cur] link_at_def value_at_def more_bits_def)
qed

lemma joy_find_path:
  "path ge_next ents cur ks \<Longrightarrow> joy_find ents held cur =
     Some (case find (\<lambda>k. held AND ge_modifiers (ents ! k) = ge_modifiers (ents ! k)) ks of
        None \<Rightarrow> 0 | Some k \<Rightarrow> ge_cmd (ents ! k))"
proof (induction ks arbitrary: cur)
  case Nil
  then show ?case by (simp add: joy_find.simps)
next
  case (Cons k ks)
  then have "cur \<noteq> 0" by auto
  with Cons show ?case by (simp add: joy_find.simps [of ents held cur] Let_def)
qed


section \<open>The keyboard map is a finite map\<close>

definition bindings_of :: "KeyMapHashEnt list \<Rightarrow> nat list \<Rightarrow> (u16 \<times> u16) list" where
  "bindings_of hash ks = map (\<lambda>k. (he_key (hash ! k), he_cmd (hash ! k))) ks"

text \<open>The bindings that the table holds; every key is in the chain of its hash.\<close>

definition keymap_is :: "(u16 \<Rightarrow> u16 option) \<Rightarrow> KeyMap \<Rightarrow> bool" where
  "keymap_is f m \<longleftrightarrow> (\<exists>css. chained he_next (km_first m) (km_hash m) css \<and>
     (\<forall>key. f key = map_of (bindings_of (km_hash m) (css ! (unat key mod 255))) key)) \<and>
     length (km_first m) = 255 \<and> length (km_hash m) \<le> km_capacity m \<and>
     km_capacity m mod 256 = 0 \<and> km_capacity m \<le> length (km_hash m) + 255"

lemma claim_keyboard_simps [simp]: "km_first (claim_keyboard c m) = km_first m"
  "km_hash (claim_keyboard c m) = km_hash m" "km_capacity (claim_keyboard c m) = km_capacity m"
  by (simp_all add: claim_keyboard_def)

lemma map_of_keys: "map_of (bindings_of hash ks) key = None \<longleftrightarrow> key \<notin> (\<lambda>k. he_key (hash ! k)) ` set ks"
  by (force simp: bindings_of_def map_of_eq_None_iff)

lemma bindings_cong: "(\<And>k. k \<in> set ks \<Longrightarrow> he_key (h' ! k) = he_key (h ! k) \<and> he_cmd (h' ! k) = he_cmd (h ! k)) \<Longrightarrow>
    bindings_of h' ks = bindings_of h ks"
  by (simp add: bindings_of_def)

lemma find_keymap: "keymap_is f m \<Longrightarrow> KeyMapHash_Find key m = Some (case f key of None \<Rightarrow> 0 | Some c \<Rightarrow> c)"
  unfolding keymap_is_def KeyMapHash_Find_def
  by (auto simp: chained_def chain_find_path bindings_of_def)

lemma add_keymap:
  assumes "keymap_is f m" "length (km_hash m) \<le> 10000 \<or> length (km_hash m) < 10240" "key \<noteq> 0"
  shows "\<exists>m'. KeyMapHash_Add key cmd m = Some (Inr (f key = None, m')) \<and>
     keymap_is (if f key = None then f(key \<mapsto> cmd) else f) m' \<and> length (km_hash m') = Suc (length (km_hash m))"
proof -
  obtain css where ch: "chained he_next (km_first m) (km_hash m) css"
    and f: "\<And>key. f key = map_of (bindings_of (km_hash m) (css ! (unat key mod 255))) key"
    and len: "length (km_first m) = 255" "length (km_hash m) \<le> km_capacity m" "km_capacity m mod 256 = 0"
    "km_capacity m \<le> length (km_hash m) + 255"
    using assms(1) by (auto simp: keymap_is_def)
  let ?m1 = "claim_keyboard cmd m" and ?i = "length (km_hash m)" and ?j = "unat key mod 255"
  let ?e = "\<lparr>he_key = key, he_cmd = cmd, he_next = 0\<rparr>"
  define cap where "cap = (if ?i mod 256 = 0 then ?i + 256 else km_capacity m)"
  have cap: "?i < cap" "Suc ?i \<le> cap" "cap mod 256 = 0" "cap \<le> Suc ?i + 255"
  proof -
    have "?i < cap \<and> cap mod 256 = 0 \<and> cap \<le> Suc ?i + 255"
    proof (cases "?i mod 256 = 0")
      case True
      then show ?thesis by (simp add: cap_def)
    next
      case False
      then have "?i \<noteq> km_capacity m" using len(3) by metis
      with False len show ?thesis by (simp add: cap_def)
    qed
    then show "?i < cap" "Suc ?i \<le> cap" "cap mod 256 = 0" "cap \<le> Suc ?i + 255" by simp_all
  qed
  let ?h2 = "km_hash m @ [?e]"
  let ?m2 = "?m1\<lparr>km_hash := ?h2, km_capacity := cap\<rparr>"
  have j: "?j < length (km_first m)" using len(1) by simp
  have pj: "path he_next (km_hash m) (km_first m ! ?j) (css ! ?j)" using ch j by (simp add: chained_def)
  have less: "k < ?i" if "i < 255" "k \<in> set (css ! i)" for i k
    using path_less [of he_next "km_hash m" "km_first m ! i" "css ! i" k] ch that len(1) by (simp add: chained_def)
  have pj2: "path he_next ?h2 (km_first m ! ?j) (css ! ?j)"
    by (rule path_cong [OF _ _ pj]) (use less [of ?j] in \<open>auto simp: nth_append\<close>)
  have keys: "(\<lambda>k. he_key (?h2 ! k)) ` set (css ! ?j) = (\<lambda>k. he_key (km_hash m ! k)) ` set (css ! ?j)"
    using less [of ?j] by (intro image_cong) (auto simp: nth_append)
  have "chain_end ?h2 key (First ?j) (km_first m ! ?j) =
      Some (if f key \<noteq> None then None else Some (link_at (First ?j) (css ! ?j)))"
    unfolding chain_end_path [OF pj2] keys f using map_of_keys [of "km_hash m" "css ! ?j" key] by simp
  moreover have "\<not> (?i mod 256 = 0 \<and> ?i > 10000)" "\<not> ?i \<ge> cap"
  proof -
    have "?i = 256 * (?i div 256)" if "?i mod 256 = 0" using that by (metis mult_div_mod_eq add_0_right)
    moreover have "?i \<le> 10000" if "?i = 256 * k" for k using assms(2) that by presburger
    ultimately show "\<not> (?i mod 256 = 0 \<and> ?i > 10000)" by (metis not_le)
  qed (use cap(1) in simp)
  ultimately have add: "KeyMapHash_Add key cmd m = Some (Inr (if f key \<noteq> None then (False, ?m2)
      else (True, set_link (link_at (First ?j) (css ! ?j)) (of_nat (?i + 1)) ?m2)))"
    using assms(3) unfolding KeyMapHash_Add_def Let_def claim_keyboard_simps cap_def [symmetric]
    by (cases "f key") (simp_all del: of_nat_add)
  show ?thesis
  proof (cases "f key")
    case None
    let ?ks = "css ! ?j" and ?css = "css[?j := css ! ?j @ [?i]]"
    define m' where "m' = set_link (link_at (First ?j) ?ks) (of_nat (?i + 1)) ?m2"
    have val: "he_next ?e = value_at he_next (km_hash m) (km_first m ! ?j) ?ks"
      using path_end [OF pj] by simp
    have i: "?i < 65535" using assms(2) by linarith
    have fields: "km_first m' = (if ?ks = [] then (km_first m)[?j := of_nat (?i + 1)] else km_first m)"
      "km_hash m' = (if ?ks = [] then ?h2 else upd_at (last ?ks) (he_next_update (\<lambda>_. of_nat (?i + 1))) ?h2)"
      "km_capacity m' = cap"
      by (simp_all add: m'_def set_link_def link_at_def)
    have sizes: "length (km_first m') = 255" "length (km_hash m') = Suc ?i"
      using len(1) by (simp_all add: fields)
    have ch': "chained he_next (km_first m') (km_hash m') ?css"
      using key_entries.chained_insert [OF ch j, of ?ks "[]" ?i ?e, OF _ refl i val] unfolding fields by simp
    have kept: "he_key (km_hash m' ! k) = he_key (?h2 ! k) \<and> he_cmd (km_hash m' ! k) = he_cmd (?h2 ! k)" for k
      unfolding fields by (simp add: upd_at_field)
    have old: "bindings_of (km_hash m') (css ! i) = bindings_of (km_hash m) (css ! i)" if "i < 255" for i
      by (rule bindings_cong) (use less [OF that] kept in \<open>auto simp: nth_append\<close>)
    have new: "bindings_of (km_hash m') (?ks @ [?i]) = bindings_of (km_hash m) ?ks @ [(key, cmd)]"
      using old [of ?j] kept [of ?i] by (simp add: bindings_of_def)
    have "(f(key \<mapsto> cmd)) k = map_of (bindings_of (km_hash m') (?css ! (unat k mod 255))) k" for k
    proof (cases "unat k mod 255 = ?j")
      case True
      have "?css ! ?j = ?ks @ [?i]" using j ch by (simp add: chained_def)
      then show ?thesis using None f [of k] f [of key] True new by (auto simp: map_add_def split: option.split)
    next
      case False
      then have "k \<noteq> key" by auto
      then show ?thesis using False f [of k] old [of "unat k mod 255"] by simp
    qed
    then have "keymap_is (f(key \<mapsto> cmd)) m'"
      unfolding keymap_is_def using ch' cap sizes fields(3) by (intro conjI exI [of _ ?css]) simp_all
    with add None sizes show ?thesis by (simp add: m'_def)
  next
    case (Some c)
    have "chained he_next (km_first m) ?h2 css"
      using ch len(1) less by (auto simp: chained_def nth_append intro!: path_cong [of _ he_next ?h2 "km_hash m"])
    moreover have "bindings_of ?h2 (css ! i) = bindings_of (km_hash m) (css ! i)" if "i < 255" for i
      by (rule bindings_cong) (use less [OF that] in \<open>auto simp: nth_append\<close>)
    ultimately have "keymap_is f ?m2"
      unfolding keymap_is_def using cap len(1) f by (intro conjI exI [of _ css]) simp_all
    with add Some show ?thesis by simp
  qed
qed

text \<open>A sequence of bindings.\<close>

fun add_keys :: "(u16 \<times> u16) list \<Rightarrow> KeyMap \<Rightarrow> (fault + KeyMap) option" where
  "add_keys [] m = Some (Inr m)"
| "add_keys ((key, cmd) # kvs) m =
     (case KeyMapHash_Add key cmd m of None \<Rightarrow> None | Some (Inl e) \<Rightarrow> Some (Inl e)
      | Some (Inr (added, m')) \<Rightarrow> add_keys kvs m')"

lemma add_keys_map:
  assumes "keymap_is f m" "length (km_hash m) + length kvs \<le> 10001"
  shows "\<exists>m'. add_keys kvs m = Some (Inr m') \<and>
     keymap_is (map_of (filter (\<lambda>(k, c). k \<noteq> 0) kvs) ++ f) m'"
  using assms
proof (induction kvs arbitrary: f m)
  case Nil
  then show ?case by simp
next
  case (Cons kv kvs)
  obtain key cmd where kv: "kv = (key, cmd)" by (cases kv)
  show ?case
  proof (cases "key = 0")
    case True
    with Cons kv show ?thesis by (simp add: KeyMapHash_Add_def)
  next
    case False
    let ?f = "if f key = None then f(key \<mapsto> cmd) else f"
    obtain m1 where 1: "KeyMapHash_Add key cmd m = Some (Inr (f key = None, m1))" "keymap_is ?f m1"
      "length (km_hash m1) = Suc (length (km_hash m))"
      using add_keymap [OF Cons.prems(1) _ False, of cmd] Cons.prems(2) by fastforce
    obtain m2 where 2: "add_keys kvs m1 = Some (Inr m2)"
      "keymap_is (map_of (filter (\<lambda>(k, c). k \<noteq> 0) kvs) ++ ?f) m2"
      using Cons.IH [OF 1(2)] 1(3) Cons.prems(2) by auto
    have "map_of (filter (\<lambda>(k, c). k \<noteq> 0) kvs) ++ ?f = map_of (filter (\<lambda>(k, c). k \<noteq> 0) (kv # kvs)) ++ f"
      using False by (auto simp: kv map_add_def fun_eq_iff split: option.splits)
    with 1(1) 2 show ?thesis by (simp add: kv)
  qed
qed

lemma empty_keymap_is: "keymap_is (\<lambda>k. None) empty_keymap"
  unfolding keymap_is_def
  by (rule conjI, rule exI [of _ "replicate 255 []"]) (simp_all add: empty_keymap_def chained_def bindings_of_def)

text \<open>
  C26. The hash table with its chains is a finite map in which the first binding of a key wins:
  after any list of at most ten thousand bindings the lookup of a key returns the command of the
  first binding that names it and 0 when none does; no operation loops on a chain or leaves the
  table, and key 0 is never bound.
\<close>

theorem keymap_first_binding_wins:
  assumes "length kvs \<le> 10000"
  shows "\<exists>m. add_keys kvs empty_keymap = Some (Inr m) \<and>
    (\<forall>key. KeyMapHash_Find key m =
       Some (case map_of (filter (\<lambda>(k, c). k \<noteq> 0) kvs) key of None \<Rightarrow> 0 | Some c \<Rightarrow> c))"
proof -
  obtain m where m: "add_keys kvs empty_keymap = Some (Inr m)"
    "keymap_is (map_of (filter (\<lambda>(k, c). k \<noteq> 0) kvs) ++ (\<lambda>k. None)) m"
    using add_keys_map [OF empty_keymap_is, of kvs] assms by (auto simp: empty_keymap_def)
  have "map_of (filter (\<lambda>(k, c). k \<noteq> 0) kvs) ++ (\<lambda>k. None) = map_of (filter (\<lambda>(k, c). k \<noteq> 0) kvs)"
    by (simp add: map_add_def fun_eq_iff)
  with m find_keymap show ?thesis by auto
qed


section \<open>The gamepad map serves the most specific binding\<close>

type_synonym binding = "u32 \<times> u16"

definition bits :: "binding \<Rightarrow> nat" where
  "bits b = CountBits32 (fst b)"

definition held_all :: "u32 \<Rightarrow> binding \<Rightarrow> bool" where
  "held_all held b \<longleftrightarrow> held AND fst b = fst b"

definition entries_of :: "GamepadMapEnt list \<Rightarrow> nat list \<Rightarrow> binding list" where
  "entries_of ents ks = map (\<lambda>k. (ge_modifiers (ents ! k), ge_cmd (ents ! k))) ks"

text \<open>A chain as a list: a new binding goes behind those with more modifiers.\<close>

definition put_binding :: "binding \<Rightarrow> binding list \<Rightarrow> binding list" where
  "put_binding b bs = takeWhile (\<lambda>x. bits b < bits x) bs @ b # dropWhile (\<lambda>x. bits b < bits x) bs"

definition falling :: "binding list \<Rightarrow> bool" where
  "falling bs \<longleftrightarrow> sorted_wrt (\<lambda>x y. bits y \<le> bits x) bs"

lemma dropWhile_falling: "falling bs \<Longrightarrow> \<forall>x \<in> set (dropWhile (\<lambda>x. n < bits x) bs). bits x \<le> n"
  by (induction bs) (auto simp: falling_def)

lemma falling_put: "falling bs \<Longrightarrow> falling (put_binding b bs)"
proof -
  assume f: "falling bs"
  let ?t = "takeWhile (\<lambda>x. bits b < bits x) bs" and ?d = "dropWhile (\<lambda>x. bits b < bits x) bs"
  have "sorted_wrt (\<lambda>x y. bits y \<le> bits x) (?t @ ?d)" using f by (simp add: falling_def)
  then have "sorted_wrt (\<lambda>x y. bits y \<le> bits x) ?t" "sorted_wrt (\<lambda>x y. bits y \<le> bits x) ?d"
    "\<forall>x \<in> set ?t. \<forall>y \<in> set ?d. bits y \<le> bits x"
    unfolding sorted_wrt_append by blast+
  moreover have "\<forall>x \<in> set ?t. bits b \<le> bits x" by (auto dest: set_takeWhileD)
  ultimately show ?thesis
    using dropWhile_falling [OF f, of "bits b"] by (simp add: falling_def put_binding_def sorted_wrt_append)
qed

text \<open>The binding served: of those whose modifiers are held, one with the most, the last of these.\<close>

fun serve :: "nat \<Rightarrow> u32 \<Rightarrow> (nat \<times> u32 \<times> u16) list \<Rightarrow> binding option \<Rightarrow> binding option" where
  "serve button held [] best = best"
| "serve button held ((b, mods, cmd) # adds) best =
     serve button held adds
       (if b = button \<and> held_all held (mods, cmd) \<and>
           (case best of None \<Rightarrow> True | Some x \<Rightarrow> bits x \<le> bits (mods, cmd))
        then Some (mods, cmd) else best)"

lemma find_put:
  assumes "falling bs"
  shows "find (held_all held) (put_binding b bs) =
    (if held_all held b \<and> (case find (held_all held) bs of None \<Rightarrow> True | Some x \<Rightarrow> bits x \<le> bits b)
     then Some b else find (held_all held) bs)"
  using assms
proof (induction bs)
  case Nil
  then show ?case by (simp add: put_binding_def)
next
  case (Cons x bs)
  then have IH: "find (held_all held) (put_binding b bs) =
    (if held_all held b \<and> (case find (held_all held) bs of None \<Rightarrow> True | Some x \<Rightarrow> bits x \<le> bits b)
     then Some b else find (held_all held) bs)"
    by (simp add: falling_def)
  show ?case
  proof (cases "bits b < bits x")
    case True
    then have "put_binding b (x # bs) = x # put_binding b bs" by (simp add: put_binding_def)
    with IH True show ?thesis by (simp add: not_le)
  next
    case False
    then have "put_binding b (x # bs) = b # x # bs" by (simp add: put_binding_def)
    moreover have "bits y \<le> bits b" if "find (held_all held) (x # bs) = Some y" for y
    proof -
      have "y \<in> set (x # bs)" using that by (auto simp: find_Some_iff in_set_conv_nth split: if_splits)
      then have "bits y \<le> bits x" using Cons.prems by (auto simp: falling_def)
      with False show ?thesis by simp
    qed
    ultimately show ?thesis by (cases "find (held_all held) (x # bs)") simp_all
  qed
qed

definition joymap_is :: "(nat \<Rightarrow> binding list) \<Rightarrow> JoyMap \<Rightarrow> bool" where
  "joymap_is f m \<longleftrightarrow> (\<exists>css. chained ge_next (jm_first m) (jm_ents m) css \<and>
     (\<forall>j < 34. f j = entries_of (jm_ents m) (css ! j))) \<and>
     (\<forall>j < 34. falling (f j)) \<and>
     length (jm_first m) = 34 \<and> (jm_ents m \<noteq> [] \<longrightarrow> jm_capacity m = 64)"

lemma find_joymap:
  "joymap_is f m \<Longrightarrow> button < 34 \<Longrightarrow> FindCmdForGamepadButton button held m =
     Some (case find (held_all held) (f button) of None \<Rightarrow> 0 | Some b \<Rightarrow> snd b)"
proof -
  assume j: "joymap_is f m" and b: "button < 34"
  then obtain css where ch: "chained ge_next (jm_first m) (jm_ents m) css"
    and f: "f button = entries_of (jm_ents m) (css ! button)" and len: "length (jm_first m) = 34"
    by (auto simp: joymap_is_def)
  have "path ge_next (jm_ents m) (jm_first m ! button) (css ! button)"
    using ch b len by (simp add: chained_def)
  moreover have "find (held_all held) (map g ks) = map_option g (find (\<lambda>k. held_all held (g k)) ks)"
    for g :: "nat \<Rightarrow> binding" and ks by (induction ks) simp_all
  ultimately show ?thesis
    by (simp add: FindCmdForGamepadButton_def joy_find_path f entries_of_def held_all_def comp_def option.case_eq_if
        option.map_sel)
qed


lemma entries_cong:
  "(\<And>k. k \<in> set ks \<Longrightarrow> ge_modifiers (h' ! k) = ge_modifiers (h ! k) \<and> ge_cmd (h' ! k) = ge_cmd (h ! k)) \<Longrightarrow>
    entries_of h' ks = entries_of h ks"
  by (simp add: entries_of_def)

lemma add_joymap:
  assumes "joymap_is f m" "length (jm_ents m) < 64" "button < 34"
  shows "\<exists>m'. GamepadMap_Add button mods cmd m = Some (Inr m') \<and>
     joymap_is (f(button := put_binding (mods, cmd) (f button))) m' \<and>
     length (jm_ents m') = Suc (length (jm_ents m))"
proof -
  obtain css where ch: "chained ge_next (jm_first m) (jm_ents m) css"
    and f: "\<And>j. j < 34 \<Longrightarrow> f j = entries_of (jm_ents m) (css ! j)" "\<And>j. j < 34 \<Longrightarrow> falling (f j)"
    and len: "length (jm_first m) = 34" "jm_ents m \<noteq> [] \<longrightarrow> jm_capacity m = 64"
    using assms(1) unfolding joymap_is_def by blast
  let ?i = "length (jm_ents m)" and ?ks = "css ! button"
  define xs where "xs = takeWhile (more_bits (jm_ents m) (CountBits32 mods)) ?ks"
  define ys where "ys = dropWhile (more_bits (jm_ents m) (CountBits32 mods)) ?ks"
  have ks: "?ks = xs @ ys" by (simp add: xs_def ys_def)
  define cur where "cur = value_at ge_next (jm_ents m) (jm_first m ! button) xs"
  let ?e = "\<lparr>ge_modifiers = mods, ge_cmd = cmd, ge_next = cur\<rparr>"
  define m' where "m' = set_joy_link (link_at (First button) xs) (of_nat (?i + 1))
    (m\<lparr>jm_ents := jm_ents m @ [?e], jm_capacity := 64\<rparr>)"
  have j: "button < length (jm_first m)" using len(1) assms(3) by simp
  have pj: "path ge_next (jm_ents m) (jm_first m ! button) ?ks" using ch j by (simp add: chained_def)
  have less: "k < ?i" if "i < 34" "k \<in> set (css ! i)" for i k
    using path_less [of ge_next "jm_ents m" "jm_first m ! i" "css ! i" k] ch that len(1) by (simp add: chained_def)
  have cap: "(if ?i mod 256 = 0 then ?i + 64 else jm_capacity m) = 64"
    using assms(2) len(2) by (cases "jm_ents m = []") simp_all
  have "?i \<le> 1000" using assms(2) by simp
  then have add: "GamepadMap_Add button mods cmd m = Some (Inr m')"
    using assms(2) unfolding GamepadMap_Add_def Let_def cap m'_def insert_place_path [OF pj] cur_def xs_def
    by (simp del: of_nat_add)
  have i: "?i < 65535" using assms(2) by simp
  have fields: "jm_first m' = (if xs = [] then (jm_first m)[button := of_nat (?i + 1)] else jm_first m)"
    "jm_ents m' = (if xs = [] then jm_ents m @ [?e]
       else upd_at (last xs) (ge_next_update (\<lambda>_. of_nat (?i + 1))) (jm_ents m @ [?e]))"
    "jm_capacity m' = 64"
    by (simp_all add: m'_def set_joy_link_def link_at_def)
  have sizes: "length (jm_first m') = 34" "length (jm_ents m') = Suc ?i"
    using len(1) by (simp_all add: fields)
  have ch': "chained ge_next (jm_first m') (jm_ents m') (css[button := xs @ ?i # ys])"
    using joy_entries.chained_insert [OF ch j ks refl i, of ?e] unfolding fields cur_def by simp
  have kept: "ge_modifiers (jm_ents m' ! k) = ge_modifiers ((jm_ents m @ [?e]) ! k) \<and>
      ge_cmd (jm_ents m' ! k) = ge_cmd ((jm_ents m @ [?e]) ! k)" for k
    unfolding fields by (simp add: upd_at_field)
  have old: "entries_of (jm_ents m') zs = entries_of (jm_ents m) zs" if "\<forall>k \<in> set zs. k < ?i" for zs
    by (rule entries_cong) (use that kept in \<open>auto simp: nth_append\<close>)
  have new: "entries_of (jm_ents m') (xs @ ?i # ys) = put_binding (mods, cmd) (f button)"
  proof -
    have "\<forall>k \<in> set (xs @ ys). k < ?i" using less [OF assms(3)] ks by simp
    then have "entries_of (jm_ents m') (xs @ ?i # ys) =
        entries_of (jm_ents m) xs @ (mods, cmd) # entries_of (jm_ents m) ys"
      using old [of xs] old [of ys] kept [of ?i] by (simp add: entries_of_def)
    moreover have "(\<lambda>k. bits (mods, cmd) < bits (ge_modifiers (jm_ents m ! k), ge_cmd (jm_ents m ! k))) =
        more_bits (jm_ents m) (CountBits32 mods)"
      by (simp add: fun_eq_iff bits_def more_bits_def)
    ultimately show ?thesis
      by (simp add: put_binding_def f(1) [OF assms(3)] entries_of_def takeWhile_map dropWhile_map comp_def xs_def ys_def)
  qed
  have "(f(button := put_binding (mods, cmd) (f button))) k = entries_of (jm_ents m') (css[button := xs @ ?i # ys] ! k)"
    if "k < 34" for k
    using that new old [of "css ! k"] less [OF that] f(1) [OF that] ch len(1)
    by (cases "k = button") (simp_all add: chained_def)
  moreover have "falling ((f(button := put_binding (mods, cmd) (f button))) k)" if "k < 34" for k
    using that f(2) [OF that] falling_put by (cases "k = button") simp_all
  ultimately have "joymap_is (f(button := put_binding (mods, cmd) (f button))) m'"
    unfolding joymap_is_def using ch' sizes fields(3) by (intro conjI exI [of _ "css[button := xs @ ?i # ys]"]) simp_all
  with add sizes show ?thesis by simp
qed

fun add_buttons :: "(nat \<times> u32 \<times> u16) list \<Rightarrow> JoyMap \<Rightarrow> (fault + JoyMap) option" where
  "add_buttons [] m = Some (Inr m)"
| "add_buttons ((button, mods, cmd) # adds) m =
     (case GamepadMap_Add button mods cmd m of None \<Rightarrow> None | Some (Inl e) \<Rightarrow> Some (Inl e)
      | Some (Inr m') \<Rightarrow> add_buttons adds m')"

lemma add_buttons_map:
  assumes "joymap_is f m" "length (jm_ents m) + length adds \<le> 64" "\<forall>(b, _) \<in> set adds. b < 34"
  shows "\<exists>m' f'. add_buttons adds m = Some (Inr m') \<and> joymap_is f' m' \<and>
     (\<forall>button < 34. \<forall>held. find (held_all held) (f' button) = serve button held adds (find (held_all held) (f button))) \<and>
     length (jm_ents m') = length (jm_ents m) + length adds"
  using assms
proof (induction adds arbitrary: f m)
  case Nil
  then show ?case by auto
next
  case (Cons a adds)
  obtain b mods cmd where a: "a = (b, mods, cmd)" by (cases a)
  let ?f = "f(b := put_binding (mods, cmd) (f b))"
  obtain m1 where 1: "GamepadMap_Add b mods cmd m = Some (Inr m1)" "joymap_is ?f m1"
    "length (jm_ents m1) = Suc (length (jm_ents m))"
    using add_joymap [OF Cons.prems(1), of b mods cmd] Cons.prems(2,3) a by auto
  obtain m2 f2 where 2: "add_buttons adds m1 = Some (Inr m2)" "joymap_is f2 m2"
    "\<forall>button < 34. \<forall>held. find (held_all held) (f2 button) = serve button held adds (find (held_all held) (?f button))"
    "length (jm_ents m2) = length (jm_ents m1) + length adds"
    using Cons.IH [OF 1(2)] 1(3) Cons.prems(2,3) by auto
  have "falling (f b)" using Cons.prems(1,3) a by (auto simp: joymap_is_def)
  then have "find (held_all held) (?f button) =
      (if b = button \<and> held_all held (mods, cmd) \<and>
         (case find (held_all held) (f button) of None \<Rightarrow> True | Some x \<Rightarrow> bits x \<le> bits (mods, cmd))
       then Some (mods, cmd) else find (held_all held) (f button))" for button held
    by (cases "b = button") (simp_all add: find_put)
  with 1 2 show ?case unfolding a by (intro exI [of _ m2] exI [of _ f2]) simp
qed

lemma empty_joymap_is: "joymap_is (\<lambda>j. []) empty_joymap"
  unfolding joymap_is_def
  by (rule conjI, rule exI [of _ "replicate 34 []"])
    (simp_all add: empty_joymap_def chained_def entries_of_def falling_def kGamepadBtn_Count_def)

lemma joymap_path: "joymap_is f m \<Longrightarrow> button < 34 \<Longrightarrow> \<exists>ks. path ge_next (jm_ents m) (jm_first m ! button) ks"
  unfolding joymap_is_def chained_def by metis

text \<open>
  The gamepad chains serve the most specific binding: after at most sixty-four bindings the
  lookup of a button returns the command of a binding of that button whose modifier buttons are all
  held, one with the most modifiers, and of those the one added last; 0 when there is none.
\<close>

lemma gamepad_serves_most_specific:
  assumes "length adds \<le> 64" "\<forall>(b, _) \<in> set adds. b < 34"
  shows "\<exists>m. add_buttons adds empty_joymap = Some (Inr m) \<and>
    (\<forall>button < 34. \<forall>held. FindCmdForGamepadButton button held m =
       Some (case serve button held adds None of None \<Rightarrow> 0 | Some (_, cmd) \<Rightarrow> cmd))"
proof -
  obtain m f where m: "add_buttons adds empty_joymap = Some (Inr m)" "joymap_is f m"
    "\<forall>button < 34. \<forall>held. find (held_all held) (f button) = serve button held adds None"
    using add_buttons_map [OF empty_joymap_is, of adds] assms by (auto simp: empty_joymap_def)
  then show ?thesis by (auto simp: find_joymap split: option.split)
qed

text \<open>
  The growth of the gamepad table stops short: it makes room for sixty-four entries and asks
  again only at the two hundred and fifty-sixth, so with sixty-four bindings in the table every
  further binding writes outside it.
\<close>

lemma gamepad_table_overflows:
  assumes "length adds = 64" "\<forall>(b, _) \<in> set adds. b < 34" "button < 34"
  shows "add_buttons (adds @ [(button, mods, cmd)]) empty_joymap = Some (Inl OutOfBounds)"
proof -
  obtain m f where m: "add_buttons adds empty_joymap = Some (Inr m)" "joymap_is f m" "length (jm_ents m) = 64"
    using add_buttons_map [OF empty_joymap_is, of adds] assms by (auto simp: empty_joymap_def)
  then obtain ks where "path ge_next (jm_ents m) (jm_first m ! button) ks"
    using joymap_path assms(3) by blast
  moreover have "jm_capacity m = 64" using m(2,3) by (auto simp: joymap_is_def)
  ultimately have "GamepadMap_Add button mods cmd m = Some (Inl OutOfBounds)"
    using m(3) by (simp add: GamepadMap_Add_def insert_place_path)
  moreover have "add_buttons as m0 = Some (Inr m1) \<Longrightarrow> add_buttons (as @ bs) m0 = add_buttons bs m1" for as bs m0 m1
    by (induction as m0 rule: add_buttons.induct) (auto split: option.splits sum.splits)
  ultimately show ?thesis using m(1) by simp
qed

end
