(* ===== verification/Config_Parse.thy ===== *)
theory Config_Parse
  imports Config_Keys C_Strings
begin

text \<open>
  Reading the configuration of \<^verbatim>\<open>src/config.c\<close>: binding lists, sections, settings, included files,
  the defaults and the reload of the key bindings.

  The string functions of the framework's \<^verbatim>\<open>util.h\<close> are not in this repository and are the parameter
  \<open>Util\<close>: a function called until it returns NULL is the list of what it returns.  Messages to \<open>stderr\<close> are not modelled.
\<close>

section \<open>The string functions\<close>

record Util =
  ut_equals :: "string \<Rightarrow> string \<Rightarrow> bool"
  ut_starts :: "string \<Rightarrow> string \<Rightarrow> string option"
  ut_delims :: "char \<Rightarrow> string \<Rightarrow> string list"
  ut_lines :: "string \<Rightarrow> string list"
  ut_skips :: "string \<Rightarrow> string \<Rightarrow> bool"
  ut_quoted :: "string \<Rightarrow> string"
  ut_sibling :: "string \<Rightarrow> string \<Rightarrow> string"
  ut_key_value :: "string \<Rightarrow> (string \<times> string) option"
  ut_bool :: "string \<Rightarrow> bool option"
  ut_aspect :: "string \<Rightarrow> u8 option"

section \<open>The names of the commands\<close>

definition kKeyNameId :: "(string \<times> nat \<times> nat) list" where
  "kKeyNameId =
    [(''Null'', kKeys_Null, 65535), (''Controls'', kKeys_Controls, 12), (''ControlsP2'', kKeys_ControlsP2, 12),
     (''Load'', kKeys_Load, 20), (''Save'', kKeys_Save, 20), (''Fullscreen'', kKeys_Fullscreen, 1),
     (''Reset'', 66, 1), (''Pause'', 67, 1), (''PauseDimmed'', 68, 1), (''Turbo'', 69, 1),
     (''WindowBigger'', 70, 1), (''WindowSmaller'', 71, 1), (''VolumeUp'', 74, 1), (''VolumeDown'', 75, 1),
     (''DisplayPerf'', 72, 1), (''ToggleRenderer'', 73, 1)]"

record Bindings =
  bn_keys :: KeyMap
  bn_joys :: JoyMap
  bn_named :: "bool list"
  bn_joypads :: u8

type_synonym 'a run = "(fault + 'a) option"

definition ret :: "'a \<Rightarrow> 'a run" where
  "ret x = Some (Inr x)"

definition and_then :: "'a run \<Rightarrow> ('a \<Rightarrow> 'b run) \<Rightarrow> 'b run" where
  "and_then r f = (case r of None \<Rightarrow> None | Some (Inl e) \<Rightarrow> Some (Inl e) | Some (Inr x) \<Rightarrow> f x)"

section \<open>Lists of keys\<close>

partial_function (option) key_modifiers :: "Util \<Rightarrow> string \<Rightarrow> nat \<Rightarrow> (nat \<times> string) option" where
  "key_modifiers ut s k =
     (if ut_starts ut s ''Shift+'' \<noteq> None then key_modifiers ut (drop 6 s) (k OR kKeyMod_Shift)
      else if ut_starts ut s ''Ctrl+'' \<noteq> None then key_modifiers ut (drop 5 s) (k OR kKeyMod_Ctrl)
      else if ut_starts ut s ''Alt+'' \<noteq> None then key_modifiers ut (drop 4 s) (k OR kKeyMod_Alt)
      else Some (k, s))"

definition next_cmd :: "nat \<Rightarrow> nat" where
  "next_cmd cmd = (if cmd \<noteq> 0 then cmd + 1 else cmd)"

text \<open>One name of the list: empty and unknown names bind nothing, but take their command.\<close>

definition bind_key :: "Util \<Rightarrow> Sdl \<Rightarrow> string \<Rightarrow> nat \<Rightarrow> KeyMap \<Rightarrow> KeyMap run" where
  "bind_key ut sdl s cmd m =
     (if s = [] then ret m
      else case key_modifiers ut s 0 of
             None \<Rightarrow> None
           | Some (k, name) \<Rightarrow>
               (case sdl_from_name sdl name of
                  None \<Rightarrow> ret m
                | Some key \<Rightarrow>
                    and_then (KeyMapHash_Add (of_nat (k OR remap_keycode sdl key)) (of_nat cmd) m) (\<lambda>(_, m'). ret m')))"

fun bind_keys :: "Util \<Rightarrow> Sdl \<Rightarrow> string list \<Rightarrow> nat \<Rightarrow> KeyMap \<Rightarrow> KeyMap run" where
  "bind_keys ut sdl [] cmd m = ret m"
| "bind_keys ut sdl (s # ss) cmd m =
     and_then (bind_key ut sdl s cmd m) (bind_keys ut sdl ss (next_cmd cmd))"

definition ParseKeyArray :: "Util \<Rightarrow> Sdl \<Rightarrow> string \<Rightarrow> nat \<Rightarrow> nat \<Rightarrow> KeyMap \<Rightarrow> KeyMap run" where
  "ParseKeyArray ut sdl value cmd n m = bind_keys ut sdl (take n (ut_delims ut CHR '','' value)) cmd m"

section \<open>Lists of gamepad buttons\<close>

definition kGamepadKeys :: "(string \<times> GamepadBtn) list" where
  "kGamepadKeys =
    [(''Back'', kGamepadBtn_Back), (''Guide'', kGamepadBtn_Guide), (''Start'', kGamepadBtn_Start),
     (''L3'', kGamepadBtn_L3), (''R3'', kGamepadBtn_R3), (''L1'', kGamepadBtn_L1), (''R1'', kGamepadBtn_R1),
     (''DpadUp'', kGamepadBtn_DpadUp), (''DpadDown'', kGamepadBtn_DpadDown), (''DpadLeft'', kGamepadBtn_DpadLeft),
     (''DpadRight'', kGamepadBtn_DpadRight), (''L2'', kGamepadBtn_L2), (''R2'', kGamepadBtn_R2),
     (''Lb'', kGamepadBtn_L1), (''Rb'', kGamepadBtn_R1), (''A'', kGamepadBtn_A), (''B'', kGamepadBtn_B),
     (''X'', kGamepadBtn_X), (''Y'', kGamepadBtn_Y)]"

fun first_name :: "Util \<Rightarrow> (string \<times> GamepadBtn) list \<Rightarrow> string \<Rightarrow> (GamepadBtn \<times> string) option" where
  "first_name ut [] s = None"
| "first_name ut ((name, b) # names) s =
     (case ut_starts ut s name of Some r \<Rightarrow> Some (b, r) | None \<Rightarrow> first_name ut names s)"

definition ParseGamepadButtonName :: "Util \<Rightarrow> string \<Rightarrow> (GamepadBtn \<times> string) option" where
  "ParseGamepadButtonName ut s = first_name ut kGamepadKeys s"

definition kDefaultGamepadCmds :: "GamepadBtn list" where
  "kDefaultGamepadCmds =
    [kGamepadBtn_DpadUp, kGamepadBtn_DpadDown, kGamepadBtn_DpadLeft, kGamepadBtn_DpadRight, kGamepadBtn_Back,
     kGamepadBtn_Start, kGamepadBtn_B, kGamepadBtn_A, kGamepadBtn_Y, kGamepadBtn_X, kGamepadBtn_L1, kGamepadBtn_R1]"

text \<open>The button of one name with its modifiers, None when it is not one.\<close>

partial_function (option) button_chord :: "Util \<Rightarrow> string \<Rightarrow> u32 \<Rightarrow> (GamepadBtn \<times> u32) option option" where
  "button_chord ut s modifiers =
     (case ParseGamepadButtonName ut s of
        None \<Rightarrow> Some None
      | Some (b, r) \<Rightarrow>
          (case dropWhile is_blank r of
             [] \<Rightarrow> Some (Some (b, modifiers))
           | c # t \<Rightarrow> if c = CHR ''+'' then button_chord ut t (modifiers OR push_bit (button_number b) 1)
                      else Some None))"

definition bind_button :: "Util \<Rightarrow> nat \<Rightarrow> string \<Rightarrow> nat \<Rightarrow> JoyMap \<Rightarrow> JoyMap run" where
  "bind_button ut gamepad s cmd m =
     (if s = [] then ret m
      else case button_chord ut s 0 of
             None \<Rightarrow> None
           | Some None \<Rightarrow> ret m
           | Some (Some (b, modifiers)) \<Rightarrow>
               GamepadMap_Add (button_number b + gamepad * kGamepadBtn_Count) modifiers (of_nat cmd) m)"

fun bind_buttons :: "Util \<Rightarrow> nat \<Rightarrow> string list \<Rightarrow> nat \<Rightarrow> JoyMap \<Rightarrow> JoyMap run" where
  "bind_buttons ut gamepad [] cmd m = ret m"
| "bind_buttons ut gamepad (s # ss) cmd m =
     and_then (bind_button ut gamepad s cmd m) (bind_buttons ut gamepad ss (next_cmd cmd))"

definition ParseGamepadArray :: "Util \<Rightarrow> nat \<Rightarrow> string \<Rightarrow> nat \<Rightarrow> nat \<Rightarrow> JoyMap \<Rightarrow> JoyMap run" where
  "ParseGamepadArray ut gamepad value cmd n m =
     bind_buttons ut gamepad (take n (ut_delims ut CHR '','' value)) cmd m"

section \<open>Defaults\<close>

fun bind_defaults :: "u16 list \<Rightarrow> nat list \<Rightarrow> KeyMap \<Rightarrow> KeyMap run" where
  "bind_defaults keys [] m = ret m"
| "bind_defaults keys (k # ks) m =
     and_then (KeyMapHash_Add (keys ! k) (of_nat k) m) (\<lambda>(_, m'). bind_defaults keys ks m')"

text \<open>The commands whose names the file did not mention.\<close>

definition unnamed_commands :: "bool list \<Rightarrow> nat list" where
  "unnamed_commands named =
     concat (map (\<lambda>i. if named ! i then [] else let (_, k, n) = kKeyNameId ! i in [k..<k + n])
       [1..<length kKeyNameId])"

definition default_keys :: "Sdl \<Rightarrow> Bindings \<Rightarrow> Bindings run" where
  "default_keys sdl b =
     and_then (bind_defaults (kDefaultKbdControls sdl) (unnamed_commands (bn_named b)) (bn_keys b))
       (\<lambda>m. ret (b\<lparr>bn_keys := m\<rparr>))"

fun default_buttons :: "nat \<Rightarrow> nat \<Rightarrow> GamepadBtn list \<Rightarrow> JoyMap \<Rightarrow> JoyMap run" where
  "default_buttons gamepad cmd [] m = ret m"
| "default_buttons gamepad cmd (b # bs) m =
     and_then (GamepadMap_Add (button_number b + gamepad * kGamepadBtn_Count) 0 (of_nat cmd) m)
       (default_buttons gamepad (cmd + 1) bs)"

definition default_joypad :: "nat \<Rightarrow> nat \<Rightarrow> Bindings \<Rightarrow> Bindings run" where
  "default_joypad gamepad cmd b =
     (if bn_joypads b AND push_bit gamepad 1 \<noteq> 0 then ret b
      else and_then (default_buttons gamepad cmd kDefaultGamepadCmds (bn_joys b)) (\<lambda>m. ret (b\<lparr>bn_joys := m\<rparr>)))"

definition RegisterDefaultKeys :: "Sdl \<Rightarrow> Bindings \<Rightarrow> Bindings run" where
  "RegisterDefaultKeys sdl b =
     and_then (default_keys sdl b)
       (\<lambda>b. and_then (default_joypad 0 kKeys_Controls b) (default_joypad 1 kKeys_ControlsP2))"

section \<open>Settings\<close>

datatype Widescreen = kWidescreenMode_Standard | kWidescreenMode_Fixed16x9 | kWidescreenMode_Adaptive

datatype OutputMethod = kOutputMethod_SDL | kOutputMethod_SDLSoftware | kOutputMethod_OpenGL

text \<open>The settings; \<open>has_keyboard_controls\<close> is a field of \<open>KeyMap\<close>, \<open>shader\<close> is the text it points to.\<close>

record Config =
  window_width :: int
  window_height :: int
  new_renderer :: bool
  ignore_aspect_ratio :: bool
  display_aspect :: u8
  fullscreen :: u8
  window_scale :: u8
  enable_audio :: bool
  linear_filtering :: bool
  output_method :: OutputMethod
  audio_freq :: u16
  audio_channels :: u8
  audio_samples :: u16
  autosave :: bool
  no_sprite_limits :: bool
  widescreen_mode :: Widescreen
  widescreen_hud :: bool
  display_perf_title :: bool
  disable_frame_delay :: bool
  deadzone :: "u8 \<times> u8"
  skip_launcher :: bool
  netplay_player_name :: string
  msu1_enabled :: bool
  msu1_dir :: string
  shader :: "string option"
  enable_gamepad :: "bool \<times> bool"
  keyboard_players :: int

record App =
  app_config :: Config
  app_bindings :: Bindings

definition GetIniSection :: "Util \<Rightarrow> string \<Rightarrow> int" where
  "GetIniSection ut s =
     (if ut_equals ut s ''[KeyMap]'' then 0
      else if ut_equals ut s ''[Graphics]'' then 1
      else if ut_equals ut s ''[Sound]'' then 2
      else if ut_equals ut s ''[General]'' then 3
      else if ut_equals ut s ''[Features]'' then 4
      else if ut_equals ut s ''[GamepadMap]'' then 5
      else -1)"

definition ParseWidescreenMode :: "Util \<Rightarrow> string \<Rightarrow> Widescreen option" where
  "ParseWidescreenMode ut s =
     (if list_ex (ut_equals ut s) [''Standard'', ''Off'', ''False'', ''0''] then Some kWidescreenMode_Standard
      else if list_ex (ut_equals ut s) [''Fixed16x9'', ''16:9'', ''On'', ''True'', ''1'']
      then Some kWidescreenMode_Fixed16x9
      else if list_ex (ut_equals ut s) [''Adaptive'', ''2''] then Some kWidescreenMode_Adaptive
      else None)"

fun WidescreenModeName :: "Widescreen \<Rightarrow> string" where
  "WidescreenModeName kWidescreenMode_Adaptive = ''Adaptive''"
| "WidescreenModeName kWidescreenMode_Fixed16x9 = ''Fixed16x9''"
| "WidescreenModeName kWidescreenMode_Standard = ''Standard''"

text \<open>A handler returns whether it took the key, with the new state.\<close>

definition took :: "(Config \<Rightarrow> Config) \<Rightarrow> App \<Rightarrow> (bool \<times> App) run" where
  "took f a = ret (True, a\<lparr>app_config := f (app_config a)\<rparr>)"

definition took_opt :: "'v option \<Rightarrow> ('v \<Rightarrow> Config \<Rightarrow> Config) \<Rightarrow> App \<Rightarrow> (bool \<times> App) run" where
  "took_opt v f a = (case v of None \<Rightarrow> ret (False, a) | Some x \<Rightarrow> took (f x) a)"

definition percent :: "string \<Rightarrow> u8" where
  "percent s = (let dz = c_int (fst (strtol s)) in word_of_int (if dz < 0 then 0 else if dz > 100 then 100 else dz))"

definition number :: "string \<Rightarrow> 'a::len word" where
  "number s = word_of_int (fst (strtol s))"

definition find_command :: "Util \<Rightarrow> string \<Rightarrow> nat option" where
  "find_command ut key = find (\<lambda>i. ut_equals ut key (fst (kKeyNameId ! i))) [0..<length kKeyNameId]"

definition handle_keymap :: "Util \<Rightarrow> Sdl \<Rightarrow> string \<Rightarrow> string \<Rightarrow> Bindings \<Rightarrow> (bool \<times> Bindings) run" where
  "handle_keymap ut sdl key s b =
     (case find_command ut key of
        None \<Rightarrow> ret (False, b)
      | Some i \<Rightarrow>
          (case kKeyNameId ! i of (_, cid, n) \<Rightarrow>
             and_then (ParseKeyArray ut sdl s cid n (bn_keys b))
               (\<lambda>m. ret (True, b\<lparr>bn_keys := m, bn_named := (bn_named b)[i := True]\<rparr>))))"

definition handle_buttons :: "Util \<Rightarrow> string \<Rightarrow> string \<Rightarrow> Bindings \<Rightarrow> (bool \<times> Bindings) run" where
  "handle_buttons ut key s b =
     (case find_command ut key of
        None \<Rightarrow> ret (False, b)
      | Some i \<Rightarrow>
          (case kKeyNameId ! i of (_, cid, n) \<Rightarrow>
             and_then (ParseGamepadArray ut (if cid = kKeys_ControlsP2 then 1 else 0) s cid n (bn_joys b))
               (\<lambda>m. ret (True, b\<lparr>bn_joys := m,
                  bn_joypads := bn_joypads b OR
                    (if cid = kKeys_Controls then 1 else if cid = kKeys_ControlsP2 then 2 else 0)\<rparr>))))"

text \<open>The mask of keyboard players: a whole number from 0 to 3, nothing behind it but blanks.\<close>

definition keyboard_mask :: "string \<Rightarrow> int option" where
  "keyboard_mask s =
     (case strtol s of
        (_, None) \<Rightarrow> None
      | (m, Some rest) \<Rightarrow> if dropWhile is_blank rest \<noteq> [] \<or> m < 0 \<or> m > 3 then None else Some m)"

definition handle_gamepad :: "Util \<Rightarrow> string \<Rightarrow> string \<Rightarrow> App \<Rightarrow> (bool \<times> App) run" where
  "handle_gamepad ut key s a =
     (if ut_equals ut key ''KeyboardPlayers'' then took_opt (keyboard_mask s) (\<lambda>m. keyboard_players_update (\<lambda>_. m)) a
      else if ut_equals ut key ''EnableGamepad1'' then
        took_opt (ut_bool ut s) (\<lambda>v. enable_gamepad_update (\<lambda>(_, q). (v, q))) a
      else if ut_equals ut key ''EnableGamepad2'' then
        took_opt (ut_bool ut s) (\<lambda>v. enable_gamepad_update (\<lambda>(p, _). (p, v))) a
      else if ut_equals ut key ''Deadzone'' then took (deadzone_update (\<lambda>(_, q). (percent s, q))) a
      else if ut_equals ut key ''DeadzoneP2'' then took (deadzone_update (\<lambda>(p, _). (p, percent s))) a
      else and_then (handle_buttons ut key s (app_bindings a)) (\<lambda>(ok, b). ret (ok, a\<lparr>app_bindings := b\<rparr>)))"

text \<open>
  The sizes of the window: a part goes to the width while that is 0, the first one that finds it
  set goes to the height and ends the loop; without one the key is not taken.
\<close>

fun window_sizes :: "string list \<Rightarrow> Config \<Rightarrow> bool \<times> Config" where
  "window_sizes [] c = (False, c)"
| "window_sizes (s # ss) c =
     (if window_width c = 0 then window_sizes ss (c\<lparr>window_width := atoi s\<rparr>)
      else (True, c\<lparr>window_height := atoi s\<rparr>))"

definition handle_window :: "Util \<Rightarrow> string \<Rightarrow> App \<Rightarrow> (bool \<times> App) run" where
  "handle_window ut s a =
     (if ut_equals ut s ''Auto'' then took (\<lambda>c. c\<lparr>window_width := 0, window_height := 0\<rparr>) a
      else case window_sizes (ut_delims ut CHR ''x'' s) (app_config a) of
             (ok, c) \<Rightarrow> ret (ok, a\<lparr>app_config := c\<rparr>))"

definition handle_graphics :: "Util \<Rightarrow> string \<Rightarrow> string \<Rightarrow> App \<Rightarrow> (bool \<times> App) run" where
  "handle_graphics ut key s a =
     (let flag = (\<lambda>f. took_opt (ut_bool ut s) (\<lambda>v. f (\<lambda>_. v)) a)
      in if ut_equals ut key ''WindowSize'' then handle_window ut s a
         else if ut_equals ut key ''NewRenderer'' then flag new_renderer_update
         else if ut_equals ut key ''DisplayAspect'' then
           took_opt (ut_aspect ut s) (\<lambda>v. display_aspect_update (\<lambda>_. v)) a
         else if ut_equals ut key ''IgnoreAspectRatio'' then flag ignore_aspect_ratio_update
         else if ut_equals ut key ''Fullscreen'' then took (fullscreen_update (\<lambda>_. number s)) a
         else if ut_equals ut key ''WindowScale'' then took (window_scale_update (\<lambda>_. number s)) a
         else if ut_equals ut key ''OutputMethod'' then
           took (output_method_update (\<lambda>_. if ut_equals ut s ''SDL-Software'' then kOutputMethod_SDLSoftware
             else if ut_equals ut s ''OpenGL'' then kOutputMethod_OpenGL else kOutputMethod_SDL)) a
         else if ut_equals ut key ''LinearFiltering'' then flag linear_filtering_update
         else if ut_equals ut key ''NoSpriteLimits'' then flag no_sprite_limits_update
         else if ut_equals ut key ''Widescreen'' then
           took_opt (ParseWidescreenMode ut s) (\<lambda>v. widescreen_mode_update (\<lambda>_. v)) a
         else if ut_equals ut key ''WidescreenHud'' then flag widescreen_hud_update
         else if ut_equals ut key ''Shader'' then
           took (shader_update (\<lambda>_. if s = [] then None else Some s)) a
         else ret (False, a))"

definition handle_sound :: "Util \<Rightarrow> string \<Rightarrow> string \<Rightarrow> App \<Rightarrow> (bool \<times> App) run" where
  "handle_sound ut key s a =
     (let flag = (\<lambda>f. took_opt (ut_bool ut s) (\<lambda>v. f (\<lambda>_. v)) a)
      in if ut_equals ut key ''EnableAudio'' then flag enable_audio_update
         else if ut_equals ut key ''AudioFreq'' then took (audio_freq_update (\<lambda>_. number s)) a
         else if ut_equals ut key ''AudioChannels'' then took (audio_channels_update (\<lambda>_. number s)) a
         else if ut_equals ut key ''AudioSamples'' then took (audio_samples_update (\<lambda>_. number s)) a
         else if ut_equals ut key ''Msu1Enabled'' then flag msu1_enabled_update
         else if ut_equals ut key ''Msu1Dir'' then took (msu1_dir_update (\<lambda>_. take 511 s)) a
         else ret (False, a))"

definition handle_general :: "Util \<Rightarrow> string \<Rightarrow> string \<Rightarrow> App \<Rightarrow> (bool \<times> App) run" where
  "handle_general ut key s a =
     (let flag = (\<lambda>f. took_opt (ut_bool ut s) (\<lambda>v. f (\<lambda>_. v)) a)
      in if ut_equals ut key ''Autosave'' then took (autosave_update (\<lambda>_. fst (strtol s) \<noteq> 0)) a
         else if ut_equals ut key ''DisplayPerfInTitle'' then flag display_perf_title_update
         else if ut_equals ut key ''DisableFrameDelay'' then flag disable_frame_delay_update
         else if ut_equals ut key ''SkipLauncher'' then flag skip_launcher_update
         else if ut_equals ut key ''NetplayPlayerName'' then took (netplay_player_name_update (\<lambda>_. take 63 s)) a
         else ret (False, a))"

definition HandleIniConfig :: "Util \<Rightarrow> Sdl \<Rightarrow> int \<Rightarrow> string \<Rightarrow> string \<Rightarrow> App \<Rightarrow> (bool \<times> App) run" where
  "HandleIniConfig ut sdl sec key s a =
     (if sec = 0 then and_then (handle_keymap ut sdl key s (app_bindings a)) (\<lambda>(ok, b). ret (ok, a\<lparr>app_bindings := b\<rparr>))
      else if sec = 5 then handle_gamepad ut key s a
      else if sec = 1 then handle_graphics ut key s a
      else if sec = 2 then handle_sound ut key s a
      else if sec = 3 then handle_general ut key s a
      else ret (False, a))"

section \<open>Files\<close>

text \<open>
  The lines of one file: \<open>incl\<close> reads an included file.  A key without a section is reported and
  skipped, a section that is not known hides its keys.
\<close>

fun config_lines :: "Util \<Rightarrow> Sdl \<Rightarrow> (string \<Rightarrow> App \<Rightarrow> (bool \<times> App) run) \<Rightarrow> string \<Rightarrow> string list \<Rightarrow> int \<Rightarrow> App \<Rightarrow> App run" where
  "config_lines ut sdl incl file [] sec a = ret a"
| "config_lines ut sdl incl file (p # ps) sec a =
     (case p of
        [] \<Rightarrow> config_lines ut sdl incl file ps sec a
      | c # t \<Rightarrow>
          if c = CHR ''['' then config_lines ut sdl incl file ps (GetIniSection ut p) a
          else if c = CHR ''!'' \<and> ut_skips ut t ''include '' then
            and_then (incl (ut_sibling ut file (ut_quoted ut (drop 8 p))) a)
              (\<lambda>(_, a'). config_lines ut sdl incl file ps sec a')
          else if sec = -2 then config_lines ut sdl incl file ps sec a
          else case ut_key_value ut p of
                 None \<Rightarrow> config_lines ut sdl incl file ps sec a
               | Some (key, v) \<Rightarrow>
                   if sec \<ge> 0 then
                     and_then (HandleIniConfig ut sdl sec key v a)
                       (\<lambda>(_, a'). config_lines ut sdl incl file ps sec a')
                   else config_lines ut sdl incl file ps sec a)"

text \<open>\<open>left\<close> is 11 minus the depth: an included file at depth 12 is not read.\<close>

primrec ParseOneConfigFile :: "Util \<Rightarrow> Sdl \<Rightarrow> (string \<Rightarrow> string option) \<Rightarrow> nat \<Rightarrow> string \<Rightarrow> App \<Rightarrow> (bool \<times> App) run" where
  "ParseOneConfigFile ut sdl files 0 = (\<lambda>file a.
     case files file of None \<Rightarrow> ret (False, a)
     | Some text \<Rightarrow>
         and_then (config_lines ut sdl (\<lambda>f a. ret (False, a)) file (ut_lines ut text) (-2) a) (\<lambda>a. ret (True, a)))"
| "ParseOneConfigFile ut sdl files (Suc left) = (\<lambda>file a.
     case files file of None \<Rightarrow> ret (False, a)
     | Some text \<Rightarrow>
         and_then (config_lines ut sdl (ParseOneConfigFile ut sdl files left) file (ut_lines ut text) (-2) a)
           (\<lambda>a. ret (True, a)))"

definition config_defaults :: "Config \<Rightarrow> Config" where
  "config_defaults c =
     c\<lparr>enable_audio := True, audio_freq := 32040, audio_channels := 2, audio_samples := 512,
       enable_gamepad := (True, True), deadzone := (30, 30), widescreen_hud := True,
       netplay_player_name := [], msu1_enabled := False, msu1_dir := []\<rparr>"

definition apply_keyboard_players :: "App \<Rightarrow> App" where
  "apply_keyboard_players a =
     (if keyboard_players (app_config a) \<ge> 0
      then a\<lparr>app_bindings := (app_bindings a)\<lparr>bn_keys := (bn_keys (app_bindings a))
             \<lparr>km_keyboard_controls := word_of_int (keyboard_players (app_config a))\<rparr>\<rparr>\<rparr>
      else a)"

definition ParseConfigFile :: "Util \<Rightarrow> Sdl \<Rightarrow> (string \<Rightarrow> string option) \<Rightarrow> string option \<Rightarrow> App \<Rightarrow> App run" where
  "ParseConfigFile ut sdl files filename a =
     and_then (ParseOneConfigFile ut sdl files 11 (case filename of None \<Rightarrow> ''config.ini'' | Some f \<Rightarrow> f)
         (a\<lparr>app_config := config_defaults (app_config a)\<rparr>))
       (\<lambda>(_, a). and_then (RegisterDefaultKeys sdl (app_bindings a))
         (\<lambda>b. ret (apply_keyboard_players (a\<lparr>app_bindings := b\<rparr>))))"

section \<open>Reloading the key bindings\<close>

fun keymap_lines :: "Util \<Rightarrow> Sdl \<Rightarrow> string list \<Rightarrow> bool \<Rightarrow> App \<Rightarrow> App run" where
  "keymap_lines ut sdl [] inside a = ret a"
| "keymap_lines ut sdl (p # ps) inside a =
     (case p of
        [] \<Rightarrow> keymap_lines ut sdl ps inside a
      | c # _ \<Rightarrow>
          if c = CHR ''['' then keymap_lines ut sdl ps (ut_equals ut p ''[KeyMap]'') a
          else if \<not> inside then keymap_lines ut sdl ps inside a
          else case ut_key_value ut p of
                 None \<Rightarrow> keymap_lines ut sdl ps inside a
               | Some (key, v) \<Rightarrow>
                   and_then (HandleIniConfig ut sdl 0 key v a) (\<lambda>(_, a'). keymap_lines ut sdl ps inside a'))"

definition ConfigReloadKeyMap :: "Util \<Rightarrow> Sdl \<Rightarrow> (string \<Rightarrow> string option) \<Rightarrow> string option \<Rightarrow> App \<Rightarrow> App run" where
  "ConfigReloadKeyMap ut sdl files filename a =
     (let assigned = km_keyboard_controls (bn_keys (app_bindings a));
          a1 = a\<lparr>app_bindings := (app_bindings a)\<lparr>bn_keys := empty_keymap,
                 bn_named := replicate (length kKeyNameId) False\<rparr>\<rparr>
      in and_then
           (case files (case filename of None \<Rightarrow> ''config.ini'' | Some f \<Rightarrow> f) of
              None \<Rightarrow> ret a1
            | Some text \<Rightarrow> keymap_lines ut sdl (ut_lines ut text) False a1)
           (\<lambda>a2. and_then (default_keys sdl (app_bindings a2))
             (\<lambda>b. ret (a2\<lparr>app_bindings := b\<lparr>bn_keys := (bn_keys b)\<lparr>km_keyboard_controls := assigned\<rparr>\<rparr>\<rparr>))))"

definition initial_app :: "Config \<Rightarrow> App" where
  "initial_app c = \<lparr>app_config = c\<lparr>keyboard_players := -1\<rparr>,
     app_bindings = \<lparr>bn_keys = empty_keymap, bn_joys = empty_joymap,
       bn_named = replicate (length kKeyNameId) False, bn_joypads = 0\<rparr>\<rparr>"

end
