(* ===== verification/Config_Facts.thy ===== *)
theory Config_Facts
  imports Config_Parse
begin

text \<open>
  What reading a configuration guarantees: it returns, the settings stay in range whatever the file
  says, a reload touches the key bindings only, and a default never displaces a binding of the file.
\<close>

section \<open>Runs\<close>

text \<open>A run that returns: it stops with a fault or gives a result with \<open>P\<close>.\<close>

definition run_ok :: "('a \<Rightarrow> bool) \<Rightarrow> 'a run \<Rightarrow> bool" where
  "run_ok P r \<longleftrightarrow> (case r of None \<Rightarrow> False | Some (Inl e) \<Rightarrow> True | Some (Inr x) \<Rightarrow> P x)"

lemma run_ok_ret [simp]: "run_ok P (ret x) = P x"
  by (simp add: run_ok_def ret_def)

lemma run_ok_then: "run_ok Q r \<Longrightarrow> (\<And>x. Q x \<Longrightarrow> run_ok P (f x)) \<Longrightarrow> run_ok P (and_then r f)"
  by (cases r) (auto simp: run_ok_def and_then_def split: sum.splits)

lemma run_ok_mono: "run_ok Q r \<Longrightarrow> (\<And>x. Q x \<Longrightarrow> P x) \<Longrightarrow> run_ok P r"
  by (auto simp: run_ok_def split: option.splits sum.splits)

text \<open>The prefix test gives what is behind the prefix.\<close>

definition prefixes_shorten :: "Util \<Rightarrow> bool" where
  "prefixes_shorten ut \<longleftrightarrow> (\<forall>s p r. ut_starts ut s p = Some r \<longrightarrow> length s = length p + length r)"

lemma shortens: "prefixes_shorten ut \<Longrightarrow> ut_starts ut s p = Some r \<Longrightarrow> length s = length p + length r"
  by (simp add: prefixes_shorten_def)

lemma key_modifiers_returns: "prefixes_shorten ut \<Longrightarrow> \<exists>r. key_modifiers ut s k = Some r"
proof (induction "length s" arbitrary: s k rule: less_induct)
  case less
  have less': "length (drop n s) < length s" if "ut_starts ut s p = Some r" "length p = n" "0 < n" for p r n
    using shortens [OF less.prems that(1)] that by simp
  show ?case
    using less.hyps [OF less' [of "''Shift+''"] less.prems] less.hyps [OF less' [of "''Ctrl+''"] less.prems]
      less.hyps [OF less' [of "''Alt+''"] less.prems]
    by (subst key_modifiers.simps) auto
qed

lemma first_name_shortens:
  "prefixes_shorten ut \<Longrightarrow> \<forall>(p, _) \<in> set names. p \<noteq> [] \<Longrightarrow> first_name ut names s = Some (b, r) \<Longrightarrow> length r < length s"
proof (induction names)
  case (Cons n names)
  then show ?case using shortens [of ut s "fst n" r] by (cases n) (auto split: option.splits)
qed simp

lemma button_chord_returns: "prefixes_shorten ut \<Longrightarrow> \<exists>r. button_chord ut s m = Some r"
proof (induction "length s" arbitrary: s m rule: less_induct)
  case less
  show ?case
  proof (cases "ParseGamepadButtonName ut s")
    case None
    then show ?thesis by (subst button_chord.simps) simp
  next
    case (Some br)
    obtain b r where br: "br = (b, r)" by (cases br)
    have "length r < length s"
      using first_name_shortens [OF less.prems, of kGamepadKeys s b r] Some br
      by (simp add: ParseGamepadButtonName_def kGamepadKeys_def)
    moreover have "length (dropWhile is_blank r) \<le> length r" by (rule length_dropWhile_le)
    ultimately have "length t < length s" if "dropWhile is_blank r = c # t" for c t
      using that by simp
    then show ?thesis
      using less.hyps less.prems Some br by (subst button_chord.simps) (auto split: list.split)
  qed
qed

section \<open>The bindings stay well formed\<close>

definition keys_ok :: "KeyMap \<Rightarrow> bool" where
  "keys_ok m \<longleftrightarrow> (\<exists>f. keymap_is f m) \<and> length (km_hash m) \<le> 10240 \<and> km_keyboard_controls m \<le> 3"

definition joys_ok :: "JoyMap \<Rightarrow> bool" where
  "joys_ok m \<longleftrightarrow> (\<exists>f. joymap_is f m) \<and> length (jm_ents m) \<le> 64"

lemma keymap_is_controls [simp]: "keymap_is f (m\<lparr>km_keyboard_controls := k\<rparr>) = keymap_is f m"
  by (simp add: keymap_is_def)

lemma or_le_3: "x \<le> 3 \<Longrightarrow> y \<le> 3 \<Longrightarrow> x OR y \<le> 3" for x y :: u8
proof -
  have three: "(z \<le> 3) = (take_bit 2 z = z)" for z :: u8
  proof -
    have "(z \<le> 3) = (unat z < 2 ^ 2)" by (simp add: word_le_nat_alt) linarith
    also have "\<dots> = (take_bit 2 (unat z) = unat z)" by (simp only: take_bit_nat_eq_self_iff)
    finally show ?thesis by (simp add: word_unat_eq_iff unsigned_take_bit_eq)
  qed
  show "x \<le> 3 \<Longrightarrow> y \<le> 3 \<Longrightarrow> x OR y \<le> 3" unfolding three by simp
qed

lemma claim_keyboard_ok: "km_keyboard_controls m \<le> 3 \<Longrightarrow> km_keyboard_controls (claim_keyboard c m) \<le> 3"
  using or_le_3 [of "km_keyboard_controls m" 1] or_le_3 [of "km_keyboard_controls m" 2]
  by (simp add: claim_keyboard_def)

lemma set_link_controls [simp]: "km_keyboard_controls (set_link l v m) = km_keyboard_controls m"
  by (simp add: set_link_def split: Link.split)

lemma add_key_ok:
  assumes "keys_ok m"
  shows "run_ok (\<lambda>(_, m'). keys_ok m') (KeyMapHash_Add key cmd m)"
proof -
  obtain f where f: "keymap_is f m" and len: "length (km_hash m) \<le> 10240" and k: "km_keyboard_controls m \<le> 3"
    using assms by (auto simp: keys_ok_def)
  consider "key = 0" | "key \<noteq> 0" "length (km_hash m) = 10240" | "key \<noteq> 0" "length (km_hash m) < 10240"
    using len by linarith
  then show ?thesis
  proof cases
    case 1
    then show ?thesis using assms by (simp add: KeyMapHash_Add_def run_ok_def)
  next
    case 2
    then show ?thesis by (simp add: KeyMapHash_Add_def run_ok_def Let_def)
  next
    case 3
    obtain m' where m': "KeyMapHash_Add key cmd m = Some (Inr (f key = None, m'))"
      "keymap_is (if f key = None then f(key \<mapsto> cmd) else f) m'" "length (km_hash m') = Suc (length (km_hash m))"
      using add_keymap [OF f disjI2 [OF 3(2)] 3(1), of cmd] by auto
    have "km_keyboard_controls m' \<le> 3"
      using m'(1) 3(1) claim_keyboard_ok [OF k, of cmd]
      by (auto simp: KeyMapHash_Add_def Let_def split: if_splits option.splits)
    then show ?thesis using m' 3(2) by (auto simp: run_ok_def keys_ok_def)
  qed
qed

lemma add_button_ok:
  assumes "joys_ok m" "button < 34"
  shows "run_ok joys_ok (GamepadMap_Add button mods cmd m)"
proof -
  obtain f where f: "joymap_is f m" and len: "length (jm_ents m) \<le> 64"
    using assms by (auto simp: joys_ok_def)
  show ?thesis
  proof (cases "length (jm_ents m) = 64")
    case True
    obtain ks where "path ge_next (jm_ents m) (jm_first m ! button) ks"
      using joymap_path [OF f assms(2)] by blast
    moreover have "jm_capacity m = 64" using f True by (auto simp: joymap_is_def)
    ultimately show ?thesis using True by (simp add: GamepadMap_Add_def insert_place_path run_ok_def)
  next
    case False
    then show ?thesis using add_joymap [OF f _ assms(2), of mods cmd] len
      by (fastforce simp: run_ok_def joys_ok_def)
  qed
qed

lemma bind_key_ok: "prefixes_shorten ut \<Longrightarrow> keys_ok m \<Longrightarrow> run_ok keys_ok (bind_key ut sdl s cmd m)"
  using key_modifiers_returns [of ut s 0]
  by (auto simp: bind_key_def split: option.split intro!: run_ok_then [OF add_key_ok])

lemma bind_keys_ok: "prefixes_shorten ut \<Longrightarrow> keys_ok m \<Longrightarrow> run_ok keys_ok (bind_keys ut sdl ss cmd m)"
  by (induction ss arbitrary: cmd m) (auto intro: run_ok_then [OF bind_key_ok])

lemma button_number_less: "button_number b < 17"
  by (cases b) simp_all

lemma bind_button_ok:
  "prefixes_shorten ut \<Longrightarrow> gamepad \<le> 1 \<Longrightarrow> joys_ok m \<Longrightarrow> run_ok joys_ok (bind_button ut gamepad s cmd m)"
  using button_chord_returns [of ut s 0]
proof -
  assume a: "prefixes_shorten ut" "gamepad \<le> 1" "joys_ok m"
  have "button_number b + gamepad * kGamepadBtn_Count < 34" for b
    using button_number_less [of b] a(2) by (cases gamepad) (simp_all add: kGamepadBtn_Count_def)
  then show ?thesis
    using button_chord_returns [OF a(1), of s 0] a(3)
    by (auto simp: bind_button_def split: option.split intro!: add_button_ok)
qed

lemma bind_buttons_ok:
  "prefixes_shorten ut \<Longrightarrow> gamepad \<le> 1 \<Longrightarrow> joys_ok m \<Longrightarrow> run_ok joys_ok (bind_buttons ut gamepad ss cmd m)"
  by (induction ss arbitrary: cmd m) (auto intro: run_ok_then [OF bind_button_ok])

lemma bind_defaults_ok: "keys_ok m \<Longrightarrow> run_ok keys_ok (bind_defaults keys ks m)"
  by (induction ks arbitrary: m) (auto intro!: run_ok_then [OF add_key_ok])

lemma default_buttons_ok:
  "gamepad \<le> 1 \<Longrightarrow> joys_ok m \<Longrightarrow> run_ok joys_ok (default_buttons gamepad cmd bs m)"
proof (induction bs arbitrary: cmd m)
  case (Cons b bs)
  have "button_number b + gamepad * kGamepadBtn_Count < 34"
    using button_number_less [of b] Cons.prems(1) by (cases gamepad) (simp_all add: kGamepadBtn_Count_def)
  with Cons show ?case by (auto intro: run_ok_then [OF add_button_ok])
qed simp


section \<open>The settings stay in range\<close>

definition config_ok :: "Config \<Rightarrow> bool" where
  "config_ok c \<longleftrightarrow> fst (deadzone c) \<le> 100 \<and> snd (deadzone c) \<le> 100 \<and>
     -1 \<le> keyboard_players c \<and> keyboard_players c \<le> 3 \<and>
     length (netplay_player_name c) \<le> 63 \<and> length (msu1_dir c) \<le> 511"

definition app_ok :: "App \<Rightarrow> bool" where
  "app_ok a \<longleftrightarrow> config_ok (app_config a) \<and> keys_ok (bn_keys (app_bindings a)) \<and> joys_ok (bn_joys (app_bindings a))"

lemma percent_le: "percent s \<le> 100"
proof -
  have "word_of_int n \<le> (100 :: u8)" if "0 \<le> n" "n \<le> 100" for n :: int
    using that by (simp add: word_le_def unsigned_of_int take_bit_int_eq_self)
  then show ?thesis by (simp add: percent_def Let_def)
qed

lemma keyboard_mask_range: "keyboard_mask s = Some m \<Longrightarrow> 0 \<le> m \<and> m \<le> 3"
  by (auto simp: keyboard_mask_def split: prod.splits option.splits if_splits)

lemma config_ok_update [simp]:
  "config_ok (window_width_update g1 c) = config_ok c"
  "config_ok (window_height_update g2 c) = config_ok c"
  "config_ok (new_renderer_update g3 c) = config_ok c"
  "config_ok (ignore_aspect_ratio_update g4 c) = config_ok c"
  "config_ok (display_aspect_update g5 c) = config_ok c"
  "config_ok (fullscreen_update g6 c) = config_ok c"
  "config_ok (window_scale_update g7 c) = config_ok c"
  "config_ok (enable_audio_update g8 c) = config_ok c"
  "config_ok (linear_filtering_update g9 c) = config_ok c"
  "config_ok (output_method_update g10 c) = config_ok c"
  "config_ok (audio_freq_update g11 c) = config_ok c"
  "config_ok (audio_channels_update g12 c) = config_ok c"
  "config_ok (audio_samples_update g13 c) = config_ok c"
  "config_ok (autosave_update g14 c) = config_ok c"
  "config_ok (no_sprite_limits_update g15 c) = config_ok c"
  "config_ok (widescreen_mode_update g16 c) = config_ok c"
  "config_ok (widescreen_hud_update g17 c) = config_ok c"
  "config_ok (display_perf_title_update g18 c) = config_ok c"
  "config_ok (disable_frame_delay_update g19 c) = config_ok c"
  "config_ok (skip_launcher_update g20 c) = config_ok c"
  "config_ok (msu1_enabled_update g21 c) = config_ok c"
  "config_ok (shader_update g22 c) = config_ok c"
  "config_ok (enable_gamepad_update g23 c) = config_ok c"
  by (simp_all add: config_ok_def)

lemma app_config_ok [simp]: "app_ok a \<Longrightarrow> config_ok (app_config a)"
  by (simp add: app_ok_def)

lemma took_ok [simp]: "config_ok (f (app_config a)) \<Longrightarrow> app_ok a \<Longrightarrow> run_ok (\<lambda>(_, a'). app_ok a') (took f a)"
  by (simp add: took_def app_ok_def)

lemma took_opt_ok [simp]:
  "(\<And>x. v = Some x \<Longrightarrow> config_ok (f x (app_config a))) \<Longrightarrow> app_ok a \<Longrightarrow> run_ok (\<lambda>(_, a'). app_ok a') (took_opt v f a)"
  by (auto simp: took_opt_def split: option.split intro!: took_ok)

lemma handle_keymap_ok:
  "prefixes_shorten ut \<Longrightarrow> keys_ok (bn_keys b) \<Longrightarrow>
     run_ok (\<lambda>(_, b'). keys_ok (bn_keys b') \<and> bn_joys b' = bn_joys b \<and> bn_joypads b' = bn_joypads b)
       (handle_keymap ut sdl key s b)"
  by (auto simp: handle_keymap_def ParseKeyArray_def split: option.split prod.split
      intro!: run_ok_then [OF bind_keys_ok])

lemma handle_buttons_ok:
  "prefixes_shorten ut \<Longrightarrow> joys_ok (bn_joys b) \<Longrightarrow>
     run_ok (\<lambda>(_, b'). joys_ok (bn_joys b') \<and> bn_keys b' = bn_keys b) (handle_buttons ut key s b)"
  by (auto simp: handle_buttons_def ParseGamepadArray_def split: option.split prod.split
      intro!: run_ok_then [OF bind_buttons_ok])

lemma window_sizes_ok: "window_sizes ss c = (b, c') \<Longrightarrow> config_ok c \<Longrightarrow> config_ok c'"
  by (induction ss c rule: window_sizes.induct) (auto simp: config_ok_def split: if_splits)

lemma handle_window_ok [simp]: "app_ok a \<Longrightarrow> run_ok (\<lambda>(_, a'). app_ok a') (handle_window ut s a)"
proof -
  assume a: "app_ok a"
  obtain b c where w: "window_sizes (ut_delims ut CHR ''x'' s) (app_config a) = (b, c)" by force
  with a window_sizes_ok [OF w] have "app_ok (a\<lparr>app_config := c\<rparr>)" by (simp add: app_ok_def)
  with a w show ?thesis by (simp add: handle_window_def)
qed

lemma handle_graphics_ok: "app_ok a \<Longrightarrow> run_ok (\<lambda>(_, a'). app_ok a') (handle_graphics ut key s a)"
  by (simp add: handle_graphics_def Let_def)

lemma msu1_dir_ok [simp]: "config_ok c \<Longrightarrow> config_ok (msu1_dir_update (\<lambda>_. take 511 s) c)"
  by (simp add: config_ok_def)

lemma player_name_ok [simp]: "config_ok c \<Longrightarrow> config_ok (netplay_player_name_update (\<lambda>_. take 63 s) c)"
  by (simp add: config_ok_def)

lemma handle_sound_ok: "app_ok a \<Longrightarrow> run_ok (\<lambda>(_, a'). app_ok a') (handle_sound ut key s a)"
  by (simp add: handle_sound_def Let_def)

lemma handle_general_ok: "app_ok a \<Longrightarrow> run_ok (\<lambda>(_, a'). app_ok a') (handle_general ut key s a)"
  by (simp add: handle_general_def Let_def)

lemma gamepad_settings_ok [simp]:
  "config_ok c \<Longrightarrow> 0 \<le> m \<and> m \<le> 3 \<Longrightarrow> config_ok (keyboard_players_update (\<lambda>_. m) c)"
  "config_ok c \<Longrightarrow> config_ok (deadzone_update (\<lambda>(_, q). (percent s, q)) c)"
  "config_ok c \<Longrightarrow> config_ok (deadzone_update (\<lambda>(p, _). (p, percent s)) c)"
  by (cases "deadzone c"; simp add: config_ok_def percent_le)+

lemma handle_gamepad_ok:
  assumes "prefixes_shorten ut" "app_ok a"
  shows "run_ok (\<lambda>(_, a'). app_ok a') (handle_gamepad ut key s a)"
proof -
  have "run_ok (\<lambda>(_, a'). app_ok a')
      (and_then (handle_buttons ut key s (app_bindings a)) (\<lambda>(ok, b). ret (ok, a\<lparr>app_bindings := b\<rparr>)))"
    by (rule run_ok_then [OF handle_buttons_ok]) (use assms in \<open>auto simp: app_ok_def\<close>)
  then show ?thesis
    using assms(2) keyboard_mask_range [of s] by (simp add: handle_gamepad_def)
qed

lemma handle_ok:
  assumes "prefixes_shorten ut" "app_ok a"
  shows "run_ok (\<lambda>(_, a'). app_ok a') (HandleIniConfig ut sdl sec key s a)"
proof -
  have "run_ok (\<lambda>(_, a'). app_ok a')
      (and_then (handle_keymap ut sdl key s (app_bindings a)) (\<lambda>(ok, b). ret (ok, a\<lparr>app_bindings := b\<rparr>)))"
    by (rule run_ok_then [OF handle_keymap_ok]) (use assms in \<open>auto simp: app_ok_def\<close>)
  then show ?thesis
    using assms by (simp add: HandleIniConfig_def handle_gamepad_ok handle_graphics_ok handle_sound_ok handle_general_ok)
qed

lemma config_lines_ok:
  assumes "prefixes_shorten ut" "\<And>f a. app_ok a \<Longrightarrow> run_ok (\<lambda>(_, a'). app_ok a') (incl f a)"
  shows "app_ok a \<Longrightarrow> run_ok app_ok (config_lines ut sdl incl file ps sec a)"
proof (induction ps arbitrary: sec a)
  case (Cons p ps)
  then show ?case
    by (cases p) (auto split: option.split intro!: run_ok_then [OF assms(2)] run_ok_then [OF handle_ok [OF assms(1)]])
qed simp

lemma file_ok:
  "prefixes_shorten ut \<Longrightarrow> app_ok a \<Longrightarrow> run_ok (\<lambda>(_, a'). app_ok a') (ParseOneConfigFile ut sdl files left name a)"
proof (induction left arbitrary: name a)
  case 0
  then show ?case by (auto split: option.split intro!: run_ok_then [OF config_lines_ok])
next
  case (Suc left)
  then show ?case by (auto split: option.split intro!: run_ok_then [OF config_lines_ok])
qed

lemma default_keys_ok:
  "keys_ok (bn_keys b) \<Longrightarrow> run_ok (\<lambda>b'. keys_ok (bn_keys b') \<and> bn_joys b' = bn_joys b \<and> bn_joypads b' = bn_joypads b)
     (default_keys sdl b)"
  by (auto simp: default_keys_def intro!: run_ok_then [OF bind_defaults_ok])

lemma default_joypad_ok:
  "gamepad \<le> 1 \<Longrightarrow> joys_ok (bn_joys b) \<Longrightarrow>
     run_ok (\<lambda>b'. joys_ok (bn_joys b') \<and> bn_keys b' = bn_keys b) (default_joypad gamepad cmd b)"
  by (auto simp: default_joypad_def intro!: run_ok_then [OF default_buttons_ok])

lemma RegisterDefaultKeys_ok:
  assumes "keys_ok (bn_keys b)" "joys_ok (bn_joys b)"
  shows "run_ok (\<lambda>b'. keys_ok (bn_keys b') \<and> joys_ok (bn_joys b')) (RegisterDefaultKeys sdl b)"
proof -
  have 1: "run_ok (\<lambda>b'. keys_ok (bn_keys b') \<and> joys_ok (bn_joys b'))
      (and_then (default_joypad 0 kKeys_Controls b1) (default_joypad 1 kKeys_ControlsP2))"
    if "keys_ok (bn_keys b1)" "joys_ok (bn_joys b1)" for b1
    using that by (auto intro!: run_ok_then [OF default_joypad_ok] run_ok_mono [OF default_joypad_ok])
  show ?thesis
    unfolding RegisterDefaultKeys_def
    by (rule run_ok_then [OF default_keys_ok [OF assms(1)]]) (use 1 assms(2) in auto)
qed

text \<open>
  C27. Reading the configuration returns, whatever the files hold: it stops with a fault (too many
  bindings) or leaves settings in range, well-formed binding tables and at most the two keyboard
  players, so that every lookup afterwards returns.
\<close>

theorem parse_config_safe:
  assumes "prefixes_shorten ut"
  shows "run_ok app_ok (ParseConfigFile ut sdl files filename (initial_app c))"
proof -
  have k: "keys_ok empty_keymap" using empty_keymap_is by (auto simp: keys_ok_def empty_keymap_def)
  have j: "joys_ok empty_joymap" using empty_joymap_is by (auto simp: joys_ok_def empty_joymap_def)
  let ?a = "(initial_app c)\<lparr>app_config := config_defaults (app_config (initial_app c))\<rparr>"
  have "config_ok (config_defaults (c\<lparr>keyboard_players := -1\<rparr>))"
    unfolding config_ok_def by (simp add: config_defaults_def)
  then have a: "app_ok ?a" using k j by (simp add: app_ok_def initial_app_def)
  have players: "app_ok (apply_keyboard_players a)" if "app_ok a" for a
  proof -
    have "word_of_int n \<le> (3 :: u8)" if "0 \<le> n" "n \<le> 3" for n :: int
      using that by (simp add: word_le_def unsigned_of_int take_bit_int_eq_self)
    then show ?thesis
      using that by (auto simp: apply_keyboard_players_def app_ok_def config_ok_def keys_ok_def)
  qed
  have final: "run_ok app_ok (and_then (RegisterDefaultKeys sdl (app_bindings a))
      (\<lambda>b. ret (apply_keyboard_players (a\<lparr>app_bindings := b\<rparr>))))" if "app_ok a" for a
  proof (rule run_ok_then [OF RegisterDefaultKeys_ok])
    fix b :: Bindings
    assume "keys_ok (bn_keys b) \<and> joys_ok (bn_joys b)"
    then have "app_ok (a\<lparr>app_bindings := b\<rparr>)" using that by (simp add: app_ok_def)
    from players [OF this] show "run_ok app_ok (ret (apply_keyboard_players (a\<lparr>app_bindings := b\<rparr>)))" by simp
  qed (use that in \<open>simp_all add: app_ok_def\<close>)
  show ?thesis
    unfolding ParseConfigFile_def
    by (rule run_ok_then [OF file_ok [OF assms a]]) (auto intro: final)
qed

section \<open>Reloading\<close>

definition same_but_keys :: "App \<Rightarrow> App \<Rightarrow> bool" where
  "same_but_keys a a' \<longleftrightarrow> app_config a' = app_config a \<and>
     bn_joys (app_bindings a') = bn_joys (app_bindings a) \<and> bn_joypads (app_bindings a') = bn_joypads (app_bindings a)"

lemma keymap_lines_ok:
  assumes "prefixes_shorten ut"
  shows "keys_ok (bn_keys (app_bindings a)) \<Longrightarrow> same_but_keys a0 a \<Longrightarrow>
     run_ok (\<lambda>a'. keys_ok (bn_keys (app_bindings a')) \<and> same_but_keys a0 a') (keymap_lines ut sdl ps inside a)"
proof (induction ps arbitrary: inside a)
  case (Cons p ps)
  have "run_ok (\<lambda>(_, a'). keys_ok (bn_keys (app_bindings a')) \<and> same_but_keys a0 a') (HandleIniConfig ut sdl 0 key v a)"
    for key v
    unfolding HandleIniConfig_def
    by (auto intro!: run_ok_then [OF handle_keymap_ok [OF assms]] simp: Cons.prems)
      (use Cons.prems in \<open>auto simp: same_but_keys_def\<close>)
  with Cons show ?case by (cases p) (auto split: option.split intro!: run_ok_then)
qed simp

text \<open>
  Reloading the key bindings changes nothing else: the settings, the gamepad chains and the
  assignment of the keyboard to players are those before, and the key table is well formed.
\<close>

lemma reload_keeps_settings:
  assumes "prefixes_shorten ut"
  shows "run_ok (\<lambda>a'. app_config a' = app_config a \<and> bn_joys (app_bindings a') = bn_joys (app_bindings a) \<and>
      bn_joypads (app_bindings a') = bn_joypads (app_bindings a) \<and>
      km_keyboard_controls (bn_keys (app_bindings a')) = km_keyboard_controls (bn_keys (app_bindings a)) \<and>
      (\<exists>f. keymap_is f (bn_keys (app_bindings a'))))
    (ConfigReloadKeyMap ut sdl files filename a)"
proof -
  let ?Q = "\<lambda>a'. keys_ok (bn_keys (app_bindings a')) \<and> same_but_keys a a'"
  let ?a1 = "a\<lparr>app_bindings := (app_bindings a)\<lparr>bn_keys := empty_keymap,
    bn_named := replicate (length kKeyNameId) False\<rparr>\<rparr>"
  have "?Q ?a1" using empty_keymap_is by (auto simp: keys_ok_def empty_keymap_def same_but_keys_def)
  then have "run_ok ?Q (case files name of None \<Rightarrow> ret ?a1 | Some text \<Rightarrow> keymap_lines ut sdl (ut_lines ut text) False ?a1)"
    for name by (auto split: option.split intro!: keymap_lines_ok [OF assms])
  then show ?thesis
    unfolding ConfigReloadKeyMap_def Let_def
    by (rule run_ok_then) (auto intro!: run_ok_then [OF default_keys_ok] simp: same_but_keys_def keys_ok_def)
qed


section \<open>Defaults\<close>

lemma unnamed_commands_length: "length (unnamed_commands named) \<le> 75"
proof -
  have "length (unnamed_commands named) \<le> sum_list (map (\<lambda>i. snd (snd (kKeyNameId ! i))) [1..<length kKeyNameId])"
    unfolding unnamed_commands_def length_concat map_map comp_def
    by (rule sum_list_mono) (simp add: Let_def split: prod.split)
  also have "\<dots> = 75" by (simp add: kKeyNameId_def upt_rec)
  finally show ?thesis .
qed

definition default_bindings :: "Sdl \<Rightarrow> bool list \<Rightarrow> (u16 \<times> u16) list" where
  "default_bindings sdl named = map (\<lambda>k. (kDefaultKbdControls sdl ! k, of_nat k)) (unnamed_commands named)"

lemma bind_defaults_add_keys:
  "bind_defaults keys ks m = add_keys (map (\<lambda>k. (keys ! k, of_nat k)) ks) m"
  by (induction ks arbitrary: m) (auto simp: ret_def and_then_def split: option.split sum.split)

text \<open>
  A default never displaces a binding of the file: after the defaults a key that the file
  bound still gives the command of the file, and every other key the first command with that default
  key among those whose names the file did not mention.
\<close>

lemma defaults_yield_to_file:
  assumes "keymap_is f (bn_keys b)" "length (km_hash (bn_keys b)) \<le> 9900"
  shows "\<exists>b'. default_keys sdl b = Some (Inr b') \<and> (\<forall>key. KeyMapHash_Find key (bn_keys b') =
     Some (case f key of Some cmd \<Rightarrow> cmd
       | None \<Rightarrow> (case map_of (filter (\<lambda>(k, c). k \<noteq> 0) (default_bindings sdl (bn_named b))) key of
                    None \<Rightarrow> 0 | Some cmd \<Rightarrow> cmd)))"
proof -
  let ?kvs = "default_bindings sdl (bn_named b)"
  have "length (km_hash (bn_keys b)) + length ?kvs \<le> 10001"
    using assms(2) unnamed_commands_length [of "bn_named b"] by (simp add: default_bindings_def)
  from add_keys_map [OF assms(1) this] obtain m where m: "add_keys ?kvs (bn_keys b) = Some (Inr m)"
    "keymap_is (map_of (filter (\<lambda>(k, c). k \<noteq> 0) ?kvs) ++ f) m" by auto
  have "default_keys sdl b = Some (Inr (b\<lparr>bn_keys := m\<rparr>))"
    using m(1) by (simp add: default_keys_def bind_defaults_add_keys default_bindings_def and_then_def ret_def)
  with find_keymap [OF m(2)] show ?thesis by (auto simp: map_add_def split: option.split)
qed

end
