(* ===== verification/Config_Write.thy ===== *)
theory Config_Write
  imports Config_Facts "HOL-Library.Sublist"
begin

text \<open>
  Writing the settings of the launcher back, \<open>WriteConfigFile\<close> of \<^verbatim>\<open>src/config.c\<close>: the old file is
  copied line by line, a line that assigns one of the settings is replaced the first time, missing
  settings go to the end of their section and missing sections to the end of the file.

  The text is a C string, so it ends at a NUL; a line is cut at 2047 characters and loses a carriage
  return at its end.
\<close>

section \<open>The buffer and the settings\<close>

record CfgKV =
  kv_section :: string
  kv_key :: string
  kv_val :: string
  kv_done :: bool

record CfgBuf =
  cb_text :: string
  cb_cap :: nat

definition CfgBuf_AddN :: "CfgBuf \<Rightarrow> string \<Rightarrow> CfgBuf" where
  "CfgBuf_AddN b s =
     (let need = length (cb_text b) + length s + 1
      in \<lparr>cb_text = cb_text b @ s, cb_cap = (if need > cb_cap b then need * 2 else cb_cap b)\<rparr>)"

definition emit_kv :: "CfgKV \<Rightarrow> string" where
  "emit_kv kv = kv_key kv @ '' = '' @ kv_val kv @ [CHR 0x0A]"

definition CfgBuf_EmitKV :: "CfgBuf \<Rightarrow> CfgKV \<Rightarrow> CfgBuf" where
  "CfgBuf_EmitKV b kv =
     CfgBuf_AddN (CfgBuf_AddN (CfgBuf_AddN (CfgBuf_AddN b (kv_key kv)) '' = '') (kv_val kv)) [CHR 0x0A]"

definition add_line :: "CfgBuf \<Rightarrow> string \<Rightarrow> CfgBuf" where
  "add_line b l = CfgBuf_AddN (CfgBuf_AddN b l) [CHR 0x0A]"

text \<open>The settings of \<open>kvs\<close> that are not written and that \<open>p\<close> selects.\<close>

fun flush_kvs :: "(CfgKV \<Rightarrow> bool) \<Rightarrow> CfgKV list \<Rightarrow> CfgBuf \<Rightarrow> CfgKV list \<times> CfgBuf" where
  "flush_kvs p [] out = ([], out)"
| "flush_kvs p (kv # kvs) out =
     (if \<not> kv_done kv \<and> p kv
      then (case flush_kvs p kvs (CfgBuf_EmitKV out kv) of (kvs', out') \<Rightarrow> (kv\<lparr>kv_done := True\<rparr> # kvs', out'))
      else (case flush_kvs p kvs out of (kvs', out') \<Rightarrow> (kv # kvs', out')))"

definition CfgFlushSection :: "Util \<Rightarrow> string \<Rightarrow> CfgKV list \<Rightarrow> CfgBuf \<Rightarrow> CfgKV list \<times> CfgBuf" where
  "CfgFlushSection ut sec kvs out =
     (if sec = [] then (kvs, out) else flush_kvs (\<lambda>kv. ut_equals ut sec (kv_section kv)) kvs out)"

definition CfgLineIsKey :: "Util \<Rightarrow> string \<Rightarrow> string \<Rightarrow> bool" where
  "CfgLineIsKey ut line key =
     (let p = dropWhile is_blank line;
          q = (case p of c # t \<Rightarrow> if c = CHR ''#'' then dropWhile is_blank t else p | [] \<Rightarrow> p)
      in case ut_starts ut q key of
           None \<Rightarrow> False
         | Some r \<Rightarrow> (case dropWhile is_blank r of c # _ \<Rightarrow> c = CHR ''='' | [] \<Rightarrow> False))"

definition flag_text :: "bool \<Rightarrow> string" where
  "flag_text b = (if b then ''1'' else ''0'')"

definition bool_text :: "bool \<Rightarrow> string" where
  "bool_text b = (if b then ''true'' else ''false'')"

definition setting :: "string \<Rightarrow> string \<Rightarrow> string \<Rightarrow> CfgKV" where
  "setting sec key v = \<lparr>kv_section = sec, kv_key = key, kv_val = take 599 v, kv_done = False\<rparr>"

definition launcher_settings :: "App \<Rightarrow> CfgKV list" where
  "launcher_settings a =
     (let c = app_config a; keyboard = km_keyboard_controls (bn_keys (app_bindings a)) AND 3
      in [setting ''Graphics'' ''WindowScale'' (decimal (if window_scale c \<noteq> 0 then unat (window_scale c) else 3)),
          setting ''Graphics'' ''Widescreen'' (WidescreenModeName (widescreen_mode c)),
          setting ''Graphics'' ''LinearFiltering'' (flag_text (linear_filtering c)),
          setting ''Sound'' ''EnableAudio'' (flag_text (enable_audio c)),
          setting ''Sound'' ''AudioFreq'' (decimal (unat (audio_freq c))),
          setting ''Sound'' ''Msu1Enabled'' (flag_text (msu1_enabled c)),
          setting ''Sound'' ''Msu1Dir'' (msu1_dir c),
          setting ''GamepadMap'' ''EnableGamepad1'' (bool_text (fst (enable_gamepad c))),
          setting ''GamepadMap'' ''EnableGamepad2'' (bool_text (snd (enable_gamepad c))),
          setting ''General'' ''SkipLauncher'' (flag_text (skip_launcher c)),
          setting ''General'' ''NetplayPlayerName'' (netplay_player_name c),
          setting ''GamepadMap'' ''Deadzone'' (decimal (unat (fst (deadzone c)))),
          setting ''GamepadMap'' ''DeadzoneP2'' (decimal (unat (snd (deadzone c)))),
          setting ''GamepadMap'' ''KeyboardPlayers'' (decimal (unat keyboard))])"

section \<open>Copying the old file\<close>

definition cut_line :: "string \<Rightarrow> string" where
  "cut_line raw = (let l = take 2047 raw in if l \<noteq> [] \<and> last l = CHR 0x0D then butlast l else l)"

function file_lines :: "string \<Rightarrow> string list" where
  "file_lines s =
     (if s = [] then []
      else cut_line (takeWhile (\<lambda>c. c \<noteq> CHR 0x0A) s) # file_lines (drop 1 (dropWhile (\<lambda>c. c \<noteq> CHR 0x0A) s)))"
  by pat_completeness auto
termination
proof (relation "measure length")
  fix s :: string
  assume "s \<noteq> []"
  moreover have "length (dropWhile (\<lambda>c. c \<noteq> CHR 0x0A) s) \<le> length s" by (rule length_dropWhile_le)
  ultimately show "(drop 1 (dropWhile (\<lambda>c. c \<noteq> CHR 0x0A) s), s) \<in> measure length" by (cases s) auto
qed simp

declare file_lines.simps [simp del]

definition section_of :: "string \<Rightarrow> string option" where
  "section_of line =
     (case dropWhile is_blank line of
        c # nm \<Rightarrow> if c = CHR ''['' then Some (take 63 (takeWhile (\<lambda>c. c \<noteq> CHR '']'') nm)) else None
      | [] \<Rightarrow> None)"

definition replaces :: "Util \<Rightarrow> string \<Rightarrow> string \<Rightarrow> CfgKV \<Rightarrow> bool" where
  "replaces ut cur line kv \<longleftrightarrow> \<not> kv_done kv \<and> ut_equals ut cur (kv_section kv) \<and> CfgLineIsKey ut line (kv_key kv)"

fun replace_first :: "Util \<Rightarrow> string \<Rightarrow> string \<Rightarrow> CfgKV list \<Rightarrow> (CfgKV \<times> CfgKV list) option" where
  "replace_first ut cur line [] = None"
| "replace_first ut cur line (kv # kvs) =
     (if replaces ut cur line kv then Some (kv, kv\<lparr>kv_done := True\<rparr> # kvs)
      else map_option (\<lambda>(k, ks). (k, kv # ks)) (replace_first ut cur line kvs))"

definition copy_line :: "Util \<Rightarrow> string \<Rightarrow> string \<times> CfgKV list \<times> CfgBuf \<Rightarrow> string \<times> CfgKV list \<times> CfgBuf" where
  "copy_line ut line = (\<lambda>(cur, kvs, out).
     case section_of line of
       Some name \<Rightarrow> (case CfgFlushSection ut cur kvs out of (kvs', out') \<Rightarrow> (name, kvs', add_line out' line))
     | None \<Rightarrow>
         (case (if cur = [] then None else replace_first ut cur line kvs) of
            Some (kv, kvs') \<Rightarrow> (cur, kvs', CfgBuf_EmitKV out kv)
          | None \<Rightarrow> (cur, kvs, add_line out line)))"

fun append_missing :: "Util \<Rightarrow> nat list \<Rightarrow> CfgKV list \<Rightarrow> CfgBuf \<Rightarrow> CfgKV list \<times> CfgBuf" where
  "append_missing ut [] kvs out = (kvs, out)"
| "append_missing ut (i # is) kvs out =
     (if kv_done (kvs ! i) then append_missing ut is kvs out
      else
        let sec = kv_section (kvs ! i);
            out1 = CfgBuf_AddN (CfgBuf_AddN (CfgBuf_AddN out (CHR 0x0A # ''['')) sec) ('']'' @ [CHR 0x0A])
        in case flush_kvs (\<lambda>kv. ut_equals ut (kv_section kv) sec) (drop i kvs) out1 of
             (ks, out2) \<Rightarrow> append_missing ut is (take i kvs @ ks) out2)"

definition written :: "Util \<Rightarrow> CfgKV list \<Rightarrow> string \<Rightarrow> CfgKV list \<times> CfgBuf" where
  "written ut kvs old =
     (case fold (copy_line ut) (file_lines (takeWhile (\<lambda>c. c \<noteq> CHR 0x00) old)) ([], kvs, \<lparr>cb_text = [], cb_cap = 0\<rparr>) of
        (cur, kvs1, out1) \<Rightarrow>
          (case CfgFlushSection ut cur kvs1 out1 of (kvs2, out2) \<Rightarrow> append_missing ut [0..<length kvs] kvs2 out2))"

text \<open>The new content of the file, with the state; \<open>old\<close> is None when the file cannot be read.\<close>

definition WriteConfigFile :: "Util \<Rightarrow> string option \<Rightarrow> App \<Rightarrow> string \<times> App" where
  "WriteConfigFile ut old a =
     (cb_text (snd (written ut (launcher_settings a) (case old of None \<Rightarrow> [] | Some text \<Rightarrow> text))),
      a\<lparr>app_config := (app_config a)\<lparr>keyboard_players :=
          uint (km_keyboard_controls (bn_keys (app_bindings a)) AND 3)\<rparr>\<rparr>)"

section \<open>The buffer never overflows\<close>

definition buf_ok :: "CfgBuf \<Rightarrow> bool" where
  "buf_ok b \<longleftrightarrow> (cb_text b = [] \<or> length (cb_text b) < cb_cap b)"

lemma CfgBuf_AddN_text [simp]: "cb_text (CfgBuf_AddN b s) = cb_text b @ s"
  by (simp add: CfgBuf_AddN_def Let_def)

lemma CfgBuf_AddN_room: "length (cb_text (CfgBuf_AddN b s)) < cb_cap (CfgBuf_AddN b s)"
  by (simp add: CfgBuf_AddN_def Let_def)

lemma EmitKV_text [simp]: "cb_text (CfgBuf_EmitKV b kv) = cb_text b @ emit_kv kv"
  by (simp add: CfgBuf_EmitKV_def emit_kv_def)

lemma add_line_text [simp]: "cb_text (add_line b l) = cb_text b @ l @ [CHR 0x0A]"
  by (simp add: add_line_def)

section \<open>Every setting is written\<close>

text \<open>\<open>kvs\<close> are the settings \<open>kvs0\<close> with marks, and a marked one is in the text.\<close>

definition tracks :: "CfgKV list \<Rightarrow> CfgKV list \<Rightarrow> string \<Rightarrow> bool" where
  "tracks kvs0 kvs t \<longleftrightarrow>
     list_all2 (\<lambda>k0 k. k\<lparr>kv_done := False\<rparr> = k0 \<and> (kv_done k \<longrightarrow> sublist (emit_kv k0) t)) kvs0 kvs"

lemma emit_unmarked: "k\<lparr>kv_done := False\<rparr> = k0 \<Longrightarrow> emit_kv k = emit_kv k0"
  by (auto simp: emit_kv_def)

lemma sublist_more: "sublist x t \<Longrightarrow> sublist x (t @ y)"
  by (metis append.assoc sublist_def)

lemma tracks_more: "tracks kvs0 kvs t \<Longrightarrow> tracks kvs0 kvs (t @ x)"
  unfolding tracks_def by (rule list_all2_mono, assumption) (auto intro: sublist_more)

lemma tracks_flush: "tracks kvs0 kvs (cb_text out) \<Longrightarrow> flush_kvs p kvs out = (kvs', out') \<Longrightarrow>
    tracks kvs0 kvs' (cb_text out') \<and> (\<exists>x. cb_text out' = cb_text out @ x)"
proof (induction p kvs out arbitrary: kvs0 kvs' rule: flush_kvs.induct)
  case (1 p out)
  then show ?case by simp
next
  case (2 p kv kvs out)
  obtain k0 ks0 where kvs0: "kvs0 = k0 # ks0" "kv\<lparr>kv_done := False\<rparr> = k0" "tracks ks0 kvs (cb_text out)"
    and d: "kv_done kv \<longrightarrow> sublist (emit_kv k0) (cb_text out)"
    using "2.prems"(1) by (auto simp: tracks_def list_all2_Cons2)
  show ?case
  proof (cases "\<not> kv_done kv \<and> p kv")
    case True
    obtain ks' where f: "flush_kvs p kvs (CfgBuf_EmitKV out kv) = (ks', out')"
      using "2.prems"(2) True by (auto split: prod.splits)
    have "tracks ks0 kvs (cb_text (CfgBuf_EmitKV out kv))" using kvs0(3) tracks_more by simp
    from "2.IH"(1) [OF True this f] obtain x where ih: "tracks ks0 ks' (cb_text out')"
      "cb_text out' = cb_text out @ emit_kv k0 @ x" using emit_unmarked [OF kvs0(2)] by auto
    have "sublist (emit_kv k0) (cb_text out')" unfolding ih(2) by (rule sublist_appendI)
    with ih kvs0 "2.prems"(2) True f show ?thesis by (auto simp: tracks_def)
  next
    case False
    obtain ks' where f: "flush_kvs p kvs out = (ks', out')" using "2.prems"(2) False by (auto split: prod.splits)
    from "2.IH"(2) [OF False kvs0(3) f] obtain x where ih: "tracks ks0 ks' (cb_text out')"
      "cb_text out' = cb_text out @ x" by auto
    have "kv_done kv \<longrightarrow> sublist (emit_kv k0) (cb_text out')"
      using d ih(2) by (auto intro: sublist_more)
    with ih kvs0 "2.prems"(2) False f show ?thesis by (auto simp: tracks_def)
  qed
qed

lemma tracks_flush_section:
  "tracks kvs0 kvs (cb_text out) \<Longrightarrow> CfgFlushSection ut sec kvs out = (kvs', out') \<Longrightarrow> tracks kvs0 kvs' (cb_text out')"
  using tracks_flush by (auto simp: CfgFlushSection_def split: if_splits)

lemma replace_first_tracks:
  "tracks kvs0 kvs t \<Longrightarrow> replace_first ut cur line kvs = Some (kv, kvs') \<Longrightarrow> tracks kvs0 kvs' (t @ emit_kv kv)"
proof (induction kvs arbitrary: kvs0 kvs')
  case (Cons k kvs)
  obtain k0 ks0 where kvs0: "kvs0 = k0 # ks0" "k\<lparr>kv_done := False\<rparr> = k0" "tracks ks0 kvs t"
    and d: "kv_done k \<longrightarrow> sublist (emit_kv k0) t"
    using Cons.prems(1) by (auto simp: tracks_def list_all2_Cons2)
  show ?case
  proof (cases "replaces ut cur line k")
    case True
    have "tracks ks0 kvs (t @ emit_kv k)" using kvs0(3) by (rule tracks_more)
    with True Cons.prems(2) kvs0 emit_unmarked [OF kvs0(2)] show ?thesis
      by (auto simp: tracks_def)
  next
    case False
    then obtain ks' where r: "replace_first ut cur line kvs = Some (kv, ks')" "kvs' = k # ks'"
      using Cons.prems(2) by auto
    have "kv_done k \<longrightarrow> sublist (emit_kv k0) (t @ emit_kv kv)"
      using d by (auto intro: sublist_more)
    with Cons.IH [OF kvs0(3) r(1)] r kvs0 show ?thesis by (simp add: tracks_def)
  qed
qed simp

lemma copy_line_tracks:
  assumes "tracks kvs0 kvs (cb_text out)" "copy_line ut line (cur, kvs, out) = (cur', kvs', out')"
  shows "tracks kvs0 kvs' (cb_text out')"
proof (cases "section_of line")
  case (Some name)
  obtain ks o1 where f: "CfgFlushSection ut cur kvs out = (ks, o1)" by force
  with tracks_flush_section [OF assms(1) f] assms(2) Some show ?thesis by (auto simp: copy_line_def tracks_more)
next
  case None
  then show ?thesis using assms replace_first_tracks [OF assms(1)]
    by (cases "if cur = [] then None else replace_first ut cur line kvs")
      (auto simp: copy_line_def tracks_more split: if_splits)
qed

lemma copy_lines_track:
  "tracks kvs0 kvs (cb_text out) \<Longrightarrow> fold (copy_line ut) ls (cur, kvs, out) = (cur', kvs', out') \<Longrightarrow>
     tracks kvs0 kvs' (cb_text out')"
proof (induction ls arbitrary: cur kvs out)
  case (Cons l ls)
  obtain c k o1 where l: "copy_line ut l (cur, kvs, out) = (c, k, o1)" by (metis prod_cases3)
  show ?case using Cons.IH [OF copy_line_tracks [OF Cons.prems(1) l], of c] Cons.prems(2) l by simp
qed simp

lemma tracks_split: "tracks kvs0 kvs t \<Longrightarrow> tracks (take i kvs0) (take i kvs) t \<and> tracks (drop i kvs0) (drop i kvs) t"
  by (auto simp: tracks_def intro: list_all2_takeI list_all2_dropI)

lemma tracks_join: "tracks as bs t \<Longrightarrow> tracks cs ds t \<Longrightarrow> tracks (as @ cs) (bs @ ds) t"
  by (simp add: tracks_def list_all2_appendI)

lemma flush_keeps_done: "flush_kvs p kvs out = (kvs', out') \<Longrightarrow>
    length kvs' = length kvs \<and> (\<forall>i < length kvs. kv_done (kvs' ! i) = (kv_done (kvs ! i) \<or> p (kvs ! i)))"
  by (induction p kvs out arbitrary: kvs' rule: flush_kvs.induct)
    (force simp: nth_Cons split: if_splits prod.splits nat.splits)+

lemma append_missing_tracks:
  assumes "\<And>s. ut_equals ut s s"
  shows "tracks kvs0 kvs (cb_text out) \<Longrightarrow> \<forall>i \<in> set is. i < length kvs \<Longrightarrow>
     append_missing ut is kvs out = (kvs', out') \<Longrightarrow>
     tracks kvs0 kvs' (cb_text out') \<and> length kvs' = length kvs \<and>
     (\<forall>i < length kvs. kv_done (kvs ! i) \<or> i \<in> set is \<longrightarrow> kv_done (kvs' ! i))"
proof (induction "is" arbitrary: kvs out)
  case (Cons i "is")
  show ?case
  proof (cases "kv_done (kvs ! i)")
    case True
    with Cons show ?thesis by auto
  next
    case False
    let ?sec = "kv_section (kvs ! i)"
    let ?out1 = "CfgBuf_AddN (CfgBuf_AddN (CfgBuf_AddN out (CHR 0x0A # ''['')) ?sec) ('']'' @ [CHR 0x0A])"
    obtain ks out2 where f: "flush_kvs (\<lambda>kv. ut_equals ut (kv_section kv) ?sec) (drop i kvs) ?out1 = (ks, out2)"
      by force
    have t1: "tracks kvs0 kvs (cb_text ?out1)"
      using tracks_more [OF Cons.prems(1)] by simp
    from tracks_flush [OF conjunct2 [OF tracks_split [OF t1, of i]] f] obtain x
      where x: "tracks (drop i kvs0) ks (cb_text out2)" "cb_text out2 = cb_text ?out1 @ x" by auto
    have "tracks (take i kvs0) (take i kvs) (cb_text out2)"
      unfolding x(2) by (rule tracks_more) (use tracks_split [OF t1] in blast)
    from tracks_join [OF this x(1)] have t2: "tracks kvs0 (take i kvs @ ks) (cb_text out2)" by simp
    have i: "i < length kvs" using Cons.prems(2) by simp
    note fk = flush_keeps_done [OF f]
    have len: "length (take i kvs @ ks) = length kvs" using fk i by simp
    have d: "kv_done ((take i kvs @ ks) ! j) " if "j < length kvs" "kv_done (kvs ! j) \<or> j = i" for j
    proof (cases "j < i")
      case True
      with that i show ?thesis by (simp add: nth_append)
    next
      case False
      then have "j - i < length (drop i kvs)" "drop i kvs ! (j - i) = kvs ! j" using that by simp_all
      then show ?thesis using fk that False i assms by (auto simp: nth_append)
    qed
    have "append_missing ut is (take i kvs @ ks) out2 = (kvs', out')"
      using Cons.prems(3) False f by (simp add: Let_def)
    from Cons.IH [OF t2 _ this] Cons.prems(2) len d show ?thesis by auto
  qed
qed simp

lemma written_tracks:
  assumes "\<And>s. ut_equals ut s s" "\<forall>kv \<in> set kvs. \<not> kv_done kv" "written ut kvs old = (kvs', out')"
  shows "tracks kvs kvs' (cb_text out') \<and> (\<forall>i < length kvs. kv_done (kvs' ! i))"
proof -
  let ?b = "\<lparr>cb_text = [], cb_cap = 0\<rparr>" and ?ls = "file_lines (takeWhile (\<lambda>c. c \<noteq> CHR 0x00) old)"
  have 0: "tracks kvs kvs (cb_text ?b)"
    using assms(2) by (auto simp: tracks_def list_all2_conv_all_nth)
  obtain cur kvs1 out1 where 1: "fold (copy_line ut) ?ls ([], kvs, ?b) = (cur, kvs1, out1)" by (metis prod_cases3)
  obtain kvs2 out2 where 2: "CfgFlushSection ut cur kvs1 out1 = (kvs2, out2)" by force
  have t2: "tracks kvs kvs2 (cb_text out2)" by (rule tracks_flush_section [OF copy_lines_track [OF 0 1] 2])
  then have len: "length kvs2 = length kvs" by (simp add: tracks_def list_all2_lengthD)
  have "append_missing ut [0..<length kvs] kvs2 out2 = (kvs', out')"
    using assms(3) 1 2 by (simp add: written_def)
  from append_missing_tracks [OF assms(1) t2 _ this] len show ?thesis by auto
qed



section \<open>The other lines stay\<close>

definition newline :: "string \<Rightarrow> string" where
  "newline l = l @ [CHR 0x0A]"

definition holds_lines :: "string list \<Rightarrow> string \<Rightarrow> bool" where
  "holds_lines ls t \<longleftrightarrow> (\<exists>ps. t = concat ps \<and> subseq (map newline ls) ps)"

lemma holds_more: "holds_lines ls t \<Longrightarrow> holds_lines ls (t @ x)"
proof -
  assume "holds_lines ls t"
  then obtain ps where "t = concat ps" "subseq (map newline ls) ps" by (auto simp: holds_lines_def)
  then have "t @ x = concat (ps @ [x])" "subseq (map newline ls) (ps @ [x])" by (auto intro: subseq_rev_drop_many)
  then show ?thesis unfolding holds_lines_def by blast
qed

lemma holds_line: "holds_lines ls t \<Longrightarrow> holds_lines (ls @ [l]) (t @ newline l)"
proof -
  assume "holds_lines ls t"
  then obtain ps where "t = concat ps" "subseq (map newline ls) ps" by (auto simp: holds_lines_def)
  then have "t @ newline l = concat (ps @ [newline l])" "subseq (map newline (ls @ [l])) (ps @ [newline l])"
    by (auto intro: list_emb_append_mono)
  then show ?thesis unfolding holds_lines_def by blast
qed

definition foreign :: "Util \<Rightarrow> CfgKV list \<Rightarrow> string \<Rightarrow> bool" where
  "foreign ut kvs l \<longleftrightarrow> section_of l \<noteq> None \<or> (\<forall>kv \<in> set kvs. \<not> CfgLineIsKey ut l (kv_key kv))"

lemma tracks_keys: "tracks kvs0 kvs t \<Longrightarrow> k \<in> set kvs \<Longrightarrow> \<exists>k0 \<in> set kvs0. kv_key k = kv_key k0"
proof -
  assume t: "tracks kvs0 kvs t" and "k \<in> set kvs"
  then obtain i where i: "i < length kvs" "kvs ! i = k" by (auto simp: in_set_conv_nth)
  with t have "i < length kvs0" "k\<lparr>kv_done := False\<rparr> = kvs0 ! i"
    by (auto simp: tracks_def list_all2_conv_all_nth)
  then show ?thesis by (metis CfgKV.select_convs(2) CfgKV.surjective CfgKV.update_convs(4) nth_mem)
qed

lemma replace_first_key: "replace_first ut cur l kvs = Some (kv, kvs') \<Longrightarrow> kv \<in> set kvs \<and> CfgLineIsKey ut l (kv_key kv)"
  by (induction kvs arbitrary: kvs') (auto simp: replaces_def split: if_splits)

lemma flush_grows: "flush_kvs p kvs out = (kvs', out') \<Longrightarrow> \<exists>x. cb_text out' = cb_text out @ x"
  by (induction p kvs out arbitrary: kvs' rule: flush_kvs.induct) (fastforce split: if_splits prod.splits)+

lemma flush_section_grows: "CfgFlushSection ut sec kvs out = (kvs', out') \<Longrightarrow> \<exists>x. cb_text out' = cb_text out @ x"
  using flush_grows by (auto simp: CfgFlushSection_def split: if_splits)

lemma copy_line_holds:
  assumes "tracks kvs0 kvs (cb_text out)" "holds_lines ls (cb_text out)"
    "copy_line ut l (cur, kvs, out) = (cur', kvs', out')"
  shows "holds_lines (if foreign ut kvs0 l then ls @ [l] else ls) (cb_text out')"
proof (cases "section_of l")
  case (Some name)
  obtain ks o1 where f: "CfgFlushSection ut cur kvs out = (ks, o1)" by force
  then obtain x where "cb_text o1 = cb_text out @ x"
    using flush_section_grows by blast
  then have "holds_lines (ls @ [l]) (cb_text (add_line o1 l))"
    using holds_line [OF holds_more [OF assms(2), of x]] by (simp add: newline_def)
  with Some f assms(3) show ?thesis by (simp add: copy_line_def foreign_def)
next
  case None
  show ?thesis
  proof (cases "if cur = [] then None else replace_first ut cur l kvs")
    case None
    then have "out' = add_line out l" using \<open>section_of l = None\<close> assms(3) by (simp add: copy_line_def)
    with holds_line [OF assms(2), of l] holds_more [OF assms(2), of "newline l"] show ?thesis
      by (simp add: newline_def)
  next
    case (Some r)
    then obtain kv where r: "replace_first ut cur l kvs = Some (kv, kvs')" "out' = CfgBuf_EmitKV out kv"
      using \<open>section_of l = None\<close> assms(3) by (cases r) (auto simp: copy_line_def split: if_splits)
    then have "\<not> foreign ut kvs0 l"
      using replace_first_key [OF r(1)] tracks_keys [OF assms(1)] \<open>section_of l = None\<close> by (force simp: foreign_def)
    with r holds_more [OF assms(2)] show ?thesis by simp
  qed
qed

lemma copy_lines_hold:
  "tracks kvs0 kvs (cb_text out) \<Longrightarrow> holds_lines ls0 (cb_text out) \<Longrightarrow>
     fold (copy_line ut) ls (cur, kvs, out) = (cur', kvs', out') \<Longrightarrow>
     holds_lines (ls0 @ filter (foreign ut kvs0) ls) (cb_text out')"
proof (induction ls arbitrary: ls0 cur kvs out)
  case (Cons l ls)
  obtain c k o1 where l: "copy_line ut l (cur, kvs, out) = (c, k, o1)" by (metis prod_cases3)
  then have "fold (copy_line ut) ls (c, k, o1) = (cur', kvs', out')" using Cons.prems(3) by simp
  from Cons.IH [OF copy_line_tracks [OF Cons.prems(1) l] copy_line_holds [OF Cons.prems(1,2) l] this]
  show ?case by (cases "foreign ut kvs0 l") simp_all
qed simp

lemma append_missing_grows: "append_missing ut is kvs out = (kvs', out') \<Longrightarrow> \<exists>x. cb_text out' = cb_text out @ x"
proof (induction "is" arbitrary: kvs out)
  case (Cons i "is")
  show ?case using Cons by (fastforce simp: Let_def split: if_splits prod.splits dest!: flush_grows)
qed simp



section \<open>A commented default hides the saved value\<close>

definition lower :: "char \<Rightarrow> nat" where
  "lower c = (let n = of_char c in if 65 \<le> n \<and> n \<le> 90 then n + 32 else n)"

text \<open>What the names of the framework's comparisons say.\<close>

definition ignores_case :: "Util \<Rightarrow> bool" where
  "ignores_case ut \<longleftrightarrow>
     ut_equals ut = (\<lambda>s t. map lower s = map lower t) \<and>
     ut_starts ut = (\<lambda>s p. if map lower (take (length p) s) = map lower p then Some (drop (length p) s) else None)"

lemma replace_first_none: "(\<And>kv. kv \<in> set kvs \<Longrightarrow> \<not> replaces ut cur l kv) \<Longrightarrow> replace_first ut cur l kvs = None"
  by (induction kvs) auto

lemma scale_lines:
  "file_lines (takeWhile (\<lambda>c. c \<noteq> CHR 0x00) (''[Graphics]'' @ [CHR 0x0A] @ ''#WindowScale = 2'' @ [CHR 0x0A] @
     ''WindowScale = 4'' @ [CHR 0x0A])) = [''[Graphics]'', ''#WindowScale = 2'', ''WindowScale = 4'']"
  by (simp add: file_lines.simps cut_line_def)

lemma scale_keys:
  assumes "ignores_case ut"
  shows "\<not> CfgLineIsKey ut ''WindowScale = 4'' ''Widescreen''" "\<not> CfgLineIsKey ut ''WindowScale = 4'' ''LinearFiltering''"
    "CfgLineIsKey ut ''#WindowScale = 2'' ''WindowScale''"
  using assms by (simp_all add: CfgLineIsKey_def ignores_case_def lower_def is_blank_def)

lemma graphics_sections:
  assumes "ignores_case ut"
  shows "ut_equals ut ''Graphics'' ''Graphics''" "\<not> ut_equals ut ''Graphics'' ''Sound''"
    "\<not> ut_equals ut ''Graphics'' ''GamepadMap''" "\<not> ut_equals ut ''Graphics'' ''General''"
  using assms by (simp_all add: ignores_case_def lower_def)

lemma scale_headers:
  "section_of ''[Graphics]'' = Some ''Graphics''" "section_of ''#WindowScale = 2'' = None"
  "section_of ''WindowScale = 4'' = None"
  by (simp_all add: section_of_def is_blank_def)

text \<open>
  A key that is commented out before its active line takes the saved value, and the active line
  with the old value stays behind it: the file that should save the window scale of the launcher
  ends with the scale it had before, which the parser then takes.
\<close>

lemma saved_value_is_hidden:
  assumes "ignores_case ut"
  shows "\<exists>rest. fst (WriteConfigFile ut
      (Some (''[Graphics]'' @ [CHR 0x0A] @ ''#WindowScale = 2'' @ [CHR 0x0A] @ ''WindowScale = 4'' @ [CHR 0x0A])) a) =
    ''[Graphics]'' @ [CHR 0x0A] @
    ''WindowScale = '' @ decimal (if window_scale (app_config a) \<noteq> 0 then unat (window_scale (app_config a)) else 3) @
      [CHR 0x0A] @
    ''WindowScale = 4'' @ [CHR 0x0A] @ rest"
proof -
  let ?v = "decimal (if window_scale (app_config a) \<noteq> 0 then unat (window_scale (app_config a)) else 3)"
  let ?kv = "setting ''Graphics'' ''WindowScale'' ?v"
  let ?b = "\<lparr>cb_text = [], cb_cap = 0\<rparr>"
  obtain ks where ks: "launcher_settings a = ?kv # ks"
    and "list_all (\<lambda>k. (kv_section k = ''Graphics'' \<longrightarrow> kv_key k = ''Widescreen'' \<or> kv_key k = ''LinearFiltering'') \<and>
      kv_section k \<in> {''Graphics'', ''Sound'', ''GamepadMap'', ''General''}) ks"
    by (simp add: launcher_settings_def setting_def Let_def)
  then have rest: "\<And>k. k \<in> set ks \<Longrightarrow>
      kv_section k = ''Graphics'' \<longrightarrow> kv_key k = ''Widescreen'' \<or> kv_key k = ''LinearFiltering''"
      "\<And>k. k \<in> set ks \<Longrightarrow> kv_section k \<in> {''Graphics'', ''Sound'', ''GamepadMap'', ''General''}"
    by (simp_all add: list_all_iff)
  have "replaces ut ''Graphics'' ''#WindowScale = 2'' ?kv"
    using scale_keys(3) [OF assms] graphics_sections(1) [OF assms] by (simp add: replaces_def setting_def)
  then have 1: "replace_first ut ''Graphics'' ''#WindowScale = 2'' (?kv # ks) = Some (?kv, ?kv\<lparr>kv_done := True\<rparr> # ks)"
    by simp
  have "\<not> replaces ut ''Graphics'' ''WindowScale = 4'' k" if "k \<in> set (?kv\<lparr>kv_done := True\<rparr> # ks)" for k
    using that rest scale_keys(1,2) [OF assms] graphics_sections [OF assms]
    by (fastforce simp: replaces_def)
  then have 2: "replace_first ut ''Graphics'' ''WindowScale = 4'' (?kv\<lparr>kv_done := True\<rparr> # ks) = None"
    by (rule replace_first_none)
  have "unat (window_scale (app_config a)) < 256" using unsigned_less [of "window_scale (app_config a)", where 'a = nat] by simp
  then have "length ?v \<le> 3" by (intro decimal_length) simp
  then have e: "emit_kv ?kv = ''WindowScale = '' @ ?v @ [CHR 0x0A]"
    by (simp add: emit_kv_def setting_def)
  obtain kvs1 out1 where f: "fold (copy_line ut) [''[Graphics]'', ''#WindowScale = 2'', ''WindowScale = 4'']
      ([], launcher_settings a, ?b) = (''Graphics'', kvs1, out1)"
    and t: "cb_text out1 = ''[Graphics]'' @ [CHR 0x0A] @ emit_kv ?kv @ ''WindowScale = 4'' @ [CHR 0x0A]"
    by (simp add: copy_line_def scale_headers CfgFlushSection_def ks 1 2 del: replace_first.simps)
  obtain kvs2 out2 where g: "CfgFlushSection ut ''Graphics'' kvs1 out1 = (kvs2, out2)" by force
  obtain kvs3 out3 where h: "append_missing ut [0..<length (launcher_settings a)] kvs2 out2 = (kvs3, out3)" by force
  obtain x y where "cb_text out3 = cb_text out1 @ x @ y"
    using flush_section_grows [OF g] append_missing_grows [OF h] by auto
  then show ?thesis
    unfolding WriteConfigFile_def option.case written_def scale_lines f prod.case g h fst_conv snd_conv
    by (simp add: t e)
qed

end
