(* ===== verification/Coop_Patch.thy ===== *)
theory Coop_Patch
  imports Prelude
begin

text \<open>
  The co-op patch of \<^verbatim>\<open>src/coop_patch.c\<close>: an IPS file is applied to a checked stock ROM and the
  result, checked again, is installed under the output path; and the routines that stand for code of
  the hack that cannot be recompiled as it is.

  Files are a map from paths to bytes.  The checksum of \<^verbatim>\<open>crc32.h\<close>, the processor's bus and the
  dispatcher of the recompiled code are not in this repository and are parameters, as are the
  operations of the file system that can fail.
\<close>

section \<open>IPS files\<close>

definition kStockRomSize :: nat where "kStockRomSize = 524288"
definition kCoopRomSize :: nat where "kCoopRomSize = 1048576"
definition kStockRomCrc32 :: u32 where "kStockRomCrc32 = 0xB19ED489"
definition kCoopRomCrc32 :: u32 where "kCoopRomCrc32 = 0x05D84AE1"
definition kMaxRom :: nat where "kMaxRom = 16777216"

datatype patch_error =
    Missing_path | Not_ips | No_eof | Truncated_header | Truncated_rle | Bad_rle_range | Bad_data_range
  | No_stock string | Not_smw | No_memory | No_patch string | Unexpected_rom | Path_too_long
  | No_create string | No_finish string | No_install string

text \<open>The image grows with zeros to \<open>needed\<close> bytes; \<open>alloc\<close> tells whether \<open>realloc\<close> succeeds.\<close>

definition EnsureCapacity :: "(nat \<Rightarrow> bool) \<Rightarrow> u8 list \<Rightarrow> nat \<Rightarrow> u8 list option" where
  "EnsureCapacity alloc rom needed =
     (if needed \<le> length rom then Some rom
      else if needed > kMaxRom then None
      else if \<not> alloc needed then None
      else Some (rom @ replicate (needed - length rom) 0))"

definition overwrite :: "u8 list \<Rightarrow> nat \<Rightarrow> u8 list \<Rightarrow> u8 list" where
  "overwrite rom offset bs = take offset rom @ bs @ drop (offset + length bs) rom"

definition be2 :: "u8 list \<Rightarrow> nat \<Rightarrow> nat" where
  "be2 ips pos = unat (ips ! pos) * 256 + unat (ips ! (pos + 1))"

definition be3 :: "u8 list \<Rightarrow> nat \<Rightarrow> nat" where
  "be3 ips pos = unat (ips ! pos) * 65536 + unat (ips ! (pos + 1)) * 256 + unat (ips ! (pos + 2))"

definition at_eof :: "u8 list \<Rightarrow> nat \<Rightarrow> bool" where
  "at_eof ips pos \<longleftrightarrow> take 3 (drop pos ips) = [0x45, 0x4F, 0x46]"

text \<open>
  The records from position \<open>pos\<close>.  The lengths are of 64 bits, so \<open>offset + length\<close> does not wrap.
\<close>

function ips_records :: "(nat \<Rightarrow> bool) \<Rightarrow> u8 list \<Rightarrow> nat \<Rightarrow> u8 list \<Rightarrow> patch_error + u8 list" where
  "ips_records alloc ips pos rom =
     (if pos + 3 > length ips then Inl No_eof
      else if at_eof ips pos then Inr rom
      else if pos + 5 > length ips then Inl Truncated_header
      else
        let offset = be3 ips pos; n = be2 ips (pos + 3); p = pos + 5
        in if n = 0 then
             if p + 3 > length ips then Inl Truncated_rle
             else
               let m = be2 ips p; v = ips ! (p + 2)
               in if m = 0 then Inl Bad_rle_range
                  else case EnsureCapacity alloc rom (offset + m) of
                         None \<Rightarrow> Inl Bad_rle_range
                       | Some rom' \<Rightarrow> ips_records alloc ips (p + 3) (overwrite rom' offset (replicate m v))
           else if p + n > length ips then Inl Bad_data_range
           else case EnsureCapacity alloc rom (offset + n) of
                  None \<Rightarrow> Inl Bad_data_range
                | Some rom' \<Rightarrow> ips_records alloc ips (p + n) (overwrite rom' offset (take n (drop p ips))))"
  by pat_completeness auto
termination by (relation "measure (\<lambda>(alloc, ips, pos, rom). length ips - pos)") auto

declare ips_records.simps [simp del]

definition ApplyIps :: "(nat \<Rightarrow> bool) \<Rightarrow> u8 list \<Rightarrow> u8 list \<Rightarrow> patch_error + u8 list" where
  "ApplyIps alloc rom ips =
     (if length ips < 8 \<or> take 5 ips \<noteq> [0x50, 0x41, 0x54, 0x43, 0x48] then Inl Not_ips
      else ips_records alloc ips 5 rom)"

section \<open>Preparing the patched ROM\<close>

type_synonym files = "string \<Rightarrow> u8 list option"

text \<open>What can fail: reading a path, memory, creating, writing (how much gets out), closing, removing, renaming.\<close>

record Disk =
  dk_readable :: "string \<Rightarrow> bool"
  dk_alloc :: "nat \<Rightarrow> bool"
  dk_create :: bool
  dk_written :: nat
  dk_close :: bool
  dk_remove :: "string \<Rightarrow> bool"
  dk_rename :: bool

definition ReadFile :: "Disk \<Rightarrow> files \<Rightarrow> string \<Rightarrow> u8 list option" where
  "ReadFile d fs path = (if dk_readable d path then fs path else None)"

definition remove_file :: "Disk \<Rightarrow> files \<Rightarrow> string \<Rightarrow> files" where
  "remove_file d fs path = (if dk_remove d path then fs(path := None) else fs)"

definition IsValidCoopOutput :: "(u8 list \<Rightarrow> u32) \<Rightarrow> Disk \<Rightarrow> files \<Rightarrow> string \<Rightarrow> bool" where
  "IsValidCoopOutput crc d fs path =
     (case ReadFile d fs path of None \<Rightarrow> False | Some bs \<Rightarrow> length bs = kCoopRomSize \<and> crc bs = kCoopRomCrc32)"

text \<open>The stock image without the 512 bytes of a copier header.\<close>

definition stock_rom :: "(u8 list \<Rightarrow> u32) \<Rightarrow> u8 list \<Rightarrow> patch_error + u8 list" where
  "stock_rom crc raw =
     (let header = (if length raw = kStockRomSize + 512 then 512 else 0)
      in if length raw - header \<noteq> kStockRomSize \<or> crc (drop header raw) \<noteq> kStockRomCrc32 then Inl Not_smw
         else Inr (take kStockRomSize (drop header raw)))"

definition patched_rom :: "(u8 list \<Rightarrow> u32) \<Rightarrow> Disk \<Rightarrow> files \<Rightarrow> string \<Rightarrow> string \<Rightarrow> patch_error + u8 list" where
  "patched_rom crc d fs stock_path ips_path =
     (case ReadFile d fs stock_path of
        None \<Rightarrow> Inl (No_stock stock_path)
      | Some raw \<Rightarrow>
          (case stock_rom crc raw of
             Inl e \<Rightarrow> Inl e
           | Inr rom \<Rightarrow>
               if \<not> dk_alloc d kStockRomSize then Inl No_memory
               else case ReadFile d fs ips_path of
                      None \<Rightarrow> Inl (No_patch ips_path)
                    | Some ips \<Rightarrow>
                        (case ApplyIps (dk_alloc d) rom ips of
                           Inl e \<Rightarrow> Inl e
                         | Inr rom' \<Rightarrow>
                             if length rom' \<noteq> kCoopRomSize \<or> crc rom' \<noteq> kCoopRomCrc32 then Inl Unexpected_rom
                             else Inr rom')))"

definition install_rom :: "Disk \<Rightarrow> files \<Rightarrow> string \<Rightarrow> u8 list \<Rightarrow> patch_error option \<times> files" where
  "install_rom d fs output rom =
     (let tmp = output @ ''.tmp''
      in if length tmp \<ge> 1200 then (Some Path_too_long, fs)
         else if \<not> dk_create d then (Some (No_create output), fs)
         else
           let fs1 = fs(tmp \<mapsto> take (dk_written d) rom)
           in if \<not> (min (dk_written d) (length rom) = length rom \<and> dk_close d)
              then (Some (No_finish output), remove_file d fs1 tmp)
              else
                let fs2 = remove_file d fs1 output
                in if \<not> dk_rename d then (Some (No_install output), remove_file d fs2 tmp)
                   else (None, fs2(output := fs2 tmp, tmp := None)))"

text \<open>The error is None when a valid image is under the output path; a missing path is None.\<close>

definition CoopPreparePatchedRom ::
  "(u8 list \<Rightarrow> u32) \<Rightarrow> Disk \<Rightarrow> files \<Rightarrow> string option \<Rightarrow> string option \<Rightarrow> string option \<Rightarrow> patch_error option \<times> files" where
  "CoopPreparePatchedRom crc d fs stock ips output =
     (case (stock, ips, output) of
        (Some stock_path, Some ips_path, Some output_path) \<Rightarrow>
          if IsValidCoopOutput crc d fs output_path then (None, fs)
          else (case patched_rom crc d fs stock_path ips_path of
                  Inl e \<Rightarrow> (Some e, fs)
                | Inr rom \<Rightarrow> install_rom d fs output_path rom)
      | _ \<Rightarrow> (Some Missing_path, fs))"

section \<open>Bounds\<close>

lemma EnsureCapacity_length:
  "EnsureCapacity alloc rom needed = Some rom' \<Longrightarrow>
     needed \<le> length rom' \<and> length rom \<le> length rom' \<and> length rom' \<le> max (length rom) kMaxRom"
  by (auto simp: EnsureCapacity_def split: if_splits)

lemma length_overwrite [simp]: "offset + length bs \<le> length rom \<Longrightarrow> length (overwrite rom offset bs) = length rom"
  by (simp add: overwrite_def)

lemma ips_records_cases:
  obtains (stop) "ips_records alloc ips pos rom \<in>
        Inl ` {No_eof, Truncated_header, Truncated_rle, Bad_rle_range, Bad_data_range} \<union> {Inr rom}"
    | (rle) r where "\<not> pos + 3 > length ips" "\<not> at_eof ips pos" "\<not> pos + 5 > length ips" "be2 ips (pos + 3) = 0"
        "\<not> pos + 5 + 3 > length ips" "be2 ips (pos + 5) \<noteq> 0"
        "EnsureCapacity alloc rom (be3 ips pos + be2 ips (pos + 5)) = Some r"
        "ips_records alloc ips pos rom = ips_records alloc ips (pos + 5 + 3)
           (overwrite r (be3 ips pos) (replicate (be2 ips (pos + 5)) (ips ! (pos + 5 + 2))))"
    | (data) r where "\<not> pos + 3 > length ips" "\<not> at_eof ips pos" "\<not> pos + 5 > length ips" "be2 ips (pos + 3) \<noteq> 0"
        "\<not> pos + 5 + be2 ips (pos + 3) > length ips"
        "EnsureCapacity alloc rom (be3 ips pos + be2 ips (pos + 3)) = Some r"
        "ips_records alloc ips pos rom = ips_records alloc ips (pos + 5 + be2 ips (pos + 3))
           (overwrite r (be3 ips pos) (take (be2 ips (pos + 3)) (drop (pos + 5) ips)))"
proof -
  note def = ips_records.simps [of alloc ips pos rom]
  show ?thesis
  proof (cases "pos + 3 > length ips \<or> at_eof ips pos \<or> pos + 5 > length ips")
    case True
    then show ?thesis using stop by (auto simp: def)
  next
    case False
    note ok = this
    show ?thesis
    proof (cases "be2 ips (pos + 3) = 0")
      case True
      note rl = this
      show ?thesis
      proof (cases "pos + 5 + 3 > length ips \<or> be2 ips (pos + 5) = 0 \<or>
          EnsureCapacity alloc rom (be3 ips pos + be2 ips (pos + 5)) = None")
        case True
        then show ?thesis using ok rl by (intro stop) (auto simp: def Let_def)
      next
        case False
        then obtain r where "EnsureCapacity alloc rom (be3 ips pos + be2 ips (pos + 5)) = Some r" by auto
        with False ok rl show ?thesis by (intro rle [of r]) (auto simp: def Let_def)
      qed
    next
      case False
      note rl = this
      show ?thesis
      proof (cases "pos + 5 + be2 ips (pos + 3) > length ips \<or>
          EnsureCapacity alloc rom (be3 ips pos + be2 ips (pos + 3)) = None")
        case True
        then show ?thesis using ok rl by (intro stop) (auto simp: def Let_def)
      next
        case False
        then obtain r where "EnsureCapacity alloc rom (be3 ips pos + be2 ips (pos + 3)) = Some r" by auto
        with False ok rl show ?thesis by (intro data [of r]) (auto simp: def Let_def)
      qed
    qed
  qed
qed

lemma ips_records_bounded:
  "case ips_records alloc ips pos rom of
     Inl e \<Rightarrow> e \<in> {No_eof, Truncated_header, Truncated_rle, Bad_rle_range, Bad_data_range}
   | Inr rom' \<Rightarrow> length rom \<le> length rom' \<and> length rom' \<le> max (length rom) kMaxRom"
proof (induction "length ips - pos" arbitrary: pos rom rule: less_induct)
  case less
  show ?case
  proof (cases rule: ips_records_cases [of alloc ips pos rom])
    case stop
    then show ?thesis by auto
  next
    case (rle r)
    note len = EnsureCapacity_length [OF rle(7)]
    let ?rom = "overwrite r (be3 ips pos) (replicate (be2 ips (pos + 5)) (ips ! (pos + 5 + 2)))"
    have "length ?rom = length r" using len by (intro length_overwrite) simp
    with less.hyps [of "pos + 5 + 3" ?rom] rle(3) len show ?thesis
      unfolding rle(8) by (force split: sum.splits)
  next
    case (data r)
    note len = EnsureCapacity_length [OF data(6)]
    let ?rom = "overwrite r (be3 ips pos) (take (be2 ips (pos + 3)) (drop (pos + 5) ips))"
    have "length (take (be2 ips (pos + 3)) (drop (pos + 5) ips)) = be2 ips (pos + 3)" using data(5) by simp
    then have "length ?rom = length r" using len by (intro length_overwrite) simp
    with less.hyps [of "pos + 5 + be2 ips (pos + 3)" ?rom] data(3) len show ?thesis
      unfolding data(7) by (force split: sum.splits)
  qed
qed

section \<open>What a patch means\<close>

text \<open>A record as data: bytes at an offset, or a number of copies of one byte.\<close>

datatype IpsRecord = Ips_data nat "u8 list" | Ips_rle nat nat u8

fun record_offset :: "IpsRecord \<Rightarrow> nat" where
  "record_offset (Ips_data off bs) = off"
| "record_offset (Ips_rle off n v) = off"

fun record_bytes :: "IpsRecord \<Rightarrow> u8 list" where
  "record_bytes (Ips_data off bs) = bs"
| "record_bytes (Ips_rle off n v) = replicate n v"

definition record_ok :: "IpsRecord \<Rightarrow> bool" where
  "record_ok r \<longleftrightarrow> record_offset r \<noteq> 0x454F46 \<and> 0 < length (record_bytes r) \<and> length (record_bytes r) < 65536 \<and>
     record_offset r + length (record_bytes r) \<le> kMaxRom"

definition enc2 :: "nat \<Rightarrow> u8 list" where
  "enc2 n = [of_nat (n div 256), of_nat n]"

definition enc3 :: "nat \<Rightarrow> u8 list" where
  "enc3 n = [of_nat (n div 65536), of_nat (n div 256), of_nat n]"

fun encode_record :: "IpsRecord \<Rightarrow> u8 list" where
  "encode_record (Ips_data off bs) = enc3 off @ enc2 (length bs) @ bs"
| "encode_record (Ips_rle off n v) = enc3 off @ enc2 0 @ enc2 n @ [v]"

definition encode_ips :: "IpsRecord list \<Rightarrow> u8 list" where
  "encode_ips recs = [0x50, 0x41, 0x54, 0x43, 0x48] @ concat (map encode_record recs) @ [0x45, 0x4F, 0x46]"

text \<open>The meaning of a record: the image reaches to its end, filled with zeros, and holds its bytes.\<close>

definition apply_record :: "u8 list \<Rightarrow> IpsRecord \<Rightarrow> u8 list" where
  "apply_record rom r =
     (let needed = record_offset r + length (record_bytes r)
      in overwrite (rom @ replicate (needed - length rom) 0) (record_offset r) (record_bytes r))"

lemma length_be [simp]: "length (enc2 n) = 2" "length (enc3 n) = 3"
  by (simp_all add: enc2_def enc3_def)

lemma unat_byte: "unat (of_nat n :: u8) = n mod 256"
  by (simp add: unsigned_of_nat take_bit_eq_mod)

lemma be2_enc2: "n < 65536 \<Longrightarrow> be2 (pre @ enc2 n @ rest) (length pre) = n"
  by (simp add: be2_def enc2_def nth_append unat_byte)

lemma be3_enc3: "n < 16777216 \<Longrightarrow> be3 (pre @ enc3 n @ rest) (length pre) = n"
proof -
  assume n: "n < 16777216"
  have "n div 256 div 256 = n div 65536" by (simp add: div_mult2_eq [symmetric])
  then have "n = n div 65536 * 65536 + (n div 256 mod 256) * 256 + n mod 256"
    using div_mult_mod_eq [of n 256] div_mult_mod_eq [of "n div 256" 256] by linarith
  moreover have "n div 65536 < 256" using n by (simp add: less_mult_imp_div_less)
  ultimately show ?thesis by (simp add: be3_def enc3_def nth_append unat_byte)
qed

lemma eof_enc3: "n < 16777216 \<Longrightarrow> at_eof (pre @ enc3 n @ rest) (length pre) \<Longrightarrow> n = 0x454F46"
proof -
  assume n: "n < 16777216" and e: "at_eof (pre @ enc3 n @ rest) (length pre)"
  then have "enc3 n = [0x45, 0x4F, 0x46]" by (simp add: at_eof_def enc3_def)
  with be3_enc3 [OF n, of "[]" "[]"] show ?thesis by (simp add: be3_def)
qed

lemma EnsureCapacity_ok:
  "\<forall>n. alloc n \<Longrightarrow> needed \<le> kMaxRom \<Longrightarrow>
     EnsureCapacity alloc rom needed = Some (rom @ replicate (needed - length rom) 0)"
  by (simp add: EnsureCapacity_def)

lemma record_step:
  assumes "\<forall>n. alloc n" "record_ok r" "ips = pre @ encode_record r @ rest"
  shows "ips_records alloc ips (length pre) rom =
    ips_records alloc ips (length pre + length (encode_record r)) (apply_record rom r)"
proof (cases r)
  case (Ips_data off bs)
  have off: "off < 16777216" and b: "length bs \<noteq> 0" "length bs < 65536" "off + length bs \<le> kMaxRom" "off \<noteq> 0x454F46"
    using assms(2) by (auto simp: record_ok_def kMaxRom_def Ips_data simp flip: length_greater_0_conv)
  have ips: "ips = pre @ enc3 off @ (enc2 (length bs) @ bs @ rest)" "ips = (pre @ enc3 off) @ enc2 (length bs) @ (bs @ rest)"
    using assms(3) Ips_data by simp_all
  have 1: "be3 ips (length pre) = off" "\<not> at_eof ips (length pre)"
    using be3_enc3 [OF off, of pre] eof_enc3 [OF off, of pre] b(4) unfolding ips(1) by auto
  have 2: "be2 ips (length pre + 3) = length bs"
    using be2_enc2 [OF b(2), of "pre @ enc3 off"] unfolding ips(2) by simp
  have "take (length bs) (drop (length pre + 5) ips) = bs" "length ips = length pre + 5 + length bs + length rest"
    using assms(3) Ips_data by (simp_all add: enc3_def enc2_def)
  then show ?thesis
    by (subst ips_records.simps) (use 1 2 b in \<open>simp add: Let_def EnsureCapacity_ok [OF assms(1)] apply_record_def Ips_data
      add.assoc\<close>)
next
  case (Ips_rle off n v)
  have off: "off < 16777216" and b: "n \<noteq> 0" "n < 65536" "off + n \<le> kMaxRom" "off \<noteq> 0x454F46"
    using assms(2) by (auto simp: record_ok_def kMaxRom_def Ips_rle)
  have ips: "ips = pre @ enc3 off @ (enc2 0 @ enc2 n @ [v] @ rest)" "ips = (pre @ enc3 off) @ enc2 0 @ (enc2 n @ [v] @ rest)"
    "ips = (pre @ enc3 off @ enc2 0) @ enc2 n @ ([v] @ rest)"
    using assms(3) Ips_rle by simp_all
  have 1: "be3 ips (length pre) = off" "\<not> at_eof ips (length pre)"
    using be3_enc3 [OF off, of pre] eof_enc3 [OF off, of pre] b(4) unfolding ips(1) by auto
  have 2: "be2 ips (length pre + 3) = 0" using be2_enc2 [of 0 "pre @ enc3 off"] unfolding ips(2) by simp
  have 3: "be2 ips (length pre + 5) = n"
    using be2_enc2 [OF b(2), of "pre @ enc3 off @ enc2 0"] unfolding ips(3) by simp
  have 4: "ips ! (7 + length pre) = v" "ips ! (length pre + 7) = v" "length ips = length pre + 8 + length rest"
    using assms(3) Ips_rle by (simp_all add: enc3_def enc2_def nth_append)
  have 5: "length pre + 5 + 2 = length pre + 7" "length pre + 5 + 3 = length pre + 8" by simp_all
  show ?thesis
    by (subst ips_records.simps) (use 1 2 3 4 b in \<open>simp add: Let_def EnsureCapacity_ok [OF assms(1)] apply_record_def
      Ips_rle 5\<close>)
qed

lemma records_applied:
  assumes "\<forall>n. alloc n" "\<forall>r \<in> set recs. record_ok r"
    "ips = pre @ concat (map encode_record recs) @ [0x45, 0x4F, 0x46] @ junk"
  shows "ips_records alloc ips (length pre) rom = Inr (foldl apply_record rom recs)"
  using assms(2,3)
proof (induction recs arbitrary: pre rom)
  case Nil
  then show ?case by (subst ips_records.simps) (simp add: at_eof_def)
next
  case (Cons r recs)
  have "ips_records alloc ips (length pre) rom =
      ips_records alloc ips (length (pre @ encode_record r)) (apply_record rom r)"
    using record_step [OF assms(1), of r ips pre] Cons.prems by simp
  also have "\<dots> = Inr (foldl apply_record (apply_record rom r) recs)"
    by (rule Cons.IH) (use Cons.prems in simp_all)
  finally show ?case by simp
qed

lemma magic_length: "length [0x50, 0x41, 0x54, 0x43, 0x48 :: u8] = 5"
  by simp

text \<open>
  C30. A patch file means its records: for every list of records of one to 65535 bytes within 16 MiB,
  none of them at the offset that spells EOF, the bytes of the file (with anything behind the end
  marker) turn an image into the one that the records describe, applied in order, the image growing
  with zeros to hold them.
\<close>

theorem ips_roundtrip:
  assumes "\<forall>n. alloc n" "\<forall>r \<in> set recs. record_ok r"
  shows "ApplyIps alloc rom (encode_ips recs @ junk) = Inr (foldl apply_record rom recs)"
  using records_applied [OF assms refl, where pre = "[0x50, 0x41, 0x54, 0x43, 0x48]" and junk = junk and rom = rom]
  unfolding magic_length by (simp add: ApplyIps_def encode_ips_def)

text \<open>
  Whatever bytes the patch file holds, applying it ends, with an error or with an image that has
  not shrunk and that is no larger than 16 MiB or the image before.
\<close>

lemma ips_bounded:
  "case ApplyIps alloc rom ips of
     Inl e \<Rightarrow> e \<in> {Not_ips, No_eof, Truncated_header, Truncated_rle, Bad_rle_range, Bad_data_range}
   | Inr rom' \<Rightarrow> length rom \<le> length rom' \<and> length rom' \<le> max (length rom) (16 * 1024 * 1024)"
proof -
  show ?thesis
    using ips_records_bounded [where pos = 5 and alloc = alloc and ips = ips and rom = rom]
    by (auto simp: ApplyIps_def kMaxRom_def split: sum.splits)
qed

section \<open>Installing\<close>

lemma patched_rom_valid:
  "patched_rom crc d fs stock ips = Inr rom \<Longrightarrow> length rom = kCoopRomSize \<and> crc rom = kCoopRomCrc32"
  by (auto simp: patched_rom_def split: option.splits sum.splits if_splits)

text \<open>
  C31. Preparing the ROM is safe for the files: when it reports success the output is an image of
  1 MiB with the checksum of the hack; when it reports a failure the output is what it was, or it is
  gone because the last step, the renaming, failed; and no file but the output and its temporary
  changes, whichever operation fails on the way.
\<close>

theorem prepare_rom_safe:
  assumes "CoopPreparePatchedRom crc d fs (Some stock) (Some ips) (Some output) = (err, fs')"
  shows "(case err of
      None \<Rightarrow> (\<exists>bs. fs' output = Some bs \<and> length bs = kCoopRomSize \<and> crc bs = kCoopRomCrc32)
    | Some e \<Rightarrow> fs' output = fs output \<or> (e = No_install output \<and> fs' output = None)) \<and>
    (\<forall>path. path \<noteq> output \<and> path \<noteq> output @ ''.tmp'' \<longrightarrow> fs' path = fs path)"
proof -
  have tmp: "output @ ''.tmp'' \<noteq> output" by simp
  consider (reuse) "IsValidCoopOutput crc d fs output" "err = None" "fs' = fs"
    | (bad) e where "err = Some e" "fs' = fs"
    | (install) rom where "patched_rom crc d fs stock ips = Inr rom" "install_rom d fs output rom = (err, fs')"
    using assms by (auto simp: CoopPreparePatchedRom_def split: if_splits sum.splits)
  then have "case err of
      None \<Rightarrow> (\<exists>bs. fs' output = Some bs \<and> length bs = kCoopRomSize \<and> crc bs = kCoopRomCrc32)
    | Some e \<Rightarrow> fs' output = fs output \<or> (e = No_install output \<and> fs' output = None)"
  proof cases
    case install
    from patched_rom_valid [OF install(1)] install(2) tmp show ?thesis
      by (auto simp: install_rom_def remove_file_def Let_def min_def split: if_splits)
  qed (auto simp: IsValidCoopOutput_def ReadFile_def split: option.splits if_splits)
  moreover have "fs' path = fs path" if "path \<noteq> output" "path \<noteq> output @ ''.tmp''" for path
    using assms that
    by (auto simp: CoopPreparePatchedRom_def install_rom_def remove_file_def Let_def split: if_splits sum.splits)
  ultimately show ?thesis by blast
qed

end
