(* ===== verification/Coop_Hle.thy ===== *)
theory Coop_Hle
  imports Guest_Cpu
begin

unbundle bit_operations_syntax

text \<open>
  The routines of \<^verbatim>\<open>src/coop_patch.c\<close> that stand for code of the hack: the game mode wrapper, the wait
  for the blank, the return adapters and the loops that the interpreter must own.

  The processor is the record of \<open>Guest_Cpu\<close>.  The bus, the write of the accumulator, the
  dispatcher and the interpreter belong to the framework and are the parameter \<open>Framework\<close>; what
  they do to processor and memory is arbitrary.
\<close>

datatype RecompReturn = RECOMP_RETURN_NORMAL | RECOMP_RETURN_OTHER nat

text \<open>\<open>'m\<close> is everything outside the registers.\<close>

type_synonym 'm machine = "CpuState \<times> 'm"

record 'm Framework =
  fw_read8 :: "'m machine \<Rightarrow> u8 \<Rightarrow> u16 \<Rightarrow> u8 \<times> 'm machine"
  fw_read16 :: "'m machine \<Rightarrow> u8 \<Rightarrow> u16 \<Rightarrow> u16 \<times> 'm machine"
  fw_write8 :: "'m machine \<Rightarrow> u8 \<Rightarrow> u16 \<Rightarrow> u8 \<Rightarrow> 'm machine"
  fw_write_a :: "u8 \<Rightarrow> CpuState \<Rightarrow> CpuState"
  fw_call_pc :: "'m machine \<Rightarrow> u32 \<Rightarrow> u32 \<Rightarrow> RecompReturn \<times> 'm machine"
  fw_pc_paired :: "'m machine \<Rightarrow> u32 \<Rightarrow> nat \<Rightarrow> RecompReturn \<times> 'm machine"
  fw_dispatch_tail :: "'m machine \<Rightarrow> u32 \<Rightarrow> u32 \<Rightarrow> u16 \<Rightarrow> bool \<Rightarrow> RecompReturn \<times> 'm machine"
  fw_run_call_frame :: "'m machine \<Rightarrow> u32 \<Rightarrow> u32 \<Rightarrow> nat \<Rightarrow> RecompReturn \<times> 'm machine"
  fw_bounce_exclusions :: "u32 list \<Rightarrow> 'm \<Rightarrow> 'm"

text \<open>Accumulator and index registers of 8 bits.\<close>

definition set_m1x1 :: "CpuState \<Rightarrow> CpuState" where
  "set_m1x1 c = c\<lparr>cpu_P := cpu_P c OR 0x30, cpu_m_flag := True, cpu_x_flag := True,
     cpu_X := cpu_X c AND 0xFF, cpu_Y := cpu_Y c AND 0xFF\<rparr>"

definition on_cpu :: "(CpuState \<Rightarrow> CpuState) \<Rightarrow> 'm machine \<Rightarrow> 'm machine" where
  "on_cpu f s = (f (fst s), snd s)"

definition set_pb :: "u8 \<Rightarrow> 'm machine \<Rightarrow> 'm machine" where
  "set_pb b = on_cpu (\<lambda>c. c\<lparr>cpu_PB := b\<rparr>)"

definition HleCoopGameModeWrapper :: "'m Framework \<Rightarrow> 'm machine \<Rightarrow> RecompReturn \<times> 'm machine" where
  "HleCoopGameModeWrapper fw s =
     (let s0 = on_cpu set_m1x1 s;
          (mode, s1) = fw_read8 fw s0 (cpu_DB (fst s0)) 0x0100;
          (handler, s2) = fw_read16 fw s1 0x80 (0x9329 + ucast mode * 2);
          saved_pb = cpu_PB (fst s2);
          (result, s3) = fw_call_pc fw (set_pb 0x80 s2) (0x800000 OR ucast handler) 0x8084CC
      in if result \<noteq> RECOMP_RETURN_NORMAL then (result, set_pb saved_pb s3)
         else
           let (result2, s4) = fw_pc_paired fw (set_pb 0x90 (on_cpu set_m1x1 s3)) 0x908051 2
           in if result2 \<noteq> RECOMP_RETURN_NORMAL then (result2, set_pb saved_pb s4)
              else (RECOMP_RETURN_NORMAL, set_pb 0 s4))"

definition HleCoopWaitForBlank :: "'m Framework \<Rightarrow> 'm machine \<Rightarrow> RecompReturn \<times> 'm machine" where
  "HleCoopWaitForBlank fw s =
     (let (hv, s1) = fw_read8 fw s (cpu_DB (fst s)) 0x4212;
          hvbjoy_at_exit = hv AND 0x3F;
          s2 = on_cpu (fw_write_a fw 0x81) s1;
          z = (0x81 AND hvbjoy_at_exit = 0);
          s3 = on_cpu (\<lambda>c. c\<lparr>cpu_flag_N := False, cpu_flag_V := False, cpu_flag_Z := z,
                 cpu_P := (cpu_P c AND NOT 0xC2) OR (if z then 0x02 else 0)\<rparr>) s2;
          s4 = fw_write8 fw s3 (cpu_DB (fst s3)) 0x4200 0x81
      in (RECOMP_RETURN_NORMAL, on_cpu (\<lambda>c. c\<lparr>cpu_S := cpu_S c + 3\<rparr>) s4))"

definition HleCoopReturnToHost :: "'m machine \<Rightarrow> RecompReturn \<times> 'm machine" where
  "HleCoopReturnToHost s =
     (RECOMP_RETURN_NORMAL, on_cpu (\<lambda>c. c\<lparr>cpu_P := cpu_P c OR 0x20, cpu_m_flag := True, cpu_PB := 0\<rparr>) s)"

definition HleCoopLevelInitConditional :: "'m Framework \<Rightarrow> u32 \<Rightarrow> 'm machine \<Rightarrow> RecompReturn \<times> 'm machine" where
  "HleCoopLevelInitConditional fw continuation s =
     (let (flags, s1) = fw_read8 fw s (cpu_DB (fst s)) 0x1928;
          v = flags AND 0x10;
          s2 = on_cpu (fw_write_a fw v) s1;
          s3 = on_cpu (\<lambda>c. c\<lparr>cpu_flag_Z := (v = 0), cpu_flag_N := False,
                 cpu_P := (cpu_P c AND NOT 0x82) OR (if v = 0 then 0x02 else 0)\<rparr>) s2
      in if v \<noteq> 0 then (RECOMP_RETURN_NORMAL, on_cpu (\<lambda>c. (set_m1x1 c)\<lparr>cpu_S := cpu_S c + 3\<rparr>) s3)
         else
           let saved_pb = cpu_PB (fst s3);
               (result, s4) = fw_pc_paired fw (set_pb 0x1F s3) continuation 3
           in (result, set_pb saved_pb s4))"

definition HleCoopLevelInitConditionalAfterA7D9 :: "'m Framework \<Rightarrow> 'm machine \<Rightarrow> RecompReturn \<times> 'm machine" where
  "HleCoopLevelInitConditionalAfterA7D9 fw = HleCoopLevelInitConditional fw 0x1FAC9B"

definition HleCoopLevelInitConditionalAfterA84D :: "'m Framework \<Rightarrow> 'm machine \<Rightarrow> RecompReturn \<times> 'm machine" where
  "HleCoopLevelInitConditionalAfterA84D fw = HleCoopLevelInitConditional fw 0x1FB04A"

definition HleCoopVramUploadLoop :: "'m Framework \<Rightarrow> 'm machine \<Rightarrow> RecompReturn \<times> 'm machine" where
  "HleCoopVramUploadLoop fw s =
     fw_dispatch_tail fw s 0x008726 0x008726 (cpu_S (fst s)) (cpu_host_return_valid (fst s))"

definition HleCoopProcessNormalSprites :: "'m Framework \<Rightarrow> 'm machine \<Rightarrow> RecompReturn \<times> 'm machine" where
  "HleCoopProcessNormalSprites fw s = fw_run_call_frame fw s 0x01808C 0x00986C 3"

definition HleCoopInitializeLevelTilemaps :: "'m Framework \<Rightarrow> 'm machine \<Rightarrow> RecompReturn \<times> 'm machine" where
  "HleCoopInitializeLevelTilemaps fw s =
     fw_run_call_frame fw (fst s, fw_bounce_exclusions fw [0x1FA5CF, 0x1FA7D9, 0x1FA84D] (snd s)) 0x05809E 0x00A5AB 3"

section \<open>The contract of the wrapper\<close>

text \<open>The state in which guest code that expects 8-bit registers may run.\<close>

definition m1x1 :: "CpuState \<Rightarrow> bool" where
  "m1x1 c \<longleftrightarrow> cpu_P c AND 0x30 = 0x30 \<and> cpu_m_flag c \<and> cpu_x_flag c \<and> cpu_X c < 256 \<and> cpu_Y c < 256"

lemma and_ff_less: "x AND 0xFF < (256 :: u16)"
proof -
  have "x AND 0xFF \<le> 0xFF" by (rule word_and_le1)
  also have "(0xFF :: u16) < 256" by simp
  finally show ?thesis .
qed

lemma set_m1x1_ok [simp]: "m1x1 (set_m1x1 c)"
proof -
  have "(p OR q) AND q = q" for p q :: u8
    by (rule bit_word_eqI) (auto simp: bit_simps)
  then show ?thesis by (simp add: m1x1_def set_m1x1_def and_ff_less)
qed

lemma set_pb_simps [simp]: "cpu_PB (fst (set_pb b s)) = b" "m1x1 (fst (set_pb b s)) = m1x1 (fst s)"
  "fst (on_cpu f s) = f (fst s)" "snd (on_cpu f s) = snd s" "snd (set_pb b s) = snd s"
  by (simp_all add: set_pb_def on_cpu_def m1x1_def)

text \<open>
  The wrapper runs guest code twice at most, each time with 8-bit registers and in the bank of the
  code, and it ends in bank 0 when both runs end normally and in the bank before otherwise.
\<close>

lemma game_mode_wrapper_bank:
  assumes "\<And>s bank a v s'. fw_read8 fw s bank a = (v, s') \<Longrightarrow> fst s' = fst s"
    and "\<And>s bank a v s'. fw_read16 fw s bank a = (v, s') \<Longrightarrow> fst s' = fst s"
    and "HleCoopGameModeWrapper fw s = (result, s')"
  shows "cpu_PB (fst s') = (if result = RECOMP_RETURN_NORMAL then 0 else cpu_PB (fst s))"
    "\<exists>s2 (handler :: u16) result3 s3. m1x1 (fst s2) \<and> cpu_PB (fst s2) = 0x80 \<and>
       fw_call_pc fw s2 (0x800000 OR ucast handler) 0x8084CC = (result3, s3) \<and>
       (result3 \<noteq> RECOMP_RETURN_NORMAL \<longrightarrow> result = result3) \<and>
       (result3 = RECOMP_RETURN_NORMAL \<longrightarrow> (\<exists>s4. m1x1 (fst s4) \<and> cpu_PB (fst s4) = 0x90 \<and> snd s4 = snd s3 \<and>
          fst (fw_pc_paired fw s4 0x908051 2) = result))"
proof -
  let ?s0 = "on_cpu set_m1x1 s"
  obtain mode s1 where 1: "fw_read8 fw ?s0 (cpu_DB (fst ?s0)) 0x0100 = (mode, s1)" by (rule prod.exhaust)
  obtain handler s2 where 2: "fw_read16 fw s1 0x80 (0x9329 + ucast mode * 2) = (handler, s2)" by (rule prod.exhaust)
  obtain result3 s3 where 3: "fw_call_pc fw (set_pb 0x80 s2) (0x800000 OR ucast handler) 0x8084CC = (result3, s3)" by (rule prod.exhaust)
  obtain result4 s4 where 4: "fw_pc_paired fw (set_pb 0x90 (on_cpu set_m1x1 s3)) 0x908051 2 = (result4, s4)" by (rule prod.exhaust)
  have c: "fst s2 = set_m1x1 (fst s)" using assms(1) [OF 1] assms(2) [OF 2] by simp
  then have pb: "cpu_PB (fst s2) = cpu_PB (fst s)" by (simp add: set_m1x1_def)
  have pb80: "cpu_PB (fst (set_pb 0x80 s2)) = 0x80" by simp
  note def = assms(3) [unfolded HleCoopGameModeWrapper_def Let_def 1 prod.case 2 3 4]
  show "cpu_PB (fst s') = (if result = RECOMP_RETURN_NORMAL then 0 else cpu_PB (fst s))"
    using def pb by (auto split: if_splits)
  have 5: "m1x1 (fst (set_pb 0x80 s2))" using c by simp
  have 6: "result3 \<noteq> RECOMP_RETURN_NORMAL \<longrightarrow> result = result3" "result3 = RECOMP_RETURN_NORMAL \<longrightarrow> result = result4"
    using def by (auto split: if_splits)
  have 7: "\<exists>s5. m1x1 (fst s5) \<and> cpu_PB (fst s5) = 0x90 \<and> snd s5 = snd s3 \<and>
      fst (fw_pc_paired fw s5 0x908051 2) = result4"
    by (rule exI [of _ "set_pb 0x90 (on_cpu set_m1x1 s3)"]) (simp add: 4)
  show "\<exists>s2 (handler :: u16) result3 s3. m1x1 (fst s2) \<and> cpu_PB (fst s2) = 0x80 \<and>
       fw_call_pc fw s2 (0x800000 OR ucast handler) 0x8084CC = (result3, s3) \<and>
       (result3 \<noteq> RECOMP_RETURN_NORMAL \<longrightarrow> result = result3) \<and>
       (result3 = RECOMP_RETURN_NORMAL \<longrightarrow> (\<exists>s4. m1x1 (fst s4) \<and> cpu_PB (fst s4) = 0x90 \<and> snd s4 = snd s3 \<and>
          fst (fw_pc_paired fw s4 0x908051 2) = result))"
    by (rule exI [of _ "set_pb 0x80 s2"], rule exI [of _ handler], rule exI [of _ result3], rule exI [of _ s3])
      (use 3 pb80 5 6 7 in blast)
qed

end
