(* ===== verification/Fire_Stream.thy ===== *)
theory Fire_Stream
  imports C_Strings
begin

unbundle bit_operations_syntax

text \<open>
  The projectile pool of \<^verbatim>\<open>src/lua_fire_stream.c\<close>: up to 256 fireballs, each driven by the game's own
  sprite routine, which an interpreter runs on a private copy of the memory; only some of what it
  wrote goes back to the game.

  The interpreter of the framework (\<^verbatim>\<open>snes/interp816.h\<close>) is a parameter.  Its only access to memory is
  the two bus functions it is given, so what one instruction does is a tree of bus accesses that ends
  in the new processor state.  The PPU's registers are a parameter of the drawing.
\<close>

section \<open>State\<close>

definition POOL_SIZE :: nat where "POOL_SIZE = 256"
definition WRAM_SIZE :: nat where "WRAM_SIZE = 0x20000"

definition fire_fields :: "nat list" where
  "fire_fields = [0x170b, 0x1715, 0x171f, 0x1729, 0x1733, 0x173d, 0x1747, 0x1751, 0x175b, 0x1765, 0x176f, 0x1779]"

record Projectile =
  pr_field :: "u8 list"
  pr_tile :: u8
  pr_attr :: u8
  pr_size :: u8
  pr_sx :: u8
  pr_sy :: u8
  pr_drawn :: bool
  pr_age :: nat

definition no_projectile :: Projectile where
  "no_projectile = \<lparr>pr_field = replicate 12 0, pr_tile = 0, pr_attr = 0, pr_size = 0, pr_sx = 0, pr_sy = 0,
     pr_drawn = False, pr_age = 0\<rparr>"

record Fire =
  fi_pool :: "Projectile list"
  fi_shadow :: mem
  fi_dirty :: "nat \<Rightarrow> bool"
  fi_attached :: bool
  fi_live :: mem
  fi_cart :: "u8 list"
  fi_rate :: nat
  fi_credit :: nat
  fi_peak :: nat
  fi_active :: nat
  fi_ticks :: u32
  fi_spawned :: u64
  fi_dropped :: u64
  fi_collisions :: u64
  fi_opcodes :: u64
  fi_error :: "string option"

section \<open>The bus\<close>

text \<open>A fault is reported once; the text fits into the buffer of 192 bytes.\<close>

definition fault_at :: "string \<Rightarrow> u32 \<Rightarrow> Fire \<Rightarrow> Fire" where
  "fault_at operation address s =
     (if fi_error s = None
      then s\<lparr>fi_error := Some (take 191 (''unsupported native fireball '' @ operation @ '' at $'' @ hex6 (unat address)))\<rparr>
      else s)"

definition ram_address :: "u32 \<Rightarrow> nat option" where
  "ram_address a =
     (if 0x7e0000 \<le> a \<and> a \<le> 0x7fffff then Some (unat (a - 0x7e0000))
      else if a AND 0x7f0000 < 0x400000 \<and> a AND 0xffff < 0x2000 then Some (unat (a AND 0x1fff))
      else None)"

definition read_bus :: "u32 \<Rightarrow> Fire \<Rightarrow> u8 \<times> Fire" where
  "read_bus address s =
     (case ram_address address of
        Some a \<Rightarrow> (fi_shadow s a, s)
      | None \<Rightarrow>
          let offset = unat (drop_bit 1 (address AND 0x7f0000) OR (address AND 0x7fff))
          in if 0x8000 \<le> address AND 0xffff \<and> offset < length (fi_cart s) then (fi_cart s ! offset, s)
             else (0, fault_at ''read'' address s))"

definition write_bus :: "u32 \<Rightarrow> u8 \<Rightarrow> Fire \<Rightarrow> Fire" where
  "write_bus address v s =
     (case ram_address address of
        None \<Rightarrow> fault_at ''write'' address s
      | Some a \<Rightarrow> s\<lparr>fi_shadow := (fi_shadow s)(a := v), fi_dirty := (fi_dirty s)(a := True)\<rparr>)"

definition persistent :: "nat \<Rightarrow> bool" where
  "persistent a \<longleftrightarrow>
     0x9e \<le> a \<and> a \<le> 0xef \<or> 0x14c8 \<le> a \<and> a < 0x1692 \<or> 0x16e1 \<le> a \<and> a < 0x170b \<or> 0x187b \<le> a \<and> a < 0x1887 \<or>
     0x190f \<le> a \<and> a < 0x191b \<or> 0x1fd6 \<le> a \<and> a < 0x1fee \<or> 0x0f34 \<le> a \<and> a < 0x0f3a \<or> 0x1df9 \<le> a \<and> a \<le> 0x1dfc"

section \<open>The interpreter\<close>

text \<open>The registers the stream sets and looks at; \<open>'r\<close> holds the others, zero after the \<open>memset\<close>.\<close>

record 'r Interp816 =
  in_k :: u8
  in_db :: u8
  in_pc :: u16
  in_x :: u16
  in_sp :: u16
  in_mf :: bool
  in_xf :: bool
  in_i :: bool
  in_waiting :: bool
  in_stopped :: bool
  in_rest :: 'r

datatype 'c bus = Done 'c | Read u32 "u8 \<Rightarrow> 'c bus" | Write u32 u8 "'c bus"

primrec run_bus :: "'c bus \<Rightarrow> Fire \<Rightarrow> 'c \<times> Fire" where
  "run_bus (Done c) = (\<lambda>s. (c, s))"
| "run_bus (Read a f) = (\<lambda>s. case read_bus a s of (v, s') \<Rightarrow> run_bus (f v) s')"
| "run_bus (Write a v t) = (\<lambda>s. run_bus t (write_bus a v s))"

type_synonym 'r opcode = "'r Interp816 \<Rightarrow> 'r Interp816 bus"

definition code_address :: "'r Interp816 \<Rightarrow> u32" where
  "code_address c = push_bit 16 (ucast (in_k c)) OR ucast (in_pc c)"

text \<open>The loop of \<open>update\<close> with \<open>left\<close> instructions to go; it returns the instructions counted.\<close>

fun run_routine :: "'r opcode \<Rightarrow> nat \<Rightarrow> nat \<Rightarrow> 'r Interp816 \<Rightarrow> Fire \<Rightarrow> nat \<times> 'r Interp816 \<times> Fire" where
  "run_routine op 0 i c s = (i, c, s)"
| "run_routine op (Suc left) i c s =
     (if fi_error s \<noteq> None then (i, c, s)
      else case run_bus (op c) s of
             (c', s') \<Rightarrow>
               if in_sp c' = 0x1ff \<and> in_pc c' = 0x8000 \<and> in_k c' = 2 then (i, c', s')
               else if in_waiting c' \<or> in_stopped c' then (i, c', fault_at ''wait/stop'' (code_address c') s')
               else run_routine op left (i + 1) c' s')"

definition fire_cpu :: "'r \<Rightarrow> 'r Interp816" where
  "fire_cpu rest = \<lparr>in_k = 2, in_db = 2, in_pc = 0x9b16, in_x = 9, in_sp = 0x1fd, in_mf = True, in_xf = True, in_i = True,
     in_waiting = False, in_stopped = False, in_rest = rest\<rparr>"

section \<open>Projectiles\<close>

definition live_word :: "mem \<Rightarrow> nat \<Rightarrow> nat" where
  "live_word ram a = unat (ram a) + 256 * unat (ram (a + 1))"

definition spawn_fields :: "mem \<Rightarrow> nat \<Rightarrow> nat \<Rightarrow> u8 list" where
  "spawn_fields live subframe n_new =
     (let right = (live 0x76 \<noteq> 0); offset = int (subframe * 3 div n_new);
          x = nat ((int (live_word live 0x94) + (if right then 8 + offset else - offset)) mod 65536);
          y = (live_word live 0x96 + 8) mod 65536
      in [5, of_nat y, of_nat x, of_nat (y div 256), of_nat (x div 256), 0x30, if right then 3 else 0xfd,
          0, 0, 0, 0, live 0x13f9])"

definition spawn :: "nat \<Rightarrow> nat \<Rightarrow> Fire \<Rightarrow> Fire" where
  "spawn subframe n_new s =
     (case find_index (\<lambda>p. pr_field p ! 0 = 0) (fi_pool s) of
        None \<Rightarrow> s\<lparr>fi_dropped := fi_dropped s + 1\<rparr>
      | Some i \<Rightarrow> s\<lparr>fi_pool := (fi_pool s)[i := no_projectile\<lparr>pr_field := spawn_fields (fi_live s) subframe n_new\<rparr>],
                  fi_spawned := fi_spawned s + 1\<rparr>)"

text \<open>The borrowed native slot, and what the routine left there.\<close>

definition load_slot :: "Projectile \<Rightarrow> nat \<Rightarrow> Fire \<Rightarrow> Fire" where
  "load_slot p index s =
     s\<lparr>fi_shadow := (fold (\<lambda>j m. m(fire_fields ! j + 9 := pr_field p ! j)) [0..<12] (fi_shadow s))
       (0x15e9 := 9, 0x13 := fi_live s 0x13 + of_nat index, 0x02fd := 0xf0, 0x1fe := 0xff, 0x1ff := 0x7f)\<rparr>"

definition store_slot :: "mem \<Rightarrow> Projectile \<Rightarrow> Projectile" where
  "store_slot shadow p =
     (let fs = map (\<lambda>a. shadow (a + 9)) fire_fields;
          drawn = (fs ! 0 \<noteq> 0 \<and> shadow 0x02fd < 0xf0);
          old = (pr_age p + 1 > 600)
      in \<lparr>pr_field = (if old then fs[0 := 0] else fs), pr_tile = shadow 0x02fe, pr_attr = shadow 0x02ff,
          pr_size = shadow 0x045f, pr_sx = shadow 0x02fc, pr_sy = shadow 0x02fd,
          pr_drawn = (drawn \<and> \<not> old), pr_age = pr_age p + 1\<rparr>)"

definition update_projectile :: "'r opcode \<Rightarrow> 'r \<Rightarrow> nat \<Rightarrow> Fire \<Rightarrow> Fire" where
  "update_projectile op rest index s =
     (let p = fi_pool s ! index
      in case run_routine op 20000 0 (fire_cpu rest) (load_slot p index s) of
           (n, c, s1) \<Rightarrow>
             let s2 = s1\<lparr>fi_opcodes := fi_opcodes s1 + of_nat (n + 1)\<rparr>;
                 s3 = (if n = 20000 then fault_at ''instruction limit'' (code_address c) s2 else s2)
             in s3\<lparr>fi_pool := (fi_pool s3)[index := store_slot (fi_shadow s3) p]\<rparr>)"

section \<open>Ticks\<close>

definition reset_fire :: "Fire \<Rightarrow> Fire" where
  "reset_fire s = s\<lparr>fi_pool := replicate POOL_SIZE no_projectile, fi_rate := 0, fi_credit := 0, fi_peak := 0,
     fi_active := 0, fi_ticks := 0, fi_spawned := 0, fi_dropped := 0, fi_collisions := 0, fi_opcodes := 0,
     fi_error := None\<rparr>"

definition smw_fire_stream_init :: "mem \<Rightarrow> u8 list \<Rightarrow> Fire \<Rightarrow> Fire" where
  "smw_fire_stream_init ram rom s = reset_fire (s\<lparr>fi_attached := True, fi_live := ram, fi_cart := rom\<rparr>)"

definition emit_fire :: "Fire \<Rightarrow> Fire" where
  "emit_fire s =
     (if fi_rate s \<noteq> 0 \<and> fi_live s 0x71 = 0 then
        let total = fi_credit s + fi_rate s; n_new = total div 60;
            s1 = fold (\<lambda>i. spawn i n_new) [0..<n_new] (s\<lparr>fi_credit := total mod 60\<rparr>)
        in if n_new = 0 then s1
           else s1\<lparr>fi_live := (\<lambda>m. if fi_ticks s mod 6 = 0 then m(0x1dfc := 6) else m)
                    ((fi_live s1)(0x19 := 3, 0x149c := 10))\<rparr>
      else s)"

text \<open>The projectiles in turn, until one faults.\<close>

fun update_all :: "'r opcode \<Rightarrow> 'r \<Rightarrow> nat list \<Rightarrow> Fire \<Rightarrow> Fire" where
  "update_all op rest [] s = s"
| "update_all op rest (i # is) s =
     (if pr_field (fi_pool s ! i) ! 0 = 0 then update_all op rest is s
      else
        let s1 = update_projectile op rest i s
        in if fi_error s1 \<noteq> None then s1\<lparr>fi_rate := 0\<rparr>
           else update_all op rest is
             (if pr_field (fi_pool s1 ! i) ! 0 \<noteq> 0 then s1\<lparr>fi_active := fi_active s1 + 1\<rparr> else s1))"

definition copied_back :: "Fire \<Rightarrow> nat \<Rightarrow> bool" where
  "copied_back s a \<longleftrightarrow> a < WRAM_SIZE \<and> fi_dirty s a \<and> persistent a"

definition copy_back :: "Fire \<Rightarrow> Fire" where
  "copy_back s =
     s\<lparr>fi_collisions := fi_collisions s +
         of_nat (length (filter (\<lambda>a. copied_back s a \<and> fi_live s a \<noteq> 0x21 \<and> fi_shadow s a = 0x21) [0x9e..<0xaa])),
       fi_live := (\<lambda>a. if copied_back s a then fi_shadow s a else fi_live s a)\<rparr>"

definition smw_fire_stream_tick :: "'r opcode \<Rightarrow> 'r \<Rightarrow> Fire \<Rightarrow> Fire" where
  "smw_fire_stream_tick op rest s =
     (if \<not> fi_attached s \<or> fi_error s \<noteq> None then s
      else if fi_live s 0x100 \<noteq> 0x14 \<or> fi_live s 0x109 \<noteq> 0
      then s\<lparr>fi_pool := replicate POOL_SIZE no_projectile, fi_active := 0, fi_credit := 0\<rparr>
      else if fi_live s 0x9d \<noteq> 0 \<or> fi_live s 0x13d4 \<noteq> 0 then s
      else if fi_rate s = 0 \<and> fi_active s = 0 then s
      else
        let s1 = emit_fire (s\<lparr>fi_ticks := fi_ticks s + 1\<rparr>);
            s2 = update_all op rest [0..<POOL_SIZE]
                   (s1\<lparr>fi_shadow := fi_live s1, fi_dirty := (\<lambda>a. False), fi_active := 0\<rparr>)
        in if fi_error s2 \<noteq> None then s2
           else let s3 = copy_back s2 in s3\<lparr>fi_peak := max (fi_peak s3) (fi_active s3)\<rparr>)"

section \<open>Commands\<close>

definition status_text :: "Fire \<Rightarrow> string" where
  "status_text s =
     ''rate='' @ decimal (fi_rate s) @ '' spawned='' @ decimal (unat (fi_spawned s)) @
     '' active='' @ decimal (fi_active s) @ '' peak='' @ decimal (fi_peak s) @
     '' dropped='' @ decimal (unat (fi_dropped s)) @ '' hits='' @ decimal (unat (fi_collisions s)) @
     '' ticks='' @ decimal (unat (fi_ticks s)) @ '' opcodes='' @ decimal (unat (fi_opcodes s)) @
     '' error='' @ (case fi_error s of None \<Rightarrow> [] | Some e \<Rightarrow> e)"

text \<open>Whether the command succeeded, what it wrote into the buffer, and the new state.\<close>

definition smw_fire_stream_command :: "string \<Rightarrow> string \<Rightarrow> nat \<Rightarrow> Fire \<Rightarrow> bool \<times> string option \<times> Fire" where
  "smw_fire_stream_command name args capacity s =
     (if name = ''__reset'' \<or> name = ''fire_stream_reset'' then (True, snprintf capacity ''reset'', reset_fire s)
      else if name = ''fire_stream'' then
        (case strtol args of
           (requested, Some []) \<Rightarrow>
             if requested < 0 \<or> requested > 1000
             then (False, snprintf capacity ''rate must be 0..1000 fireballs/second'', s)
             else (case fi_error s of
                     Some e \<Rightarrow> (False, snprintf capacity (e @ ''; reset the stream first''), s)
                   | None \<Rightarrow>
                       let s' = s\<lparr>fi_rate := nat requested, fi_credit := 0\<rparr>
                       in (True, snprintf capacity (status_text s'), s'))
         | _ \<Rightarrow> (False, snprintf capacity ''rate must be 0..1000 fireballs/second'', s))
      else if name = ''fire_stream_status'' then (True, snprintf capacity (status_text s), s)
      else (False, snprintf capacity (''unknown SMW command: '' @ name), s))"

section \<open>What a routine can change\<close>

text \<open>Nothing but the private memory, the marks, the fault.\<close>

definition private_change :: "Fire \<Rightarrow> Fire \<Rightarrow> bool" where
  "private_change s s' \<longleftrightarrow> s' = s\<lparr>fi_shadow := fi_shadow s', fi_dirty := fi_dirty s', fi_error := fi_error s'\<rparr>"

lemma private_refl [simp]: "private_change s s"
  by (simp add: private_change_def)

lemma private_trans: "private_change s s' \<Longrightarrow> private_change s' s'' \<Longrightarrow> private_change s s''"
  unfolding private_change_def by (cases s; cases s'; cases s'') simp

lemma private_shadow: "private_change s (s\<lparr>fi_shadow := m\<rparr>)"
  by (simp add: private_change_def)

lemma private_fault: "private_change s (fault_at operation address s)"
  by (simp add: private_change_def fault_at_def)

lemma private_read: "read_bus a s = (v, s') \<Longrightarrow> private_change s s'"
  by (auto simp: read_bus_def Let_def private_fault split: option.splits if_splits)

lemma private_write: "private_change s (write_bus a v s)"
  by (simp add: write_bus_def private_fault split: option.split) (simp add: private_change_def)

lemma private_bus: "run_bus t s = (c, s') \<Longrightarrow> private_change s s'"
proof (induction t arbitrary: s)
  case (Read a f)
  obtain v s1 where r: "read_bus a s = (v, s1)" by force
  with Read.prems have "run_bus (f v) s1 = (c, s')" by simp
  from Read.IH [OF rangeI this] private_read [OF r] show ?case by (rule private_trans [rotated])
next
  case (Write a v t)
  from Write.IH [of "write_bus a v s"] Write.prems show ?case by (auto intro: private_trans [OF private_write])
qed simp

lemma private_routine: "run_routine op left i c s = (n, c', s') \<Longrightarrow> private_change s s' \<and> n \<le> i + left"
proof (induction op left i c s rule: run_routine.induct)
  case (2 op left i c s)
  obtain c1 s1 where b: "run_bus (op c) s = (c1, s1)" by force
  note p = private_bus [OF b]
  show ?case
    using 2 b p private_trans [OF p private_fault [of s1 "''wait/stop''" "code_address c1"]] private_trans [OF p]
    by (auto split: if_splits)
qed simp

text \<open>An update changes its projectile and the counter of instructions besides.\<close>

lemma update_changes:
  obtains m d e n where "update_projectile op rest i s =
    s\<lparr>fi_shadow := m, fi_dirty := d, fi_error := e, fi_opcodes := n,
      fi_pool := (fi_pool s)[i := store_slot m (fi_pool s ! i)]\<rparr>"
proof -
  let ?p = "fi_pool s ! i"
  obtain n c s1 where r: "run_routine op 20000 0 (fire_cpu rest) (load_slot ?p i s) = (n, c, s1)"
    by (metis prod_cases3)
  have "private_change s s1"
    using private_routine [OF r] private_trans [OF private_shadow] by (auto simp: load_slot_def)
  then obtain m d e where s1: "s1 = s\<lparr>fi_shadow := m, fi_dirty := d, fi_error := e\<rparr>"
    unfolding private_change_def by blast
  define s2 where "s2 = s1\<lparr>fi_opcodes := fi_opcodes s1 + of_nat (n + 1)\<rparr>"
  define s3 where "s3 = (if n = 20000 then fault_at ''instruction limit'' (code_address c) s2 else s2)"
  have "private_change s2 s3" by (simp add: s3_def private_fault)
  then obtain m' d' e' where s3: "s3 = s2\<lparr>fi_shadow := m', fi_dirty := d', fi_error := e'\<rparr>"
    unfolding private_change_def by blast
  have "update_projectile op rest i s = s3\<lparr>fi_pool := (fi_pool s3)[i := store_slot (fi_shadow s3) ?p]\<rparr>"
    by (simp add: update_projectile_def r Let_def s2_def s3_def)
  then have "update_projectile op rest i s =
    s\<lparr>fi_shadow := m', fi_dirty := d', fi_error := e', fi_opcodes := fi_opcodes s + of_nat (n + 1),
      fi_pool := (fi_pool s)[i := store_slot m' (fi_pool s ! i)]\<rparr>"
    unfolding s3 s2_def s1 by simp
  then show ?thesis by (rule that)
qed

lemma update_all_frame:
  "fi_live (update_all op rest is s) = fi_live s \<and> fi_credit (update_all op rest is s) = fi_credit s \<and>
   fi_spawned (update_all op rest is s) = fi_spawned s \<and> fi_dropped (update_all op rest is s) = fi_dropped s \<and>
   fi_peak (update_all op rest is s) = fi_peak s \<and> fi_attached (update_all op rest is s) = fi_attached s"
proof (induction op rest "is" s rule: update_all.induct)
  case (2 op rest i "is" s)
  obtain m d e n where u: "update_projectile op rest i s =
    s\<lparr>fi_shadow := m, fi_dirty := d, fi_error := e, fi_opcodes := n,
      fi_pool := (fi_pool s)[i := store_slot m (fi_pool s ! i)]\<rparr>"
    by (rule update_changes)
  show ?case using 2 unfolding update_all.simps Let_def u by (auto split: if_splits)
qed simp

section \<open>The pool\<close>

lemma store_slot_length [simp]: "length (pr_field (store_slot m p)) = 12"
  by (simp add: store_slot_def Let_def fire_fields_def)

lemma store_slot_age: "pr_age (store_slot m p) = pr_age p + 1"
  by (simp add: store_slot_def Let_def)

lemma old_slot_free: "600 \<le> pr_age p \<Longrightarrow> pr_field (store_slot m p) ! 0 = 0"
  by (simp add: store_slot_def Let_def fire_fields_def)

text \<open>A slot that is in use is at most 600 ticks old.\<close>

definition pool_ok :: "Projectile list \<Rightarrow> bool" where
  "pool_ok ps \<longleftrightarrow> length ps = POOL_SIZE \<and>
     (\<forall>p \<in> set ps. length (pr_field p) = 12 \<and> (pr_field p ! 0 \<noteq> 0 \<longrightarrow> pr_age p \<le> 600))"

lemma pool_ok_update: "pool_ok ps \<Longrightarrow> length (pr_field p) = 12 \<Longrightarrow> (pr_field p ! 0 \<noteq> 0 \<Longrightarrow> pr_age p \<le> 600) \<Longrightarrow> pool_ok (ps[i := p])"
  by (auto simp: pool_ok_def dest!: subsetD [OF set_update_subset_insert])

lemma pool_ok_empty [simp]: "pool_ok (replicate POOL_SIZE no_projectile)"
  by (auto simp: pool_ok_def no_projectile_def)

lemma pool_ok_store: "pool_ok ps \<Longrightarrow> pool_ok (ps[i := store_slot m (ps ! i)])"
proof (rule pool_ok_update)
  show "pr_age (store_slot m (ps ! i)) \<le> 600" if "pr_field (store_slot m (ps ! i)) ! 0 \<noteq> 0"
    using that old_slot_free [of "ps ! i" m] store_slot_age [of m "ps ! i"] by linarith
qed simp_all

lemma pool_ok_spawn: "pool_ok (fi_pool s) \<Longrightarrow> pool_ok (fi_pool (spawn i n s))"
  by (auto simp: spawn_def spawn_fields_def Let_def no_projectile_def split: option.split intro!: pool_ok_update)

lemma spawn_counts:
  "fi_spawned (spawn i n s) + fi_dropped (spawn i n s) = fi_spawned s + fi_dropped s + 1"
  by (simp add: spawn_def split: option.split)

lemma spawn_frame [simp]: "fi_live (spawn i n s) = fi_live s" "fi_credit (spawn i n s) = fi_credit s"
  "fi_rate (spawn i n s) = fi_rate s" "fi_active (spawn i n s) = fi_active s" "fi_peak (spawn i n s) = fi_peak s"
  "fi_error (spawn i n s) = fi_error s" "fi_ticks (spawn i n s) = fi_ticks s" "fi_attached (spawn i n s) = fi_attached s"
  by (simp_all add: spawn_def split: option.split)

lemma spawns_frame [simp]: "fi_live (fold (\<lambda>i. spawn i n) is s) = fi_live s"
  "fi_credit (fold (\<lambda>i. spawn i n) is s) = fi_credit s"
  "fi_rate (fold (\<lambda>i. spawn i n) is s) = fi_rate s" "fi_active (fold (\<lambda>i. spawn i n) is s) = fi_active s"
  "fi_peak (fold (\<lambda>i. spawn i n) is s) = fi_peak s" "fi_error (fold (\<lambda>i. spawn i n) is s) = fi_error s"
  "fi_attached (fold (\<lambda>i. spawn i n) is s) = fi_attached s"
  by (induction "is" arbitrary: s) simp_all

lemma spawns_counts: "fi_spawned (fold (\<lambda>i. spawn i n) is s) + fi_dropped (fold (\<lambda>i. spawn i n) is s) =
    fi_spawned s + fi_dropped s + of_nat (length is)"
  by (induction "is" arbitrary: s) (simp_all add: spawn_counts add.assoc)

lemma spawns_pool: "pool_ok (fi_pool s) \<Longrightarrow> pool_ok (fi_pool (fold (\<lambda>i. spawn i n) is s))"
  by (induction "is" arbitrary: s) (simp_all add: pool_ok_spawn)

lemma emit_fire_frame [simp]: "fi_rate (emit_fire s) = fi_rate s" "fi_active (emit_fire s) = fi_active s"
  "fi_peak (emit_fire s) = fi_peak s" "fi_error (emit_fire s) = fi_error s" "fi_attached (emit_fire s) = fi_attached s"
  by (simp_all add: emit_fire_def Let_def)

lemma emit_pool: "pool_ok (fi_pool s) \<Longrightarrow> pool_ok (fi_pool (emit_fire s))"
  by (simp add: emit_fire_def Let_def spawns_pool)

lemma emit_live: "a \<notin> {0x19, 0x149c, 0x1dfc} \<Longrightarrow> fi_live (emit_fire s) a = fi_live s a"
  by (simp add: emit_fire_def Let_def)

lemma emit_counts:
  assumes "fi_rate s \<noteq> 0" "fi_live s 0x71 = 0"
  shows "fi_spawned (emit_fire s) + fi_dropped (emit_fire s) =
      fi_spawned s + fi_dropped s + of_nat ((fi_credit s + fi_rate s) div 60) \<and>
    fi_credit (emit_fire s) = (fi_credit s + fi_rate s) mod 60"
  using assms by (simp add: emit_fire_def Let_def spawns_counts)

lemma emit_credit: "fi_credit s < 60 \<Longrightarrow> fi_credit (emit_fire s) < 60"
  using emit_counts [of s] by (cases "fi_rate s \<noteq> 0 \<and> fi_live s 0x71 = 0") (auto simp: emit_fire_def)

lemma update_all_pool:
  "pool_ok (fi_pool s) \<Longrightarrow> pool_ok (fi_pool (update_all op rest is s)) \<and>
     fi_active (update_all op rest is s) \<le> fi_active s + length is \<and>
     fi_rate (update_all op rest is s) \<le> fi_rate s \<and>
     (fi_error s = None \<longrightarrow> fi_error (update_all op rest is s) \<noteq> None \<longrightarrow> fi_rate (update_all op rest is s) = 0)"
proof (induction op rest "is" s rule: update_all.induct)
  case (2 op rest i "is" s)
  obtain m d e n where u: "update_projectile op rest i s =
    s\<lparr>fi_shadow := m, fi_dirty := d, fi_error := e, fi_opcodes := n,
      fi_pool := (fi_pool s)[i := store_slot m (fi_pool s ! i)]\<rparr>"
    by (rule update_changes)
  have "pool_ok ((fi_pool s)[i := store_slot m (fi_pool s ! i)])" by (rule pool_ok_store [OF 2(3)])
  with 2 show ?case unfolding update_all.simps Let_def u by (force split: if_splits)
qed simp

section \<open>Properties\<close>

definition fire_ok :: "Fire \<Rightarrow> bool" where
  "fire_ok s \<longleftrightarrow> pool_ok (fi_pool s) \<and> fi_rate s \<le> 1000 \<and> fi_credit s < 60 \<and>
     fi_active s \<le> POOL_SIZE \<and> fi_peak s \<le> POOL_SIZE \<and> (fi_error s \<noteq> None \<longrightarrow> fi_rate s = 0)"

text \<open>The ticks that do anything.\<close>

definition fire_runs :: "Fire \<Rightarrow> bool" where
  "fire_runs s \<longleftrightarrow> fi_attached s \<and> fi_error s = None \<and> fi_live s 0x100 = 0x14 \<and> fi_live s 0x109 = 0 \<and>
     fi_live s 0x9d = 0 \<and> fi_live s 0x13d4 = 0 \<and> (fi_rate s \<noteq> 0 \<or> fi_active s \<noteq> 0)"

definition fire_updated :: "'r opcode \<Rightarrow> 'r \<Rightarrow> Fire \<Rightarrow> Fire" where
  "fire_updated op rest s =
     (let s1 = emit_fire (s\<lparr>fi_ticks := fi_ticks s + 1\<rparr>)
      in update_all op rest [0..<POOL_SIZE] (s1\<lparr>fi_shadow := fi_live s1, fi_dirty := (\<lambda>a. False), fi_active := 0\<rparr>))"

lemma tick_runs: "fire_runs s \<Longrightarrow> smw_fire_stream_tick op rest s =
    (let s2 = fire_updated op rest s in if fi_error s2 \<noteq> None then s2
     else let s3 = copy_back s2 in s3\<lparr>fi_peak := max (fi_peak s3) (fi_active s3)\<rparr>)"
  by (auto simp: fire_runs_def smw_fire_stream_tick_def fire_updated_def Let_def)

lemma tick_idle: "\<not> fire_runs s \<Longrightarrow> smw_fire_stream_tick op rest s = s \<or>
    (fi_error s = None \<and>
     smw_fire_stream_tick op rest s = s\<lparr>fi_pool := replicate POOL_SIZE no_projectile, fi_active := 0, fi_credit := 0\<rparr>)"
  by (auto simp: fire_runs_def smw_fire_stream_tick_def)

lemma fire_updated_frame:
  "fi_live (fire_updated op rest s) = fi_live (emit_fire (s\<lparr>fi_ticks := fi_ticks s + 1\<rparr>))"
  "fi_credit (fire_updated op rest s) = fi_credit (emit_fire (s\<lparr>fi_ticks := fi_ticks s + 1\<rparr>))"
  "fi_spawned (fire_updated op rest s) = fi_spawned (emit_fire (s\<lparr>fi_ticks := fi_ticks s + 1\<rparr>))"
  "fi_dropped (fire_updated op rest s) = fi_dropped (emit_fire (s\<lparr>fi_ticks := fi_ticks s + 1\<rparr>))"
  "fi_peak (fire_updated op rest s) = fi_peak s" "fi_attached (fire_updated op rest s) = fi_attached s"
  by (simp_all add: fire_updated_def Let_def update_all_frame)

text \<open>
  C32. A tick of the fire stream is isolated from the game: whatever the interpreted routine reads,
  writes or jumps to, the game's memory changes only at the addresses of enemies, score and sound and
  at the two that keep the player's fire power; a tick whose routine faults copies nothing back.
\<close>

theorem fire_isolated:
  "fi_live (smw_fire_stream_tick op rest s) a \<noteq> fi_live s a \<longrightarrow>
     (persistent a \<or> a = 0x19 \<or> a = 0x149c) \<and>
     (fi_error (smw_fire_stream_tick op rest s) \<noteq> None \<longrightarrow> a \<in> {0x19, 0x149c, 0x1dfc})"
proof (cases "fire_runs s")
  case False
  then show ?thesis using tick_idle [OF False, of op rest] by auto
next
  case True
  let ?s = "s\<lparr>fi_ticks := fi_ticks s + 1\<rparr>" and ?u = "fire_updated op rest s"
  have sound: "persistent 0x1dfc" by (simp add: persistent_def)
  have emit: "fi_live ?u a \<noteq> fi_live s a \<Longrightarrow> a \<in> {0x19, 0x149c, 0x1dfc}"
    using emit_live [of a ?s] by (auto simp: fire_updated_frame)
  have copy: "fi_live (copy_back ?u) a \<noteq> fi_live ?u a \<Longrightarrow> persistent a"
    by (auto simp: copy_back_def copied_back_def split: if_splits)
  show ?thesis
  proof (cases "fi_error ?u = None")
    case True
    then have "fi_error (smw_fire_stream_tick op rest s) = None"
      using \<open>fire_runs s\<close> by (simp add: tick_runs Let_def copy_back_def)
    moreover have "fi_live (smw_fire_stream_tick op rest s) a = fi_live (copy_back ?u) a"
      using \<open>fire_runs s\<close> True by (simp add: tick_runs Let_def)
    ultimately show ?thesis using emit copy sound by (cases "fi_live ?u a = fi_live s a") auto
  next
    case False
    then show ?thesis using \<open>fire_runs s\<close> emit sound by (auto simp: tick_runs Let_def)
  qed
qed

text \<open>
  The pool keeps its invariant under every tick: 256 slots with twelve fields each, a slot in use
  no older than 600 ticks, at most 256 active, a rate of at most 1000 and less than a whole fireball
  of credit, no rate after a fault.  And it loses no fireball: those spawned or counted as dropped in
  a tick are the whole part of the credit and the rate, the credit keeps the rest.
\<close>

lemma fire_accounting:
  assumes "fire_ok s"
  shows "fire_ok (smw_fire_stream_tick op rest s) \<and>
    (fire_runs s \<and> fi_rate s \<noteq> 0 \<and> fi_live s 0x71 = 0 \<longrightarrow>
      (\<exists>n. 60 * n + fi_credit (smw_fire_stream_tick op rest s) = fi_credit s + fi_rate s \<and>
        fi_spawned (smw_fire_stream_tick op rest s) + fi_dropped (smw_fire_stream_tick op rest s) =
          fi_spawned s + fi_dropped s + of_nat n))"
proof (cases "fire_runs s")
  case False
  then show ?thesis using tick_idle [OF False, of op rest] assms by (auto simp: fire_ok_def)
next
  case True
  let ?s = "s\<lparr>fi_ticks := fi_ticks s + 1\<rparr>" and ?u = "fire_updated op rest s"
  let ?t = "smw_fire_stream_tick op rest s"
  have e: "fi_error s = None" using True by (simp add: fire_runs_def)
  have "pool_ok (fi_pool (emit_fire ?s))" using assms by (intro emit_pool) (simp add: fire_ok_def)
  then have u: "pool_ok (fi_pool ?u)" "fi_active ?u \<le> POOL_SIZE" "fi_rate ?u \<le> fi_rate s"
    "fi_error ?u \<noteq> None \<longrightarrow> fi_rate ?u = 0"
    using update_all_pool [of "(emit_fire ?s)\<lparr>fi_shadow := fi_live (emit_fire ?s), fi_dirty := (\<lambda>a. False), fi_active := 0\<rparr>"
        op rest "[0..<POOL_SIZE]"] e
    by (simp_all add: fire_updated_def Let_def)
  have credit: "fi_credit ?u < 60" using emit_credit [of ?s] assms by (simp add: fire_updated_frame fire_ok_def)
  have t: "fi_pool ?t = fi_pool ?u" "fi_rate ?t = fi_rate ?u" "fi_credit ?t = fi_credit ?u" "fi_active ?t = fi_active ?u"
    "fi_spawned ?t = fi_spawned ?u" "fi_dropped ?t = fi_dropped ?u" "fi_error ?t = fi_error ?u"
    "fi_peak ?t \<le> max (fi_peak s) (fi_active ?u)"
    using True by (simp_all add: tick_runs Let_def copy_back_def fire_updated_frame)
  have "fire_ok ?t" using u credit t assms by (auto simp: fire_ok_def)
  moreover have "\<exists>n. 60 * n + fi_credit ?t = fi_credit s + fi_rate s \<and>
      fi_spawned ?t + fi_dropped ?t = fi_spawned s + fi_dropped s + of_nat n"
    if "fi_rate s \<noteq> 0" "fi_live s 0x71 = 0"
    using emit_counts [of ?s] that t
    by (intro exI [of _ "(fi_credit s + fi_rate s) div 60"]) (simp add: fire_updated_frame)
  ultimately show ?thesis by blast
qed

lemma fault_latched:
  assumes "fi_error s = Some e" "fi_rate s = 0"
  shows "smw_fire_stream_tick op rest s = s"
    "name \<noteq> ''__reset'' \<Longrightarrow> name \<noteq> ''fire_stream_reset'' \<Longrightarrow>
       fi_error (snd (snd (smw_fire_stream_command name args capacity s))) = Some e"
  using assms by (auto simp: smw_fire_stream_tick_def smw_fire_stream_command_def Let_def
      split: prod.splits option.splits list.splits)

lemma command_ok: "fire_ok s \<Longrightarrow> fire_ok (snd (snd (smw_fire_stream_command name args capacity s)))"
  by (auto simp: smw_fire_stream_command_def Let_def fire_ok_def reset_fire_def
      split: prod.splits option.splits list.splits)

end
