(* ===== verification/Witnesses2.thy ===== *)
theory Witnesses2
  imports Witnesses Coop_Snapshot Coop_Storage Mod_Audio Config_Write Coop_Patch Coop_Hle Fire_Stream
begin

text \<open>
  Concrete disks, clips, key bindings, patch files and pools on which the hypotheses of the
  properties outside the co-op session hold.
\<close>

section \<open>Saved machines\<close>

definition pair :: CoopMachine where
  "pair = arena\<lparr>m_actors := [zero_actor, zero_actor\<lparr>ac_player := 1, ac_input_seat := 1\<rparr>]\<rparr>"

lemma pair_simps [simp]: "m_session pair = duo" "m_actors pair = [zero_actor, zero_actor\<lparr>ac_player := 1, ac_input_seat := 1\<rparr>]"
  "m_entities pair = []" "m_sources pair = []" "m_placed_eggs pair = []" "m_next_entity pair = 1" "m_level pair = 0"
  "m_previous_mode pair = 0" "m_focus_x pair = 0" "m_focus_y pair = 0" "m_focus_center_x pair = 0"
  "m_focus_center_y pair = 0" "m_focus_count pair = 0" "m_fireballs_initialized pair = False"
  by (simp_all add: pair_def arena_def zero_machine_def)

lemma zero_actor_simps [simp]: "ac_player zero_actor = 0" "ac_input_seat zero_actor = 0" "ac_stored_mount zero_actor = 0"
  "ac_stored_mount_color zero_actor = 0" "ac_pending zero_actor = []" "ac_visible zero_actor = []"
  "ac_guest zero_actor = replicate COOP_GUEST_BYTES 0" "ac_fireballs zero_actor = replicate COOP_FIREBALL_SLOTS zero_fireball"
  by (simp_all add: zero_actor_def)

lemma pair_pieces: "machine_pieces pair = []"
  by (simp add: machine_pieces_def zero_fireball_def)

lemma pair_shaped: "shaped pair"
  by (simp add: shaped_def pair_pieces zero_fireball_def)

lemma pair_in_play: "in_play pair"
  by (simp add: in_play_def coop_player_def coordinate_def new_player_def)

lemma two_zeros: "replicate COOP_FIREBALL_SLOTS zero_fireball = [zero_fireball, zero_fireball]"
  by (simp add: COOP_FIREBALL_SLOTS_def numeral_2_eq_2)

lemma pair_valid: "entities_valid pair"
proof -
  have fb: "concat (map ac_fireballs (m_actors pair)) = [zero_fireball, zero_fireball, zero_fireball, zero_fireball]"
    by (simp add: two_zeros)
  have "fireball_ok pair zero_fireball" "\<not> same_fireball zero_fireball zero_fireball"
    by (simp_all add: fireball_ok_def same_fireball_def zero_fireball_def COOP_FIREBALL_BYTES_def)
  moreover have "list_all (links_ok pair) (players duo)"
    by (simp add: links_ok_def new_player_def zero_player_def COOP_NO_ENTITY_def)
  moreover have "list_all (stored_ok pair) [0..<length (m_actors pair)]"
    by (simp add: stored_ok_def upt_rec)
  ultimately show ?thesis
    unfolding entities_valid_def fb by (simp add: no_earlier_sorted)
qed

lemma pair_size: "coop_machine_save_size pair = 952"
proof -
  have fb: "concat (map ac_fireballs (m_actors pair)) = [zero_fireball, zero_fireball, zero_fireball, zero_fireball]"
    by (simp add: two_zeros)
  have "fireball_extra zero_fireball = Some 0" by (simp add: fireball_extra_def zero_fireball_def)
  moreover have "size_each actor_extra (m_actors pair) n = Some n" for n by (simp add: actor_extra_def)
  moreover have "length (m_actors pair) = 2" by simp
  ultimately show ?thesis
    unfolding coop_machine_save_size_def machine_size_def fb
    by (simp add: duo_size size_table_def HEADER_def ACTOR_HEADER_def TRAILER_def ENTITY_HEADER_def ENTITY_BYTES_def
        FOCUS_BYTES_def COOP_FIREBALL_SLOTS_def guest_bytes SIZE_MAX_def UINT32_MAX_def del: pair_simps(2))
qed

theorem machine_load_transactional_witness: "snd (coop_machine_load everything [1, 2, 3] pair) = pair"
proof -
  have "coop_machine_load everything [1, 2, 3] pair = (False, snd (coop_machine_load everything [1, 2, 3] pair))"
    by (simp add: coop_machine_load_def load_machine_def HEADER_def)
  from machine_load_transactional [OF this] show ?thesis by simp
qed

section \<open>Storage\<close>

text \<open>A disk on which every write succeeds.\<close>

definition good_disk :: "(string \<Rightarrow> u8 list option) writer" where
  "good_disk p b w = (True, w(p \<mapsto> b))"

lemma good_disk_lawful: "lawful_writer good_disk (\<lambda>w. w)"
  by (simp add: lawful_writer_def good_disk_def)

definition queued :: Storage where
  "queued = snd (SmwCoopQueueStorage everything True ''smw.srm'' [2]
     (snd (SmwCoopQueueStorage everything True ''smw.srm'' [1] empty_storage)))"

lemma queued_images: "sg_images queued =
    [\<lparr>im_path = ''smw.srm'', im_bytes = [1], im_success = False\<rparr>,
     \<lparr>im_path = ''smw.srm'', im_bytes = [2], im_success = False\<rparr>]"
  by (simp add: queued_def SmwCoopQueueStorage_def SIZE_MAX_def SIZEOF_STORAGE_IMAGE_def everything_def
      start_worker_def empty_storage_def)

lemma queued_reachable: "(storage_step good_disk)\<^sup>*\<^sup>* (empty_storage, Map.empty) (queued, Map.empty)"
  unfolding queued_def
  by (rule rtranclp.intros(2) [OF rtranclp.intros(2) [OF rtranclp.intros(1)]];
      rule storage_step.queue [OF surjective_pairing])

text \<open>The newer image is the one that a flush leaves in the file, or both stay queued.\<close>

theorem finish_storage_durable_witness:
  "case SmwCoopFinishStorage good_disk (queued, Map.empty) of
     (ok, s', w') \<Rightarrow> if ok then w' ''smw.srm'' = Some [2] else map im_bytes (sg_images s') = [[1], [2]]"
proof -
  obtain ok s' w' where f: "SmwCoopFinishStorage good_disk (queued, Map.empty) = (ok, s', w')"
    by (rule prod_cases3)
  show ?thesis
    using finish_storage_durable [OF good_disk_lawful queued_reachable f]
    by (auto simp: f queued_images latest_image_def)
qed

section \<open>Audio\<close>

definition one_clip :: ModAudio where
  "one_clip = snd (snes_mod_audio_register_pcm_s16 everything (\<lambda>i. of_nat i) 4 32000 1 silent_audio)"

lemma one_clip_reachable: "audio_step\<^sup>*\<^sup>* silent_audio one_clip"
  unfolding one_clip_def by (rule r_into_rtranclp) (rule audio_step.register [OF surjective_pairing])

theorem audio_accounting_witness: "ma_bytes one_clip \<le> 16777216 \<and> length (ma_clips one_clip) = 64"
  using audio_accounting [OF one_clip_reachable] by simp

lemma mix_in_bounds_witness:
  "\<exists>dst' m'. snes_mod_audio_mix [1, 2, 3] 2 48000 1 one_clip = Some (dst', m') \<and> drop 2 dst' = [3]"
  using mix_in_bounds [OF one_clip_reachable, of 2 1 "[1, 2, 3]" 48000] by auto

section \<open>Configuration\<close>

theorem keymap_first_binding_wins_witness:
  "\<exists>m. add_keys [(260, 1), (5, 2), (260, 3)] empty_keymap = Some (Inr m) \<and> KeyMapHash_Find 260 m = Some 1"
  using keymap_first_binding_wins [of "[(260, 1), (5, 2), (260, 3)]"] by auto

text \<open>String functions that ignore case, one line of the form \<open>key=value\<close> each.\<close>

definition plain_util :: Util where
  "plain_util = \<lparr>
     ut_equals = (\<lambda>s t. map lower s = map lower t),
     ut_starts = (\<lambda>s p. if map lower (take (length p) s) = map lower p then Some (drop (length p) s) else None),
     ut_delims = (\<lambda>c s. [takeWhile (\<lambda>x. x \<noteq> c) s]),
     ut_lines = file_lines,
     ut_skips = (\<lambda>s p. take (length p) s = p),
     ut_quoted = (\<lambda>s. s),
     ut_sibling = (\<lambda>f s. s),
     ut_key_value = (\<lambda>s. case dropWhile (\<lambda>c. c \<noteq> CHR ''='') s of [] \<Rightarrow> None
        | _ # v \<Rightarrow> Some (takeWhile (\<lambda>c. c \<noteq> CHR ''='') s, v)),
     ut_bool = (\<lambda>s. Some (s = ''1'')),
     ut_aspect = (\<lambda>s. None)\<rparr>"

lemma plain_prefixes: "prefixes_shorten plain_util"
proof -
  have "length s = length p + length (drop (length p) s)" if "map lower (take (length p) s) = map lower p" for s p
  proof -
    from that have "length (map lower (take (length p) s)) = length p" by simp
    then show ?thesis by simp
  qed
  then show ?thesis by (auto simp: prefixes_shorten_def plain_util_def)
qed

definition plain_sdl :: Sdl where
  "plain_sdl = \<lparr>sdl_code = (\<lambda>k. 0x61), sdl_scancode_mask = 0x40000000, sdl_kmod_alt = 0x300,
     sdl_kmod_ctrl = 0xC0, sdl_kmod_shift = 3, sdl_from_name = (\<lambda>s. None)\<rparr>"

definition zero_config :: Config where
  "zero_config = \<lparr>window_width = 0, window_height = 0, new_renderer = False, ignore_aspect_ratio = False,
     display_aspect = 0, fullscreen = 0, window_scale = 0, enable_audio = False, linear_filtering = False,
     output_method = kOutputMethod_SDL, audio_freq = 0, audio_channels = 0, audio_samples = 0, autosave = False,
     no_sprite_limits = False, widescreen_mode = kWidescreenMode_Standard, widescreen_hud = False,
     display_perf_title = False, disable_frame_delay = False, deadzone = (0, 0), skip_launcher = False,
     netplay_player_name = [], msu1_enabled = False, msu1_dir = [], shader = None,
     enable_gamepad = (False, False), keyboard_players = -1\<rparr>"

theorem parse_config_safe_witness:
  "run_ok app_ok (ParseConfigFile plain_util plain_sdl (\<lambda>f. Some ''[Sound]'') None (initial_app zero_config))"
  by (rule parse_config_safe [OF plain_prefixes])

lemma plain_refl: "ut_equals plain_util s s"
  by (simp add: plain_util_def)

lemma default_scale:
  "setting ''Graphics'' ''WindowScale'' ''3'' \<in> set (launcher_settings (initial_app zero_config))"
proof -
  have "decimal 3 = ''3''" by (simp add: decimal.simps char_of_def bit_0)
  moreover have "window_scale (app_config (initial_app zero_config)) = 0" by (simp add: initial_app_def zero_config_def)
  ultimately show ?thesis unfolding launcher_settings_def Let_def by simp
qed


lemma comment_lines: "file_lines (takeWhile (\<lambda>c. c \<noteq> CHR 0x00) (''# tune'' @ [CHR 0x0A])) = [''# tune'']"
  by (simp add: file_lines.simps cut_line_def)

lemma comment_foreign: "\<not> CfgLineIsKey plain_util ''# tune'' k" if "k \<noteq> []" "lower (hd k) \<noteq> 116"
  using that by (cases k) (simp_all add: CfgLineIsKey_def plain_util_def is_blank_def lower_def [of "CHR ''t''"])


section \<open>Patches\<close>

theorem ips_roundtrip_witness:
  "ApplyIps (\<lambda>n. True) [9] (encode_ips [Ips_data 1 [7, 8], Ips_rle 0 2 5]) = Inr [5, 5, 8]"
  using ips_roundtrip [of "\<lambda>n. True" "[Ips_data 1 [7, 8], Ips_rle 0 2 5]" "[9]" "[]"]
  by (simp add: record_ok_def kMaxRom_def apply_record_def overwrite_def Let_def numeral_2_eq_2)

text \<open>A disk that has nothing: the error is reported and nothing changes.\<close>

definition empty_disk :: Disk where
  "empty_disk = \<lparr>dk_readable = (\<lambda>p. True), dk_alloc = (\<lambda>n. True), dk_create = True, dk_written = 0,
     dk_close = True, dk_remove = (\<lambda>p. True), dk_rename = True\<rparr>"

theorem prepare_rom_safe_witness:
  "fst (CoopPreparePatchedRom (\<lambda>bs. 0) empty_disk Map.empty (Some ''s'') (Some ''i'') (Some ''o'')) = Some (No_stock ''s'') \<and>
   snd (CoopPreparePatchedRom (\<lambda>bs. 0) empty_disk Map.empty (Some ''s'') (Some ''i'') (Some ''o'')) ''o'' = None"
proof -
  have r: "CoopPreparePatchedRom (\<lambda>bs. 0) empty_disk Map.empty (Some ''s'') (Some ''i'') (Some ''o'') =
      (Some (No_stock ''s''), Map.empty)"
    by (simp add: CoopPreparePatchedRom_def IsValidCoopOutput_def ReadFile_def patched_rom_def empty_disk_def)
  show ?thesis using prepare_rom_safe [OF r] r by simp
qed

section \<open>Fireballs\<close>

text \<open>A level in play, the stream at 120 a second, and a routine that does nothing.\<close>

definition level_ram :: mem where
  "level_ram = (\<lambda>a. 0)(0x100 := 0x14)"

definition no_fire :: Fire where
  "no_fire = \<lparr>fi_pool = [], fi_shadow = (\<lambda>a. 0), fi_dirty = (\<lambda>a. False), fi_attached = False, fi_live = (\<lambda>a. 0),
     fi_cart = [], fi_rate = 0, fi_credit = 0, fi_peak = 0, fi_active = 0, fi_ticks = 0, fi_spawned = 0,
     fi_dropped = 0, fi_collisions = 0, fi_opcodes = 0, fi_error = None\<rparr>"

definition streaming :: Fire where
  "streaming = (smw_fire_stream_init level_ram [] no_fire)\<lparr>fi_rate := 120\<rparr>"

definition idle_op :: "unit opcode" where
  "idle_op = (\<lambda>c. Done c)"

lemma streaming_ok: "fire_ok streaming" and streaming_runs: "fire_runs streaming"
  by (simp_all add: fire_ok_def fire_runs_def pool_ok_def streaming_def smw_fire_stream_init_def reset_fire_def
      level_ram_def no_fire_def no_projectile_def)

theorem fire_isolated_witness: "fi_live (smw_fire_stream_tick idle_op () streaming) 0x500 = 0"
  using fire_isolated [of idle_op "()" streaming "0x500"]
  by (auto simp: persistent_def streaming_def smw_fire_stream_init_def reset_fire_def level_ram_def)

lemma fire_accounting_witness:
  "fire_ok (smw_fire_stream_tick idle_op () streaming) \<and>
   (\<exists>n. 60 * n + fi_credit (smw_fire_stream_tick idle_op () streaming) = 120)"
  using fire_accounting [OF streaming_ok, of idle_op "()"] streaming_runs
  by (auto simp: streaming_def smw_fire_stream_init_def reset_fire_def level_ram_def no_fire_def)

end
