(* ===== verification/Foreign_Controller.thy ===== *)
theory Foreign_Controller
  imports Prelude
begin

unbundle bit_operations_syntax

text \<open>
  The host side of a movement controller that comes from another game,
  \<^verbatim>\<open>src/foreign_controller.h\<close> and \<^verbatim>\<open>src/foreign_controller.c\<close>: registration and selection, one tick
  and its resolution, the trace of the last 16384 ticks, and the chunk of a snapshot that holds the
  controller's state.

  The code moves floating-point values around and stores their bits; it computes with them only in
  the sweep.  A \<open>float\<close> or \<open>double\<close> is therefore the word of its bits, and the sweep takes the
  compiler's arithmetic as the parameter \<open>Doubles\<close>.  A controller is what a mod registers: its
  callbacks are functions, None where the pointer is null, and \<open>fc_address\<close> is the pointer itself.
\<close>

section \<open>The structures of the header\<close>

type_synonym float_bits = u32
type_synonym double_bits = u64

record ForeignInput =
  fi_stick_x :: float_bits
  fi_stick_y :: float_bits
  fi_jump_pressed :: i32
  fi_jump_held :: i32
  fi_down_pressed :: i32
  fi_attack_pressed :: i32
  fi_special_pressed :: i32
  fi_raw_buttons :: i32

datatype ForeignOwnership = FOREIGN_OWNERSHIP_NATIVE | FOREIGN_OWNERSHIP_FOREIGN | FOREIGN_OWNERSHIP_SCRIPTED

fun ownership_number :: "ForeignOwnership \<Rightarrow> u32" where
  "ownership_number FOREIGN_OWNERSHIP_NATIVE = 0"
| "ownership_number FOREIGN_OWNERSHIP_FOREIGN = 1"
| "ownership_number FOREIGN_OWNERSHIP_SCRIPTED = 2"

definition ownership_of :: "u32 \<Rightarrow> ForeignOwnership option" where
  "ownership_of n =
     (if n = 0 then Some FOREIGN_OWNERSHIP_NATIVE
      else if n = 1 then Some FOREIGN_OWNERSHIP_FOREIGN
      else if n = 2 then Some FOREIGN_OWNERSHIP_SCRIPTED
      else None)"

text \<open>The enumerations of the state are the integers that a snapshot holds for them.\<close>

record ForeignState =
  fs_state :: i32
  fs_state_frame :: u32
  fs_x :: double_bits
  fs_y :: double_bits
  fs_vx :: double_bits
  fs_vy :: double_bits
  fs_facing :: float_bits
  fs_grounded :: i32
  fs_fast_fall :: i32
  fs_air_cause :: i32
  fs_jump_phase :: i32

definition zero_foreign :: ForeignState where
  "zero_foreign = \<lparr>fs_state = 0, fs_state_frame = 0, fs_x = 0, fs_y = 0, fs_vx = 0, fs_vy = 0, fs_facing = 0,
     fs_grounded = 0, fs_fast_fall = 0, fs_air_cause = 0, fs_jump_phase = 0\<rparr>"

record ForeignAttackHitbox =
  ah_offset_x :: double_bits
  ah_offset_y :: double_bits
  ah_width :: double_bits
  ah_height :: double_bits
  ah_knockback_x :: double_bits
  ah_knockback_y :: double_bits
  ah_damage :: i32
  ah_flags :: u32
  ah_active :: i32

text \<open>At most four audio cues, each with its gain.\<close>

type_synonym ForeignAudioEvents = "(u32 \<times> i32) list"

record ForeignMoveResult =
  mr_requested_dx :: double_bits
  mr_requested_dy :: double_bits
  mr_vx :: double_bits
  mr_vy :: double_bits
  mr_state :: i32
  mr_force_airborne :: i32
  mr_attack :: ForeignAttackHitbox
  mr_audio :: ForeignAudioEvents

definition zero_result :: ForeignMoveResult where
  "zero_result = \<lparr>mr_requested_dx = 0, mr_requested_dy = 0, mr_vx = 0, mr_vy = 0, mr_state = 0, mr_force_airborne = 0,
     mr_attack = \<lparr>ah_offset_x = 0, ah_offset_y = 0, ah_width = 0, ah_height = 0, ah_knockback_x = 0, ah_knockback_y = 0,
       ah_damage = 0, ah_flags = 0, ah_active = 0\<rparr>, mr_audio = []\<rparr>"

record ForeignCollisionResult =
  cr_actual_dx :: double_bits
  cr_actual_dy :: double_bits
  cr_grounded :: i32
  cr_hit_ceiling :: i32
  cr_hit_floor :: i32
  cr_hit_wall :: i32
  cr_attack_connected :: i32
  cr_has_imposed_vy :: i32
  cr_imposed_vy :: double_bits
  cr_flags :: u32

definition zero_collision :: ForeignCollisionResult where
  "zero_collision = \<lparr>cr_actual_dx = 0, cr_actual_dy = 0, cr_grounded = 0, cr_hit_ceiling = 0, cr_hit_floor = 0,
     cr_hit_wall = 0, cr_attack_connected = 0, cr_has_imposed_vy = 0, cr_imposed_vy = 0, cr_flags = 0\<rparr>"

text \<open>
  A serializer gives the bytes it wrote into a buffer of the given capacity, None when it failed;
  a deserializer the state it made of them.
\<close>

record ForeignController =
  fc_address :: nat
  fc_id :: string
  fc_reset :: "(ForeignState \<Rightarrow> ForeignState) option"
  fc_tick :: "(ForeignState \<Rightarrow> ForeignInput option \<Rightarrow> ForeignMoveResult \<Rightarrow> ForeignState \<times> ForeignMoveResult) option"
  fc_resolve :: "(ForeignState \<Rightarrow> ForeignCollisionResult \<Rightarrow> ForeignState) option"
  fc_save_version :: u32
  fc_serialize :: "(ForeignState \<Rightarrow> nat \<Rightarrow> u8 list option) option"
  fc_deserialize :: "(ForeignState \<Rightarrow> u8 list \<Rightarrow> u32 \<Rightarrow> ForeignState option) option"

record ForeignTraceEntry =
  te_frame :: u64
  te_raw_buttons :: i32
  te_stick_x :: float_bits
  te_stick_y :: float_bits
  te_state :: i32
  te_ownership :: u8
  te_grounded :: u8
  te_fast_fall :: u8
  te_hit_wall :: u8
  te_hit_ceiling :: u8
  te_hit_floor :: u8
  te_attack_connected :: u8
  te_air_cause :: u8
  te_jump_phase :: u8
  te_reseeded :: u8
  te_x :: double_bits
  te_y :: double_bits
  te_vx :: double_bits
  te_vy :: double_bits
  te_requested_dx :: double_bits
  te_requested_dy :: double_bits
  te_resolved_dx :: double_bits
  te_resolved_dy :: double_bits
  te_has_imposed_vy :: u8
  te_imposed_vy :: double_bits
  te_collision_flags :: u32
  te_native_x :: i32
  te_native_y :: i32

definition zero_entry :: ForeignTraceEntry where
  "zero_entry = \<lparr>te_frame = 0, te_raw_buttons = 0, te_stick_x = 0, te_stick_y = 0, te_state = 0, te_ownership = 0,
     te_grounded = 0, te_fast_fall = 0, te_hit_wall = 0, te_hit_ceiling = 0, te_hit_floor = 0, te_attack_connected = 0,
     te_air_cause = 0, te_jump_phase = 0, te_reseeded = 0, te_x = 0, te_y = 0, te_vx = 0, te_vy = 0,
     te_requested_dx = 0, te_requested_dy = 0, te_resolved_dx = 0, te_resolved_dy = 0, te_has_imposed_vy = 0,
     te_imposed_vy = 0, te_collision_flags = 0, te_native_x = 0, te_native_y = 0\<rparr>"

section \<open>The state of the module\<close>

definition FOREIGN_MAX_CONTROLLERS :: nat where "FOREIGN_MAX_CONTROLLERS = 16"
definition FTRING_N :: nat where "FTRING_N = 16384"
definition FOREIGN_SAVE_MAGIC :: u32 where "FOREIGN_SAVE_MAGIC = 0x53434653"
definition FOREIGN_SAVE_FORMAT_VERSION :: u16 where "FOREIGN_SAVE_FORMAT_VERSION = 1"
definition FOREIGN_SAVE_MAX_ID :: nat where "FOREIGN_SAVE_MAX_ID = 96"
definition FOREIGN_SAVE_FIXED_SIZE :: nat where "FOREIGN_SAVE_FIXED_SIZE = 80"
definition SNES_FOREIGN_SAVE_MAX_PAYLOAD :: nat where "SNES_FOREIGN_SAVE_MAX_PAYLOAD = 4096"

record Foreign =
  fo_controllers :: "ForeignController list"
  fo_active :: "ForeignController option"
  fo_state :: ForeignState
  fo_ownership :: ForeignOwnership
  fo_ring :: "ForeignTraceEntry list"
  fo_head :: u32

definition initial_foreign :: Foreign where
  "initial_foreign = \<lparr>fo_controllers = [], fo_active = None, fo_state = zero_foreign,
     fo_ownership = FOREIGN_OWNERSHIP_NATIVE, fo_ring = replicate FTRING_N zero_entry, fo_head = 0\<rparr>"

section \<open>Registration and selection\<close>

text \<open>\<open>find_controller\<close>: the id is given by its bytes and is compared at its full length.\<close>

definition bytes_of :: "string \<Rightarrow> u8 list" where
  "bytes_of s = map of_char s"

definition find_controller :: "u8 list \<Rightarrow> Foreign \<Rightarrow> ForeignController option" where
  "find_controller ident st = find (\<lambda>c. bytes_of (fc_id c) = ident) (fo_controllers st)"

definition controller_has_valid_save_callbacks :: "ForeignController option \<Rightarrow> bool" where
  "controller_has_valid_save_callbacks controller =
     (case controller of None \<Rightarrow> True
      | Some c \<Rightarrow>
          if fc_serialize c = None \<and> fc_deserialize c = None then fc_save_version c = 0
          else fc_serialize c \<noteq> None \<and> fc_deserialize c \<noteq> None)"

definition ftring_clear :: "Foreign \<Rightarrow> Foreign" where
  "ftring_clear st = st\<lparr>fo_ring := replicate FTRING_N zero_entry, fo_head := 0\<rparr>"

definition snes_foreign_register :: "ForeignController \<Rightarrow> Foreign \<Rightarrow> bool \<times> Foreign" where
  "snes_foreign_register c st =
     (if fc_id c = [] \<or> fc_tick c = None then (False, st)
      else case find (\<lambda>d. fc_id d = fc_id c) (fo_controllers st) of
             Some d \<Rightarrow> (fc_address d = fc_address c, st)
           | None \<Rightarrow>
               if length (fo_controllers st) \<ge> FOREIGN_MAX_CONTROLLERS then (False, st)
               else (True, st\<lparr>fo_controllers := fo_controllers st @ [c]\<rparr>))"

text \<open>A null pointer and an empty string select no controller.\<close>

definition snes_foreign_select :: "string \<Rightarrow> Foreign \<Rightarrow> bool \<times> Foreign" where
  "snes_foreign_select ident st =
     (if ident = [] then (True, st\<lparr>fo_active := None, fo_state := zero_foreign\<rparr>)
      else case find_controller (bytes_of ident) st of
             None \<Rightarrow> (False, st)
           | Some c \<Rightarrow>
               let s = zero_foreign\<lparr>fs_facing := 0x3F800000\<rparr>
               in (True, st\<lparr>fo_active := Some c, fo_state := (case fc_reset c of None \<Rightarrow> s | Some reset \<Rightarrow> reset s)\<rparr>))"

definition snes_foreign_set_ownership :: "ForeignOwnership \<Rightarrow> Foreign \<Rightarrow> Foreign" where
  "snes_foreign_set_ownership ownership st = st\<lparr>fo_ownership := ownership\<rparr>"

section \<open>The snapshot chunk\<close>

definition write_u16 :: "u16 \<Rightarrow> u8 list" where
  "write_u16 v = [ucast v, ucast (drop_bit 8 v)]"

definition write_u32 :: "u32 \<Rightarrow> u8 list" where
  "write_u32 v = map (\<lambda>i. ucast (drop_bit (i * 8) v)) [0..<4]"

definition write_u64 :: "u64 \<Rightarrow> u8 list" where
  "write_u64 v = map (\<lambda>i. ucast (drop_bit (i * 8) v)) [0..<8]"

definition read_u16 :: "u8 list \<Rightarrow> nat \<Rightarrow> u16" where
  "read_u16 p at = ucast (p ! at) OR push_bit 8 (ucast (p ! (at + 1)))"

definition read_u32 :: "u8 list \<Rightarrow> nat \<Rightarrow> u32" where
  "read_u32 p at = foldl (\<lambda>v i. v OR push_bit (i * 8) (ucast (p ! (at + i)))) 0 [0..<4]"

definition read_u64 :: "u8 list \<Rightarrow> nat \<Rightarrow> u64" where
  "read_u64 p at = foldl (\<lambda>v i. v OR push_bit (i * 8) (ucast (p ! (at + i)))) 0 [0..<8]"

definition state_bytes :: "ForeignState \<Rightarrow> u8 list" where
  "state_bytes s = write_u32 (fs_state s) @ write_u32 (fs_state_frame s) @
     write_u64 (fs_x s) @ write_u64 (fs_y s) @ write_u64 (fs_vx s) @ write_u64 (fs_vy s) @
     write_u32 (fs_facing s) @ write_u32 (fs_grounded s) @ write_u32 (fs_fast_fall s) @
     write_u32 (fs_air_cause s) @ write_u32 (fs_jump_phase s)"

text \<open>The id, the version and the payload of the active controller; None where the save is refused.\<close>

definition controller_payload :: "Foreign \<Rightarrow> (u8 list \<times> u32 \<times> u8 list) option" where
  "controller_payload st =
     (case fo_active st of
        None \<Rightarrow> Some ([], 0, [])
      | Some c \<Rightarrow>
          let ident = bytes_of (fc_id c)
          in if ident = [] \<or> length ident > FOREIGN_SAVE_MAX_ID \<or> \<not> controller_has_valid_save_callbacks (Some c)
             then None
             else case fc_serialize c of
                    None \<Rightarrow> Some (ident, 0, [])
                  | Some serialize \<Rightarrow>
                      (case serialize (fo_state st) SNES_FOREIGN_SAVE_MAX_PAYLOAD of
                         None \<Rightarrow> None
                       | Some payload \<Rightarrow>
                           if length payload > SNES_FOREIGN_SAVE_MAX_PAYLOAD then None
                           else Some (ident, fc_save_version c, payload)))"

text \<open>The bytes written to the start of the destination.\<close>

definition snes_foreign_save :: "nat \<Rightarrow> Foreign \<Rightarrow> u8 list option" where
  "snes_foreign_save capacity st =
     (case controller_payload st of
        None \<Rightarrow> None
      | Some (ident, version, payload) \<Rightarrow>
          if FOREIGN_SAVE_FIXED_SIZE + length ident + length payload > capacity then None
          else Some (write_u32 FOREIGN_SAVE_MAGIC @ write_u16 FOREIGN_SAVE_FORMAT_VERSION @ write_u16 (of_nat (length ident)) @
            write_u32 (ownership_number (fo_ownership st)) @ state_bytes (fo_state st) @
            write_u32 version @ write_u32 (of_nat (length payload)) @ ident @ payload))"

definition stored_state :: "u8 list \<Rightarrow> ForeignState" where
  "stored_state p = \<lparr>fs_state = read_u32 p 12, fs_state_frame = read_u32 p 16,
     fs_x = read_u64 p 20, fs_y = read_u64 p 28, fs_vx = read_u64 p 36, fs_vy = read_u64 p 44,
     fs_facing = read_u32 p 52, fs_grounded = read_u32 p 56, fs_fast_fall = read_u32 p 60,
     fs_air_cause = read_u32 p 64, fs_jump_phase = read_u32 p 68\<rparr>"

text \<open>The controller that the chunk names and its state; None where the chunk is refused.\<close>

definition load_controller :: "u8 list \<Rightarrow> Foreign \<Rightarrow> (ForeignController option \<times> ForeignState) option" where
  "load_controller p st =
     (let id_len = unat (read_u16 p 6); version = read_u32 p 72; payload_size = unat (read_u32 p 76);
          candidate = stored_state p
      in if id_len = 0 then (if version \<noteq> 0 \<or> payload_size \<noteq> 0 then None else Some (None, candidate))
         else case find_controller (take id_len (drop FOREIGN_SAVE_FIXED_SIZE p)) st of
                None \<Rightarrow> None
              | Some c \<Rightarrow>
                  if \<not> controller_has_valid_save_callbacks (Some c) then None
                  else (case (fc_serialize c, fc_deserialize c) of
                          (Some _, Some deserialize) \<Rightarrow>
                            if version \<noteq> fc_save_version c then None
                            else (case deserialize candidate (take payload_size (drop (FOREIGN_SAVE_FIXED_SIZE + id_len) p)) version of
                                    None \<Rightarrow> None | Some s \<Rightarrow> Some (Some c, s))
                        | _ \<Rightarrow> if version \<noteq> 0 \<or> payload_size \<noteq> 0 then None else Some (Some c, candidate)))"

definition snes_foreign_load :: "u8 list \<Rightarrow> Foreign \<Rightarrow> bool \<times> Foreign" where
  "snes_foreign_load p st =
     (if length p < FOREIGN_SAVE_FIXED_SIZE then (False, st)
      else if read_u32 p 0 \<noteq> FOREIGN_SAVE_MAGIC \<or> read_u16 p 4 \<noteq> FOREIGN_SAVE_FORMAT_VERSION then (False, st)
      else
        let id_len = unat (read_u16 p 6); payload_size = unat (read_u32 p 76)
        in if id_len > FOREIGN_SAVE_MAX_ID then (False, st)
           else case ownership_of (read_u32 p 8) of
                  None \<Rightarrow> (False, st)
                | Some ownership \<Rightarrow>
                    if payload_size > SNES_FOREIGN_SAVE_MAX_PAYLOAD \<or>
                       FOREIGN_SAVE_FIXED_SIZE + id_len + payload_size \<noteq> length p then (False, st)
                    else (case load_controller p st of
                            None \<Rightarrow> (False, st)
                          | Some (c, s) \<Rightarrow>
                              (True, ftring_clear (st\<lparr>fo_active := c, fo_state := s, fo_ownership := ownership\<rparr>))))"

section \<open>The sweep\<close>

text \<open>The compiler's arithmetic on doubles; \<open>dd_ceil\<close> is the conversion of \<open>ceil\<close> to \<open>int\<close>.\<close>

record Doubles =
  dd_less :: "double_bits \<Rightarrow> double_bits \<Rightarrow> bool"
  dd_is_zero :: "double_bits \<Rightarrow> bool"
  dd_add :: "double_bits \<Rightarrow> double_bits \<Rightarrow> double_bits"
  dd_sub :: "double_bits \<Rightarrow> double_bits \<Rightarrow> double_bits"
  dd_div :: "double_bits \<Rightarrow> double_bits \<Rightarrow> double_bits"
  dd_fabs :: "double_bits \<Rightarrow> double_bits"
  dd_ceil :: "double_bits \<Rightarrow> int"
  dd_of_int :: "int \<Rightarrow> double_bits"

record Sweep =
  sw_x :: double_bits
  sw_y :: double_bits
  sw_blocked_x :: bool
  sw_blocked_y :: bool

definition sweep_step :: "Doubles \<Rightarrow> (double_bits \<Rightarrow> double_bits \<Rightarrow> bool) \<Rightarrow> double_bits \<Rightarrow> double_bits \<Rightarrow> Sweep \<Rightarrow> Sweep" where
  "sweep_step d probe step_x step_y s =
     (let s1 = (if \<not> sw_blocked_x s \<and> \<not> dd_is_zero d step_x then
                  if probe (dd_add d (sw_x s) step_x) (sw_y s) then s\<lparr>sw_blocked_x := True\<rparr>
                  else s\<lparr>sw_x := dd_add d (sw_x s) step_x\<rparr>
                else s)
      in if \<not> sw_blocked_y s1 \<and> \<not> dd_is_zero d step_y then
           if probe (sw_x s1) (dd_add d (sw_y s1) step_y) then s1\<lparr>sw_blocked_y := True\<rparr>
           else s1\<lparr>sw_y := dd_add d (sw_y s1) step_y\<rparr>
         else s1)"

fun sweep_loop :: "Doubles \<Rightarrow> (double_bits \<Rightarrow> double_bits \<Rightarrow> bool) \<Rightarrow> double_bits \<Rightarrow> double_bits \<Rightarrow> nat \<Rightarrow> Sweep \<Rightarrow> Sweep" where
  "sweep_loop d probe step_x step_y 0 s = s"
| "sweep_loop d probe step_x step_y (Suc n) s =
     (if sw_blocked_x s \<and> sw_blocked_y s then s
      else sweep_loop d probe step_x step_y n (sweep_step d probe step_x step_y s))"

definition sweep_steps :: "Doubles \<Rightarrow> double_bits \<Rightarrow> double_bits \<Rightarrow> double_bits \<Rightarrow> int" where
  "sweep_steps d dx dy max_step =
     (let step = (if dd_less d 0 max_step then max_step else 0x3FF0000000000000);
          distance = (if dd_less d (dd_fabs d dy) (dd_fabs d dx) then dd_fabs d dx else dd_fabs d dy);
          steps = dd_ceil d (dd_div d distance step);
          steps1 = (if steps < 1 then 1 else steps)
      in if steps1 > 4096 then 4096 else steps1)"

definition truth :: "bool \<Rightarrow> i32" where
  "truth b = (if b then 1 else 0)"

text \<open>\<open>probe\<close> is None when the pointer is null.\<close>

definition snes_foreign_sweep ::
  "Doubles \<Rightarrow> double_bits \<Rightarrow> double_bits \<Rightarrow> double_bits \<Rightarrow> double_bits \<Rightarrow> double_bits \<Rightarrow>
   (double_bits \<Rightarrow> double_bits \<Rightarrow> bool) option \<Rightarrow> ForeignCollisionResult" where
  "snes_foreign_sweep d x y dx dy max_step probe =
     (case probe of
        None \<Rightarrow> zero_collision\<lparr>cr_actual_dx := dx, cr_actual_dy := dy\<rparr>
      | Some blocked \<Rightarrow>
          let steps = sweep_steps d dx dy max_step;
              step_x = dd_div d dx (dd_of_int d steps); step_y = dd_div d dy (dd_of_int d steps);
              s = sweep_loop d blocked step_x step_y (nat steps)
                    \<lparr>sw_x = x, sw_y = y, sw_blocked_x = False, sw_blocked_y = False\<rparr>;
              floor_hit = truth (sw_blocked_y s \<and> dd_less d 0 dy)
          in zero_collision\<lparr>cr_actual_dx := dd_sub d (sw_x s) x, cr_actual_dy := dd_sub d (sw_y s) y,
               cr_hit_wall := truth (sw_blocked_x s), cr_hit_ceiling := truth (sw_blocked_y s \<and> dd_less d dy 0),
               cr_hit_floor := floor_hit, cr_grounded := floor_hit\<rparr>)"

section \<open>The trace\<close>

definition snes_foreign_trace_push :: "ForeignTraceEntry \<Rightarrow> Foreign \<Rightarrow> Foreign" where
  "snes_foreign_trace_push e st =
     st\<lparr>fo_ring := (fo_ring st)[unat (fo_head st AND of_nat (FTRING_N - 1)) := e], fo_head := fo_head st + 1\<rparr>"

text \<open>\<open>latest_trace\<close>: an update of the latest entry, when there is one.\<close>

definition latest_trace :: "(ForeignTraceEntry \<Rightarrow> ForeignTraceEntry) \<Rightarrow> Foreign \<Rightarrow> Foreign" where
  "latest_trace f st =
     (if fo_head st = 0 then st
      else st\<lparr>fo_ring := upd_at (unat ((fo_head st - 1) AND of_nat (FTRING_N - 1))) f (fo_ring st)\<rparr>)"

definition snes_foreign_trace_note_native :: "i32 \<Rightarrow> i32 \<Rightarrow> Foreign \<Rightarrow> Foreign" where
  "snes_foreign_trace_note_native x y = latest_trace (\<lambda>e. e\<lparr>te_native_x := x, te_native_y := y\<rparr>)"

definition snes_foreign_trace_note_reseed :: "Foreign \<Rightarrow> Foreign" where
  "snes_foreign_trace_note_reseed = latest_trace (\<lambda>e. e\<lparr>te_reseeded := 1\<rparr>)"

definition snes_foreign_trace_note_flags :: "u32 \<Rightarrow> Foreign \<Rightarrow> Foreign" where
  "snes_foreign_trace_note_flags flags = latest_trace (\<lambda>e. e\<lparr>te_collision_flags := te_collision_flags e OR flags\<rparr>)"

definition snes_foreign_trace_count :: "Foreign \<Rightarrow> nat" where
  "snes_foreign_trace_count st = (if unat (fo_head st) < FTRING_N then unat (fo_head st) else FTRING_N)"

text \<open>The entries written to the destination.\<close>

definition snes_foreign_trace_last :: "int \<Rightarrow> Foreign \<Rightarrow> ForeignTraceEntry list" where
  "snes_foreign_trace_last n st =
     (if n \<le> 0 then []
      else
        let k = min (nat n) (snes_foreign_trace_count st); start = fo_head st - of_nat k
        in map (\<lambda>i. fo_ring st ! unat ((start + of_nat i) AND of_nat (FTRING_N - 1))) [0..<k])"

section \<open>A tick and its resolution\<close>

definition snes_foreign_tick :: "u64 \<Rightarrow> ForeignInput option \<Rightarrow> Foreign \<Rightarrow> bool \<times> ForeignMoveResult \<times> Foreign" where
  "snes_foreign_tick frame input st =
     (let e0 = zero_entry\<lparr>te_frame := frame, te_ownership := ucast (ownership_number (fo_ownership st))\<rparr>;
          e1 = (case input of None \<Rightarrow> e0
                | Some i \<Rightarrow> e0\<lparr>te_raw_buttons := fi_raw_buttons i, te_stick_x := fi_stick_x i, te_stick_y := fi_stick_y i\<rparr>)
      in case fo_active st of
           None \<Rightarrow> (False, zero_result, snes_foreign_trace_push e1 st)
         | Some c \<Rightarrow>
             if fo_ownership st \<noteq> FOREIGN_OWNERSHIP_FOREIGN then (False, zero_result, snes_foreign_trace_push e1 st)
             else
               let (s, r) = the (fc_tick c) (fo_state st) input zero_result;
                   e2 = e1\<lparr>te_state := mr_state r, te_grounded := ucast (fs_grounded s), te_fast_fall := ucast (fs_fast_fall s),
                     te_air_cause := ucast (fs_air_cause s), te_jump_phase := ucast (fs_jump_phase s),
                     te_x := fs_x s, te_y := fs_y s, te_vx := mr_vx r, te_vy := mr_vy r,
                     te_requested_dx := mr_requested_dx r, te_requested_dy := mr_requested_dy r\<rparr>
               in (True, r, snes_foreign_trace_push e2 (st\<lparr>fo_state := s\<rparr>)))"

definition snes_foreign_resolve :: "ForeignCollisionResult \<Rightarrow> Foreign \<Rightarrow> Foreign" where
  "snes_foreign_resolve hit st =
     (let st1 = latest_trace (\<lambda>e. e\<lparr>te_resolved_dx := cr_actual_dx hit, te_resolved_dy := cr_actual_dy hit,
            te_hit_wall := ucast (cr_hit_wall hit), te_hit_ceiling := ucast (cr_hit_ceiling hit),
            te_hit_floor := ucast (cr_hit_floor hit), te_attack_connected := ucast (cr_attack_connected hit),
            te_has_imposed_vy := ucast (cr_has_imposed_vy hit), te_imposed_vy := cr_imposed_vy hit,
            te_collision_flags := te_collision_flags e OR cr_flags hit\<rparr>) st
      in case fo_active st1 of
           None \<Rightarrow> st1
         | Some c \<Rightarrow>
             if fo_ownership st1 \<noteq> FOREIGN_OWNERSHIP_FOREIGN then st1
             else (case fc_resolve c of None \<Rightarrow> st1 | Some resolve \<Rightarrow> st1\<lparr>fo_state := resolve (fo_state st1) hit\<rparr>))"


section \<open>Reading back what was written\<close>

lemma join_byte:
  fixes w :: "'a::len word"
  shows "take_bit k w OR push_bit k (ucast (ucast (drop_bit k w) :: u8)) = take_bit (k + 8) w"
  by (rule bit_word_eqI) (auto simp: bit_simps dest: bit_imp_le_length)

lemma join_bytes:
  fixes w :: "'a::len word"
  shows "foldl (\<lambda>v i. v OR push_bit (i * 8) (ucast (ucast (drop_bit (i * 8) w) :: u8))) 0 [0..<n] = take_bit (n * 8) w"
proof (induction n)
  case (Suc n)
  then show ?case using join_byte [of "n * 8" w] by (simp add: add.commute)
qed simp

lemma foldl_bytes_at:
  fixes w :: "'a::len word"
  assumes "p = pre @ map (\<lambda>i. ucast (drop_bit (i * 8) w)) [0..<n] @ post" "at = length pre"
  shows "foldl (\<lambda>v i. v OR push_bit (i * 8) (ucast (p ! (at + i) :: u8))) 0 [0..<n] = take_bit (n * 8) w"
proof -
  have "foldl (\<lambda>v i. v OR push_bit (i * 8) (ucast (p ! (at + i) :: u8))) 0 [0..<n] =
      foldl (\<lambda>v i. v OR push_bit (i * 8) (ucast (ucast (drop_bit (i * 8) w) :: u8))) (0 :: 'a word) [0..<n]"
    by (rule foldl_cong) (simp_all add: assms nth_append)
  then show ?thesis by (simp only: join_bytes)
qed

lemma read_u16_at: "p = pre @ write_u16 v @ post \<Longrightarrow> at = length pre \<Longrightarrow> read_u16 p at = v"
  by (rule bit_word_eqI) (auto simp: read_u16_def write_u16_def nth_append bit_simps)

lemma read_u32_at: "p = pre @ write_u32 v @ post \<Longrightarrow> at = length pre \<Longrightarrow> read_u32 p at = v"
  unfolding read_u32_def write_u32_def by (subst foldl_bytes_at) (auto simp: take_bit_word_eq_self)

lemma read_u64_at: "p = pre @ write_u64 v @ post \<Longrightarrow> at = length pre \<Longrightarrow> read_u64 p at = v"
  unfolding read_u64_def write_u64_def by (subst foldl_bytes_at) (auto simp: take_bit_word_eq_self)

lemma write_length [simp]: "length (write_u16 v) = 2" "length (write_u32 w) = 4" "length (write_u64 d) = 8"
  by (simp_all add: write_u16_def write_u32_def write_u64_def)

lemma length_state_bytes [simp]: "length (state_bytes s) = 60"
  by (simp add: state_bytes_def)

text \<open>A chunk with the given header words, state, id and payload.\<close>

definition chunk :: "u32 \<Rightarrow> ForeignState \<Rightarrow> u32 \<Rightarrow> u8 list \<Rightarrow> u8 list \<Rightarrow> u8 list" where
  "chunk owner s version ident payload =
     write_u32 FOREIGN_SAVE_MAGIC @ write_u16 FOREIGN_SAVE_FORMAT_VERSION @ write_u16 (of_nat (length ident)) @
     write_u32 owner @ state_bytes s @ write_u32 version @ write_u32 (of_nat (length payload)) @ ident @ payload"

lemma chunk_header:
  "read_u32 (chunk owner s version ident payload) 0 = FOREIGN_SAVE_MAGIC"
  "read_u16 (chunk owner s version ident payload) 4 = FOREIGN_SAVE_FORMAT_VERSION"
  "read_u16 (chunk owner s version ident payload) 6 = of_nat (length ident)"
  "read_u32 (chunk owner s version ident payload) 8 = owner"
proof -
  show "read_u32 (chunk owner s version ident payload) 0 = FOREIGN_SAVE_MAGIC"
    by (rule read_u32_at [where pre = "[]"]) (simp_all add: chunk_def)
  show "read_u16 (chunk owner s version ident payload) 4 = FOREIGN_SAVE_FORMAT_VERSION"
    by (rule read_u16_at [where pre = "write_u32 FOREIGN_SAVE_MAGIC"]) (simp_all add: chunk_def)
  show "read_u16 (chunk owner s version ident payload) 6 = of_nat (length ident)"
    by (rule read_u16_at [where pre = "write_u32 FOREIGN_SAVE_MAGIC @ write_u16 FOREIGN_SAVE_FORMAT_VERSION"])
      (simp_all add: chunk_def)
  show "read_u32 (chunk owner s version ident payload) 8 = owner"
    by (rule read_u32_at [where pre = "write_u32 FOREIGN_SAVE_MAGIC @ write_u16 FOREIGN_SAVE_FORMAT_VERSION @
        write_u16 (of_nat (length ident))"]) (simp_all add: chunk_def)
qed

lemma chunk_tail:
  "read_u32 (chunk owner s version ident payload) 72 = version"
  "read_u32 (chunk owner s version ident payload) 76 = of_nat (length payload)"
  "drop 80 (chunk owner s version ident payload) = ident @ payload"
  "length (chunk owner s version ident payload) = 80 + length ident + length payload"
proof -
  let ?head = "write_u32 FOREIGN_SAVE_MAGIC @ write_u16 FOREIGN_SAVE_FORMAT_VERSION @ write_u16 (of_nat (length ident)) @
     write_u32 owner @ state_bytes s"
  show "read_u32 (chunk owner s version ident payload) 72 = version"
    by (rule read_u32_at [where pre = ?head]) (simp_all add: chunk_def)
  show "read_u32 (chunk owner s version ident payload) 76 = of_nat (length payload)"
    by (rule read_u32_at [where pre = "?head @ write_u32 version"]) (simp_all add: chunk_def)
qed (simp_all add: chunk_def)

lemma state_read:
  assumes "p = pre @ state_bytes s @ post" "length pre = 12"
  shows "stored_state p = s"
proof -
  have p: "p = pre @ write_u32 (fs_state s) @ write_u32 (fs_state_frame s) @
     write_u64 (fs_x s) @ write_u64 (fs_y s) @ write_u64 (fs_vx s) @ write_u64 (fs_vy s) @
     write_u32 (fs_facing s) @ write_u32 (fs_grounded s) @ write_u32 (fs_fast_fall s) @
     write_u32 (fs_air_cause s) @ write_u32 (fs_jump_phase s) @ post"
    using assms(1) by (simp add: state_bytes_def)
  let ?m = "pre @ write_u32 (fs_state s) @ write_u32 (fs_state_frame s)"
  let ?d = "?m @ write_u64 (fs_x s) @ write_u64 (fs_y s) @ write_u64 (fs_vx s) @ write_u64 (fs_vy s)"
  have "read_u32 p 12 = fs_state s" by (rule read_u32_at [where pre = pre]) (simp_all add: p assms(2))
  moreover have "read_u32 p 16 = fs_state_frame s"
    by (rule read_u32_at [where pre = "pre @ write_u32 (fs_state s)"]) (simp_all add: p assms(2))
  moreover have "read_u64 p 20 = fs_x s" by (rule read_u64_at [where pre = ?m]) (simp_all add: p assms(2))
  moreover have "read_u64 p 28 = fs_y s"
    by (rule read_u64_at [where pre = "?m @ write_u64 (fs_x s)"]) (simp_all add: p assms(2))
  moreover have "read_u64 p 36 = fs_vx s"
    by (rule read_u64_at [where pre = "?m @ write_u64 (fs_x s) @ write_u64 (fs_y s)"]) (simp_all add: p assms(2))
  moreover have "read_u64 p 44 = fs_vy s"
    by (rule read_u64_at [where pre = "?m @ write_u64 (fs_x s) @ write_u64 (fs_y s) @ write_u64 (fs_vx s)"])
      (simp_all add: p assms(2))
  moreover have "read_u32 p 52 = fs_facing s" by (rule read_u32_at [where pre = ?d]) (simp_all add: p assms(2))
  moreover have "read_u32 p 56 = fs_grounded s"
    by (rule read_u32_at [where pre = "?d @ write_u32 (fs_facing s)"]) (simp_all add: p assms(2))
  moreover have "read_u32 p 60 = fs_fast_fall s"
    by (rule read_u32_at [where pre = "?d @ write_u32 (fs_facing s) @ write_u32 (fs_grounded s)"]) (simp_all add: p assms(2))
  moreover have "read_u32 p 64 = fs_air_cause s"
    by (rule read_u32_at [where pre = "?d @ write_u32 (fs_facing s) @ write_u32 (fs_grounded s) @ write_u32 (fs_fast_fall s)"])
      (simp_all add: p assms(2))
  moreover have "read_u32 p 68 = fs_jump_phase s"
    by (rule read_u32_at [where pre = "?d @ write_u32 (fs_facing s) @ write_u32 (fs_grounded s) @
        write_u32 (fs_fast_fall s) @ write_u32 (fs_air_cause s)"]) (simp_all add: p assms(2))
  ultimately show ?thesis by (simp add: stored_state_def)
qed

lemma chunk_state: "stored_state (chunk owner s version ident payload) = s"
  by (rule state_read [where pre = "write_u32 FOREIGN_SAVE_MAGIC @ write_u16 FOREIGN_SAVE_FORMAT_VERSION @
      write_u16 (of_nat (length ident)) @ write_u32 owner"]) (simp_all add: chunk_def)

section \<open>The registry\<close>

text \<open>
  What every operation keeps: at most 16 controllers, each with an id and a tick, no two with one
  id, and the active one among them.
\<close>

definition registry_ok :: "Foreign \<Rightarrow> bool" where
  "registry_ok st \<longleftrightarrow> length (fo_controllers st) \<le> FOREIGN_MAX_CONTROLLERS \<and>
     distinct (map fc_id (fo_controllers st)) \<and>
     list_all (\<lambda>c. fc_id c \<noteq> [] \<and> fc_tick c \<noteq> None) (fo_controllers st) \<and>
     (case fo_active st of None \<Rightarrow> True | Some c \<Rightarrow> c \<in> set (fo_controllers st)) \<and>
     length (fo_ring st) = FTRING_N"

lemma bytes_of_inj [simp]: "bytes_of a = bytes_of b \<longleftrightarrow> a = b"
proof -
  have "inj (of_char :: char \<Rightarrow> u8)"
  proof (rule injI)
    fix c d :: char
    assume "(of_char c :: u8) = of_char d"
    then have "unat (of_nat (of_char c) :: u8) = unat (of_nat (of_char d) :: u8)" by (simp only: of_nat_of_char)
    then show "c = d" by (simp add: unat_of_nat take_bit_eq_mod del: word_of_nat_eq_iff)
  qed
  then show ?thesis by (simp add: bytes_of_def inj_map_eq_map)
qed

lemma bytes_of_Nil [simp]: "bytes_of s = [] \<longleftrightarrow> s = []" "length (bytes_of s) = length s"
  by (simp_all add: bytes_of_def)

lemma find_controller_Some: "find_controller i st = Some c \<Longrightarrow> c \<in> set (fo_controllers st) \<and> bytes_of (fc_id c) = i"
  by (auto simp: find_controller_def find_Some_iff)

lemma find_distinct:
  "distinct (map f xs) \<Longrightarrow> c \<in> set xs \<Longrightarrow> find (\<lambda>d. f d = f c) xs = Some c"
  by (induction xs) (auto simp: image_iff)

lemma find_registered:
  "registry_ok st \<Longrightarrow> c \<in> set (fo_controllers st) \<Longrightarrow> find_controller (bytes_of (fc_id c)) st = Some c"
  unfolding find_controller_def registry_ok_def by (simp add: find_distinct)

lemma latest_trace_keeps [simp]:
  "fo_controllers (latest_trace f st) = fo_controllers st" "fo_active (latest_trace f st) = fo_active st"
  "length (fo_ring (latest_trace f st)) = length (fo_ring st)" "fo_state (latest_trace f st) = fo_state st"
  "fo_ownership (latest_trace f st) = fo_ownership st" "fo_head (latest_trace f st) = fo_head st"
  by (simp_all add: latest_trace_def)

lemma trace_push_keeps [simp]:
  "fo_controllers (snes_foreign_trace_push e st) = fo_controllers st" "fo_active (snes_foreign_trace_push e st) = fo_active st"
  "length (fo_ring (snes_foreign_trace_push e st)) = length (fo_ring st)"
  "fo_ownership (snes_foreign_trace_push e st) = fo_ownership st" "fo_state (snes_foreign_trace_push e st) = fo_state st"
  by (simp_all add: snes_foreign_trace_push_def)


lemma register_keeps_registry: "registry_ok st \<Longrightarrow> registry_ok (snd (snes_foreign_register c st))"
  by (auto simp: registry_ok_def snes_foreign_register_def FOREIGN_MAX_CONTROLLERS_def find_None_iff
      split: option.splits)

lemma select_keeps_registry: "registry_ok st \<Longrightarrow> registry_ok (snd (snes_foreign_select i st))"
  by (auto simp: registry_ok_def snes_foreign_select_def Let_def split: option.splits dest: find_controller_Some)

lemma tick_keeps_registry: "registry_ok st \<Longrightarrow> registry_ok (snd (snd (snes_foreign_tick frame input st)))"
  by (auto simp: registry_ok_def snes_foreign_tick_def Let_def split: option.splits prod.splits)

lemma resolve_keeps_registry: "registry_ok st \<Longrightarrow> registry_ok (snes_foreign_resolve hit st)"
  by (auto simp: registry_ok_def snes_foreign_resolve_def Let_def split: option.splits)

lemma load_controller_Some: "load_controller p st = Some (Some c, s) \<Longrightarrow> c \<in> set (fo_controllers st)"
  by (auto simp: load_controller_def Let_def split: if_splits option.splits dest: find_controller_Some)

lemma load_keeps_registry: "registry_ok st \<Longrightarrow> registry_ok (snd (snes_foreign_load p st))"
  by (auto simp: registry_ok_def snes_foreign_load_def ftring_clear_def Let_def split: option.splits
      dest: load_controller_Some)

text \<open>The states that the module's operations reach, one rule for each operation that changes the state.\<close>

inductive foreign_reachable :: "Foreign \<Rightarrow> bool" where
  at_start: "foreign_reachable initial_foreign"
| after_register: "foreign_reachable st \<Longrightarrow> foreign_reachable (snd (snes_foreign_register c st))"
| after_select: "foreign_reachable st \<Longrightarrow> foreign_reachable (snd (snes_foreign_select ident st))"
| after_ownership: "foreign_reachable st \<Longrightarrow> foreign_reachable (snes_foreign_set_ownership ow st)"
| after_tick: "foreign_reachable st \<Longrightarrow> foreign_reachable (snd (snd (snes_foreign_tick frame input st)))"
| after_resolve: "foreign_reachable st \<Longrightarrow> foreign_reachable (snes_foreign_resolve hit st)"
| after_native: "foreign_reachable st \<Longrightarrow> foreign_reachable (snes_foreign_trace_note_native x y st)"
| after_reseed: "foreign_reachable st \<Longrightarrow> foreign_reachable (snes_foreign_trace_note_reseed st)"
| after_flags: "foreign_reachable st \<Longrightarrow> foreign_reachable (snes_foreign_trace_note_flags flags st)"
| after_load: "foreign_reachable st \<Longrightarrow> foreign_reachable (snd (snes_foreign_load p st))"

lemma registry_latest: "registry_ok (latest_trace f st) = registry_ok st"
  by (simp add: registry_ok_def cong: option.case_cong)

lemma reachable_registry: "foreign_reachable st \<Longrightarrow> registry_ok st"
proof (induction rule: foreign_reachable.induct)
  case at_start
  show ?case by (simp add: registry_ok_def initial_foreign_def)
next
  case (after_ownership st ow)
  then show ?case by (simp add: registry_ok_def snes_foreign_set_ownership_def cong: option.case_cong)
qed (simp_all add: register_keeps_registry select_keeps_registry tick_keeps_registry resolve_keeps_registry
    load_keeps_registry registry_latest snes_foreign_trace_note_native_def snes_foreign_trace_note_reseed_def
    snes_foreign_trace_note_flags_def)

section \<open>Saving and loading\<close>

text \<open>What a controller that saves owes the snapshot: its deserializer undoes its serializer.\<close>

definition restores :: "ForeignController \<Rightarrow> bool" where
  "restores c \<longleftrightarrow> (\<forall>serialize deserialize s payload.
     fc_serialize c = Some serialize \<longrightarrow> fc_deserialize c = Some deserialize \<longrightarrow>
     serialize s SNES_FOREIGN_SAVE_MAX_PAYLOAD = Some payload \<longrightarrow>
     deserialize s payload (fc_save_version c) = Some s)"

lemma ownership_of_number [simp]: "ownership_of (ownership_number ow) = Some ow"
  by (cases ow) (simp_all add: ownership_of_def)

lemma save_chunk:
  "snes_foreign_save capacity st = Some bs \<Longrightarrow> \<exists>ident version payload.
     controller_payload st = Some (ident, version, payload) \<and>
     bs = chunk (ownership_number (fo_ownership st)) (fo_state st) version ident payload"
  by (auto simp: snes_foreign_save_def chunk_def split: option.splits if_splits)

lemma payload_small:
  "controller_payload st = Some (ident, version, payload) \<Longrightarrow>
     length ident \<le> FOREIGN_SAVE_MAX_ID \<and> length payload \<le> SNES_FOREIGN_SAVE_MAX_PAYLOAD"
  by (auto simp: controller_payload_def Let_def split: option.splits if_splits)

lemma load_of_payload:
  assumes st: "registry_ok st" and same: "fo_controllers st' = fo_controllers st"
    and pl: "controller_payload st = Some (ident, version, payload)"
    and r: "list_all restores (fo_controllers st)"
  shows "load_controller (chunk owner (fo_state st) version ident payload) st' = Some (fo_active st, fo_state st)"
proof -
  note small = payload_small [OF pl, unfolded FOREIGN_SAVE_MAX_ID_def SNES_FOREIGN_SAVE_MAX_PAYLOAD_def]
  have n: "unat (of_nat (length ident) :: u16) = length ident" "unat (of_nat (length payload) :: u32) = length payload"
    using small by (simp_all add: unat_of_nat take_bit_eq_mod)
  note c = chunk_header chunk_tail chunk_state n
  have d: "drop (80 + length ident) (chunk owner (fo_state st) version ident payload) = payload"
    using arg_cong [OF chunk_tail(3), of "drop (length ident)"] by (simp add: add.commute)
  show ?thesis
  proof (cases "fo_active st")
    case None
    then show ?thesis using pl by (auto simp: load_controller_def controller_payload_def c)
  next
    case (Some a)
    then have a: "a \<in> set (fo_controllers st)" using st by (simp add: registry_ok_def)
    have ident: "ident = bytes_of (fc_id a)" "ident \<noteq> []" "controller_has_valid_save_callbacks (Some a)"
      using pl Some by (auto simp: controller_payload_def Let_def split: option.splits if_splits)
    have find: "find_controller ident st' = Some a"
      using find_registered [OF st a] same by (simp add: ident(1) find_controller_def)
    have "restores a" using r a by (simp add: list_all_iff)
    have ne: "length ident \<noteq> 0" using ident(2) by simp
    show ?thesis
    proof (cases "fc_serialize a")
      case None
      then have "version = 0" "payload = []" "fc_deserialize a = None"
        using pl Some ident(3)
        by (simp_all add: controller_payload_def controller_has_valid_save_callbacks_def Let_def split: if_splits)
      then show ?thesis using ident(3) None
        unfolding load_controller_def Let_def c FOREIGN_SAVE_FIXED_SIZE_def Some by (simp add: find ident(2))
    next
      case (Some serialize)
      then obtain deserialize where des: "fc_deserialize a = Some deserialize"
        using ident(3) by (auto simp: controller_has_valid_save_callbacks_def)
      have "version = fc_save_version a" "serialize (fo_state st) SNES_FOREIGN_SAVE_MAX_PAYLOAD = Some payload"
        using pl Some \<open>fo_active st = Some a\<close>
        by (simp_all add: controller_payload_def Let_def split: if_splits option.splits)
      then have "deserialize (fo_state st) payload version = Some (fo_state st)" "version = fc_save_version a"
        using \<open>restores a\<close> Some des by (simp_all add: restores_def)
      then show ?thesis using ident(3) Some des
        unfolding load_controller_def Let_def c FOREIGN_SAVE_FIXED_SIZE_def d \<open>fo_active st = Some a\<close>
        by (simp add: find ident(2))
    qed
  qed
qed


section \<open>The trace as a queue of the latest entries\<close>

text \<open>
  The abstract trace is the list of all entries since the last clear, oldest first; the ring shows
  the latest 16384 of them.
\<close>

definition ring_shows :: "ForeignTraceEntry list \<Rightarrow> Foreign \<Rightarrow> bool" where
  "ring_shows es st \<longleftrightarrow> length es < 2 ^ 32 \<and> unat (fo_head st) = length es \<and> length (fo_ring st) = FTRING_N \<and>
     (\<forall>i < length es. length es \<le> i + FTRING_N \<longrightarrow> fo_ring st ! (i mod FTRING_N) = es ! i)"

lemma ring_index: "unat (h AND of_nat (FTRING_N - 1) :: u32) = unat h mod FTRING_N"
proof -
  have "h AND of_nat (FTRING_N - 1) = take_bit 14 h"
    by (simp add: take_bit_eq_mask mask_eq_exp_minus_1 FTRING_N_def)
  moreover have "unat (take_bit 14 h) = unat h mod 2 ^ 14" 
    unfolding unsigned_take_bit_eq by (simp only: take_bit_eq_mod)
  ultimately show ?thesis by (simp add: FTRING_N_def)
qed

lemma push_at:
  "snes_foreign_trace_push e st =
     st\<lparr>fo_ring := (fo_ring st)[unat (fo_head st) mod FTRING_N := e], fo_head := fo_head st + 1\<rparr>"
  by (simp only: snes_foreign_trace_push_def ring_index)

lemma ring_clear: "ring_shows [] (ftring_clear st)"
  by (simp add: ring_shows_def ftring_clear_def)

lemma mod_same_window:
  "i < (n :: nat) \<Longrightarrow> n < i + k \<Longrightarrow> i mod k \<noteq> n mod k"
proof
  assume "i < n" "n < i + k" "i mod k = n mod k"
  then have "k dvd n - i" by (metis less_imp_le mod_eq_dvd_iff_nat)
  then show False using \<open>i < n\<close> \<open>n < i + k\<close> by (auto dest: dvd_imp_le)
qed

lemma ring_push:
  assumes r: "ring_shows es st" and l: "length es + 1 < 2 ^ 32"
  shows "ring_shows (es @ [e]) (snes_foreign_trace_push e st)"
proof -
  have head: "unat (fo_head st + 1) = length es + 1"
    using r l by (simp add: ring_shows_def unat_word_ariths)
  have f: "0 < FTRING_N" by (simp add: FTRING_N_def)
  have "fo_ring (snes_foreign_trace_push e st) ! (i mod FTRING_N) = (es @ [e]) ! i"
    if i: "i < length (es @ [e])" "length (es @ [e]) \<le> i + FTRING_N" for i
  proof (cases "i = length es")
    case True
    then show ?thesis using r f by (simp add: push_at ring_shows_def)
  next
    case False
    then have "i mod FTRING_N \<noteq> length es mod FTRING_N" using i by (intro mod_same_window) simp_all
    then show ?thesis using r i False by (simp add: push_at ring_shows_def nth_append)
  qed
  then show ?thesis using r l head by (simp add: ring_shows_def push_at)
qed

lemma ring_pushes:
  "ring_shows es st \<Longrightarrow> length es + length fs < 2 ^ 32 \<Longrightarrow>
     ring_shows (es @ fs) (fold snes_foreign_trace_push fs st)"
proof (induction fs arbitrary: es st)
  case (Cons f fs)
  then have "ring_shows ((es @ [f]) @ fs) (fold snes_foreign_trace_push fs (snes_foreign_trace_push f st))"
    by (intro Cons.IH ring_push) simp_all
  then show ?case by simp
qed simp

lemma ring_trace_count: "ring_shows es st \<Longrightarrow> snes_foreign_trace_count st = min (length es) FTRING_N"
  by (auto simp: ring_shows_def snes_foreign_trace_count_def)

lemma ring_trace_last:
  assumes r: "ring_shows es st"
  shows "snes_foreign_trace_last n st = drop (length es - min (nat n) FTRING_N) es"
proof (cases "n \<le> 0")
  case False
  define k where "k = min (nat n) (min (length es) FTRING_N)"
  have k: "k \<le> length es" "k \<le> FTRING_N" by (auto simp: k_def)
  have idx: "unat ((fo_head st - of_nat k + of_nat i) AND of_nat (FTRING_N - 1)) = (length es - k + i) mod FTRING_N"
    if "i < k" for i
  proof -
    have "unat (fo_head st - of_nat k + of_nat i) = length es - k + i"
    proof -
      have "fo_head st = of_nat (length es)" 
      proof -
        have "length es = unat (fo_head st)" using r by (simp add: ring_shows_def)
        then show ?thesis by (simp only:) simp
      qed
      then have "fo_head st - of_nat k + of_nat i = (of_nat (length es - k + i) :: u32)"
        using k by (simp add: of_nat_diff)
      moreover have "length es - k + i < 2 ^ 32"
      proof -
        have "length es < 2 ^ 32" using r by (simp add: ring_shows_def)
        then show ?thesis using that k by linarith
      qed
      ultimately show ?thesis by (simp only: unat_of_nat take_bit_eq_mod) simp
    qed
    then show ?thesis by (simp only: ring_index)
  qed
  have e: "fo_ring st ! ((length es - k + i) mod FTRING_N) = es ! (length es - k + i)" if "i < k" for i
    using r k that by (simp add: ring_shows_def)
  have "snes_foreign_trace_last n st = map (\<lambda>i. es ! (length es - k + i)) [0..<k]"
    using False unfolding snes_foreign_trace_last_def Let_def ring_trace_count [OF r] k_def [symmetric]
    by (simp only: if_False) (rule map_cong [OF refl], simp only: idx e atLeastLessThan_iff set_upt)
  also have "\<dots> = drop (length es - k) es"
    using k by (intro nth_equalityI) simp_all
  also have "length es - k = length es - min (nat n) FTRING_N" by (auto simp: k_def)
  finally show ?thesis .
qed (simp add: snes_foreign_trace_last_def)

text \<open>
  C34. The ring refines the list of all entries: whatever ticks were pushed since the last clear, the
  trace shows the latest n of them, at most 16384, oldest first.
\<close>

theorem trace_keeps_latest:
  assumes "length es < 2 ^ 32"
  shows "snes_foreign_trace_last n (fold snes_foreign_trace_push es (ftring_clear st)) =
    drop (length es - min (nat n) FTRING_N) es"
proof -
  have "ring_shows ([] @ es) (fold snes_foreign_trace_push es (ftring_clear st))"
    by (rule ring_pushes [OF ring_clear]) (use assms in simp)
  then show ?thesis by (simp only: append_Nil ring_trace_last)
qed


section \<open>The sweep stops in the open\<close>

definition free_or_start :: "(double_bits \<Rightarrow> double_bits \<Rightarrow> bool) \<Rightarrow> double_bits \<times> double_bits \<Rightarrow> Sweep \<Rightarrow> bool" where
  "free_or_start blocked start s \<longleftrightarrow> \<not> blocked (sw_x s) (sw_y s) \<or> (sw_x s, sw_y s) = start"

lemma sweep_step_free: "free_or_start probe p s \<Longrightarrow> free_or_start probe p (sweep_step d probe step_x step_y s)"
  by (auto simp: free_or_start_def sweep_step_def Let_def)

lemma sweep_loop_free: "free_or_start probe p s \<Longrightarrow> free_or_start probe p (sweep_loop d probe step_x step_y n s)"
  by (induction n arbitrary: s) (simp_all add: sweep_step_free)

lemma sweep_steps_bounds: "1 \<le> sweep_steps d dx dy max_step \<and> sweep_steps d dx dy max_step \<le> 4096"
  by (simp add: sweep_steps_def Let_def)

lemma sweep_ends_free:
  "\<exists>x' y'. cr_actual_dx (snes_foreign_sweep d x y dx dy max_step (Some blocked)) = dd_sub d x' x \<and>
     cr_actual_dy (snes_foreign_sweep d x y dx dy max_step (Some blocked)) = dd_sub d y' y \<and>
     (\<not> blocked x' y' \<or> (x', y') = (x, y))"
proof -
  let ?n = "sweep_steps d dx dy max_step"
  let ?t = "sweep_loop d blocked (dd_div d dx (dd_of_int d ?n)) (dd_div d dy (dd_of_int d ?n)) (nat ?n)
    \<lparr>sw_x = x, sw_y = y, sw_blocked_x = False, sw_blocked_y = False\<rparr>"
  have "free_or_start blocked (x, y) ?t" by (rule sweep_loop_free) (simp add: free_or_start_def)
  then show ?thesis
    by (intro exI [of _ "sw_x ?t"] exI [of _ "sw_y ?t"]) (simp add: snes_foreign_sweep_def Let_def free_or_start_def)
qed

end
