(* ===== verification/Renderer_Hooks.thy ===== *)
theory Renderer_Hooks
  imports Guest_Cpu Renderer_Objects
begin

unbundle bit_operations_syntax

text \<open>
  The hooks of the host renderer in the game's code, \<^verbatim>\<open>src/smw_renderer_hooks.c\<close>: they replace the
  game's visibility decisions by those of the wider viewport, tell the renderer which object draws
  what, and select the sprites that the level's list brings into the wider view.

  A hook runs in front of one instruction of the game and changes its registers and memory.  Bank
  \<^verbatim>\<open>$7E\<close> is the work RAM; what the framework reads in another bank is the parameter \<open>re_bus\<close>.
  The diagnostic trace of the spawns is left out.
\<close>

section \<open>The state of the hooks\<close>

record SpawnState =
  sp_list :: u32
  sp_visited :: "u8 list"
  sp_pending :: u8

definition fresh_spawns :: SpawnState where
  "fresh_spawns = \<lparr>sp_list = 0, sp_visited = replicate 128 0, sp_pending = 255\<rparr>"

record HookState =
  rh_spawn_frame :: u32
  rh_spawn :: SpawnState
  rh_restored :: SpawnState
  rh_restored_extra :: bool
  rh_fireball_x :: int
  rh_wing_x :: int
  rh_wing_draw :: bool
  rh_baseball_draw :: bool

record RenderEnv =
  re_enabled :: bool
  re_adaptive :: bool
  re_view :: SmwViewport
  re_bus :: "mem \<Rightarrow> u8 \<Rightarrow> u16 \<Rightarrow> u8"
  re_alloc :: allocator

record HookWorld =
  hw_cpu :: CpuState
  hw_ram :: mem
  hw_hooks :: HookState
  hw_renderer :: Renderer

definition SmwRendererSpawnFrame :: "RenderEnv \<Rightarrow> mem \<Rightarrow> HookState \<Rightarrow> HookState" where
  "SmwRendererSpawnFrame env ram h =
     (let h1 = h\<lparr>rh_spawn_frame := rh_spawn_frame h + 1\<rparr>
      in if \<not> re_enabled env \<or> \<not> re_adaptive env \<or> vp_width (re_view env) \<le> 256 \<or> ram 0x100 \<noteq> 0x14 \<or> ram 0x5b AND 1 \<noteq> 0
         then h1\<lparr>rh_spawn := fresh_spawns\<rparr> else h1)"

section \<open>Reading the guest\<close>

definition cpu_read8 :: "RenderEnv \<Rightarrow> mem \<Rightarrow> u8 \<Rightarrow> u16 \<Rightarrow> u8" where
  "cpu_read8 env ram bank a = (if bank = 0x7e then ram (unat a) else re_bus env ram bank a)"

definition r8 :: "mem \<Rightarrow> nat \<Rightarrow> nat" where
  "r8 ram a = unat (ram (a mod 65536))"

definition r16 :: "mem \<Rightarrow> nat \<Rightarrow> nat" where
  "r16 ram a = r8 ram a + 256 * r8 ram (a + 1)"

text \<open>A byte and its high byte from two tables of the game, and the cast to \<open>int16_t\<close>.\<close>

definition table16 :: "mem \<Rightarrow> nat \<Rightarrow> nat \<Rightarrow> nat \<Rightarrow> nat" where
  "table16 ram low high slot = r8 ram (low + slot) + 256 * r8 ram (high + slot)"

definition int16 :: "int \<Rightarrow> int" where
  "int16 n = sint (word_of_int n :: u16)"

definition active :: "RenderEnv \<Rightarrow> mem \<Rightarrow> bool" where
  "active env ram \<longleftrightarrow> re_enabled env \<and> vp_width (re_view env) > 256 \<and> r8 ram 0x100 = 0x14"

definition vertical_level :: "mem \<Rightarrow> bool" where
  "vertical_level ram \<longleftrightarrow> odd (r8 ram 0x5b)"

definition left_margin :: "RenderEnv \<Rightarrow> mem \<Rightarrow> int" where
  "left_margin env ram =
     (if vertical_level ram then vp_extra (re_view env)
      else SmwViewOffset (re_view env) (int (r16 ram 0x1a)) ((int (r8 ram 0x5e) + 1) * 256))"

definition ghost_house_spare :: "mem \<Rightarrow> nat \<Rightarrow> nat option" where
  "ghost_house_spare ram ident =
     (if ident \<noteq> 0x38 \<and> ident \<noteq> 0x39 then None
      else if r8 ram 0x1692 \<noteq> 0x11 \<or> vertical_level ram then None
      else find (\<lambda>slot. r8 ram (0x14c8 + slot) = 0) [8, 9])"

definition placement_has_slot :: "RenderEnv \<Rightarrow> mem \<Rightarrow> nat \<Rightarrow> nat \<Rightarrow> bool" where
  "placement_has_slot env ram ident x =
     (let table = (\<lambda>base memory. unat (cpu_read8 env ram 2 (of_nat (base + memory))));
          memory = r8 ram 0x1692
      in if 0xc9 \<le> ident \<and> ident < 0xda \<or> ident = 0xe0 \<or> ident \<ge> 0xe1 \<or> ident = 0x7b then True
         else if memory \<ge> 19 then True
         else
           let first = (table 0xa773 memory, table 0xa7ac memory);
               second = (if ident = table 0xa7d2 memory then (table 0xa786 memory, table 0xa7bf memory) else first);
               (top, bottom) = (if ident = table 0xa7e4 memory \<and> (ident \<noteq> 0x64 \<or> odd (x div 16))
                                then (table 0xa799 memory, 255) else second);
               after = (if bottom = 255 then 0 else bottom + 1)
           in if top \<ge> 12 \<or> after > top then True
              else list_ex (\<lambda>slot. r8 ram (0x14c8 + slot) = 0) (rev [after..<top + 1]) \<or>
                top = 5 \<and> bottom = 255 \<and> ghost_house_spare ram (if ident = 0xde then 0x39 else ident) \<noteq> None)"

section \<open>Visibility\<close>

definition set_cpu :: "(CpuState \<Rightarrow> CpuState) \<Rightarrow> HookWorld \<Rightarrow> HookWorld" where
  "set_cpu f w = w\<lparr>hw_cpu := f (hw_cpu w)\<rparr>"

definition set_ram :: "nat \<Rightarrow> u8 \<Rightarrow> HookWorld \<Rightarrow> HookWorld" where
  "set_ram a v w = w\<lparr>hw_ram := (hw_ram w)(a mod 65536 := v)\<rparr>"

definition set_hooks :: "(HookState \<Rightarrow> HookState) \<Rightarrow> HookWorld \<Rightarrow> HookWorld" where
  "set_hooks f w = w\<lparr>hw_hooks := f (hw_hooks w)\<rparr>"

definition set_renderer :: "(Renderer \<Rightarrow> Renderer) \<Rightarrow> HookWorld \<Rightarrow> HookWorld" where
  "set_renderer f w = w\<lparr>hw_renderer := f (hw_renderer w)\<rparr>"

definition sprite_x :: "mem \<Rightarrow> nat \<Rightarrow> int" where
  "sprite_x ram slot = int16 (int (table16 ram 0xe4 0x14e0 slot) - int (r16 ram 0x1a))"

definition sprite_y :: "mem \<Rightarrow> nat \<Rightarrow> int" where
  "sprite_y ram slot = int16 (int (table16 ram 0xd8 0x14d4 slot) - int (r16 ram 0x1c))"

definition extended_x :: "mem \<Rightarrow> nat \<Rightarrow> int" where
  "extended_x ram slot = int16 (int (table16 ram 0x171f 0x1733 slot) - int (r16 ram 0x1a))"

definition beside_view :: "RenderEnv \<Rightarrow> mem \<Rightarrow> int \<Rightarrow> bool" where
  "beside_view env ram x \<longleftrightarrow> x < - left_margin env ram \<or> x \<ge> vp_width (re_view env) - left_margin env ram"

text \<open>The end of the object's span in the table: the next allocation after its own.\<close>

definition span_end :: "mem \<Rightarrow> nat \<Rightarrow> nat" where
  "span_end ram start =
     foldl (\<lambda>stop i. let n = r8 ram (0x15ea + i) in if n > start \<and> n < stop then n else stop) 256 [0..<12]"

definition SmwRendererDrawInfo :: "RenderEnv \<Rightarrow> HookWorld \<Rightarrow> HookWorld" where
  "SmwRendererDrawInfo env w =
     (let ram = hw_ram w; slot = unat (cpu_X (hw_cpu w))
      in if \<not> active env ram \<or> slot \<ge> 12 then w
         else
           let x = sprite_x ram slot; left = left_margin env ram;
               draw = (x \<ge> - left - 64 \<and> x < vp_width (re_view env) - left);
               start = r8 ram (0x15ea + slot);
               w1 = (if draw then set_renderer (SmwRendererRecordSprite slot x (sprite_y ram slot) start (span_end ram start)) w
                     else w)
           in set_ram (0x15c4 + slot) (if draw then 0 else 1)
                (set_cpu (\<lambda>c. c\<lparr>cpu_flag_Z := draw, cpu_flag_C := \<not> draw\<rparr>) w1))"

definition egg_offscreen :: "RenderEnv \<Rightarrow> HookWorld \<Rightarrow> HookWorld" where
  "egg_offscreen env w =
     (let ram = hw_ram w; slot = unat (cpu_X (hw_cpu w))
      in if slot \<ge> 12 \<or> \<not> cpu_m_flag (hw_cpu w) then w
         else
           let result = ram (0x186c + slot) OR (if beside_view env ram (sprite_x ram slot) then 1 else 0);
               z = (result = 0); n = (drop_bit 7 result AND 1 \<noteq> 0)
           in set_cpu (\<lambda>c. c\<lparr>cpu_A := (cpu_A c AND 0xff00) OR ucast result, cpu_flag_Z := z, cpu_flag_N := n,
                cpu_P := (cpu_P c AND NOT 0x82) OR (if z then 0x02 else 0) OR (if n then 0x80 else 0)\<rparr>) w)"

definition sprite_contact :: "RenderEnv \<Rightarrow> HookWorld \<Rightarrow> HookWorld" where
  "sprite_contact env w =
     (let ram = hw_ram w; slot = unat (cpu_X (hw_cpu w))
      in if slot \<ge> 12 \<or> \<not> cpu_m_flag (hw_cpu w) then w
         else
           let frame = ram ((unat (cpu_D (hw_cpu w)) + 0x13) mod 65536);
               result = ((of_nat slot XOR frame) AND 1) OR (if beside_view env ram (sprite_x ram slot) then 1 else 0);
               z = (result = 0)
           in set_cpu (\<lambda>c. c\<lparr>cpu_A := (cpu_A c AND 0xff00) OR ucast result, cpu_flag_Z := z, cpu_flag_N := False,
                cpu_P := (cpu_P c AND NOT 0x82) OR (if z then 0x02 else 0)\<rparr>) w)"

definition player_piece :: "HookWorld \<Rightarrow> HookWorld" where
  "player_piece w =
     (let ram = hw_ram w; c = hw_cpu w; index = unat (cpu_Y c) mod 256;
          pos = r8 ram (0x301 + index) * 256 + unat (cpu_A c) mod 256
      in set_renderer (SmwRendererRecordOam (64 + index div 4) (sint (cpu_A c)) (of_nat pos)
           (of_nat (r16 ram (0x302 + index)))) w)"

text \<open>The extended sprites: the view is the native one unless the spawns are adaptive.\<close>

definition in_extended_view :: "RenderEnv \<Rightarrow> mem \<Rightarrow> int \<Rightarrow> bool" where
  "in_extended_view env ram x =
     (let left = (if re_adaptive env then left_margin env ram else 0);
          right = (if re_adaptive env then vp_width (re_view env) - left else 256)
      in x \<ge> - left \<and> x < right)"

definition baseball_visible :: "RenderEnv \<Rightarrow> HookWorld \<Rightarrow> HookWorld" where
  "baseball_visible env w =
     (let slot = unat (cpu_X (hw_cpu w)) mod 256
      in if slot \<ge> 10 then w
         else let draw = in_extended_view env (hw_ram w) (extended_x (hw_ram w) slot)
              in set_cpu (\<lambda>c. c\<lparr>cpu_flag_Z := draw\<rparr>) (set_hooks (\<lambda>h. h\<lparr>rh_baseball_draw := draw\<rparr>) w))"

definition baseball_drawn :: "HookWorld \<Rightarrow> HookWorld" where
  "baseball_drawn w =
     (let ram = hw_ram w; slot = unat (cpu_X (hw_cpu w)) mod 256; piece = unat (cpu_Y (hw_cpu w)) mod 256
      in if rh_baseball_draw (hw_hooks w) \<and> slot < 10 \<and> piece < 64
         then set_renderer (SmwRendererRecordOam piece (extended_x ram slot) (of_nat (r16 ram (0x200 + piece * 4)))
                (of_nat (r16 ram (0x202 + piece * 4)))) w
         else w)"

definition wing_visible :: "RenderEnv \<Rightarrow> HookWorld \<Rightarrow> HookWorld" where
  "wing_visible env w =
     (let ram = hw_ram w; c = hw_cpu w; index = unat (cpu_Y c) mod 256;
          x = int16 (int (unat (cpu_A c) mod 256 * 256 + r8 ram (0x300 + index)));
          left = left_margin env ram;
          draw = (x + 16 > - left \<and> x < vp_width (re_view env) - left)
      in set_cpu (\<lambda>c. c\<lparr>cpu_flag_Z := draw\<rparr>) (set_hooks (\<lambda>h. h\<lparr>rh_wing_x := x, rh_wing_draw := draw\<rparr>) w))"

definition wing_drawn :: "HookWorld \<Rightarrow> HookWorld" where
  "wing_drawn w =
     (let ram = hw_ram w; piece = unat (cpu_Y (hw_cpu w)) mod 256
      in if rh_wing_draw (hw_hooks w) \<and> piece < 64
         then set_renderer (SmwRendererRecordOam (64 + piece) (rh_wing_x (hw_hooks w))
                (of_nat (r16 ram (0x300 + piece * 4))) (of_nat (r16 ram (0x302 + piece * 4)))) w
         else w)"

definition tile_drawn :: "HookWorld \<Rightarrow> HookWorld" where
  "tile_drawn w =
     (let ram = hw_ram w; slot = unat (cpu_X (hw_cpu w)) mod 256; piece = unat (cpu_Y (hw_cpu w)) mod 256
      in if slot \<ge> 12 \<or> piece \<ge> 64 \<or> odd (r8 ram (0x186c + slot)) then w
         else set_renderer (SmwRendererRecordSpriteTile piece (sprite_x ram slot) (sprite_y ram slot)) w)"

definition fireball_visible :: "RenderEnv \<Rightarrow> HookWorld \<Rightarrow> HookWorld" where
  "fireball_visible env w =
     (let slot = unat (cpu_X (hw_cpu w)) mod 256; x = extended_x (hw_ram w) slot
      in if slot \<ge> 10 then w
         else set_cpu (\<lambda>c. c\<lparr>cpu_flag_Z := in_extended_view env (hw_ram w) x\<rparr>)
                (set_hooks (\<lambda>h. h\<lparr>rh_fireball_x := x\<rparr>) w))"

definition fireball_drawn :: "HookWorld \<Rightarrow> HookWorld" where
  "fireball_drawn w =
     (let ram = hw_ram w; index = unat (cpu_Y (hw_cpu w)) mod 256
      in set_renderer (SmwRendererRecordOam (index div 4) (rh_fireball_x (hw_hooks w))
           (of_nat (r16 ram (0x200 + index))) (of_nat (r16 ram (0x202 + index)))) w)"

definition platform_drawn :: "HookWorld \<Rightarrow> HookWorld" where
  "platform_drawn w =
     (let ram = hw_ram w; index = unat (cpu_Y (hw_cpu w)) mod 256;
          x = int16 (int (r16 ram (unat (cpu_D (hw_cpu w)) + 4)) - int (r16 ram 0x1a))
      in set_renderer (SmwRendererRecordOam (64 + index div 4) x
           (of_nat (r16 ram (0x300 + index))) (of_nat (r16 ram (0x302 + index)))) w)"


section \<open>Spawning in the wider view\<close>

definition spare_oam :: "HookWorld \<Rightarrow> HookWorld" where
  "spare_oam w =
     (let ram = hw_ram w; slot = unat (cpu_X (hw_cpu w))
      in if r8 ram 0x1692 = 0x11 \<and> \<not> vertical_level ram \<and> (slot = 8 \<or> slot = 9)
         then set_ram (0x15ea + slot) (of_nat (0xf8 + (slot - 8) * 4)) w else w)"

definition spare_slot :: "HookWorld \<Rightarrow> HookWorld" where
  "spare_slot w =
     (let ram = hw_ram w; d = unat (cpu_D (hw_cpu w))
      in if cpu_X (hw_cpu w) = 5 \<and> r8 ram (d + 6) = 255
         then (case ghost_house_spare ram (r8 ram (d + 5)) of
                 None \<Rightarrow> w
               | Some spare \<Rightarrow>
                   if list_all (\<lambda>slot. r8 ram (0x14c8 + slot) \<noteq> 0) [0..<6]
                   then set_cpu (\<lambda>c. c\<lparr>cpu_X := of_nat spare\<rparr>) w else w)
         else w)"

definition factory_slot :: "HookWorld \<Rightarrow> HookWorld" where
  "factory_slot w =
     (if unat (cpu_Y (hw_cpu w)) mod 256 = 255
      then (case ghost_house_spare (hw_ram w) 0x39 of
              None \<Rightarrow> w
            | Some spare \<Rightarrow> set_cpu (\<lambda>c. c\<lparr>cpu_Y := of_nat spare, cpu_A := (cpu_A c AND 0xff00) OR of_nat spare,
                               cpu_flag_N := False, cpu_flag_Z := False\<rparr>) w)
      else w)"

text \<open>One record of the level's sprite list: where it is, its bytes and its coordinate.\<close>

definition list_pointer :: "CpuState \<Rightarrow> mem \<Rightarrow> nat" where
  "list_pointer c ram = r16 ram (unat (cpu_D c) + 0xce) + 65536 * r8 ram (unat (cpu_D c) + 0xd0)"

definition record_byte :: "RenderEnv \<Rightarrow> CpuState \<Rightarrow> mem \<Rightarrow> nat \<Rightarrow> nat" where
  "record_byte env c ram k =
     (let a = list_pointer c ram + unat (cpu_Y c) + k in unat (cpu_read8 env ram (of_nat (a div 65536)) (of_nat (a mod 65536))))"

definition record_x :: "RenderEnv \<Rightarrow> CpuState \<Rightarrow> mem \<Rightarrow> nat" where
  "record_x env c ram =
     (let a = record_byte env c ram 0; b = record_byte env c ram 1
      in ((a div 2 mod 2) * 16 + b mod 16) * 256 + (b div 16) * 16)"

definition camera_frontier :: "mem \<Rightarrow> int" where
  "camera_frontier ram =
     (let direction = r8 ram 0x55
      in (int (r16 ram 0x1a) + (if direction = 0 then -48 else if direction = 2 then 288 else 0)) div 16 * 16)"

definition follows_camera :: "nat \<Rightarrow> bool" where
  "follows_camera ident \<longleftrightarrow> 0xcb \<le> ident \<and> ident < 0xda \<or> ident \<ge> 0xe1"

definition near_view :: "RenderEnv \<Rightarrow> mem \<Rightarrow> int \<Rightarrow> bool" where
  "near_view env ram x \<longleftrightarrow>
     (let camera = int (r16 ram 0x1a); left = left_margin env ram
      in x \<ge> camera - left - 32 \<and> x < camera + vp_width (re_view env) - left + 32)"

text \<open>A new list starts afresh; the record that was pending and is loaded is marked as visited.\<close>

definition settle_pending :: "CpuState \<Rightarrow> mem \<Rightarrow> SpawnState \<Rightarrow> SpawnState" where
  "settle_pending c ram sp =
     (let pointer = of_nat (list_pointer c ram);
          sp1 = (if sp_list sp \<noteq> pointer then fresh_spawns\<lparr>sp_list := pointer\<rparr> else sp);
          previous = unat (sp_pending sp1); sp2 = sp1\<lparr>sp_pending := 255\<rparr>
      in if previous < 128 \<and> r8 ram (0x1938 + previous) \<noteq> 0
         then sp2\<lparr>sp_visited := (sp_visited sp2)[previous := 1]\<rparr> else sp2)"

text \<open>The trigger of one of the 128 records: whether it may spawn now.\<close>

definition visit_record :: "RenderEnv \<Rightarrow> mem \<Rightarrow> nat \<Rightarrow> nat \<Rightarrow> nat \<Rightarrow> bool \<Rightarrow> SpawnState \<Rightarrow> bool \<times> SpawnState" where
  "visit_record env ram r ident x visible sp =
     (if \<not> visible then (False, sp\<lparr>sp_visited := (sp_visited sp)[r := 0]\<rparr>)
      else
        let loaded = (r8 ram (0x1938 + r) \<noteq> 0);
            sp1 = (if loaded then sp\<lparr>sp_visited := (sp_visited sp)[r := 1]\<rparr> else sp)
        in if sp_visited sp1 ! r \<noteq> 0
           then (False, if \<not> loaded \<and> sp_visited sp1 ! r \<noteq> 2
                        then sp1\<lparr>sp_visited := (sp_visited sp1)[r := 2]\<rparr> else sp1)
           else if \<not> placement_has_slot env ram ident x then (False, sp1)
           else (True, sp1\<lparr>sp_pending := of_nat r\<rparr>))"

text \<open>The decision at \<^verbatim>\<open>$02:A82E\<close>; None at the end of the list.\<close>

definition select_record :: "RenderEnv \<Rightarrow> CpuState \<Rightarrow> mem \<Rightarrow> SpawnState \<Rightarrow> bool option \<times> SpawnState" where
  "select_record env c ram sp =
     (let sp1 = settle_pending c ram sp; ident = record_byte env c ram 2; x = record_x env c ram; r = unat (cpu_X c)
      in if record_byte env c ram 0 = 255 then (None, sp1)
         else if follows_camera ident then (Some (int x = camera_frontier ram), sp1)
         else if r < 128
         then (case visit_record env ram r ident x (near_view env ram (int x)) sp1 of (ok, sp2) \<Rightarrow> (Some ok, sp2))
         else (Some (near_view env ram (int x)), sp1))"

definition spawn_select :: "RenderEnv \<Rightarrow> HookWorld \<Rightarrow> HookWorld" where
  "spawn_select env w =
     (case select_record env (hw_cpu w) (hw_ram w) (rh_spawn (hw_hooks w)) of
        (selected, sp) \<Rightarrow>
          let w1 = set_hooks (\<lambda>h. h\<lparr>rh_spawn := sp\<rparr>) w; d = unat (cpu_D (hw_cpu w));
              x = record_x env (hw_cpu w) (hw_ram w)
          in case selected of
               None \<Rightarrow> w1
             | Some visible \<Rightarrow>
                 set_ram (d + 1) (if visible then of_nat (x div 256) else 255) (set_ram d (of_nat (x div 16 mod 16 * 16)) w1))"

text \<open>The decision to erase a sprite that has left the view.\<close>

definition erase_offscreen :: "RenderEnv \<Rightarrow> nat \<Rightarrow> HookWorld \<Rightarrow> HookWorld" where
  "erase_offscreen env table w =
     (let ram = hw_ram w; c = hw_cpu w; slot = unat (cpu_X c); side = unat (cpu_Y c) mod 8
      in if vertical_level ram \<or> slot \<ge> 12 then w
         else
           let byte = (\<lambda>a. int (unat (cpu_read8 env ram (cpu_DB c) (of_nat a))));
               bound = int16 (byte (table + side) + 256 * byte (table + side + 8));
               delta = int16 (bound + int (r16 ram 0x1a) - int (table16 ram 0xe4 0x14e0 slot));
               left = left_margin env ram;
               extra = (if odd side then left else vp_width (re_view env) - 256 - left) + 32;
               threshold = (if bound \<le> -64 then extra else bound + 64 + extra);
               erase = (if odd side then delta \<ge> threshold else delta < - extra)
           in set_ram (unat (cpu_D c)) (if erase then 128 else 0) w)"

section \<open>The dispatcher\<close>

definition spawn_hook :: "RenderEnv \<Rightarrow> nat \<Rightarrow> HookWorld \<Rightarrow> HookWorld" where
  "spawn_hook env pc w =
     (if pc = 0x0180E5 then spare_oam w
      else if pc = 0x02A916 then spare_slot w
      else if pc = 0x02AFB3 then factory_slot w
      else if pc = 0x02A826 \<and> \<not> vertical_level (hw_ram w) then set_cpu (\<lambda>c. c\<lparr>cpu_flag_N := False\<rparr>) w
      else if pc = 0x02A82E \<and> \<not> vertical_level (hw_ram w) then spawn_select env w
      else if pc = 0x01AC7C then erase_offscreen env 0xac11 w
      else if pc = 0x02D076 then erase_offscreen env 0xd007 w
      else if pc = 0x03B8A8 then erase_offscreen env 0xb83f w
      else w)"

definition draw_hook :: "RenderEnv \<Rightarrow> nat \<Rightarrow> HookWorld \<Rightarrow> HookWorld option" where
  "draw_hook env pc w =
     (if pc = 0x01F76C then Some (egg_offscreen env w)
      else if pc = 0x01A7F3 then Some (sprite_contact env w)
      else if pc = 0x00E498 then Some (set_cpu (\<lambda>c. c\<lparr>cpu_flag_C := False, cpu_P := cpu_P c AND NOT 1\<rparr>) w)
      else if pc = 0x00E49A then Some (player_piece w)
      else if pc = 0x02A27E then Some (baseball_visible env w)
      else if pc = 0x02A2BE then Some (baseball_drawn w)
      else if pc = 0x01A393 \<or> pc = 0x02D3A6 \<or> pc = 0x03B78E then Some (SmwRendererDrawInfo env w)
      else if pc = 0x019E6D then Some (wing_visible env w)
      else if pc = 0x019E93 then Some (wing_drawn w)
      else if pc = 0x019F5A then Some (tile_drawn w)
      else if pc = 0x02A1BE then Some (fireball_visible env w)
      else if pc = 0x02A204 then Some (fireball_drawn w)
      else if pc = 0x01B844 then Some (platform_drawn w)
      else None)"

text \<open>The outer None is the abort of the array of draws.\<close>

definition SmwRendererGuestHook :: "RenderEnv \<Rightarrow> u32 \<Rightarrow> HookWorld \<Rightarrow> HookWorld option" where
  "SmwRendererGuestHook env pc0 w =
     (let pc = unat (pc0 AND 0x7fffff); ram = hw_ram w;
          with_renderer = map_option (\<lambda>rn. w\<lparr>hw_renderer := rn\<rparr>)
      in if pc = 0x0180B2 \<or> pc = 0x029B12 then with_renderer (SmwRendererEndActor (re_alloc env) ram (hw_renderer w))
         else if \<not> active env ram then Some w
         else if pc = 0x0180AF \<or> pc = 0x029B0C
         then with_renderer (SmwRendererBeginActor (re_alloc env) ram (if pc = 0x029B0C then 1 else 0)
                (unat (cpu_X (hw_cpu w))) (hw_renderer w))
         else case draw_hook env pc w of
                Some w' \<Rightarrow> Some w'
              | None \<Rightarrow>
                  if \<not> re_adaptive env \<or> vp_extra (re_view env) = 0 then Some w else Some (spawn_hook env pc w))"


section \<open>A record spawns once per visit\<close>

text \<open>
  The decisions over a stretch of the game: the processor and the memory at each of them are
  whatever the game made of them, the state of the triggers is handed on.
\<close>

fun decisions :: "RenderEnv \<Rightarrow> (CpuState \<times> mem) list \<Rightarrow> SpawnState \<Rightarrow> bool option list" where
  "decisions env [] sp = []"
| "decisions env ((c, ram) # visits) sp =
     (case select_record env c ram sp of (selected, sp') \<Rightarrow> selected # decisions env visits sp')"

text \<open>The decision is about the ordinary record \<open>r\<close> of a list.\<close>

definition about :: "RenderEnv \<Rightarrow> nat \<Rightarrow> CpuState \<times> mem \<Rightarrow> bool" where
  "about env r = (\<lambda>(c, ram). unat (cpu_X c) = r \<and> record_byte env c ram 0 \<noteq> 255 \<and> \<not> follows_camera (record_byte env c ram 2))"

text \<open>While the list stays, the record is only ever seen near the view.\<close>

definition stays_near :: "RenderEnv \<Rightarrow> u32 \<Rightarrow> nat \<Rightarrow> CpuState \<times> mem \<Rightarrow> bool" where
  "stays_near env l r = (\<lambda>(c, ram). of_nat (list_pointer c ram) = l \<and>
     (about env r (c, ram) \<longrightarrow> near_view env ram (int (record_x env c ram))))"

definition spawns_ok :: "SpawnState \<Rightarrow> bool" where
  "spawns_ok sp \<longleftrightarrow> length (sp_visited sp) = 128"

definition consumed :: "nat \<Rightarrow> SpawnState \<Rightarrow> bool" where
  "consumed r sp \<longleftrightarrow> spawns_ok sp \<and> sp_visited sp ! r \<noteq> 0"

lemma fresh_spawns_ok: "spawns_ok fresh_spawns"
  by (simp add: spawns_ok_def fresh_spawns_def)

lemma settle_ok: "spawns_ok sp \<Longrightarrow> spawns_ok (settle_pending c ram sp)"
  by (simp add: spawns_ok_def settle_pending_def fresh_spawns_def Let_def)

lemma settle_list [simp]: "sp_list (settle_pending c ram sp) = of_nat (list_pointer c ram)"
  by (simp add: settle_pending_def Let_def)

lemma settle_consumed:
  "consumed r sp \<Longrightarrow> r < 128 \<Longrightarrow> sp_list sp = of_nat (list_pointer c ram) \<Longrightarrow> consumed r (settle_pending c ram sp)"
  by (simp add: consumed_def settle_ok) (simp add: spawns_ok_def settle_pending_def nth_list_update Let_def)

lemma settle_loaded:
  assumes "spawns_ok sp" "r < 128" "sp_list sp = of_nat (list_pointer c ram)" "sp_pending sp = of_nat r" "r8 ram (0x1938 + r) \<noteq> 0"
  shows "consumed r (settle_pending c ram sp)"
proof -
  have "unat (of_nat r :: u8) = r" using assms(2) by (simp add: unat_of_nat take_bit_eq_mod)
  then show ?thesis using assms
    by (simp add: consumed_def settle_ok) (simp add: spawns_ok_def settle_pending_def Let_def)
qed

lemma visit_ok: "spawns_ok sp \<Longrightarrow> spawns_ok (snd (visit_record env ram r ident x visible sp))"
  by (simp add: visit_record_def spawns_ok_def Let_def)

lemma visit_list [simp]: "sp_list (snd (visit_record env ram r ident x visible sp)) = sp_list sp"
  by (simp add: visit_record_def Let_def)

lemma visit_other: "consumed r sp \<Longrightarrow> k \<noteq> r \<Longrightarrow> consumed r (snd (visit_record env ram k ident x visible sp))"
  by (simp add: consumed_def visit_ok) (simp add: visit_record_def Let_def)

lemma visit_consumed:
  assumes "consumed r sp" "r < 128"
  shows "fst (visit_record env ram r ident x True sp) = False \<and> consumed r (snd (visit_record env ram r ident x True sp))"
  using assms by (simp add: consumed_def visit_ok) (simp add: visit_record_def spawns_ok_def Let_def)

lemma visit_selected:
  "fst (visit_record env ram r ident x visible sp) \<Longrightarrow> sp_pending (snd (visit_record env ram r ident x visible sp)) = of_nat r"
  by (simp add: visit_record_def Let_def split: if_splits)

lemma select_ok: "spawns_ok sp \<Longrightarrow> spawns_ok (snd (select_record env c ram sp))"
  by (simp add: select_record_def Let_def settle_ok visit_ok split: prod.split)
    (metis settle_ok snd_conv visit_ok)

lemma select_list: "sp_list (snd (select_record env c ram sp)) = of_nat (list_pointer c ram)"
  by (auto simp: select_record_def Let_def split: prod.split dest: arg_cong [of _ _ "\<lambda>p. sp_list (snd p)"])

lemma select_settled:
  assumes "consumed r (settle_pending c ram sp)" "r < 128"
    and "about env r (c, ram) \<longrightarrow> near_view env ram (int (record_x env c ram))"
  shows "consumed r (snd (select_record env c ram sp)) \<and>
    (about env r (c, ram) \<longrightarrow> fst (select_record env c ram sp) = Some False)"
proof (cases "record_byte env c ram 0 = 255 \<or> follows_camera (record_byte env c ram 2) \<or> unat (cpu_X c) \<ge> 128")
  case True
  then show ?thesis using assms by (auto simp: select_record_def about_def Let_def)
next
  case False
  let ?k = "unat (cpu_X c)"
  let ?v = "visit_record env ram ?k (record_byte env c ram 2) (record_x env c ram)
     (near_view env ram (int (record_x env c ram))) (settle_pending c ram sp)"
  have s: "select_record env c ram sp = (Some (fst ?v), snd ?v)"
    using False by (simp add: select_record_def Let_def split: prod.split)
  show ?thesis
  proof (cases "?k = r")
    case True
    then have "near_view env ram (int (record_x env c ram))" using assms(3) False by (simp add: about_def)
    then show ?thesis using visit_consumed [OF assms(1,2)] True by (simp add: s)
  next
    case False
    then show ?thesis using visit_other [OF assms(1)] by (simp add: s about_def)
  qed
qed

lemma decisions_consumed:
  assumes "consumed r sp" "r < 128" "sp_list sp = l" "list_all (stays_near env l r) visits"
  shows "list_all2 (\<lambda>v d. about env r v \<longrightarrow> d = Some False) visits (decisions env visits sp)"
  using assms
proof (induction visits arbitrary: sp)
  case (Cons v visits)
  obtain c ram where v: "v = (c, ram)" by fastforce
  have l: "of_nat (list_pointer c ram) = l" and near: "about env r (c, ram) \<longrightarrow> near_view env ram (int (record_x env c ram))"
    using Cons.prems(4) by (simp_all add: v stays_near_def)
  have "consumed r (settle_pending c ram sp)" using Cons.prems(1-3) l by (simp add: settle_consumed)
  note s = select_settled [OF this Cons.prems(2) near]
  have "sp_list (snd (select_record env c ram sp)) = l" by (simp add: select_list l)
  with s Cons.IH [of "snd (select_record env c ram sp)"] Cons.prems(2,4) show ?case
    by (simp add: v case_prod_beta)
qed simp

text \<open>
  C39. A record of the level's sprite list spawns once per visit: once the hook has selected it and
  the game has loaded it, it is never selected again for as long as the list is the same and the
  record is only met near the view, whatever the game does to its load flag in between.
\<close>

theorem spawn_once:
  assumes "spawns_ok sp" "about env r (c, ram)" "r < 128" "select_record env c ram sp = (Some True, sp')"
    and "r8 (snd (hd visits)) (0x1938 + r) \<noteq> 0"
    and "list_all (stays_near env (of_nat (list_pointer c ram)) r) visits"
  shows "list_all2 (\<lambda>v d. about env r v \<longrightarrow> d = Some False) visits (decisions env visits sp')"
proof (cases visits)
  case (Cons v later)
  obtain c' ram' where v: "v = (c', ram')" by fastforce
  let ?l = "of_nat (list_pointer c ram) :: u32"
  have l: "of_nat (list_pointer c' ram') = ?l"
    and near: "about env r (c', ram') \<longrightarrow> near_view env ram' (int (record_x env c' ram'))"
    using assms(6) by (simp_all add: Cons v stays_near_def)
  have sp': "spawns_ok sp'" "sp_list sp' = ?l"
    using select_ok [OF assms(1), of env c ram] select_list [of env c ram sp] assms(4) by simp_all
  have "sp_pending sp' = of_nat r"
    using assms(2,3,4) visit_selected [of env ram r]
    by (auto simp: select_record_def about_def Let_def split: prod.splits)
      (metis fst_conv snd_conv)
  then have "consumed r (settle_pending c' ram' sp')"
    using settle_loaded [of sp' r c' ram'] sp' l assms(3,5) by (simp add: Cons v)
  note s = select_settled [OF this assms(3) near]
  have "list_all2 (\<lambda>v d. about env r v \<longrightarrow> d = Some False) later (decisions env later (snd (select_record env c' ram' sp')))"
    by (rule decisions_consumed [where l = ?l]) (use s assms(3,6) l in \<open>simp_all add: select_list Cons\<close>)
  with s show ?thesis by (simp add: Cons v case_prod_beta)
qed simp


section \<open>The hooks keep the renderer's invariant\<close>

lemma world_frame [simp]:
  "hw_renderer (set_cpu f w) = hw_renderer w" "hw_renderer (set_ram a v w) = hw_renderer w"
  "hw_renderer (set_hooks g w) = hw_renderer w" "hw_renderer (set_renderer k w) = k (hw_renderer w)"
  by (simp_all add: set_cpu_def set_ram_def set_hooks_def set_renderer_def)

lemma draw_info_ok [renderer_ops]: "renderer_ok (hw_renderer w) \<Longrightarrow> renderer_ok (hw_renderer (SmwRendererDrawInfo env w))"
  by (simp add: SmwRendererDrawInfo_def Let_def renderer_ops)

lemma player_piece_ok [renderer_ops]: "renderer_ok (hw_renderer w) \<Longrightarrow> renderer_ok (hw_renderer (player_piece w))"
  by (simp add: player_piece_def Let_def renderer_ops)

lemma baseball_drawn_ok [renderer_ops]: "renderer_ok (hw_renderer w) \<Longrightarrow> renderer_ok (hw_renderer (baseball_drawn w))"
  by (simp add: baseball_drawn_def Let_def renderer_ops)

lemma wing_drawn_ok [renderer_ops]: "renderer_ok (hw_renderer w) \<Longrightarrow> renderer_ok (hw_renderer (wing_drawn w))"
  by (simp add: wing_drawn_def Let_def renderer_ops)

lemma tile_drawn_ok [renderer_ops]: "renderer_ok (hw_renderer w) \<Longrightarrow> renderer_ok (hw_renderer (tile_drawn w))"
  by (simp add: tile_drawn_def Let_def renderer_ops)

lemma fireball_drawn_ok [renderer_ops]: "renderer_ok (hw_renderer w) \<Longrightarrow> renderer_ok (hw_renderer (fireball_drawn w))"
  by (simp add: fireball_drawn_def Let_def renderer_ops)

lemma platform_drawn_ok [renderer_ops]: "renderer_ok (hw_renderer w) \<Longrightarrow> renderer_ok (hw_renderer (platform_drawn w))"
  by (simp add: platform_drawn_def Let_def renderer_ops)

lemma egg_offscreen_ok [renderer_ops]: "renderer_ok (hw_renderer w) \<Longrightarrow> renderer_ok (hw_renderer (egg_offscreen env w))"
  by (simp add: egg_offscreen_def Let_def renderer_ops)

lemma sprite_contact_ok [renderer_ops]: "renderer_ok (hw_renderer w) \<Longrightarrow> renderer_ok (hw_renderer (sprite_contact env w))"
  by (simp add: sprite_contact_def Let_def renderer_ops)

lemma baseball_visible_ok [renderer_ops]: "renderer_ok (hw_renderer w) \<Longrightarrow> renderer_ok (hw_renderer (baseball_visible env w))"
  by (simp add: baseball_visible_def Let_def renderer_ops)

lemma wing_visible_ok [renderer_ops]: "renderer_ok (hw_renderer w) \<Longrightarrow> renderer_ok (hw_renderer (wing_visible env w))"
  by (simp add: wing_visible_def Let_def renderer_ops)

lemma fireball_visible_ok [renderer_ops]: "renderer_ok (hw_renderer w) \<Longrightarrow> renderer_ok (hw_renderer (fireball_visible env w))"
  by (simp add: fireball_visible_def Let_def renderer_ops)

lemma hook_chainE:
  assumes "(if b then Some a else r) = Some w'" "b \<Longrightarrow> w' = a \<Longrightarrow> Q" "r = Some w' \<Longrightarrow> Q"
  shows Q
  using assms by (cases b) simp_all

lemma draw_hook_ok: "renderer_ok (hw_renderer w) \<Longrightarrow> draw_hook env pc w = Some w' \<Longrightarrow> renderer_ok (hw_renderer w')"
  unfolding draw_hook_def by (elim hook_chainE) (simp_all only: renderer_ops world_frame option.distinct)

lemma spare_oam_renderer [simp]: "hw_renderer (spare_oam w) = hw_renderer w"
  by (simp add: spare_oam_def Let_def split: option.split prod.split)

lemma spare_slot_renderer [simp]: "hw_renderer (spare_slot w) = hw_renderer w"
  by (simp add: spare_slot_def Let_def split: option.split prod.split)

lemma factory_slot_renderer [simp]: "hw_renderer (factory_slot w) = hw_renderer w"
  by (simp add: factory_slot_def Let_def split: option.split prod.split)

lemma spawn_select_renderer [simp]: "hw_renderer (spawn_select env w) = hw_renderer w"
  by (simp add: spawn_select_def Let_def split: option.split prod.split)

lemma erase_offscreen_renderer [simp]: "hw_renderer (erase_offscreen env table w) = hw_renderer w"
  by (simp add: erase_offscreen_def Let_def split: option.split prod.split)

lemma spawn_hook_renderer [simp]: "hw_renderer (spawn_hook env pc w) = hw_renderer w"
  unfolding spawn_hook_def by simp

lemma if_eqE:
  assumes "(if b then x else y) = z" "b \<Longrightarrow> x = z \<Longrightarrow> Q" "\<not> b \<Longrightarrow> y = z \<Longrightarrow> Q"
  shows Q
  using assms by (cases b) simp_all

lemma new_rendererE:
  assumes "map_option (\<lambda>rn. w\<lparr>hw_renderer := rn\<rparr>) rn = Some w'" "rn = Some (hw_renderer w') \<Longrightarrow> Q"
  shows Q
  using assms by auto

lemma guest_hook_ok:
  assumes "renderer_ok (hw_renderer w)" "SmwRendererGuestHook env pc w = Some w'"
  shows "renderer_ok (hw_renderer w')"
  using assms(2) unfolding SmwRendererGuestHook_def Let_def
proof (elim if_eqE new_rendererE)
  assume "SmwRendererEndActor (re_alloc env) (hw_ram w) (hw_renderer w) = Some (hw_renderer w')"
  then show ?thesis by (rule end_actor_ok [OF assms(1)])
next
  assume "Some w = Some w'"
  then show ?thesis using assms(1) by simp
next
  assume "SmwRendererBeginActor (re_alloc env) (hw_ram w) (if unat (pc AND 0x7fffff) = 0x029B0C then 1 else 0)
      (unat (cpu_X (hw_cpu w))) (hw_renderer w) = Some (hw_renderer w')"
  then show ?thesis by (rule begin_actor_ok [OF assms(1)])
next
  assume "(case draw_hook env (unat (pc AND 0x7fffff)) w of
      None \<Rightarrow> if \<not> re_adaptive env \<or> vp_extra (re_view env) = 0 then Some w
        else Some (spawn_hook env (unat (pc AND 0x7fffff)) w)
    | Some w' \<Rightarrow> Some w') = Some w'"
  then show ?thesis
  proof (cases "draw_hook env (unat (pc AND 0x7fffff)) w")
    case None
    with \<open>(case _ of None \<Rightarrow> _ | Some w' \<Rightarrow> _) = _\<close> show ?thesis using assms(1) by (auto split: if_splits)
  next
    case (Some v)
    with \<open>(case _ of None \<Rightarrow> _ | Some w' \<Rightarrow> _) = _\<close> show ?thesis using draw_hook_ok [OF assms(1)] by simp
  qed
qed

end
