(* ===== verification/State_Stream.thy ===== *)
theory State_Stream
  imports Prelude Foreign_Controller Renderer_Hooks
begin

text \<open>
  The game's chunks of a state stream: the renderer's chunk of \<^verbatim>\<open>src/smw_renderer_hooks.c\<close> and the
  reader of \<^verbatim>\<open>src/smw_cpu_infra.c\<close> that puts an inspected word back in front of its source.

  A stream is the framework's \<^verbatim>\<open>SaveLoadInfo\<close>: a callback that takes or gives the next bytes.  The
  chunks are written field by field in the byte order of the host, which is little-endian on every
  target.
\<close>

type_synonym 's getter = "'s \<Rightarrow> nat \<Rightarrow> u8 list \<times> 's"

record 's Saver =
  sv_write :: "u8 list \<Rightarrow> 's \<Rightarrow> 's"
  sv_fail :: "'s \<Rightarrow> 's"

text \<open>What the loaders rely on: as long as there are bytes, the callback gives the next ones.\<close>

locale byte_source =
  fixes get :: "'s getter" and view :: "'s \<Rightarrow> u8 list"
  assumes get_bytes: "n \<le> length (view s) \<Longrightarrow> fst (get s n) = take n (view s)"
    and get_rest: "n \<le> length (view s) \<Longrightarrow> view (snd (get s n)) = drop n (view s)"
begin

lemma get_chunk: "view s = bs @ rest \<Longrightarrow> length bs = n \<Longrightarrow> fst (get s n) = bs \<and> view (snd (get s n)) = rest"
  using get_bytes [of n s] get_rest [of n s] by auto

end

section \<open>The prefix reader\<close>

record 's SmwPrefixReader =
  pr_source :: 's
  pr_magic :: u32
  pr_position :: nat

definition SmwReadPrefix :: "'s getter \<Rightarrow> 's SmwPrefixReader getter" where
  "SmwReadPrefix get reader n =
     (let rest = 4 - pr_position reader; prefix = (if rest > n then n else rest);
          bytes = take prefix (drop (pr_position reader) (write_u32 (pr_magic reader)));
          reader1 = reader\<lparr>pr_position := pr_position reader + prefix\<rparr>
      in if n > prefix
         then (case get (pr_source reader1) (n - prefix) of
                 (tail, source) \<Rightarrow> (bytes @ tail, reader1\<lparr>pr_source := source\<rparr>))
         else (bytes, reader1))"

definition prefix_view :: "('s \<Rightarrow> u8 list) \<Rightarrow> 's SmwPrefixReader \<Rightarrow> u8 list" where
  "prefix_view view reader = drop (pr_position reader) (write_u32 (pr_magic reader)) @ view (pr_source reader)"

lemma prefix_reads:
  fixes reader :: "'s SmwPrefixReader"
  assumes get: "\<And>n s. n \<le> length (view s) \<Longrightarrow> fst (get s n) = take n (view s)"
    "\<And>n s. n \<le> length (view s) \<Longrightarrow> view (snd (get s n)) = drop n (view s)"
    and n: "n \<le> length (prefix_view view reader)"
  shows "fst (SmwReadPrefix get reader n) = take n (prefix_view view reader) \<and>
    prefix_view view (snd (SmwReadPrefix get reader n)) = drop n (prefix_view view reader)"
proof -
  let ?w = "drop (pr_position reader) (write_u32 (pr_magic reader))"
  have l: "length ?w = 4 - pr_position reader" by simp
  have more: "n - length ?w \<le> length (view (pr_source reader))" using n by (simp add: prefix_view_def)
  show ?thesis
  proof (cases "length ?w < n")
    case True
    then show ?thesis using get [OF more] l
      by (simp add: SmwReadPrefix_def prefix_view_def Let_def case_prod_beta)
  next
    case False
    then show ?thesis using l by (simp add: SmwReadPrefix_def prefix_view_def Let_def add.commute)
  qed
qed

lemma prefix_source: "byte_source get view \<Longrightarrow> byte_source (SmwReadPrefix get) (prefix_view view)"
  using prefix_reads [of view get] by (simp add: byte_source_def)

section \<open>A stream in memory\<close>

text \<open>The network snapshots' stream: the bytes that are left.\<close>

definition memory_get :: "u8 list getter" where
  "memory_get s n = (take n s, drop n s)"

interpretation memory: byte_source memory_get "\<lambda>s. s"
  by unfold_locales (simp_all add: memory_get_def)

interpretation replayed: byte_source "SmwReadPrefix memory_get" "prefix_view (\<lambda>s. s)"
  by (rule prefix_source [OF memory.byte_source_axioms])

section \<open>The renderer's chunk\<close>

definition SMW_RENDERER_MAGIC :: u32 where
  "SMW_RENDERER_MAGIC = 0x53574d53"

definition SmwRendererSaveExtra :: "'s Saver \<Rightarrow> HookState \<Rightarrow> 's \<Rightarrow> 's" where
  "SmwRendererSaveExtra sv h =
     sv_write sv [sp_pending (rh_spawn h)] \<circ> sv_write sv (sp_visited (rh_spawn h)) \<circ>
     sv_write sv (write_u32 (sp_list (rh_spawn h))) \<circ> sv_write sv (write_u32 SMW_RENDERER_MAGIC @ write_u32 1)"

definition SmwRendererLoadExtra :: "'s getter \<Rightarrow> HookState \<Rightarrow> 's \<Rightarrow> HookState \<times> 's" where
  "SmwRendererLoadExtra get h s =
     (let (header, s1) = get s 8; h1 = h\<lparr>rh_restored_extra := False\<rparr>
      in if read_u32 header 0 \<noteq> SMW_RENDERER_MAGIC \<or> read_u32 header 4 \<noteq> 1 then (h1, s1)
         else
           let (l, s2) = get s1 4; (visited, s3) = get s2 128; (pending, s4) = get s3 1
           in (h1\<lparr>rh_restored := \<lparr>sp_list = read_u32 l 0, sp_visited = visited, sp_pending = pending ! 0\<rparr>,
                 rh_restored_extra := True\<rparr>, s4))"

definition SmwRendererStateLoaded :: "HookState \<times> Renderer \<Rightarrow> HookState \<times> Renderer" where
  "SmwRendererStateLoaded = (\<lambda>(h, rn).
     (h\<lparr>rh_spawn := (if rh_restored_extra h then rh_restored h else fresh_spawns), rh_restored_extra := False\<rparr>,
      SmwRendererResetScene rn))"

definition renderer_chunk :: "SpawnState \<Rightarrow> u8 list" where
  "renderer_chunk sp = write_u32 SMW_RENDERER_MAGIC @ write_u32 1 @ write_u32 (sp_list sp) @ sp_visited sp @ [sp_pending sp]"

lemma renderer_chunk_length: "spawns_ok sp \<Longrightarrow> length (renderer_chunk sp) = 141"
  by (simp add: renderer_chunk_def spawns_ok_def)

text \<open>A saver that appends.\<close>

definition appends :: "'s Saver \<Rightarrow> ('s \<Rightarrow> u8 list) \<Rightarrow> bool" where
  "appends sv written \<longleftrightarrow> (\<forall>bs s. written (sv_write sv bs s) = written s @ bs)"

lemma renderer_saved: "appends sv written \<Longrightarrow>
    written (SmwRendererSaveExtra sv h s) = written s @ renderer_chunk (rh_spawn h)"
  by (simp add: appends_def SmwRendererSaveExtra_def renderer_chunk_def)

context byte_source
begin

lemma renderer_loaded:
  assumes "spawns_ok sp" "view s = renderer_chunk sp @ rest"
  shows "\<exists>s'. SmwRendererLoadExtra get h s = (h\<lparr>rh_restored := sp, rh_restored_extra := True\<rparr>, s') \<and> view s' = rest"
proof -
  let ?head = "write_u32 SMW_RENDERER_MAGIC @ write_u32 1"
  obtain a s1 where 1: "get s 8 = (a, s1)" by fastforce
  obtain b s2 where 2: "get s1 4 = (b, s2)" by fastforce
  obtain c s3 where 3: "get s2 128 = (c, s3)" by fastforce
  obtain d s4 where 4: "get s3 1 = (d, s4)" by fastforce
  have a: "a = ?head" "view s1 = write_u32 (sp_list sp) @ sp_visited sp @ sp_pending sp # rest"
    using get_chunk [of s ?head _ 8] assms(2) 1 by (simp_all add: renderer_chunk_def)
  have b: "b = write_u32 (sp_list sp)" "view s2 = sp_visited sp @ sp_pending sp # rest"
    using get_chunk [OF a(2), of 4] 2 by simp_all
  have c: "c = sp_visited sp" "view s3 = [sp_pending sp] @ rest"
    using get_chunk [OF b(2), of 128] assms(1) 3 by (simp_all add: spawns_ok_def)
  have d: "d = [sp_pending sp]" "view s4 = rest" using get_chunk [OF c(2), of 1] 4 by simp_all
  have "read_u32 ?head 0 = SMW_RENDERER_MAGIC" by (rule read_u32_at [of _ "[]"]) simp_all
  moreover have "read_u32 ?head 4 = 1" by (rule read_u32_at [of _ "write_u32 SMW_RENDERER_MAGIC" _ "[]"]) simp_all
  moreover have "read_u32 (write_u32 (sp_list sp)) 0 = sp_list sp" by (rule read_u32_at [of _ "[]" _ "[]"]) simp_all
  ultimately show ?thesis using d(2) by (simp add: SmwRendererLoadExtra_def 1 2 3 4 [unfolded One_nat_def] a b c d)
qed

end

end
