(* ===== verification/Coop_Runtime.thy ===== *)
theory Coop_Runtime
  imports Coop_Snapshot Coop_Storage State_Stream
begin

unbundle bit_operations_syntax

text \<open>
  The adapter between the host and the co-op mode, \<^verbatim>\<open>src/mods/coop/coop_runtime.c\<close>: which campaign
  the session plays and where its save file is, the waiting for controllers, the hooks in the game's
  file menu, and the part of a snapshot that carries the players.

  The framework's save directory, the cartridge's SRAM file, the processor's flag mirrors and the
  simulation's own hook are parameters (\<open>Board\<close>).  None stands for the end of the program when a
  queued image does not fit the cartridge.  The trace of storage timings is left out.
\<close>

definition PRODUCT_PLAYERS :: nat where
  "PRODUCT_PLAYERS = 2"

definition COOP_ROOT :: string where
  "COOP_ROOT = ''saves/native-coop-v1''"

record Runtime =
  rt_enabled :: bool
  rt_choosing :: bool
  rt_files_chosen :: bool
  rt_disconnected :: bool
  rt_selected :: nat
  rt_machine :: CoopMachine
  rt_staged :: CoopMachine
  rt_staged_size :: nat
  rt_consumed :: bool

text \<open>\<open>ho_selection\<close> is the content of the file with the last mode.\<close>

record Host =
  ho_ram :: mem
  ho_sram :: "u8 list"
  ho_root :: string
  ho_storage :: Storage
  ho_selection :: "u8 list option"

type_synonym guest = "CpuState \<times> Runtime \<times> Host"

record Board =
  bd_alloc :: allocator
  bd_threads :: bool
  bd_sram_path :: "string \<Rightarrow> string"
  bd_read_sram :: "string \<Rightarrow> u8 list \<Rightarrow> u8 list"
  bd_writable :: bool
  bd_mirrors :: "CpuState \<Rightarrow> CpuState"
  bd_simulation :: "u32 \<Rightarrow> guest \<Rightarrow> u32 \<times> guest"

section \<open>Switching the mode\<close>

definition SmwCoopEnable :: "bool \<Rightarrow> Runtime \<Rightarrow> Runtime" where
  "SmwCoopEnable on rt = \<lparr>rt_enabled = on, rt_choosing = False, rt_files_chosen = False, rt_disconnected = False,
     rt_selected = 0, rt_machine = coop_machine_destroy (rt_machine rt), rt_staged = coop_machine_destroy (rt_staged rt),
     rt_staged_size = 0, rt_consumed = False\<rparr>"

definition SmwCoopActive :: "Runtime \<Rightarrow> bool" where
  "SmwCoopActive rt \<longleftrightarrow> rt_enabled rt \<and> rt_selected rt > 1"

definition SmwCoopMachine :: "Runtime \<Rightarrow> CoopMachine option" where
  "SmwCoopMachine rt = (if SmwCoopActive rt then Some (rt_machine rt) else None)"

definition SmwCoopPersistenceReady :: "Runtime \<Rightarrow> bool" where
  "SmwCoopPersistenceReady rt \<longleftrightarrow> \<not> rt_enabled rt \<or> (rt_selected rt \<noteq> 0 \<and> \<not> rt_choosing rt)"

definition SmwCoopStorageSelected :: "Runtime \<Rightarrow> bool" where
  "SmwCoopStorageSelected rt \<longleftrightarrow> rt_selected rt \<noteq> 0"

definition SmwCoopFrozen :: "Runtime \<Rightarrow> bool" where
  "SmwCoopFrozen rt \<longleftrightarrow> rt_enabled rt \<and> rt_disconnected rt"

section \<open>The campaign's storage\<close>

definition root_of :: "nat \<Rightarrow> string" where
  "root_of num = (if num > 1 then COOP_ROOT else ''saves'')"

text \<open>Leaving a campaign queues its SRAM, and the SRAM of the new one is read, from the queue if it is
still there.\<close>

definition switch_storage :: "Board \<Rightarrow> nat \<Rightarrow> nat \<Rightarrow> Host \<Rightarrow> (bool \<times> Host) option" where
  "switch_storage b selected num ho =
     (let (queued, st) = (if selected \<noteq> 0
            then SmwCoopQueueStorage (bd_alloc b) (bd_threads b) (bd_sram_path b (ho_root ho)) (ho_sram ho) (ho_storage ho)
            else (True, ho_storage ho))
      in if \<not> queued then Some (False, ho\<lparr>ho_storage := st\<rparr>)
         else
           let root = root_of num; blank = replicate (length (ho_sram ho)) 0;
               ho1 = ho\<lparr>ho_storage := st, ho_root := root\<rparr>
           in case SmwCoopReadQueuedStorage (bd_sram_path b root) blank st of
                None \<Rightarrow> None
              | Some None \<Rightarrow> Some (True, ho1\<lparr>ho_sram := bd_read_sram b root blank\<rparr>)
              | Some (Some bytes) \<Rightarrow> Some (True, ho1\<lparr>ho_sram := bytes\<rparr>))"

definition choose_storage :: "Board \<Rightarrow> nat \<Rightarrow> bool \<Rightarrow> Runtime \<Rightarrow> Host \<Rightarrow> (bool \<times> Runtime \<times> Host) option" where
  "choose_storage b num remember rt ho =
     (if num \<noteq> 1 \<and> num \<noteq> PRODUCT_PLAYERS then Some (False, rt, ho)
      else case (if num > 1 then coop_machine_init (bd_alloc b) num else Some zero_machine) of
             None \<Rightarrow> Some (False, rt, ho)
           | Some machine \<Rightarrow>
               (case (if num \<noteq> rt_selected rt then switch_storage b (rt_selected rt) num ho else Some (True, ho)) of
                  None \<Rightarrow> None
                | Some (False, ho1) \<Rightarrow> Some (False, rt, ho1)
                | Some (True, ho1) \<Rightarrow>
                    Some (True, rt\<lparr>rt_machine := machine, rt_selected := num\<rparr>,
                      if remember \<and> bd_writable b then ho1\<lparr>ho_selection := Some [of_nat (48 + num)]\<rparr> else ho1)))"

definition SmwCoopPrepareStorage :: "Board \<Rightarrow> Runtime \<Rightarrow> Host \<Rightarrow> (bool \<times> Runtime \<times> Host) option" where
  "SmwCoopPrepareStorage b rt ho =
     (if \<not> rt_enabled rt then Some (True, rt, ho)
      else
        let choice = (case ho_selection ho of Some (c # _) \<Rightarrow> unat c | _ \<Rightarrow> 0)
        in if choice = 49 \<or> choice = 50 then choose_storage b (choice - 48) False rt ho
           else Some (False, rt, ho\<lparr>ho_root := ''saves/native-coop-menu''\<rparr>))"

definition SmwCoopResetSession :: "Board \<Rightarrow> Runtime \<Rightarrow> Runtime" where
  "SmwCoopResetSession b rt =
     (if \<not> rt_enabled rt then rt
      else
        let rt1 = rt\<lparr>rt_files_chosen := False, rt_choosing := False, rt_disconnected := False\<rparr>
        in if rt_selected rt > 1
           then (case coop_machine_init (bd_alloc b) (rt_selected rt) of
                   None \<Rightarrow> rt1 | Some m \<Rightarrow> rt1\<lparr>rt_machine := m\<rparr>)
           else rt1)"

section \<open>A host frame\<close>

definition seat_connected :: "u32 \<Rightarrow> u32 \<Rightarrow> bool" where
  "seat_connected inputs seat \<longleftrightarrow> unat seat < PRODUCT_PLAYERS \<and> bit inputs (30 + unat seat)"

definition set_connected :: "bool \<Rightarrow> CoopPlayer \<Rightarrow> CoopPlayer" where
  "set_connected connected p =
     (let p1 = (if p_connected p \<noteq> connected
                then p\<lparr>p_held_input := 0, p_pressed_input := 0, p_action_latch := 0xfff\<rparr> else p)
      in p1\<lparr>p_connected := connected\<rparr>)"

definition connect_actor :: "u32 \<Rightarrow> CoopSession \<times> bool \<Rightarrow> CoopActor \<Rightarrow> CoopSession \<times> bool" where
  "connect_actor inputs = (\<lambda>(s, disconnected) a.
     let connected = seat_connected inputs (ac_input_seat a)
     in (case coop_player s (ac_player a) of None \<Rightarrow> s | Some i \<Rightarrow> upd_player i (set_connected connected) s,
         disconnected \<or> \<not> connected))"

definition SmwCoopHostFrame :: "u32 \<Rightarrow> mem \<Rightarrow> Runtime \<Rightarrow> bool \<times> Runtime" where
  "SmwCoopHostFrame inputs ram rt =
     (if \<not> rt_enabled rt then (True, rt)
      else if SmwCoopActive rt \<and> ram 0x100 \<ge> 0x0b
      then
        (case foldl (connect_actor inputs) (m_session (rt_machine rt), False) (m_actors (rt_machine rt)) of
           (s, disconnected) \<Rightarrow>
             (\<not> disconnected, rt\<lparr>rt_machine := (rt_machine rt)\<lparr>m_session := s\<rparr>, rt_disconnected := disconnected\<rparr>))
      else (True, rt\<lparr>rt_disconnected := False\<rparr>))"

section \<open>The hooks in the file menu\<close>

definition RTS_PC :: u32 where "RTS_PC = 0x00c592"
definition FILE_ENTER :: u32 where "FILE_ENTER = 0x009cb0"

definition poke_guest :: "nat \<Rightarrow> u8 \<Rightarrow> Host \<Rightarrow> Host" where
  "poke_guest a v ho = ho\<lparr>ho_ram := (ho_ram ho)(a := v)\<rparr>"

definition narrow_index :: "CpuState \<Rightarrow> CpuState" where
  "narrow_index c = c\<lparr>cpu_X := cpu_X c AND 0xff, cpu_Y := cpu_Y c AND 0xff\<rparr>"

definition SmwCoopGuestHook :: "Board \<Rightarrow> u32 \<Rightarrow> guest \<Rightarrow> (u32 \<times> guest) option" where
  "SmwCoopGuestHook b pc = (\<lambda>(c, rt, ho).
     let at = pc AND 0x7fffff
     in if \<not> rt_enabled rt then Some (0, c, rt, ho)
        else if at = FILE_ENTER \<and> \<not> rt_files_chosen rt
        then Some (0x009d22, c, rt\<lparr>rt_choosing := True\<rparr>, poke_guest 0x1b92 0 (poke_guest 0x100 9 ho))
        else if at = 0x009e0d \<and> rt_choosing rt
        then
          (case choose_storage b (unat (cpu_X c AND 0xff) + 1) True rt ho of
             None \<Rightarrow> None
           | Some (False, rt1, ho1) \<Rightarrow> Some (RTS_PC, c, rt1, ho1)
           | Some (True, rt1, ho1) \<Rightarrow>
               Some (FILE_ENTER, c, rt1\<lparr>rt_choosing := False, rt_files_chosen := True\<rparr>, poke_guest 0x100 7 ho1))
        else if at = 0x009d22 \<and> rt_files_chosen rt
        then Some (0x009e10, narrow_index (bd_mirrors b (c\<lparr>cpu_P := cpu_P c OR 0x10\<rparr>)), rt,
               poke_guest 0xdb3 0 (poke_guest 0xdb2 0 ho))
        else Some (bd_simulation b pc (c, rt, ho)))"

section \<open>The players in a snapshot\<close>

definition SmwCoopSnapshotIdentity :: "Runtime \<Rightarrow> string option" where
  "SmwCoopSnapshotIdentity rt = (if SmwCoopActive rt then Some ''smw.us.native-coop.v1'' else None)"

text \<open>What \<^verbatim>\<open>SmwStateSharedExtraSize\<close> of \<^verbatim>\<open>src/smw_cpu_infra.c\<close> announces in front of the players.\<close>

definition SMW_FOREIGN_SAVE_BLOB_CAP :: nat where
  "SMW_FOREIGN_SAVE_BLOB_CAP = SNES_FOREIGN_SAVE_MAX_PAYLOAD + 256"

definition SmwStateSharedExtraSize :: "Runtime \<Rightarrow> nat" where
  "SmwStateSharedExtraSize rt = 4 + 8 + 4 + 128 + 1 + (if SmwCoopActive rt then 0 else 12 + SMW_FOREIGN_SAVE_BLOB_CAP)"

text \<open>The framework's layout of the guest's part: its version, its size and where the work RAM is.\<close>

record Layout =
  la_version :: u32
  la_guest :: nat
  la_ram :: nat

definition SMW_COOP_SAVE_MAGIC :: u32 where "SMW_COOP_SAVE_MAGIC = 0x31434d53"
definition RTLS_MAGIC :: u32 where "RTLS_MAGIC = 0x52544c53"

text \<open>The size of the guest's part in the version of the snapshot, None for a version that is refused.\<close>

definition guest_size :: "Layout \<Rightarrow> u32 \<Rightarrow> nat option" where
  "guest_size la saved_version =
     (if la_version la = 10 \<and> saved_version = 9 \<and> la_guest la \<noteq> 0 then Some (la_guest la - 1)
      else if saved_version \<noteq> la_version la then None
      else Some (la_guest la))"

definition frame_ok :: "u8 list \<Rightarrow> nat \<Rightarrow> nat \<Rightarrow> bool" where
  "frame_ok p guest extra \<longleftrightarrow>
     (let size = length p
      in guest \<noteq> 0 \<and> guest \<le> size \<and> extra \<le> size - guest \<and> 8 \<le> size - guest - extra \<and>
         unat (get32 p (size - 8)) = size - guest - extra - 8 \<and>
         get32 p guest = SMW_COOP_SAVE_MAGIC \<and> get32 p (guest + 4) = SMW_RENDERER_MAGIC \<and> get32 p (guest + 8) = 1)"

definition staged_fits :: "Runtime \<Rightarrow> Layout \<Rightarrow> nat \<Rightarrow> u8 list \<Rightarrow> CoopMachine \<Rightarrow> bool" where
  "staged_fits rt la guest p m \<longleftrightarrow>
     length (m_actors m) = rt_selected rt \<and> la_ram la \<le> guest \<and> 0x20000 \<le> guest - la_ram la \<and>
     coop_machine_mouths_valid m (\<lambda>a. p ! (la_ram la + a)) \<and> coop_machine_placed_eggs_valid m (\<lambda>a. p ! (la_ram la + a))"

definition SmwCoopSnapshotPreflight :: "Board \<Rightarrow> Layout \<Rightarrow> u8 list \<Rightarrow> Runtime \<Rightarrow> bool \<times> Runtime" where
  "SmwCoopSnapshotPreflight b la p rt0 =
     (let rt = rt0\<lparr>rt_staged := coop_machine_destroy (rt_staged rt0), rt_staged_size := 0, rt_consumed := False\<rparr>;
          size = length p
      in if \<not> SmwCoopActive rt then (\<not> rt_enabled rt \<or> SmwCoopPersistenceReady rt, rt)
         else if size < 16 \<or> drop (size - 4) p \<noteq> tag ''CNRE'' then (False, rt)
         else if get32 p 0 \<noteq> RTLS_MAGIC then (False, rt)
         else case guest_size la (get32 p 4) of
                None \<Rightarrow> (False, rt)
              | Some guest \<Rightarrow>
                  let extra = SmwStateSharedExtraSize rt; n = unat (get32 p (size - 8))
                  in if \<not> frame_ok p guest extra then (False, rt)
                     else case coop_machine_load (bd_alloc b) (take n (drop (guest + extra) p)) (rt_staged rt) of
                            (False, m) \<Rightarrow> (False, rt\<lparr>rt_staged := m\<rparr>)
                          | (True, m) \<Rightarrow>
                              if \<not> staged_fits rt la guest p m then (False, rt\<lparr>rt_staged := coop_machine_destroy m\<rparr>)
                              else (True, rt\<lparr>rt_staged := m, rt_staged_size := n\<rparr>))"

definition footer :: "nat \<Rightarrow> u8 list" where
  "footer n = le32 (of_nat n) @ tag ''CNRE''"

text \<open>Every byte of the allocated buffer is written before it is used.\<close>

definition SmwCoopSaveExtra :: "Board \<Rightarrow> 's Saver \<Rightarrow> Runtime \<Rightarrow> 's \<Rightarrow> 's" where
  "SmwCoopSaveExtra b sv rt s =
     (if \<not> SmwCoopActive rt then s
      else
        let n = coop_machine_save_size (rt_machine rt)
        in if n = 0 \<or> n > UINT32_MAX \<or> \<not> bd_alloc b n then sv_fail sv s
           else case coop_machine_save (bd_alloc b) (rt_machine rt) (replicate n 0) of
                  None \<Rightarrow> sv_fail sv s
                | Some p \<Rightarrow> sv_write sv (footer n) (sv_write sv p s))"

text \<open>The bytes were staged by the preflight and are only skipped, 256 at a time.\<close>

function discard_bytes :: "'s getter \<Rightarrow> nat \<Rightarrow> 's \<Rightarrow> 's" where
  "discard_bytes get left s =
     (if left = 0 then s
      else let n = (if left > 256 then 256 else left) in discard_bytes get (left - n) (snd (get s n)))"
  by pat_completeness auto
termination by (relation "measure (\<lambda>(get, left, s). left)") auto

declare discard_bytes.simps [simp del]

definition SmwCoopLoadExtra :: "'s getter \<Rightarrow> Runtime \<Rightarrow> 's \<Rightarrow> Runtime \<times> 's" where
  "SmwCoopLoadExtra get rt s =
     (if \<not> SmwCoopActive rt \<or> rt_staged_size rt = 0 then (rt, s)
      else (rt\<lparr>rt_consumed := True\<rparr>, discard_bytes get (rt_staged_size rt + 8) s))"

definition SmwCoopStateLoaded :: "Runtime \<Rightarrow> Runtime" where
  "SmwCoopStateLoaded rt =
     (let rt1 = (if SmwCoopActive rt \<and> rt_consumed rt
                 then rt\<lparr>rt_machine := rt_staged rt, rt_staged := zero_machine, rt_choosing := False,
                        rt_disconnected := False, rt_files_chosen := True\<rparr>
                 else rt)
      in rt1\<lparr>rt_staged_size := 0, rt_consumed := False\<rparr>)"


section \<open>Waiting for the controllers\<close>

lemma connect_loop:
  "snd (foldl (connect_actor inputs) (s, d) actors) = (d \<or> (\<exists>a \<in> set actors. \<not> seat_connected inputs (ac_input_seat a)))"
  by (induction actors arbitrary: s d) (auto simp: connect_actor_def Let_def)

lemma host_frame_advances:
  "SmwCoopActive rt \<Longrightarrow> 0x0b \<le> ram 0x100 \<Longrightarrow> fst (SmwCoopHostFrame inputs ram rt) =
     (\<forall>a \<in> set (m_actors (rt_machine rt)). seat_connected inputs (ac_input_seat a))"
  using connect_loop [of inputs "m_session (rt_machine rt)" False "m_actors (rt_machine rt)"]
  by (auto simp: SmwCoopHostFrame_def SmwCoopActive_def split: prod.splits)

section \<open>The campaigns keep apart\<close>

lemma latest_snoc:
  "latest_image path (images @ [im]) = (if im_path im = path then Some im else latest_image path images)"
  by (simp add: latest_image_def)

lemma latest_same_data:
  assumes "same_data xs ys"
  shows "map_option im_bytes (latest_image path xs) = map_option im_bytes (latest_image path ys)"
proof -
  have "map_option im_bytes (foldl (\<lambda>latest im. if im_path im = path then Some im else latest) a xs) =
      map_option im_bytes (foldl (\<lambda>latest im. if im_path im = path then Some im else latest) b ys)"
    if "length xs = length ys" "same_data xs ys" "map_option im_bytes a = map_option im_bytes b" for a b
    using that
  proof (induction xs ys arbitrary: a b rule: list_induct2)
    case (Cons x xs y ys)
    then have "same_data xs ys" "im_path x = im_path y" "im_bytes x = im_bytes y" by (simp_all add: same_data_def)
    then show ?case using Cons.IH [of "if im_path x = path then Some x else a" "if im_path y = path then Some y else b"] Cons.prems
      by simp
  qed simp
  from this [OF same_data_length [OF assms] assms, of None None] show ?thesis by (simp add: latest_image_def)
qed

lemma queued_image:
  assumes "SmwCoopQueueStorage alloc threads path sram st = (True, st')" "sram \<noteq> []"
  shows "\<exists>im. sg_images st' = sg_images st @ [im] \<and> im_path im = path \<and> im_bytes im = sram"
  using assms by (auto simp: SmwCoopQueueStorage_def start_worker_def split: if_splits option.splits)

lemma switch_parts:
  assumes "switch_storage b selected num ho = Some (True, ho1)" "selected \<noteq> 0" "ho_sram ho \<noteq> []"
  shows "\<exists>st im. ho_storage ho1 = st \<and> sg_images st = sg_images (ho_storage ho) @ [im] \<and>
    im_path im = bd_sram_path b (ho_root ho) \<and> im_bytes im = ho_sram ho \<and> ho_root ho1 = root_of num \<and>
    (case latest_image (bd_sram_path b (root_of num)) (sg_images st) of
       None \<Rightarrow> ho_sram ho1 = bd_read_sram b (root_of num) (replicate (length (ho_sram ho)) 0)
     | Some old \<Rightarrow> ho_sram ho1 = im_bytes old)"
proof -
  obtain ok st where q: "SmwCoopQueueStorage (bd_alloc b) (bd_threads b) (bd_sram_path b (ho_root ho)) (ho_sram ho) (ho_storage ho) = (ok, st)"
    by fastforce
  have ok using assms(1,2) q by (cases ok) (simp_all add: switch_storage_def Let_def)
  with q have q': "SmwCoopQueueStorage (bd_alloc b) (bd_threads b) (bd_sram_path b (ho_root ho)) (ho_sram ho) (ho_storage ho) = (True, st)"
    by simp
  obtain im where im: "sg_images st = sg_images (ho_storage ho) @ [im]" "im_path im = bd_sram_path b (ho_root ho)"
    "im_bytes im = ho_sram ho" using queued_image [OF q' assms(3)] by blast
  show ?thesis using assms(1,2) q' im
    by (auto simp: switch_storage_def SmwCoopReadQueuedStorage_def Let_def
        split: option.splits if_splits)
qed

text \<open>
  C37. The campaigns keep apart: a player who leaves a campaign for the other one and comes back finds
  the SRAM of the campaign as it was left, even when no image has reached the disk, however far the
  worker thread got in between and whatever was played in the other campaign.
\<close>

theorem campaign_kept:
  assumes "switch_storage b selected num ho = Some (True, ho1)" "selected \<noteq> 0" "ho_sram ho \<noteq> []"
    and "ho_root ho = root_of selected" "bd_sram_path b (root_of selected) \<noteq> bd_sram_path b (root_of num)" "num \<noteq> 0"
    and "same_data (sg_images (ho_storage played)) (sg_images (ho_storage ho1))" "ho_root played = ho_root ho1"
    and "ho_sram played \<noteq> []" "switch_storage b num selected played = Some (True, ho2)"
  shows "ho_sram ho2 = ho_sram ho \<and> ho_root ho2 = ho_root ho"
proof -
  obtain im where left: "sg_images (ho_storage ho1) = sg_images (ho_storage ho) @ [im]"
    "im_path im = bd_sram_path b (ho_root ho)" "im_bytes im = ho_sram ho" "ho_root ho1 = root_of num"
    using switch_parts [OF assms(1-3)] by blast
  obtain im2 where home: "sg_images (ho_storage ho2) = sg_images (ho_storage played) @ [im2]"
    "im_path im2 = bd_sram_path b (root_of num)" "ho_root ho2 = root_of selected"
    "case latest_image (bd_sram_path b (root_of selected)) (sg_images (ho_storage ho2)) of
       None \<Rightarrow> ho_sram ho2 = bd_read_sram b (root_of selected) (replicate (length (ho_sram played)) 0)
     | Some old \<Rightarrow> ho_sram ho2 = im_bytes old"
    using switch_parts [OF assms(10,6,9)] assms(8) left(4) by auto
  have "map_option im_bytes (latest_image (bd_sram_path b (root_of selected)) (sg_images (ho_storage ho2))) =
      map_option im_bytes (latest_image (bd_sram_path b (root_of selected)) (sg_images (ho_storage ho1)))"
    using latest_same_data [OF assms(7)] assms(5) home(1,2) by (simp add: latest_snoc)
  also have "\<dots> = Some (ho_sram ho)" using left assms(4) by (simp add: latest_snoc)
  finally show ?thesis using home(3,4) assms(4) by (auto split: option.splits)
qed

end
