(* ===== verification/Game_State.thy ===== *)
theory Game_State
  imports Coop_Runtime
begin

text \<open>
  The game's part of a snapshot, \<^verbatim>\<open>src/smw_cpu_infra.c\<close>, which puts the renderer's chunk in front of
  the co-op players or of the foreign controller, and what the Captain Falcon plugin of
  \<^verbatim>\<open>src/mods/smw_falcon_plugin.c\<close> makes of a restored controller.

  The adapter of the Falcon mod forgets its own latches when a state is loaded and may take the
  player off Yoshi; its effect on the work RAM is the parameter \<open>adapter\<close>.
\<close>

definition SMW_FOREIGN_SAVE_MAGIC :: u32 where "SMW_FOREIGN_SAVE_MAGIC = 0x31574653"
definition SMW_FOREIGN_SAVE_VERSION :: u32 where "SMW_FOREIGN_SAVE_VERSION = 1"
definition SMW_COMBINED_SAVE_MAGIC :: u32 where "SMW_COMBINED_SAVE_MAGIC = 0x31584d53"
definition SMW_FOREIGN_CHUNK_BYTES :: nat where "SMW_FOREIGN_CHUNK_BYTES = 12 + SMW_FOREIGN_SAVE_BLOB_CAP"

definition SMW_CAPTAIN_FALCON_ID :: string where
  "SMW_CAPTAIN_FALCON_ID = ''super-mario-world.smash64.captain-falcon''"

record GameState =
  gs_runtime :: Runtime
  gs_hooks :: HookState
  gs_renderer :: Renderer
  gs_foreign :: Foreign
  gs_falcon_enabled :: bool
  gs_chunk_loaded :: bool
  gs_ram :: mem

section \<open>The foreign controller's slot\<close>

text \<open>The slot has a fixed size; a controller that cannot be saved leaves it without its magic.\<close>

definition SmwForeignSaveExtra :: "'s Saver \<Rightarrow> Foreign \<Rightarrow> 's \<Rightarrow> 's" where
  "SmwForeignSaveExtra sv fo =
     (let blank = replicate SMW_FOREIGN_SAVE_BLOB_CAP 0
      in sv_write sv
           (case snes_foreign_save SMW_FOREIGN_SAVE_BLOB_CAP fo of
              None \<Rightarrow> write_u32 0 @ write_u32 SMW_FOREIGN_SAVE_VERSION @ write_u32 0 @ blank
            | Some blob \<Rightarrow> write_u32 SMW_FOREIGN_SAVE_MAGIC @ write_u32 SMW_FOREIGN_SAVE_VERSION @
                write_u32 (of_nat (length blob)) @ blob @ drop (length blob) blank))"

definition SmwForeignLoadExtra :: "'s getter \<Rightarrow> Foreign \<Rightarrow> 's \<Rightarrow> bool \<times> Foreign \<times> 's" where
  "SmwForeignLoadExtra get fo s =
     (let (chunk, s1) = get s SMW_FOREIGN_CHUNK_BYTES; n = unat (read_u32 chunk 8)
      in if read_u32 chunk 0 = SMW_FOREIGN_SAVE_MAGIC \<and> read_u32 chunk 4 = SMW_FOREIGN_SAVE_VERSION \<and>
            n \<le> SMW_FOREIGN_SAVE_BLOB_CAP
         then (case snes_foreign_load (take n (drop 12 chunk)) fo of (ok, fo1) \<Rightarrow> (ok, fo1, s1))
         else (False, fo, s1))"

section \<open>The game's extension of a snapshot\<close>

definition SmwStateSaveExtra :: "Board \<Rightarrow> 's Saver \<Rightarrow> GameState \<Rightarrow> 's \<Rightarrow> 's" where
  "SmwStateSaveExtra b sv gs s =
     (let coop = SmwCoopActive (gs_runtime gs);
          s1 = sv_write sv (write_u32 (if coop then SMW_COOP_SAVE_MAGIC else SMW_COMBINED_SAVE_MAGIC)) s;
          s2 = SmwRendererSaveExtra sv (gs_hooks gs) s1
      in if coop then SmwCoopSaveExtra b sv (gs_runtime gs) s2 else SmwForeignSaveExtra sv (gs_foreign gs) s2)"

definition load_hooks :: "'s getter \<Rightarrow> GameState \<Rightarrow> 's \<Rightarrow> GameState \<times> 's" where
  "load_hooks get gs s = (case SmwRendererLoadExtra get (gs_hooks gs) s of (h, s1) \<Rightarrow> (gs\<lparr>gs_hooks := h\<rparr>, s1))"

definition load_foreign :: "'s getter \<Rightarrow> GameState \<Rightarrow> 's \<Rightarrow> GameState \<times> 's" where
  "load_foreign get gs s =
     (case SmwForeignLoadExtra get (gs_foreign gs) s of
        (ok, fo, s1) \<Rightarrow> (gs\<lparr>gs_foreign := fo, gs_chunk_loaded := ok\<rparr>, s1))"

definition load_coop :: "'s getter \<Rightarrow> GameState \<Rightarrow> 's \<Rightarrow> GameState \<times> 's" where
  "load_coop get gs s = (case SmwCoopLoadExtra get (gs_runtime gs) s of (rt, s1) \<Rightarrow> (gs\<lparr>gs_runtime := rt\<rparr>, s1))"

text \<open>The older snapshots begin with the renderer's or the controller's chunk itself.\<close>

definition SmwStateLoadExtra :: "'s getter \<Rightarrow> GameState \<Rightarrow> 's \<Rightarrow> GameState \<times> 's" where
  "SmwStateLoadExtra get gs0 s0 =
     (let gs = gs0\<lparr>gs_chunk_loaded := False\<rparr>; (word, s) = get s0 4; magic = read_u32 word 0;
          reader = \<lparr>pr_source = s, pr_magic = magic, pr_position = 0\<rparr>
      in if magic = SMW_COOP_SAVE_MAGIC \<and> SmwCoopActive (gs_runtime gs)
         then (case load_hooks get gs s of (gs1, s1) \<Rightarrow> load_coop get gs1 s1)
         else if magic = SMW_COMBINED_SAVE_MAGIC
         then (case load_hooks get gs s of (gs1, s1) \<Rightarrow> load_foreign get gs1 s1)
         else if magic = SMW_RENDERER_MAGIC
         then (case load_hooks (SmwReadPrefix get) gs reader of (gs1, r) \<Rightarrow> (gs1, pr_source r))
         else if magic = SMW_FOREIGN_SAVE_MAGIC
         then (case load_foreign (SmwReadPrefix get) gs reader of (gs1, r) \<Rightarrow> (gs1, pr_source r))
         else (gs, s))"

definition smw_falcon_restore_selection :: "bool \<Rightarrow> bool \<Rightarrow> Foreign \<Rightarrow> Foreign" where
  "smw_falcon_restore_selection enabled restored fo =
     (if \<not> enabled
      then snes_foreign_set_ownership FOREIGN_OWNERSHIP_NATIVE (snd (snes_foreign_select '''' fo))
      else if \<not> restored \<or> (case fo_active fo of None \<Rightarrow> True | Some c \<Rightarrow> fc_id c \<noteq> SMW_CAPTAIN_FALCON_ID)
      then snes_foreign_set_ownership FOREIGN_OWNERSHIP_SCRIPTED (snd (snes_foreign_select SMW_CAPTAIN_FALCON_ID fo))
      else fo)"

definition SmwOnStateLoaded :: "(Foreign \<Rightarrow> mem \<Rightarrow> mem) \<Rightarrow> GameState \<Rightarrow> GameState" where
  "SmwOnStateLoaded adapter gs =
     (let fo = smw_falcon_restore_selection (gs_falcon_enabled gs) (gs_chunk_loaded gs) (gs_foreign gs);
          (h, rn) = SmwRendererStateLoaded (gs_hooks gs, gs_renderer gs)
      in gs\<lparr>gs_foreign := fo, gs_ram := adapter fo (gs_ram gs), gs_hooks := h, gs_renderer := rn,
           gs_runtime := SmwCoopStateLoaded (gs_runtime gs), gs_chunk_loaded := False\<rparr>)"

section \<open>The bytes of a co-op snapshot\<close>

lemma le32_write: "le32 v = write_u32 v"
  by (simp add: le32_def write_u32_def upt_rec)

lemma get32_here: "p = pre @ write_u32 w @ post \<Longrightarrow> at = length pre \<Longrightarrow> get32 p at = w"
  using get32_at [of pre w post] by (simp add: le32_write)

lemma trimmed_steps: "mouth_step (trimmed m) = mouth_step m" "placed_egg_valid (trimmed m) = placed_egg_valid m"
proof -
  have e: "m_entities (trimmed m) = m_entities m" by (simp add: trimmed_def)
  have r: "rider_of (trimmed m) = rider_of m" by (intro ext) (simp only: rider_of_def e)
  show "mouth_step (trimmed m) = mouth_step m" by (intro ext) (simp only: mouth_step_def e r)
  show "placed_egg_valid (trimmed m) = placed_egg_valid m" by (intro ext) (simp only: placed_egg_valid_def e)
qed

lemma trimmed_ram:
  "coop_machine_mouths_valid (trimmed m) ram = coop_machine_mouths_valid m ram"
  "coop_machine_placed_eggs_valid (trimmed m) ram = coop_machine_placed_eggs_valid m ram"
  "m_actors (trimmed m) = m_actors m"
proof -
  have e: "m_entities (trimmed m) = m_entities m" by (simp add: trimmed_def)
  have "berries_distinct (trimmed m) ram = berries_distinct m ram" by (simp only: berries_distinct_def e)
  then show "coop_machine_mouths_valid (trimmed m) ram = coop_machine_mouths_valid m ram"
    by (simp only: coop_machine_mouths_valid_def trimmed_steps)
  show "coop_machine_placed_eggs_valid (trimmed m) ram = coop_machine_placed_eggs_valid m ram"
    by (simp only: coop_machine_placed_eggs_valid_def trimmed_steps) (simp add: trimmed_def)
qed (simp add: trimmed_def)

text \<open>The checks against the work RAM read the work RAM only.\<close>

definition same_wram :: "mem \<Rightarrow> mem \<Rightarrow> bool" where
  "same_wram r r' \<longleftrightarrow> (\<forall>a < 0x20000. r a = r' a)"

lemma same_wram_slot:
  assumes "same_wram r r'" "slot < 12"
  shows "r (0x14c8 + slot) = r' (0x14c8 + slot)" "r (0x9e + slot) = r' (0x9e + slot)" "r (0x163e + slot) = r' (0x163e + slot)"
    "r (0x1564 + slot) = r' (0x1564 + slot)" "r (0xe4 + slot) = r' (0xe4 + slot)" "r (0x14e0 + slot) = r' (0x14e0 + slot)"
    "r (0xd8 + slot) = r' (0xd8 + slot)" "r (0x14d4 + slot) = r' (0x14d4 + slot)" "r (0x187b + slot) = r' (0x187b + slot)"
    "r (0x151c + slot) = r' (0x151c + slot)" "r (0x160e + slot) = r' (0x160e + slot)"
  using assms by (simp_all add: same_wram_def)

lemma berry_same: "same_wram r r' \<Longrightarrow> coop_mount_pending_berry e r = coop_mount_pending_berry e r'"
proof (cases "unat (en_slot e) < 12")
  case True
  assume "same_wram r r'"
  note s = same_wram_slot [OF this True]
  show ?thesis by (simp only: coop_mount_pending_berry_def Let_def s)
qed (simp add: coop_mount_pending_berry_def Let_def)

lemma mouth_active_same: "same_wram r r' \<Longrightarrow> coop_mount_mouth_active r slot = coop_mount_mouth_active r' slot"
  using same_wram_slot [of r r' slot] by (simp add: coop_mount_mouth_active_def Let_def)

lemma mouth_step_same: "same_wram r r' \<Longrightarrow> slot < 12 \<Longrightarrow> mouth_step m r st slot = mouth_step m r' st slot"
  using same_wram_slot [of r r'] mouth_active_same [of r r' slot]
  by (simp add: mouth_step_def Let_def not_le cong: if_cong split: option.split)

lemma mouths_same: "same_wram r r' \<Longrightarrow> coop_machine_mouths_valid m r = coop_machine_mouths_valid m r'"
proof -
  assume same: "same_wram r r'"
  have "foldl (mouth_step m r) st [0..<12] = foldl (mouth_step m r') st [0..<12]" for st
    by (rule foldl_cong) (simp_all add: mouth_step_same [OF same])
  then show ?thesis by (simp only: coop_machine_mouths_valid_def berries_distinct_def berry_same [OF same])
qed

lemma egg_same: "same_wram r r' \<Longrightarrow> placed_egg_valid m r s = placed_egg_valid m r' s"
proof (cases "last_entity (m_entities m) (pe_egg s)")
  case (Some egg)
  assume "same_wram r r'"
  note s = same_wram_slot [OF this, of "unat (en_slot egg)"]
  show ?thesis by (cases "unat (en_slot egg) < 12") (simp_all only: placed_egg_valid_def Some option.case Let_def s, simp_all)
qed (simp add: placed_egg_valid_def)

lemma eggs_same: "same_wram r r' \<Longrightarrow> coop_machine_placed_eggs_valid m r = coop_machine_placed_eggs_valid m r'"
  using egg_same [of r r' m] by (simp add: coop_machine_placed_eggs_valid_def list_all_iff)

text \<open>A machine that can be saved.\<close>

definition savable :: "CoopMachine \<Rightarrow> bool" where
  "savable m \<longleftrightarrow> shaped m \<and> in_play m \<and> entities_valid m \<and> valid (m_session m) \<and> list_all piece_valid (machine_pieces m) \<and>
     coop_machine_save_size m \<noteq> 0 \<and> coop_machine_save_size m \<le> UINT32_MAX"

lemma saved_image:
  assumes "savable m" "\<forall>n. alloc n"
  obtains saved where "coop_machine_save alloc m (replicate (coop_machine_save_size m) 0) = Some saved"
    "length saved = coop_machine_save_size m" "\<And>old. coop_machine_load alloc saved old = (True, trimmed m)"
proof -
  let ?n = "coop_machine_save_size m"
  have "\<exists>buf. coop_machine_save alloc m (replicate ?n 0) = Some buf \<and> length buf = length (replicate ?n (0 :: u8)) \<and>
      drop ?n buf = drop ?n (replicate ?n 0) \<and> coop_machine_load alloc (take ?n buf) zero_machine = (True, trimmed m)"
    using assms by (intro machine_roundtrip) (simp_all add: savable_def)
  then obtain buf where b: "coop_machine_save alloc m (replicate ?n 0) = Some buf" "length buf = ?n"
    "coop_machine_load alloc (take ?n buf) zero_machine = (True, trimmed m)" by auto
  have "coop_machine_load alloc buf old = (True, trimmed m)" for old
    using b(2,3) by (simp add: coop_machine_load_def split: option.splits)
  then show ?thesis using that b(1,2) by blast
qed


text \<open>What a snapshot of a co-op session holds behind the guest's part.\<close>

definition coop_extra :: "SpawnState \<Rightarrow> u8 list \<Rightarrow> u8 list" where
  "coop_extra sp saved = write_u32 SMW_COOP_SAVE_MAGIC @ renderer_chunk sp @ saved @ footer (length saved)"

lemma tag_length: "length (tag t) = length t"
  by (simp add: tag_def)

lemma footer_length [simp]: "length (footer n) = 8"
  by (simp add: footer_def tag_length le32_write)

lemma coop_extra_saved:
  assumes "appends sv written" "SmwCoopActive (gs_runtime gs)" "savable (rt_machine (gs_runtime gs))" "\<forall>n. bd_alloc b n"
  obtains saved where "written (SmwStateSaveExtra b sv gs s) = written s @ coop_extra (rh_spawn (gs_hooks gs)) saved"
    "length saved = coop_machine_save_size (rt_machine (gs_runtime gs))"
    "\<And>old. coop_machine_load (bd_alloc b) saved old = (True, trimmed (rt_machine (gs_runtime gs)))"
proof -
  let ?m = "rt_machine (gs_runtime gs)"
  obtain saved where i: "coop_machine_save (bd_alloc b) ?m (replicate (coop_machine_save_size ?m) 0) = Some saved"
    "length saved = coop_machine_save_size ?m" "\<And>old. coop_machine_load (bd_alloc b) saved old = (True, trimmed ?m)"
    using saved_image [OF assms(3,4)] by blast
  have n: "coop_machine_save_size ?m \<noteq> 0" "coop_machine_save_size ?m \<le> UINT32_MAX"
    using assms(3) by (simp_all add: savable_def)
  have app: "written (sv_write sv bs t) = written t @ bs" for bs t using assms(1) by (simp add: appends_def)
  have "written (SmwStateSaveExtra b sv gs s) = written s @ coop_extra (rh_spawn (gs_hooks gs)) saved"
    using assms(2,4) n i(1,2)
    by (simp add: SmwStateSaveExtra_def SmwCoopSaveExtra_def Let_def app renderer_saved [OF assms(1)] coop_extra_def)
  then show ?thesis using that i(2,3) by blast
qed

lemma words_in_extra:
  assumes "p = g @ coop_extra sp saved"
  shows "get32 p (length g) = SMW_COOP_SAVE_MAGIC" "get32 p (length g + 4) = SMW_RENDERER_MAGIC" "get32 p (length g + 8) = 1"
proof -
  show "get32 p (length g) = SMW_COOP_SAVE_MAGIC"
    by (rule get32_here [where pre = g]) (simp_all add: assms coop_extra_def)
  show "get32 p (length g + 4) = SMW_RENDERER_MAGIC"
    by (rule get32_here [where pre = "g @ write_u32 SMW_COOP_SAVE_MAGIC"])
      (simp_all add: assms coop_extra_def renderer_chunk_def)
  show "get32 p (length g + 8) = 1"
    by (rule get32_here [where pre = "g @ write_u32 SMW_COOP_SAVE_MAGIC @ write_u32 SMW_RENDERER_MAGIC"])
      (simp_all add: assms coop_extra_def renderer_chunk_def)
qed

lemma extra_parts:
  assumes p: "p = g @ coop_extra sp saved" and sp: "spawns_ok sp" and n: "length saved \<le> UINT32_MAX"
  shows "length p = length g + 145 + length saved + 8" "drop (length p - 4) p = tag ''CNRE''"
    "unat (get32 p (length p - 8)) = length saved" "take (length saved) (drop (length g + 145) p) = saved"
proof -
  let ?pre = "g @ write_u32 SMW_COOP_SAVE_MAGIC @ renderer_chunk sp"
  have l: "length ?pre = length g + 145" using renderer_chunk_length [OF sp] by simp
  have p': "p = ?pre @ saved @ footer (length saved)" by (simp add: p coop_extra_def)
  show size: "length p = length g + 145 + length saved + 8" using l by (simp add: p')
  have e: "p = (?pre @ saved @ le32 (of_nat (length saved))) @ tag ''CNRE''" by (simp add: p' footer_def)
  have "length p - 4 = length (?pre @ saved @ le32 (of_nat (length saved)))"
    by (simp add: e tag_length)
  then show "drop (length p - 4) p = tag ''CNRE''" by (simp only: e append_eq_conv_conj) simp
  have "get32 p (length p - 8) = of_nat (length saved)"
    by (rule get32_here [where pre = "?pre @ saved" and post = "tag ''CNRE''"])
      (use size l in \<open>simp_all add: p' footer_def le32_write\<close>)
  then show "unat (get32 p (length p - 8)) = length saved" using n by (simp add: unat_of_nat_u32)
  show "take (length saved) (drop (length g + 145) p) = saved" using l by (simp add: p')
qed


text \<open>A guest's part that the framework writes for the layout, with the machine's mouths and eggs in its RAM.\<close>

definition guest_part :: "Layout \<Rightarrow> CoopMachine \<Rightarrow> u8 list \<Rightarrow> bool" where
  "guest_part la m g \<longleftrightarrow> length g = la_guest la \<and> 8 \<le> length g \<and> get32 g 0 = RTLS_MAGIC \<and> get32 g 4 = la_version la \<and>
     la_ram la + 0x20000 \<le> length g \<and> coop_machine_mouths_valid m (\<lambda>a. g ! (la_ram la + a)) \<and>
     coop_machine_placed_eggs_valid m (\<lambda>a. g ! (la_ram la + a))"

lemma get32_prefix: "i + 4 \<le> length g \<Longrightarrow> get32 (g @ rest) i = get32 g i"
  by (simp add: get32_def nth_append)

lemma guest_size_current: "guest_size la (la_version la) = Some (la_guest la)"
  by (auto simp: guest_size_def)

lemma preflight_accepts:
  assumes g: "guest_part la m g" and p: "p = g @ coop_extra sp saved" and sp: "spawns_ok sp"
    and n: "length saved \<le> UINT32_MAX" and load: "\<And>old. coop_machine_load (bd_alloc b) saved old = (True, trimmed m)"
    and rt: "SmwCoopActive rt" "length (m_actors m) = rt_selected rt"
  shows "SmwCoopSnapshotPreflight b la p rt =
    (True, rt\<lparr>rt_staged := trimmed m, rt_staged_size := length saved, rt_consumed := False\<rparr>)"
proof -
  note parts = extra_parts [OF p sp n] and words = words_in_extra [OF p]
  have gl: "length g = la_guest la" "8 \<le> length g" "la_ram la + 0x20000 \<le> length g" using g by (simp_all add: guest_part_def)
  have start: "get32 p 0 = RTLS_MAGIC" "get32 p 4 = la_version la"
    using g by (simp_all add: p guest_part_def get32_prefix)
  have extra: "SmwStateSharedExtraSize rt' = 145" if "SmwCoopActive rt'" for rt'
    using that by (simp add: SmwStateSharedExtraSize_def)
  have frame: "frame_ok p (la_guest la) 145"
    using parts gl words by (simp add: frame_ok_def)
  have same: "same_wram (\<lambda>a. p ! (la_ram la + a)) (\<lambda>a. g ! (la_ram la + a))"
    using gl by (simp add: same_wram_def p nth_append)
  have fits: "staged_fits rt' la (la_guest la) p (trimmed m)" if "rt_selected rt' = rt_selected rt" for rt'
    using g rt(2) that gl unfolding staged_fits_def guest_part_def trimmed_ram mouths_same [OF same] eggs_same [OF same] by simp
  have active: "SmwCoopActive (rt\<lparr>rt_staged := m', rt_staged_size := k, rt_consumed := False\<rparr>)" for m' k
    using rt(1) by (simp add: SmwCoopActive_def)
  show ?thesis
    using parts gl
    by (simp add: SmwCoopSnapshotPreflight_def active start guest_size_current extra frame fits load)
qed

context byte_source
begin

lemma discard_rest: "n \<le> length (view s) \<Longrightarrow> view (discard_bytes get n s) = drop n (view s)"
proof (induction n arbitrary: s rule: less_induct)
  case (less n)
  show ?case
  proof (cases "n = 0")
    case False
    let ?k = "if n > 256 then 256 else n"
    have k: "?k \<le> length (view s)" "n - ?k < n" using less.prems False by auto
    have "n - ?k \<le> length (view (snd (get s ?k)))" using less.prems by (simp add: get_rest [OF k(1)])
    with less.IH [OF k(2) this] show ?thesis
      using False by (simp add: discard_bytes.simps [of get n s] get_rest [OF k(1)] Let_def split: if_splits)
  qed (simp add: discard_bytes.simps [of get 0 s])
qed

lemma coop_extra_loaded:
  assumes "view s = coop_extra sp saved" "spawns_ok sp" "SmwCoopActive (gs_runtime gs)"
    "rt_staged_size (gs_runtime gs) = length saved" "length saved \<noteq> 0"
  shows "\<exists>s'. SmwStateLoadExtra get gs s = (gs\<lparr>gs_chunk_loaded := False,
      gs_hooks := (gs_hooks gs)\<lparr>rh_restored := sp, rh_restored_extra := True\<rparr>,
      gs_runtime := (gs_runtime gs)\<lparr>rt_consumed := True\<rparr>\<rparr>, s') \<and> view s' = []"
proof -
  obtain w s1 where 1: "get s 4 = (w, s1)" by fastforce
  have w: "w = write_u32 SMW_COOP_SAVE_MAGIC" "view s1 = renderer_chunk sp @ saved @ footer (length saved)"
    using get_chunk [of s "write_u32 SMW_COOP_SAVE_MAGIC" _ 4] assms(1) 1 by (simp_all add: coop_extra_def)
  have m: "read_u32 (write_u32 SMW_COOP_SAVE_MAGIC) 0 = SMW_COOP_SAVE_MAGIC" by (rule read_u32_at [of _ "[]" _ "[]"]) simp_all
  obtain s2 where 2: "SmwRendererLoadExtra get (gs_hooks gs) s1 =
      ((gs_hooks gs)\<lparr>rh_restored := sp, rh_restored_extra := True\<rparr>, s2)" "view s2 = saved @ footer (length saved)"
    using renderer_loaded [OF assms(2) w(2)] by blast
  have "view (discard_bytes get (length saved + 8) s2) = []"
    using discard_rest [of "length saved + 8" s2] 2(2) by simp
  then show ?thesis using assms(3-5)
    by (simp add: SmwStateLoadExtra_def 1 w m load_hooks_def 2 load_coop_def SmwCoopLoadExtra_def)
qed

end

text \<open>
  C35. A co-op snapshot restores the session: the bytes that the game appends behind the guest's
  part pass the preflight of a session with as many players, loading them consumes the stream to its
  end, and afterwards the machine is the saved one up to spare capacities, with the triggers of the
  spawn list as they were; the files count as chosen.
\<close>

theorem coop_snapshot_roundtrip:
  assumes "byte_source get view" "appends sv written" "\<forall>n. bd_alloc b n" "spawns_ok (rh_spawn (gs_hooks gs))"
    and "SmwCoopActive (gs_runtime gs)" "savable (rt_machine (gs_runtime gs))"
    and "guest_part la (rt_machine (gs_runtime gs)) g" "written s0 = g"
    and "SmwCoopActive (gs_runtime gs')" "length (m_actors (rt_machine (gs_runtime gs))) = rt_selected (gs_runtime gs')"
    and "view s = drop (la_guest la) (written (SmwStateSaveExtra b sv gs s0))"
  shows "\<exists>rt s' gs''. SmwCoopSnapshotPreflight b la (written (SmwStateSaveExtra b sv gs s0)) (gs_runtime gs') = (True, rt) \<and>
    SmwStateLoadExtra get (gs'\<lparr>gs_runtime := rt\<rparr>) s = (gs'', s') \<and> view s' = [] \<and>
    (let final = SmwOnStateLoaded adapter gs''
     in rt_machine (gs_runtime final) = trimmed (rt_machine (gs_runtime gs)) \<and>
        rh_spawn (gs_hooks final) = rh_spawn (gs_hooks gs) \<and> rt_files_chosen (gs_runtime final) \<and>
        rt_staged_size (gs_runtime final) = 0)"
proof -
  let ?m = "rt_machine (gs_runtime gs)" and ?sp = "rh_spawn (gs_hooks gs)"
  obtain saved where saved: "written (SmwStateSaveExtra b sv gs s0) = g @ coop_extra ?sp saved"
    "length saved = coop_machine_save_size ?m" "\<And>old. coop_machine_load (bd_alloc b) saved old = (True, trimmed ?m)"
    using coop_extra_saved [OF assms(2,5,6,3), of s0] assms(8) by metis
  have n: "length saved \<noteq> 0" "length saved \<le> UINT32_MAX" using assms(6) saved(2) by (simp_all add: savable_def)
  let ?rt = "(gs_runtime gs')\<lparr>rt_staged := trimmed ?m, rt_staged_size := length saved, rt_consumed := False\<rparr>"
  have pre: "SmwCoopSnapshotPreflight b la (written (SmwStateSaveExtra b sv gs s0)) (gs_runtime gs') = (True, ?rt)"
    by (rule preflight_accepts [OF assms(7) saved(1) assms(4) n(2) saved(3) assms(9,10)])
  have "length g = la_guest la" using assms(7) by (simp add: guest_part_def)
  then have view: "view s = coop_extra ?sp saved" using assms(11) saved(1) by simp
  have active: "SmwCoopActive ?rt" using assms(9) by (simp add: SmwCoopActive_def)
  obtain s' where load: "SmwStateLoadExtra get (gs'\<lparr>gs_runtime := ?rt\<rparr>) s = (gs'\<lparr>gs_runtime := ?rt, gs_chunk_loaded := False,
      gs_hooks := (gs_hooks gs')\<lparr>rh_restored := ?sp, rh_restored_extra := True\<rparr>,
      gs_runtime := ?rt\<lparr>rt_consumed := True\<rparr>\<rparr>, s')" "view s' = []"
    using byte_source.coop_extra_loaded [OF assms(1) view assms(4), of "gs'\<lparr>gs_runtime := ?rt\<rparr>"] active n(1) by auto
  have active': "SmwCoopActive (?rt\<lparr>rt_consumed := True\<rparr>)" using active by (simp add: SmwCoopActive_def)
  define gs'' where "gs'' = gs'\<lparr>gs_runtime := ?rt, gs_chunk_loaded := False,
      gs_hooks := (gs_hooks gs')\<lparr>rh_restored := ?sp, rh_restored_extra := True\<rparr>,
      gs_runtime := ?rt\<lparr>rt_consumed := True\<rparr>\<rparr>"
  have "let final = SmwOnStateLoaded adapter gs''
     in rt_machine (gs_runtime final) = trimmed ?m \<and> rh_spawn (gs_hooks final) = ?sp \<and>
        rt_files_chosen (gs_runtime final) \<and> rt_staged_size (gs_runtime final) = 0"
    using active' by (simp add: gs''_def SmwOnStateLoaded_def SmwRendererStateLoaded_def SmwCoopStateLoaded_def Let_def)
  with pre load show ?thesis unfolding gs''_def [symmetric] by blast
qed


section \<open>What a snapshot can do to the session\<close>

lemma preflight_cases:
  assumes "SmwCoopSnapshotPreflight b la p rt = (ok, rt1)" "SmwCoopActive rt"
  shows "SmwCoopActive rt1 \<and> rt_machine rt1 = rt_machine rt \<and> rt_selected rt1 = rt_selected rt \<and> \<not> rt_consumed rt1 \<and>
    (if ok then \<exists>guest. guest_size la (get32 p 4) = Some guest \<and> frame_ok p guest 145 \<and>
         get32 p 0 = RTLS_MAGIC \<and> rt_staged_size rt1 = length p - guest - 153 \<and>
         coop_machine_load (bd_alloc b) (take (length p - guest - 153) (drop (guest + 145) p)) zero_machine = (True, rt_staged rt1) \<and>
         staged_fits rt la guest p (rt_staged rt1)
     else rt_staged_size rt1 = 0)"
proof -
  define rt0 where "rt0 = rt\<lparr>rt_staged := zero_machine, rt_staged_size := 0, rt_consumed := False\<rparr>"
  have rt0: "SmwCoopActive rt0" "rt_machine rt0 = rt_machine rt" "rt_selected rt0 = rt_selected rt"
    "rt_staged rt0 = zero_machine" "rt_staged_size rt0 = 0" "\<not> rt_consumed rt0"
    using assms(2) by (simp_all add: rt0_def SmwCoopActive_def)
  have keep: "SmwCoopActive (rt0\<lparr>rt_staged := m, rt_staged_size := k\<rparr>)" "SmwCoopActive (rt0\<lparr>rt_staged := m\<rparr>)" for m k
    using rt0(1) by (simp_all add: SmwCoopActive_def)
  have extra: "SmwStateSharedExtraSize rt0 = 145" using rt0(1) by (simp add: SmwStateSharedExtraSize_def)
  note run = assms(1) [unfolded SmwCoopSnapshotPreflight_def coop_machine_destroy_def Let_def, folded rt0_def]
  show ?thesis
  proof (cases "length p < 16 \<or> drop (length p - 4) p \<noteq> tag ''CNRE'' \<or> get32 p 0 \<noteq> RTLS_MAGIC \<or>
      guest_size la (get32 p 4) = None")
    case True
    then have "(ok, rt1) = (False, rt0)" using run rt0(1) by (auto split: if_splits)
    then show ?thesis using rt0 by simp
  next
    case False
    then obtain guest where guest: "guest_size la (get32 p 4) = Some guest" by auto
    show ?thesis
    proof (cases "frame_ok p guest 145")
      case False
      then have "(ok, rt1) = (False, rt0)" using run rt0(1) guest \<open>\<not> (length p < 16 \<or> _)\<close> by (simp add: extra)
      then show ?thesis using rt0 by simp
    next
      case True
      then have n: "unat (get32 p (length p - 8)) = length p - guest - 153" by (simp add: frame_ok_def Let_def)
      obtain good m where load: "coop_machine_load (bd_alloc b) (take (length p - guest - 153) (drop (guest + 145) p)) zero_machine = (good, m)"
        by fastforce
      have fits: "staged_fits rt0 la guest p m = staged_fits rt la guest p m" using rt0(3) by (simp add: staged_fits_def)
      show ?thesis
        using run rt0 guest \<open>\<not> (length p < 16 \<or> _)\<close> True load keep
        by (cases good; cases "staged_fits rt la guest p m") (auto simp: extra n fits)
    qed
  qed
qed


end
