(* ===== verification/Witnesses3.thy ===== *)
theory Witnesses3
  imports Witnesses2 Game_State Coop_Presentation Sim_End
begin

text \<open>
  Concrete controllers and sessions on which the hypotheses of the remaining properties hold.
\<close>

definition falcon_controller :: ForeignController where
  "falcon_controller = \<lparr>fc_address = 1, fc_id = ''falcon'', fc_reset = None,
     fc_tick = Some (\<lambda>s input r. (s, r)), fc_resolve = None, fc_save_version = 3,
     fc_serialize = Some (\<lambda>s capacity. Some (write_u32 (fs_state s))),
     fc_deserialize = Some (\<lambda>s payload version. Some (s\<lparr>fs_state := read_u32 payload 0\<rparr>))\<rparr>"

definition falcon_runs :: Foreign where
  "falcon_runs = snes_foreign_set_ownership FOREIGN_OWNERSHIP_FOREIGN
     (snd (snes_foreign_select ''falcon'' (snd (snes_foreign_register falcon_controller initial_foreign))))"

lemma falcon_runs_state:
  "fo_controllers falcon_runs = [falcon_controller]" "fo_active falcon_runs = Some falcon_controller"
  "fo_ownership falcon_runs = FOREIGN_OWNERSHIP_FOREIGN" "fo_state falcon_runs = zero_foreign\<lparr>fs_facing := 0x3F800000\<rparr>"
  by (simp_all add: falcon_runs_def snes_foreign_set_ownership_def snes_foreign_select_def snes_foreign_register_def
      initial_foreign_def falcon_controller_def find_controller_def FOREIGN_MAX_CONTROLLERS_def)


theorem trace_keeps_latest_witness:
  "snes_foreign_trace_last 1 (fold snes_foreign_trace_push [zero_entry, zero_entry\<lparr>te_frame := 7\<rparr>]
     (ftring_clear initial_foreign)) = [zero_entry\<lparr>te_frame := 7\<rparr>]"
  using trace_keeps_latest [of "[zero_entry, zero_entry\<lparr>te_frame := 7\<rparr>]" 1 initial_foreign]
  by (simp add: FTRING_N_def)


section \<open>The renderer\<close>

definition tile_draw :: "nat \<Rightarrow> nat \<Rightarrow> SpriteDraw" where
  "tile_draw slot order = \<lparr>sd_image = no_oam_owner, sd_slot = slot, sd_high = 0, sd_kind = 0, sd_actor = 0, sd_order = order\<rparr>"

definition drawing :: Renderer where
  "drawing = initial_renderer\<lparr>rn_pending_draws :=
     \<lparr>dl_items = [tile_draw 3 0, tile_draw 1 1, tile_draw 3 2], dl_capacity = 128\<rparr>\<rparr>"

lemma drawing_ok: "renderer_ok drawing"
  using initial_renderer_ok by (simp add: renderer_ok_def drawing_def pending_ok_def tile_draw_def)

theorem latch_indexes_draws_witness:
  "\<exists>s'. SmwRendererLatchFrame everything (\<lambda>a. 0) True drawing = Some s' \<and> draws_of s' 3 = [tile_draw 3 0, tile_draw 3 2]"
proof -
  have e: "SmwRendererEndActor everything (\<lambda>a. 0) drawing = Some drawing"
    by (simp add: SmwRendererEndActor_def drawing_def initial_renderer_def no_actor_draw_def)
  then obtain s' where s': "SmwRendererLatchFrame everything (\<lambda>a. 0) True drawing = Some s'"
    by (simp add: SmwRendererLatchFrame_def Let_def)
  have "\<not> reuses_draws (\<lambda>a. 0) drawing" by (simp add: reuses_draws_def drawing_def)
  with latch_indexes_draws [OF drawing_ok s', of 3] e s' show ?thesis
    by (auto simp: drawing_def tile_draw_def)
qed

definition wide_env :: RenderEnv where
  "wide_env = \<lparr>re_enabled = True, re_adaptive = True, re_view = \<lparr>vp_width = 320, vp_extra = 32\<rparr>,
     re_bus = (\<lambda>ram bank a. if bank = 7 \<and> a = 0x8003 then 0x0d else 0), re_alloc = everything\<rparr>"

text \<open>The list is at \<^verbatim>\<open>$07:8000\<close>, and its first record is a sprite at the left edge.\<close>

definition list_ram :: mem where
  "list_ram = (\<lambda>a. 0)(0xcf := 0x80, 0xd0 := 7, 0x1692 := 19)"

definition list_cpu :: CpuState where
  "list_cpu = \<lparr>cpu_A = 0, cpu_X = 0, cpu_Y = 1, cpu_S = 0, cpu_D = 0, cpu_P = 0, cpu_PB = 0, cpu_DB = 0,
     cpu_m_flag = True, cpu_x_flag = True, cpu_flag_N = False, cpu_flag_V = False, cpu_flag_Z = False,
     cpu_flag_C = False, cpu_host_return_valid = False,
     cpu_cycles = 0, cpu_master_cycles = 0, cpu_coprocessor_master_cycles = 0, cpu_open_bus = 0\<rparr>"

lemma list_cpu_simps [simp]: "cpu_X list_cpu = 0" "cpu_Y list_cpu = 1" "cpu_D list_cpu = 0"
  by (simp_all add: list_cpu_def)

lemma list_reads:
  "list_pointer list_cpu (list_ram(0x1938 := v)) = 0x78000" "r8 (list_ram(0x1938 := v)) 0x1938 = unat v"
  "record_byte wide_env list_cpu (list_ram(0x1938 := v)) 0 = 0" "record_byte wide_env list_cpu (list_ram(0x1938 := v)) (Suc 0) = 0"
  "record_byte wide_env list_cpu (list_ram(0x1938 := v)) 2 = 0x0d"
  "near_view wide_env (list_ram(0x1938 := v)) 0" "placement_has_slot wide_env (list_ram(0x1938 := v)) 0x0d 0"
  by (simp_all add: list_pointer_def record_byte_def r16_def r8_def list_ram_def wide_env_def cpu_read8_def
      near_view_def left_margin_def vertical_level_def SmwViewOffset_def placement_has_slot_def Let_def)

lemma list_record: "record_x wide_env list_cpu (list_ram(0x1938 := v)) = 0" "about wide_env 0 (list_cpu, list_ram(0x1938 := v))"
  by (simp_all add: record_x_def about_def list_reads follows_camera_def Let_def)

theorem spawn_once_witness:
  "list_all2 (\<lambda>v d. about wide_env 0 v \<longrightarrow> d = Some False)
     [(list_cpu, list_ram(0x1938 := 1)), (list_cpu, list_ram(0x1938 := 0))]
     (decisions wide_env [(list_cpu, list_ram(0x1938 := 1)), (list_cpu, list_ram(0x1938 := 0))]
        (snd (select_record wide_env list_cpu (list_ram(0x1938 := 0)) fresh_spawns)))"
proof (rule spawn_once [OF fresh_spawns_ok list_record(2)])
  have "fst (select_record wide_env list_cpu (list_ram(0x1938 := 0)) fresh_spawns) = Some True"
    by (simp add: select_record_def list_reads list_record follows_camera_def visit_record_def settle_pending_def
        fresh_spawns_def Let_def)
  then show "select_record wide_env list_cpu (list_ram(0x1938 := 0)) fresh_spawns =
      (Some True, snd (select_record wide_env list_cpu (list_ram(0x1938 := 0)) fresh_spawns))"
    by (simp add: prod_eq_iff)
qed (simp_all add: stays_near_def list_reads list_record)

section \<open>Snapshots of a co-op session\<close>

definition plain_board :: Board where
  "plain_board = \<lparr>bd_alloc = everything, bd_threads = True, bd_sram_path = (\<lambda>root. root @ ''/smw.srm''),
     bd_read_sram = (\<lambda>root sram. sram), bd_writable = True, bd_mirrors = (\<lambda>c. c), bd_simulation = (\<lambda>pc g. (0, g))\<rparr>"

definition pair_runtime :: Runtime where
  "pair_runtime = \<lparr>rt_enabled = True, rt_choosing = False, rt_files_chosen = True, rt_disconnected = False, rt_selected = 2,
     rt_machine = pair, rt_staged = zero_machine, rt_staged_size = 0, rt_consumed = False\<rparr>"

definition pair_state :: GameState where
  "pair_state = \<lparr>gs_runtime = pair_runtime,
     gs_hooks = \<lparr>rh_spawn_frame = 0, rh_spawn = fresh_spawns, rh_restored = fresh_spawns, rh_restored_extra = False,
       rh_fireball_x = 0, rh_wing_x = 0, rh_wing_draw = False, rh_baseball_draw = False\<rparr>,
     gs_renderer = initial_renderer, gs_foreign = initial_foreign, gs_falcon_enabled = False, gs_chunk_loaded = False,
     gs_ram = (\<lambda>a. 0)\<rparr>"

definition pair_layout :: Layout where
  "pair_layout = \<lparr>la_version = 10, la_guest = 0x20008, la_ram = 8\<rparr>"

definition blank_guest :: "u8 list" where
  "blank_guest = write_u32 RTLS_MAGIC @ write_u32 10 @ replicate 0x20000 0"

definition memory_saver :: "u8 list Saver" where
  "memory_saver = \<lparr>sv_write = (\<lambda>bs s. s @ bs), sv_fail = (\<lambda>s. s)\<rparr>"

lemma pair_active: "SmwCoopActive pair_runtime"
  by (simp add: SmwCoopActive_def pair_runtime_def)

lemma pair_savable: "savable pair"
  by (simp add: savable_def pair_shaped pair_in_play pair_valid duo_valid pair_pieces pair_size UINT32_MAX_def)

lemma blank_guest_part: "guest_part pair_layout pair blank_guest"
proof -
  have same: "same_wram (\<lambda>a. blank_guest ! (8 + a)) (\<lambda>a. 0)"
    by (simp add: same_wram_def blank_guest_def nth_append)
  have "foldl (mouth_step pair (\<lambda>a. 0)) st slots = st" for st slots
    by (induction slots arbitrary: st) (simp_all add: mouth_step_def coop_mount_mouth_active_def split: option.split)
  then have "coop_machine_mouths_valid pair (\<lambda>a. 0)"
    by (simp add: coop_machine_mouths_valid_def berries_distinct_def)
  moreover have "get32 blank_guest 0 = RTLS_MAGIC" by (rule get32_here [where pre = "[]"]) (simp_all add: blank_guest_def)
  moreover have "get32 blank_guest 4 = 10"
    by (rule get32_here [where pre = "write_u32 RTLS_MAGIC"]) (simp_all add: blank_guest_def)
  moreover have "length blank_guest = 0x20008" by (simp add: blank_guest_def)
  ultimately show ?thesis
    by (simp add: guest_part_def pair_layout_def mouths_same [OF same] coop_machine_placed_eggs_valid_def)
qed

theorem coop_snapshot_roundtrip_witness:
  "\<exists>rt s' gs''. SmwCoopSnapshotPreflight plain_board pair_layout
       (SmwStateSaveExtra plain_board memory_saver pair_state blank_guest) pair_runtime = (True, rt) \<and>
     SmwStateLoadExtra memory_get (pair_state\<lparr>gs_runtime := rt\<rparr>)
       (drop 0x20008 (SmwStateSaveExtra plain_board memory_saver pair_state blank_guest)) = (gs'', s') \<and>
     rt_machine (gs_runtime (SmwOnStateLoaded (\<lambda>fo ram. ram) gs'')) = trimmed pair"
  using coop_snapshot_roundtrip [OF memory.byte_source_axioms, of memory_saver "\<lambda>s. s" plain_board pair_state pair_layout
      blank_guest blank_guest pair_state
      "drop 0x20008 (SmwStateSaveExtra plain_board memory_saver pair_state blank_guest)" "\<lambda>fo ram. ram"]
    blank_guest_part pair_savable pair_active
  by (simp add: appends_def memory_saver_def plain_board_def everything_def pair_state_def fresh_spawns_ok
      pair_runtime_def pair_layout_def Let_def) blast


definition campaign_host :: Host where
  "campaign_host = \<lparr>ho_ram = (\<lambda>a. 0), ho_sram = [7], ho_root = COOP_ROOT, ho_storage = empty_storage, ho_selection = None\<rparr>"

theorem campaign_kept_witness:
  "\<exists>ho1 ho2. switch_storage plain_board 2 1 campaign_host = Some (True, ho1) \<and> ho_sram ho1 = [0] \<and>
     switch_storage plain_board 1 2 (ho1\<lparr>ho_sram := [9]\<rparr>) = Some (True, ho2) \<and> ho_sram ho2 = [7]"
proof -
  note defs = switch_storage_def campaign_host_def plain_board_def SmwCoopQueueStorage_def start_worker_def
    empty_storage_def SmwCoopReadQueuedStorage_def latest_image_def root_of_def COOP_ROOT_def everything_def
    SIZE_MAX_def SIZEOF_STORAGE_IMAGE_def
  obtain ho1 where 1: "switch_storage plain_board 2 1 campaign_host = Some (True, ho1)" "ho_sram ho1 = [0]"
    "ho_root ho1 = ''saves''"
    by (simp add: defs)
  moreover obtain ho2 where 2: "switch_storage plain_board 1 2 (ho1\<lparr>ho_sram := [9]\<rparr>) = Some (True, ho2)"
    using 1 by (auto simp: defs)
  moreover have "ho_sram ho2 = ho_sram campaign_host \<and> ho_root ho2 = ho_root campaign_host"
    by (rule campaign_kept [OF 1(1) _ _ _ _ _ _ _ _ 2]) (simp_all add: campaign_host_def root_of_def plain_board_def COOP_ROOT_def)
  ultimately show ?thesis by (simp add: campaign_host_def)
qed

section \<open>Pictures\<close>

definition blank_ppu :: Ppu where
  "blank_ppu = \<lparr>pp_vram = (\<lambda>a. 0), pp_cgram = (\<lambda>a. 0), pp_obsel = 0, pp_hscroll2 = 0, pp_vscroll2 = 0, pp_bgxsc2 = 0,
     pp_bgtileadr = 0\<rparr>"

text \<open>A sprite table with one entry on the screen, the fifth.\<close>

definition one_sprite :: mem where
  "one_sprite = (\<lambda>a. if 0x200 \<le> a \<and> a mod 4 = 1 \<and> a \<noteq> 0x215 then 0xf0 else 0)"

lemma hidden_entries:
  "list_all (\<lambda>slot. slot \<noteq> 5) slots \<Longrightarrow>
     foldl (capture_step ppu rom one_sprite pic palette capacity False ox oy) (Some pieces) slots = Some pieces"
proof (induction slots)
  case (Cons slot slots)
  have "rd16 one_sprite (0x200 + slot * 4) div 256 = 0xf0"
  proof -
    have "(513 + slot * 4) mod 4 = 1" by presburger
    moreover have "(512 + slot * 4) mod 4 = 0" by presburger
    ultimately show ?thesis using Cons.prems by (simp add: rd16_def one_sprite_def)
  qed
  with Cons show ?case by (simp add: capture_step_def Let_def)
qed simp

lemma fifth_entry: "rd16 one_sprite 0x214 = 0" "rd16 one_sprite 532 div 256 = 0"
  by (simp_all add: rd16_def one_sprite_def)

lemma fifth_step:
  "capture_step ppu rom one_sprite pic palette 7 False ox oy (Some []) 5 =
     Some [captured_piece ppu one_sprite pic palette ox oy 5]"
  by (simp add: capture_step_def Let_def fifth_entry)

lemma table_in_parts: "[0..<128] = [0..<5] @ [5] @ [6..<128 :: nat]"
proof -
  have "[0..<128 :: nat] = [0..<5] @ [5..<128]" using upt_add_eq_append [of 0 5 123] by (simp del: upt_rec_numeral)
  also have "[5..<128 :: nat] = 5 # [6..<128]" by (subst upt_conv_Cons) (simp_all del: upt_rec_numeral)
  finally show ?thesis by simp
qed

lemma captures_are_valid_witness:
  "\<exists>v. SmwCoopCaptureVisual blank_ppu (\<lambda>a. 0) one_sprite = Some [v] \<and> piece_ok v"
proof -
  have low: "list_all (\<lambda>slot. slot \<noteq> 5) [0..<5 :: nat]" and high: "list_all (\<lambda>slot. slot \<noteq> 5) [6..<128 :: nat]"
    by (auto simp: list_all_iff simp del: upt_rec_numeral)
  let ?pic = "player_tiles one_sprite 0 (\<lambda>a. 0)"
  let ?v = "captured_piece blank_ppu one_sprite ?pic (\<lambda>a. 0) 0 0 5"
  let ?loop = "foldl (capture_step blank_ppu (\<lambda>a. 0) one_sprite ?pic (\<lambda>a. 0) 7 False 0 0)"
  have "?loop (Some []) [0..<5] = Some []" "?loop (Some [?v]) [6..<128] = Some [?v]"
    by (rule hidden_entries [OF low], rule hidden_entries [OF high])
  then have "?loop (Some []) [0..<128] = Some [?v]"
    unfolding table_in_parts foldl_append by (simp add: fifth_step del: upt_rec_numeral)
  moreover have "rd16 one_sprite 0xd82 = 0" "one_sprite 0xd84 = 0" by (simp_all add: rd16_def one_sprite_def)
  ultimately have c: "capture_pieces blank_ppu (\<lambda>a. 0) one_sprite 7 False 0 0 = Some [?v]"
    by (simp add: capture_pieces_def blank_ppu_def Let_def del: upt_rec_numeral)
  moreover have "SmwCoopCaptureVisual blank_ppu (\<lambda>a. 0) one_sprite = capture_pieces blank_ppu (\<lambda>a. 0) one_sprite 7 False 0 0"
    by (simp add: SmwCoopCaptureVisual_def capture_visual_def COOP_BODY_PIECES_def int16_of_def rd16_def one_sprite_def)
  ultimately show ?thesis using captures_are_valid [OF c] by simp
qed

definition shown :: CoopMachine where
  "shown = pair\<lparr>m_room_initialized := True\<rparr>"

theorem prepare_fits_witness:
  "\<exists>objs cap. SmwCoopPresentationPrepare everything 32 True blank_ppu (\<lambda>a. 0) (\<lambda>a. 0) 256 0 True (Some shown) 0 = Some (objs, cap) \<and>
     length objs \<le> cap \<and> cap = 5"
proof -
  have w: "wanted_objects shown True = 5"
    by (simp add: wanted_objects_def shown_def two_zeros zero_fireball_def)
  have ok: "pieces_ok shown" by (simp add: pieces_ok_def shown_def zero_fireball_def)
  have "m_room_initialized shown" by (simp add: shown_def)
  then obtain objs where o: "SmwCoopPresentationPrepare everything 32 True blank_ppu (\<lambda>a. 0) (\<lambda>a. 0) 256 0 True (Some shown) 0 = Some (objs, 5)"
    by (simp add: SmwCoopPresentationPrepare_def w draw_capacity_def draw_pixels SIZE_MAX_def everything_def)
  from prepare_fits [OF ok o] o show ?thesis by blast
qed

end
