(* ===== verification/Witnesses4.thy ===== *)
theory Witnesses4
  imports Sim_Scopes Sim_Order Sim_Removal Sim_Ledger Witnesses3
begin

text \<open>
  Concrete states of the simulation on which the hypotheses of its properties hold.
\<close>

definition idle_guards :: Guards where
  "idle_guards = \<lparr>gd_player = 0, gd_sprite = 0, gd_camera = 0, gd_room_sprite = 0, gd_room_load = 0,
     gd_spawning_mount = False, gd_carried_reward = 0, gd_mount_draw = 0, gd_contact = 0, gd_chuck = 0, gd_cape = 0,
     gd_platform = 0, gd_fireball_spawn = 0, gd_extended_call = 0, gd_boss_fireball = 0, gd_extended_contact = 0,
     gd_extended_query = False, gd_collecting_mouths = False, gd_owned_boss_bank = False, gd_contact_query = False,
     gd_bounce_only = False, gd_powerup_query = False, gd_goal_query = False, gd_goal_commit = False,
     gd_keyhole_query = False, gd_frozen_bonus = False, gd_settling_bonus = False\<rparr>"

definition idle_cpu :: CpuState where
  "idle_cpu = \<lparr>cpu_A = 0, cpu_X = 0, cpu_Y = 1, cpu_S = 0x1ff, cpu_D = 0, cpu_P = 0, cpu_PB = 0, cpu_DB = 0,
     cpu_m_flag = True, cpu_x_flag = True, cpu_flag_N = False, cpu_flag_V = False, cpu_flag_Z = False,
     cpu_flag_C = False, cpu_host_return_valid = False,
     cpu_cycles = 0, cpu_master_cycles = 0, cpu_coprocessor_master_cycles = 0, cpu_open_bus = 0\<rparr>"

text \<open>A frame of a level with two players; the sprite in slot 0 belongs to the first.\<close>

definition shell :: CoopEntity where
  "shell = (new_entity 1 COOP_ENTITY_NORMAL 0 0)\<lparr>en_owner := 0, en_flags := COOP_ENTITY_HELD\<rparr>"

definition shell_machine :: CoopMachine where
  "shell_machine = pair\<lparr>m_entities := [shell], m_next_entity := 2\<rparr>"

definition level_world :: World where
  "level_world = \<lparr>w_ram = (\<lambda>a. 0), w_cpu = idle_cpu,
     w_ppu = \<lparr>pp_vram = (\<lambda>a. 0), pp_cgram = (\<lambda>a. 0), pp_obsel = 0, pp_hscroll2 = 0, pp_vscroll2 = 0, pp_bgxsc2 = 0, pp_bgtileadr = 0\<rparr>,
     w_machine = shell_machine, w_guards = idle_guards, w_bound = None, w_queried_contact = CONTACT_NONE,
     w_extended_found = False, w_mouths = [], w_mouth_capacity = 0, w_berries = [], w_berry_capacity = 0,
     w_damaged = replicate 12 0, w_level_frame = True, w_timer_had_time = True, w_stage_started = False,
     w_end_timer = 0, w_scene_request = COOP_NO_PLAYER, w_room_request = COOP_NO_PLAYER, w_goal_contact = False,
     w_frozen_score = 6, w_goal_height = 0, w_goal_stars = 0, w_goal_actor = COOP_NO_PLAYER, w_goal_entity = COOP_NO_ENTITY\<rparr>"

text \<open>A game whose routines report a contact with a star and leave the memory blank.\<close>

definition star_env :: Env where
  "star_env = \<lparr>sv_rom = (\<lambda>a. 0), sv_alloc = everything, sv_run = (\<lambda>pc w. (True, w\<lparr>w_queried_contact := CONTACT_STAR, w_ram := (\<lambda>a. 0)\<rparr>)),
     sv_push_jsr = (\<lambda>w. w), sv_push_jsl = (\<lambda>w. w), sv_write8 = (\<lambda>b a v w. w), sv_mouth_bytes = 128, sv_berry_bytes = 128,
     sv_p_to_mirrors = (\<lambda>c. c), sv_pad = (\<lambda>i. 0), sv_face = 0xf, sv_select = 0x10, sv_start = 0x20, sv_swap = (\<lambda>v. v),
     sv_active = True, sv_viewport = \<lparr>vp_width = 320, vp_extra = 32\<rparr>\<rparr>"

lemma star_env_guests: "guests_keep_roster star_env"
  by (simp add: guests_keep_roster_def star_env_def roster_def)

lemma level_world_simps [simp]:
  "w_machine level_world = shell_machine" "w_ram level_world = (\<lambda>a. 0)" "w_guards level_world = idle_guards"
  "w_cpu level_world = idle_cpu" "w_bound level_world = None" "w_level_frame level_world" "w_damaged level_world = replicate 12 0"
  by (simp_all add: level_world_def)

lemma shell_machine_simps [simp]:
  "m_session shell_machine = duo" "m_entities shell_machine = [shell]" "m_next_entity shell_machine = 2"
  "m_actors shell_machine = [zero_actor, zero_actor\<lparr>ac_player := 1, ac_input_seat := 1\<rparr>]"
  "m_sources shell_machine = []" "m_placed_eggs shell_machine = []"
  by (simp_all add: shell_machine_def)

lemma shell_machine_ok: "machine_ok shell_machine"
  by (simp add: machine_ok_def entity_table_def links_live_def shell_def new_entity_def entity_slot_valid_def duo_def
      new_player_def)

theorem released_objects_retired_witness:
  "machine_ok (w_machine (retire_released_objects level_world)) \<and> \<not> live (w_machine (retire_released_objects level_world)) 1"
  using released_objects_retired [of level_world] shell_machine_ok
  by (simp add: in_game_def shell_def new_entity_def)

lemma level_roster: "roster level_world = (0, [0, 1])"
  by (simp add: roster_def duo_def zero_session_def zero_actor_def)

theorem in_order_sorted_witness:
  "in_order (\<lambda>i w. Some (bind_actor (Some i) w)) level_world = each_do (\<lambda>i w. Some (bind_actor (Some i) w)) [0, 1] level_world"
proof -
  have "proper_roster (roster level_world)" by (simp add: proper_roster_def level_roster COOP_NO_PLAYER_def)
  moreover have "ranked_actors (roster level_world) = [0, 1]" by (simp add: ranked_actors_def level_roster order_key_def upt_rec)
  ultimately show ?thesis using in_order_sorted [of level_world "\<lambda>i w. Some (bind_actor (Some i) w)"] by simp
qed


lemma zero_guest_power: "coop_guest_bind (replicate COOP_GUEST_BYTES 0) r 0x19 = 0"
proof -
  have "coop_guest_peek (replicate COOP_GUEST_BYTES 0) 0x19 = Some 0"
    by (simp add: coop_guest_peek_def Coop_Guest.fields_def guest_bytes)
  then show ?thesis by (subst bind_peek) (simp_all add: LEGACY_CLOUD_COINS_def)
qed

text \<open>What the runs for single players leave alone here: who plays, and who comes first.\<close>

definition seats :: "World \<Rightarrow> u32 list \<times> CoopLifeState list \<times> u32 \<times> u32 list" where
  "seats w = (map p_id (players (m_session (w_machine w))), map p_life (players (m_session (w_machine w))),
     primary (m_session (w_machine w)), map ac_player (m_actors (w_machine w)))"

definition two_seats :: "u32 list \<times> CoopLifeState list \<times> u32 \<times> u32 list" where
  "two_seats = ([0, 1], [COOP_PLAYING, COOP_PLAYING], 0, [0, 1])"

lemma level_seats: "seats level_world = two_seats"
  by (simp add: seats_def two_seats_def duo_def zero_session_def zero_actor_def new_player_def zero_player_def)

lemma find_by_id:
  "find_index (\<lambda>p. p_id p = y) ps = find_index (\<lambda>k. k = y) (map p_id ps)"
  "find_index (\<lambda>a. ac_player a = y) as = find_index (\<lambda>k. k = y) (map ac_player as)"
  by (simp_all add: find_index_map comp_def)

lemma seated:
  assumes "seats w = two_seats" "i < 2"
  shows "player_index i w = Some i" "primary_actor w = Some 0" "actor_life i w = Some COOP_PLAYING"
    "p_life (player_at i w) = COOP_PLAYING" "length (m_actors (w_machine w)) = 2" "length (players (m_session (w_machine w))) = 2"
proof -
  from assms(1) have m: "map p_id (players (m_session (w_machine w))) = [0, 1]" "map p_life (players (m_session (w_machine w))) = [COOP_PLAYING, COOP_PLAYING]"
    "primary (m_session (w_machine w)) = 0" "map ac_player (m_actors (w_machine w)) = [0, 1]" by (simp_all add: seats_def two_seats_def)
  show n: "length (m_actors (w_machine w)) = 2" "length (players (m_session (w_machine w))) = 2"
    using arg_cong [OF m(4), of length] arg_cong [OF m(1), of length] by simp_all
  have who: "ac_player (m_actors (w_machine w) ! i) = of_nat i"
    using arg_cong [OF m(4), of "\<lambda>xs. xs ! i"] assms(2) n by (auto simp: less_2_cases_iff)
  show p: "player_index i w = Some i"
    using assms(2) by (auto simp: player_index_def coop_player_def find_by_id m who actor_at_def less_2_cases_iff)
  show life: "p_life (player_at i w) = COOP_PLAYING"
    using arg_cong [OF m(2), of "\<lambda>xs. xs ! i"] assms(2) n by (auto simp: player_at_def less_2_cases_iff)
  show "actor_life i w = Some COOP_PLAYING" by (simp add: actor_life_def p life)
  show "primary_actor w = Some 0" by (simp add: primary_actor_def coop_machine_actor_def find_by_id m)
qed

lemma seats_steps [simp]:
  "seats (on_ram f w) = seats w" "seats (on_regs h w) = seats w" "seats (on_guards u w) = seats w" "seats (bind_actor k w) = seats w"
  "seats (poke8 a v w) = seats w" "seats (put_scratch bs w) = seats w" "seats (bind_contact i w) = seats w" "seats (bind_guest i w) = seats w"
  "seats (poke_all as v w) = seats w" "seats (w\<lparr>w_queried_contact := q\<rparr>) = seats w"
  by (simp_all add: seats_def on_ram_def on_regs_def on_guards_def bind_actor_def poke8_def put_scratch_def bind_contact_def
      bind_guest_def bind_image_def bind_mount_def poke_all_def Let_def)

lemma capture_seats:
  assumes "seats w = two_seats" "i < 2" "w_ram w 0x19 = 0"
  shows "\<exists>w'. capture i w = Some w' \<and> seats w' = two_seats \<and> (\<forall>k. k \<noteq> i \<longrightarrow> actor_at k w' = actor_at k w)"
proof -
  have "power_of 0 = Some COOP_SMALL" by (simp add: power_of_def)
  with assms(3) obtain p where p: "coop_guest_read_player (player_at i w) (w_ram w) = Some p"
    by (simp add: coop_guest_read_player_def Let_def)
  have same: "p_id p = p_id (player_at i w)" "p_life p = p_life (player_at i w)"
    using p by (auto simp: coop_guest_read_player_def Let_def split: option.split_asm)
  note here = seated [OF assms(1,2)]
  define v where "v = on_machine (on_player i (\<lambda>_. p) \<circ> upd_actor i (ac_guest_update (\<lambda>_. coop_guest_capture (w_ram w)))) w"
  have "capture i w = Some v" unfolding v_def by (simp add: capture_def here(1) p)
  moreover have "seats v = seats w"
    using same here(6) assms(2) by (simp add: seats_def v_def on_machine_def on_player_def on_session_def upd_player_def upd_actor_def
        map_upd_at_same upd_at_def map_update player_at_def list_update_same_conv here(5))
  moreover have "\<forall>k. k \<noteq> i \<longrightarrow> actor_at k v = actor_at k w"
    by (simp add: v_def on_machine_def on_player_def on_session_def upd_actor_def actor_at_def)
  ultimately show ?thesis using assms(1) by (intro exI [of _ v]) simp
qed

lemma star_jsr: "guest_jsr star_env pc w = Some (w\<lparr>w_queried_contact := CONTACT_STAR, w_ram := (\<lambda>a. 0)\<rparr>)"
  by (simp add: guest_jsr_def guest_call_def star_env_def)

lemma star_query:
  assumes "seats w = two_seats" "i < 2"
  shows "\<exists>c winner' w'. query_contact star_env 0 caller scratch 0 x y entry i ((cs, winner), w) = Some ((cs @ [c], winner'), w') \<and>
    seats w' = two_seats \<and> contested c"
proof -
  note here = seated [OF assms]
  let ?u = "bind_contact i (put_scratch scratch (on_regs (restore_registers caller) w))"
  let ?v = "poke8 0x154c 0 (?u\<lparr>w_queried_contact := CONTACT_STAR, w_ram := (\<lambda>a. 0)\<rparr>)"
  have "seats ?v = two_seats" using assms(1) by (simp add: seats_def bind_contact_def bind_guest_def bind_image_def bind_mount_def
      poke8_def on_ram_def put_scratch_def on_regs_def bind_actor_def Let_def)
  moreover have "w_ram ?v 0x19 = 0" by (simp add: poke8_def on_ram_def)
  ultimately obtain w' where w': "capture i ?v = Some w'" "seats w' = two_seats" using capture_seats [of ?v i] assms(2) by blast
  have star: "w_queried_contact w' = CONTACT_STAR"
    using w'(1) by (auto simp: capture_def Option.bind_eq_Some_conv on_machine_def poke8_def on_ram_def)
  show ?thesis using w' star by (simp add: query_contact_def here star_jsr Let_def contested_def)
qed

theorem contact_winner_best_witness:
  "\<exists>cs b w'. gather (query_contact star_env 0 idle_cpu (replicate 16 0) 0 8 8 0x01a7e4) (actor_indices level_world) (([], None), level_world) =
       Some ((cs, Some b), w') \<and> length cs = 2 \<and>
     (\<forall>c \<in> set cs. contested c \<longrightarrow> contact_key (0, [0, 1]) b \<le> contact_key (0, [0, 1]) c)"
proof -
  let ?q = "query_contact star_env 0 idle_cpu (replicate 16 0) 0 8 8 0x01a7e4"
  have first: "\<exists>c winner' v. ?q 0 (([], None), level_world) = Some (([c], winner'), v) \<and> seats v = two_seats \<and> contested c"
    using star_query [OF level_seats, of 0 _ _ _ _ _ "[]"] by simp
  then obtain c winner' v where v: "?q 0 (([], None), level_world) = Some (([c], winner'), v)" "seats v = two_seats" "contested c" by blast
  obtain d winner w' where w': "?q 1 (([c], winner'), v) = Some (([c, d], winner), w')" "contested d"
    using star_query [OF v(2), of 1 _ _ _ _ _ "[c]"] by fastforce
  have "actor_indices level_world = [0, 1]" by (simp add: actor_indices_def upt_rec)
  with v w' have g: "gather ?q (actor_indices level_world) (([], None), level_world) = Some (([c, d], winner), w')" by simp
  from contact_winner_best [OF star_env_guests g] v(3) w'(2) obtain b where "winner = Some b" by (auto split: option.splits)
  with contact_winner_best [OF star_env_guests g] g show ?thesis by (auto simp: level_roster)
qed


text \<open>A level of one screen, whose map of blocks is blank.\<close>

definition block_world :: World where
  "block_world = level_world\<lparr>w_ram := (\<lambda>a. 0)(0x5d := 1)\<rparr>"

definition block_env :: Env where
  "block_env = star_env\<lparr>sv_rom := (\<lambda>a. 0xc8)\<rparr>"

theorem one_grant_per_player_witness:
  "\<exists>w'. grant_source block_env block_world = Some w' \<and> source_uses (block_key block_world) w' = 1"
proof -
  have w: "w_machine block_world = shell_machine" "w_ram block_world = (\<lambda>a. 0)(0x5d := 1)" "w_cpu block_world = idle_cpu"
    by (simp_all add: block_world_def)
  have "rom8 t a = Some 0xc8" if "t_rom t = map (\<lambda>a. 0xc8) [0..<0x80000]" "a mod 0x10000 \<ge> 0x8000" "a < 0x10000" for t a
    using that by (simp add: rom8_def Let_def del: upt_rec_numeral)
  then have "coop_terrain_block (terrain_of block_env block_world) 0 0 0 = Some 0"
    by (simp add: coop_terrain_block_def screen_block_def terrain_of_def Let_def w block_env_def remap_block_def del: upt_rec_numeral)
  then have "\<exists>w'. grant_source block_env block_world = Some w'"
    by (simp add: grant_source_def Let_def w reg_x_def idle_cpu_def rd16_def block_base_def coop_yoshi_source_def block_env_def
        star_env_def grow_table_def SIZE_MAX_def SIZEOF_SOURCE_def everything_def shell_machine_def pair_def arena_def zero_machine_def)
  then obtain w' where w': "grant_source block_env block_world = Some w'" by blast
  have "source_uses (block_key block_world) block_world = 0" by (simp add: source_uses_def w)
  with one_grant_per_player [OF w'] w' show ?thesis by (auto simp: w)
qed

lemma strip_seats:
  assumes "seats w = two_seats" "i < 2" "ac_guest (actor_at i w) = replicate COOP_GUEST_BYTES 0"
  shows "\<exists>w'. strip_actor i w = Some w' \<and> seats w' = two_seats \<and> (\<forall>k. k \<noteq> i \<longrightarrow> actor_at k w' = actor_at k w)"
proof -
  let ?u = "on_machine (upd_actor i (\<lambda>a. a\<lparr>ac_stored_mount := 0, ac_stored_mount_color := 0\<rparr>)) (bind_guest i w)"
  let ?v = "poke_all [0x1891, 0x13f3, 0x187a, 0x148f, 0x1470] 0 ?u"
  have "w_ram ?v 0x19 = 0"
    using zero_guest_power by (simp add: poke_all_def on_ram_def on_machine_def bind_guest_def bind_image_def assms(3))
  moreover have "seats ?v = two_seats"
    using assms(1) by (simp add: seats_def poke_all_def on_ram_def on_machine_def bind_guest_def bind_image_def upd_actor_def map_upd_at_same)
  ultimately obtain w' where "capture i ?v = Some w'" "seats w' = two_seats" "\<forall>k. k \<noteq> i \<longrightarrow> actor_at k w' = actor_at k ?v"
    using capture_seats [of ?v i] assms(2) by blast
  moreover have "actor_at k ?v = actor_at k w" if "k \<noteq> i" for k
    using that by (simp add: actor_at_def poke_all_def on_ram_def on_machine_def bind_guest_def bind_image_def upd_actor_def)
  ultimately show ?thesis by (simp add: strip_actor_def Let_def)
qed

theorem nothing_owned_survives_witness:
  "\<exists>w'. end_attempt level_world = Some w' \<and> machine_ok (w_machine w') \<and> set (m_entities (w_machine w')) = {}"
proof -
  let ?w = "discard_owned 0 level_world"
  have d: "?w = on_machine (coop_machine_forget_entity 1) (poke8 0x14c8 0 level_world)"
    by (subst discard_owned.simps) (simp add: Let_def entity_at_def shell_def new_entity_def on_machine_def poke8_def on_ram_def
        coop_machine_forget_entity_def coop_machine_entity_def swap_remove_def discard_owned.simps COOP_NO_PLAYER_def)
  have players: "p_life (release_player i p) = p_life p" "p_id (release_player i p) = p_id p" for i p by simp_all
  have s: "seats ?w = two_seats" and a: "m_actors (w_machine ?w) = m_actors shell_machine"
    using level_seats by (simp_all add: d seats_def on_machine_def poke8_def on_ram_def coop_machine_forget_entity_def
        coop_machine_entity_def comp_def)
  have zeros: "ac_guest (actor_at i ?w) = replicate COOP_GUEST_BYTES 0" if "i < 2" for i
    using that by (auto simp: actor_at_def a zero_actor_def less_2_cases_iff)
  obtain u where u: "strip_actor 0 ?w = Some u" "seats u = two_seats" "\<forall>k. k \<noteq> 0 \<longrightarrow> actor_at k u = actor_at k ?w"
    using strip_seats [OF s, of 0] zeros by auto
  then obtain v where v: "strip_actor 1 u = Some v" "seats v = two_seats" using strip_seats [OF u(2), of 1] zeros by auto
  have "actor_indices ?w = [0, 1]" using a by (simp add: actor_indices_def upt_rec)
  with u v seated(2) [OF v(2), of 0] obtain w' where w': "end_attempt level_world = Some w'"
    by (simp add: end_attempt_def Let_def)
  with nothing_owned_survives [OF w'] shell_machine_ok show ?thesis
    by (intro exI [of _ w']) (auto simp: shell_def new_entity_def COOP_NO_PLAYER_def)
qed


end
