(* ===== verification/Spec2Isabelle.thy ===== *)
theory Spec2Isabelle
  imports Witnesses4
begin

text \<open>
  A verification library for the native co-op mode of the Super Mario World recompilation.

  \<^bold>\<open>The program.\<close>  The repository turns the game's 65816 code into a native program.  The recompiled
  code itself is generated and not in the repository; the hand-written C code around it is.  Its
  co-op mode (\<^verbatim>\<open>src/mods/coop\<close>) runs several players in a game that was written for one: for every
  player in turn it binds the player's bytes into the console's work RAM, runs the game's player
  routine, and captures them again.  The decisions that the original never had to take are the
  policy of \<^verbatim>\<open>coop_session.c\<close>: who gets an item two players touch, when a death costs a life, where
  the camera looks, who is left behind and where a player may return.

  \<^bold>\<open>The theories and the code.\<close>

  \<^item> \<open>Prelude\<close>: integer types, byte reads, array search and update, the selection loop (locale
    \<open>selection\<close>), index loops and the growth of arrays (\<open>grow\<close>).
  \<^item> \<open>Coop_Session\<close>: \<^verbatim>\<open>coop_session.h\<close> and the session operations of \<^verbatim>\<open>coop_session.c\<close> up to the
    nearest-player query and the input latch.  \<open>Coop_Roster\<close>: the life cycle of players as an
    interface (locale \<open>roster_op\<close>) that every session operation implements.
  \<^item> \<open>Coop_Resolve\<close>, \<open>Coop_Resolve_Facts\<close>: \<open>coop_session_resolve\<close>, its sorting, its three loops and
    what they establish (C1 to C3).
  \<^item> \<open>Coop_Camera\<close>, \<open>Coop_Camera_Facts\<close>: camera, separation, recovery and restart (C13 to C15).
    \<open>Coop_Recovery\<close>: what recovery does to each player and the interface it needs from a placement
    query (locale \<open>placement\<close>; C16, lemma \<open>input_latch\<close>).
  \<^item> \<open>Coop_Guest\<close>: \<^verbatim>\<open>coop_guest.c\<close> and \<^verbatim>\<open>coop_player_fields.def\<close>, the native player image (C17, lemma \<open>read_of_place\<close>).
  \<^item> \<open>Coop_Machine\<close>, \<open>Coop_Machine_Facts\<close>: \<^verbatim>\<open>coop_machine.c\<close>, the entity table with stable identities
    over reusable slots (locale \<open>machine_op\<close>, relation \<open>native_step\<close>), the focus and the validity
    predicates of snapshots (C18, C19, lemma \<open>spawn_entity_spec\<close>).
  \<^item> \<open>Coop_Terrain\<close>: \<^verbatim>\<open>coop_terrain.c\<close>, the placement query that recovery uses (C20 to C22).
  \<^item> \<open>Coop_State\<close>, \<open>Coop_State_Facts\<close>: \<^verbatim>\<open>coop_state.c\<close>, the session codec (locale \<open>codec\<close>; lemmas
    \<open>session_roundtrip\<close>, \<open>session_load_transactional\<close>).
  \<^item> \<open>Coop_Codec\<close>, \<open>Coop_Codec_Facts\<close>, \<open>Coop_Snapshot\<close>: the snapshots of \<^verbatim>\<open>coop_machine.c\<close>, a writer and a
    reader of sections in versions 2 to 8 (locale \<open>item_codec\<close>; lemma \<open>machine_roundtrip\<close>, C23).
  \<^item> \<open>Coop_Storage\<close>: \<^verbatim>\<open>coop_storage.c\<close>, the queue of save files that a worker thread writes; the
    interleavings are the relation \<open>storage_step\<close> (C24).
  \<^item> \<open>Mod_Audio\<close>: \<^verbatim>\<open>mod_audio.c\<close>, the clips of mods and their mixer (locale \<open>audio_op\<close>; C25, lemma \<open>mix_in_bounds\<close>).
  \<^item> \<open>Config_Keys\<close>, \<open>Config_Parse\<close>, \<open>Config_Facts\<close>, \<open>Config_Write\<close>: \<^verbatim>\<open>config.c\<close>, the chained tables of
    key and gamepad bindings (locale \<open>linked_entries\<close>), the parser of the configuration files, and
    the writer that keeps the rest of the file (C26 to C29).  \<open>C_Strings\<close>: what they use of the C library.
  \<^item> \<open>Coop_Patch\<close>, \<open>Coop_Hle\<close>: \<^verbatim>\<open>coop_patch.c\<close>, IPS patches, the installation of the patched ROM and
    the routines that stand for code of the hack (C30, C31).
  \<^item> \<open>Fire_Stream\<close>: \<^verbatim>\<open>lua_fire_stream.c\<close>, a pool of projectiles that the game's own routine drives on
    a private copy of the memory (C32, lemma \<open>fire_accounting\<close>).
  \<^item> \<open>Foreign_Controller\<close>: \<^verbatim>\<open>foreign_controller.c\<close>, the host of a movement controller from another game:
    registration, ticks, the trace ring and the snapshot chunk, with its reachable states
    (\<open>foreign_reachable\<close>; C33, C34, lemma \<open>sweep_ends_free\<close>).
  \<^item> \<open>Renderer_Objects\<close>: \<^verbatim>\<open>smw_renderer.c\<close> up to the raster capture, which object draws which entry of
    the sprite table (invariant \<open>renderer_ok\<close>; C38).  \<open>Renderer_Hooks\<close>:
    \<^verbatim>\<open>smw_renderer_hooks.c\<close>, the visibility decisions of the wider view and the state machine that
    selects sprites of the level's list (C39).  \<open>Guest_Cpu\<close>: the registers of the guest.
  \<^item> \<open>State_Stream\<close>, \<open>Coop_Runtime\<close>, \<open>Game_State\<close>: the game's part of a snapshot
    (\<^verbatim>\<open>smw_cpu_infra.c\<close>; streams as the locale \<open>byte_source\<close>) and \<^verbatim>\<open>coop_runtime.c\<close>, which
    chooses the campaign, waits for controllers and guards what a snapshot may install
    (C35, C36, C37).
  \<^item> \<open>Coop_Presentation\<close>: \<^verbatim>\<open>coop_presentation.c\<close>, the capture of each player's sprites, the latch and
    the extra objects of a frame (C40, lemmas \<open>captures_are_valid\<close>,
    \<open>latch_keeps_pieces\<close>).
  \<^item> \<open>Sim_World\<close>, \<open>Sim_Rooms\<close>, \<open>Sim_Players\<close>, \<open>Sim_Contacts\<close>, \<open>Sim_Hook\<close>, \<open>Sim_End\<close>:
    \<^verbatim>\<open>coop_simulation.c\<close>, the driver of the mode.  \<open>Sim_World\<close> holds its state (\<open>World\<close>: work RAM,
    processor, machine, the guards that say which adapter runs), mounts, carried objects, eggs and
    fireballs; \<open>Sim_Rooms\<close> attempts, room changes and the roster at their start; \<open>Sim_Players\<close> the player
    routine once for every player, drawing and the camera; \<open>Sim_Contacts\<close> the queries for contact,
    goal and keyhole, and who wins them; \<open>Sim_Hook\<close> the table of hooked addresses and their
    handlers, with \<^verbatim>\<open>SmwCoopSimulationBegin\<close>; \<open>Sim_End\<close> the end of a frame.
  \<^item> \<open>Sim_Guards\<close>, \<open>Sim_Scopes\<close>: every operation of the simulation leaves the guards as it found them if
    the game's routines do (collection \<open>guarded\<close>), so no adapter runs between the frames
    (C4).  \<open>Sim_Adapters\<close>: adapters give the caller its processor and scratch memory
    back (C5).  \<open>Sim_Ledger\<close>: one hit on an enemy in a frame, one Yoshi for each player from a
    block (C6, C8).  \<open>Sim_Removal\<close>: the loops that remove entities while
    they go over the table (C9 to C11).  \<open>Sim_Order\<close>: the order of
    precedence and the winner of a contact (C12, C7).
  \<^item> \<open>Witnesses\<close>, \<open>Witnesses2\<close>, \<open>Witnesses3\<close>, \<open>Witnesses4\<close>: concrete sessions, machines, files, buffers
    and states of the simulation on which the properties apply.

  \<^bold>\<open>Modelling.\<close>  A C structure is a record, an owned array a list, a pointer into an array an index, a
  failing allocation a parameter \<open>alloc\<close>.  Unsigned integers are words; signed 32-bit fields are
  words read by \<open>sint\<close>, and arithmetic that the code does in \<open>int64_t\<close> is done in \<open>int\<close>.  A null
  pointer argument, for which the functions return early, is not a value of the model.  Loops over
  arrays are folds; the loops whose index jumps or stays (\<open>process\<close>, \<open>row_clear\<close>, \<open>column_clear\<close>,
  \<open>grow_next\<close>, \<open>ips_records\<close>, \<open>retire_from\<close>, \<open>discard_owned\<close>) are functions with a termination proof.  The loops over linked chains and
  over prefixes that a parameter cuts off may not end for every argument and are partial functions
  into \<open>option\<close>; C26, lemma \<open>gamepad_serves_most_specific\<close> and C27 show that they return.  The only bound in the model is the code's
  own limit of 20000 instructions for a projectile (\<open>run_routine\<close>) and of 12 nested files.

  Code that is not in the repository is a parameter: the framework's string functions (\<open>Util\<close>),
  its save-file writer (\<open>writer\<close>), the 65816 interpreter (\<open>opcode\<close>, a tree of bus accesses), the
  recompiler's dispatcher (\<open>Framework\<close>), the compiler's arithmetic on doubles (\<open>Doubles\<close>), SDL's key codes (\<open>Sdl\<close>), the framework's save files and state streams (\<open>Board\<close>, \<open>Saver\<close>, \<open>getter\<close>) and the failures of the disk (\<open>Disk\<close>).

  \<^bold>\<open>Not modelled.\<close>  The game glue, whose behaviour is that of the generated game code; the traces
  that only print; window, audio device, OpenGL and network I/O (\<^verbatim>\<open>main.c\<close>, \<^verbatim>\<open>opengl.c\<close>, the
  lobby); the floating-point physics of the Falcon mod; vendored code.
\<close>

end
